(* ===== verification/Prelude.thy ===== *)
theory Prelude
  imports Main
begin

text \<open>
  What every component shares: the SQL reading of a table as the list of its rows in
  insertion order (a selective \<open>UPDATE\<close>, a \<open>count(*)\<close>, an \<open>EXISTS\<close>), the sequencing of
  fallible steps, the outcome of a transaction (a thrown error rolls it back), and the
  lemma collections the component proofs use.
\<close>

section \<open>Collections\<close>

named_theorems table_simps \<open>how counts and look-ups react to inserts and updates\<close>
named_theorems step_defs \<open>definitions of the atomic store steps\<close>

section \<open>Tables as lists of rows\<close>

text \<open>\<open>UPDATE t SET f WHERE P\<close>, \<open>SELECT count(*) FROM t WHERE P\<close> and \<open>EXISTS\<close>.\<close>

definition update_where :: "('r \<Rightarrow> bool) \<Rightarrow> ('r \<Rightarrow> 'r) \<Rightarrow> 'r list \<Rightarrow> 'r list" where
  "update_where P f rows = map (\<lambda>r. if P r then f r else r) rows"

definition count_where :: "('r \<Rightarrow> bool) \<Rightarrow> 'r list \<Rightarrow> nat" where
  "count_where P rows = length (filter P rows)"

definition exists_where :: "('r \<Rightarrow> bool) \<Rightarrow> 'r list \<Rightarrow> bool" where
  "exists_where P rows = list_ex P rows"

lemma count_where_Nil [table_simps, simp]: "count_where P [] = 0"
  by (simp add: count_where_def)

lemma count_where_Cons [table_simps]:
  "count_where P (r # rows) = (if P r then Suc (count_where P rows) else count_where P rows)"
  by (simp add: count_where_def)

lemma count_where_append [table_simps]:
  "count_where P (xs @ ys) = count_where P xs + count_where P ys"
  by (simp add: count_where_def)

lemma count_where_update [table_simps]:
  "count_where Q (update_where P f rows) = count_where (\<lambda>r. Q (if P r then f r else r)) rows"
  by (induction rows) (simp_all add: count_where_def update_where_def)

lemma count_where_cong:
  assumes "\<And>r. r \<in> set rows \<Longrightarrow> P r = Q r"
  shows "count_where P rows = count_where Q rows"
  unfolding count_where_def using assms by (metis (mono_tags, lifting) filter_cong)

lemma count_where_mono:
  assumes "\<And>r. r \<in> set rows \<Longrightarrow> P r \<Longrightarrow> Q r"
  shows "count_where P rows \<le> count_where Q rows"
  using assms by (induction rows) (auto simp: count_where_Cons le_SucI)

lemma count_where_0_iff: "count_where P rows = 0 \<longleftrightarrow> (\<forall>r \<in> set rows. \<not> P r)"
  by (induction rows) (auto simp: count_where_Cons)

lemma count_where_pos_iff: "0 < count_where P rows \<longleftrightarrow> (\<exists>r \<in> set rows. P r)"
  using count_where_0_iff [of P rows] by auto

lemma count_where_disj:
  assumes "\<And>r. \<not> (P r \<and> Q r)"
  shows "count_where (\<lambda>r. P r \<or> Q r) rows = count_where P rows + count_where Q rows"
  using assms by (induction rows) (auto simp: count_where_Cons)

lemma exists_where_iff: "exists_where P rows \<longleftrightarrow> (\<exists>r \<in> set rows. P r)"
  by (simp add: exists_where_def list_ex_iff)

lemma set_update_where:
  "set (update_where P f rows) = (\<lambda>r. if P r then f r else r) ` set rows"
  by (simp add: update_where_def)

lemma update_where_Nil [simp]: "update_where P f [] = []"
  by (simp add: update_where_def)

lemma update_where_Cons:
  "update_where P f (r # rows) = (if P r then f r else r) # update_where P f rows"
  by (simp add: update_where_def)

lemma length_update_where [simp]: "length (update_where P f rows) = length rows"
  by (simp add: update_where_def)

text \<open>An update that keeps a column keeps the list of its values.\<close>

lemma map_update_where:
  assumes "\<And>r. g (f r) = g r"
  shows "map g (update_where P f rows) = map g rows"
  using assms by (simp add: update_where_def)

lemma update_where_none:
  assumes "\<And>r. r \<in> set rows \<Longrightarrow> \<not> P r"
  shows "update_where P f rows = rows"
  using assms by (simp add: update_where_def map_idI)

lemma find_Some_in: "find P xs = Some x \<Longrightarrow> x \<in> set xs \<and> P x"
  by (metis find_Some_iff nth_mem)

lemma find_None_all: "find P xs = None \<Longrightarrow> x \<in> set xs \<Longrightarrow> \<not> P x"
  by (simp add: find_None_iff)

lemma find_append_new: "find P xs = None \<Longrightarrow> find P (xs @ ys) = find P ys"
  by (induction xs) (auto split: if_splits)

lemma find_update_where:
  assumes "\<And>x. P (f x) = P x"
  shows "find P (update_where Q f xs) = map_option (\<lambda>x. if Q x then f x else x) (find P xs)"
  using assms by (induction xs) (auto simp: update_where_def)

lemma find_updated_None:
  assumes "\<And>x. \<not> P (f x)"
  shows "find P (update_where P f xs) = None"
  using assms by (induction xs) (simp_all add: update_where_def)

lemma update_where_keeps:
  assumes "x \<in> set rows" "\<not> P x"
  shows "x \<in> set (update_where P f rows)"
  using assms by (auto simp: set_update_where intro: rev_image_eqI)

lemma in_update_where:
  assumes "y \<in> set (update_where P f rows)"
  obtains x where "x \<in> set rows" "y = (if P x then f x else x)"
  using assms unfolding set_update_where by (elim imageE)

text \<open>With a unique key, a row is determined by its key.\<close>

lemma distinct_key_eq:
  assumes "distinct (map key rows)" "r \<in> set rows" "r' \<in> set rows" "key r = key r'"
  shows "r = r'"
  using assms by (metis distinct_map inj_onD)

lemma find_key:
  assumes "distinct (map key rows)" "r \<in> set rows"
  shows "find (\<lambda>x. key x = key r) rows = Some r"
  using assms
proof (induction rows)
  case Nil
  then show ?case by simp
next
  case (Cons x rows)
  then show ?case by (auto simp: image_iff)
qed

text \<open>Moving one row, found by a unique key, into or out of a predicate.\<close>

lemma count_where_key_le_1:
  assumes "distinct (map key rows)"
  shows "count_where (\<lambda>r. key r = k \<and> P r) rows \<le> 1"
  using assms
proof (induction rows)
  case Nil
  then show ?case by simp
next
  case (Cons x rows)
  show ?case
  proof (cases "key x = k")
    case True
    with Cons.prems have "\<forall>r \<in> set rows. key r \<noteq> k" by (auto simp: image_iff)
    then have "count_where (\<lambda>r. key r = k \<and> P r) rows = 0"
      by (simp add: count_where_0_iff)
    then show ?thesis by (simp add: count_where_Cons)
  next
    case False
    with Cons show ?thesis by (simp add: count_where_Cons)
  qed
qed

lemma count_where_gain_one:
  assumes key: "distinct (map key rows)"
    and gain: "\<And>r. r \<in> set rows \<Longrightarrow> Q r \<Longrightarrow> P r \<or> key r = k"
  shows "count_where Q rows \<le> Suc (count_where P rows)"
proof -
  have "count_where Q rows \<le> count_where (\<lambda>r. P r \<or> (\<not> P r \<and> key r = k)) rows"
    using gain by (intro count_where_mono) blast
  also have "\<dots> = count_where P rows + count_where (\<lambda>r. \<not> P r \<and> key r = k) rows"
    by (rule count_where_disj) blast
  also have "count_where (\<lambda>r. \<not> P r \<and> key r = k) rows \<le> 1"
    using count_where_key_le_1 [OF key, of k "\<lambda>r. \<not> P r"] by (simp add: conj_commute)
  finally show ?thesis by simp
qed

text \<open>A predicate at most one row satisfies: how a unique index reads.\<close>

lemma count_where_le_1_eq:
  assumes "count_where P rows \<le> 1" "r \<in> set rows" "r' \<in> set rows" "P r" "P r'"
  shows "r = r'"
  using assms
proof (induction rows)
  case Nil
  then show ?case by simp
next
  case (Cons x rows)
  show ?case
  proof (cases "P x")
    case True
    with Cons.prems(1) have "\<forall>y \<in> set rows. \<not> P y"
      by (simp add: count_where_Cons count_where_0_iff)
    with Cons.prems show ?thesis by auto
  next
    case False
    with Cons show ?thesis by (auto simp: count_where_Cons)
  qed
qed

section \<open>Fallible steps\<close>

text \<open>
  A step that throws is \<open>Inl\<close> of what it threw. \<open>and_then\<close> is the sequencing of
  \<open>await\<close>ed steps: the first throw ends it.
\<close>

definition and_then :: "'e + 'a \<Rightarrow> ('a \<Rightarrow> 'e + 'b) \<Rightarrow> 'e + 'b" where
  "and_then r k = (case r of Inl e \<Rightarrow> Inl e | Inr x \<Rightarrow> k x)"

lemma and_then_simps [simp]:
  "and_then (Inl e) k = Inl e"
  "and_then (Inr x) k = k x"
  by (simp_all add: and_then_def)

lemma and_then_Inr_iff: "and_then r k = Inr y \<longleftrightarrow> (\<exists>x. r = Inr x \<and> k x = Inr y)"
  by (cases r) simp_all

lemma and_then_Inl_iff:
  "and_then r k = Inl e \<longleftrightarrow> r = Inl e \<or> (\<exists>x. r = Inr x \<and> k x = Inl e)"
  by (cases r) simp_all

text \<open>\<open>if (!ok) throw e\<close>.\<close>

definition guard :: "bool \<Rightarrow> 'e \<Rightarrow> 'e + unit" where
  "guard ok e = (if ok then Inr () else Inl e)"

lemma guard_simps [simp]:
  "guard True e = Inr ()"
  "guard False e = Inl e"
  by (simp_all add: guard_def)

lemma guard_Inr_iff: "guard ok e = Inr u \<longleftrightarrow> ok"
  by (simp add: guard_def)

lemma guard_Inl_iff: "guard ok e = Inl e' \<longleftrightarrow> \<not> ok \<and> e' = e"
  by (auto simp: guard_def)

lemmas fallible_iffs = and_then_Inr_iff and_then_Inl_iff guard_Inr_iff guard_Inl_iff

text \<open>
  A transaction's body answers a value and the store as it leaves it, or throws. Run as a
  transaction it commits the one and rolls back the other.
\<close>

definition in_transaction :: "('s \<Rightarrow> 'e + 'a \<times> 's) \<Rightarrow> 's \<Rightarrow> ('e + 'a) \<times> 's" where
  "in_transaction body s = (case body s of Inl e \<Rightarrow> (Inl e, s) | Inr (a, s') \<Rightarrow> (Inr a, s'))"

lemma in_transaction_rollback:
  "fst (in_transaction body s) = Inl e \<Longrightarrow> snd (in_transaction body s) = s"
  by (auto simp: in_transaction_def split: sum.splits)

lemma in_transaction_Inr:
  "in_transaction body s = (Inr a, s') \<longleftrightarrow> body s = Inr (a, s')"
  by (auto simp: in_transaction_def split: sum.splits)

end
