(* ===== verification/Domain.thy ===== *)
theory Domain
  imports Prelude
begin

text \<open>
  The data model: identifiers, principals, errors as values, the ledger's and the payment
  provider's answers, one record per table row with the columns the code writes and reads,
  and the store, one list of rows per table.  Times are Unix milliseconds, amounts the
  asset's minor units, both unbounded integers (the code keeps them in the safe range).
\<close>

section \<open>Identifiers, time, money\<close>

type_synonym ident = string
type_synonym time = int
type_synonym money = int
type_synonym asset = string
type_synonym code = string

section \<open>Principals and causes\<close>

text \<open>\<open>src/auth/ports.ts\<close>: whoever a write or a checkout step is attributed to.\<close>

datatype principal =
    Anonymous
  | Organiser (org_of: ident) (org_session: ident)
  | Operator (oper_of: ident) (oper_org: ident) (oper_session: ident)
  | Holder (account_of: ident) (holder_session: ident)
  | Reviewer (reviewer_of: ident) (reviewer_session: ident)
  | System (system_org: ident) (system_task: string)

text \<open>\<open>src/sales/audit.ts\<close>: a principal, the payment provider's webhook, or the sweep.\<close>

datatype actor = Principal principal | PaymentProvider | SweepActor

record cause =
  cause_request :: ident
  cause_actor :: actor

record request =
  requestId :: ident
  principal :: principal

definition cause_of :: "request \<Rightarrow> cause" where
  "cause_of r = \<lparr>cause_request = requestId r, cause_actor = Principal (principal r)\<rparr>"

section \<open>Failures\<close>

text \<open>\<open>src/authority/errors.ts\<close>: the transport class of a refusal with no SPEC code.\<close>

datatype transport =
  BAD_REQUEST | UNAUTHORIZED | FORBIDDEN | NOT_FOUND | CONFLICT | PRECONDITION_FAILED

text \<open>\<open>src/sales/ports.ts\<close>: why a checkout operation was refused.\<close>

datatype checkout_failure =
    UnknownCheckout | LinkUnconfirmed | NotPairing | PairingCodeMismatch
  | LinkedToAnotherAccount | AccountRequired | HoldEnded | HoldRequired | AlreadyPaid
  | SalesClosed

text \<open>
  What the code throws. Messages are not modelled: codes, classes and reasons are.
  \<open>StoreError\<close> is the database refusing a statement (a unique index, a check constraint),
  \<open>ProviderError\<close> the payment provider failing, \<open>OtherError\<close> a plain \<open>Error\<close>.
\<close>

datatype failure =
    SpecCodeError code "string option"
  | RefusedRequest transport "string option"
  | CheckoutError checkout_failure
  | StoreError
  | ProviderError
  | OtherError

section \<open>The ledger\<close>

text \<open>
  The Ticketto SDK is not under \<open>src/\<close>: its reads are a parameter of the model, a record
  of functions. An error answer carries its \<section>10 code. \<open>inFlight\<close> are the capacity changes
  Kippu has signed that may still take effect at any later time, since no verdict came back,
  and \<open>landedLate\<close> those of them that did; the code reads neither.
\<close>

datatype event_status = Active | Sealed | Cancelled | Finished
datatype zone_kind = SeatedZone | UnseatedZone
datatype provenance = Purchased | Granted

record zone =
  zone_id :: ident
  zone_kind :: zone_kind

record ledger_event =
  owner :: ident
  ev_status :: event_status
  maxCapacity :: "int option"
  issued :: int
  zones :: "zone list"

record ledger_ticket =
  ticket_provenance :: provenance
  ticket_event :: ident

record ledger =
  getEvent :: "ident \<Rightarrow> code + ledger_event"
  getTicket :: "ident \<Rightarrow> code + ledger_ticket"
  getCancellationHolder :: "ident \<Rightarrow> code + ident option"
  inFlight :: "(ident \<times> int) list"
  landedLate :: "(ident \<times> int) list"

text \<open>A settled write's receipt, and how a submission ended: the ledger's verdict, or none.\<close>

record receipt =
  operationId :: ident
  cursor :: ident

datatype submission = NoVerdict | Settled receipt | RejectedWith code

section \<open>What the organiser configures\<close>

text \<open>\<open>src/events/ports.ts\<close>: placements, policies, restrictions.\<close>

datatype placement = Unseated | Seated string

datatype policy = Single | Multiple int "time option" | Unlimited "time option"

record class_row =
  class_id :: ident
  class_event :: ident
  class_name :: string
  class_description :: "string option"
  class_provenance :: provenance
  class_policy :: policy
  cannot_resale :: bool
  cannot_transfer :: bool
  quota :: "int option"
  price :: "money option"
  price_set_at :: "time option"
  class_created_at :: time

record asset_row =
  asset_event :: ident
  sale_asset :: asset
  asset_organiser :: ident
  asset_request :: ident
  asset_set_at :: time

text \<open>
  \<open>Pending\<close>: undertaken; settled: the ledger recorded the ticket; rejected: the ledger
  refused it, and it no longer counts; failed: no verdict came back, and it still counts.
  \<open>granted_seat\<close> is no column: it keeps the seat's ticket the row was inserted with, which
  \<open>granted_ticket\<close>, set again once the issuance is assembled, does not tell apart from an
  issuance that reserved no seat.
\<close>

datatype granted_status = GrantedPending | GrantedSettled | GrantedRejected | GrantedFailed

record granted_row =
  granted_id :: nat
  granted_event :: ident
  granted_class :: ident
  granted_ticket :: "ident option"
  granted_seat :: "ident option"
  granted_holder :: ident
  granted_organiser :: ident
  granted_request :: ident
  granted_status :: granted_status
  granted_cursor :: "ident option"
  granted_operation :: "ident option"
  granted_error :: "code option"
  granted_created_at :: time
  granted_completed_at :: "time option"

section \<open>Sales\<close>

datatype hold_status = Outstanding | Issuing | Confirmed | Lapsed | Released
datatype hosted_status = Open | Paid | Expired | HostedCancelled
datatype sale_status = SaleIssuing | SaleIssued | SaleRejected | SaleFailed
datatype refund_reason =
  IssuanceRejected | PlaceGone | AmountMismatch | EventClosed | EventCancelled
datatype hold_refusal = SoldOut | ClassSoldOut | SeatTaken

datatype checkout_step =
    Begun | Linked | LinkConfirmed | LinkDiscarded | Held | HoldRefused | PaymentStarted
  | CheckoutCancelled | PaymentVerified | IssuedStep | IssuanceRejectedStep
  | IssuanceFailedStep | RefundEntitled | HoldReleased

record checkout_row =
  checkout_id :: ident
  token_hash :: ident
  handoff_token_hash :: ident
  handoff_generation :: nat
  checkout_event :: ident
  checkout_zone :: ident
  checkout_class :: ident
  checkout_position :: "string option"
  holder_account :: "ident option"
  checkout_created_at :: time
  linked_session_id :: "ident option"
  linked_request_id :: "ident option"
  linked_at :: "time option"
  link_confirmed_at :: "time option"
  link_confirmed_request_id :: "ident option"
  created_request_id :: ident
  created_principal_kind :: string

record hold_row =
  hold_id :: ident
  hold_checkout :: ident
  hold_event :: ident
  hold_zone :: ident
  hold_class :: ident
  hold_position :: "string option"
  hold_status :: hold_status
  expires_at :: time
  extended_at :: "time option"
  ended_at :: "time option"
  confirmed_at :: "time option"
  hold_asset :: "asset option"
  hold_price :: "money option"
  hold_request :: ident
  hold_created_at :: time

record hosted_row =
  hosted_id :: ident
  hosted_hold :: ident
  provider_checkout_id :: ident
  hosted_url :: string
  hosted_amount :: money
  hosted_asset :: asset
  hosted_status :: hosted_status
  hosted_expires_at :: time
  hosted_request :: ident
  hosted_created_at :: time
  hosted_updated_at :: time

record sale_row =
  sale_id :: ident
  sale_hosted :: ident
  sale_hold :: ident
  sale_holder :: ident
  sale_status :: sale_status
  sale_ticket :: "ident option"
  receipt_cursor :: "ident option"
  error_code :: "code option"
  operation_id :: "ident option"
  sale_created_at :: time
  completed_at :: "time option"

record refund_row =
  refund_id :: ident
  refund_hosted :: ident
  refund_checkout :: ident
  refund_amount :: money
  refund_asset :: asset
  refund_reason :: refund_reason
  refund_created_at :: time
  refund_ticket :: "ident option"
  refund_purchaser :: "ident option"
  holder_at_cancellation :: "ident option"

record face_row =
  face_ticket :: ident
  face_event :: ident
  face_class :: ident
  face_sale :: ident
  face_amount :: money
  face_asset :: asset
  face_recorded_at :: time

record closure_row =
  closure_event :: ident
  closed_request_id :: ident
  closed_principal :: string
  closed_session :: "ident option"
  closed_at :: time
  reopened_at :: "time option"
  reopened_request_id :: "ident option"

text \<open>\<open>src/sales/audit.ts\<close>: an audit row's detail holds strings, numbers and nulls.\<close>

datatype detail = DStr string | DNum int | DNull

definition detail_of :: "string option \<Rightarrow> detail" where
  "detail_of x = (case x of None \<Rightarrow> DNull | Some v \<Rightarrow> DStr v)"

record audit_row =
  audit_checkout :: ident
  audit_step :: checkout_step
  audit_request :: ident
  audit_actor :: string
  audit_session :: "ident option"
  audit_holder :: "ident option"
  audit_detail :: "(string \<times> detail) list"
  audit_recorded_at :: time

record seat_row =
  seat_event :: ident
  seat_zone :: ident
  designation :: string
  seat_request :: ident
  seat_created_at :: time

text \<open>A ticket of Kippu's derived copy of the ledger: what sales read of it.\<close>

record derived_ticket_row =
  dt_id :: ident
  dt_event :: ident
  dt_seated :: bool
  dt_provenance :: provenance

section \<open>Invitations, scheduled finishes, the audit log, pass windows\<close>

text \<open>\<open>open \<rightarrow> redeeming \<rightarrow> redeemed\<close>; open again when refused; failed with no verdict.\<close>

datatype invitation_status = InvOpen | Redeeming | Redeemed | InvFailed

record invitation_row =
  inv_id :: ident
  inv_token_hash :: ident
  inv_event :: ident
  inv_class :: ident
  inv_zone :: ident
  inv_placement :: placement
  inv_guest :: "string option"
  inv_organiser :: ident
  inv_status :: invitation_status
  inv_holder :: "ident option"
  inv_ticket :: "ident option"
  inv_request :: ident
  inv_created_at :: time
  inv_redeemed_at :: "time option"

datatype finish_status = Scheduled | Running | FinishedStatus | Refused | CancelledStatus

record finish_row =
  fin_id :: ident
  fin_event :: ident
  fin_organiser :: ident
  finish_at :: time
  fin_status :: finish_status
  noticed_at :: "time option"
  fin_error :: "code option"
  fin_request :: ident
  fin_set_at :: time
  fin_ended_at :: "time option"

datatype log_outcome = LogPending | LogSettled | LogRejected | LogFailed

text \<open>\<open>src/audit/audit-log.ts\<close>: the acting principal is stored as six columns.\<close>

record log_row =
  log_request :: ident
  log_kind :: string
  log_organiser :: "ident option"
  log_operator :: "ident option"
  log_session :: "ident option"
  log_holder :: "ident option"
  log_reviewer :: "ident option"
  log_operation :: ident
  log_command :: string
  log_recorded_at :: time
  log_outcome :: log_outcome
  log_cursor :: "ident option"
  log_error :: "code option"
  log_completed_at :: "time option"

record window_row =
  win_event :: ident
  window_ms :: time
  win_organiser :: ident
  win_request :: ident
  win_set_at :: time

section \<open>The store\<close>

record store =
  checkout_sessions :: "checkout_row list"
  holds :: "hold_row list"
  hosted_checkouts :: "hosted_row list"
  primary_sales :: "sale_row list"
  refund_entitlements :: "refund_row list"
  face_values :: "face_row list"
  sale_closures :: "closure_row list"
  checkout_audit :: "audit_row list"
  ticket_classes :: "class_row list"
  sale_assets :: "asset_row list"
  granted_issuances :: "granted_row list"
  seat_positions :: "seat_row list"
  organiser_events :: "(ident \<times> ident) list"
  derived_tickets :: "derived_ticket_row list"
  organiser_accounts :: "(ident \<times> ident) list"
  granted_seq :: nat
  invitations :: "invitation_row list"
  finish_schedules :: "finish_row list"
  audit_log :: "log_row list"
  pass_windows :: "window_row list"

definition empty_store :: store where
  "empty_store = \<lparr>checkout_sessions = [], holds = [], hosted_checkouts = [], primary_sales = [],
     refund_entitlements = [], face_values = [], sale_closures = [], checkout_audit = [],
     ticket_classes = [], sale_assets = [], granted_issuances = [], seat_positions = [],
     organiser_events = [], derived_tickets = [], organiser_accounts = [], granted_seq = 0,
     invitations = [], finish_schedules = [], audit_log = [], pass_windows = []\<rparr>"

lemma empty_store_simps [simp]:
  "holds empty_store = []" "hosted_checkouts empty_store = []" "primary_sales empty_store = []"
  "refund_entitlements empty_store = []" "face_values empty_store = []"
  "sale_closures empty_store = []" "checkout_audit empty_store = []"
  "ticket_classes empty_store = []" "sale_assets empty_store = []"
  "granted_issuances empty_store = []" "seat_positions empty_store = []"
  "organiser_events empty_store = []" "derived_tickets empty_store = []"
  "checkout_sessions empty_store = []" "organiser_accounts empty_store = []"
  "granted_seq empty_store = 0" "invitations empty_store = []" "finish_schedules empty_store = []"
  "audit_log empty_store = []" "pass_windows empty_store = []"
  by (simp_all add: empty_store_def)

end
