(* ===== verification/Allocation.thy ===== *)
theory Allocation
  imports Domain "HOL-Library.List_Lexorder" "HOL-Library.Product_Lexorder"
    "HOL-Library.Char_ord"
begin

text \<open>
  \<open>src/sales/allocation.ts\<close>, \<open>src/sales/on-sale.ts\<close>, \<open>src/sales/audit.ts\<close>,
  \<open>src/events/seats.ts\<close> and the seat designations of \<open>src/events/zones.ts\<close>: the
  accounting every allocation of an event's issuance shares.  The advisory locks the code
  takes are what makes each transaction of this model one atomic step; the order they are
  taken in, seats before events, is the order on \<open>lock\<close>.
\<close>

section \<open>Functions outside the sources\<close>

text \<open>
  The profile's ticket identifier, Unicode normalisation and well-formedness, and the
  platform's hashes and ISO 8601 dates: parameters of the model.
\<close>

record env =
  ticketId :: "ident \<Rightarrow> ident \<Rightarrow> ident \<Rightarrow> ident"
  nfc :: "string \<Rightarrow> string"
  isWellFormed :: "string \<Rightarrow> bool"
  utf16Length :: "string \<Rightarrow> nat"
  hashSecret :: "string \<Rightarrow> ident"
  hmac :: "string \<Rightarrow> string \<Rightarrow> string"
  base64url :: "string \<Rightarrow> string"
  iso :: "time \<Rightarrow> string"

section \<open>Seat designations\<close>

definition hex_digit :: "nat \<Rightarrow> char" where
  "hex_digit n = char_of (if n < 10 then 48 + n else 87 + n)"

definition hex_value :: "char \<Rightarrow> nat" where
  "hex_value c = (let n = of_char c in if n < 58 then n - 48 else n - 87)"

definition hex_of_byte :: "char \<Rightarrow> string" where
  "hex_of_byte c = (let n = of_char c in [hex_digit (n div 16), hex_digit (n mod 16)])"

text \<open>\<open>Buffer.from(s, "utf8").toString("hex")\<close>, on the bytes of the string, and its inverse.\<close>

definition to_hex :: "string \<Rightarrow> string" where
  "to_hex s = concat (map hex_of_byte s)"

fun of_hex :: "string \<Rightarrow> string" where
  "of_hex (a # b # rest) = char_of (16 * hex_value a + hex_value b) # of_hex rest"
| "of_hex _ = []"

definition normaliseDesignation :: "env \<Rightarrow> string \<Rightarrow> failure + string" where
  "normaliseDesignation E d = (if isWellFormed E d then Inr (nfc E d) else Inl OtherError)"

definition positionOf :: "env \<Rightarrow> string \<Rightarrow> failure + ident" where
  "positionOf E d = and_then (normaliseDesignation E d) (\<lambda>n. Inr (to_hex n))"

lemma hex_digit_value: "n < 16 \<Longrightarrow> hex_value (hex_digit n) = n"
  by (auto simp: hex_value_def hex_digit_def Let_def)

lemma of_hex_byte: "of_hex (hex_of_byte c @ rest) = c # of_hex rest"
proof -
  have lt: "(of_char c :: nat) < 256" by (rule nat_of_char_less_256)
  then have "(of_char c :: nat) div 16 < 16" by (intro less_mult_imp_div_less) simp
  then have "16 * hex_value (hex_digit (of_char c div 16)) + hex_value (hex_digit (of_char c mod 16))
      = (of_char c :: nat)"
    by (simp add: hex_digit_value)
  then show ?thesis by (simp add: hex_of_byte_def Let_def)
qed

section \<open>Audit steps\<close>

definition principal_kind :: "principal \<Rightarrow> string" where
  "principal_kind p = (case p of Anonymous \<Rightarrow> ''anonymous'' | Organiser _ _ \<Rightarrow> ''organiser''
     | Operator _ _ _ \<Rightarrow> ''operator'' | Holder _ _ \<Rightarrow> ''holder'' | Reviewer _ _ \<Rightarrow> ''reviewer''
     | System _ _ \<Rightarrow> ''system'')"

definition actor_kind :: "actor \<Rightarrow> string" where
  "actor_kind a = (case a of Principal p \<Rightarrow> principal_kind p
     | PaymentProvider \<Rightarrow> ''payment-provider'' | SweepActor \<Rightarrow> ''sweep'')"

definition principal_session :: "principal \<Rightarrow> ident option" where
  "principal_session p = (case p of Anonymous \<Rightarrow> None | Organiser _ x \<Rightarrow> Some x
     | Operator _ _ x \<Rightarrow> Some x | Holder _ x \<Rightarrow> Some x | Reviewer _ x \<Rightarrow> Some x | System _ _ \<Rightarrow> None)"

definition actor_session :: "actor \<Rightarrow> ident option" where
  "actor_session a = (case a of Principal p \<Rightarrow> principal_session p | _ \<Rightarrow> None)"

definition actor_holder :: "actor \<Rightarrow> ident option" where
  "actor_holder a = (case a of Principal (Holder acc _) \<Rightarrow> Some acc | _ \<Rightarrow> None)"

definition recordCheckoutStep ::
  "ident \<Rightarrow> checkout_step \<Rightarrow> cause \<Rightarrow> time \<Rightarrow> (string \<times> detail) list \<Rightarrow> store \<Rightarrow> store" where
  "recordCheckoutStep c st cause at det s = s\<lparr>checkout_audit := checkout_audit s @
     [\<lparr>audit_checkout = c, audit_step = st, audit_request = cause_request cause,
       audit_actor = actor_kind (cause_actor cause),
       audit_session = actor_session (cause_actor cause),
       audit_holder = actor_holder (cause_actor cause),
       audit_detail = det, audit_recorded_at = at\<rparr>]\<rparr>"

lemma recordCheckoutStep_simps [simp]:
  "holds (recordCheckoutStep c st q at d s) = holds s"
  "hosted_checkouts (recordCheckoutStep c st q at d s) = hosted_checkouts s"
  "primary_sales (recordCheckoutStep c st q at d s) = primary_sales s"
  "refund_entitlements (recordCheckoutStep c st q at d s) = refund_entitlements s"
  "face_values (recordCheckoutStep c st q at d s) = face_values s"
  "sale_closures (recordCheckoutStep c st q at d s) = sale_closures s"
  "ticket_classes (recordCheckoutStep c st q at d s) = ticket_classes s"
  "sale_assets (recordCheckoutStep c st q at d s) = sale_assets s"
  "granted_issuances (recordCheckoutStep c st q at d s) = granted_issuances s"
  "checkout_sessions (recordCheckoutStep c st q at d s) = checkout_sessions s"
  "seat_positions (recordCheckoutStep c st q at d s) = seat_positions s"
  "organiser_events (recordCheckoutStep c st q at d s) = organiser_events s"
  "derived_tickets (recordCheckoutStep c st q at d s) = derived_tickets s"
  "organiser_accounts (recordCheckoutStep c st q at d s) = organiser_accounts s"
  "granted_seq (recordCheckoutStep c st q at d s) = granted_seq s"
  "invitations (recordCheckoutStep c st q at d s) = invitations s"
  "finish_schedules (recordCheckoutStep c st q at d s) = finish_schedules s"
  "audit_log (recordCheckoutStep c st q at d s) = audit_log s"
  "pass_windows (recordCheckoutStep c st q at d s) = pass_windows s"
  by (simp_all add: recordCheckoutStep_def)

section \<open>Allocation targets and locks\<close>

record target =
  t_event :: ident
  t_zone :: ident
  t_class :: ident
  t_position :: "string option"

datatype lock = SeatLock ident | EventLock ident

text \<open>The advisory locks, in the order they are taken.\<close>

definition lockEventAllocations :: "ident \<Rightarrow> lock list" where
  "lockEventAllocations e = [EventLock e]"

definition lockAllocation :: "env \<Rightarrow> target \<Rightarrow> failure + lock list" where
  "lockAllocation E t =
     (case t_position t of
        None \<Rightarrow> Inr (lockEventAllocations (t_event t))
      | Some p \<Rightarrow> and_then (positionOf E p) (\<lambda>pos.
          Inr (SeatLock (ticketId E (t_event t) (t_zone t) pos) # lockEventAllocations (t_event t))))"

text \<open>The order of the locks: every seat before every event, and each kind by its key.\<close>

fun lock_key :: "lock \<Rightarrow> nat \<times> ident" where
  "lock_key (SeatLock i) = (0, i)"
| "lock_key (EventLock i) = (1, i)"

lemma lock_key_inject: "lock_key a = lock_key b \<Longrightarrow> a = b"
  by (cases a; cases b) simp_all

instantiation lock :: linorder
begin

definition less_eq_lock :: "lock \<Rightarrow> lock \<Rightarrow> bool" where
  "less_eq_lock a b \<longleftrightarrow> lock_key a \<le> lock_key b"

definition less_lock :: "lock \<Rightarrow> lock \<Rightarrow> bool" where
  "less_lock a b \<longleftrightarrow> lock_key a < lock_key b"

instance
  by standard (auto simp: less_eq_lock_def less_lock_def intro: lock_key_inject)

end

lemma seat_before_event: "SeatLock p < EventLock e"
  by (simp add: less_lock_def)

section \<open>Sale terms\<close>

definition event_asset :: "store \<Rightarrow> ident \<Rightarrow> asset option" where
  "event_asset s e = map_option sale_asset (find (\<lambda>r. asset_event r = e) (sale_assets s))"

definition unpriced_class :: "ident \<Rightarrow> class_row \<Rightarrow> bool" where
  "unpriced_class e c \<longleftrightarrow> class_event c = e \<and> class_provenance c = Purchased \<and> price c = None"

definition saleTerms :: "store \<Rightarrow> ident \<Rightarrow> ident \<Rightarrow> (asset \<times> money) option" where
  "saleTerms s e c =
     (let row_asset = event_asset s e;
          row_price = Option.bind (find (\<lambda>r. class_id r = c \<and> class_event r = e) (ticket_classes s)) price;
          unpriced = exists_where (unpriced_class e) (ticket_classes s)
      in case (row_asset, row_price) of
           (Some a, Some p) \<Rightarrow> if unpriced then None else Some (a, p)
         | _ \<Rightarrow> None)"

text \<open>\<open>ORDER BY created_at, id\<close>.\<close>

definition by_creation :: "class_row list \<Rightarrow> class_row list" where
  "by_creation cs = sort_key (\<lambda>c. (class_created_at c, class_id c)) cs"

definition unpricedClasses :: "store \<Rightarrow> ident \<Rightarrow> ident list" where
  "unpricedClasses s e = map class_id (by_creation (filter (unpriced_class e) (ticket_classes s)))"

definition hasHadHold :: "store \<Rightarrow> ident \<Rightarrow> bool" where
  "hasHadHold s e = exists_where (\<lambda>h. hold_event h = e) (holds s)"

section \<open>Counting\<close>

record counts =
  eventHolds :: int
  classHolds :: int
  seatHeld :: bool
  purchased :: int
  classPurchased :: int
  granted :: int
  classGranted :: int
  count_quota :: "int option"

definition unissued :: "hold_row \<Rightarrow> bool" where
  "unissued h \<longleftrightarrow> hold_status h = Outstanding \<or> hold_status h = Issuing"

definition live :: "hold_row \<Rightarrow> bool" where
  "live h \<longleftrightarrow> unissued h \<or> hold_status h = Confirmed"

definition seat_of :: "hold_row \<Rightarrow> (ident \<times> ident \<times> string) option" where
  "seat_of h = map_option (\<lambda>p. (hold_event h, hold_zone h, p)) (hold_position h)"

definition expired :: "time \<Rightarrow> hold_row \<Rightarrow> bool" where
  "expired at h \<longleftrightarrow> hold_status h = Outstanding \<and> expires_at h \<le> at"

definition lapse :: "hold_row \<Rightarrow> hold_row" where
  "lapse h = h\<lparr>hold_status := Lapsed, ended_at := Some (expires_at h)\<rparr>"

definition lapse_event :: "ident \<Rightarrow> time \<Rightarrow> store \<Rightarrow> store" where
  "lapse_event e at s =
     s\<lparr>holds := update_where (\<lambda>h. hold_event h = e \<and> expired at h) lapse (holds s)\<rparr>"

definition counts_of :: "store \<Rightarrow> target \<Rightarrow> counts" where
  "counts_of s t = \<lparr>
     eventHolds = int (count_where (\<lambda>h. hold_event h = t_event t \<and> unissued h) (holds s)),
     classHolds = int (count_where (\<lambda>h. hold_class h = t_class t \<and> unissued h) (holds s)),
     seatHeld = (case t_position t of None \<Rightarrow> False
        | Some p \<Rightarrow> exists_where (\<lambda>h. hold_event h = t_event t \<and> hold_zone h = t_zone t \<and>
                                     hold_position h = Some p \<and> live h) (holds s)),
     purchased = int (count_where (\<lambda>h. hold_event h = t_event t \<and> hold_status h = Confirmed) (holds s)),
     classPurchased = int (count_where (\<lambda>h. hold_class h = t_class t \<and> hold_status h = Confirmed) (holds s)),
     granted = int (count_where (\<lambda>g. granted_event g = t_event t \<and> granted_status g \<noteq> GrantedRejected)
                                (granted_issuances s)),
     classGranted = int (count_where (\<lambda>g. granted_class g = t_class t \<and> granted_status g \<noteq> GrantedRejected)
                                     (granted_issuances s)),
     count_quota = Option.bind (find (\<lambda>c. class_id c = t_class t) (ticket_classes s)) quota\<rparr>"

text \<open>Lapses are recorded first, then what stands against the target is counted.\<close>

definition allocationCounts :: "target \<Rightarrow> time \<Rightarrow> store \<Rightarrow> counts \<times> store" where
  "allocationCounts t at s = (let s' = lapse_event (t_event t) at s in (counts_of s' t, s'))"

definition capacityRemaining :: "ledger_event \<Rightarrow> counts \<Rightarrow> int option" where
  "capacityRemaining ev n =
     (case maxCapacity ev of None \<Rightarrow> None
      | Some cap \<Rightarrow> let iss = max (issued ev) (granted n + purchased n)
                    in Some (max 0 (cap - iss - eventHolds n)))"

definition allocatedCount :: "ledger_event \<Rightarrow> counts \<Rightarrow> int" where
  "allocatedCount ev n = max (issued ev) (granted n + purchased n) + eventHolds n"

definition salesClosed :: "store \<Rightarrow> ident \<Rightarrow> bool" where
  "salesClosed s e =
     exists_where (\<lambda>c. closure_event c = e \<and> reopened_at c = None) (sale_closures s)"

definition capacityHasRoom :: "ledger_event \<Rightarrow> counts \<Rightarrow> bool" where
  "capacityHasRoom ev n = (case capacityRemaining ev n of None \<Rightarrow> True | Some r \<Rightarrow> r > 0)"

definition quotaRemaining :: "counts \<Rightarrow> int option" where
  "quotaRemaining n =
     (case count_quota n of None \<Rightarrow> None
      | Some q \<Rightarrow> Some (max 0 (q - classHolds n - classPurchased n - classGranted n)))"

definition quotaHasRoom :: "counts \<Rightarrow> bool" where
  "quotaHasRoom n = (case quotaRemaining n of None \<Rightarrow> True | Some r \<Rightarrow> r > 0)"

definition heldPositions :: "store \<Rightarrow> ident \<Rightarrow> ident \<Rightarrow> time \<Rightarrow> string set" where
  "heldPositions s e z at = set (List.map_filter hold_position
     (filter (\<lambda>h. hold_event h = e \<and> hold_zone h = z \<and>
        (hold_status h = Issuing \<or> hold_status h = Confirmed \<or>
         (hold_status h = Outstanding \<and> expires_at h > at))) (holds s)))"

section \<open>The seated double-allocation check\<close>

definition seatTicketOf :: "env \<Rightarrow> ident \<Rightarrow> ident \<Rightarrow> ident \<Rightarrow> ident" where
  "seatTicketOf E e z pos = ticketId E e z pos"

definition assertFree ::
  "env \<Rightarrow> ledger \<Rightarrow> store \<Rightarrow> ident \<Rightarrow> ident \<Rightarrow> ident \<Rightarrow> failure + ident" where
  "assertFree E L s e z pos =
     (let ticket = seatTicketOf E e z pos in
      if exists_where (\<lambda>g. granted_ticket g = Some ticket \<and> granted_status g \<noteq> GrantedRejected)
           (granted_issuances s)
      then Inl (SpecCodeError ''ERR-TicketIdExists'' None)
      else case getTicket L ticket of
             Inr _ \<Rightarrow> Inl (SpecCodeError ''ERR-TicketIdExists'' None)
           | Inl c \<Rightarrow> if c \<noteq> ''ERR-TicketNotFound'' then Inl (SpecCodeError c None) else Inr ticket)"

section \<open>On sale\<close>

definition not_on_sale_code :: "event_status \<Rightarrow> code" where
  "not_on_sale_code st = (case st of Sealed \<Rightarrow> ''ERR-EventSealed'' | Cancelled \<Rightarrow> ''ERR-EventCancelled''
     | _ \<Rightarrow> ''ERR-EventFinished'')"

definition eventOnSale :: "ledger \<Rightarrow> store \<Rightarrow> ident \<Rightarrow> failure + ledger_event" where
  "eventOnSale L s e =
     (case getEvent L e of
        Inl c \<Rightarrow> Inl (SpecCodeError c None)
      | Inr ev \<Rightarrow>
          if ev_status ev \<noteq> Active then Inl (SpecCodeError (not_on_sale_code (ev_status ev)) None)
          else if salesClosed s e then Inl (CheckoutError SalesClosed)
          else Inr ev)"

end
