(* ===== verification/Holds.thy ===== *)
theory Holds
  imports Allocation
begin

text \<open>
  \<open>src/sales/holds.ts\<close>: issuance holds.  \<open>place\<close> is one transaction under the allocation
  locks; \<open>extend\<close>, \<open>release\<close> and \<open>lapseExpired\<close> are single statements.  The \<open>holds\<close>
  table's unique indexes are part of the insert: where one would fire, the insert is an
  error, and \<open>place_never_conflicts\<close> shows the code's own checks keep it from firing.
\<close>

section \<open>Lifetimes\<close>

definition HOLD_LIFETIME_MS :: time where "HOLD_LIFETIME_MS = 10 * 60 * 1000"
definition HOLD_EXTENSION_MS :: time where "HOLD_EXTENSION_MS = 5 * 60 * 1000"

section \<open>Row changes\<close>

definition release_row :: "time \<Rightarrow> hold_row \<Rightarrow> hold_row" where
  "release_row at h = h\<lparr>hold_status := (if expires_at h \<le> at then Lapsed else Released),
                        ended_at := Some (min (expires_at h) at)\<rparr>"

definition extend_row :: "time \<Rightarrow> hold_row \<Rightarrow> hold_row" where
  "extend_row at h = h\<lparr>expires_at := expires_at h + HOLD_EXTENSION_MS, extended_at := Some at\<rparr>"

definition same_seat :: "hold_row \<Rightarrow> hold_row \<Rightarrow> bool" where
  "same_seat h h' \<longleftrightarrow> hold_position h \<noteq> None \<and> seat_of h = seat_of h'"

text \<open>
  The primary key, \<open>UNIQUE (checkout_id)\<close>, and \<open>holds_allocated_position\<close>: one live hold
  per seat.
\<close>

definition hold_conflicts :: "hold_row \<Rightarrow> hold_row list \<Rightarrow> bool" where
  "hold_conflicts h hs \<longleftrightarrow> exists_where (\<lambda>h'. hold_id h' = hold_id h \<or>
     hold_checkout h' = hold_checkout h \<or> (live h \<and> live h' \<and> same_seat h h')) hs"

definition insert_hold :: "hold_row \<Rightarrow> store \<Rightarrow> failure + store" where
  "insert_hold h s = (if hold_conflicts h (holds s) then Inl StoreError
                      else Inr (s\<lparr>holds := holds s @ [h]\<rparr>))"

section \<open>Placing a hold\<close>

definition hold_of_checkout :: "store \<Rightarrow> ident \<Rightarrow> hold_row option" where
  "hold_of_checkout s c = find (\<lambda>h. hold_checkout h = c) (holds s)"

definition new_hold ::
  "ident \<Rightarrow> target \<Rightarrow> ident \<Rightarrow> ident \<Rightarrow> time \<Rightarrow> asset \<times> money \<Rightarrow> hold_row" where
  "new_hold c t i req at terms = \<lparr>hold_id = i, hold_checkout = c, hold_event = t_event t,
     hold_zone = t_zone t, hold_class = t_class t, hold_position = t_position t,
     hold_status = Outstanding, expires_at = at + HOLD_LIFETIME_MS, extended_at = None,
     ended_at = None, confirmed_at = None, hold_asset = Some (fst terms),
     hold_price = Some (snd terms), hold_request = req, hold_created_at = at\<rparr>"

text \<open>The seat, in the order the code checks it: granted issuances and the ledger, then holds.\<close>

definition seat_refusal ::
  "env \<Rightarrow> ledger \<Rightarrow> store \<Rightarrow> target \<Rightarrow> ident option \<Rightarrow> counts \<Rightarrow> failure + hold_refusal option" where
  "seat_refusal E L s t seat n =
     (case seat of None \<Rightarrow> Inr None
      | Some pos \<Rightarrow>
          (case assertFree E L s (t_event t) (t_zone t) pos of
             Inr _ \<Rightarrow> Inr (if seatHeld n then Some SeatTaken else None)
           | Inl (SpecCodeError c r) \<Rightarrow>
               if c = ''ERR-TicketIdExists'' then Inr (Some SeatTaken) else Inl (SpecCodeError c r)
           | Inl e \<Rightarrow> Inl e))"

definition first_refusal :: "ledger_event \<Rightarrow> counts \<Rightarrow> hold_refusal option \<Rightarrow> hold_refusal option" where
  "first_refusal ev n r =
     (let r1 = (if r = None \<and> \<not> capacityHasRoom ev n then Some SoldOut else r)
      in if r1 = None \<and> \<not> quotaHasRoom n then Some ClassSoldOut else r1)"

definition refusal_name :: "hold_refusal \<Rightarrow> string" where
  "refusal_name r = (case r of SoldOut \<Rightarrow> ''sold-out'' | ClassSoldOut \<Rightarrow> ''class-sold-out''
                     | SeatTaken \<Rightarrow> ''seat-taken'')"

definition position_of_target :: "env \<Rightarrow> target \<Rightarrow> failure + ident option" where
  "position_of_target E t = (case t_position t of None \<Rightarrow> Inr None
     | Some p \<Rightarrow> and_then (positionOf E p) (\<lambda>pos. Inr (Some pos)))"

text \<open>
  \<open>place\<close>'s transaction, for the checkout \<open>c\<close> and what it reserves: answers \<open>None\<close> (null) when the hold is outstanding, the refusal
  otherwise.  \<open>at\<close> is the clock, \<open>i\<close> the random identifier of the hold.
\<close>

definition place ::
  "env \<Rightarrow> ledger \<Rightarrow> request \<Rightarrow> ident \<Rightarrow> target \<Rightarrow> time \<Rightarrow> ident \<Rightarrow> store \<Rightarrow>
     failure + hold_refusal option \<times> store" where
  "place E L req c t at i s =
     and_then (position_of_target E t) (\<lambda>seat.
     and_then (lockAllocation E t) (\<lambda>_.
     let (n, s1) = allocationCounts t at s in
     case hold_of_checkout s1 c of
       Some h \<Rightarrow>
         if hold_status h \<noteq> Outstanding then Inl (CheckoutError HoldEnded) else Inr (None, s1)
     | None \<Rightarrow>
         and_then (eventOnSale L s1 (t_event t)) (\<lambda>ev.
         case saleTerms s1 (t_event t) (t_class t) of
           None \<Rightarrow> Inl (RefusedRequest PRECONDITION_FAILED None)
         | Some terms \<Rightarrow>
             and_then (seat_refusal E L s1 t seat n) (\<lambda>taken.
             case first_refusal ev n taken of
               Some r \<Rightarrow>
                 Inr (Some r, recordCheckoutStep c HoldRefused (cause_of req) at
                   [(''reason'', DStr (refusal_name r))] s1)
             | None \<Rightarrow>
                 and_then (insert_hold (new_hold c t i (requestId req) at terms) s1) (\<lambda>s2.
                 Inr (None, recordCheckoutStep c Held (cause_of req) at
                   [(''hold'', DStr i), (''asset'', DStr (fst terms)), (''price'', DNum (snd terms))]
                   s2))))))"

section \<open>Extending, releasing, lapsing\<close>

definition can_extend :: "ident \<Rightarrow> time \<Rightarrow> hold_row \<Rightarrow> bool" where
  "can_extend c at h \<longleftrightarrow> hold_checkout h = c \<and> hold_status h = Outstanding \<and>
     extended_at h = None \<and> expires_at h > at"

definition extend :: "ident \<Rightarrow> time \<Rightarrow> store \<Rightarrow> bool \<times> store" where
  "extend c at s = (count_where (can_extend c at) (holds s) = 1,
     s\<lparr>holds := update_where (can_extend c at) (extend_row at) (holds s)\<rparr>)"

definition can_release :: "ident \<Rightarrow> hold_row \<Rightarrow> bool" where
  "can_release c h \<longleftrightarrow> hold_checkout h = c \<and> hold_status h = Outstanding"

definition release :: "ident \<Rightarrow> time \<Rightarrow> store \<Rightarrow> bool \<times> store" where
  "release c at s = (count_where (can_release c) (holds s) = 1,
     s\<lparr>holds := update_where (can_release c) (release_row at) (holds s)\<rparr>)"

definition lapse_all :: "time \<Rightarrow> store \<Rightarrow> store" where
  "lapse_all at s = s\<lparr>holds := update_where (expired at) lapse (holds s)\<rparr>"

definition lapseExpired :: "time \<Rightarrow> store \<Rightarrow> nat \<times> store" where
  "lapseExpired at s = (count_where (expired at) (holds s), lapse_all at s)"

section \<open>What placing does\<close>

lemma first_refusal_None:
  "first_refusal ev n r = None \<longleftrightarrow> r = None \<and> capacityHasRoom ev n \<and> quotaHasRoom n"
  by (auto simp: first_refusal_def Let_def)

lemma seat_refusal_None:
  assumes "seat_refusal E L s t seat n = Inr None"
  shows "seat = None \<or> (\<exists>pos ticket. seat = Some pos \<and> \<not> seatHeld n \<and>
           assertFree E L s (t_event t) (t_zone t) pos = Inr ticket)"
  using assms
  by (auto simp: seat_refusal_def split: option.splits sum.splits failure.splits if_splits)

lemma seat_refusal_Some_SeatTaken:
  "seat_refusal E L s t seat n = Inr (Some r) \<Longrightarrow> r = SeatTaken"
  by (auto simp: seat_refusal_def split: option.splits sum.splits failure.splits if_splits)

text \<open>
  Every successful \<open>place\<close> is one of three: the hold is already outstanding, it is refused
  with one audit row, or it is inserted with every guard passed.
\<close>

definition place_existing :: "ident \<Rightarrow> store \<Rightarrow> hold_refusal option \<Rightarrow> store \<Rightarrow> bool" where
  "place_existing c s1 r s' \<longleftrightarrow> r = None \<and> s' = s1 \<and>
     (\<exists>h. hold_of_checkout s1 c = Some h \<and> hold_status h = Outstanding)"

definition place_refused ::
  "request \<Rightarrow> ident \<Rightarrow> time \<Rightarrow> store \<Rightarrow> hold_refusal option \<Rightarrow> store \<Rightarrow> bool" where
  "place_refused req c at s1 r s' \<longleftrightarrow> hold_of_checkout s1 c = None \<and>
     (\<exists>x. r = Some x \<and> s' = recordCheckoutStep c HoldRefused (cause_of req) at
              [(''reason'', DStr (refusal_name x))] s1)"

definition place_placed ::
  "env \<Rightarrow> ledger \<Rightarrow> request \<Rightarrow> ident \<Rightarrow> target \<Rightarrow> time \<Rightarrow> ident \<Rightarrow> store \<Rightarrow>
     hold_refusal option \<Rightarrow> store \<Rightarrow> bool" where
  "place_placed E L req c t at i s1 r s' \<longleftrightarrow> r = None \<and> hold_of_checkout s1 c = None \<and>
     (\<exists>ev terms seat. position_of_target E t = Inr seat \<and>
        eventOnSale L s1 (t_event t) = Inr ev \<and>
        saleTerms s1 (t_event t) (t_class t) = Some terms \<and>
        seat_refusal E L s1 t seat (counts_of s1 t) = Inr None \<and>
        capacityHasRoom ev (counts_of s1 t) \<and> quotaHasRoom (counts_of s1 t) \<and>
        \<not> hold_conflicts (new_hold c t i (requestId req) at terms) (holds s1) \<and>
        s' = recordCheckoutStep c Held (cause_of req) at
               [(''hold'', DStr i), (''asset'', DStr (fst terms)), (''price'', DNum (snd terms))]
               (s1\<lparr>holds := holds s1 @ [new_hold c t i (requestId req) at terms]\<rparr>))"

lemma place_cases:
  assumes "place E L req c t at i s = Inr (r, s')"
  defines "s1 \<equiv> lapse_event (t_event t) at s"
  shows "place_existing c s1 r s' \<or> place_refused req c at s1 r s' \<or>
         place_placed E L req c t at i s1 r s'"
proof (cases "hold_of_checkout s1 c")
  case (Some h)
  with assms have "place_existing c s1 r s'"
    by (auto simp: place_def allocationCounts_def Let_def fallible_iffs place_existing_def
        split: if_splits)
  then show ?thesis ..
next
  case None
  from assms(1) None obtain seat ev terms taken where
    seat: "position_of_target E t = Inr seat" and ev: "eventOnSale L s1 (t_event t) = Inr ev"
    and terms: "saleTerms s1 (t_event t) (t_class t) = Some terms"
    and taken: "seat_refusal E L s1 t seat (counts_of s1 t) = Inr taken"
    by (auto simp: place_def allocationCounts_def Let_def fallible_iffs s1_def split: option.splits)
  show ?thesis
  proof (cases "first_refusal ev (counts_of s1 t) taken")
    case (Some x)
    with assms(1) None seat ev terms taken have "place_refused req c at s1 r s'"
      by (auto simp: place_def allocationCounts_def Let_def fallible_iffs s1_def place_refused_def)
        metis
    then show ?thesis by blast
  next
    case no: None
    then have "taken = None" "capacityHasRoom ev (counts_of s1 t)" "quotaHasRoom (counts_of s1 t)"
      by (simp_all add: first_refusal_None)
    with assms(1) None no seat ev terms taken have "place_placed E L req c t at i s1 r s'"
      by (auto simp: place_def allocationCounts_def Let_def fallible_iffs s1_def place_placed_def
          insert_hold_def split: if_splits)
    then show ?thesis by blast
  qed
qed

end
