(* ===== verification/Provider.thy ===== *)
theory Provider
  imports Domain
begin

text \<open>
  The payment provider: \<open>src/sales/payments/ports.ts\<close> as a record of operations over the
  provider's own state, the contract checkout relies on as a locale, the deterministic
  provider of \<open>src/sales/payments/test-provider.ts\<close> as its instance, and the reading of a
  webhook's payload (\<open>src/sales/payments/webhook-references.ts\<close>).
\<close>

section \<open>The adapter\<close>

record create_input =
  create_hold :: ident
  create_description :: string
  create_amount :: money
  create_asset :: asset
  create_expires :: time
  successUrl :: string
  cancelUrl :: string
  webhookUrl :: string

record remote =
  remote_id :: ident
  remote_url :: string
  remote_status :: hosted_status
  remote_amount :: money
  remote_asset :: asset
  remote_hold :: "ident option"
  remote_expires :: "time option"

record 'p provider =
  createCheckout :: "create_input \<Rightarrow> 'p \<Rightarrow> (failure + remote) \<times> 'p"
  retrieve :: "ident \<Rightarrow> 'p \<Rightarrow> (failure + remote) \<times> 'p"
  cancelCheckout :: "ident \<Rightarrow> 'p \<Rightarrow> (failure + remote) \<times> 'p"
  verifyWebhook :: "string \<Rightarrow> string option \<Rightarrow> (ident list \<times> ident list) option"

section \<open>Webhook payloads\<close>

text \<open>A parsed JSON value; \<open>JSON.parse\<close> itself is a parameter.\<close>

datatype json = JNull | JBool bool | JNum int | JStr string | JArr "json list"
  | JObj "(string \<times> json) list"

definition HOLD_METADATA_KEY :: string where "HOLD_METADATA_KEY = ''kippu_hold''"

definition CHECKOUT_KEYS :: "string list" where
  "CHECKOUT_KEYS = [''url_id'', ''urn'', ''id'', ''payment_urn'', ''checkout_id'']"

definition NESTED_KEYS :: "string list" where
  "NESTED_KEYS = [''payment'', ''checkout'', ''data'']"

definition json_record :: "json option \<Rightarrow> (string \<rightharpoonup> json) option" where
  "json_record v = (case v of Some (JObj fs) \<Rightarrow> Some (map_of fs) | _ \<Rightarrow> None)"

definition named_string :: "json option \<Rightarrow> string list" where
  "named_string v = (case v of Some (JStr i) \<Rightarrow> if i = [] then [] else [i] | _ \<Rightarrow> [])"

text \<open>\<open>[...new Set(xs)]\<close>: the first occurrence of each, in order.\<close>

fun first_occurrences :: "'a list \<Rightarrow> 'a list" where
  "first_occurrences [] = []"
| "first_occurrences (x # xs) = x # filter (\<lambda>y. y \<noteq> x) (first_occurrences xs)"

definition visit_checkouts :: "(string \<rightharpoonup> json) \<Rightarrow> ident list" where
  "visit_checkouts v = concat (map (\<lambda>k. named_string (v k)) CHECKOUT_KEYS)"

definition visit_hold :: "(string \<rightharpoonup> json) \<Rightarrow> ident list" where
  "visit_hold v = (case json_record (v ''metadata'') of None \<Rightarrow> []
     | Some m \<Rightarrow> named_string (m HOLD_METADATA_KEY))"

definition visited :: "json \<Rightarrow> (string \<rightharpoonup> json) list" where
  "visited payload = (case json_record (Some payload) of None \<Rightarrow> []
     | Some obj \<Rightarrow> obj # List.map_filter (\<lambda>k. json_record (obj k)) NESTED_KEYS)"

definition webhookReferences :: "json \<Rightarrow> ident list \<times> ident list" where
  "webhookReferences payload =
     (first_occurrences (concat (map visit_checkouts (visited payload))),
      first_occurrences (concat (map visit_hold (visited payload))))"

lemma set_first_occurrences [simp]: "set (first_occurrences xs) = set xs"
  by (induction xs) auto

lemma distinct_first_occurrences: "distinct (first_occurrences xs)"
  by (induction xs) auto

section \<open>What checkout relies on\<close>

text \<open>
  The contract of the adapter's documentation: a hosted checkout is single-use.  \<open>view\<close> is
  what the provider would report, \<open>act\<close> any change the provider or the buyer makes on
  their own, \<open>ok\<close> what holds of the provider's state throughout.
\<close>

locale payment_provider =
  fixes P :: "'p provider"
    and view :: "'p \<Rightarrow> ident \<Rightarrow> remote option"
    and act :: "'p \<Rightarrow> 'p \<Rightarrow> bool"
    and ok :: "'p \<Rightarrow> bool"
  assumes ok_create: "ok p \<Longrightarrow> ok (snd (createCheckout P c p))"
    and ok_retrieve: "ok p \<Longrightarrow> ok (snd (retrieve P i p))"
    and ok_cancel: "ok p \<Longrightarrow> ok (snd (cancelCheckout P i p))"
    and ok_act: "ok p \<Longrightarrow> act p q \<Longrightarrow> ok q"
    and create_open: "ok p \<Longrightarrow> createCheckout P c p = (Inr r, q) \<Longrightarrow>
      view p (remote_id r) = None \<and> remote_status r = Open \<and> remote_amount r = create_amount c \<and>
      remote_asset r = create_asset c \<and> remote_hold r = Some (create_hold c)"
    and retrieve_reports: "ok p \<Longrightarrow> retrieve P i p = (Inr r, q) \<Longrightarrow> view q i = Some r"
    and cancel_ends: "ok p \<Longrightarrow> cancelCheckout P i p = (Inr r, q) \<Longrightarrow>
      view q i = Some r \<and> remote_status r \<noteq> Open"
    and over_create: "ok p \<Longrightarrow> view p i = Some r \<Longrightarrow> remote_status r \<noteq> Open \<Longrightarrow>
      view (snd (createCheckout P c p)) i = Some r"
    and over_retrieve: "ok p \<Longrightarrow> view p i = Some r \<Longrightarrow> remote_status r \<noteq> Open \<Longrightarrow>
      view (snd (retrieve P j p)) i = Some r"
    and over_cancel: "ok p \<Longrightarrow> view p i = Some r \<Longrightarrow> remote_status r \<noteq> Open \<Longrightarrow>
      view (snd (cancelCheckout P j p)) i = Some r"
    and over_act: "ok p \<Longrightarrow> view p i = Some r \<Longrightarrow> remote_status r \<noteq> Open \<Longrightarrow> act p q \<Longrightarrow>
      view q i = Some r"
begin

text \<open>Everything that can happen at the provider, Kippu's calls included.\<close>

inductive run :: "'p \<Rightarrow> 'p \<Rightarrow> bool" where
  run_refl: "run p p"
| run_create: "run p q \<Longrightarrow> run p (snd (createCheckout P c q))"
| run_retrieve: "run p q \<Longrightarrow> run p (snd (retrieve P i q))"
| run_cancel: "run p q \<Longrightarrow> run p (snd (cancelCheckout P i q))"
| run_act: "run p q \<Longrightarrow> act q r \<Longrightarrow> run p r"

lemma run_ok: "run p q \<Longrightarrow> ok p \<Longrightarrow> ok q"
  by (induction rule: run.induct) (auto intro: ok_create ok_retrieve ok_cancel ok_act)

lemma run_over:
  "run p q \<Longrightarrow> ok p \<Longrightarrow> view p i = Some r \<Longrightarrow> remote_status r \<noteq> Open \<Longrightarrow> view q i = Some r"
proof (induction rule: run.induct)
  case (run_refl p)
  then show ?case by simp
next
  case (run_create p q c)
  then show ?case by (blast intro: over_create run_ok)
next
  case (run_retrieve p q i)
  then show ?case by (blast intro: over_retrieve run_ok)
next
  case (run_cancel p q i)
  then show ?case by (blast intro: over_cancel run_ok)
next
  case (run_act p q r)
  then show ?case by (blast intro: over_act run_ok)
qed

text \<open>A checkout once reported over is reported the same for ever.\<close>

lemma reported_for_ever:
  assumes "ok p" "view p i = Some r" "remote_status r \<noteq> Open" "run p q"
    and "retrieve P i q = (Inr r', q')"
  shows "r' = r"
proof -
  have "ok q" using assms(1,4) run_ok by blast
  moreover have "view q i = Some r" using run_over assms by blast
  then have "view q' i = Some r" using over_retrieve [OF \<open>ok q\<close> _ assms(3), of i i] assms(5) by simp
  ultimately show ?thesis using retrieve_reports assms(5) by fastforce
qed

lemma cancelled_never_paid:
  assumes "ok p" "cancelCheckout P i p = (Inr r, q)" "remote_status r \<noteq> Paid" "run q q'"
    and "retrieve P i q' = (Inr r', q'')"
  shows "remote_status r' \<noteq> Paid"
proof -
  have "ok q" using ok_cancel [OF assms(1), of i] assms(2) by simp
  moreover have "view q i = Some r \<and> remote_status r \<noteq> Open"
    using cancel_ends assms(1,2) by blast
  ultimately have "r' = r" using reported_for_ever assms(4,5) by blast
  with assms(3) show ?thesis by simp
qed

end

section \<open>The deterministic test provider\<close>

datatype test_operation = CreateOp | RetrieveOp | CancelOp

record test_state =
  tp_prefix :: string
  tp_sequence :: nat
  tp_stored :: "ident \<rightharpoonup> remote"
  tp_failures :: "test_operation set"
  tp_pays_before_cancel :: "ident set"
  tp_now :: time

text \<open>\<open>String(n)\<close>.\<close>

fun decimal :: "nat \<Rightarrow> string" where
  "decimal n = (if n < 10 then [char_of (48 + n)] else decimal (n div 10) @ [char_of (48 + n mod 10)])"

declare decimal.simps [simp del]

definition test_id :: "string \<Rightarrow> nat \<Rightarrow> ident" where
  "test_id prefix n = prefix @ ''-'' @ decimal n"

definition failIfScripted :: "test_operation \<Rightarrow> test_state \<Rightarrow> bool \<times> test_state" where
  "failIfScripted op p = (op \<in> tp_failures p, p\<lparr>tp_failures := tp_failures p - {op}\<rparr>)"

text \<open>Expiry is the only change the provider makes on its own.\<close>

definition expire_if_due :: "time \<Rightarrow> remote \<Rightarrow> remote" where
  "expire_if_due at r = (if remote_status r = Open \<and>
      (case remote_expires r of None \<Rightarrow> False | Some x \<Rightarrow> x \<le> at)
    then r\<lparr>remote_status := Expired\<rparr> else r)"

definition find_stored :: "ident \<Rightarrow> test_state \<Rightarrow> (failure + remote) \<times> test_state" where
  "find_stored i p = (case tp_stored p i of
       None \<Rightarrow> (Inl ProviderError, p)
     | Some r \<Rightarrow> let r' = expire_if_due (tp_now p) r
                in (Inr r', p\<lparr>tp_stored := (tp_stored p)(i \<mapsto> r')\<rparr>))"

definition MAX_SAFE :: int where "MAX_SAFE = 2 ^ 53 - 1"

definition test_create :: "create_input \<Rightarrow> test_state \<Rightarrow> (failure + remote) \<times> test_state" where
  "test_create c p = (let (failed, p1) = failIfScripted CreateOp p in
     if failed then (Inl ProviderError, p1)
     else if create_amount c < 0 \<or> create_amount c > MAX_SAFE then (Inl ProviderError, p1)
     else let n = Suc (tp_sequence p1); i = test_id (tp_prefix p1) n;
              r = \<lparr>remote_id = i, remote_url = ''https://payments.test.invalid/checkout/'' @ i,
                   remote_status = Open, remote_amount = create_amount c,
                   remote_asset = create_asset c, remote_hold = Some (create_hold c),
                   remote_expires = Some (create_expires c)\<rparr>
          in (Inr r, p1\<lparr>tp_sequence := n, tp_stored := (tp_stored p1)(i \<mapsto> r)\<rparr>))"

definition test_retrieve :: "ident \<Rightarrow> test_state \<Rightarrow> (failure + remote) \<times> test_state" where
  "test_retrieve i p = (let (failed, p1) = failIfScripted RetrieveOp p in
     if failed then (Inl ProviderError, p1) else find_stored i p1)"

definition test_cancel :: "ident \<Rightarrow> test_state \<Rightarrow> (failure + remote) \<times> test_state" where
  "test_cancel i p = (let (failed, p1) = failIfScripted CancelOp p in
     if failed then (Inl ProviderError, p1)
     else case find_stored i p1 of
         (Inl e, p2) \<Rightarrow> (Inl e, p2)
       | (Inr r, p2) \<Rightarrow>
           let pays = i \<in> tp_pays_before_cancel p2;
               p3 = p2\<lparr>tp_pays_before_cancel := tp_pays_before_cancel p2 - {i}\<rparr>;
               r1 = (if pays \<and> remote_status r = Open then r\<lparr>remote_status := Paid\<rparr> else r);
               r2 = (if remote_status r1 = Open then r1\<lparr>remote_status := HostedCancelled\<rparr> else r1)
           in (Inr r2, p3\<lparr>tp_stored := (tp_stored p3)(i \<mapsto> r2)\<rparr>))"

text \<open>
  A webhook verifies when its signature is the keyed hash of its raw body, compared
  whole; then it is parsed and read for references.
\<close>

definition test_verify :: "(string \<Rightarrow> string \<Rightarrow> string) \<Rightarrow> (string \<Rightarrow> json option) \<Rightarrow> string \<Rightarrow>
    string \<Rightarrow> string option \<Rightarrow> (ident list \<times> ident list) option" where
  "test_verify mac parse secret body signature = (case signature of None \<Rightarrow> None
     | Some given \<Rightarrow> if given \<noteq> mac secret body then None
                    else map_option webhookReferences (parse body))"

definition test_provider ::
  "(string \<Rightarrow> string \<Rightarrow> string) \<Rightarrow> (string \<Rightarrow> json option) \<Rightarrow> string \<Rightarrow> test_state provider" where
  "test_provider mac parse secret = \<lparr>createCheckout = test_create, retrieve = test_retrieve,
     cancelCheckout = test_cancel, verifyWebhook = test_verify mac parse secret\<rparr>"

text \<open>The scripted changes: paying, failing to pay, expiring an \<open>open\<close> checkout, and the clock.\<close>

definition with_open :: "ident \<Rightarrow> (remote \<Rightarrow> remote) \<Rightarrow> test_state \<Rightarrow> (failure + remote) \<times> test_state" where
  "with_open i f p = (case find_stored i p of
       (Inl e, p1) \<Rightarrow> (Inl e, p1)
     | (Inr r, p1) \<Rightarrow> if remote_status r \<noteq> Open then (Inl OtherError, p1)
                     else (Inr (f r), p1\<lparr>tp_stored := (tp_stored p1)(i \<mapsto> f r)\<rparr>))"

definition test_pay :: "ident \<Rightarrow> money option \<Rightarrow> test_state \<Rightarrow> (failure + remote) \<times> test_state" where
  "test_pay i amount p = with_open i (\<lambda>r. r\<lparr>remote_status := Paid,
     remote_amount := (case amount of None \<Rightarrow> remote_amount r | Some a \<Rightarrow> a)\<rparr>) p"

definition test_failPayment :: "ident \<Rightarrow> test_state \<Rightarrow> (failure + remote) \<times> test_state" where
  "test_failPayment i p = with_open i (\<lambda>r. r\<lparr>remote_status := HostedCancelled\<rparr>) p"

definition test_expire :: "ident \<Rightarrow> test_state \<Rightarrow> (failure + remote) \<times> test_state" where
  "test_expire i p = with_open i (\<lambda>r. r\<lparr>remote_status := Expired\<rparr>) p"

inductive test_act :: "test_state \<Rightarrow> test_state \<Rightarrow> bool" where
  act_pay: "test_act p (snd (test_pay i a p))"
| act_fail: "test_act p (snd (test_failPayment i p))"
| act_expire: "test_act p (snd (test_expire i p))"
| act_failNext: "test_act p (p\<lparr>tp_failures := insert op (tp_failures p)\<rparr>)"
| act_payBeforeCancel: "test_act p (p\<lparr>tp_pays_before_cancel := insert i (tp_pays_before_cancel p)\<rparr>)"
| act_clock: "tp_now p \<le> at \<Longrightarrow> test_act p (p\<lparr>tp_now := at\<rparr>)"

definition test_view :: "test_state \<Rightarrow> ident \<Rightarrow> remote option" where
  "test_view p i = map_option (expire_if_due (tp_now p)) (tp_stored p i)"

text \<open>Only identifiers already handed out are stored.\<close>

definition test_ok :: "test_state \<Rightarrow> bool" where
  "test_ok p \<longleftrightarrow> (\<forall>i \<in> dom (tp_stored p). \<exists>n \<le> tp_sequence p. i = test_id (tp_prefix p) n)"


text \<open>Identifiers are never reused: a decimal numeral determines its number.\<close>

definition undecimal :: "string \<Rightarrow> nat" where
  "undecimal ds = foldl (\<lambda>a c. 10 * a + (of_char c - 48)) 0 ds"

lemma undecimal_decimal: "undecimal (decimal n) = n"
proof (induction n rule: decimal.induct)
  case (1 n)
  show ?case
  proof (cases "n < 10")
    case True
    then show ?thesis by (subst decimal.simps) (simp add: undecimal_def)
  next
    case False
    have "undecimal (decimal (n div 10) @ [char_of (48 + n mod 10)])
        = 10 * undecimal (decimal (n div 10)) + n mod 10"
      by (simp add: undecimal_def)
    also have "\<dots> = n" using 1 False by simp
    finally show ?thesis using False by (subst decimal.simps) simp
  qed
qed

lemma test_id_inject [simp]: "test_id pre m = test_id pre n \<longleftrightarrow> m = n"
  by (metis test_id_def append_same_eq same_append_eq undecimal_decimal append_assoc)

lemma expire_if_due_over [simp]: "remote_status r \<noteq> Open \<Longrightarrow> expire_if_due at r = r"
  by (simp add: expire_if_due_def)

lemma expire_if_due_later:
  "at \<le> at' \<Longrightarrow> expire_if_due at' (expire_if_due at r) = expire_if_due at' r"
  by (auto simp: expire_if_due_def split: option.splits)

lemma expire_if_due_idem [simp]: "expire_if_due at (expire_if_due at r) = expire_if_due at r"
  by (simp add: expire_if_due_later)

text \<open>How each operation changes what the provider reports.\<close>

lemma view_find_stored [simp]: "test_view (snd (find_stored i p)) = test_view p"
  by (auto simp: find_stored_def test_view_def Let_def fun_eq_iff split: option.splits)

lemma find_stored_Inr: "find_stored i p = (Inr r, q) \<Longrightarrow> test_view p i = Some r"
  by (auto simp: find_stored_def test_view_def Let_def split: option.splits)

lemma find_stored_state:
  "tp_now (snd (find_stored i p)) = tp_now p" "tp_sequence (snd (find_stored i p)) = tp_sequence p"
  "tp_prefix (snd (find_stored i p)) = tp_prefix p"
  "tp_pays_before_cancel (snd (find_stored i p)) = tp_pays_before_cancel p"
  "dom (tp_stored (snd (find_stored i p))) = dom (tp_stored p)"
  by (auto simp: find_stored_def Let_def split: option.splits)

lemma failIfScripted_state [simp]:
  "tp_now (snd (failIfScripted op p)) = tp_now p"
  "tp_stored (snd (failIfScripted op p)) = tp_stored p"
  "tp_sequence (snd (failIfScripted op p)) = tp_sequence p"
  "tp_prefix (snd (failIfScripted op p)) = tp_prefix p"
  "test_view (snd (failIfScripted op p)) = test_view p"
  by (simp_all add: failIfScripted_def test_view_def fun_eq_iff)

lemma test_ok_cong:
  assumes "tp_sequence p \<le> tp_sequence q" "tp_prefix q = tp_prefix p"
    "dom (tp_stored q) = dom (tp_stored p)"
  shows "test_ok p \<Longrightarrow> test_ok q"
  unfolding test_ok_def assms(2,3) using assms(1) by (meson order_trans)

lemma test_ok_find_stored: "test_ok p \<Longrightarrow> test_ok (snd (find_stored i p))"
  by (rule test_ok_cong) (simp_all add: find_stored_state)

lemma test_ok_fail: "test_ok p \<Longrightarrow> test_ok (snd (failIfScripted op p))"
  by (rule test_ok_cong) simp_all

lemma test_ok_create: "test_ok p \<Longrightarrow> test_ok (snd (test_create c p))"
  by (auto simp: test_create_def failIfScripted_def Let_def test_ok_def intro: le_SucI)

lemma test_ok_retrieve: "test_ok p \<Longrightarrow> test_ok (snd (test_retrieve i p))"
  using test_ok_fail [of p RetrieveOp] test_ok_find_stored
  by (auto simp: test_retrieve_def split: prod.splits)

lemma find_stored_same:
  assumes "find_stored i p = (x, q)"
  shows "tp_now q = tp_now p" "tp_sequence q = tp_sequence p" "tp_prefix q = tp_prefix p"
    "dom (tp_stored q) = dom (tp_stored p)" "test_view q = test_view p"
  using find_stored_state [of i p] view_find_stored [of i p] assms by simp_all

lemma find_stored_dom: "find_stored i p = (Inr r, q) \<Longrightarrow> i \<in> dom (tp_stored p)"
  by (auto simp: find_stored_def Let_def split: option.splits)

lemma find_stored_Inr_self: "find_stored i p = (Inr r, q) \<Longrightarrow> expire_if_due (tp_now p) r = r"
  by (auto simp: find_stored_def Let_def split: option.splits)

lemma test_ok_store:
  assumes found: "find_stored i p = (Inr r, q)" and ok: "test_ok p"
  shows "test_ok (q\<lparr>tp_stored := (tp_stored q)(i \<mapsto> r')\<rparr>)"
proof (rule test_ok_cong [OF _ _ _ ok])
  have "i \<in> dom (tp_stored q)"
    using find_stored_dom [OF found] find_stored_same(4) [OF found] by simp
  then show "dom (tp_stored (q\<lparr>tp_stored := (tp_stored q)(i \<mapsto> r')\<rparr>)) = dom (tp_stored p)"
    using find_stored_same(4) [OF found] by (simp add: insert_absorb)
qed (use find_stored_same [OF found] in simp_all)

lemma test_cancel_cases:
  assumes "test_cancel i p = (x, q)"
  obtains (failed) e where "x = Inl e" "test_view q = test_view p"
      "tp_sequence q = tp_sequence p" "tp_prefix q = tp_prefix p"
      "dom (tp_stored q) = dom (tp_stored p)"
    | (ended) r r0 where "x = Inr r" "test_view p i = Some r0" "remote_status r \<noteq> Open"
      "remote_status r0 \<noteq> Open \<longrightarrow> r = r0" "test_view q = (test_view p)(i \<mapsto> r)"
      "tp_sequence q = tp_sequence p" "tp_prefix q = tp_prefix p"
      "dom (tp_stored q) = dom (tp_stored p)"
proof -
  obtain f p1 where p1: "failIfScripted CancelOp p = (f, p1)" by fastforce
  then have same: "test_view p1 = test_view p" "tp_sequence p1 = tp_sequence p"
    "tp_prefix p1 = tp_prefix p" "tp_stored p1 = tp_stored p" "tp_now p1 = tp_now p"
    using failIfScripted_state [of CancelOp p] by simp_all
  obtain y p2 where p2: "find_stored i p1 = (y, p2)" by fastforce
  note p2_same = find_stored_same [OF p2]
  show thesis
  proof (cases "f \<or> isl y")
    case True
    with assms p1 p2 have "isl x" "q = p1 \<or> q = p2"
      by (auto simp: test_cancel_def Let_def isl_def split: if_splits)
    then show thesis using failed same p2_same by (auto simp: isl_def)
  next
    case False
    then obtain r0 where y: "y = Inr r0" by (cases y) auto
    note dom = find_stored_dom [OF p2 [unfolded y]]
    define r1 where "r1 = (if i \<in> tp_pays_before_cancel p2 \<and> remote_status r0 = Open
      then r0\<lparr>remote_status := Paid\<rparr> else r0)"
    define r where "r = (if remote_status r1 = Open then r1\<lparr>remote_status := HostedCancelled\<rparr> else r1)"
    have x: "x = Inr r" and q: "q = p2\<lparr>tp_pays_before_cancel := tp_pays_before_cancel p2 - {i},
        tp_stored := (tp_stored p2)(i \<mapsto> r)\<rparr>"
      using assms p1 p2 y False by (auto simp: test_cancel_def Let_def r_def r1_def)
    have "remote_status r \<noteq> Open" "remote_status r0 \<noteq> Open \<longrightarrow> r = r0"
      by (auto simp: r_def r1_def)
    moreover have "test_view p i = Some r0"
      using find_stored_Inr [OF p2 [unfolded y]] same by simp
    moreover have "test_view q = (test_view p2)(i \<mapsto> r)"
      using calculation(1) by (auto simp: q test_view_def fun_eq_iff)
    then have "test_view q = (test_view p)(i \<mapsto> r)" using p2_same same by simp
    ultimately show thesis
      using ended [OF x] q dom p2_same same by (auto simp: insert_absorb)
  qed
qed

lemma test_ok_cancel:
  assumes "test_ok p"
  shows "test_ok (snd (test_cancel i p))"
proof -
  obtain x q where "test_cancel i p = (x, q)" by fastforce
  then have "tp_sequence q = tp_sequence p \<and> tp_prefix q = tp_prefix p \<and>
      dom (tp_stored q) = dom (tp_stored p)"
    by (elim test_cancel_cases) simp_all
  with assms \<open>test_cancel i p = (x, q)\<close> show ?thesis by (auto intro: test_ok_cong [of p])
qed

lemma test_ok_with_open: "test_ok p \<Longrightarrow> test_ok (snd (with_open i f p))"
  using test_ok_find_stored [of p i] test_ok_store
  by (auto simp: with_open_def split: prod.splits sum.splits)

lemma test_ok_act: "test_act p q \<Longrightarrow> test_ok p \<Longrightarrow> test_ok q"
  by (induction rule: test_act.induct)
    (auto simp: test_pay_def test_failPayment_def test_expire_def test_ok_with_open
      intro: test_ok_cong [of p for p])

text \<open>An ended checkout's report never changes.\<close>

lemma view_with_open_over:
  assumes "test_view p j = Some r" "remote_status r \<noteq> Open"
  shows "test_view (snd (with_open i f p)) j = Some r"
proof (cases "find_stored i p")
  case (Pair x q)
  note same = find_stored_same [OF Pair]
  show ?thesis
  proof (cases "\<exists>r0. x = Inr r0 \<and> remote_status r0 = Open")
    case True
    then obtain r0 where r0: "x = Inr r0" "remote_status r0 = Open" by blast
    with Pair have "test_view p i = Some r0" using find_stored_Inr by blast
    with assms r0 have "j \<noteq> i" by auto
    with Pair r0 same assms show ?thesis by (auto simp: with_open_def test_view_def fun_eq_iff)
  next
    case False
    with Pair same assms show ?thesis by (auto simp: with_open_def split: sum.splits)
  qed
qed

lemma view_act_over:
  assumes "test_act p q" "test_view p i = Some r" "remote_status r \<noteq> Open"
  shows "test_view q i = Some r"
  using assms
proof (induction rule: test_act.induct)
  case (act_clock p at)
  then show ?case
    by (auto simp: test_view_def) (metis expire_if_due_later expire_if_due_over)
next
  case (act_failNext p op)
  then show ?case by (simp add: test_view_def)
next
  case (act_payBeforeCancel p i)
  then show ?case by (simp add: test_view_def)
qed (simp_all add: test_pay_def test_failPayment_def test_expire_def view_with_open_over)

interpretation tp: payment_provider "test_provider mac parse secret" test_view test_act test_ok
proof unfold_locales
  fix p c r q
  assume ok: "test_ok p" and
    create: "createCheckout (test_provider mac parse secret) c p = (Inr r, q)"
  have "tp_stored p (test_id (tp_prefix p) (Suc (tp_sequence p))) = None"
    using ok unfolding test_ok_def by (metis domIff Suc_n_not_le_n test_id_inject)
  with create show "test_view p (remote_id r) = None \<and> remote_status r = Open \<and>
      remote_amount r = create_amount c \<and> remote_asset r = create_asset c \<and>
      remote_hold r = Some (create_hold c)"
    by (auto simp: test_provider_def test_create_def failIfScripted_def Let_def test_view_def
        split: if_splits)
next
  fix p c i r
  assume ok: "test_ok p" and view: "test_view p i = Some r" "remote_status r \<noteq> Open"
  have "i \<noteq> test_id (tp_prefix p) (Suc (tp_sequence p))"
    using ok view unfolding test_ok_def test_view_def
    by (metis Suc_n_not_le_n domIff map_option_is_None option.distinct(1) test_id_inject)
  with view show "test_view (snd (createCheckout (test_provider mac parse secret) c p)) i = Some r"
    by (auto simp: test_provider_def test_create_def failIfScripted_def Let_def test_view_def)
next
  fix p i r q
  assume "test_ok p" and "retrieve (test_provider mac parse secret) i p = (Inr r, q)"
  then show "test_view q i = Some r"
    by (auto simp: test_provider_def test_retrieve_def Let_def split: prod.splits if_splits)
      (metis find_stored_Inr find_stored_same(5))
next
  fix p i r q
  assume "test_ok p" and "cancelCheckout (test_provider mac parse secret) i p = (Inr r, q)"
  then show "test_view q i = Some r \<and> remote_status r \<noteq> Open"
    by (auto simp: test_provider_def elim!: test_cancel_cases)
next
  fix p i r j
  assume "test_ok p" and "test_view p i = Some r" "remote_status r \<noteq> Open"
  then show "test_view (snd (retrieve (test_provider mac parse secret) j p)) i = Some r"
    by (cases "failIfScripted RetrieveOp p")
      (use failIfScripted_state(5) [of RetrieveOp p] in
        \<open>auto simp: test_provider_def test_retrieve_def Let_def\<close>)
next
  fix p i r j
  assume "test_ok p" and "test_view p i = Some r" "remote_status r \<noteq> Open"
  then show "test_view (snd (cancelCheckout (test_provider mac parse secret) j p)) i = Some r"
    by (cases "test_cancel j p")
      (auto simp: test_provider_def elim!: test_cancel_cases split: if_splits)
qed (auto simp: test_provider_def test_ok_create test_ok_retrieve test_ok_cancel
    intro: test_ok_act view_act_over)

end
