(* ===== verification/Catalogue.thy ===== *)
theory Catalogue
  imports Allocation
begin

text \<open>
  What an organiser configures, Kippu's own data: ticket classes
  (\<open>src/classes/classes.ts\<close>), sale assets (\<open>src/events/sale-assets.ts\<close>), canonical seats
  (\<open>src/events/zones.ts\<close>) and pass windows (\<open>src/events/pass-window.ts\<close>), each behind the
  ownership check of \<open>src/events/ownership.ts\<close>.
\<close>

section \<open>Ownership\<close>

definition authority_account :: "store \<Rightarrow> ident \<Rightarrow> ident option" where
  "authority_account s org = map_of (organiser_accounts s) org"

definition ownedEvent ::
  "ledger \<Rightarrow> store \<Rightarrow> ident \<Rightarrow> ident \<Rightarrow> failure + ledger_event \<times> ident" where
  "ownedEvent L s org e =
     (case getEvent L e of
        Inl c \<Rightarrow> Inl (SpecCodeError c None)
      | Inr ev \<Rightarrow> (case authority_account s org of
            None \<Rightarrow> Inl (SpecCodeError ''ERR-NotOwner'' None)
          | Some acc \<Rightarrow> if owner ev \<noteq> acc then Inl (SpecCodeError ''ERR-NotOwner'' None)
                        else Inr (ev, acc)))"

text \<open>
  A relayed write with no derived identifier: it throws without a verdict, is refused by
  the ledger, or settles.
\<close>

type_synonym verdict = "failure + (code + receipt)"

definition settledOrThrow :: "verdict \<Rightarrow> failure + ident" where
  "settledOrThrow v = and_then v (\<lambda>r. case r of Inl c \<Rightarrow> Inl (SpecCodeError c None)
                                             | Inr rc \<Rightarrow> Inr (cursor rc))"

section \<open>Ticket classes\<close>

record class_input =
  in_event :: ident
  in_name :: string
  in_description :: "string option"
  in_provenance :: provenance
  in_policy :: policy
  in_cannot_resale :: bool
  in_cannot_transfer :: bool
  in_quota :: "int option"
  in_price :: "money option"

definition MAX_SAFE_INTEGER :: int where "MAX_SAFE_INTEGER = 2 ^ 53 - 1"

definition isPrice :: "money option \<Rightarrow> bool" where
  "isPrice v = (case v of None \<Rightarrow> False | Some p \<Rightarrow> p \<le> MAX_SAFE_INTEGER \<and> p > 0)"

definition check_class :: "class_input \<Rightarrow> failure + unit" where
  "check_class inp =
     and_then (guard (\<not> (in_provenance inp = Purchased \<and>
                         (in_cannot_resale inp \<or> in_cannot_transfer inp)))
                (SpecCodeError ''ERR-RestrictionNotPermitted'' None)) (\<lambda>_.
     and_then (guard (\<not> (in_provenance inp = Purchased \<and> \<not> isPrice (in_price inp)))
                (RefusedRequest BAD_REQUEST None)) (\<lambda>_.
     guard (\<not> (in_provenance inp = Granted \<and> in_price inp \<noteq> None))
       (RefusedRequest BAD_REQUEST None)))"

definition class_of_input :: "class_input \<Rightarrow> ident \<Rightarrow> time \<Rightarrow> class_row" where
  "class_of_input inp i at = \<lparr>class_id = i, class_event = in_event inp, class_name = in_name inp,
     class_description = in_description inp, class_provenance = in_provenance inp,
     class_policy = in_policy inp,
     cannot_resale = (in_cannot_resale inp \<or> in_cannot_transfer inp),
     cannot_transfer = in_cannot_transfer inp, quota = in_quota inp, price = in_price inp,
     price_set_at = (case in_price inp of None \<Rightarrow> None | Some _ \<Rightarrow> Some at),
     class_created_at = at\<rparr>"

definition define_class ::
  "ledger \<Rightarrow> ident \<Rightarrow> class_input \<Rightarrow> ident \<Rightarrow> time \<Rightarrow> store \<Rightarrow> failure + class_row \<times> store" where
  "define_class L org inp i at s =
     and_then (check_class inp) (\<lambda>_.
     and_then (ownedEvent L s org (in_event inp)) (\<lambda>_.
     if exists_where (\<lambda>c. class_id c = i) (ticket_classes s) then Inl StoreError
     else let c = class_of_input inp i at in
          Inr (c, s\<lparr>ticket_classes := ticket_classes s @ [c]\<rparr>)))"

definition priced_class :: "ident \<Rightarrow> ident \<Rightarrow> class_row \<Rightarrow> bool" where
  "priced_class e i c \<longleftrightarrow> class_event c = e \<and> class_id c = i \<and> class_provenance c = Purchased"

definition setPrice ::
  "ledger \<Rightarrow> ident \<Rightarrow> ident \<Rightarrow> ident \<Rightarrow> money \<Rightarrow> time \<Rightarrow> store \<Rightarrow> failure + class_row \<times> store" where
  "setPrice L org e i p at s =
     and_then (guard (isPrice (Some p)) (RefusedRequest BAD_REQUEST None)) (\<lambda>_.
     and_then (ownedEvent L s org e) (\<lambda>_.
     let cs = update_where (priced_class e i) (\<lambda>c. c\<lparr>price := Some p, price_set_at := Some at\<rparr>)
                (ticket_classes s) in
     case find (priced_class e i) cs of
       Some c \<Rightarrow> Inr (c, s\<lparr>ticket_classes := cs\<rparr>)
     | None \<Rightarrow> if exists_where (\<lambda>c. class_event c = e \<and> class_id c = i) (ticket_classes s)
               then Inl (RefusedRequest BAD_REQUEST None)
               else Inl (SpecCodeError ''ERR-UnknownClass'' None)))"

definition list_classes :: "ledger \<Rightarrow> ident \<Rightarrow> ident \<Rightarrow> store \<Rightarrow> failure + class_row list" where
  "list_classes L org e s = and_then (ownedEvent L s org e) (\<lambda>_.
     Inr (by_creation (filter (\<lambda>c. class_event c = e) (ticket_classes s))))"

definition find_class :: "store \<Rightarrow> ident \<Rightarrow> ident \<Rightarrow> class_row option" where
  "find_class s e c = find (\<lambda>r. class_event r = e \<and> class_id r = c) (ticket_classes s)"

section \<open>Sale assets\<close>

record asset_view =
  view_asset :: "asset option"
  fixed :: bool
  unpriced :: "ident list"

definition asset_read :: "store \<Rightarrow> ident \<Rightarrow> asset_view" where
  "asset_read s e = \<lparr>view_asset = event_asset s e, fixed = hasHadHold s e,
                     unpriced = unpricedClasses s e\<rparr>"

definition upsert_asset :: "ident \<Rightarrow> ident \<Rightarrow> ident \<Rightarrow> asset \<Rightarrow> time \<Rightarrow> store \<Rightarrow> store" where
  "upsert_asset org rid e a at s =
     (let row = \<lparr>asset_event = e, sale_asset = a, asset_organiser = org, asset_request = rid,
                 asset_set_at = at\<rparr> in
      if exists_where (\<lambda>r. asset_event r = e) (sale_assets s)
      then s\<lparr>sale_assets := update_where (\<lambda>r. asset_event r = e) (\<lambda>_. row) (sale_assets s)\<rparr>
      else s\<lparr>sale_assets := sale_assets s @ [row]\<rparr>)"

definition clear_prices :: "ident \<Rightarrow> time \<Rightarrow> store \<Rightarrow> store" where
  "clear_prices e at s = s\<lparr>ticket_classes :=
     update_where (\<lambda>c. class_event c = e \<and> class_provenance c = Purchased)
       (\<lambda>c. c\<lparr>price := None, price_set_at := Some at\<rparr>) (ticket_classes s)\<rparr>"

definition set_asset ::
  "ledger \<Rightarrow> ident \<Rightarrow> ident \<Rightarrow> ident \<Rightarrow> asset \<Rightarrow> time \<Rightarrow> store \<Rightarrow> failure + asset_view \<times> store" where
  "set_asset L org rid e a at s =
     and_then (ownedEvent L s org e) (\<lambda>_.
     let current = asset_read s e in
     if view_asset current = Some a then Inr (current, s)
     else and_then (guard (\<not> fixed current) (RefusedRequest CONFLICT None)) (\<lambda>_.
          let s1 = (if view_asset current \<noteq> None then clear_prices e at s else s);
              s2 = upsert_asset org rid e a at s1
          in Inr (asset_read s2 e, s2)))"

definition get_asset :: "ledger \<Rightarrow> ident \<Rightarrow> ident \<Rightarrow> store \<Rightarrow> failure + asset_view" where
  "get_asset L org e s = and_then (ownedEvent L s org e) (\<lambda>_. Inr (asset_read s e))"

section \<open>Zones and canonical seats\<close>

definition MAX_DESIGNATION_LENGTH :: nat where "MAX_DESIGNATION_LENGTH = 100"

definition positionsOf :: "store \<Rightarrow> ident \<Rightarrow> ident \<Rightarrow> string list" where
  "positionsOf s e z =
     map designation (filter (\<lambda>r. seat_event r = e \<and> seat_zone r = z) (seat_positions s))"

definition addZone :: "ledger \<Rightarrow> ident \<Rightarrow> ident \<Rightarrow> verdict \<Rightarrow> store \<Rightarrow> failure + ident" where
  "addZone L org e v s = and_then (ownedEvent L s org e) (\<lambda>_. settledOrThrow v)"

definition removeZone ::
  "ledger \<Rightarrow> ident \<Rightarrow> ident \<Rightarrow> ident \<Rightarrow> verdict \<Rightarrow> store \<Rightarrow> failure + ident \<times> store" where
  "removeZone L org e z v s =
     and_then (ownedEvent L s org e) (\<lambda>_.
     and_then (settledOrThrow v) (\<lambda>cur.
     Inr (cur, s\<lparr>seat_positions :=
       filter (\<lambda>r. \<not> (seat_event r = e \<and> seat_zone r = z)) (seat_positions s)\<rparr>)))"

definition normalised_position :: "env \<Rightarrow> string \<Rightarrow> failure + string" where
  "normalised_position E d =
     (let n = (if isWellFormed E d then nfc E d else []) in
      if utf16Length E n = 0 \<or> utf16Length E n > MAX_DESIGNATION_LENGTH
      then Inl (RefusedRequest BAD_REQUEST None) else Inr n)"

fun normalised_positions :: "env \<Rightarrow> string list \<Rightarrow> failure + string list" where
  "normalised_positions E [] = Inr []"
| "normalised_positions E (d # ds) =
     and_then (normalised_position E d) (\<lambda>n.
     and_then (normalised_positions E ds) (\<lambda>ns. Inr (n # ns)))"

definition insert_seat :: "ident \<Rightarrow> ident \<Rightarrow> ident \<Rightarrow> time \<Rightarrow> string \<Rightarrow> seat_row list \<Rightarrow> seat_row list" where
  "insert_seat e z rid at d rows =
     (if exists_where (\<lambda>r. seat_event r = e \<and> seat_zone r = z \<and> designation r = d) rows then rows
      else rows @ [\<lparr>seat_event = e, seat_zone = z, designation = d, seat_request = rid,
                    seat_created_at = at\<rparr>])"

definition addSeatPositions ::
  "env \<Rightarrow> ledger \<Rightarrow> ident \<Rightarrow> ident \<Rightarrow> ident \<Rightarrow> ident \<Rightarrow> string list \<Rightarrow> time \<Rightarrow> store \<Rightarrow>
     failure + string list \<times> store" where
  "addSeatPositions E L org rid e z ds at s =
     and_then (ownedEvent L s org e) (\<lambda>(ev, _).
     case find (\<lambda>zn. zone_id zn = z) (zones ev) of
       None \<Rightarrow> Inl (SpecCodeError ''ERR-UnknownZone'' None)
     | Some zn \<Rightarrow>
         if zone_kind zn \<noteq> SeatedZone then Inl (SpecCodeError ''ERR-ZoneKindMismatch'' None)
         else and_then (normalised_positions E ds) (\<lambda>ns.
              let s' = s\<lparr>seat_positions := fold (insert_seat e z rid at) ns (seat_positions s)\<rparr>
              in Inr (positionsOf s' e z, s')))"

definition seatPositions :: "ledger \<Rightarrow> ident \<Rightarrow> ident \<Rightarrow> ident \<Rightarrow> store \<Rightarrow> failure + string list" where
  "seatPositions L org e z s = and_then (ownedEvent L s org e) (\<lambda>_. Inr (positionsOf s e z))"

definition canonicalPosition ::
  "env \<Rightarrow> store \<Rightarrow> ident \<Rightarrow> ident \<Rightarrow> string \<Rightarrow> failure + ident" where
  "canonicalPosition E s e z d =
     (if isWellFormed E d \<and> exists_where (\<lambda>r. seat_event r = e \<and> seat_zone r = z \<and>
           designation r = nfc E d) (seat_positions s)
      then positionOf E (nfc E d)
      else Inl (RefusedRequest BAD_REQUEST None))"

section \<open>Pass windows\<close>

definition MIN_PASS_WINDOW_MS :: time where "MIN_PASS_WINDOW_MS = 10000"

text \<open>The profile's default is a parameter, as the ledger's maximum is.\<close>

definition defaultPassWindow :: "time \<Rightarrow> time \<Rightarrow> time" where
  "defaultPassWindow profile_default maximum = min profile_default maximum"

record window_view =
  view_event :: ident
  view_window :: time
  isDefault :: bool
  minimumMs :: time
  maximumMs :: time

definition read_window :: "time \<Rightarrow> time \<Rightarrow> store \<Rightarrow> ident \<Rightarrow> window_view" where
  "read_window dflt maximum s e =
     (let row = find (\<lambda>r. win_event r = e) (pass_windows s) in
      \<lparr>view_event = e,
       view_window = (case row of None \<Rightarrow> defaultPassWindow dflt maximum | Some r \<Rightarrow> window_ms r),
       isDefault = (row = None), minimumMs = MIN_PASS_WINDOW_MS, maximumMs = maximum\<rparr>)"

definition get_window ::
  "ledger \<Rightarrow> time \<Rightarrow> time \<Rightarrow> ident \<Rightarrow> ident \<Rightarrow> store \<Rightarrow> failure + window_view" where
  "get_window L dflt maximum org e s =
     and_then (ownedEvent L s org e) (\<lambda>_. Inr (read_window dflt maximum s e))"

definition set_window ::
  "ledger \<Rightarrow> time \<Rightarrow> time \<Rightarrow> ident \<Rightarrow> ident \<Rightarrow> ident \<Rightarrow> time \<Rightarrow> time \<Rightarrow> store \<Rightarrow>
     failure + window_view \<times> store" where
  "set_window L dflt maximum org rid e w at s =
     and_then (guard (w \<le> MAX_SAFE_INTEGER \<and> w \<ge> MIN_PASS_WINDOW_MS \<and> w \<le> maximum)
                (RefusedRequest BAD_REQUEST None)) (\<lambda>_.
     and_then (ownedEvent L s org e) (\<lambda>_.
     let row = \<lparr>win_event = e, window_ms = w, win_organiser = org, win_request = rid,
                win_set_at = at\<rparr>;
         s' = (if exists_where (\<lambda>r. win_event r = e) (pass_windows s)
               then s\<lparr>pass_windows := update_where (\<lambda>r. win_event r = e) (\<lambda>_. row) (pass_windows s)\<rparr>
               else s\<lparr>pass_windows := pass_windows s @ [row]\<rparr>)
     in Inr (read_window dflt maximum s' e, s')))"

end
