(* ===== verification/Payments.thy ===== *)
theory Payments
  imports Holds Provider Catalogue
begin

text \<open>
  \<open>src/sales/payment.ts\<close>: paying for a hold, and what a verified payment leads to.  Each
  transaction of the code is one function on the store; the operations that call the
  provider thread its state beside the store.  \<open>randomUUID\<close> draws are functions of the row
  they are drawn for (record \<open>draws\<close>), and the clock is one argument \<open>at\<close>.
\<close>

section \<open>Reading\<close>

record draws =
  draw_sale :: "ident \<Rightarrow> ident"
  draw_refund :: "ident \<Rightarrow> ident"
  draw_hosted :: "ident \<Rightarrow> ident"
  draw_discriminator :: "ident \<Rightarrow> ident"

text \<open>\<open>HOLD_COLUMNS\<close>: a hold's columns, and of its checkout the holder and their link.\<close>

definition checkout_of_hold :: "store \<Rightarrow> hold_row \<Rightarrow> checkout_row option" where
  "checkout_of_hold s h = find (\<lambda>c. checkout_id c = hold_checkout h) (checkout_sessions s)"

definition hold_by_id :: "store \<Rightarrow> ident \<Rightarrow> hold_row option" where
  "hold_by_id s i = find (\<lambda>h. hold_id h = i) (holds s)"

definition holdByToken :: "env \<Rightarrow> store \<Rightarrow> string \<Rightarrow> failure + hold_row \<times> checkout_row" where
  "holdByToken E s token =
     (case find (\<lambda>c. token_hash c = hashSecret E token) (checkout_sessions s) of
        None \<Rightarrow> Inl (CheckoutError UnknownCheckout)
      | Some c \<Rightarrow> (case hold_of_checkout s (checkout_id c) of
            None \<Rightarrow> Inl (CheckoutError HoldRequired)
          | Some h \<Rightarrow> Inr (h, c)))"

definition openHosted :: "store \<Rightarrow> ident \<Rightarrow> hosted_row option" where
  "openHosted s hold = find (\<lambda>k. hosted_hold k = hold \<and> hosted_status k = Open) (hosted_checkouts s)"

section \<open>Single statements\<close>

definition recordStatus :: "ident \<Rightarrow> hosted_status \<Rightarrow> time \<Rightarrow> store \<Rightarrow> store" where
  "recordStatus i st at s = s\<lparr>hosted_checkouts := update_where (\<lambda>k. hosted_id k = i)
     (\<lambda>k. k\<lparr>hosted_status := st, hosted_updated_at := at\<rparr>) (hosted_checkouts s)\<rparr>"

definition releasable :: "ident \<Rightarrow> hold_row \<Rightarrow> bool" where
  "releasable i h \<longleftrightarrow> hold_id h = i \<and> hold_status h = Outstanding"

definition releaseHold :: "ident \<Rightarrow> time \<Rightarrow> store \<Rightarrow> bool \<times> store" where
  "releaseHold i at s = (count_where (releasable i) (holds s) = 1,
     s\<lparr>holds := update_where (releasable i) (release_row at) (holds s)\<rparr>)"

definition refund_name :: "refund_reason \<Rightarrow> string" where
  "refund_name r = (case r of IssuanceRejected \<Rightarrow> ''issuance-rejected'' | PlaceGone \<Rightarrow> ''place-gone''
     | AmountMismatch \<Rightarrow> ''amount-mismatch'' | EventClosed \<Rightarrow> ''event-closed''
     | EventCancelled \<Rightarrow> ''event-cancelled'')"

text \<open>
  \<open>ON CONFLICT (hosted_checkout_id) DO NOTHING\<close>; the amount is checked positive first, and
  the primary key last.
\<close>

definition entitle ::
  "cause \<Rightarrow> hosted_row \<Rightarrow> ident \<Rightarrow> money \<Rightarrow> asset \<Rightarrow> refund_reason \<Rightarrow> ident \<Rightarrow> time \<Rightarrow> store \<Rightarrow>
     failure + store" where
  "entitle q k c amount ast reason i at s =
     (if amount \<le> 0 then Inl StoreError
      else if exists_where (\<lambda>r. refund_hosted r = hosted_id k) (refund_entitlements s) then Inr s
      else if exists_where (\<lambda>r. refund_id r = i) (refund_entitlements s) then Inl StoreError
      else Inr (recordCheckoutStep c RefundEntitled q at
             [(''reason'', DStr (refund_name reason)), (''amount'', DNum amount),
              (''asset'', DStr ast), (''providerCheckout'', DStr (provider_checkout_id k))]
             (s\<lparr>refund_entitlements := refund_entitlements s @
                 [\<lparr>refund_id = i, refund_hosted = hosted_id k, refund_checkout = c,
                   refund_amount = amount, refund_asset = ast, refund_reason = reason,
                   refund_created_at = at, refund_ticket = None, refund_purchaser = None,
                   holder_at_cancellation = None\<rparr>]\<rparr>)))"

section \<open>Taking the place a verified payment is for\<close>

definition handled :: "store \<Rightarrow> ident \<Rightarrow> bool" where
  "handled s k \<longleftrightarrow> exists_where (\<lambda>x. sale_hosted x = k) (primary_sales s) \<or>
                  exists_where (\<lambda>r. refund_hosted r = k) (refund_entitlements s)"

definition take_row :: "hold_row \<Rightarrow> hold_row" where
  "take_row h = h\<lparr>hold_status := Issuing, ended_at := None\<rparr>"

text \<open>\<open>UPDATE holds SET status = 'issuing'\<close>: the live-seat index allows it only if no other live hold has the seat.\<close>

definition take_hold :: "hold_row \<Rightarrow> store \<Rightarrow> failure + store" where
  "take_hold h s =
     (if exists_where (\<lambda>h'. hold_id h' \<noteq> hold_id h \<and> live h' \<and> same_seat h h') (holds s)
      then Inl StoreError
      else Inr (s\<lparr>holds := update_where (\<lambda>h'. hold_id h' = hold_id h) take_row (holds s)\<rparr>))"

definition insert_sale :: "sale_row \<Rightarrow> store \<Rightarrow> failure + store" where
  "insert_sale x s =
     (if exists_where (\<lambda>y. sale_id y = sale_id x \<or> sale_hosted y = sale_hosted x) (primary_sales s)
      then Inl StoreError else Inr (s\<lparr>primary_sales := primary_sales s @ [x]\<rparr>))"

definition new_sale :: "ident \<Rightarrow> hosted_row \<Rightarrow> hold_row \<Rightarrow> ident \<Rightarrow> time \<Rightarrow> sale_row" where
  "new_sale i k h acc at = \<lparr>sale_id = i, sale_hosted = hosted_id k, sale_hold = hold_id h,
     sale_holder = acc, sale_status = SaleIssuing, sale_ticket = None, receipt_cursor = None,
     error_code = None, operation_id = None, sale_created_at = at, completed_at = None\<rparr>"

definition target_of_hold :: "hold_row \<Rightarrow> target" where
  "target_of_hold h = \<lparr>t_event = hold_event h, t_zone = hold_zone h, t_class = hold_class h,
                       t_position = hold_position h\<rparr>"

text \<open>Whether the place of a hold that ended is still free.\<close>

definition still_free ::
  "env \<Rightarrow> ledger \<Rightarrow> store \<Rightarrow> hold_row \<Rightarrow> counts \<Rightarrow> failure + bool" where
  "still_free E L s h n =
     (let free = (case getEvent L (hold_event h) of
           Inl _ \<Rightarrow> False
         | Inr ev \<Rightarrow> ev_status ev = Active \<and> capacityHasRoom ev n \<and> quotaHasRoom n \<and> \<not> seatHeld n)
      in case hold_position h of
           None \<Rightarrow> Inr free
         | Some p \<Rightarrow> if \<not> free then Inr False
             else and_then (positionOf E p) (\<lambda>pos.
               case assertFree E L s (hold_event h) (hold_zone h) pos of
                 Inr _ \<Rightarrow> Inr True
               | Inl (SpecCodeError c r) \<Rightarrow>
                   if c = ''ERR-TicketIdExists'' then Inr False else Inl (SpecCodeError c r)
               | Inl e \<Rightarrow> Inl e))"

definition placed_now ::
  "env \<Rightarrow> ledger \<Rightarrow> store \<Rightarrow> hold_row \<Rightarrow> hold_row \<Rightarrow> counts \<Rightarrow> failure + bool" where
  "placed_now E L s h current n =
     (if hold_status current = Lapsed \<or> hold_status current = Released
      then still_free E L s h n
      else Inr (hold_status current = Outstanding))"

text \<open>The tail of the transaction: the place is taken, or gone.\<close>

definition settle_place ::
  "cause \<Rightarrow> hosted_row \<Rightarrow> remote \<Rightarrow> hold_row \<Rightarrow> ident option \<Rightarrow> bool \<Rightarrow> time \<Rightarrow> draws \<Rightarrow> store \<Rightarrow>
     failure + (ident \<times> hold_row) option \<times> store" where
  "settle_place q k r h acc placed at D s =
     (if \<not> placed
      then and_then (entitle q k (hold_checkout h) (remote_amount r) (remote_asset r) PlaceGone
                       (draw_refund D (hosted_id k)) at s) (\<lambda>s'. Inr (None, s'))
      else and_then (take_hold h s) (\<lambda>s1.
           case acc of None \<Rightarrow> Inl StoreError
           | Some a \<Rightarrow>
               and_then (insert_sale (new_sale (draw_sale D (hosted_id k)) k h a at) s1) (\<lambda>s2.
               Inr (Some (draw_sale D (hosted_id k), h), s2))))"

definition refund_mismatch ::
  "cause \<Rightarrow> hosted_row \<Rightarrow> remote \<Rightarrow> hold_row \<Rightarrow> time \<Rightarrow> draws \<Rightarrow> store \<Rightarrow>
     failure + (ident \<times> hold_row) option \<times> store" where
  "refund_mismatch q k r h at D s =
     and_then (entitle q k (hold_checkout h) (remote_amount r) (remote_asset r) AmountMismatch
                 (draw_refund D (hosted_id k)) at s) (\<lambda>s1.
     Inr (None, snd (releaseHold (hold_id h) at s1)))"

definition refund_closed ::
  "cause \<Rightarrow> hosted_row \<Rightarrow> remote \<Rightarrow> hold_row \<Rightarrow> time \<Rightarrow> draws \<Rightarrow> store \<Rightarrow>
     failure + (ident \<times> hold_row) option \<times> store" where
  "refund_closed q k r h at D s =
     and_then (entitle q k (hold_checkout h) (remote_amount r) (remote_asset r) EventClosed
                 (draw_refund D (hosted_id k)) at s) (\<lambda>s1.
     let (released, s2) = releaseHold (hold_id h) at s1 in
     Inr (None, if released then recordCheckoutStep (hold_checkout h) HoldReleased q at [] s2 else s2))"

definition take_free ::
  "env \<Rightarrow> ledger \<Rightarrow> cause \<Rightarrow> hosted_row \<Rightarrow> remote \<Rightarrow> hold_row \<Rightarrow> checkout_row \<Rightarrow> time \<Rightarrow> draws \<Rightarrow> store \<Rightarrow>
     failure + (ident \<times> hold_row) option \<times> store" where
  "take_free E L q k r h c at D s =
     (let (n, s1) = allocationCounts (target_of_hold h) at s in
      case hold_by_id s1 (hold_id h) of
        None \<Rightarrow> settle_place q k r h (holder_account c) False at D s1
      | Some current \<Rightarrow>
          and_then (placed_now E L s1 h current n) (\<lambda>placed.
          settle_place q k r h (holder_account c) placed at D s1))"

text \<open>What the transaction does once the payment is verified, in the order the code checks.\<close>

definition take_verified ::
  "env \<Rightarrow> ledger \<Rightarrow> cause \<Rightarrow> hosted_row \<Rightarrow> remote \<Rightarrow> hold_row \<Rightarrow> checkout_row \<Rightarrow> time \<Rightarrow> draws \<Rightarrow> store \<Rightarrow>
     failure + (ident \<times> hold_row) option \<times> store" where
  "take_verified E L q k r h c at D s =
     (if remote_amount r \<noteq> hosted_amount k \<or> remote_asset r \<noteq> hosted_asset k
      then refund_mismatch q k r h at D s
      else if salesClosed s (hold_event h) then refund_closed q k r h at D s
      else take_free E L q k r h c at D s)"

definition verified_step :: "cause \<Rightarrow> hosted_row \<Rightarrow> remote \<Rightarrow> hold_row \<Rightarrow> time \<Rightarrow> store \<Rightarrow> store" where
  "verified_step q k r h at s = recordCheckoutStep (hold_checkout h) PaymentVerified q at
     [(''providerCheckout'', DStr (provider_checkout_id k)), (''amount'', DNum (remote_amount r)),
      (''asset'', DStr (remote_asset r))] s"

definition takePlace ::
  "env \<Rightarrow> ledger \<Rightarrow> cause \<Rightarrow> hosted_row \<Rightarrow> remote \<Rightarrow> time \<Rightarrow> draws \<Rightarrow> store \<Rightarrow>
     failure + (ident \<times> hold_row) option \<times> store" where
  "takePlace E L q k r at D s =
     (case hold_by_id s (hosted_hold k) of
        None \<Rightarrow> Inl OtherError
      | Some h \<Rightarrow> (case checkout_of_hold s h of None \<Rightarrow> Inl OtherError
      | Some c \<Rightarrow>
          and_then (lockAllocation E (target_of_hold h)) (\<lambda>_.
          let s1 = recordStatus (hosted_id k) (remote_status r) at s in
          if handled s1 (hosted_id k) then Inr (None, s1)
          else take_verified E L q k r h c at D (verified_step q k r h at s1))))"

section \<open>Issuing\<close>

datatype completion = CompleteIssued ident ident | CompleteRejected "code option" | CompleteFailed

definition sale_completion :: "completion \<Rightarrow> time \<Rightarrow> sale_row \<Rightarrow> sale_row" where
  "sale_completion d at x = (case d of
     CompleteIssued t cur \<Rightarrow> x\<lparr>sale_status := SaleIssued, sale_ticket := Some t,
        receipt_cursor := Some cur, error_code := None, completed_at := Some at\<rparr>
   | CompleteRejected c \<Rightarrow> x\<lparr>sale_status := SaleRejected, receipt_cursor := None, error_code := c,
        completed_at := Some at\<rparr>
   | CompleteFailed \<Rightarrow> x\<lparr>sale_status := SaleFailed, receipt_cursor := None, error_code := None,
        completed_at := Some at\<rparr>)"

definition confirm_row :: "time \<Rightarrow> hold_row \<Rightarrow> hold_row" where
  "confirm_row at h = h\<lparr>hold_status := Confirmed, confirmed_at := Some at\<rparr>"

definition give_back_row :: "time \<Rightarrow> hold_row \<Rightarrow> hold_row" where
  "give_back_row at h = h\<lparr>hold_status := Released, ended_at := Some at\<rparr>"

definition insert_face :: "face_row \<Rightarrow> store \<Rightarrow> failure + store" where
  "insert_face f s =
     (if exists_where (\<lambda>g. face_ticket g = face_ticket f \<or> face_sale g = face_sale f) (face_values s)
      then Inl StoreError else Inr (s\<lparr>face_values := face_values s @ [f]\<rparr>))"

text \<open>
  The transaction recording how an issuance ended; \<open>h\<close> is the hold as \<open>takePlace\<close> read it,
  \<open>oper\<close> the signed operation, if any.
\<close>

definition complete ::
  "cause \<Rightarrow> hosted_row \<Rightarrow> ident \<Rightarrow> hold_row \<Rightarrow> ident option \<Rightarrow> completion \<Rightarrow> time \<Rightarrow> draws \<Rightarrow> store \<Rightarrow>
     failure + unit \<times> store" where
  "complete q k x h oper d at D s =
     (let s1 = s\<lparr>primary_sales :=
                update_where (\<lambda>y. sale_id y = x) (sale_completion d at) (primary_sales s)\<rparr> in
      case d of
        CompleteIssued t cur \<Rightarrow>
          let s2 = s1\<lparr>holds := update_where (\<lambda>y. hold_id y = hold_id h) (confirm_row at) (holds s1)\<rparr> in
          (case (hold_price h, hold_asset h) of
             (Some amount, Some ast) \<Rightarrow>
               and_then (insert_face \<lparr>face_ticket = t, face_event = hold_event h,
                           face_class = hold_class h, face_sale = x, face_amount = amount,
                           face_asset = ast, face_recorded_at = at\<rparr> s2) (\<lambda>s3.
               Inr ((), recordCheckoutStep (hold_checkout h) IssuedStep q at
                 [(''sale'', DStr x), (''ticket'', DStr t), (''operation'', detail_of oper),
                  (''cursor'', DStr cur)] s3))
           | _ \<Rightarrow> Inl StoreError)
      | CompleteRejected c \<Rightarrow>
          let s2 = s1\<lparr>holds := update_where (\<lambda>y. hold_id y = hold_id h \<and> hold_status y = Issuing)
                     (give_back_row at) (holds s1)\<rparr>;
              s3 = recordCheckoutStep (hold_checkout h) IssuanceRejectedStep q at
                     [(''sale'', DStr x), (''operation'', detail_of oper),
                      (''errorCode'', detail_of c)] s2 in
          and_then (entitle q k (hold_checkout h) (hosted_amount k) (hosted_asset k)
                      IssuanceRejected (draw_refund D (hosted_id k)) at s3) (\<lambda>s4. Inr ((), s4))
      | CompleteFailed \<Rightarrow>
          Inr ((), recordCheckoutStep (hold_checkout h) IssuanceFailedStep q at
                 [(''sale'', DStr x), (''operation'', detail_of oper)] s1))"

text \<open>The command a paid hold's ticket is issued with.\<close>

datatype ledger_placement = LedgerUnseated ident | LedgerSeated ident

record issue_command =
  cmd_event :: ident
  cmd_zone :: ident
  cmd_placement :: ledger_placement
  cmd_class :: ident
  cmd_provenance :: provenance
  cmd_policy :: policy
  cmd_cannot_resale :: bool
  cmd_cannot_transfer :: bool
  cmd_holder :: ident

text \<open>
  Relaying a write through the organiser's authority: it throws with nothing signed, or
  answers the derived ticket, the operation it was signed as, and how the submission ended.
\<close>

datatype attempt = NothingSigned failure | Assembled ident "ident option" submission

type_synonym relay = "ident \<Rightarrow> request \<Rightarrow> issue_command \<Rightarrow> attempt"

definition organiser_of :: "store \<Rightarrow> ident \<Rightarrow> ident option" where
  "organiser_of s e = map_of (organiser_events s) e"

definition purchase_command ::
  "env \<Rightarrow> hold_row \<Rightarrow> class_row \<Rightarrow> ident \<Rightarrow> ident \<Rightarrow> failure + issue_command" where
  "purchase_command E h c disc acc =
     and_then (case hold_position h of None \<Rightarrow> Inr (LedgerUnseated disc)
               | Some p \<Rightarrow> and_then (positionOf E p) (\<lambda>pos. Inr (LedgerSeated pos))) (\<lambda>pl.
     Inr \<lparr>cmd_event = hold_event h, cmd_zone = hold_zone h, cmd_placement = pl,
          cmd_class = hold_class h, cmd_provenance = Purchased, cmd_policy = class_policy c,
          cmd_cannot_resale = False, cmd_cannot_transfer = False, cmd_holder = acc\<rparr>)"

text \<open>What is attempted: nothing without an organiser, a class and the buyer's link.\<close>

definition issue_attempt ::
  "env \<Rightarrow> relay \<Rightarrow> cause \<Rightarrow> hosted_row \<Rightarrow> hold_row \<Rightarrow> checkout_row \<Rightarrow> draws \<Rightarrow> store \<Rightarrow> attempt" where
  "issue_attempt E R q k h c D s =
     (case (organiser_of s (hold_event h), find_class s (hold_event h) (hold_class h),
            holder_account c, linked_session_id c) of
        (Some org, Some cl, Some acc, Some sess) \<Rightarrow>
          (case purchase_command E h cl (draw_discriminator D (hosted_id k)) acc of
             Inl e \<Rightarrow> NothingSigned e
           | Inr cmd \<Rightarrow> R org \<lparr>requestId = cause_request q, principal = Holder acc sess\<rparr> cmd)
      | _ \<Rightarrow> NothingSigned (RefusedRequest BAD_REQUEST None))"

definition set_ticket :: "ident \<Rightarrow> ident \<Rightarrow> store \<Rightarrow> store" where
  "set_ticket x t s = s\<lparr>primary_sales :=
     update_where (\<lambda>y. sale_id y = x) (\<lambda>y. y\<lparr>sale_ticket := Some t\<rparr>) (primary_sales s)\<rparr>"

definition recordOperation :: "ident \<Rightarrow> ident option \<Rightarrow> store \<Rightarrow> store" where
  "recordOperation x oper s = (case oper of None \<Rightarrow> s
     | Some _ \<Rightarrow> s\<lparr>primary_sales :=
         update_where (\<lambda>y. sale_id y = x) (\<lambda>y. y\<lparr>operation_id := oper\<rparr>) (primary_sales s)\<rparr>)"

definition issue ::
  "env \<Rightarrow> relay \<Rightarrow> cause \<Rightarrow> hosted_row \<Rightarrow> ident \<Rightarrow> hold_row \<Rightarrow> checkout_row \<Rightarrow> time \<Rightarrow> draws \<Rightarrow> store \<Rightarrow>
     (failure + unit) \<times> store" where
  "issue E R q k x h c at D s =
     (case issue_attempt E R q k h c D s of
        NothingSigned _ \<Rightarrow> in_transaction (complete q k x h None (CompleteRejected None) at D) s
      | Assembled t oper sub \<Rightarrow>
          let s2 = recordOperation x oper (set_ticket x t s) in
          in_transaction (complete q k x h oper
            (case sub of NoVerdict \<Rightarrow> CompleteFailed
             | Settled r \<Rightarrow> CompleteIssued t (cursor r)
             | RejectedWith e \<Rightarrow> CompleteRejected (Some e)) at D) s2)"

section \<open>Reconciling a hosted checkout\<close>

text \<open>
  The operations below answer a result and leave the store and the provider's state: the
  statements of a rolled-back transaction are gone, those of earlier ones stay.
\<close>

record 'p setting =
  s_env :: env
  s_ledger :: ledger
  s_relay :: relay
  s_provider :: "'p provider"
  s_webhook_url :: string

definition reconcile ::
  "'p setting \<Rightarrow> ident \<Rightarrow> ident \<Rightarrow> actor \<Rightarrow> time \<Rightarrow> draws \<Rightarrow> store \<times> 'p \<Rightarrow> (failure + unit) \<times> store \<times> 'p" where
  "reconcile X rid pid who at D w =
     (let (s, p) = w; q = \<lparr>cause_request = rid, cause_actor = who\<rparr> in
      case find (\<lambda>k. provider_checkout_id k = pid) (hosted_checkouts s) of
        None \<Rightarrow> (Inr (), s, p)
      | Some k \<Rightarrow>
          (case retrieve (s_provider X) pid p of
             (Inl e, p1) \<Rightarrow> (Inl e, s, p1)
           | (Inr r, p1) \<Rightarrow>
               if remote_hold r \<noteq> Some (hosted_hold k) then (Inr (), s, p1)
               else if remote_status r \<noteq> Paid
               then (Inr (), recordStatus (hosted_id k) (remote_status r) at s, p1)
               else
               (case in_transaction (takePlace (s_env X) (s_ledger X) q k r at D) s of
                  (Inl e, s1) \<Rightarrow> (Inl e, s1, p1)
                | (Inr None, s1) \<Rightarrow> (Inr (), s1, p1)
                | (Inr (Some (x, h)), s1) \<Rightarrow>
                    (case checkout_of_hold s h of
                       None \<Rightarrow> (Inl OtherError, s1, p1)
                     | Some c \<Rightarrow>
                        (case issue (s_env X) (s_relay X) q k x h c at D s1 of
                           (res, s2) \<Rightarrow> (res, s2, p1))))))"

fun reconcile_each ::
  "'p setting \<Rightarrow> ident \<Rightarrow> ident list \<Rightarrow> actor \<Rightarrow> time \<Rightarrow> draws \<Rightarrow> store \<times> 'p \<Rightarrow>
     (failure + unit) \<times> store \<times> 'p" where
  "reconcile_each X rid [] who at D w = (Inr (), w)"
| "reconcile_each X rid (i # rest) who at D w =
     (case reconcile X rid i who at D w of
        (Inl e, w') \<Rightarrow> (Inl e, w')
      | (Inr _, w') \<Rightarrow> reconcile_each X rid rest who at D w')"

text \<open>Cancels a hold's open hosted checkout; answers whether it turned out paid.\<close>

definition cancelHosted ::
  "'p setting \<Rightarrow> hosted_row \<Rightarrow> time \<Rightarrow> store \<times> 'p \<Rightarrow> (failure + bool) \<times> store \<times> 'p" where
  "cancelHosted X k at w = (let (s, p) = w in
     case cancelCheckout (s_provider X) (provider_checkout_id k) p of
       (Inl e, p1) \<Rightarrow> (Inl e, s, p1)
     | (Inr r, p1) \<Rightarrow> if remote_status r = Paid then (Inr True, s, p1)
                      else (Inr False, recordStatus (hosted_id k) (remote_status r) at s, p1))"

section \<open>Paying\<close>

record pay_input =
  pay_token :: string
  pay_success :: string
  pay_cancel :: string

text \<open>The unique indexes of \<open>hosted_checkouts\<close>: its key, the provider's identifier, one open per hold.\<close>

definition insert_hosted :: "hosted_row \<Rightarrow> store \<Rightarrow> failure + store" where
  "insert_hosted k s =
     (if hosted_amount k \<le> 0 \<or> exists_where (\<lambda>y. hosted_id y = hosted_id k \<or>
           provider_checkout_id y = provider_checkout_id k \<or>
           (hosted_status k = Open \<and> hosted_status y = Open \<and> hosted_hold y = hosted_hold k))
         (hosted_checkouts s)
      then Inl StoreError else Inr (s\<lparr>hosted_checkouts := hosted_checkouts s @ [k]\<rparr>))"

text \<open>The checks before paying: the hold, its price and asset.\<close>

definition payable ::
  "env \<Rightarrow> store \<Rightarrow> string \<Rightarrow> time \<Rightarrow> failure + hold_row \<times> money \<times> asset" where
  "payable E s token at =
     and_then (holdByToken E s token) (\<lambda>(h, c).
     and_then (guard (link_confirmed_at c \<noteq> None \<and> holder_account c \<noteq> None)
                 (CheckoutError LinkUnconfirmed)) (\<lambda>_.
     and_then (guard (hold_status h \<noteq> Issuing \<and> hold_status h \<noteq> Confirmed)
                 (CheckoutError AlreadyPaid)) (\<lambda>_.
     and_then (guard (hold_status h = Outstanding \<and> expires_at h > at)
                 (CheckoutError HoldEnded)) (\<lambda>_.
     case (hold_price h, hold_asset h) of
       (Some amount, Some ast) \<Rightarrow>
         and_then (guard (\<not> salesClosed s (hold_event h)) (CheckoutError SalesClosed)) (\<lambda>_.
         Inr (h, amount, ast))
     | _ \<Rightarrow> Inl (RefusedRequest BAD_REQUEST None)))))"

definition extend_for_payment :: "hold_row \<Rightarrow> time \<Rightarrow> store \<Rightarrow> time \<times> store" where
  "extend_for_payment h at s =
     (if extended_at h \<noteq> None then (expires_at h, s)
      else (expires_at h + HOLD_EXTENSION_MS,
            s\<lparr>holds := update_where (\<lambda>y. hold_id y = hold_id h)
               (\<lambda>y. y\<lparr>expires_at := expires_at h + HOLD_EXTENSION_MS, extended_at := Some at\<rparr>)
               (holds s)\<rparr>))"

definition new_hosted ::
  "ident \<Rightarrow> hold_row \<Rightarrow> remote \<Rightarrow> money \<Rightarrow> asset \<Rightarrow> time \<Rightarrow> ident \<Rightarrow> time \<Rightarrow> hosted_row" where
  "new_hosted i h r amount ast exp req at = \<lparr>hosted_id = i, hosted_hold = hold_id h,
     provider_checkout_id = remote_id r, hosted_url = remote_url r, hosted_amount = amount,
     hosted_asset = ast, hosted_status = Open, hosted_expires_at = exp, hosted_request = req,
     hosted_created_at = at, hosted_updated_at = at\<rparr>"

text \<open>The insert and its audit step, then the call that precedes them: \<open>s\<close> is the store as the
  transaction has left it so far.\<close>

definition record_payment ::
  "env \<Rightarrow> request \<Rightarrow> hold_row \<Rightarrow> remote \<Rightarrow> money \<Rightarrow> asset \<Rightarrow> time \<Rightarrow> ident \<Rightarrow> time \<Rightarrow> store \<Rightarrow>
     failure + hosted_row \<times> store" where
  "record_payment E req h r amount ast exp i at s =
     (let k = new_hosted i h r amount ast exp (requestId req) at in
      and_then (insert_hosted k s) (\<lambda>s2.
        Inr (k, recordCheckoutStep (hold_checkout h) PaymentStarted (cause_of req) at
          [(''providerCheckout'', DStr (remote_id r)), (''amount'', DNum amount),
           (''asset'', DStr ast), (''expiresAt'', DStr (iso E exp))] s2)))"

definition start_payment ::
  "'p setting \<Rightarrow> request \<Rightarrow> pay_input \<Rightarrow> hold_row \<Rightarrow> money \<Rightarrow> asset \<Rightarrow> time \<Rightarrow> draws \<Rightarrow> store \<times> 'p \<Rightarrow>
     (failure + hosted_row \<times> store) \<times> 'p" where
  "start_payment X req inp h amount ast at D w =
     (let (s, p) = w; (exp, s1) = extend_for_payment h at s;
          name = (case find_class s1 (hold_event h) (hold_class h) of None \<Rightarrow> ''Ticket''
                  | Some cl \<Rightarrow> class_name cl)
      in case createCheckout (s_provider X)
                \<lparr>create_hold = hold_id h, create_description = name, create_amount = amount,
                  create_asset = ast, create_expires = exp, successUrl = pay_success inp,
                  cancelUrl = pay_cancel inp, webhookUrl = s_webhook_url X\<rparr> p of
           (Inl e, p1) \<Rightarrow> (Inl e, p1)
         | (Inr r, p1) \<Rightarrow>
             (record_payment (s_env X) req h r amount ast exp (draw_hosted D (hold_id h)) at s1, p1))"

text \<open>
  \<open>pay\<close>.  An open hosted checkout the provider still has open is answered again; one that
  was paid meanwhile is recorded and reconciled, the failure of that left to \<open>onError\<close>; a
  cancelled or expired one is replaced.
\<close>

definition commit_or_rollback ::
  "store \<Rightarrow> (failure + 'a \<times> store) \<times> 'p \<Rightarrow> (failure + 'a) \<times> store \<times> 'p" where
  "commit_or_rollback s r = (case r of (Inl e, p) \<Rightarrow> (Inl e, s, p)
     | (Inr (a, s'), p) \<Rightarrow> (Inr a, s', p))"

definition pay ::
  "'p setting \<Rightarrow> request \<Rightarrow> pay_input \<Rightarrow> time \<Rightarrow> draws \<Rightarrow> store \<times> 'p \<Rightarrow>
     (failure + hosted_row) \<times> store \<times> 'p" where
  "pay X req inp at D w = (let (s, p) = w in
     case payable (s_env X) s (pay_token inp) at of
       Inl e \<Rightarrow> (Inl e, s, p)
     | Inr (h, amount, ast) \<Rightarrow>
         (case openHosted s (hold_id h) of
            None \<Rightarrow> commit_or_rollback s (start_payment X req inp h amount ast at D (s, p))
          | Some k \<Rightarrow>
              (case retrieve (s_provider X) (provider_checkout_id k) p of
                 (Inl e, p1) \<Rightarrow> (Inl e, s, p1)
               | (Inr r, p1) \<Rightarrow>
                   if remote_status r = Open then (Inr k, s, p1)
                   else
                   let s1 = recordStatus (hosted_id k) (remote_status r) at s in
                   if remote_status r = Paid
                   then (Inl (CheckoutError AlreadyPaid),
                         snd (reconcile X (requestId req) (provider_checkout_id k)
                                (Principal (principal req)) at D (s1, p1)))
                   else commit_or_rollback s (start_payment X req inp h amount ast at D (s1, p1)))))"

section \<open>Giving up\<close>

definition cancel ::
  "'p setting \<Rightarrow> request \<Rightarrow> string \<Rightarrow> time \<Rightarrow> draws \<Rightarrow> store \<times> 'p \<Rightarrow> (failure + unit) \<times> store \<times> 'p" where
  "cancel X req token at D w = (let (s, p) = w in
     case holdByToken (s_env X) s token of
       Inl e \<Rightarrow> (Inl e, s, p)
     | Inr (h, c) \<Rightarrow>
         if hold_status h \<noteq> Outstanding then (Inr (), s, p)
         else
         let give_up = (\<lambda>s1 pid. recordCheckoutStep (hold_checkout h) CheckoutCancelled (cause_of req) at
               [(''providerCheckout'', detail_of pid)] (snd (releaseHold (hold_id h) at s1))) in
         (case openHosted s (hold_id h) of
            None \<Rightarrow> (Inr (), give_up s None, p)
          | Some k \<Rightarrow>
              (case cancelHosted X k at (s, p) of
                 (Inl e, s1, p1) \<Rightarrow> (Inl e, s, p1)
               | (Inr True, s1, p1) \<Rightarrow>
                   reconcile X (requestId req) (provider_checkout_id k)
                     (Principal (principal req)) at D (s1, p1)
               | (Inr False, s1, p1) \<Rightarrow> (Inr (), give_up s1 (Some (provider_checkout_id k)), p1))))"

section \<open>Webhooks\<close>

datatype header = OneValue string | Values "string list"

definition header_value :: "header option \<Rightarrow> string option" where
  "header_value h = (case h of None \<Rightarrow> None | Some (OneValue v) \<Rightarrow> Some v
     | Some (Values vs) \<Rightarrow> (case vs of [] \<Rightarrow> None | v # _ \<Rightarrow> Some v))"

definition paymentWebhook ::
  "'p setting \<Rightarrow> ident \<Rightarrow> string \<Rightarrow> header option \<Rightarrow> time \<Rightarrow> draws \<Rightarrow> store \<times> 'p \<Rightarrow>
     (failure + bool) \<times> store \<times> 'p" where
  "paymentWebhook X rid body sig at D w =
     (case verifyWebhook (s_provider X) body (header_value sig) of
        None \<Rightarrow> (Inr False, w)
      | Some (cids, hids) \<Rightarrow>
          (let named = map provider_checkout_id (filter (\<lambda>k. provider_checkout_id k \<in> set cids \<or>
                         hosted_hold k \<in> set hids) (hosted_checkouts (fst w)))
           in case reconcile_each X rid named PaymentProvider at D w of
                (Inl e, w') \<Rightarrow> (Inl e, w') | (Inr _, w') \<Rightarrow> (Inr True, w')))"

section \<open>Closing an event's sales\<close>

definition close_sales :: "ident \<Rightarrow> cause \<Rightarrow> time \<Rightarrow> store \<Rightarrow> store" where
  "close_sales e q at s = (if salesClosed s e then s else
     s\<lparr>sale_closures := sale_closures s @
        [\<lparr>closure_event = e, closed_request_id = cause_request q,
          closed_principal = actor_kind (cause_actor q), closed_session = actor_session (cause_actor q),
          closed_at = at, reopened_at = None, reopened_request_id = None\<rparr>]\<rparr>)"

definition reopenSales :: "ident \<Rightarrow> cause \<Rightarrow> time \<Rightarrow> store \<Rightarrow> bool \<times> store" where
  "reopenSales e q at s =
     (let inforce = (\<lambda>c. closure_event c = e \<and> reopened_at c = None) in
      (count_where inforce (sale_closures s) = 1,
       s\<lparr>sale_closures := update_where inforce
          (\<lambda>c. c\<lparr>reopened_at := Some at, reopened_request_id := Some (cause_request q)\<rparr>)
          (sale_closures s)\<rparr>))"

definition has_open :: "store \<Rightarrow> ident \<Rightarrow> bool" where
  "has_open s i \<longleftrightarrow> openHosted s i \<noteq> None"

text \<open>One hold's transaction of \<open>releaseAll\<close>: answers whether a hosted checkout was cancelled, and one found paid.\<close>

definition force_release :: "ident \<Rightarrow> time \<Rightarrow> store \<Rightarrow> bool \<times> store" where
  "force_release i at s = (count_where (releasable i) (holds s) = 1,
     s\<lparr>holds := update_where (releasable i)
        (\<lambda>h. h\<lparr>hold_status := Released, ended_at := Some at\<rparr>) (holds s)\<rparr>)"

definition release_for_closing :: "hold_row \<Rightarrow> cause \<Rightarrow> time \<Rightarrow> store \<Rightarrow> store" where
  "release_for_closing h q at s =
     (if hold_status h = Outstanding
      then let (done, s1) = force_release (hold_id h) at s in
           if done then recordCheckoutStep (hold_checkout h) HoldReleased q at
                          [(''reason'', DStr ''event-closed'')] s1 else s1
      else s)"

definition release_one ::
  "'p setting \<Rightarrow> cause \<Rightarrow> ident \<Rightarrow> time \<Rightarrow> store \<times> 'p \<Rightarrow> (failure + nat \<times> ident list) \<times> store \<times> 'p" where
  "release_one X q i at w = (let (s, p) = w in
     case hold_by_id s i of
       None \<Rightarrow> (Inr (0, []), s, p)
     | Some h \<Rightarrow>
         (case openHosted s i of
            None \<Rightarrow> (Inr (0, []), release_for_closing h q at s, p)
          | Some k \<Rightarrow>
              (case cancelHosted X k at (s, p) of
                 (Inl e, s1, p1) \<Rightarrow> (Inl e, s, p1)
               | (Inr True, s1, p1) \<Rightarrow> (Inr (0, [provider_checkout_id k]), s1, p1)
               | (Inr False, s1, p1) \<Rightarrow>
                   (Inr (1, []), release_for_closing h q at
                      (recordCheckoutStep (hold_checkout h) CheckoutCancelled q at
                        [(''providerCheckout'', DStr (provider_checkout_id k))] s1), p1))))"

fun release_each ::
  "'p setting \<Rightarrow> cause \<Rightarrow> ident list \<Rightarrow> time \<Rightarrow> store \<times> 'p \<Rightarrow> (failure + nat \<times> ident list) \<times> store \<times> 'p" where
  "release_each X q [] at w = (Inr (0, []), w)"
| "release_each X q (i # rest) at w =
     (case release_one X q i at w of
        (Inl e, w') \<Rightarrow> (Inl e, w')
      | (Inr (n, ps), w') \<Rightarrow>
          (case release_each X q rest at w' of
             (Inl e, w'') \<Rightarrow> (Inl e, w'')
           | (Inr (m, qs), w'') \<Rightarrow> (Inr (n + m, ps @ qs), w'')))"

record released_sales =
  released :: nat
  cancelled :: nat
  refunds :: nat

definition to_release :: "store \<Rightarrow> ident \<Rightarrow> ident list" where
  "to_release s e = map hold_id (filter (\<lambda>h. hold_event h = e \<and>
     (hold_status h = Outstanding \<or> has_open s (hold_id h))) (holds s))"

definition releaseAll ::
  "'p setting \<Rightarrow> ident \<Rightarrow> cause \<Rightarrow> time \<Rightarrow> draws \<Rightarrow> store \<times> 'p \<Rightarrow>
     (failure + released_sales) \<times> store \<times> 'p" where
  "releaseAll X e q at D w =
     (let (s0, p) = w; s = close_sales e q at s0;
          outstanding = map hold_id (filter (\<lambda>h. hold_event h = e \<and> hold_status h = Outstanding) (holds s))
      in case release_each X q (to_release s e) at (s, p) of
           (Inl err, w1) \<Rightarrow> (Inl err, w1)
         | (Inr (n, paid), w1) \<Rightarrow>
             (case reconcile_each X (cause_request q) paid (cause_actor q) at D w1 of
                (Inl err, w2) \<Rightarrow> (Inl err, w2)
              | (Inr _, w2) \<Rightarrow>
                  (Inr \<lparr>released = count_where (\<lambda>h. hold_id h \<in> set outstanding \<and>
                          (hold_status h = Released \<or> hold_status h = Lapsed)) (holds (fst w2)),
                        cancelled = n,
                        refunds = count_where (\<lambda>r. refund_reason r = EventClosed \<and>
                          exists_where (\<lambda>k. hosted_id k = refund_hosted r \<and>
                            provider_checkout_id k \<in> set paid) (hosted_checkouts (fst w2)))
                          (refund_entitlements (fst w2))\<rparr>, w2)))"

section \<open>The sweep\<close>

text \<open>A failure of one hosted checkout's cancellation or reconciliation is reported, and the next is tried.\<close>

definition sweep_one ::
  "'p setting \<Rightarrow> ident \<Rightarrow> time \<Rightarrow> draws \<Rightarrow> hosted_row \<Rightarrow> store \<times> 'p \<Rightarrow> store \<times> 'p" where
  "sweep_one X rid at D k w =
     (case cancelHosted X k at w of
        (Inl e, w') \<Rightarrow> w'
      | (Inr False, w') \<Rightarrow> w'
      | (Inr True, w') \<Rightarrow> snd (reconcile X rid (provider_checkout_id k) SweepActor at D w'))"

definition ended_hosted :: "store \<Rightarrow> hosted_row list" where
  "ended_hosted s = filter (\<lambda>k. hosted_status k = Open \<and>
     exists_where (\<lambda>h. hold_id h = hosted_hold k \<and>
       (hold_status h = Lapsed \<or> hold_status h = Released)) (holds s)) (hosted_checkouts s)"

definition sweep :: "'p setting \<Rightarrow> ident \<Rightarrow> time \<Rightarrow> draws \<Rightarrow> store \<times> 'p \<Rightarrow> store \<times> 'p" where
  "sweep X rid at D w = (let s = lapse_all at (fst w) in
     fold (sweep_one X rid at D) (ended_hosted s) (s, snd w))"

end
