(* ===== verification/Issuance.thy ===== *)
theory Issuance
  imports Payments
begin

text \<open>
  Granted issuance (\<open>src/events/issuance.ts\<close>) and the invitations that redeem into it
  (\<open>src/events/invitations.ts\<close>).  \<open>reserve\<close> is one transaction under the locks a hold is
  placed under; the statements after it commit one by one.
\<close>

section \<open>Reserving\<close>

record grant_input =
  g_event :: ident
  g_class :: ident
  g_zone :: ident
  g_placement :: placement
  g_holder :: ident

record canonical_seat =
  seat_position :: ident
  seat_designation :: string

definition counted :: "granted_row \<Rightarrow> bool" where
  "counted g \<longleftrightarrow> granted_status g \<noteq> GrantedRejected"

definition grant_target :: "grant_input \<Rightarrow> canonical_seat option \<Rightarrow> target" where
  "grant_target inp seat = \<lparr>t_event = g_event inp, t_zone = g_zone inp, t_class = g_class inp,
     t_position = map_option seat_designation seat\<rparr>"

definition new_grant ::
  "ident \<Rightarrow> ident \<Rightarrow> grant_input \<Rightarrow> ident option \<Rightarrow> nat \<Rightarrow> time \<Rightarrow> granted_row" where
  "new_grant org rid inp ticket i at = \<lparr>granted_id = i, granted_event = g_event inp,
     granted_class = g_class inp, granted_ticket = ticket, granted_seat = ticket, granted_holder = g_holder inp,
     granted_organiser = org, granted_request = rid, granted_status = GrantedPending,
     granted_cursor = None, granted_operation = None, granted_error = None,
     granted_created_at = at, granted_completed_at = None\<rparr>"

text \<open>The seat's ticket, provided nothing and nobody has the seat.\<close>

definition reserve_seat ::
  "env \<Rightarrow> ledger \<Rightarrow> store \<Rightarrow> grant_input \<Rightarrow> canonical_seat option \<Rightarrow> counts \<Rightarrow> failure + ident option" where
  "reserve_seat E L s inp seat n =
     (case seat of None \<Rightarrow> Inr None
      | Some x \<Rightarrow>
          and_then (assertFree E L s (g_event inp) (g_zone inp) (seat_position x)) (\<lambda>ticket.
          and_then (guard (\<not> seatHeld n) (RefusedRequest CONFLICT (Some ''seat-held''))) (\<lambda>_.
          Inr (Some ticket))))"

definition reserve ::
  "env \<Rightarrow> ledger \<Rightarrow> ident \<Rightarrow> ident \<Rightarrow> grant_input \<Rightarrow> canonical_seat option \<Rightarrow> time \<Rightarrow> store \<Rightarrow>
     failure + nat \<times> store" where
  "reserve E L org rid inp seat at s =
     (let t = grant_target inp seat in
      and_then (lockAllocation E t) (\<lambda>_.
      and_then (guard (exists_where (\<lambda>c. class_id c = g_class inp \<and> class_event c = g_event inp)
                         (ticket_classes s)) (SpecCodeError ''ERR-UnknownClass'' None)) (\<lambda>_.
      let (n, s1) = allocationCounts t at s in
      and_then (reserve_seat E L s1 inp seat n) (\<lambda>ticket.
      case getEvent L (g_event inp) of
        Inl c \<Rightarrow> Inl (SpecCodeError c None)
      | Inr ev \<Rightarrow>
          and_then (guard (\<not> (ev_status ev = Active \<and> \<not> capacityHasRoom ev n))
                      (SpecCodeError ''ERR-CapacityExceeded'' None)) (\<lambda>_.
          and_then (guard (quotaHasRoom n) (SpecCodeError ''ERR-ClassQuotaExceeded'' None)) (\<lambda>_.
          Inr (granted_seq s1,
               s1\<lparr>granted_seq := Suc (granted_seq s1),
                  granted_issuances := granted_issuances s1 @
                    [new_grant org rid inp ticket (granted_seq s1) at]\<rparr>)))))))"

section \<open>Completing\<close>

definition completed_grant :: "submission \<Rightarrow> time \<Rightarrow> granted_row \<Rightarrow> granted_row" where
  "completed_grant sub at g = (case sub of
     NoVerdict \<Rightarrow> g\<lparr>granted_status := GrantedFailed, granted_completed_at := Some at\<rparr>
   | Settled r \<Rightarrow> g\<lparr>granted_status := GrantedSettled, granted_operation := Some (operationId r),
       granted_cursor := Some (cursor r), granted_completed_at := Some at\<rparr>
   | RejectedWith c \<Rightarrow> g\<lparr>granted_status := GrantedRejected, granted_error := Some c,
       granted_completed_at := Some at\<rparr>)"

definition complete_grant :: "nat \<Rightarrow> submission \<Rightarrow> time \<Rightarrow> store \<Rightarrow> store" where
  "complete_grant i sub at s = s\<lparr>granted_issuances :=
     update_where (\<lambda>g. granted_id g = i) (completed_grant sub at) (granted_issuances s)\<rparr>"

definition forget_grant :: "nat \<Rightarrow> store \<Rightarrow> store" where
  "forget_grant i s = s\<lparr>granted_issuances :=
     filter (\<lambda>g. granted_id g \<noteq> i) (granted_issuances s)\<rparr>"

definition set_granted_ticket :: "nat \<Rightarrow> ident \<Rightarrow> store \<Rightarrow> store" where
  "set_granted_ticket i t s = s\<lparr>granted_issuances :=
     update_where (\<lambda>g. granted_id g = i) (\<lambda>g. g\<lparr>granted_ticket := Some t\<rparr>) (granted_issuances s)\<rparr>"

section \<open>Granted issuance\<close>

definition grant_command :: "grant_input \<Rightarrow> ledger_placement \<Rightarrow> class_row \<Rightarrow> issue_command" where
  "grant_command inp pl c = \<lparr>cmd_event = g_event inp, cmd_zone = g_zone inp, cmd_placement = pl,
     cmd_class = class_id c, cmd_provenance = Granted, cmd_policy = class_policy c,
     cmd_cannot_resale = cannot_resale c, cmd_cannot_transfer = cannot_transfer c,
     cmd_holder = g_holder inp\<rparr>"

text \<open>
  The seat to reserve, canonical in a seated zone, and the placement to sign. A seat in an
  unknown or unseated zone is left to the ledger's verdict.
\<close>

definition grant_placement ::
  "env \<Rightarrow> store \<Rightarrow> ledger_event \<Rightarrow> grant_input \<Rightarrow> ident \<Rightarrow>
     failure + canonical_seat option \<times> ledger_placement" where
  "grant_placement E s ev inp disc =
     (case g_placement inp of
        Unseated \<Rightarrow> Inr (None, LedgerUnseated disc)
      | Seated d \<Rightarrow>
          (case find (\<lambda>z. zone_id z = g_zone inp) (zones ev) of
             Some z \<Rightarrow>
               if zone_kind z = SeatedZone
               then and_then (canonicalPosition E s (g_event inp) (g_zone inp) d) (\<lambda>pos.
                    and_then (normaliseDesignation E d) (\<lambda>n.
                    Inr (Some \<lparr>seat_position = pos, seat_designation = n\<rparr>, LedgerSeated pos)))
               else and_then (positionOf E d) (\<lambda>pos. Inr (None, LedgerSeated pos))
           | None \<Rightarrow> and_then (positionOf E d) (\<lambda>pos. Inr (None, LedgerSeated pos))))"

definition prepare_grant ::
  "env \<Rightarrow> ledger \<Rightarrow> ident \<Rightarrow> grant_input \<Rightarrow> ident \<Rightarrow> store \<Rightarrow>
     failure + class_row \<times> canonical_seat option \<times> ledger_placement" where
  "prepare_grant E L org inp disc s =
     and_then (ownedEvent L s org (g_event inp)) (\<lambda>(ev, _).
     case find_class s (g_event inp) (g_class inp) of
       None \<Rightarrow> Inl (SpecCodeError ''ERR-UnknownClass'' None)
     | Some c \<Rightarrow>
         and_then (guard (class_provenance c = Granted) (RefusedRequest BAD_REQUEST None)) (\<lambda>_.
         and_then (grant_placement E s ev inp disc) (\<lambda>(seat, pl). Inr (c, seat, pl))))"

definition issueGranted ::
  "env \<Rightarrow> ledger \<Rightarrow> relay \<Rightarrow> ident \<Rightarrow> request \<Rightarrow> grant_input \<Rightarrow> ident \<Rightarrow> time \<Rightarrow> store \<Rightarrow>
     (failure + ident \<times> ident) \<times> store" where
  "issueGranted E L R org req inp disc at s =
     (case prepare_grant E L org inp disc s of
        Inl e \<Rightarrow> (Inl e, s)
      | Inr (c, seat, pl) \<Rightarrow>
          (case in_transaction (reserve E L org (requestId req) inp seat at) s of
             (Inl e, s1) \<Rightarrow> (Inl e, s1)
           | (Inr i, s1) \<Rightarrow>
               (case R org req (grant_command inp pl c) of
                  NothingSigned e \<Rightarrow> (Inl e, forget_grant i s1)
                | Assembled t oper sub \<Rightarrow>
                    let s2 = complete_grant i sub at (set_granted_ticket i t s1) in
                    (case sub of
                       NoVerdict \<Rightarrow> (Inl OtherError, s2)
                     | RejectedWith e \<Rightarrow> (Inl (SpecCodeError e None), s2)
                     | Settled r \<Rightarrow> (Inr (t, cursor r), s2)))))"

section \<open>Invitations\<close>

definition reason_of_code :: "code \<Rightarrow> string option" where
  "reason_of_code c = map_of [(''ERR-TicketIdExists'', ''seat-taken''),
     (''ERR-CapacityExceeded'', ''sold-out''), (''ERR-ClassQuotaExceeded'', ''class-sold-out'')] c"

definition withReason :: "failure \<Rightarrow> failure" where
  "withReason e = (case e of
     SpecCodeError c None \<Rightarrow>
       (case reason_of_code c of None \<Rightarrow> e | Some r \<Rightarrow> SpecCodeError c (Some r))
   | _ \<Rightarrow> e)"

text \<open>A refusal issued nothing; anything else may have.\<close>

definition is_refusal :: "failure \<Rightarrow> bool" where
  "is_refusal e = (case e of SpecCodeError _ _ \<Rightarrow> True | RefusedRequest _ _ \<Rightarrow> True | _ \<Rightarrow> False)"

record invitation_input =
  i_event :: ident
  i_class :: ident
  i_zone :: ident
  i_placement :: placement
  i_guest :: "string option"

definition placement_kind :: "placement \<Rightarrow> zone_kind" where
  "placement_kind p = (case p of Seated _ \<Rightarrow> SeatedZone | Unseated \<Rightarrow> UnseatedZone)"

definition check_invitation ::
  "env \<Rightarrow> ledger \<Rightarrow> ident \<Rightarrow> invitation_input \<Rightarrow> store \<Rightarrow> failure + placement" where
  "check_invitation E L org inp s =
     and_then (ownedEvent L s org (i_event inp)) (\<lambda>(ev, _).
     case find_class s (i_event inp) (i_class inp) of
       None \<Rightarrow> Inl (SpecCodeError ''ERR-UnknownClass'' None)
     | Some c \<Rightarrow>
         and_then (guard (class_provenance c = Granted) (RefusedRequest BAD_REQUEST None)) (\<lambda>_.
         case find (\<lambda>z. zone_id z = i_zone inp) (zones ev) of
           None \<Rightarrow> Inl (SpecCodeError ''ERR-UnknownZone'' None)
         | Some z \<Rightarrow>
             and_then (guard (zone_kind z = placement_kind (i_placement inp))
                         (SpecCodeError ''ERR-ZoneKindMismatch'' None)) (\<lambda>_.
             case i_placement inp of
               Unseated \<Rightarrow> Inr Unseated
             | Seated d \<Rightarrow>
                 and_then (canonicalPosition E s (i_event inp) (i_zone inp) d) (\<lambda>_.
                 and_then (normaliseDesignation E d) (\<lambda>n. Inr (Seated n))))))"

definition create_invitation ::
  "env \<Rightarrow> ledger \<Rightarrow> ident \<Rightarrow> ident \<Rightarrow> invitation_input \<Rightarrow> ident \<Rightarrow> string \<Rightarrow> time \<Rightarrow> store \<Rightarrow>
     failure + (invitation_row \<times> string) \<times> store" where
  "create_invitation E L org rid inp i token at s =
     and_then (check_invitation E L org inp s) (\<lambda>pl.
     let row = \<lparr>inv_id = i, inv_token_hash = hashSecret E token, inv_event = i_event inp,
                inv_class = i_class inp, inv_zone = i_zone inp, inv_placement = pl,
                inv_guest = i_guest inp, inv_organiser = org, inv_status = InvOpen,
                inv_holder = None, inv_ticket = None, inv_request = rid,
                inv_created_at = at, inv_redeemed_at = None\<rparr> in
     if exists_where (\<lambda>r. inv_id r = i \<or> inv_token_hash r = inv_token_hash row) (invitations s)
     then Inl StoreError
     else Inr ((row, token), s\<lparr>invitations := invitations s @ [row]\<rparr>))"

definition update_invitation ::
  "ident \<Rightarrow> (invitation_row \<Rightarrow> invitation_row) \<Rightarrow> store \<Rightarrow> store" where
  "update_invitation i f s =
     s\<lparr>invitations := update_where (\<lambda>r. inv_id r = i) f (invitations s)\<rparr>"

text \<open>The claim: one statement, matching only an open invitation with the token's hash.\<close>

definition claim_invitation :: "ident \<Rightarrow> ident \<Rightarrow> store \<Rightarrow> invitation_row option \<times> store" where
  "claim_invitation th holder s =
     (let P = (\<lambda>r. inv_token_hash r = th \<and> inv_status r = InvOpen);
          f = (\<lambda>r. r\<lparr>inv_status := Redeeming, inv_holder := Some holder\<rparr>)
      in (map_option f (find P (invitations s)),
          s\<lparr>invitations := update_where P f (invitations s)\<rparr>))"

definition grant_input_of :: "invitation_row \<Rightarrow> ident \<Rightarrow> grant_input" where
  "grant_input_of r holder = \<lparr>g_event = inv_event r, g_class = inv_class r, g_zone = inv_zone r,
     g_placement = inv_placement r, g_holder = holder\<rparr>"

definition finish_redemption ::
  "invitation_row \<Rightarrow> time \<Rightarrow> failure + ident \<times> ident \<Rightarrow> store \<Rightarrow> store" where
  "finish_redemption r at res s = update_invitation (inv_id r)
     (case res of
        Inl e \<Rightarrow> if is_refusal e then (\<lambda>x. x\<lparr>inv_status := InvOpen, inv_holder := None\<rparr>)
                 else (\<lambda>x. x\<lparr>inv_status := InvFailed\<rparr>)
      | Inr (t, _) \<Rightarrow> (\<lambda>x. x\<lparr>inv_status := Redeemed, inv_ticket := Some t,
                              inv_redeemed_at := Some at\<rparr>)) s"

definition redeem ::
  "env \<Rightarrow> ledger \<Rightarrow> relay \<Rightarrow> ident \<Rightarrow> request \<Rightarrow> string \<Rightarrow> ident \<Rightarrow> time \<Rightarrow> store \<Rightarrow>
     (failure + (ident \<times> ident) \<times> ident \<times> ident) \<times> store" where
  "redeem E L R holder req token disc at s =
     (let th = hashSecret E token in
      case claim_invitation th holder s of
        (None, s1) \<Rightarrow>
          (Inl (if exists_where (\<lambda>r. inv_token_hash r = th) (invitations s1)
                then RefusedRequest CONFLICT (Some ''already-redeemed'')
                else RefusedRequest NOT_FOUND (Some ''unknown-invitation'')), s1)
      | (Some r, s1) \<Rightarrow>
          (case issueGranted E L R (inv_organiser r) req (grant_input_of r holder) disc at s1 of
             (res, s2) \<Rightarrow>
               (map_sum withReason (\<lambda>x. (x, inv_event r, inv_class r)) res,
                finish_redemption r at res s2)))"

end
