(* ===== verification/Checkouts.thy ===== *)
theory Checkouts
  imports Payments
begin

text \<open>
  \<open>src/sales/checkout.ts\<close>: checkout sessions, the Saifu handoff and its pairing, and the
  step that places the checkout's hold.
\<close>

section \<open>Secrets\<close>

definition CHECKOUT_LIFETIME_MS :: time where "CHECKOUT_LIFETIME_MS = 60 * 60 * 1000"
definition MAX_TICKET_WAIT_MS :: time where "MAX_TICKET_WAIT_MS = 10000"
definition PAIRING_CODE_DIGITS :: nat where "PAIRING_CODE_DIGITS = 6"

definition handoffTokenOf :: "env \<Rightarrow> string \<Rightarrow> nat \<Rightarrow> string" where
  "handoffTokenOf E token n = base64url E (hmac E token (''kippu/checkout/handoff/'' @ decimal n))"

text \<open>\<open>digest.readUInt32BE(0)\<close>, of a digest of at least four bytes.\<close>

definition readUInt32BE :: "string \<Rightarrow> nat" where
  "readUInt32BE d = foldl (\<lambda>a c. 256 * a + of_char c) 0 (take 4 d)"

definition padStart :: "nat \<Rightarrow> char \<Rightarrow> string \<Rightarrow> string" where
  "padStart n c s = replicate (n - length s) c @ s"

definition pairingCodeOf :: "env \<Rightarrow> checkout_row \<Rightarrow> ident \<Rightarrow> string" where
  "pairingCodeOf E c acc =
     (let digest = hmac E (token_hash c)
            (''kippu/checkout/pairing/'' @ to_hex (handoff_token_hash c) @ ''/'' @ acc)
      in padStart PAIRING_CODE_DIGITS (CHR ''0'')
           (decimal (readUInt32BE digest mod 10 ^ PAIRING_CODE_DIGITS)))"

section \<open>What a checkout page sees\<close>

datatype account_view =
    Handoff string
  | Pairing string
  | LinkedTo ident

record checkout_view =
  v_event :: ident
  v_zone :: ident
  v_class :: ident
  v_placement :: placement
  v_account :: account_view
  v_hold :: "(hold_status \<times> time \<times> bool \<times> asset option \<times> money option) option"
  v_payment :: "(hosted_status \<times> string \<times> money \<times> asset \<times> time) option"
  v_sale :: "(sale_status \<times> ident option \<times> ident option) option"
  v_refund :: "(money \<times> asset \<times> refund_reason) option"
  v_ticketVisible :: bool
  v_createdAt :: time
  v_expiresAt :: "time option"

definition first_row :: "'a list \<Rightarrow> 'a option" where
  "first_row rows = (case rows of [] \<Rightarrow> None | r # _ \<Rightarrow> Some r)"

text \<open>The lateral joins: the latest hosted checkout and sale of the hold, the first refund.\<close>

definition latest_hosted :: "store \<Rightarrow> ident \<Rightarrow> hosted_row option" where
  "latest_hosted s h = first_row (sort_key (\<lambda>k. (- hosted_created_at k, hosted_id k))
     (filter (\<lambda>k. hosted_hold k = h) (hosted_checkouts s)))"

definition latest_sale :: "store \<Rightarrow> ident \<Rightarrow> sale_row option" where
  "latest_sale s h = first_row (sort_key (\<lambda>x. (- sale_created_at x, sale_id x))
     (filter (\<lambda>x. sale_hold x = h) (primary_sales s)))"

definition first_refund :: "store \<Rightarrow> ident \<Rightarrow> refund_row option" where
  "first_refund s c = first_row (sort_key (\<lambda>r. (refund_created_at r, refund_id r))
     (filter (\<lambda>r. refund_checkout r = c) (refund_entitlements s)))"

definition expiresAtOf :: "store \<Rightarrow> checkout_row \<Rightarrow> time option" where
  "expiresAtOf s c = (case hold_of_checkout s (checkout_id c) of
     None \<Rightarrow> Some (checkout_created_at c + CHECKOUT_LIFETIME_MS) | Some _ \<Rightarrow> None)"

definition accountOf :: "env \<Rightarrow> checkout_row \<Rightarrow> string \<Rightarrow> account_view" where
  "accountOf E c token = (case holder_account c of
     None \<Rightarrow> Handoff (handoffTokenOf E token (handoff_generation c))
   | Some acc \<Rightarrow> if link_confirmed_at c = None then Pairing (pairingCodeOf E c acc) else LinkedTo acc)"

definition placement_of :: "checkout_row \<Rightarrow> placement" where
  "placement_of c = (case checkout_position c of None \<Rightarrow> Unseated | Some p \<Rightarrow> Seated p)"

definition hold_view :: "time \<Rightarrow> hold_row \<Rightarrow> hold_status \<times> time \<times> bool \<times> asset option \<times> money option" where
  "hold_view at h = (if hold_status h = Outstanding \<and> expires_at h \<le> at then Lapsed else hold_status h,
     expires_at h, extended_at h \<noteq> None, hold_asset h, hold_price h)"

definition checkoutOf :: "env \<Rightarrow> store \<Rightarrow> checkout_row \<Rightarrow> string \<Rightarrow> time \<Rightarrow> checkout_view" where
  "checkoutOf E s c token at =
     (let h = hold_of_checkout s (checkout_id c) in
      \<lparr>v_event = checkout_event c, v_zone = checkout_zone c, v_class = checkout_class c,
       v_placement = placement_of c, v_account = accountOf E c token,
       v_hold = map_option (hold_view at) h,
       v_payment = Option.bind h (\<lambda>h. map_option (\<lambda>k. (hosted_status k, hosted_url k,
                     hosted_amount k, hosted_asset k, hosted_expires_at k)) (latest_hosted s (hold_id h))),
       v_sale = Option.bind h (\<lambda>h. map_option (\<lambda>x. (sale_status x, sale_ticket x, receipt_cursor x))
                     (latest_sale s (hold_id h))),
       v_refund = map_option (\<lambda>r. (refund_amount r, refund_asset r, refund_reason r))
                     (first_refund s (checkout_id c)),
       v_ticketVisible = False, v_createdAt = checkout_created_at c,
       v_expiresAt = expiresAtOf s c\<rparr>)"

section \<open>Finding a checkout\<close>

definition findBy :: "env \<Rightarrow> (checkout_row \<Rightarrow> ident) \<Rightarrow> string \<Rightarrow> time \<Rightarrow> store \<Rightarrow> failure + checkout_row" where
  "findBy E column secret at s =
     (case find (\<lambda>c. column c = hashSecret E secret) (checkout_sessions s) of
        None \<Rightarrow> Inl (CheckoutError UnknownCheckout)
      | Some c \<Rightarrow> (case expiresAtOf s c of
            Some x \<Rightarrow> if x \<le> at then Inl (CheckoutError UnknownCheckout) else Inr c
          | None \<Rightarrow> Inr c))"

section \<open>Beginning\<close>

record begin_input =
  b_event :: ident
  b_zone :: ident
  b_class :: ident
  b_placement :: placement

text \<open>What was picked can be sold: on sale, a \<open>Purchased\<close> class, a placement that fits.\<close>

definition check_pick ::
  "env \<Rightarrow> ledger \<Rightarrow> begin_input \<Rightarrow> store \<Rightarrow> failure + string option" where
  "check_pick E L inp s =
     and_then (eventOnSale L s (b_event inp)) (\<lambda>ev.
     case find_class s (b_event inp) (b_class inp) of
       None \<Rightarrow> Inl (SpecCodeError ''ERR-UnknownClass'' None)
     | Some cl \<Rightarrow>
         and_then (guard (class_provenance cl = Purchased) (RefusedRequest BAD_REQUEST None)) (\<lambda>_.
         case find (\<lambda>z. zone_id z = b_zone inp) (zones ev) of
           None \<Rightarrow> Inl (SpecCodeError ''ERR-UnknownZone'' None)
         | Some z \<Rightarrow>
             (case b_placement inp of
                Unseated \<Rightarrow> if zone_kind z \<noteq> UnseatedZone
                  then Inl (SpecCodeError ''ERR-ZoneKindMismatch'' None) else Inr None
              | Seated d \<Rightarrow> if zone_kind z \<noteq> SeatedZone
                  then Inl (SpecCodeError ''ERR-ZoneKindMismatch'' None)
                  else and_then (canonicalPosition E s (b_event inp) (b_zone inp) d) (\<lambda>pos.
                       Inr (Some (of_hex pos))))))"

definition new_checkout ::
  "env \<Rightarrow> request \<Rightarrow> begin_input \<Rightarrow> string option \<Rightarrow> string \<Rightarrow> ident \<Rightarrow> time \<Rightarrow> checkout_row" where
  "new_checkout E req inp position token i at =
     (let linked = (case principal req of Holder acc sess \<Rightarrow> Some (acc, sess) | _ \<Rightarrow> None) in
      \<lparr>checkout_id = i, token_hash = hashSecret E token,
       handoff_token_hash = hashSecret E (handoffTokenOf E token 0), handoff_generation = 0,
       checkout_event = b_event inp, checkout_zone = b_zone inp, checkout_class = b_class inp,
       checkout_position = position, holder_account = map_option fst linked,
       checkout_created_at = at, linked_session_id = map_option snd linked,
       linked_request_id = map_option (\<lambda>_. requestId req) linked,
       linked_at = map_option (\<lambda>_. at) linked, link_confirmed_at = map_option (\<lambda>_. at) linked,
       link_confirmed_request_id = map_option (\<lambda>_. requestId req) linked,
       created_request_id = requestId req, created_principal_kind = principal_kind (principal req)\<rparr>)"

definition insert_checkout :: "checkout_row \<Rightarrow> store \<Rightarrow> failure + store" where
  "insert_checkout c s =
     (if exists_where (\<lambda>d. checkout_id d = checkout_id c \<or> token_hash d = token_hash c \<or>
           handoff_token_hash d = handoff_token_hash c) (checkout_sessions s)
      then Inl StoreError else Inr (s\<lparr>checkout_sessions := checkout_sessions s @ [c]\<rparr>))"

definition begin_tx ::
  "env \<Rightarrow> request \<Rightarrow> begin_input \<Rightarrow> string option \<Rightarrow> string \<Rightarrow> ident \<Rightarrow> time \<Rightarrow> store \<Rightarrow>
     failure + unit \<times> store" where
  "begin_tx E req inp position token i at s =
     (let c = new_checkout E req inp position token i at;
          step = (\<lambda>st d. recordCheckoutStep i st (cause_of req) at d) in
      and_then (insert_checkout c s) (\<lambda>s1.
      let s2 = step Begun [(''event'', DStr (b_event inp)), (''zone'', DStr (b_zone inp)),
                 (''class'', DStr (b_class inp)), (''position'', detail_of position)] s1
      in Inr ((), if holder_account c \<noteq> None
                  then step LinkConfirmed [] (step Linked [] s2) else s2)))"

definition beginCheckout ::
  "env \<Rightarrow> ledger \<Rightarrow> request \<Rightarrow> begin_input \<Rightarrow> string \<Rightarrow> ident \<Rightarrow> time \<Rightarrow> store \<Rightarrow>
     (failure + string \<times> checkout_view) \<times> store" where
  "beginCheckout E L req inp token i at s =
     (case check_pick E L inp s of
        Inl e \<Rightarrow> (Inl e, s)
      | Inr position \<Rightarrow>
          (case in_transaction (begin_tx E req inp position token i at) s of
             (Inl e, s1) \<Rightarrow> (Inl e, s1)
           | (Inr _, s1) \<Rightarrow>
               (and_then (findBy E token_hash token at s1) (\<lambda>c.
                  Inr (token, checkoutOf E s1 c token at)), s1)))"

section \<open>Reading\<close>

text \<open>\<open>waits cursor ms\<close>: whether Kippu's copy reaches the cursor within that time.\<close>

definition read_checkout ::
  "env \<Rightarrow> (ident \<Rightarrow> time \<Rightarrow> bool) \<Rightarrow> string \<Rightarrow> time option \<Rightarrow> time \<Rightarrow> store \<Rightarrow> failure + checkout_view" where
  "read_checkout E waits token wait at s =
     and_then (findBy E token_hash token at s) (\<lambda>c.
     let view = checkoutOf E s c token at in
     case v_sale view of
       Some (SaleIssued, _, Some cur) \<Rightarrow>
         let w = min (max (case wait of None \<Rightarrow> 0 | Some x \<Rightarrow> x) 0) MAX_TICKET_WAIT_MS
         in Inr (view\<lparr>v_ticketVisible := waits cur w\<rparr>)
     | _ \<Rightarrow> Inr view)"

section \<open>Linking, confirming, discarding\<close>

record handoff_link =
  l_event :: ident
  l_zone :: ident
  l_class :: ident
  l_placement :: placement
  l_pairingCode :: string

definition linkable :: "checkout_row \<Rightarrow> checkout_row \<Rightarrow> bool" where
  "linkable found c \<longleftrightarrow> checkout_id c = checkout_id found \<and>
     handoff_generation c = handoff_generation found \<and> holder_account c = None"

definition link_tx :: "request \<Rightarrow> checkout_row \<Rightarrow> ident \<Rightarrow> ident \<Rightarrow> time \<Rightarrow> store \<Rightarrow> store" where
  "link_tx req found acc sess at s =
     (let n = count_where (linkable found) (checkout_sessions s);
          s1 = s\<lparr>checkout_sessions := update_where (linkable found)
            (\<lambda>c. c\<lparr>holder_account := Some acc, linked_session_id := Some sess,
                   linked_request_id := Some (requestId req), linked_at := Some at\<rparr>)
            (checkout_sessions s)\<rparr>
      in if n = 1 then recordCheckoutStep (checkout_id found) Linked (cause_of req) at [] s1 else s1)"

definition linkCheckout ::
  "env \<Rightarrow> request \<Rightarrow> string \<Rightarrow> time \<Rightarrow> store \<Rightarrow> (failure + handoff_link) \<times> store" where
  "linkCheckout E req handoff at s =
     (case principal req of
        Holder acc sess \<Rightarrow>
          (case findBy E handoff_token_hash handoff at s of
             Inl e \<Rightarrow> (Inl e, s)
           | Inr found \<Rightarrow>
               let s1 = link_tx req found acc sess at s in
               (and_then (findBy E handoff_token_hash handoff at s1) (\<lambda>c.
                and_then (guard (holder_account c = Some acc) (CheckoutError LinkedToAnotherAccount)) (\<lambda>_.
                Inr \<lparr>l_event = checkout_event c, l_zone = checkout_zone c, l_class = checkout_class c,
                     l_placement = placement_of c, l_pairingCode = pairingCodeOf E c acc\<rparr>)), s1))
      | _ \<Rightarrow> (Inl (RefusedRequest BAD_REQUEST None), s))"

definition confirmable :: "checkout_row \<Rightarrow> checkout_row \<Rightarrow> bool" where
  "confirmable row c \<longleftrightarrow> checkout_id c = checkout_id row \<and>
     holder_account c = holder_account row \<and> link_confirmed_at c = None"

definition confirm_tx :: "request \<Rightarrow> checkout_row \<Rightarrow> ident \<Rightarrow> time \<Rightarrow> store \<Rightarrow> store" where
  "confirm_tx req row acc at s =
     (let n = count_where (confirmable row) (checkout_sessions s);
          s1 = s\<lparr>checkout_sessions := update_where (confirmable row)
            (\<lambda>c. c\<lparr>link_confirmed_at := Some at, link_confirmed_request_id := Some (requestId req)\<rparr>)
            (checkout_sessions s)\<rparr>
      in if n = 1 then recordCheckoutStep (checkout_id row) LinkConfirmed (cause_of req) at
                         [(''holder'', DStr acc)] s1 else s1)"

definition confirmLink ::
  "env \<Rightarrow> request \<Rightarrow> string \<Rightarrow> string \<Rightarrow> time \<Rightarrow> store \<Rightarrow> (failure + checkout_view) \<times> store" where
  "confirmLink E req token pairing at s =
     (case findBy E token_hash token at s of
        Inl e \<Rightarrow> (Inl e, s)
      | Inr row \<Rightarrow> (case holder_account row of
            None \<Rightarrow> (Inl (CheckoutError NotPairing), s)
          | Some acc \<Rightarrow>
              if pairing \<noteq> pairingCodeOf E row acc then (Inl (CheckoutError PairingCodeMismatch), s)
              else
              let s1 = (if link_confirmed_at row = None then confirm_tx req row acc at s else s) in
              (and_then (findBy E token_hash token at s1) (\<lambda>c. Inr (checkoutOf E s1 c token at)), s1)))"

definition discardable :: "checkout_row \<Rightarrow> checkout_row \<Rightarrow> bool" where
  "discardable row c \<longleftrightarrow> checkout_id c = checkout_id row \<and>
     handoff_generation c = handoff_generation row \<and> link_confirmed_at c = None"

definition discard_tx :: "env \<Rightarrow> request \<Rightarrow> checkout_row \<Rightarrow> string \<Rightarrow> time \<Rightarrow> store \<Rightarrow> store" where
  "discard_tx E req row token at s =
     (let g = handoff_generation row + 1;
          n = count_where (discardable row) (checkout_sessions s);
          s1 = s\<lparr>checkout_sessions := update_where (discardable row)
            (\<lambda>c. c\<lparr>holder_account := None, linked_session_id := None, linked_request_id := None,
                   linked_at := None, handoff_generation := g,
                   handoff_token_hash := hashSecret E (handoffTokenOf E token g)\<rparr>)
            (checkout_sessions s)\<rparr>
      in if n = 1 then recordCheckoutStep (checkout_id row) LinkDiscarded (cause_of req) at
                         [(''holder'', detail_of (holder_account row))] s1 else s1)"

definition discardLink ::
  "env \<Rightarrow> request \<Rightarrow> string \<Rightarrow> time \<Rightarrow> store \<Rightarrow> (failure + checkout_view) \<times> store" where
  "discardLink E req token at s =
     (case findBy E token_hash token at s of
        Inl e \<Rightarrow> (Inl e, s)
      | Inr row \<Rightarrow>
          if holder_account row = None \<or> link_confirmed_at row \<noteq> None
          then (Inl (CheckoutError NotPairing), s)
          else
          let s1 = discard_tx E req row token at s in
          (and_then (findBy E token_hash token at s1) (\<lambda>c. Inr (checkoutOf E s1 c token at)), s1))"

section \<open>Holding\<close>

datatype hold_outcome = HeldOutcome checkout_view | RefusedOutcome hold_refusal

definition target_of :: "checkout_row \<Rightarrow> target" where
  "target_of c = \<lparr>t_event = checkout_event c, t_zone = checkout_zone c,
                  t_class = checkout_class c, t_position = checkout_position c\<rparr>"

definition hold_checkout_step ::
  "env \<Rightarrow> ledger \<Rightarrow> request \<Rightarrow> string \<Rightarrow> time \<Rightarrow> ident \<Rightarrow> store \<Rightarrow> (failure + hold_outcome) \<times> store" where
  "hold_checkout_step E L req token at i s =
     (case findBy E token_hash token at s of
        Inl e \<Rightarrow> (Inl e, s)
      | Inr row \<Rightarrow>
          if holder_account row = None then (Inl (CheckoutError AccountRequired), s)
          else if link_confirmed_at row = None then (Inl (CheckoutError LinkUnconfirmed), s)
          else (case in_transaction (place E L req (checkout_id row) (target_of row) at i) s of
             (Inl e, s1) \<Rightarrow> (Inl e, s1)
           | (Inr (Some r), s1) \<Rightarrow> (Inr (RefusedOutcome r), s1)
           | (Inr None, s1) \<Rightarrow>
               (and_then (findBy E token_hash token at s1) (\<lambda>c.
                  Inr (HeldOutcome (checkoutOf E s1 c token at))), s1)))"

end
