(* ===== verification/SaleActions.thy ===== *)
theory SaleActions
  imports Payments
begin

text \<open>
  What organiser actions and buyers ask of sales: the capacity check and the cancellation
  refunds of \<open>src/sales/organiser-actions.ts\<close> and \<open>src/sales/cancellation-refunds.ts\<close>, and
  the public inventory of \<open>src/sales/inventory.ts\<close>.
\<close>

section \<open>Capacity decreases\<close>

text \<open>The target whose event counts are read: no zone, class or position.\<close>

definition event_target :: "ident \<Rightarrow> target" where
  "event_target e = \<lparr>t_event = e, t_zone = [], t_class = [], t_position = None\<rparr>"

definition canDecreaseCapacity ::
  "ledger \<Rightarrow> ident \<Rightarrow> int \<Rightarrow> time \<Rightarrow> store \<Rightarrow> failure + bool \<times> store" where
  "canDecreaseCapacity L e cap at s =
     (case getEvent L e of
        Inl c \<Rightarrow> Inl (SpecCodeError c None)
      | Inr ev \<Rightarrow> (let (n, s1) = allocationCounts (event_target e) at s
                  in Inr (allocatedCount ev n \<le> cap, s1)))"

section \<open>Cancellation refunds\<close>

text \<open>A row of the query: a sale with a ticket, its hold's checkout, and what was paid.\<close>

record refundable =
  rf_sale :: ident
  rf_ticket :: ident
  rf_hosted :: ident
  rf_checkout :: ident
  rf_purchaser :: ident
  rf_amount :: "money option"
  rf_asset :: "asset option"

text \<open>\<open>a ?? b\<close>.\<close>

definition or_else :: "'a option \<Rightarrow> 'a option \<Rightarrow> 'a option" where
  "or_else a b = (case a of None \<Rightarrow> b | Some _ \<Rightarrow> a)"

definition face_of_sale :: "store \<Rightarrow> ident \<Rightarrow> face_row option" where
  "face_of_sale s x = find (\<lambda>f. face_sale f = x) (face_values s)"

definition refundable_of :: "store \<Rightarrow> ident \<Rightarrow> sale_row \<Rightarrow> refundable option" where
  "refundable_of s e x =
     (case (hold_by_id s (sale_hold x), sale_ticket x) of
        (Some h, Some t) \<Rightarrow>
          if hold_event h = e \<and> (sale_status x = SaleIssued \<or> sale_status x = SaleFailed)
          then Some \<lparr>rf_sale = sale_id x, rf_ticket = t, rf_hosted = sale_hosted x,
                     rf_checkout = hold_checkout h, rf_purchaser = sale_holder x,
                     rf_amount = or_else (map_option face_amount (face_of_sale s (sale_id x)))
                                         (hold_price h),
                     rf_asset = or_else (map_option face_asset (face_of_sale s (sale_id x)))
                                        (hold_asset h)\<rparr>
          else None
      | _ \<Rightarrow> None)"

text \<open>\<open>ORDER BY s.created_at, s.id\<close>.\<close>

definition refundable_sales :: "store \<Rightarrow> ident \<Rightarrow> refundable list" where
  "refundable_sales s e = List.map_filter (refundable_of s e)
     (sort_key (\<lambda>x. (sale_created_at x, sale_id x)) (primary_sales s))"

datatype refund_outcome = Recorded | Existing | Skipped

text \<open>What the ledger says the refund of a sale's ticket is: nothing, or the holder it fixed.\<close>

definition holder_to_record :: "ledger \<Rightarrow> ident \<Rightarrow> ident \<Rightarrow> failure + ident option" where
  "holder_to_record L e t =
     (case getTicket L t of
        Inl c \<Rightarrow> if c = ''ERR-TicketNotFound'' then Inr None else Inl (SpecCodeError c None)
      | Inr tk \<Rightarrow>
          if ticket_provenance tk \<noteq> Purchased \<or> ticket_event tk \<noteq> e then Inr None
          else (case getCancellationHolder L t of
                  Inl c \<Rightarrow> Inl (SpecCodeError c None)
                | Inr None \<Rightarrow> Inl OtherError
                | Inr (Some holder) \<Rightarrow> Inr (Some holder)))"

definition refund_terms :: "refundable \<Rightarrow> failure + money \<times> asset" where
  "refund_terms f = (case (rf_amount f, rf_asset f) of
     (Some amount, Some ast) \<Rightarrow>
       if amount \<le> 0 \<or> amount > MAX_SAFE_INTEGER then Inl OtherError else Inr (amount, ast)
   | _ \<Rightarrow> Inl OtherError)"

text \<open>
  \<open>ON CONFLICT DO NOTHING\<close>: of the primary key, the hosted checkout or the ticket.
\<close>

definition insert_cancellation_refund ::
  "cause \<Rightarrow> refundable \<Rightarrow> money \<Rightarrow> asset \<Rightarrow> ident \<Rightarrow> ident \<Rightarrow> time \<Rightarrow> store \<Rightarrow> refund_outcome \<times> store" where
  "insert_cancellation_refund q f amount ast holder i at s =
     (if exists_where (\<lambda>r. refund_id r = i \<or> refund_hosted r = rf_hosted f \<or>
           refund_ticket r = Some (rf_ticket f)) (refund_entitlements s)
      then (Existing, s)
      else (Recorded, recordCheckoutStep (rf_checkout f) RefundEntitled q at
              [(''reason'', DStr ''event-cancelled''), (''ticket'', DStr (rf_ticket f)),
               (''amount'', DNum amount), (''asset'', DStr ast),
               (''purchaser'', DStr (rf_purchaser f)), (''holderAtCancellation'', DStr holder)]
              (s\<lparr>refund_entitlements := refund_entitlements s @
                  [\<lparr>refund_id = i, refund_hosted = rf_hosted f, refund_checkout = rf_checkout f,
                    refund_amount = amount, refund_asset = ast, refund_reason = EventCancelled,
                    refund_created_at = at, refund_ticket = Some (rf_ticket f),
                    refund_purchaser = Some (rf_purchaser f),
                    holder_at_cancellation = Some holder\<rparr>]\<rparr>)))"

definition refund_sale ::
  "ledger \<Rightarrow> ident \<Rightarrow> cause \<Rightarrow> (ident \<Rightarrow> ident) \<Rightarrow> time \<Rightarrow> refundable \<Rightarrow> store \<Rightarrow>
     failure + refund_outcome \<times> store" where
  "refund_sale L e q draw at f s =
     (if exists_where (\<lambda>r. refund_ticket r = Some (rf_ticket f)) (refund_entitlements s)
      then Inr (Existing, s)
      else and_then (holder_to_record L e (rf_ticket f)) (\<lambda>found.
           case found of None \<Rightarrow> Inr (Skipped, s)
           | Some holder \<Rightarrow> and_then (refund_terms f) (\<lambda>(amount, ast).
               Inr (insert_cancellation_refund q f amount ast holder (draw (rf_sale f)) at s))))"

text \<open>Each refund commits on its own: an error ends the run, and keeps those before it.\<close>

fun refund_each ::
  "ledger \<Rightarrow> ident \<Rightarrow> cause \<Rightarrow> (ident \<Rightarrow> ident) \<Rightarrow> time \<Rightarrow> refundable list \<Rightarrow> store \<Rightarrow>
     (failure + nat \<times> nat) \<times> store" where
  "refund_each L e q draw at [] s = (Inr (0, 0), s)"
| "refund_each L e q draw at (f # fs) s =
     (case refund_sale L e q draw at f s of
        Inl err \<Rightarrow> (Inl err, s)
      | Inr (out, s1) \<Rightarrow>
          (case refund_each L e q draw at fs s1 of
             (Inl err, s2) \<Rightarrow> (Inl err, s2)
           | (Inr (n, m), s2) \<Rightarrow>
               (Inr (n + (if out = Recorded then 1 else 0), m + (if out = Existing then 1 else 0)), s2)))"

record cancellation_refunds =
  recorded :: nat
  existing :: nat
  unaccounted :: "ident list"

definition unaccounted_tickets :: "store \<Rightarrow> ident \<Rightarrow> ident list" where
  "unaccounted_tickets s e = sort (map dt_id (filter (\<lambda>t. dt_event t = e \<and> dt_provenance t = Purchased \<and>
     \<not> exists_where (\<lambda>x. sale_ticket x = Some (dt_id t)) (primary_sales s)) (derived_tickets s)))"

definition recordCancellationRefunds ::
  "ledger \<Rightarrow> ident \<Rightarrow> cause \<Rightarrow> (ident \<Rightarrow> ident) \<Rightarrow> time \<Rightarrow> store \<Rightarrow>
     (failure + cancellation_refunds) \<times> store" where
  "recordCancellationRefunds L e q draw at s =
     (case getEvent L e of
        Inl c \<Rightarrow> (Inl (SpecCodeError c None), s)
      | Inr ev \<Rightarrow>
          if ev_status ev \<noteq> Cancelled then (Inl (RefusedRequest BAD_REQUEST None), s)
          else (case refund_each L e q draw at (refundable_sales s e) s of
                  (Inl err, s1) \<Rightarrow> (Inl err, s1)
                | (Inr (n, m), s1) \<Rightarrow>
                    (Inr \<lparr>recorded = n, existing = m, unaccounted = unaccounted_tickets s1 e\<rparr>, s1)))"

section \<open>The public inventory\<close>

definition lesser :: "int option \<Rightarrow> int option \<Rightarrow> int option" where
  "lesser a b = (case (a, b) of (None, _) \<Rightarrow> b | (_, None) \<Rightarrow> a | (Some x, Some y) \<Rightarrow> Some (min x y))"

record class_on_sale =
  cos_id :: ident
  cos_name :: string
  cos_description :: "string option"
  cos_price :: "money option"
  cos_policy :: policy
  cos_available :: "int option"

datatype zone_on_sale = UnseatedOnSale ident | SeatedOnSale ident "string list"

record sale_inventory =
  si_event :: ident
  onSale :: bool
  si_asset :: "asset option"
  available :: "int option"
  classes_on_sale :: "class_on_sale list"
  zones_on_sale :: "zone_on_sale list"

definition not_offered :: "ident \<Rightarrow> asset option \<Rightarrow> sale_inventory" where
  "not_offered e a = \<lparr>si_event = e, onSale = False, si_asset = a, available = Some 0,
     classes_on_sale = [], zones_on_sale = []\<rparr>"

definition offered_classes :: "store \<Rightarrow> ident \<Rightarrow> class_row list" where
  "offered_classes s e = by_creation (filter (\<lambda>c. class_event c = e \<and>
     class_provenance c = Purchased \<and> price c \<noteq> None) (ticket_classes s))"

definition class_target :: "ident \<Rightarrow> ident \<Rightarrow> target" where
  "class_target e c = (event_target e)\<lparr>t_class := c\<rparr>"

definition offer_class :: "store \<Rightarrow> ident \<Rightarrow> int option \<Rightarrow> class_row \<Rightarrow> class_on_sale" where
  "offer_class s e room c = \<lparr>cos_id = class_id c, cos_name = class_name c,
     cos_description = class_description c, cos_price = price c, cos_policy = class_policy c,
     cos_available = lesser room (quotaRemaining (counts_of s (class_target e (class_id c))))\<rparr>"

text \<open>Tickets that hold seats: those of Kippu's copy, and those Kippu has undertaken to issue.\<close>

definition taken_tickets :: "store \<Rightarrow> ident \<Rightarrow> ident set" where
  "taken_tickets s e = set (map dt_id (filter (\<lambda>t. dt_event t = e \<and> dt_seated t) (derived_tickets s))) \<union>
     set (List.map_filter granted_ticket (filter (\<lambda>g. granted_event g = e \<and>
       granted_status g \<noteq> GrantedRejected) (granted_issuances s)))"

definition seat_taken :: "env \<Rightarrow> ident set \<Rightarrow> ident \<Rightarrow> ident \<Rightarrow> string \<Rightarrow> bool" where
  "seat_taken E taken e z d =
     (case positionOf E d of Inl _ \<Rightarrow> False | Inr pos \<Rightarrow> seatTicketOf E e z pos \<in> taken)"

definition offer_zone :: "env \<Rightarrow> store \<Rightarrow> ident \<Rightarrow> int option \<Rightarrow> time \<Rightarrow> zone \<Rightarrow> zone_on_sale" where
  "offer_zone E s e room at z =
     (if zone_kind z = UnseatedZone then UnseatedOnSale (zone_id z)
      else SeatedOnSale (zone_id z)
        (if room = Some 0 then []
         else filter (\<lambda>d. d \<notin> heldPositions s e (zone_id z) at \<and>
                \<not> seat_taken E (taken_tickets s e) e (zone_id z) d)
              (positionsOf s e (zone_id z))))"

text \<open>
  The counts are read through \<open>allocationCounts\<close>, which records lapses: \<open>s1\<close> is the store
  after them.  A designation that is not well-formed makes \<open>positionOf\<close> throw; none is
  stored, since \<open>addSeatPositions\<close> refuses it.
\<close>

definition inventory :: "env \<Rightarrow> ledger \<Rightarrow> ident \<Rightarrow> time \<Rightarrow> store \<Rightarrow> failure + sale_inventory \<times> store" where
  "inventory E L e at s =
     (case getEvent L e of
        Inl c \<Rightarrow> Inl (SpecCodeError c None)
      | Inr ev \<Rightarrow>
          (let ast = event_asset s e in
           if ev_status ev \<noteq> Active \<or> ast = None \<or> unpricedClasses s e \<noteq> [] \<or> salesClosed s e
           then Inr (not_offered e ast, s)
           else
           let (n, s1) = allocationCounts (event_target e) at s; room = capacityRemaining ev n in
           Inr (\<lparr>si_event = e, onSale = True, si_asset = ast, available = room,
                 classes_on_sale = map (offer_class s1 e room) (offered_classes s1 e),
                 zones_on_sale = map (offer_zone E s1 e room at) (zones ev)\<rparr>, s1)))"

end
