(* ===== verification/AuditLog.thy ===== *)
theory AuditLog
  imports Domain
begin

text \<open>
  \<open>src/audit/audit-log.ts\<close> and \<open>src/audit/relay.ts\<close>: the log of relayed writes. Every
  command is recorded before it is signed, and its outcome after the ledger answers.
\<close>

section \<open>The acting principal's columns\<close>

type_synonym principal_columns =
  "string \<times> ident option \<times> ident option \<times> ident option \<times> ident option \<times> ident option"

fun principalColumns :: "principal \<Rightarrow> principal_columns" where
  "principalColumns Anonymous = (''anonymous'', None, None, None, None, None)"
| "principalColumns (Organiser i sess) = (''organiser'', Some i, None, Some sess, None, None)"
| "principalColumns (Operator o' i sess) = (''operator'', Some i, Some o', Some sess, None, None)"
| "principalColumns (Holder acc sess) = (''holder'', None, None, Some sess, Some acc, None)"
| "principalColumns (Reviewer r sess) = (''reviewer'', None, None, Some sess, None, Some r)"
| "principalColumns (System i t) = (''system'', Some i, None, None, None, None)"

text \<open>
  The columns read back, each kind's own columns cast to strings; a row lacking one, which
  the table's checks refuse, reads as \<open>None\<close>. A system principal's task has no column: it is
  read from the request identifier, up to its first colon.
\<close>

definition principalOf :: "log_row \<Rightarrow> principal option" where
  "principalOf r =
     (if log_kind r = ''organiser'' then
        (case (log_organiser r, log_session r) of (Some i, Some x) \<Rightarrow> Some (Organiser i x) | _ \<Rightarrow> None)
      else if log_kind r = ''operator'' then
        (case (log_operator r, log_organiser r, log_session r) of
           (Some p, Some i, Some x) \<Rightarrow> Some (Operator p i x) | _ \<Rightarrow> None)
      else if log_kind r = ''holder'' then
        (case (log_holder r, log_session r) of (Some a, Some x) \<Rightarrow> Some (Holder a x) | _ \<Rightarrow> None)
      else if log_kind r = ''reviewer'' then
        (case (log_reviewer r, log_session r) of (Some v, Some x) \<Rightarrow> Some (Reviewer v x) | _ \<Rightarrow> None)
      else if log_kind r = ''system'' then
        map_option (\<lambda>i. System i (takeWhile (\<lambda>x. x \<noteq> CHR '':'') (log_request r))) (log_organiser r)
      else Some Anonymous)"

section \<open>Recording and completing\<close>

definition log_entry :: "request \<Rightarrow> ident \<Rightarrow> string \<Rightarrow> time \<Rightarrow> log_row" where
  "log_entry req oper kind at =
     (let (k, org, opr, sess, holder, rev) = principalColumns (principal req) in
      \<lparr>log_request = requestId req, log_kind = k, log_organiser = org, log_operator = opr,
       log_session = sess, log_holder = holder, log_reviewer = rev, log_operation = oper,
       log_command = kind, log_recorded_at = at, log_outcome = LogPending, log_cursor = None,
       log_error = None, log_completed_at = None\<rparr>)"

definition audit_record :: "request \<Rightarrow> ident \<Rightarrow> string \<Rightarrow> time \<Rightarrow> store \<Rightarrow> failure + store" where
  "audit_record req oper kind at s =
     (if exists_where (\<lambda>r. log_operation r = oper) (audit_log s) then Inl OtherError
      else Inr (s\<lparr>audit_log := audit_log s @ [log_entry req oper kind at]\<rparr>))"

definition outcome_row :: "submission \<Rightarrow> time \<Rightarrow> log_row \<Rightarrow> log_row" where
  "outcome_row sub at r = (case sub of
     NoVerdict \<Rightarrow> r\<lparr>log_outcome := LogFailed, log_completed_at := Some at\<rparr>
   | Settled rc \<Rightarrow> r\<lparr>log_outcome := LogSettled, log_cursor := Some (cursor rc), log_completed_at := Some at\<rparr>
   | RejectedWith c \<Rightarrow> r\<lparr>log_outcome := LogRejected, log_error := Some c, log_completed_at := Some at\<rparr>)"

definition audit_complete :: "ident \<Rightarrow> submission \<Rightarrow> time \<Rightarrow> store \<Rightarrow> failure + store" where
  "audit_complete oper sub at s =
     (let pending = (\<lambda>r. log_operation r = oper \<and> log_outcome r = LogPending) in
      if count_where pending (audit_log s) \<noteq> 1 then Inl OtherError
      else Inr (s\<lparr>audit_log := update_where pending (outcome_row sub at) (audit_log s)\<rparr>))"

definition audit_find :: "ident \<Rightarrow> store \<Rightarrow> log_row option" where
  "audit_find oper s = find (\<lambda>r. log_operation r = oper) (audit_log s)"

section \<open>Relaying a write\<close>

text \<open>
  What assembling and submitting a command comes to: nothing to sign, or a command with its
  operation and how its submission ended.  In the last case the database fails as the outcome
  is added to the row.
\<close>

datatype written =
    NotWritten failure
  | Written ident submission
  | WrittenUncompleted ident submission

definition verdict_of :: "submission \<Rightarrow> failure + (code + receipt)" where
  "verdict_of sub = (case sub of NoVerdict \<Rightarrow> Inl OtherError | Settled r \<Rightarrow> Inr (Inr r)
                     | RejectedWith c \<Rightarrow> Inr (Inl c))"

text \<open>
  The row is written before the signature: a command whose row cannot be written is not
  signed. An outcome that cannot be added is reported, and the verdict passed on.
\<close>

definition relay_write ::
  "request \<Rightarrow> string \<Rightarrow> written \<Rightarrow> time \<Rightarrow> store \<Rightarrow> (failure + (code + receipt)) \<times> store" where
  "relay_write req kind w at s =
     (case w of
        NotWritten e \<Rightarrow> (Inl e, s)
      | Written oper sub \<Rightarrow>
          (case audit_record req oper kind at s of
             Inl e \<Rightarrow> (Inl e, s)
           | Inr s1 \<Rightarrow>
               (verdict_of sub, (case audit_complete oper sub at s1 of Inl _ \<Rightarrow> s1 | Inr s2 \<Rightarrow> s2)))
      | WrittenUncompleted oper sub \<Rightarrow>
          (case audit_record req oper kind at s of
             Inl e \<Rightarrow> (Inl e, s)
           | Inr s1 \<Rightarrow> (verdict_of sub, s1)))"

text \<open>What reached the ledger: the submission of a command that was signed.\<close>

definition sent_command :: "written \<Rightarrow> store \<Rightarrow> submission option" where
  "sent_command w s =
     (case w of
        NotWritten _ \<Rightarrow> None
      | Written oper sub \<Rightarrow>
          if exists_where (\<lambda>r. log_operation r = oper) (audit_log s) then None else Some sub
      | WrittenUncompleted oper sub \<Rightarrow>
          if exists_where (\<lambda>r. log_operation r = oper) (audit_log s) then None else Some sub)"

section \<open>What the log says\<close>

text \<open>A task's request is identified as \<open><task>:<what it runs>\<close>.\<close>

definition names_task :: "request \<Rightarrow> bool" where
  "names_task req = (case principal req of
     System _ t \<Rightarrow> CHR '':'' \<notin> set t \<and> take (Suc (length t)) (requestId req) = t @ '':''
   | _ \<Rightarrow> True)"

lemma task_of_request:
  assumes "CHR '':'' \<notin> set t" "take (Suc (length t)) i = t @ '':''"
  shows "takeWhile (\<lambda>x. x \<noteq> CHR '':'') i = t"
  using assms
proof (induction t arbitrary: i)
  case Nil
  then show ?case by (cases i) simp_all
next
  case (Cons x t)
  then show ?case by (cases i) auto
qed

lemma principalOf_log_entry:
  assumes "names_task req"
  shows "principalOf (log_entry req oper kind at) = Some (principal req)"
  using assms
  by (cases "principal req") (simp_all add: log_entry_def principalOf_def names_task_def task_of_request)

lemma audit_record_Inr:
  "audit_record req oper kind at s = Inr s1 \<longleftrightarrow>
     \<not> exists_where (\<lambda>r. log_operation r = oper) (audit_log s) \<and>
     s1 = s\<lparr>audit_log := audit_log s @ [log_entry req oper kind at]\<rparr>"
  by (auto simp: audit_record_def)

lemma log_entry_simps [simp]:
  "log_operation (log_entry req oper kind at) = oper"
  "log_request (log_entry req oper kind at) = requestId req"
  "log_command (log_entry req oper kind at) = kind"
  "log_recorded_at (log_entry req oper kind at) = at"
  "log_outcome (log_entry req oper kind at) = LogPending"
  by (simp_all add: log_entry_def Let_def split: prod.splits)

lemma outcome_row_columns [simp]:
  "log_kind (outcome_row sub at r) = log_kind r"
  "log_organiser (outcome_row sub at r) = log_organiser r"
  "log_operator (outcome_row sub at r) = log_operator r"
  "log_session (outcome_row sub at r) = log_session r"
  "log_holder (outcome_row sub at r) = log_holder r"
  "log_reviewer (outcome_row sub at r) = log_reviewer r"
  "log_operation (outcome_row sub at r) = log_operation r"
  "log_request (outcome_row sub at r) = log_request r"
  "log_command (outcome_row sub at r) = log_command r"
  "log_recorded_at (outcome_row sub at r) = log_recorded_at r"
  by (cases sub; simp add: outcome_row_def)+

lemma principalOf_outcome_row [simp]: "principalOf (outcome_row sub at r) = principalOf r"
  by (simp only: principalOf_def outcome_row_columns)

text \<open>A fresh operation's relayed write leaves one completed row behind it.\<close>

lemma relay_write_fresh:
  assumes "\<not> exists_where (\<lambda>r. log_operation r = oper) (audit_log s)"
  shows "relay_write req kind (Written oper sub) at s =
    (verdict_of sub, s\<lparr>audit_log := audit_log s @ [outcome_row sub at (log_entry req oper kind at)]\<rparr>)"
proof -
  have none: "log_operation r \<noteq> oper" if "r \<in> set (audit_log s)" for r
    using assms that by (auto simp: exists_where_iff)
  have old: "update_where (\<lambda>r. log_operation r = oper \<and> log_outcome r = LogPending)
      (outcome_row sub at) (audit_log s) = audit_log s"
    using none by (intro update_where_none) blast
  have zero: "count_where (\<lambda>r. log_operation r = oper \<and> log_outcome r = LogPending) (audit_log s) = 0"
    using none by (auto simp: count_where_0_iff)
  show ?thesis
    using assms old zero
    by (simp add: relay_write_def audit_record_def audit_complete_def Let_def count_where_append
        count_where_Cons update_where_def)
qed

text \<open>
  What reached the ledger, and what did not: the answer is the ledger's verdict, and the row says
  it too unless the database failed after it.
\<close>

lemma relay_write_sent:
  assumes "sent_command w s = Some sub"
  shows "\<exists>oper.
    w = Written oper sub \<and> relay_write req kind w at s = (verdict_of sub,
       s\<lparr>audit_log := audit_log s @ [outcome_row sub at (log_entry req oper kind at)]\<rparr>) \<or>
    w = WrittenUncompleted oper sub \<and> relay_write req kind w at s = (verdict_of sub,
       s\<lparr>audit_log := audit_log s @ [log_entry req oper kind at]\<rparr>)"
proof (cases w)
  case (Written oper x)
  then have "x = sub" "\<not> exists_where (\<lambda>r. log_operation r = oper) (audit_log s)"
    using assms by (simp_all add: sent_command_def split: if_splits)
  then show ?thesis using Written by (intro exI [of _ oper]) (simp add: relay_write_fresh)
next
  case (WrittenUncompleted oper x)
  then have "x = sub" "\<not> exists_where (\<lambda>r. log_operation r = oper) (audit_log s)"
    using assms by (simp_all add: sent_command_def split: if_splits)
  then show ?thesis
    using WrittenUncompleted by (intro exI [of _ oper]) (simp add: relay_write_def audit_record_def)
qed (use assms in \<open>simp add: sent_command_def\<close>)

lemma relay_write_unsent:
  assumes "sent_command w s = None"
  shows "isl (fst (relay_write req kind w at s)) \<and> snd (relay_write req kind w at s) = s"
  using assms by (auto simp: sent_command_def relay_write_def audit_record_def split: written.splits if_splits)

lemma relay_write_verdict:
  assumes "fst (relay_write req kind w at s) = Inr v"
  obtains sub where "sent_command w s = Some sub" "verdict_of sub = Inr v"
proof (cases "sent_command w s")
  case None
  then show ?thesis using relay_write_unsent [OF None, of req kind at] assms by simp
next
  case (Some sub)
  have "fst (relay_write req kind w at s) = verdict_of sub"
    using relay_write_sent [OF Some, of req kind at] by (elim exE disjE conjE) simp_all
  with Some assms that show ?thesis by simp
qed

end
