(* ===== verification/Lifecycle.thy ===== *)
theory Lifecycle
  imports SaleActions AuditLog
begin

text \<open>
  What an organiser does to a live event: capacity decreases (\<open>src/events/capacity.ts\<close>),
  sealing, cancelling and finishing (\<open>src/events/status.ts\<close>), and finishing at a scheduled
  time (\<open>src/events/finish-schedule.ts\<close>).  Every write is relayed through the audit log;
  what became of it at the ledger is an argument.
\<close>

section \<open>Capacity decreases\<close>

definition check_decrease ::
  "ledger \<Rightarrow> ident \<Rightarrow> ident \<Rightarrow> int \<Rightarrow> time \<Rightarrow> store \<Rightarrow> failure + store" where
  "check_decrease L org e cap at s =
     and_then (ownedEvent L s org e) (\<lambda>(ev, _).
     and_then (guard (\<not> (case maxCapacity ev of None \<Rightarrow> False | Some c \<Rightarrow> cap > c))
                 (SpecCodeError ''ERR-CapacityProofRequired'' None)) (\<lambda>_.
     if ev_status ev \<noteq> Active then Inr s
     else and_then (canDecreaseCapacity L e cap at s) (\<lambda>(ok, s1).
          and_then (guard ok (SpecCodeError ''ERR-CapacityBelowIssuance''
                      (if cap \<ge> issued ev then Some ''held'' else None))) (\<lambda>_. Inr s1))))"

text \<open>
  The write is relayed on a connection of its own, so its audit row stays when the
  transaction, which holds the event's allocation lock, rolls back.
\<close>

definition decrease_capacity ::
  "ledger \<Rightarrow> ident \<Rightarrow> request \<Rightarrow> ident \<Rightarrow> int \<Rightarrow> written \<Rightarrow> time \<Rightarrow> store \<Rightarrow>
     (failure + ident) \<times> store" where
  "decrease_capacity L org req e cap wr at s =
     (case check_decrease L org e cap at s of
        Inl err \<Rightarrow> (Inl err, s)
      | Inr s1 \<Rightarrow>
          (case settledOrThrow (fst (relay_write req ''setEventCapacity'' wr at s)) of
             Inl err \<Rightarrow> (Inl err, snd (relay_write req ''setEventCapacity'' wr at s))
           | Inr cur \<Rightarrow> (Inr cur, snd (relay_write req ''setEventCapacity'' wr at s1))))"

text \<open>
  What becomes of the ledger, read as \<open>L0\<close> by the checks: a settled write sets the capacity, and
  one with no verdict stays in flight although the transaction has rolled back.
\<close>

definition set_capacity :: "ident \<Rightarrow> int \<Rightarrow> ledger \<Rightarrow> ledger" where
  "set_capacity e cap L = (case getEvent L e of Inl _ \<Rightarrow> L
     | Inr ev \<Rightarrow> L\<lparr>getEvent := (getEvent L)(e := Inr (ev\<lparr>maxCapacity := Some cap\<rparr>))\<rparr>)"

definition leave_in_flight :: "ident \<Rightarrow> int \<Rightarrow> ledger \<Rightarrow> ledger" where
  "leave_in_flight e cap L = L\<lparr>inFlight := (e, cap) # inFlight L\<rparr>"

definition land_late :: "ident \<Rightarrow> int \<Rightarrow> ledger \<Rightarrow> ledger" where
  "land_late e cap L = set_capacity e cap L\<lparr>landedLate := (e, cap) # landedLate L\<rparr>"

definition capacity_command :: "ident \<Rightarrow> int \<Rightarrow> submission option \<Rightarrow> ledger \<Rightarrow> ledger" where
  "capacity_command e cap sub L = (case sub of
     None \<Rightarrow> L
   | Some NoVerdict \<Rightarrow> leave_in_flight e cap L
   | Some (Settled _) \<Rightarrow> set_capacity e cap L
   | Some (RejectedWith _) \<Rightarrow> L)"

definition decrease_ledger ::
  "ledger \<Rightarrow> ident \<Rightarrow> ident \<Rightarrow> int \<Rightarrow> written \<Rightarrow> time \<Rightarrow> store \<Rightarrow> ledger \<Rightarrow> ledger" where
  "decrease_ledger L0 org e cap wr at s L =
     (case check_decrease L0 org e cap at s of
        Inl _ \<Rightarrow> L
      | Inr _ \<Rightarrow> capacity_command e cap (sent_command wr s) L)"

section \<open>Sealing, cancelling, finishing\<close>

definition REFUND_RECORDING_ATTEMPTS :: nat where "REFUND_RECORDING_ATTEMPTS = 3"

definition submit_status ::
  "'p setting \<Rightarrow> request \<Rightarrow> ident \<Rightarrow> bool \<Rightarrow> written \<Rightarrow> time \<Rightarrow> draws \<Rightarrow> store \<times> 'p \<Rightarrow>
     (failure + ident) \<times> store \<times> 'p" where
  "submit_status X req e closing wr at D w =
     (let (res, w1) = (if closing then releaseAll X e (cause_of req) at D w
                       else (Inr \<lparr>released = 0, cancelled = 0, refunds = 0\<rparr>, w)) in
      case res of
        Inl err \<Rightarrow> (Inl err, w1)
      | Inr _ \<Rightarrow>
          (let (v, s2) = relay_write req ''setEventStatus'' wr at (fst w1) in
           case v of
             Inl err \<Rightarrow> (Inl err, s2, snd w1)
           | Inr (Inl c) \<Rightarrow>
               (Inl (SpecCodeError c None),
                (if closing then snd (reopenSales e (cause_of req) at s2) else s2), snd w1)
           | Inr (Inr rc) \<Rightarrow> (Inr (cursor rc), s2, snd w1)))"

text \<open>The attempts at recording refunds: the first to succeed, or the last one's failure.\<close>

fun record_refunds ::
  "nat \<Rightarrow> ledger \<Rightarrow> ident \<Rightarrow> cause \<Rightarrow> (nat \<Rightarrow> ident \<Rightarrow> ident) \<Rightarrow> time \<Rightarrow> store \<Rightarrow> (failure + unit) \<times> store" where
  "record_refunds 0 L e q draw at s = (Inl OtherError, s)"
| "record_refunds (Suc n) L e q draw at s =
     (case recordCancellationRefunds L e q (draw n) at s of
        (Inr _, s1) \<Rightarrow> (Inr (), s1)
      | (Inl err, s1) \<Rightarrow> if n = 0 then (Inl err, s1) else record_refunds n L e q draw at s1)"

definition seal ::
  "'p setting \<Rightarrow> ident \<Rightarrow> request \<Rightarrow> ident \<Rightarrow> written \<Rightarrow> time \<Rightarrow> draws \<Rightarrow> store \<times> 'p \<Rightarrow>
     (failure + ident) \<times> store \<times> 'p" where
  "seal X org req e wr at D w =
     (case ownedEvent (s_ledger X) (fst w) org e of
        Inl err \<Rightarrow> (Inl err, w)
      | Inr (ev, _) \<Rightarrow> submit_status X req e (ev_status ev = Active) wr at D w)"

definition finish_event ::
  "'p setting \<Rightarrow> ident \<Rightarrow> request \<Rightarrow> ident \<Rightarrow> written \<Rightarrow> time \<Rightarrow> draws \<Rightarrow> store \<times> 'p \<Rightarrow>
     (failure + ident) \<times> store \<times> 'p" where
  "finish_event X org req e wr at D w =
     (case ownedEvent (s_ledger X) (fst w) org e of
        Inl err \<Rightarrow> (Inl err, w)
      | Inr (ev, _) \<Rightarrow> submit_status X req e (ev_status ev = Active) wr at D w)"

text \<open>\<open>L'\<close> is the ledger once the submission settled, which the refunds are recorded against.\<close>

definition cancel_event ::
  "'p setting \<Rightarrow> ledger \<Rightarrow> ident \<Rightarrow> request \<Rightarrow> ident \<Rightarrow> written \<Rightarrow> (nat \<Rightarrow> ident \<Rightarrow> ident) \<Rightarrow> time \<Rightarrow> draws \<Rightarrow>
     store \<times> 'p \<Rightarrow> (failure + ident option) \<times> store \<times> 'p" where
  "cancel_event X L' org req e wr draw at D w =
     (case ownedEvent (s_ledger X) (fst w) org e of
        Inl err \<Rightarrow> (Inl err, w)
      | Inr (ev, _) \<Rightarrow>
          if ev_status ev = Cancelled
          then (let (res, s1) = record_refunds REFUND_RECORDING_ATTEMPTS (s_ledger X) e (cause_of req)
                                  draw at (fst w)
                in (map_sum id (\<lambda>_. None) res, s1, snd w))
          else (case submit_status X req e (ev_status ev = Active) wr at D w of
                  (Inl err, w1) \<Rightarrow> (Inl err, w1)
                | (Inr cur, w1) \<Rightarrow>
                    (let (res, s1) = record_refunds REFUND_RECORDING_ATTEMPTS L' e (cause_of req)
                                       draw at (fst w1)
                     in (map_sum id (\<lambda>_. Some cur) res, s1, snd w1))))"

section \<open>Scheduled finishes\<close>

definition FINISH_NOTICE_MS :: time where "FINISH_NOTICE_MS = 24 * 60 * 60 * 1000"
definition OPERATION_EXPIRY_MARGIN_MS :: time where "OPERATION_EXPIRY_MARGIN_MS = 60 * 1000"

text \<open>\<open>requestIdOf\<close>: the request a scheduled finish's write is audited under.\<close>

definition finish_request_id :: "finish_row \<Rightarrow> ident" where
  "finish_request_id r = ''scheduled-finish:'' @ fin_id r"

definition finish_request :: "finish_row \<Rightarrow> request" where
  "finish_request r = \<lparr>requestId = finish_request_id r, principal = System (fin_organiser r) ''scheduled-finish''\<rparr>"

lemma finish_request_names_task: "names_task (finish_request r)"
  by (simp add: names_task_def finish_request_def finish_request_id_def)

record schedule_view =
  sv_event :: ident
  sv_at :: time
  sv_status :: finish_status
  sv_notice_at :: time
  sv_noticed_at :: "time option"
  sv_error :: "code option"

definition scheduleOf :: "finish_row \<Rightarrow> schedule_view" where
  "scheduleOf r = \<lparr>sv_event = fin_event r, sv_at = finish_at r, sv_status = fin_status r,
     sv_notice_at = finish_at r - FINISH_NOTICE_MS, sv_noticed_at = noticed_at r,
     sv_error = fin_error r\<rparr>"

definition update_finish :: "(finish_row \<Rightarrow> bool) \<Rightarrow> (finish_row \<Rightarrow> finish_row) \<Rightarrow> store \<Rightarrow> store" where
  "update_finish P f s = s\<lparr>finish_schedules := update_where P f (finish_schedules s)\<rparr>"

definition schedule_of_event :: "store \<Rightarrow> ident \<Rightarrow> finish_row option" where
  "schedule_of_event s e = find (\<lambda>r. fin_event r = e) (finish_schedules s)"

definition schedule_by_id :: "store \<Rightarrow> ident \<Rightarrow> finish_row option" where
  "schedule_by_id s i = find (\<lambda>r. fin_id r = i) (finish_schedules s)"

text \<open>\<open>INSERT ... ON CONFLICT (event) DO UPDATE\<close>: a conflicting row keeps its identifier.\<close>

definition reschedule_row :: "ident \<Rightarrow> ident \<Rightarrow> time \<Rightarrow> time \<Rightarrow> finish_row \<Rightarrow> finish_row" where
  "reschedule_row org rid when at r = r\<lparr>finish_at := when, fin_organiser := org,
     fin_status := Scheduled, noticed_at := None, fin_error := None, fin_ended_at := None,
     fin_request := rid, fin_set_at := at\<rparr>"

definition upsert_schedule ::
  "ident \<Rightarrow> ident \<Rightarrow> ident \<Rightarrow> time \<Rightarrow> ident \<Rightarrow> time \<Rightarrow> store \<Rightarrow> finish_row option \<times> store" where
  "upsert_schedule org rid e when i at s =
     (case schedule_of_event s e of
        None \<Rightarrow> let r = \<lparr>fin_id = i, fin_event = e, fin_organiser = org, finish_at = when,
                        fin_status = Scheduled, noticed_at = None, fin_error = None,
                        fin_request = rid, fin_set_at = at, fin_ended_at = None\<rparr>
               in (Some r, s\<lparr>finish_schedules := finish_schedules s @ [r]\<rparr>)
      | Some r \<Rightarrow>
          if fin_status r = Running \<or> fin_status r = FinishedStatus then (None, s)
          else (Some (reschedule_row org rid when at r),
                update_finish (\<lambda>x. fin_event x = e) (reschedule_row org rid when at) s))"

definition schedule_finish ::
  "ledger \<Rightarrow> ident \<Rightarrow> ident \<Rightarrow> ident \<Rightarrow> time \<Rightarrow> ident \<Rightarrow> time \<Rightarrow> store \<Rightarrow>
     (failure + schedule_view) \<times> store" where
  "schedule_finish L org rid e when i at s =
     (case and_then (ownedEvent L s org e) (\<lambda>(ev, _).
           and_then (guard (ev_status ev \<noteq> Cancelled \<and> ev_status ev \<noteq> Finished)
                       (SpecCodeError ''ERR-InvalidTransition'' None)) (\<lambda>_.
           guard (when > at) (RefusedRequest BAD_REQUEST None))) of
        Inl err \<Rightarrow> (Inl err, s)
      | Inr _ \<Rightarrow> (case upsert_schedule org rid e when i at s of
            (None, s1) \<Rightarrow> (Inl (RefusedRequest CONFLICT None), s1)
          | (Some r, s1) \<Rightarrow> (Inr (scheduleOf r), s1)))"

definition cancel_schedule_row :: "time \<Rightarrow> finish_row \<Rightarrow> finish_row" where
  "cancel_schedule_row at r = r\<lparr>fin_status := CancelledStatus, fin_ended_at := Some at\<rparr>"

definition cancel_scheduled_finish ::
  "ledger \<Rightarrow> ident \<Rightarrow> ident \<Rightarrow> time \<Rightarrow> store \<Rightarrow> (failure + schedule_view) \<times> store" where
  "cancel_scheduled_finish L org e at s =
     (case ownedEvent L s org e of
        Inl err \<Rightarrow> (Inl err, s)
      | Inr _ \<Rightarrow>
          (case schedule_of_event s e of
             None \<Rightarrow> (Inl (RefusedRequest NOT_FOUND None), s)
           | Some r \<Rightarrow>
               if fin_status r = Scheduled
               then (Inr (scheduleOf (cancel_schedule_row at r)),
                     update_finish (\<lambda>x. fin_event x = e \<and> fin_status x = Scheduled)
                       (cancel_schedule_row at) s)
               else if fin_status r = CancelledStatus then (Inr (scheduleOf r), s)
               else (Inl (RefusedRequest CONFLICT None), s)))"

definition get_scheduled_finish ::
  "ledger \<Rightarrow> ident \<Rightarrow> ident \<Rightarrow> store \<Rightarrow> failure + schedule_view option" where
  "get_scheduled_finish L org e s = and_then (ownedEvent L s org e) (\<lambda>_.
     Inr (map_option scheduleOf (schedule_of_event s e)))"

subsection \<open>Running one\<close>

definition set_finish_status :: "ident \<Rightarrow> finish_status \<Rightarrow> code option \<Rightarrow> time \<Rightarrow> store \<Rightarrow> store" where
  "set_finish_status i st err at s = update_finish (\<lambda>x. fin_id x = i)
     (\<lambda>x. x\<lparr>fin_status := st, fin_error := (case err of None \<Rightarrow> fin_error x | Some c \<Rightarrow> Some c),
            fin_ended_at := Some at\<rparr>) s"

text \<open>A run with no verdict leaves the schedule running.\<close>

definition run_finish ::
  "'p setting \<Rightarrow> finish_row \<Rightarrow> written \<Rightarrow> time \<Rightarrow> draws \<Rightarrow> store \<times> 'p \<Rightarrow> store \<times> 'p" where
  "run_finish X r wr at D w =
     (case finish_event X (fin_organiser r) (finish_request r) (fin_event r) wr at D w of
        (Inr _, s1, p1) \<Rightarrow> (set_finish_status (fin_id r) FinishedStatus None at s1, p1)
      | (Inl (SpecCodeError c _), s1, p1) \<Rightarrow>
          (set_finish_status (fin_id r) Refused (Some c) at s1, p1)
      | (Inl _, s1, p1) \<Rightarrow> (s1, p1))"

definition finish_due :: "time \<Rightarrow> finish_row \<Rightarrow> bool" where
  "finish_due at r \<longleftrightarrow> fin_status r = Scheduled \<and> noticed_at r \<noteq> None \<and> finish_at r \<le> at"

definition claim_finish :: "ident \<Rightarrow> time \<Rightarrow> store \<Rightarrow> finish_row option \<times> store" where
  "claim_finish i at s =
     (let P = (\<lambda>r. fin_id r = i \<and> finish_due at r); f = (\<lambda>r. r\<lparr>fin_status := Running\<rparr>) in
      (map_option f (find P (finish_schedules s)), update_finish P f s))"

definition notice_due :: "time \<Rightarrow> finish_row \<Rightarrow> bool" where
  "notice_due at r \<longleftrightarrow> fin_status r = Scheduled \<and> noticed_at r = None \<and>
     finish_at r - FINISH_NOTICE_MS \<le> at"

definition give_notices :: "time \<Rightarrow> store \<Rightarrow> store" where
  "give_notices at s = update_finish (notice_due at) (\<lambda>r. r\<lparr>noticed_at := Some at\<rparr>) s"

subsection \<open>Reconciling a finish left running\<close>

definition finish_log :: "store \<Rightarrow> finish_row \<Rightarrow> log_row list" where
  "finish_log s r = sort_key (\<lambda>x. - log_recorded_at x)
     (filter (\<lambda>x. log_request x = finish_request_id r \<and> log_command x = ''setEventStatus'')
        (audit_log s))"

definition may_land :: "time \<Rightarrow> time \<Rightarrow> log_row \<Rightarrow> bool" where
  "may_land lifetime at x \<longleftrightarrow> (log_outcome x = LogPending \<or> log_outcome x = LogFailed) \<and>
     log_recorded_at x + lifetime + OPERATION_EXPIRY_MARGIN_MS > at"

definition closed_by_run :: "store \<Rightarrow> finish_row \<Rightarrow> bool" where
  "closed_by_run s r = exists_where (\<lambda>c. closure_event c = fin_event r \<and>
     closed_request_id c = finish_request_id r \<and> reopened_at c = None) (sale_closures s)"

text \<open>The four outcomes, in order: finished, refused, still waiting, scheduled again.\<close>

definition settle_finish ::
  "ledger \<Rightarrow> time \<Rightarrow> finish_row \<Rightarrow> time \<Rightarrow> store \<Rightarrow> failure + bool \<times> store" where
  "settle_finish L lifetime r at s =
     (case getEvent L (fin_event r) of
        Inl c \<Rightarrow> Inl (SpecCodeError c None)
      | Inr ev \<Rightarrow>
          if ev_status ev = Finished
          then Inr (True, set_finish_status (fin_id r) FinishedStatus None at s)
          else (case find (\<lambda>x. log_outcome x = LogRejected) (finish_log s r) of
                  Some x \<Rightarrow>
                    let s1 = (if closed_by_run s r
                              then snd (reopenSales (fin_event r) (cause_of (finish_request r)) at s)
                              else s)
                    in Inr (True, set_finish_status (fin_id r) Refused (log_error x) at s1)
                | None \<Rightarrow>
                    if exists_where (may_land lifetime at) (finish_log s r) then Inr (False, s)
                    else Inr (True, update_finish (\<lambda>x. fin_id x = fin_id r)
                                      (\<lambda>x. x\<lparr>fin_status := Scheduled\<rparr>) s)))"

text \<open>\<open>free\<close> says whose run lock no live process holds; a failure leaves the row for the next pass.\<close>

fun settle_each ::
  "ledger \<Rightarrow> time \<Rightarrow> (ident \<Rightarrow> bool) \<Rightarrow> ident list \<Rightarrow> time \<Rightarrow> store \<Rightarrow> nat \<times> store" where
  "settle_each L lifetime free [] at s = (0, s)"
| "settle_each L lifetime free (i # rest) at s =
     (let (n, s1) =
        (if \<not> free i then (0, s)
         else case find (\<lambda>r. fin_id r = i \<and> fin_status r = Running) (finish_schedules s) of
                None \<Rightarrow> (0, s)
              | Some r \<Rightarrow> (case settle_finish L lifetime r at s of
                    Inl _ \<Rightarrow> (0, s) | Inr (done, s') \<Rightarrow> (if done then 1 else 0, s')));
          (m, s2) = settle_each L lifetime free rest at s1
      in (n + m, s2))"

definition by_finish :: "finish_row list \<Rightarrow> ident list" where
  "by_finish rs = map fin_id (sort_key (\<lambda>r. (finish_at r, fin_id r)) rs)"

definition reconcile_finishes ::
  "ledger \<Rightarrow> time \<Rightarrow> (ident \<Rightarrow> bool) \<Rightarrow> time \<Rightarrow> store \<Rightarrow> nat \<times> store" where
  "reconcile_finishes L lifetime free at s = settle_each L lifetime free
     (by_finish (filter (\<lambda>r. fin_status r = Running) (finish_schedules s))) at s"

text \<open>\<open>wr\<close> is what becomes of each schedule's submission.\<close>

fun run_each ::
  "'p setting \<Rightarrow> (ident \<Rightarrow> bool) \<Rightarrow> (ident \<Rightarrow> written) \<Rightarrow> ident list \<Rightarrow> time \<Rightarrow> draws \<Rightarrow> store \<times> 'p \<Rightarrow>
     nat \<times> store \<times> 'p" where
  "run_each X free wr [] at D w = (0, w)"
| "run_each X free wr (i # rest) at D w =
     (let (n, w1) =
        (if \<not> free i then (0, w)
         else case claim_finish i at (fst w) of
                (None, s1) \<Rightarrow> (0, s1, snd w)
              | (Some r, s1) \<Rightarrow> (1, run_finish X r (wr i) at D (s1, snd w)));
          (m, w2) = run_each X free wr rest at D w1
      in (n + m, w2))"

definition runDue ::
  "'p setting \<Rightarrow> time \<Rightarrow> (ident \<Rightarrow> bool) \<Rightarrow> (ident \<Rightarrow> written) \<Rightarrow> time \<Rightarrow> draws \<Rightarrow> store \<times> 'p \<Rightarrow>
     (nat \<times> nat \<times> nat) \<times> store \<times> 'p" where
  "runDue X lifetime free wr at D w =
     (let (settled, s1) = reconcile_finishes (s_ledger X) lifetime free at (fst w);
          noticed = count_where (notice_due at) (finish_schedules s1);
          s2 = give_notices at s1;
          (ran, w3) = run_each X free wr (by_finish (filter (finish_due at) (finish_schedules s2)))
                        at D (s2, snd w)
      in ((settled, noticed, ran), w3))"

end
