(* ===== verification/SalesSpec.thy ===== *)
theory SalesSpec
  imports Issuance Checkouts Lifecycle
begin

text \<open>
  What sales and allocation promise, as a machine small enough to reason about: the tables
  that decide who holds a place and who is owed what, and one transition per kind of change
  with the guard that makes it safe.  \<open>SalesSystem\<close> shows that the transactions of the code
  are sequences of these transitions.
\<close>

section \<open>The tables that matter\<close>

record core =
  c_checkouts :: "checkout_row list"
  c_holds :: "hold_row list"
  c_hosted :: "hosted_row list"
  c_sales :: "sale_row list"
  c_refunds :: "refund_row list"
  c_faces :: "face_row list"
  c_classes :: "class_row list"
  c_grants :: "granted_row list"
  c_next_grant :: nat
  c_verified :: "audit_row list"

definition core_of :: "store \<Rightarrow> core" where
  "core_of s = \<lparr>c_checkouts = checkout_sessions s, c_holds = holds s, c_hosted = hosted_checkouts s,
     c_sales = primary_sales s, c_refunds = refund_entitlements s, c_faces = face_values s,
     c_classes = ticket_classes s, c_grants = granted_issuances s, c_next_grant = granted_seq s,
     c_verified = filter (\<lambda>a. audit_step a = PaymentVerified) (checkout_audit s)\<rparr>"

section \<open>Holds\<close>

text \<open>Everything about a hold but its state: fixed when it is placed.\<close>

definition same_terms :: "hold_row \<Rightarrow> hold_row \<Rightarrow> bool" where
  "same_terms h h' \<longleftrightarrow> hold_id h' = hold_id h \<and> hold_checkout h' = hold_checkout h \<and>
     hold_event h' = hold_event h \<and> hold_zone h' = hold_zone h \<and> hold_class h' = hold_class h \<and>
     hold_position h' = hold_position h \<and> hold_asset h' = hold_asset h \<and>
     hold_price h' = hold_price h \<and> hold_request h' = hold_request h \<and>
     hold_created_at h' = hold_created_at h"

text \<open>The life of a hold.\<close>

fun hold_next :: "hold_status \<Rightarrow> hold_status \<Rightarrow> bool" where
  "hold_next Outstanding st \<longleftrightarrow> st = Lapsed \<or> st = Released \<or> st = Issuing"
| "hold_next Lapsed st \<longleftrightarrow> st = Issuing"
| "hold_next Released st \<longleftrightarrow> st = Issuing"
| "hold_next Issuing st \<longleftrightarrow> st = Confirmed \<or> st = Released"
| "hold_next Confirmed st \<longleftrightarrow> False"

definition hold_ok :: "hold_row \<Rightarrow> bool" where
  "hold_ok h \<longleftrightarrow> expires_at h = hold_created_at h + HOLD_LIFETIME_MS +
       (if extended_at h = None then 0 else HOLD_EXTENSION_MS) \<and>
     (\<exists>p. hold_price h = Some p \<and> p > 0) \<and> hold_asset h \<noteq> None"

text \<open>Holds end, or live on with another expiry; none begins.\<close>

definition ended_or_kept :: "hold_row \<Rightarrow> hold_row \<Rightarrow> bool" where
  "ended_or_kept h h' \<longleftrightarrow> same_terms h h' \<and> (hold_ok h \<longrightarrow> hold_ok h') \<and>
     (hold_status h' = hold_status h \<or>
      (hold_status h = Outstanding \<and> (hold_status h' = Lapsed \<or> hold_status h' = Released)))"

definition ends_only :: "hold_row list \<Rightarrow> hold_row list \<Rightarrow> bool" where
  "ends_only hs hs' \<longleftrightarrow> list_all2 ended_or_kept hs hs'"

section \<open>Admission\<close>

text \<open>What stands against a bound: live holds and issuances not refused.\<close>

definition load ::
  "(hold_row \<Rightarrow> 'k) \<Rightarrow> (granted_row \<Rightarrow> 'k) \<Rightarrow> 'k \<Rightarrow> hold_row list \<Rightarrow> granted_row list \<Rightarrow> nat" where
  "load of_hold of_grant k hs gs = count_where (\<lambda>h. of_hold h = k \<and> live h) hs +
     count_where (\<lambda>g. of_grant g = k \<and> counted g) gs"

definition event_load :: "ident \<Rightarrow> core \<Rightarrow> nat" where
  "event_load e c = load hold_event granted_event e (c_holds c) (c_grants c)"

definition class_load :: "ident \<Rightarrow> core \<Rightarrow> nat" where
  "class_load k c = load hold_class granted_class k (c_holds c) (c_grants c)"

text \<open>Room for one more on an event still selling, and for a granted issuance.\<close>

definition event_room :: "ledger \<Rightarrow> core \<Rightarrow> ident \<Rightarrow> bool" where
  "event_room L c e \<longleftrightarrow> (\<exists>ev. getEvent L e = Inr ev \<and> ev_status ev = Active \<and>
     (\<forall>cap. maxCapacity ev = Some cap \<longrightarrow> int (event_load e c) < cap))"

definition grant_room :: "ledger \<Rightarrow> core \<Rightarrow> ident \<Rightarrow> bool" where
  "grant_room L c e \<longleftrightarrow> (\<exists>ev. getEvent L e = Inr ev \<and> (ev_status ev = Active \<longrightarrow>
     (\<forall>cap. maxCapacity ev = Some cap \<longrightarrow> int (event_load e c) < cap)))"

definition class_room :: "core \<Rightarrow> ident \<Rightarrow> bool" where
  "class_room c k \<longleftrightarrow> (\<exists>cl \<in> set (c_classes c). class_id cl = k) \<and>
     (\<forall>cl \<in> set (c_classes c). class_id cl = k \<longrightarrow>
        (\<forall>q. quota cl = Some q \<longrightarrow> int (class_load k c) < q))"

text \<open>A seat's ticket, and a seat nothing stands against.\<close>

definition seat_ticket :: "env \<Rightarrow> hold_row \<Rightarrow> ident option" where
  "seat_ticket E h = map_option (\<lambda>p. ticketId E (hold_event h) (hold_zone h) (to_hex p)) (hold_position h)"

definition no_grant_on :: "env \<Rightarrow> core \<Rightarrow> hold_row \<Rightarrow> bool" where
  "no_grant_on E c h \<longleftrightarrow> (\<forall>g \<in> set (c_grants c). counted g \<longrightarrow>
     hold_position h \<noteq> None \<longrightarrow> granted_seat g \<noteq> seat_ticket E h)"

definition no_hold_on :: "core \<Rightarrow> hold_row \<Rightarrow> bool" where
  "no_hold_on c h \<longleftrightarrow> (\<forall>h' \<in> set (c_holds c). hold_id h' \<noteq> hold_id h \<longrightarrow> live h' \<longrightarrow> \<not> same_seat h h')"

definition normal_position :: "env \<Rightarrow> string option \<Rightarrow> bool" where
  "normal_position E p \<longleftrightarrow> (\<forall>d. p = Some d \<longrightarrow> isWellFormed E d \<and> nfc E d = d)"

section \<open>Payments\<close>

definition same_hosted :: "hosted_row \<Rightarrow> hosted_row \<Rightarrow> bool" where
  "same_hosted k k' \<longleftrightarrow> hosted_id k' = hosted_id k \<and> hosted_hold k' = hosted_hold k \<and>
     provider_checkout_id k' = provider_checkout_id k \<and> hosted_amount k' = hosted_amount k \<and>
     hosted_asset k' = hosted_asset k"

text \<open>A sale still issuing may learn its ticket; any may learn its operation.\<close>

definition sale_noted :: "sale_row \<Rightarrow> sale_row \<Rightarrow> bool" where
  "sale_noted x x' \<longleftrightarrow> sale_id x' = sale_id x \<and> sale_hosted x' = sale_hosted x \<and>
     sale_hold x' = sale_hold x \<and> sale_holder x' = sale_holder x \<and> sale_status x' = sale_status x \<and>
     (sale_status x = SaleIssuing \<or> sale_ticket x' = sale_ticket x)"

definition c_handled :: "core \<Rightarrow> ident \<Rightarrow> bool" where
  "c_handled c k \<longleftrightarrow> (\<exists>x \<in> set (c_sales c). sale_hosted x = k) \<or>
                     (\<exists>r \<in> set (c_refunds c). refund_hosted r = k)"

text \<open>The audit row saying the provider reported exactly the hosted checkout's amount paid.\<close>

definition verifies :: "hosted_row \<Rightarrow> audit_row \<Rightarrow> bool" where
  "verifies k a \<longleftrightarrow> audit_step a = PaymentVerified \<and>
     audit_detail a = [(''providerCheckout'', DStr (provider_checkout_id k)),
       (''amount'', DNum (hosted_amount k)), (''asset'', DStr (hosted_asset k))]"

definition payment_refund :: "refund_row \<Rightarrow> bool" where
  "payment_refund r \<longleftrightarrow> refund_reason r = PlaceGone \<or> refund_reason r = AmountMismatch \<or>
                       refund_reason r = EventClosed"

section \<open>Granted issuances\<close>

definition same_grant :: "granted_row \<Rightarrow> granted_row \<Rightarrow> bool" where
  "same_grant g g' \<longleftrightarrow> granted_id g' = granted_id g \<and> granted_event g' = granted_event g \<and>
     granted_class g' = granted_class g \<and> granted_holder g' = granted_holder g \<and>
     granted_organiser g' = granted_organiser g \<and> granted_seat g' = granted_seat g"

text \<open>
  An issuance that reserved a seat bears that seat's ticket. A pending issuance ends, or has its
  ticket noted: the reserved seat's own, or any at all where no seat was reserved.
\<close>

definition bears_seat :: "granted_row \<Rightarrow> bool" where
  "bears_seat g \<longleftrightarrow> granted_seat g = None \<or> granted_ticket g = granted_seat g"

definition grant_moves :: "granted_row \<Rightarrow> granted_row \<Rightarrow> bool" where
  "grant_moves g g' \<longleftrightarrow> same_grant g g' \<and> (counted g' \<longrightarrow> counted g) \<and>
     (granted_ticket g' = granted_ticket g \<or> bears_seat g')"

section \<open>The ledger's own changes\<close>

text \<open>
  Events do not vanish and never become \<open>Active\<close> again. Their capacity falls only by commands Kippu
  signed: decreases the ledger settles (\<open>spec_decrease\<close>), and those in flight, which may take
  effect at any later time (\<open>spec_late\<close>).
\<close>

definition capacity_kept :: "int option \<Rightarrow> int option \<Rightarrow> bool" where
  "capacity_kept cap cap' \<longleftrightarrow> (case cap' of None \<Rightarrow> True
     | Some b \<Rightarrow> (case cap of None \<Rightarrow> False | Some a \<Rightarrow> a \<le> b))"

definition ledger_moves :: "ledger \<Rightarrow> ledger \<Rightarrow> bool" where
  "ledger_moves L L' \<longleftrightarrow> inFlight L' = inFlight L \<and> landedLate L' = landedLate L \<and>
     (\<forall>e ev. getEvent L e = Inr ev \<longrightarrow> (\<exists>ev'. getEvent L' e = Inr ev' \<and>
     (ev_status ev' = Active \<longrightarrow> ev_status ev = Active \<and>
        capacity_kept (maxCapacity ev) (maxCapacity ev'))))"

section \<open>Transitions\<close>

inductive spec_step :: "env \<Rightarrow> ledger \<times> core \<Rightarrow> ledger \<times> core \<Rightarrow> bool" for E :: env where
  spec_end: "ends_only (c_holds c) hs \<Longrightarrow> spec_step E (L, c) (L, c\<lparr>c_holds := hs\<rparr>)"
| spec_hosted: "list_all2 same_hosted (c_hosted c) ks \<Longrightarrow> spec_step E (L, c) (L, c\<lparr>c_hosted := ks\<rparr>)"
| spec_note: "list_all2 sale_noted (c_sales c) xs \<Longrightarrow> spec_step E (L, c) (L, c\<lparr>c_sales := xs\<rparr>)"
| spec_checkouts: "(\<And>k. k \<in> set ks \<Longrightarrow> normal_position E (checkout_position k)) \<Longrightarrow>
    spec_step E (L, c) (L, c\<lparr>c_checkouts := ks\<rparr>)"
| spec_verify: "spec_step E (L, c) (L, c\<lparr>c_verified := c_verified c @ vs\<rparr>)"
| spec_prices: "list_all2 (\<lambda>k k'. class_id k' = class_id k \<and> quota k' = quota k) (c_classes c) ks \<Longrightarrow>
    (\<And>k p. k \<in> set ks \<Longrightarrow> price k = Some p \<Longrightarrow> 0 < p) \<Longrightarrow>
    spec_step E (L, c) (L, c\<lparr>c_classes := ks\<rparr>)"
| spec_class: "(\<And>k'. k' \<in> set (c_classes c) \<Longrightarrow> class_id k' \<noteq> class_id k) \<Longrightarrow>
    (\<And>p. price k = Some p \<Longrightarrow> 0 < p) \<Longrightarrow>
    spec_step E (L, c) (L, c\<lparr>c_classes := c_classes c @ [k]\<rparr>)"
| spec_place: "hold_status h = Outstanding \<Longrightarrow> hold_ok h \<Longrightarrow> normal_position E (hold_position h) \<Longrightarrow>
    (\<And>h'. h' \<in> set (c_holds c) \<Longrightarrow> hold_id h' \<noteq> hold_id h \<and> hold_checkout h' \<noteq> hold_checkout h) \<Longrightarrow>
    event_room L c (hold_event h) \<Longrightarrow> class_room c (hold_class h) \<Longrightarrow>
    no_hold_on c h \<Longrightarrow> no_grant_on E c h \<Longrightarrow>
    spec_step E (L, c) (L, c\<lparr>c_holds := c_holds c @ [h]\<rparr>)"
| spec_pay: "h \<in> set (c_holds c) \<Longrightarrow> hold_id h = hosted_hold k \<Longrightarrow>
    hold_price h = Some (hosted_amount k) \<Longrightarrow> hold_asset h = Some (hosted_asset k) \<Longrightarrow>
    (\<And>k'. k' \<in> set (c_hosted c) \<Longrightarrow> hosted_id k' \<noteq> hosted_id k) \<Longrightarrow>
    spec_step E (L, c) (L, c\<lparr>c_hosted := c_hosted c @ [k]\<rparr>)"
| spec_take: "h \<in> set (c_holds c) \<Longrightarrow> k \<in> set (c_hosted c) \<Longrightarrow> hosted_hold k = hold_id h \<Longrightarrow>
    \<not> c_handled c (hosted_id k) \<Longrightarrow>
    hold_status h = Outstanding \<or>
      ((hold_status h = Lapsed \<or> hold_status h = Released) \<and> event_room L c (hold_event h) \<and>
       class_room c (hold_class h) \<and> no_grant_on E c h) \<Longrightarrow>
    no_hold_on c h \<Longrightarrow>
    sale_hosted x = hosted_id k \<Longrightarrow> sale_hold x = hold_id h \<Longrightarrow> sale_status x = SaleIssuing \<Longrightarrow>
    (\<And>y. y \<in> set (c_sales c) \<Longrightarrow> sale_id y \<noteq> sale_id x) \<Longrightarrow>
    a \<in> set (c_verified c) \<Longrightarrow> verifies k a \<Longrightarrow>
    spec_step E (L, c) (L, c\<lparr>c_holds := update_where (\<lambda>h'. hold_id h' = hold_id h) take_row (c_holds c),
                           c_sales := c_sales c @ [x]\<rparr>)"
| spec_refund: "k \<in> set (c_hosted c) \<Longrightarrow> refund_hosted r = hosted_id k \<Longrightarrow> payment_refund r \<Longrightarrow>
    refund_ticket r = None \<Longrightarrow> \<not> c_handled c (hosted_id k) \<Longrightarrow>
    spec_step E (L, c) (L, c\<lparr>c_refunds := c_refunds c @ [r]\<rparr>)"
| spec_issued: "x \<in> set (c_sales c) \<Longrightarrow> sale_status x = SaleIssuing \<Longrightarrow> h \<in> set (c_holds c) \<Longrightarrow>
    hold_id h = sale_hold x \<Longrightarrow> face_sale f = sale_id x \<Longrightarrow> face_ticket f = t \<Longrightarrow>
    hold_price h = Some (face_amount f) \<Longrightarrow> hold_asset h = Some (face_asset f) \<Longrightarrow>
    (\<And>g. g \<in> set (c_faces c) \<Longrightarrow> face_ticket g \<noteq> t) \<Longrightarrow>
    spec_step E (L, c) (L, c\<lparr>
      c_sales := update_where (\<lambda>y. sale_id y = sale_id x) (sale_completion (CompleteIssued t cur) at) (c_sales c),
      c_holds := update_where (\<lambda>y. hold_id y = sale_hold x) (confirm_row at) (c_holds c),
      c_faces := c_faces c @ [f]\<rparr>)"
| spec_rejected: "x \<in> set (c_sales c) \<Longrightarrow> sale_status x = SaleIssuing \<Longrightarrow>
    refund_hosted r = sale_hosted x \<Longrightarrow> refund_reason r = IssuanceRejected \<Longrightarrow> refund_ticket r = None \<Longrightarrow>
    spec_step E (L, c) (L, c\<lparr>
      c_sales := update_where (\<lambda>y. sale_id y = sale_id x) (sale_completion (CompleteRejected code) at) (c_sales c),
      c_holds := update_where (\<lambda>y. hold_id y = sale_hold x \<and> hold_status y = Issuing) (give_back_row at) (c_holds c),
      c_refunds := c_refunds c @ [r]\<rparr>)"
| spec_failed: "x \<in> set (c_sales c) \<Longrightarrow> sale_status x = SaleIssuing \<Longrightarrow>
    spec_step E (L, c) (L, c\<lparr>
      c_sales := update_where (\<lambda>y. sale_id y = sale_id x) (sale_completion CompleteFailed at) (c_sales c)\<rparr>)"
| spec_cancellation_refund: "x \<in> set (c_sales c) \<Longrightarrow> sale_status x = SaleIssued \<or> sale_status x = SaleFailed \<Longrightarrow>
    refund_hosted r = sale_hosted x \<Longrightarrow> refund_reason r = EventCancelled \<Longrightarrow>
    refund_ticket r = sale_ticket x \<Longrightarrow> sale_ticket x \<noteq> None \<Longrightarrow>
    (\<And>r'. r' \<in> set (c_refunds c) \<Longrightarrow> refund_hosted r' \<noteq> refund_hosted r \<and> refund_ticket r' \<noteq> refund_ticket r) \<Longrightarrow>
    spec_step E (L, c) (L, c\<lparr>c_refunds := c_refunds c @ [r]\<rparr>)"
| spec_reserve: "counted g \<Longrightarrow> granted_id g = c_next_grant c \<Longrightarrow> grant_room L c (granted_event g) \<Longrightarrow>
    class_room c (granted_class g) \<Longrightarrow>
    (\<And>h. h \<in> set (c_holds c) \<Longrightarrow> live h \<Longrightarrow> hold_position h \<noteq> None \<Longrightarrow> granted_seat g \<noteq> seat_ticket E h) \<Longrightarrow>
    bears_seat g \<Longrightarrow>
    spec_step E (L, c) (L, c\<lparr>c_grants := c_grants c @ [g], c_next_grant := Suc (c_next_grant c)\<rparr>)"
| spec_grants: "list_all2 grant_moves (c_grants c) gs \<Longrightarrow> spec_step E (L, c) (L, c\<lparr>c_grants := gs\<rparr>)"
| spec_forget: "spec_step E (L, c) (L, c\<lparr>c_grants := filter P (c_grants c)\<rparr>)"
| spec_ledger: "ledger_moves L L' \<Longrightarrow> spec_step E (L, c) (L', c)"
| spec_decrease: "(\<And>ev. getEvent L e = Inr ev \<Longrightarrow> ev_status ev = Active \<Longrightarrow> int (event_load e c) \<le> cap) \<Longrightarrow>
    spec_step E (L, c) (set_capacity e cap L, c)"
| spec_flight: "spec_step E (L, c) (leave_in_flight e cap L, c)"
| spec_late: "(e, cap) \<in> set (inFlight L) \<Longrightarrow> spec_step E (L, c) (land_late e cap L, c)"

end
