(* ===== verification/Admission.thy ===== *)
theory Admission
  imports SalesSpec
begin

text \<open>
  Counting against a bound: one set of laws for whatever key holds and granted issuances are
  counted by, interpreted for events (capacity) and classes (quota).
\<close>

section \<open>Rows across a change\<close>

lemma ended_or_kept_terms: "ended_or_kept h h' \<Longrightarrow> same_terms h h'"
  by (simp add: ended_or_kept_def)

lemma ended_or_kept_live: "ended_or_kept h h' \<Longrightarrow> live h' \<Longrightarrow> live h"
  by (auto simp: ended_or_kept_def live_def unissued_def)

lemma same_terms_update [simp]:
  "same_terms h (take_row h)" "same_terms h (confirm_row at h)" "same_terms h (give_back_row at h)"
  "same_terms h h" "same_terms h (lapse h)" "same_terms h (release_row at h)"
  "same_terms h (extend_row at h)"
  by (simp_all add: same_terms_def take_row_def confirm_row_def give_back_row_def lapse_def
      release_row_def extend_row_def)

text \<open>A count over rows related one by one.\<close>

lemma count_where_all2:
  assumes "list_all2 R xs ys" "\<And>x y. R x y \<Longrightarrow> Q y \<Longrightarrow> P x"
  shows "count_where Q ys \<le> count_where P xs"
  using assms by (induction rule: list_all2_induct) (auto simp: count_where_Cons le_SucI)

lemma map_all2:
  assumes "list_all2 R xs ys" "\<And>x y. R x y \<Longrightarrow> f y = f x"
  shows "map f ys = map f xs"
  using assms by (induction rule: list_all2_induct) auto

lemma all2_in:
  assumes "list_all2 R xs ys" "y \<in> set ys"
  obtains x where "x \<in> set xs" "R x y"
  using assms by (induction rule: list_all2_induct) auto

lemma all2_in_left:
  assumes "list_all2 R xs ys" "x \<in> set xs"
  obtains y where "y \<in> set ys" "R x y"
  using assms by (induction rule: list_all2_induct) auto

lemma all2_update_where:
  assumes "\<And>r. r \<in> set rows \<Longrightarrow> R r r" "\<And>r. r \<in> set rows \<Longrightarrow> P r \<Longrightarrow> R r (f r)"
  shows "list_all2 R rows (update_where P f rows)"
  using assms by (induction rows) (auto simp: update_where_Cons)

lemma not_in_keys: "(\<And>y. y \<in> set ys \<Longrightarrow> f y \<noteq> k) \<Longrightarrow> k \<notin> f ` set ys"
  by blast

section \<open>The laws\<close>

locale admission =
  fixes of_hold :: "hold_row \<Rightarrow> 'k" and of_grant :: "granted_row \<Rightarrow> 'k"
  assumes hold_key: "same_terms h h' \<Longrightarrow> of_hold h' = of_hold h"
    and grant_key: "same_grant g g' \<Longrightarrow> of_grant g' = of_grant g"
begin

abbreviation ld :: "'k \<Rightarrow> hold_row list \<Rightarrow> granted_row list \<Rightarrow> nat" where
  "ld \<equiv> load of_hold of_grant"

lemma load_ends:
  assumes "ends_only hs hs'"
  shows "ld k hs' gs \<le> ld k hs gs"
proof -
  have "of_hold h = k \<and> live h" if "ended_or_kept h h'" "of_hold h' = k \<and> live h'" for h h'
    using that hold_key [OF ended_or_kept_terms [OF that(1)]] ended_or_kept_live [OF that(1)] by simp
  with assms show ?thesis
    unfolding load_def ends_only_def by (intro add_right_mono count_where_all2) blast+
qed

lemma load_place: "ld k (hs @ [h]) gs = ld k hs gs + (if of_hold h = k \<and> live h then 1 else 0)"
  by (simp add: load_def count_where_append count_where_Cons)

lemma load_reserve: "ld k hs (gs @ [g]) = ld k hs gs + (if of_grant g = k \<and> counted g then 1 else 0)"
  by (simp add: load_def count_where_append count_where_Cons)

lemma load_grants:
  assumes "list_all2 grant_moves gs gs'"
  shows "ld k hs gs' \<le> ld k hs gs"
proof -
  have "of_grant g = k \<and> counted g" if "grant_moves g g'" "of_grant g' = k \<and> counted g'" for g g'
    using that grant_key [of g g'] by (simp add: grant_moves_def)
  with assms show ?thesis
    unfolding load_def by (intro add_left_mono count_where_all2) blast+
qed

lemma load_forget: "ld k hs (filter P gs) \<le> ld k hs gs"
  by (induction gs) (auto simp: load_def count_where_Cons)

text \<open>An update that keeps the terms of holds and makes none live.\<close>

lemma load_update:
  assumes "\<And>h. h \<in> set hs \<Longrightarrow> P h \<Longrightarrow> same_terms h (f h) \<and> (live (f h) \<longrightarrow> live h)"
  shows "ld k (update_where P f hs) gs \<le> ld k hs gs"
proof -
  have "of_hold h = k \<and> live h"
    if h: "h \<in> set hs" and upd: "of_hold (if P h then f h else h) = k \<and> live (if P h then f h else h)" for h
    using upd assms [OF h] hold_key [of h "f h"] by (cases "P h") auto
  then show ?thesis
    unfolding load_def count_where_update by (intro add_right_mono count_where_mono) blast
qed

text \<open>Taking a hold that ended adds one to its own key's load, and to no other's.\<close>

lemma load_take:
  assumes "distinct (map hold_id hs)" "h \<in> set hs"
  shows "ld k (update_where (\<lambda>h'. hold_id h' = hold_id h) take_row hs) gs \<le>
         ld k hs gs + (if of_hold h = k \<and> \<not> live h then 1 else 0)"
proof -
  let ?upd = "\<lambda>r. if hold_id r = hold_id h then take_row r else r"
  let ?P = "\<lambda>r. of_hold r = k \<and> live r"
  have self: "r = h" if "r \<in> set hs" "hold_id r = hold_id h" for r
    using distinct_key_eq [OF assms(1) that(1) assms(2) that(2)] .
  have key: "of_hold (?upd r) = of_hold r" for r by (simp add: hold_key)
  have "count_where (\<lambda>r. ?P (?upd r)) hs \<le> count_where ?P hs + (if of_hold h = k \<and> \<not> live h then 1 else 0)"
  proof (cases "of_hold h = k \<and> \<not> live h")
    case True
    have "count_where (\<lambda>r. ?P (?upd r)) hs \<le> Suc (count_where ?P hs)"
      by (rule count_where_gain_one [OF assms(1), where k = "hold_id h"])
        (auto simp: key split: if_splits)
    with True show ?thesis by simp
  next
    case False
    have "count_where (\<lambda>r. ?P (?upd r)) hs \<le> count_where ?P hs"
      using False self by (intro count_where_mono) (auto simp: key hold_key split: if_splits)
    then show ?thesis by simp
  qed
  then show ?thesis by (simp add: load_def count_where_update)
qed

lemma load_fresh:
  assumes "\<And>h. h \<in> set hs \<Longrightarrow> of_hold h \<noteq> k" "\<And>g. g \<in> set gs \<Longrightarrow> of_grant g \<noteq> k"
  shows "ld k hs gs = 0"
  using assms by (simp add: load_def count_where_0_iff)

end

interpretation ev: admission hold_event granted_event
  by unfold_locales (simp_all add: same_terms_def same_grant_def)

interpretation cl: admission hold_class granted_class
  by unfold_locales (simp_all add: same_terms_def same_grant_def)

end
