(* ===== verification/SalesInvariants.thy ===== *)
theory SalesInvariants
  imports Admission
begin

text \<open>
  What every transition of \<open>SalesSpec\<close> keeps: keys, the terms of holds, what payments, sales,
  refunds and face values say of one another, and the bounds on capacity, quota and seats.
\<close>

section \<open>The invariants\<close>

definition distinct_keys :: "core \<Rightarrow> bool" where
  "distinct_keys c \<longleftrightarrow> distinct (map hold_id (c_holds c)) \<and> distinct (map hold_checkout (c_holds c)) \<and>
     distinct (map hosted_id (c_hosted c)) \<and> distinct (map sale_id (c_sales c)) \<and>
     distinct (map sale_hosted (c_sales c)) \<and> distinct (map refund_hosted (c_refunds c)) \<and>
     distinct (map face_ticket (c_faces c)) \<and> distinct (map class_id (c_classes c))"

definition holds_ok :: "core \<Rightarrow> bool" where
  "holds_ok c \<longleftrightarrow> (\<forall>h \<in> set (c_holds c). hold_ok h)"

definition hosted_ok :: "core \<Rightarrow> bool" where
  "hosted_ok c \<longleftrightarrow> (\<forall>k \<in> set (c_hosted c). \<exists>h \<in> set (c_holds c). hold_id h = hosted_hold k \<and>
     hold_price h = Some (hosted_amount k) \<and> hold_asset h = Some (hosted_asset k))"

text \<open>Every sale was paid: the provider reported exactly its hosted checkout's amount.\<close>

definition sales_ok :: "core \<Rightarrow> bool" where
  "sales_ok c \<longleftrightarrow> (\<forall>x \<in> set (c_sales c). \<exists>k \<in> set (c_hosted c). hosted_id k = sale_hosted x \<and>
     hosted_hold k = sale_hold x \<and> (\<exists>a \<in> set (c_verified c). verifies k a))"

text \<open>The sales standing for a hold, and what its status says they are.\<close>

definition active_sales :: "sale_row list \<Rightarrow> ident \<Rightarrow> sale_status list" where
  "active_sales xs i = map sale_status (filter (\<lambda>x. sale_hold x = i \<and> sale_status x \<noteq> SaleRejected) xs)"

fun sales_match :: "hold_status \<Rightarrow> sale_status list \<Rightarrow> bool" where
  "sales_match Issuing l \<longleftrightarrow> l = [SaleIssuing] \<or> l = [SaleFailed]"
| "sales_match Confirmed l \<longleftrightarrow> l = [SaleIssued]"
| "sales_match _ l \<longleftrightarrow> l = []"

definition holds_match :: "core \<Rightarrow> bool" where
  "holds_match c \<longleftrightarrow> (\<forall>h \<in> set (c_holds c). sales_match (hold_status h) (active_sales (c_sales c) (hold_id h)))"

text \<open>A refund stands in place of a sale, of one the ledger refused, or of a cancelled event's ticket.\<close>

definition refund_stands :: "sale_row list \<Rightarrow> refund_row \<Rightarrow> bool" where
  "refund_stands xs r \<longleftrightarrow> (case refund_reason r of
     EventCancelled \<Rightarrow> \<exists>x \<in> set xs. sale_hosted x = refund_hosted r \<and>
       (sale_status x = SaleIssued \<or> sale_status x = SaleFailed) \<and> sale_ticket x = refund_ticket r
   | IssuanceRejected \<Rightarrow> \<exists>x \<in> set xs. sale_hosted x = refund_hosted r \<and> sale_status x = SaleRejected
   | _ \<Rightarrow> \<forall>x \<in> set xs. sale_hosted x \<noteq> refund_hosted r)"

definition refunds_ok :: "core \<Rightarrow> bool" where
  "refunds_ok c \<longleftrightarrow> (\<forall>r \<in> set (c_refunds c). (\<exists>k \<in> set (c_hosted c). hosted_id k = refund_hosted r) \<and>
     refund_stands (c_sales c) r)"

definition faces_ok :: "core \<Rightarrow> bool" where
  "faces_ok c \<longleftrightarrow> (\<forall>f \<in> set (c_faces c). \<exists>x \<in> set (c_sales c). \<exists>h \<in> set (c_holds c).
       sale_id x = face_sale f \<and> sale_status x = SaleIssued \<and> sale_ticket x = Some (face_ticket f) \<and>
       hold_id h = sale_hold x \<and> hold_price h = Some (face_amount f) \<and> hold_asset h = Some (face_asset f)) \<and>
     (\<forall>x \<in> set (c_sales c). sale_status x = SaleIssued \<longrightarrow> (\<exists>f \<in> set (c_faces c). face_sale f = sale_id x))"

definition classes_ok :: "core \<Rightarrow> bool" where
  "classes_ok c \<longleftrightarrow> (\<forall>k \<in> set (c_classes c). \<forall>p. price k = Some p \<longrightarrow> 0 < p)"

definition grants_ok :: "core \<Rightarrow> bool" where
  "grants_ok c \<longleftrightarrow> distinct (map granted_id (c_grants c)) \<and>
     (\<forall>g \<in> set (c_grants c). granted_id g < c_next_grant c \<and> bears_seat g)"

definition all_known :: "ledger \<Rightarrow> core \<Rightarrow> bool" where
  "all_known L c \<longleftrightarrow>
     (\<forall>h \<in> set (c_holds c). (\<exists>ev. getEvent L (hold_event h) = Inr ev) \<and>
        (\<exists>k \<in> set (c_classes c). class_id k = hold_class h)) \<and>
     (\<forall>g \<in> set (c_grants c). (\<exists>ev. getEvent L (granted_event g) = Inr ev) \<and>
        (\<exists>k \<in> set (c_classes c). class_id k = granted_class g))"

definition positions_ok :: "env \<Rightarrow> core \<Rightarrow> bool" where
  "positions_ok E c \<longleftrightarrow> (\<forall>h \<in> set (c_holds c). normal_position E (hold_position h)) \<and>
     (\<forall>k \<in> set (c_checkouts c). normal_position E (checkout_position k))"

text \<open>The bounds.\<close>

definition seats_ok :: "core \<Rightarrow> bool" where
  "seats_ok c \<longleftrightarrow> (\<forall>h \<in> set (c_holds c). \<forall>h' \<in> set (c_holds c).
     live h \<longrightarrow> live h' \<longrightarrow> same_seat h h' \<longrightarrow> h = h')"

definition granted_seats_ok :: "env \<Rightarrow> core \<Rightarrow> bool" where
  "granted_seats_ok E c \<longleftrightarrow> (\<forall>h \<in> set (c_holds c). live h \<longrightarrow> no_grant_on E c h)"

text \<open>A command with no verdict took effect late, setting no more than the capacity the event has.\<close>

definition fell_late :: "ledger \<Rightarrow> ident \<Rightarrow> int \<Rightarrow> bool" where
  "fell_late L e cap = list_ex (\<lambda>(i, b). i = e \<and> b \<le> cap) (landedLate L)"

definition capacity_ok :: "ledger \<Rightarrow> core \<Rightarrow> bool" where
  "capacity_ok L c \<longleftrightarrow> (\<forall>e ev cap. getEvent L e = Inr ev \<longrightarrow> ev_status ev = Active \<longrightarrow>
     maxCapacity ev = Some cap \<longrightarrow> \<not> fell_late L e cap \<longrightarrow> int (event_load e c) \<le> max 0 cap)"

definition quota_ok :: "core \<Rightarrow> bool" where
  "quota_ok c \<longleftrightarrow> (\<forall>k \<in> set (c_classes c). \<forall>q. quota k = Some q \<longrightarrow>
     int (class_load (class_id k) c) \<le> max 0 q)"

lemmas invariant_defs = distinct_keys_def holds_ok_def hosted_ok_def sales_ok_def holds_match_def
  refunds_ok_def faces_ok_def classes_ok_def grants_ok_def all_known_def positions_ok_def
  seats_ok_def granted_seats_ok_def capacity_ok_def quota_ok_def

definition sales_inv :: "env \<Rightarrow> ledger \<Rightarrow> core \<Rightarrow> bool" where
  "sales_inv E L c \<longleftrightarrow> distinct_keys c \<and> holds_ok c \<and> hosted_ok c \<and> sales_ok c \<and> holds_match c \<and>
     refunds_ok c \<and> faces_ok c \<and> classes_ok c \<and> grants_ok c \<and> all_known L c \<and> positions_ok E c \<and>
     seats_ok c \<and> granted_seats_ok E c \<and> capacity_ok L c \<and> quota_ok c"

section \<open>Small facts\<close>

lemma ends_terms:
  assumes "ends_only hs hs'" "\<And>h h'. same_terms h h' \<Longrightarrow> f h' = f h"
  shows "map f hs' = map f hs"
  using assms unfolding ends_only_def by (auto intro!: map_all2 ended_or_kept_terms)

lemma ends_in:
  assumes "ends_only hs hs'" "h' \<in> set hs'"
  obtains h where "h \<in> set hs" "ended_or_kept h h'"
  using assms unfolding ends_only_def by (blast elim: all2_in)

lemma ends_in_left:
  assumes "ends_only hs hs'" "h \<in> set hs"
  obtains h' where "h' \<in> set hs'" "ended_or_kept h h'"
  using assms unfolding ends_only_def by (blast elim: all2_in_left)

lemma same_seat_terms:
  assumes "same_terms h1 h2" "same_terms k1 k2"
  shows "same_seat h2 k2 = same_seat h1 k1"
  using assms by (simp add: same_seat_def same_terms_def seat_of_def)

lemma seat_ticket_terms: "same_terms h h' \<Longrightarrow> seat_ticket E h' = seat_ticket E h"
  by (simp add: seat_ticket_def same_terms_def)

lemma no_grant_terms: "same_terms h h' \<Longrightarrow> no_grant_on E c h' = no_grant_on E c h"
  by (simp add: no_grant_on_def seat_ticket_terms) (simp add: same_terms_def)

lemma no_grant_cong: "c_grants c' = c_grants c \<Longrightarrow> no_grant_on E c' h = no_grant_on E c h"
  by (simp add: no_grant_on_def)

lemma sale_completion_simps [simp]:
  "sale_id (sale_completion d at x) = sale_id x" "sale_hosted (sale_completion d at x) = sale_hosted x"
  "sale_hold (sale_completion d at x) = sale_hold x" "sale_holder (sale_completion d at x) = sale_holder x"
  "sale_status (sale_completion (CompleteIssued t cur) at x) = SaleIssued"
  "sale_status (sale_completion (CompleteRejected e) at x) = SaleRejected"
  "sale_status (sale_completion CompleteFailed at x) = SaleFailed"
  "sale_ticket (sale_completion (CompleteIssued t cur) at x) = Some t"
  "sale_ticket (sale_completion (CompleteRejected e) at x) = sale_ticket x"
  "sale_ticket (sale_completion CompleteFailed at x) = sale_ticket x"
  by (simp_all add: sale_completion_def split: completion.splits)

lemma row_update_simps [simp]:
  "hold_status (take_row h) = Issuing" "hold_status (confirm_row at h) = Confirmed"
  "hold_status (give_back_row at h) = Released"
  "hold_id (take_row h) = hold_id h" "hold_id (confirm_row at h) = hold_id h"
  "hold_id (give_back_row at h) = hold_id h"
  "hold_ok (take_row h) = hold_ok h" "hold_ok (confirm_row at h) = hold_ok h"
  "hold_ok (give_back_row at h) = hold_ok h"
  by (simp_all add: take_row_def confirm_row_def give_back_row_def hold_ok_def)

lemma active_sales_append:
  "active_sales (xs @ [x]) i =
     active_sales xs i @ (if sale_hold x = i \<and> sale_status x \<noteq> SaleRejected then [sale_status x] else [])"
  by (simp add: active_sales_def)

lemma active_sales_none: "(\<And>x. x \<in> set xs \<Longrightarrow> sale_hold x \<noteq> i) \<Longrightarrow> active_sales xs i = []"
  by (auto simp: active_sales_def filter_empty_conv)

lemma active_sales_cong:
  assumes "list_all2 (\<lambda>x x'. sale_hold x' = sale_hold x \<and> sale_status x' = sale_status x) xs xs'"
  shows "active_sales xs' i = active_sales xs i"
  using assms by (induction rule: list_all2_induct) (auto simp: active_sales_def)

text \<open>A sale of a hold shows among the hold's active sales, unless rejected.\<close>

lemma active_sales_member:
  "x \<in> set xs \<Longrightarrow> sale_hold x = i \<Longrightarrow> sale_status x \<noteq> SaleRejected \<Longrightarrow> sale_status x \<in> set (active_sales xs i)"
  by (auto simp: active_sales_def)

lemma distinct_snoc: "distinct (map f (xs @ [x])) \<longleftrightarrow> distinct (map f xs) \<and> f x \<notin> f ` set xs"
  by auto

lemma update_image [simp]:
  "(\<And>r. f (g r) = f r) \<Longrightarrow> f ` set (update_where P g rows) = f ` set rows"
  unfolding set_update_where image_image by (rule image_cong) simp_all

lemma ends_hold_ids [simp]:
  "ends_only hs hs' \<Longrightarrow> map hold_id hs' = map hold_id hs"
  "ends_only hs hs' \<Longrightarrow> map hold_checkout hs' = map hold_checkout hs"
  by (auto intro!: ends_terms simp: same_terms_def)

text \<open>Completing a sale changes its own hold's active sales, and no other's.\<close>

lemma active_sales_other:
  assumes "distinct (map sale_id xs)" "x \<in> set xs" "i \<noteq> sale_hold x"
  shows "active_sales (update_where (\<lambda>y. sale_id y = sale_id x) (sale_completion d at) xs) i = active_sales xs i"
proof -
  have "sale_hold y = sale_hold x" if "y \<in> set xs" "sale_id y = sale_id x" for y
    using distinct_key_eq [OF assms(1) that(1) assms(2) that(2)] by simp
  then show ?thesis
    using assms(3) unfolding active_sales_def update_where_def
    by (induction xs) auto
qed

lemma active_sales_complete:
  assumes "distinct (map sale_id xs)" "x \<in> set xs" "sale_status x = SaleIssuing"
    and "active_sales xs (sale_hold x) = [SaleIssuing]"
  shows "active_sales (update_where (\<lambda>y. sale_id y = sale_id x) (sale_completion d at) xs) (sale_hold x) =
    (case d of CompleteIssued t cur \<Rightarrow> [SaleIssued] | CompleteRejected e \<Rightarrow> [] | CompleteFailed \<Rightarrow> [SaleFailed])"
  using assms
proof (induction xs)
  case Nil
  then show ?case by simp
next
  case (Cons y ys)
  show ?case
  proof (cases "sale_id y = sale_id x")
    case True
    with Cons.prems have "y = x" "\<forall>z \<in> set ys. sale_id z \<noteq> sale_id x" by (auto simp: image_iff)
    moreover from this have "update_where (\<lambda>y. sale_id y = sale_id x) (sale_completion d at) ys = ys"
      by (intro update_where_none) blast
    moreover have "active_sales ys (sale_hold x) = []"
      using Cons.prems \<open>y = x\<close> by (simp add: active_sales_def)
    ultimately show ?thesis
      using Cons.prems(3) by (simp add: update_where_Cons active_sales_def split: completion.splits)
  next
    case False
    with Cons.prems have x: "x \<in> set ys" by auto
    have "active_sales ys (sale_hold x) \<noteq> []"
      using active_sales_member [OF x] Cons.prems(3) by fastforce
    with Cons.prems(4) have y: "\<not> (sale_hold y = sale_hold x \<and> sale_status y \<noteq> SaleRejected)"
      by (auto simp: active_sales_def split: if_splits)
    with Cons False x show ?thesis by (auto simp: update_where_Cons active_sales_def)
  qed
qed

section \<open>Keys\<close>

lemma no_refund_while_issuing:
  assumes "distinct_keys c" "refunds_ok c" "x \<in> set (c_sales c)" "sale_status x = SaleIssuing"
    and "r \<in> set (c_refunds c)"
  shows "refund_hosted r \<noteq> sale_hosted x"
proof
  assume same: "refund_hosted r = sale_hosted x"
  have "y = x" if "y \<in> set (c_sales c)" "sale_hosted y = sale_hosted x" for y
    using that assms(1,3) distinct_key_eq [of sale_hosted "c_sales c" y x] by (simp add: distinct_keys_def)
  then have only: "sale_status y = SaleIssuing" if "y \<in> set (c_sales c)" "sale_hosted y = sale_hosted x" for y
    using that assms(4) by blast
  have "refund_stands (c_sales c) r" using assms(2,5) by (simp add: refunds_ok_def)
  with same only assms(3) show False
    by (cases "refund_reason r") (fastforce simp: refund_stands_def)+
qed

lemma distinct_keys_step:
  assumes "spec_step E (L, c) (L', c')" "distinct_keys c" "refunds_ok c" "holds_match c" "sales_ok c"
    and "faces_ok c"
  shows "distinct_keys c'"
  using assms(1)
proof (cases rule: spec_step.cases)
  case (spec_hosted ks)
  then have "map hosted_id ks = map hosted_id (c_hosted c)"
    by (auto intro!: map_all2 simp: same_hosted_def)
  with spec_hosted assms(2) show ?thesis by (simp add: distinct_keys_def)
next
  case (spec_note xs)
  then have "map sale_id xs = map sale_id (c_sales c)" "map sale_hosted xs = map sale_hosted (c_sales c)"
    by (auto intro!: map_all2 [where R = sale_noted] simp: sale_noted_def)
  with spec_note assms(2) show ?thesis by (simp add: distinct_keys_def)
next
  case (spec_prices ks)
  then have "map class_id ks = map class_id (c_classes c)"
    by (auto intro!: map_all2)
  with spec_prices assms(2) show ?thesis by (simp add: distinct_keys_def)
next
  case (spec_take h k x a)
  have "sale_hosted x \<notin> sale_hosted ` set (c_sales c)" using spec_take by (auto simp: c_handled_def)
  moreover have "sale_id x \<notin> sale_id ` set (c_sales c)" using spec_take by (intro not_in_keys)
  ultimately show ?thesis using spec_take assms(2)
    by (simp add: distinct_keys_def map_update_where take_row_def)
next
  case (spec_rejected x r at code)
  have "refund_hosted r' \<noteq> refund_hosted r" if "r' \<in> set (c_refunds c)" for r'
    using no_refund_while_issuing [OF assms(2,3) _ _ that] spec_rejected by simp
  then have "refund_hosted r \<notin> refund_hosted ` set (c_refunds c)" by (rule not_in_keys)
  with spec_rejected assms(2) show ?thesis
    by (simp add: distinct_keys_def map_update_where give_back_row_def)
next
  case (spec_issued x h f t at cur)
  then have "face_ticket f \<notin> face_ticket ` set (c_faces c)" by (intro not_in_keys) simp
  then show ?thesis
    using assms(2) spec_issued by (simp add: distinct_keys_def map_update_where confirm_row_def)
next
  case (spec_class k)
  then have "class_id k \<notin> class_id ` set (c_classes c)" by (intro not_in_keys)
  with spec_class assms(2) show ?thesis by (simp add: distinct_keys_def)
next
  case (spec_place h)
  then have "hold_id h \<notin> hold_id ` set (c_holds c)" "hold_checkout h \<notin> hold_checkout ` set (c_holds c)"
    by (blast intro!: not_in_keys)+
  with spec_place assms(2) show ?thesis by (simp add: distinct_keys_def)
next
  case (spec_pay h k)
  then have "hosted_id k \<notin> hosted_id ` set (c_hosted c)" by (intro not_in_keys)
  with spec_pay assms(2) show ?thesis by (simp add: distinct_keys_def)
next
  case (spec_refund k r)
  then have "refund_hosted r \<notin> refund_hosted ` set (c_refunds c)"
    by (intro not_in_keys) (auto simp: c_handled_def)
  with spec_refund assms(2) show ?thesis by (simp add: distinct_keys_def)
next
  case (spec_cancellation_refund x r)
  then have "refund_hosted r \<notin> refund_hosted ` set (c_refunds c)" by (intro not_in_keys) blast
  with spec_cancellation_refund assms(2) show ?thesis by (simp add: distinct_keys_def)
qed (use assms(2) in \<open>simp_all add: distinct_keys_def map_update_where\<close>)

section \<open>Holds, payments, sales\<close>

lemma holds_ok_step:
  assumes "spec_step E (L, c) (L', c')" "holds_ok c"
  shows "holds_ok c'"
  using assms(1)
proof (cases rule: spec_step.cases)
  case (spec_end hs)
  with assms(2) show ?thesis
    by (auto simp: holds_ok_def ended_or_kept_def elim!: ends_in)
qed (use assms(2) in \<open>auto simp: holds_ok_def set_update_where\<close>)

text \<open>Holds keep their terms, so what hosted checkouts say of them stays true.\<close>

definition terms_kept :: "hold_row list \<Rightarrow> hold_row list \<Rightarrow> bool" where
  "terms_kept hs hs' \<longleftrightarrow> (\<forall>h \<in> set hs. \<exists>h' \<in> set hs'. same_terms h h')"

lemma terms_kept_ends: "ends_only hs hs' \<Longrightarrow> terms_kept hs hs'"
  unfolding terms_kept_def by (meson ended_or_kept_terms ends_in_left)

lemma terms_kept_update:
  assumes "\<And>h. same_terms h (f h)"
  shows "terms_kept hs (update_where P f hs)"
  unfolding terms_kept_def set_update_where
proof
  fix h assume "h \<in> set hs"
  then show "\<exists>h' \<in> (\<lambda>r. if P r then f r else r) ` set hs. same_terms h h'"
    using assms by (intro bexI [of _ "if P h then f h else h"]) auto
qed

lemma terms_kept_refl: "terms_kept hs (hs @ new)"
  unfolding terms_kept_def by (metis UnI1 same_terms_update(4) set_append)

lemma spec_step_terms_kept: "spec_step E (L, c) (L', c') \<Longrightarrow> terms_kept (c_holds c) (c_holds c')"
  by (erule spec_step.cases)
    (auto simp: terms_kept_ends terms_kept_refl terms_kept_refl [where new = "[]", simplified]
      intro: terms_kept_update)

lemma hosted_ok_kept:
  assumes "hosted_ok c" "terms_kept (c_holds c) (c_holds c')" "k \<in> set (c_hosted c)" "same_hosted k k'"
  shows "\<exists>h \<in> set (c_holds c'). hold_id h = hosted_hold k' \<and>
     hold_price h = Some (hosted_amount k') \<and> hold_asset h = Some (hosted_asset k')"
proof -
  obtain h where h: "h \<in> set (c_holds c)" "hold_id h = hosted_hold k"
    "hold_price h = Some (hosted_amount k)" "hold_asset h = Some (hosted_asset k)"
    using assms(1,3) unfolding hosted_ok_def by blast
  with assms(2) obtain h' where "h' \<in> set (c_holds c')" "same_terms h h'" unfolding terms_kept_def by blast
  with h assms(4) show ?thesis unfolding same_terms_def same_hosted_def by metis
qed

lemma same_hosted_refl [simp]: "same_hosted k k"
  by (simp add: same_hosted_def)

lemma hosted_ok_step:
  assumes step: "spec_step E (L, c) (L', c')" and ok: "hosted_ok c"
  shows "hosted_ok c'"
proof -
  note kept = hosted_ok_kept [OF ok spec_step_terms_kept [OF step]]
  have "\<exists>h \<in> set (c_holds c'). hold_id h = hosted_hold k' \<and> hold_price h = Some (hosted_amount k') \<and>
      hold_asset h = Some (hosted_asset k')" if "k' \<in> set (c_hosted c')" for k'
    using step
  proof (cases rule: spec_step.cases)
    case (spec_hosted ks)
    with that obtain k where "k \<in> set (c_hosted c)" "same_hosted k k'" by (auto elim: all2_in)
    then show ?thesis by (rule kept)
  next
    case (spec_pay h k)
    with that kept [of k' k'] show ?thesis by (cases "k' = k") auto
  qed (use that kept [of k' k'] in simp_all)
  then show ?thesis by (simp add: hosted_ok_def)
qed

text \<open>A sale's facts: its hosted checkout, and that it was verified paid.\<close>

lemma sales_ok_kept:
  assumes "x \<in> set (c_sales c)" "sales_ok c" "sale_hosted x' = sale_hosted x" "sale_hold x' = sale_hold x"
    and "list_all2 same_hosted (c_hosted c) ks" "set (c_verified c) \<subseteq> vs"
  shows "\<exists>k \<in> set ks. hosted_id k = sale_hosted x' \<and> hosted_hold k = sale_hold x' \<and>
    (\<exists>a \<in> vs. verifies k a)"
proof -
  obtain k a where k: "k \<in> set (c_hosted c)" "hosted_id k = sale_hosted x" "hosted_hold k = sale_hold x"
    and a: "a \<in> set (c_verified c)" "verifies k a"
    using assms(1,2) unfolding sales_ok_def by blast
  obtain k' where "k' \<in> set ks" "same_hosted k k'" using all2_in_left [OF assms(5) k(1)] .
  with k a assms(3,4,6) show ?thesis
    by (intro bexI [of _ k']) (auto simp: same_hosted_def verifies_def)
qed

lemma same_hosted_all [simp]: "list_all2 same_hosted ks ks"
  by (simp add: list_all2_same)

lemma sales_ok_same:
  assumes ok: "sales_ok c"
    and "list_all2 (\<lambda>x x'. sale_hosted x' = sale_hosted x \<and> sale_hold x' = sale_hold x) (c_sales c) xs"
    and "list_all2 same_hosted (c_hosted c) ks" "set (c_verified c) \<subseteq> vs"
  shows "\<forall>x \<in> set xs. \<exists>k \<in> set ks. hosted_id k = sale_hosted x \<and> hosted_hold k = sale_hold x \<and>
    (\<exists>a \<in> vs. verifies k a)"
proof
  fix x' assume "x' \<in> set xs"
  with assms(2) obtain x where "x \<in> set (c_sales c)" "sale_hosted x' = sale_hosted x"
    "sale_hold x' = sale_hold x" by (auto elim: all2_in)
  then show "\<exists>k \<in> set ks. hosted_id k = sale_hosted x' \<and> hosted_hold k = sale_hold x' \<and>
    (\<exists>a \<in> vs. verifies k a)" using sales_ok_kept [OF _ ok _ _ assms(3,4)] by blast
qed

lemma same_sales_refl [simp]:
  "list_all2 (\<lambda>x x'. sale_hosted x' = sale_hosted x \<and> sale_hold x' = sale_hold x) xs xs"
  by (simp add: list_all2_same)

lemma same_sales_completion [simp]:
  "list_all2 (\<lambda>x x'. sale_hosted x' = sale_hosted x \<and> sale_hold x' = sale_hold x) xs
     (update_where P (sale_completion d at) xs)"
  by (rule all2_update_where) simp_all

lemma same_sales_noted:
  "list_all2 sale_noted xs ys \<Longrightarrow>
   list_all2 (\<lambda>x x'. sale_hosted x' = sale_hosted x \<and> sale_hold x' = sale_hold x) xs ys"
  by (erule list_all2_mono) (simp add: sale_noted_def)

lemma sales_ok_step:
  assumes "spec_step E (L, c) (L', c')" and ok: "sales_ok c"
  shows "sales_ok c'"
proof -
  note same = sales_ok_same [OF ok]
  note sales = same [OF _ same_hosted_all subset_refl]
  show ?thesis
    using assms(1)
  proof (cases rule: spec_step.cases)
    case (spec_hosted ks)
    then show ?thesis using same [OF same_sales_refl _ subset_refl] by (simp add: sales_ok_def)
  next
    case (spec_note xs)
    then show ?thesis using sales [OF same_sales_noted] by (simp add: sales_ok_def)
  next
    case (spec_verify vs)
    then show ?thesis using same [OF same_sales_refl same_hosted_all, of "set (c_verified c) \<union> set vs"]
      by (simp add: sales_ok_def)
  next
    case (spec_pay h k)
    then show ?thesis using ok by (auto simp: sales_ok_def)
  next
    case (spec_take h k x a)
    then show ?thesis using ok by (auto simp: sales_ok_def)
  qed (use ok sales [OF same_sales_completion] in \<open>simp_all add: sales_ok_def\<close>)
qed

section \<open>Holds and the sales standing for them\<close>

lemma hold_of_sale:
  assumes "sales_ok c" "hosted_ok c" "x \<in> set (c_sales c)"
  obtains h where "h \<in> set (c_holds c)" "hold_id h = sale_hold x"
  using assms unfolding sales_ok_def hosted_ok_def by metis

lemma issuing_sale:
  assumes "distinct_keys c" "holds_match c" "x \<in> set (c_sales c)" "sale_status x = SaleIssuing"
    and "h \<in> set (c_holds c)" "hold_id h = sale_hold x"
  shows "hold_status h = Issuing \<and> active_sales (c_sales c) (sale_hold x) = [SaleIssuing]"
proof -
  have "SaleIssuing \<in> set (active_sales (c_sales c) (sale_hold x))"
    using active_sales_member [OF assms(3) refl] assms(4) by simp
  moreover have "sales_match (hold_status h) (active_sales (c_sales c) (sale_hold x))"
    using assms(2,5,6) unfolding holds_match_def by metis
  ultimately show ?thesis by (cases "hold_status h") auto
qed

lemma match_all2:
  assumes "list_all2 (\<lambda>x x'. sale_hold x' = sale_hold x \<and> sale_status x' = sale_status x) (c_sales c) xs"
    and "holds_match c"
  shows "holds_match (c\<lparr>c_sales := xs\<rparr>)"
  using assms by (simp add: holds_match_def active_sales_cong)

text \<open>A sale completes: its hold and its active sales move together.\<close>

lemma match_complete:
  assumes keys: "distinct_keys c" and match: "holds_match c" and ok: "sales_ok c" "hosted_ok c"
    and x: "x \<in> set (c_sales c)" "sale_status x = SaleIssuing"
    and h': "h' \<in> set (update_where (\<lambda>y. hold_id y = sale_hold x \<and> P y) f (c_holds c))"
    and P: "\<And>y. hold_status y = Issuing \<Longrightarrow> P y"
    and f: "\<And>y. hold_id (f y) = hold_id y"
    and d: "\<And>y. sales_match (hold_status (f y)) (case d of CompleteIssued t cur \<Rightarrow> [SaleIssued]
              | CompleteRejected e \<Rightarrow> [] | CompleteFailed \<Rightarrow> [SaleFailed])"
  shows "sales_match (hold_status h')
    (active_sales (update_where (\<lambda>y. sale_id y = sale_id x) (sale_completion d at) (c_sales c)) (hold_id h'))"
proof -
  have ids: "distinct (map sale_id (c_sales c))" using keys by (simp add: distinct_keys_def)
  obtain h where h: "h \<in> set (c_holds c)" "h' = (if hold_id h = sale_hold x \<and> P h then f h else h)"
    using h' by (auto simp: set_update_where)
  show ?thesis
  proof (cases "hold_id h = sale_hold x")
    case True
    have st: "hold_status h = Issuing" "active_sales (c_sales c) (sale_hold x) = [SaleIssuing]"
      using issuing_sale [OF keys match x h(1) True] by simp_all
    with True h(2) P have "h' = f h" by simp
    then show ?thesis using True active_sales_complete [OF ids x st(2)] d f by simp
  next
    case False
    then have "h' = h" using h(2) by simp
    then show ?thesis
      using False active_sales_other [OF ids x(1)] match h(1) by (simp add: holds_match_def)
  qed
qed

lemma holds_match_step:
  assumes "spec_step E (L, c) (L', c')" and match: "holds_match c" and keys: "distinct_keys c"
    and ok: "sales_ok c" "hosted_ok c"
  shows "holds_match c'"
  using assms(1)
proof (cases rule: spec_step.cases)
  case (spec_end hs)
  have "sales_match (hold_status h') (active_sales (c_sales c) (hold_id h'))" if new: "h' \<in> set hs" for h'
  proof -
    obtain h where "h \<in> set (c_holds c)" "ended_or_kept h h'" using ends_in [OF spec_end(3) new] .
    moreover from this have "hold_id h' = hold_id h" by (simp add: ended_or_kept_def same_terms_def)
    ultimately show ?thesis using match by (fastforce simp: holds_match_def ended_or_kept_def)
  qed
  with spec_end show ?thesis by (simp add: holds_match_def)
next
  case (spec_note xs)
  then have "list_all2 (\<lambda>x x'. sale_hold x' = sale_hold x \<and> sale_status x' = sale_status x) (c_sales c) xs"
    by (auto elim!: list_all2_mono simp: sale_noted_def)
  with match_all2 match spec_note show ?thesis by blast
next
  case (spec_place h)
  have "sale_hold x \<noteq> hold_id h" if x: "x \<in> set (c_sales c)" for x
    using hold_of_sale [OF ok x] spec_place(6) by metis
  then have "active_sales (c_sales c) (hold_id h) = []" by (intro active_sales_none)
  with spec_place match show ?thesis by (auto simp: holds_match_def)
next
  case (spec_take h k x a)
  have "sales_match (hold_status h') (active_sales (c_sales c @ [x]) (hold_id h'))"
    if h': "h' \<in> set (update_where (\<lambda>y. hold_id y = hold_id h) take_row (c_holds c))" for h'
  proof -
    obtain y where y: "y \<in> set (c_holds c)" "h' = (if hold_id y = hold_id h then take_row y else y)"
      using h' by (auto simp: set_update_where)
    have my: "sales_match (hold_status y) (active_sales (c_sales c) (hold_id y))"
      using match y(1) by (simp add: holds_match_def)
    show ?thesis
    proof (cases "hold_id y = hold_id h")
      case True
      then have "y = h" using distinct_key_eq [of hold_id, OF _ y(1)] spec_take keys
        by (simp add: distinct_keys_def)
      then have "active_sales (c_sales c) (hold_id h) = []" using my spec_take by auto
      with y True spec_take show ?thesis by (simp add: active_sales_append)
    next
      case False
      with y my spec_take show ?thesis by (simp add: active_sales_append)
    qed
  qed
  with spec_take show ?thesis by (simp add: holds_match_def)
next
  case (spec_issued x h f t at cur)
  then show ?thesis
    using match_complete [OF keys match ok spec_issued(3,4), where P = "\<lambda>_. True" and f = "confirm_row at"
        and d = "CompleteIssued t cur"] by (simp add: holds_match_def)
next
  case (spec_rejected x r at code)
  then show ?thesis
    using match_complete [OF keys match ok spec_rejected(3,4), where P = "\<lambda>y. hold_status y = Issuing"
        and f = "give_back_row at" and d = "CompleteRejected code"] by (simp add: holds_match_def)
next
  case (spec_failed x at)
  have "sales_match (hold_status h) (active_sales (update_where (\<lambda>y. sale_id y = sale_id x)
      (sale_completion CompleteFailed at) (c_sales c)) (hold_id h))" if h: "h \<in> set (c_holds c)" for h
  proof (cases "hold_id h = sale_hold x")
    case True
    have ids: "distinct (map sale_id (c_sales c))" using keys by (simp add: distinct_keys_def)
    have "hold_status h = Issuing \<and> active_sales (c_sales c) (sale_hold x) = [SaleIssuing]"
      using issuing_sale [OF keys match spec_failed(3,4) h True] .
    with True active_sales_complete [OF ids spec_failed(3,4)] show ?thesis by simp
  next
    case False
    then show ?thesis
      using active_sales_other [OF _ spec_failed(3)] keys match h
      by (simp add: holds_match_def distinct_keys_def)
  qed
  with spec_failed show ?thesis by (simp add: holds_match_def)
qed (use match in \<open>simp_all add: holds_match_def\<close>)

section \<open>Refunds and face values\<close>

text \<open>A sale that is over stays as it ended.\<close>

definition sale_evolves :: "sale_row \<Rightarrow> sale_row \<Rightarrow> bool" where
  "sale_evolves x x' \<longleftrightarrow> sale_id x' = sale_id x \<and> sale_hosted x' = sale_hosted x \<and> sale_hold x' = sale_hold x \<and>
     sale_holder x' = sale_holder x \<and>
     (sale_status x \<noteq> SaleIssuing \<longrightarrow> sale_status x' = sale_status x \<and> sale_ticket x' = sale_ticket x)"

lemma sale_evolves_refl [simp]: "sale_evolves x x"
  by (simp add: sale_evolves_def)

lemma sale_evolves_noted: "sale_noted x x' \<Longrightarrow> sale_evolves x x'"
  by (auto simp: sale_noted_def sale_evolves_def)

lemma sale_evolves_complete:
  assumes "distinct_keys c" "x \<in> set (c_sales c)" "sale_status x = SaleIssuing"
  shows "list_all2 sale_evolves (c_sales c)
    (update_where (\<lambda>y. sale_id y = sale_id x) (sale_completion d at) (c_sales c))"
proof (rule all2_update_where)
  fix y assume "y \<in> set (c_sales c)" "sale_id y = sale_id x"
  then have "y = x"
    using assms distinct_key_eq [of sale_id "c_sales c" y x] by (simp add: distinct_keys_def)
  with assms(3) show "sale_evolves y (sale_completion d at y)" by (simp add: sale_evolves_def)
qed simp

text \<open>Every transition keeps the sales there are, and adds at most one.\<close>

lemma spec_step_sales:
  assumes "spec_step E (L, c) (L', c')" "distinct_keys c"
  shows "\<exists>xs new. c_sales c' = xs @ new \<and> list_all2 sale_evolves (c_sales c) xs \<and>
    (\<forall>x \<in> set new. sale_status x = SaleIssuing \<and> \<not> c_handled c (sale_hosted x))"
proof -
  have complete: ?thesis if "x \<in> set (c_sales c)" "sale_status x = SaleIssuing"
    and "c_sales c' = update_where (\<lambda>y. sale_id y = sale_id x) (sale_completion d at) (c_sales c)" for x d at
    using sale_evolves_complete [OF assms(2) that(1,2)] that(3) by (metis append_Nil2 empty_iff empty_set)
  have refl: "list_all2 sale_evolves (c_sales c) (c_sales c)" by (simp add: list_all2_same)
  have none: ?thesis if "c_sales c' = c_sales c"
    using refl that by (intro exI [of _ "c_sales c"] exI [of _ "[]"]) simp
  show ?thesis
    using assms(1)
  proof (cases rule: spec_step.cases)
    case (spec_note xs)
    then have "list_all2 sale_evolves (c_sales c) xs"
      by (auto elim!: list_all2_mono intro: sale_evolves_noted)
    with spec_note show ?thesis by (intro exI [of _ xs] exI [of _ "[]"]) simp
  next
    case (spec_take h k x a)
    with refl show ?thesis by (intro exI [of _ "c_sales c"] exI [of _ "[x]"]) simp
  next
    case (spec_issued x h f t at cur)
    then show ?thesis by (intro complete) simp_all
  next
    case (spec_rejected x r at code)
    then show ?thesis by (intro complete) simp_all
  next
    case (spec_failed x at)
    then show ?thesis by (intro complete) simp_all
  qed (rule none, simp)+
qed

lemma refund_stands_evolves:
  assumes "list_all2 sale_evolves xs ys" "refund_stands xs r"
    and "\<And>x. x \<in> set new \<Longrightarrow> sale_hosted x \<noteq> refund_hosted r"
  shows "refund_stands (ys @ new) r"
proof -
  have bwd: "\<exists>x \<in> set xs. sale_evolves x y" if "y \<in> set ys" for y using assms(1) that by (auto elim: all2_in)
  have fwd: "\<exists>y \<in> set ys. sale_evolves x y" if "x \<in> set xs" for x
    using assms(1) that by (auto elim: all2_in_left)
  show ?thesis
  proof (cases "refund_reason r")
    case IssuanceRejected
    then obtain x where x: "x \<in> set xs" "sale_hosted x = refund_hosted r" "sale_status x = SaleRejected"
      using assms(2) by (auto simp: refund_stands_def)
    then obtain y where "y \<in> set ys" "sale_evolves x y" using fwd by blast
    with x IssuanceRejected show ?thesis
      by (auto simp: refund_stands_def sale_evolves_def intro!: bexI [of _ y])
  next
    case EventCancelled
    then obtain x where x: "x \<in> set xs" "sale_hosted x = refund_hosted r"
      "sale_status x = SaleIssued \<or> sale_status x = SaleFailed" "sale_ticket x = refund_ticket r"
      using assms(2) by (auto simp: refund_stands_def)
    then obtain y where "y \<in> set ys" "sale_evolves x y" using fwd by blast
    with x EventCancelled show ?thesis
      by (auto simp: refund_stands_def sale_evolves_def intro!: bexI [of _ y])
  qed (use assms(2,3) bwd in \<open>fastforce simp: refund_stands_def sale_evolves_def\<close>)+
qed

lemma refund_hosted_kept:
  assumes "spec_step E (L, c) (L', c')" "\<exists>k \<in> set (c_hosted c). hosted_id k = i"
  shows "\<exists>k \<in> set (c_hosted c'). hosted_id k = i"
  using assms(1)
proof (cases rule: spec_step.cases)
  case (spec_hosted ks)
  obtain k where k: "k \<in> set (c_hosted c)" "hosted_id k = i" using assms(2) by blast
  obtain k' where "k' \<in> set ks" "same_hosted k k'" using all2_in_left [OF spec_hosted(3) k(1)] .
  with spec_hosted k show ?thesis by (auto simp: same_hosted_def)
qed (use assms(2) in auto)

lemma spec_step_refunds:
  assumes "spec_step E (L, c) (L', c')"
  shows "\<exists>new. c_refunds c' = c_refunds c @ new"
  using assms by (cases rule: spec_step.cases) auto

lemma refunds_ok_step:
  assumes step: "spec_step E (L, c) (L', c')" and ok: "refunds_ok c" and keys: "distinct_keys c"
    and sales: "sales_ok c"
  shows "refunds_ok c'"
proof -
  obtain xs new where c': "c_sales c' = xs @ new" and evolves: "list_all2 sale_evolves (c_sales c) xs"
    and fresh: "\<forall>x \<in> set new. sale_status x = SaleIssuing \<and> \<not> c_handled c (sale_hosted x)"
    using spec_step_sales [OF step keys] by blast
  have old: "(\<exists>k \<in> set (c_hosted c'). hosted_id k = refund_hosted r) \<and> refund_stands (c_sales c') r"
    if r: "r \<in> set (c_refunds c)" for r
  proof -
    have "sale_hosted x \<noteq> refund_hosted r" if "x \<in> set new" for x
      using fresh that r unfolding c_handled_def by metis
    then have "refund_stands (xs @ new) r"
      using refund_stands_evolves [OF evolves] ok r by (simp add: refunds_ok_def)
    moreover have "\<exists>k \<in> set (c_hosted c'). hosted_id k = refund_hosted r"
      using refund_hosted_kept [OF step] ok r by (simp add: refunds_ok_def)
    ultimately show ?thesis by (simp add: c')
  qed
  have hosted: "\<exists>k \<in> set (c_hosted c). hosted_id k = sale_hosted x" if "x \<in> set (c_sales c)" for x
    using sales that unfolding sales_ok_def by blast
  show ?thesis
    using step
  proof (cases rule: spec_step.cases)
    case (spec_refund k r)
    then have "refund_stands (c_sales c) r"
      by (auto simp: refund_stands_def payment_refund_def c_handled_def split: refund_reason.splits)
    with spec_refund old show ?thesis by (auto simp: refunds_ok_def)
  next
    case (spec_rejected x r at code)
    have "refund_stands (c_sales c') r"
      using spec_rejected
      by (auto simp: refund_stands_def set_update_where
          intro!: bexI [of _ "sale_completion (CompleteRejected code) at x"])
    with spec_rejected hosted old show ?thesis by (auto simp: refunds_ok_def)
  next
    case (spec_cancellation_refund x r)
    then have "refund_stands (c_sales c) r" by (auto simp: refund_stands_def)
    with spec_cancellation_refund hosted old show ?thesis by (auto simp: refunds_ok_def)
  qed (use old in \<open>auto simp: refunds_ok_def\<close>)
qed

lemma faces_ok_step:
  assumes step: "spec_step E (L, c) (L', c')" and ok: "faces_ok c" and keys: "distinct_keys c"
  shows "faces_ok c'"
proof -
  obtain xs new where c': "c_sales c' = xs @ new" and evolves: "list_all2 sale_evolves (c_sales c) xs"
    and fresh: "\<forall>x \<in> set new. sale_status x = SaleIssuing \<and> \<not> c_handled c (sale_hosted x)"
    using spec_step_sales [OF step keys] by blast
  let ?face = "\<lambda>f. \<exists>x \<in> set (c_sales c'). \<exists>h \<in> set (c_holds c').
       sale_id x = face_sale f \<and> sale_status x = SaleIssued \<and> sale_ticket x = Some (face_ticket f) \<and>
       hold_id h = sale_hold x \<and> hold_price h = Some (face_amount f) \<and> hold_asset h = Some (face_asset f)"
  have old: "?face f" if f: "f \<in> set (c_faces c)" for f
  proof -
    obtain x h where x: "x \<in> set (c_sales c)" "sale_id x = face_sale f" "sale_status x = SaleIssued"
      "sale_ticket x = Some (face_ticket f)" and h: "h \<in> set (c_holds c)" "hold_id h = sale_hold x"
      "hold_price h = Some (face_amount f)" "hold_asset h = Some (face_asset f)"
      using ok f unfolding faces_ok_def by blast
    obtain x' where "x' \<in> set xs" "sale_evolves x x'" using all2_in_left [OF evolves x(1)] .
    moreover obtain h' where "h' \<in> set (c_holds c')" "same_terms h h'"
      using spec_step_terms_kept [OF step] h(1) unfolding terms_kept_def by blast
    ultimately show ?thesis
      using x h by (intro bexI [of _ x'] bexI [of _ h']) (auto simp: c' sale_evolves_def same_terms_def)
  qed
  have issued: "\<exists>f \<in> set (c_faces c). face_sale f = sale_id y"
    if y: "y \<in> set (c_sales c)" "sale_status y = SaleIssued" for y
    using ok y by (simp add: faces_ok_def)
  have keep: "(\<forall>f \<in> set (c_faces c). ?face f) \<Longrightarrow> c_faces c' = c_faces c \<Longrightarrow>
      (\<And>x'. x' \<in> set (c_sales c') \<Longrightarrow> sale_status x' = SaleIssued \<Longrightarrow>
         \<exists>x \<in> set (c_sales c). sale_status x = SaleIssued \<and> sale_id x' = sale_id x) \<Longrightarrow> ?thesis"
    using issued unfolding faces_ok_def by metis
  have unchanged: ?thesis if "c_sales c' = c_sales c" "c_faces c' = c_faces c"
    using old that by (intro keep) auto
  show ?thesis
    using step
  proof (cases rule: spec_step.cases)
    case (spec_issued x h f t at cur)
    have face: "?face f"
      using spec_issued
      by (auto simp: set_update_where confirm_row_def
          intro!: bexI [of _ "sale_completion (CompleteIssued t cur) at x"] bexI [of _ "confirm_row at h"])
    have "\<exists>g \<in> set (c_faces c'). face_sale g = sale_id y" if "y \<in> set (c_sales c')" "sale_status y = SaleIssued" for y
      using that spec_issued issued by (auto simp: set_update_where split: if_splits)
    then show ?thesis using face old spec_issued by (simp add: faces_ok_def)
  next
    case (spec_note ys)
    have "\<exists>x \<in> set (c_sales c). sale_status x = SaleIssued \<and> sale_id x' = sale_id x"
      if x': "x' \<in> set ys" "sale_status x' = SaleIssued" for x'
    proof -
      obtain x where "x \<in> set (c_sales c)" "sale_noted x x'" using all2_in [OF spec_note(3) x'(1)] .
      with x'(2) show ?thesis by (intro bexI [of _ x]) (auto simp: sale_noted_def)
    qed
    then show ?thesis using old spec_note by (intro keep) simp_all
  next
    case (spec_rejected x r at code)
    then show ?thesis using old by (intro keep) (auto simp: set_update_where)
  next
    case (spec_failed x at)
    then show ?thesis using old by (intro keep) (auto simp: set_update_where)
  next
    case (spec_take h k x a)
    have "\<exists>y \<in> set (c_sales c). sale_status y = SaleIssued \<and> sale_id x' = sale_id y"
      if "x' \<in> set (c_sales c')" "sale_status x' = SaleIssued" for x'
      using that spec_take by (intro bexI [of _ x']) auto
    then show ?thesis using old spec_take by (intro keep) simp_all
  qed (rule unchanged; simp)+
qed

section \<open>Classes, grants, what is known\<close>

lemma classes_ok_step:
  assumes "spec_step E (L, c) (L', c')" "classes_ok c"
  shows "classes_ok c'"
  using assms(1) by (cases rule: spec_step.cases) (use assms(2) in \<open>auto simp: classes_ok_def\<close>)

lemma grants_ok_step:
  assumes "spec_step E (L, c) (L', c')" "grants_ok c"
  shows "grants_ok c'"
  using assms(1)
proof (cases rule: spec_step.cases)
  case (spec_grants gs)
  have ids: "map granted_id gs = map granted_id (c_grants c)"
    using spec_grants(3) by (rule map_all2) (simp add: grant_moves_def same_grant_def)
  have "granted_id g < c_next_grant c \<and> bears_seat g" if g: "g \<in> set gs" for g
  proof -
    obtain g0 where g0: "g0 \<in> set (c_grants c)" "grant_moves g0 g"
      using spec_grants(3) g by (auto elim: all2_in)
    then have "granted_id g0 < c_next_grant c" "bears_seat g0" using assms(2) by (simp_all add: grants_ok_def)
    with g0(2) show ?thesis by (auto simp: grant_moves_def same_grant_def bears_seat_def)
  qed
  with ids spec_grants assms(2) show ?thesis by (simp add: grants_ok_def)
next
  case (spec_reserve g)
  have "granted_id g \<notin> granted_id ` set (c_grants c)"
    using spec_reserve assms(2) by (intro not_in_keys) (force simp: grants_ok_def)
  with spec_reserve assms(2) show ?thesis by (auto simp: grants_ok_def less_SucI)
next
  case (spec_forget P)
  with assms(2) show ?thesis by (simp add: grants_ok_def distinct_map_filter)
qed (use assms(2) in \<open>simp_all add: grants_ok_def\<close>)

text \<open>Classes stay, by identifier and quota.\<close>

lemma spec_step_classes:
  assumes "spec_step E (L, c) (L', c')" "k \<in> set (c_classes c)"
  shows "\<exists>k' \<in> set (c_classes c'). class_id k' = class_id k \<and> quota k' = quota k"
  using assms(1)
proof (cases rule: spec_step.cases)
  case (spec_prices ks)
  obtain k' where "k' \<in> set ks" "class_id k' = class_id k \<and> quota k' = quota k"
    using all2_in_left [OF spec_prices(3) assms(2)] .
  with spec_prices show ?thesis by auto
qed (use assms(2) in auto)

lemma set_capacity_event:
  "getEvent (set_capacity e cap L) i = (if i = e then map_sum id (\<lambda>ev. ev\<lparr>maxCapacity := Some cap\<rparr>) (getEvent L e)
     else getEvent L i)"
  by (cases "getEvent L e") (simp_all add: set_capacity_def)

lemma set_capacity_rest [simp]:
  "inFlight (set_capacity e cap L) = inFlight L" "landedLate (set_capacity e cap L) = landedLate L"
  by (simp_all add: set_capacity_def split: sum.splits)

lemma spec_step_ledger:
  assumes "spec_step E (L, c) (L', c')" "getEvent L e = Inr ev"
  shows "\<exists>ev'. getEvent L' e = Inr ev'"
  using assms(1)
proof (cases rule: spec_step.cases)
  case spec_ledger
  then show ?thesis using assms(2) by (auto simp: ledger_moves_def)
qed (use assms(2) in \<open>auto simp: land_late_def leave_in_flight_def set_capacity_event\<close>)

text \<open>Where the holds and grants of the new state come from.\<close>

lemma spec_step_holds_from:
  assumes "spec_step E (L, c) (L', c')" "h' \<in> set (c_holds c')"
  shows "(\<exists>h \<in> set (c_holds c). same_terms h h') \<or>
    (event_room L c (hold_event h') \<and> class_room c (hold_class h') \<and>
     normal_position E (hold_position h') \<and> hold_status h' = Outstanding \<and> L' = L \<and>
     c_classes c' = c_classes c)"
proof -
  have old: ?thesis if "h' \<in> set (c_holds c)" using that same_terms_update(4) by blast
  have updated: ?thesis
    if rows: "c_holds c' = update_where P f (c_holds c)" and terms: "\<And>h. same_terms h (f h)" for P f
  proof -
    obtain h where "h \<in> set (c_holds c)" "h' = (if P h then f h else h)"
      using assms(2) rows by (auto simp: set_update_where)
    then show ?thesis using terms same_terms_update(4) by metis
  qed
  show ?thesis
    using assms(1)
  proof (cases rule: spec_step.cases)
    case (spec_end hs)
    with assms(2) obtain h where "h \<in> set (c_holds c)" "ended_or_kept h h'" by (auto elim: ends_in)
    then show ?thesis using ended_or_kept_terms by blast
  next
    case (spec_place h)
    then show ?thesis using assms(2) old by (cases "h' = h") auto
  next
    case (spec_take h k x a)
    then show ?thesis by (intro updated) auto
  next
    case (spec_issued x h f t at cur)
    then show ?thesis by (intro updated) auto
  next
    case (spec_rejected x r at code)
    then show ?thesis by (intro updated) auto
  qed (rule old, use assms(2) in simp)+
qed

lemma spec_step_grants_from:
  assumes "spec_step E (L, c) (L', c')" "g' \<in> set (c_grants c')"
  shows "(\<exists>g \<in> set (c_grants c). same_grant g g') \<or>
    (grant_room L c (granted_event g') \<and> class_room c (granted_class g') \<and> L' = L \<and>
     c_classes c' = c_classes c)"
proof -
  have refl: "same_grant g g" for g by (simp add: same_grant_def)
  show ?thesis
    using assms(1)
  proof (cases rule: spec_step.cases)
    case (spec_grants gs)
    with assms(2) obtain g where "g \<in> set (c_grants c)" "grant_moves g g'" by (auto elim: all2_in)
    then show ?thesis by (auto simp: grant_moves_def)
  qed (use assms(2) refl in auto)
qed

lemma all_known_step:
  assumes step: "spec_step E (L, c) (L', c')" and ok: "all_known L c"
  shows "all_known L' c'"
proof -
  have kclass: "\<exists>k' \<in> set (c_classes c'). class_id k' = i" if "\<exists>k \<in> set (c_classes c). class_id k = i" for i
    using that spec_step_classes [OF step] by metis
  have kevent: "\<exists>ev. getEvent L' e = Inr ev" if "\<exists>ev. getEvent L e = Inr ev" for e
    using that spec_step_ledger [OF step] by blast
  have "(\<exists>ev. getEvent L (hold_event h) = Inr ev) \<and> (\<exists>k \<in> set (c_classes c). class_id k = hold_class h)"
    if h: "h \<in> set (c_holds c')" for h
    using spec_step_holds_from [OF step h]
  proof
    assume "\<exists>g \<in> set (c_holds c). same_terms g h"
    then show ?thesis using ok unfolding all_known_def same_terms_def by metis
  next
    assume "event_room L c (hold_event h) \<and> class_room c (hold_class h) \<and>
      normal_position E (hold_position h) \<and> hold_status h = Outstanding \<and> L' = L \<and> c_classes c' = c_classes c"
    then show ?thesis unfolding event_room_def class_room_def by blast
  qed
  moreover have "(\<exists>ev. getEvent L (granted_event g) = Inr ev) \<and>
      (\<exists>k \<in> set (c_classes c). class_id k = granted_class g)" if g: "g \<in> set (c_grants c')" for g
    using spec_step_grants_from [OF step g]
  proof
    assume "\<exists>g' \<in> set (c_grants c). same_grant g' g"
    then show ?thesis using ok unfolding all_known_def same_grant_def by metis
  next
    assume "grant_room L c (granted_event g) \<and> class_room c (granted_class g) \<and> L' = L \<and>
      c_classes c' = c_classes c"
    then show ?thesis unfolding grant_room_def class_room_def by blast
  qed
  ultimately show ?thesis using kclass kevent unfolding all_known_def by blast
qed

lemma positions_ok_step:
  assumes step: "spec_step E (L, c) (L', c')" and ok: "positions_ok E c"
  shows "positions_ok E c'"
proof -
  have "normal_position E (hold_position h)" if h: "h \<in> set (c_holds c')" for h
    using spec_step_holds_from [OF step h] ok by (auto simp: positions_ok_def same_terms_def)
  moreover have "normal_position E (checkout_position k)" if k: "k \<in> set (c_checkouts c')" for k
    using step
  proof (cases rule: spec_step.cases)
    case (spec_checkouts ks)
    with k show ?thesis by simp
  qed (use k ok in \<open>simp_all add: positions_ok_def\<close>)
  ultimately show ?thesis by (simp add: positions_ok_def)
qed

end
