(* ===== verification/SalesBounds.thy ===== *)
theory SalesBounds
  imports SalesInvariants
begin

text \<open>
  The bounds: capacity, class quota and seats.  A transition either adds nothing to what
  stands against a key, or adds one where the guards found room; the locale \<open>admission\<close>
  states it for any key, and capacity and quota follow from its two interpretations.
\<close>

section \<open>One more, or no more\<close>

context admission
begin

lemma load_step:
  assumes step: "spec_step E (L, c) (L', c')" and keys: "distinct_keys c" and match: "holds_match c"
  shows "ld k (c_holds c') (c_grants c') \<le> ld k (c_holds c) (c_grants c) \<or>
    (ld k (c_holds c') (c_grants c') \<le> Suc (ld k (c_holds c) (c_grants c)) \<and> L' = L \<and>
     c_classes c' = c_classes c \<and>
     ((\<exists>h. of_hold h = k \<and> event_room L c (hold_event h) \<and> class_room c (hold_class h)) \<or>
      (\<exists>g. of_grant g = k \<and> grant_room L c (granted_event g) \<and> class_room c (granted_class g))))"
  using step
proof (cases rule: spec_step.cases)
  case (spec_end hs)
  then show ?thesis using load_ends by simp
next
  case (spec_place h)
  then show ?thesis by (cases "of_hold h = k") (auto simp: load_place)
next
  case (spec_take h k' x a)
  have ids: "distinct (map hold_id (c_holds c))" using keys by (simp add: distinct_keys_def)
  note take = load_take [OF ids spec_take(3), of k "c_grants c"]
  show ?thesis
  proof (cases "of_hold h = k \<and> \<not> live h")
    case True
    then have "hold_status h \<noteq> Outstanding" by (auto simp: live_def unissued_def)
    with spec_take True take show ?thesis by auto
  next
    case False
    with spec_take take show ?thesis by auto
  qed
next
  case (spec_issued x h f t at cur)
  have "live y" if "y \<in> set (c_holds c)" "hold_id y = sale_hold x" for y
    using issuing_sale [OF keys match spec_issued(3,4) that] by (simp add: live_def unissued_def)
  then have "ld k (update_where (\<lambda>y. hold_id y = sale_hold x) (confirm_row at) (c_holds c)) (c_grants c) \<le>
      ld k (c_holds c) (c_grants c)"
    by (intro load_update) simp
  with spec_issued show ?thesis by simp
next
  case (spec_rejected x r at code)
  have "ld k (update_where (\<lambda>y. hold_id y = sale_hold x \<and> hold_status y = Issuing) (give_back_row at)
      (c_holds c)) (c_grants c) \<le> ld k (c_holds c) (c_grants c)"
    by (intro load_update) (simp add: live_def unissued_def)
  with spec_rejected show ?thesis by simp
next
  case (spec_reserve g)
  then show ?thesis by (cases "of_grant g = k") (auto simp: load_reserve)
next
  case (spec_grants gs)
  then show ?thesis using load_grants by simp
next
  case (spec_forget P)
  then show ?thesis using load_forget by simp
qed simp_all

end

lemma event_room_grant: "event_room L c e \<Longrightarrow> grant_room L c e"
  by (auto simp: event_room_def grant_room_def)

lemma event_load_step:
  assumes "spec_step E (L, c) (L', c')" "distinct_keys c" "holds_match c"
  shows "event_load e c' \<le> event_load e c \<or>
    (event_load e c' \<le> Suc (event_load e c) \<and> L' = L \<and> grant_room L c e)"
  using ev.load_step [OF assms, of e] event_room_grant unfolding event_load_def by blast

lemma class_load_step:
  assumes "spec_step E (L, c) (L', c')" "distinct_keys c" "holds_match c"
  shows "class_load k c' \<le> class_load k c \<or>
    (class_load k c' \<le> Suc (class_load k c) \<and> c_classes c' = c_classes c \<and> class_room c k)"
  using cl.load_step [OF assms, of k] unfolding class_load_def by blast

section \<open>Capacity\<close>

lemma load_unknown:
  assumes "all_known L c" "\<nexists>ev. getEvent L e = Inr ev"
  shows "event_load e c = 0"
  using assms unfolding event_load_def all_known_def by (intro ev.load_fresh) blast+

lemma capacity_ok_step:
  assumes step: "spec_step E (L, c) (L', c')" and ok: "capacity_ok L c" and keys: "distinct_keys c"
    and match: "holds_match c" and known: "all_known L c"
  shows "capacity_ok L' c'"
  unfolding capacity_ok_def
proof (intro allI impI)
  fix e ev' cap
  assume ev': "getEvent L' e = Inr ev'" "ev_status ev' = Active" "maxCapacity ev' = Some cap"
    and late: "\<not> fell_late L' e cap"
  have unchanged: "int (event_load e c') \<le> max 0 cap" if "L' = L"
  proof -
    have bound: "int (event_load e c) \<le> max 0 cap" using ok ev' late that unfolding capacity_ok_def by blast
    show ?thesis
      using event_load_step [OF step keys match, of e]
    proof
      assume "event_load e c' \<le> Suc (event_load e c) \<and> L' = L \<and> grant_room L c e"
      with ev' have "int (event_load e c) < cap" "event_load e c' \<le> Suc (event_load e c)"
        by (auto simp: grant_room_def)
      then show ?thesis by simp
    qed (use bound in simp)
  qed
  show "int (event_load e c') \<le> max 0 cap"
    using step
  proof (cases rule: spec_step.cases)
    case spec_ledger
    show ?thesis
    proof (cases "\<exists>ev. getEvent L e = Inr ev")
      case True
      then obtain ev where ev: "getEvent L e = Inr ev" "ev_status ev = Active"
        "capacity_kept (maxCapacity ev) (Some cap)"
        using spec_ledger ev' unfolding ledger_moves_def by force
      then obtain a where a: "maxCapacity ev = Some a" "a \<le> cap"
        by (auto simp: capacity_kept_def split: option.splits)
      have "\<not> fell_late L e a"
        using late spec_ledger a(2) by (fastforce simp: fell_late_def ledger_moves_def list_ex_iff)
      with ok ev a spec_ledger show ?thesis by (fastforce simp: capacity_ok_def)
    next
      case False
      then show ?thesis using load_unknown [OF known] spec_ledger by simp
    qed
  next
    case (spec_decrease e0 cap0)
    show ?thesis
    proof (cases "e = e0")
      case True
      with spec_decrease ev' show ?thesis by (cases "getEvent L e") (auto simp: set_capacity_event)
    next
      case False
      with spec_decrease ev' late show ?thesis
        using ok by (simp add: capacity_ok_def set_capacity_event fell_late_def)
    qed
  next
    case (spec_flight e0 cap0)
    with ok ev' late show ?thesis by (simp add: capacity_ok_def leave_in_flight_def fell_late_def)
  next
    case (spec_late e0 cap0)
    show ?thesis
    proof (cases "e = e0")
      case True
      with spec_late ev' late show ?thesis
        by (cases "getEvent L e") (auto simp: land_late_def set_capacity_event fell_late_def)
    next
      case False
      with spec_late ev' late show ?thesis
        using ok by (simp add: capacity_ok_def land_late_def set_capacity_event fell_late_def)
    qed
  qed (rule unchanged, simp)+
qed

section \<open>Quota\<close>

lemma load_unknown_class:
  assumes "all_known L c" "\<And>k. k \<in> set (c_classes c) \<Longrightarrow> class_id k \<noteq> i"
  shows "class_load i c = 0"
  using assms unfolding class_load_def all_known_def by (intro cl.load_fresh) metis+

lemma spec_step_classes_from:
  assumes "spec_step E (L, c) (L', c')" "k' \<in> set (c_classes c')"
  shows "(\<exists>k \<in> set (c_classes c). class_id k' = class_id k \<and> quota k' = quota k) \<or>
    (\<forall>k \<in> set (c_classes c). class_id k \<noteq> class_id k')"
proof -
  have old: ?thesis if "k' \<in> set (c_classes c)" using that by blast
  show ?thesis
    using assms(1)
  proof (cases rule: spec_step.cases)
    case (spec_prices ks)
    then obtain k where "k \<in> set (c_classes c)" "class_id k' = class_id k \<and> quota k' = quota k"
      using assms(2) by (auto elim: all2_in)
    then show ?thesis by blast
  next
    case (spec_class k)
    then show ?thesis using assms(2) old by (cases "k' = k") auto
  qed (rule old, use assms(2) in simp)+
qed

lemma quota_ok_step:
  assumes step: "spec_step E (L, c) (L', c')" and ok: "quota_ok c" and keys: "distinct_keys c"
    and match: "holds_match c" and known: "all_known L c"
  shows "quota_ok c'"
  unfolding quota_ok_def
proof (intro ballI allI impI)
  fix k' q assume k': "k' \<in> set (c_classes c')" "quota k' = Some q"
  have bound: "int (class_load (class_id k') c) \<le> max 0 q"
    using spec_step_classes_from [OF step k'(1)]
  proof
    assume "\<exists>k \<in> set (c_classes c). class_id k' = class_id k \<and> quota k' = quota k"
    then show ?thesis using ok k'(2) unfolding quota_ok_def by force
  next
    assume "\<forall>k \<in> set (c_classes c). class_id k \<noteq> class_id k'"
    then show ?thesis using load_unknown_class [OF known] by simp
  qed
  show "int (class_load (class_id k') c') \<le> max 0 q"
    using class_load_step [OF step keys match, of "class_id k'"]
  proof
    assume "class_load (class_id k') c' \<le> Suc (class_load (class_id k') c) \<and>
      c_classes c' = c_classes c \<and> class_room c (class_id k')"
    with k' have "int (class_load (class_id k') c) < q"
      "class_load (class_id k') c' \<le> Suc (class_load (class_id k') c)"
      by (auto simp: class_room_def)
    then show ?thesis by simp
  qed (use bound in simp)
qed

section \<open>Seats\<close>

lemma same_seat_sym: "same_seat h h' \<Longrightarrow> same_seat h' h"
  by (cases "hold_position h'") (auto simp: same_seat_def seat_of_def)

text \<open>A live hold was live before, or has just been let in where nothing stood.\<close>

lemma spec_step_live:
  assumes step: "spec_step E (L, c) (L', c')" and keys: "distinct_keys c" and match: "holds_match c"
    and h': "h' \<in> set (c_holds c')" "live h'"
  shows "(\<exists>h \<in> set (c_holds c). same_terms h h' \<and> live h) \<or>
    (\<exists>h. same_terms h h' \<and> no_hold_on c h \<and> no_grant_on E c h \<and> c_grants c' = c_grants c \<and>
       (\<forall>y \<in> set (c_holds c'). hold_id y \<noteq> hold_id h' \<longrightarrow> live y \<longrightarrow>
          (\<exists>z \<in> set (c_holds c). same_terms z y \<and> live z)))"
proof -
  have kept: "\<exists>z \<in> set (c_holds c). same_terms z y \<and> live z" if "y \<in> set (c_holds c)" "live y" for y
    using that same_terms_update(4) by blast
  have old: ?thesis if "h' \<in> set (c_holds c)" using kept [OF that h'(2)] by blast
  have updated: ?thesis if rows: "c_holds c' = update_where P f (c_holds c)"
    and was: "\<And>h. h \<in> set (c_holds c) \<Longrightarrow> P h \<Longrightarrow> same_terms h (f h) \<and> (live (f h) \<longrightarrow> live h)" for P f
  proof -
    obtain h where "h \<in> set (c_holds c)" "h' = (if P h then f h else h)"
      using h'(1) rows by (auto simp: set_update_where)
    then show ?thesis using was h'(2) same_terms_update(4) by metis
  qed
  show ?thesis
    using step
  proof (cases rule: spec_step.cases)
    case (spec_end hs)
    with h' obtain h where "h \<in> set (c_holds c)" "ended_or_kept h h'" by (auto elim: ends_in)
    then show ?thesis using ended_or_kept_terms ended_or_kept_live h'(2) by blast
  next
    case (spec_place h)
    have others: "\<exists>z \<in> set (c_holds c). same_terms z y \<and> live z"
      if "y \<in> set (c_holds c')" "hold_id y \<noteq> hold_id h" "live y" for y
      using that spec_place by (intro kept) auto
    show ?thesis
    proof (cases "h' = h")
      case True
      then show ?thesis using spec_place others by (intro disjI2 exI [of _ h]) simp
    next
      case False
      then show ?thesis using h' spec_place old by simp
    qed
  next
    case (spec_take h k x a)
    have self: "y = h" if "y \<in> set (c_holds c)" "hold_id y = hold_id h" for y
      using distinct_key_eq [of hold_id, OF _ that(1) spec_take(3) that(2)] keys
      by (simp add: distinct_keys_def)
    have others: "\<exists>z \<in> set (c_holds c). same_terms z y \<and> live z"
      if y: "y \<in> set (c_holds c')" "hold_id y \<noteq> hold_id h" "live y" for y
      using y spec_take by (intro kept) (auto simp: set_update_where split: if_splits)
    obtain y where y: "y \<in> set (c_holds c)" "h' = (if hold_id y = hold_id h then take_row y else y)"
      using h'(1) spec_take by (auto simp: set_update_where)
    show ?thesis
    proof (cases "hold_id y = hold_id h \<and> \<not> live h")
      case True
      then have "hold_status h \<noteq> Outstanding" by (auto simp: live_def unissued_def)
      then have "no_grant_on E c h" using spec_take by blast
      moreover have "y = h" using True y(1) self by blast
      ultimately show ?thesis
        using True y spec_take others by (intro disjI2 exI [of _ h]) simp
    next
      case False
      then show ?thesis
        using y self h'(2) same_terms_update(1,4) by (intro disjI1 bexI [of _ y]) (auto split: if_splits)
    qed
  next
    case (spec_issued x h f t at cur)
    have "live y" if "y \<in> set (c_holds c)" "hold_id y = sale_hold x" for y
      using issuing_sale [OF keys match spec_issued(3,4) that] by (simp add: live_def unissued_def)
    with spec_issued show ?thesis
      by (intro updated [where P = "\<lambda>y. hold_id y = sale_hold x" and f = "confirm_row at"]) simp_all
  next
    case (spec_rejected x r at code)
    then show ?thesis
      by (intro updated [where P = "\<lambda>y. hold_id y = sale_hold x \<and> hold_status y = Issuing"
            and f = "give_back_row at"]) (simp_all add: live_def unissued_def)
  qed (rule old, use h' in simp)+
qed

lemma seats_ok_step:
  assumes step: "spec_step E (L, c) (L', c')" and ok: "seats_ok c" and keys: "distinct_keys c"
    and match: "holds_match c" and keys': "distinct_keys c'"
  shows "seats_ok c'"
proof -
  note live = spec_step_live [OF step keys match]
  have id: "hold_id h1 = hold_id h2"
    if h1: "h1 \<in> set (c_holds c')" "live h1" and h2: "h2 \<in> set (c_holds c')" "live h2"
    and seat: "same_seat h1 h2" and old: "\<exists>h \<in> set (c_holds c). same_terms h h1 \<and> live h"
    "\<exists>h \<in> set (c_holds c). same_terms h h2 \<and> live h" for h1 h2
  proof -
    obtain k1 k2 where k: "k1 \<in> set (c_holds c)" "same_terms k1 h1" "live k1"
      "k2 \<in> set (c_holds c)" "same_terms k2 h2" "live k2" using old by blast
    with seat have "same_seat k1 k2" using same_seat_terms by blast
    with k ok have "k1 = k2" unfolding seats_ok_def by blast
    with k show ?thesis by (simp add: same_terms_def)
  qed
  have fresh: "hold_id h1 = hold_id h2"
    if h2: "h2 \<in> set (c_holds c')" "live h2" "same_seat h1 h2"
    and h: "same_terms h h1" "no_hold_on c h"
    and others: "\<forall>y \<in> set (c_holds c'). hold_id y \<noteq> hold_id h1 \<longrightarrow> live y \<longrightarrow>
          (\<exists>z \<in> set (c_holds c). same_terms z y \<and> live z)" for h h1 h2
  proof (rule ccontr)
    assume "hold_id h1 \<noteq> hold_id h2"
    then obtain z where z: "z \<in> set (c_holds c)" "same_terms z h2" "live z"
      using others h2(1,2) by force
    then have "same_seat h z" using h2(3) h(1) same_seat_terms by blast
    moreover have "hold_id z \<noteq> hold_id h"
      using \<open>hold_id h1 \<noteq> hold_id h2\<close> z h(1) by (simp add: same_terms_def)
    ultimately show False using h(2) z unfolding no_hold_on_def by blast
  qed
  show ?thesis
    unfolding seats_ok_def
  proof (intro ballI impI)
    fix h1 h2
    assume h: "h1 \<in> set (c_holds c')" "h2 \<in> set (c_holds c')" "live h1" "live h2" "same_seat h1 h2"
    have "hold_id h1 = hold_id h2"
      using live [OF h(1,3)] live [OF h(2,4)] id [OF h(1,3,2,4,5)] fresh [OF h(2,4,5)]
        fresh [OF h(1,3) same_seat_sym [OF h(5)]] by metis
    then show "h1 = h2"
      using distinct_key_eq [of hold_id "c_holds c'" h1 h2] h keys' by (simp add: distinct_keys_def)
  qed
qed

lemma no_grant_moves:
  assumes "list_all2 grant_moves (c_grants c) gs" "no_grant_on E c h"
  shows "no_grant_on E (c\<lparr>c_grants := gs\<rparr>) h"
  using assms by (fastforce simp: no_grant_on_def grant_moves_def same_grant_def elim: all2_in)

lemma granted_seats_ok_step:
  assumes step: "spec_step E (L, c) (L', c')" and ok: "granted_seats_ok E c" and keys: "distinct_keys c"
    and match: "holds_match c"
  shows "granted_seats_ok E c'"
proof -
  note live = spec_step_live [OF step keys match]
  have base: "no_grant_on E c h'" if h': "h' \<in> set (c_holds c')" "live h'" for h'
    using live [OF h']
  proof
    assume "\<exists>h \<in> set (c_holds c). same_terms h h' \<and> live h"
    then show ?thesis using ok no_grant_terms unfolding granted_seats_ok_def by blast
  qed (use no_grant_terms in blast)
  have same: ?thesis if "c_grants c' = c_grants c"
    using base no_grant_cong [OF that] by (simp add: granted_seats_ok_def)
  show ?thesis
    using step
  proof (cases rule: spec_step.cases)
    case (spec_reserve g)
    have "no_grant_on E c' h" if "h \<in> set (c_holds c')" "live h" for h
      using base [OF that] that spec_reserve by (auto simp: no_grant_on_def)
    then show ?thesis by (simp add: granted_seats_ok_def)
  next
    case (spec_grants gs)
    then show ?thesis using base no_grant_moves by (simp add: granted_seats_ok_def)
  next
    case (spec_forget P)
    then show ?thesis using base by (simp add: granted_seats_ok_def no_grant_on_def)
  qed (rule same, simp)+
qed

section \<open>All of it\<close>

theorem sales_inv_step:
  assumes step: "spec_step E (L, c) (L', c')" and inv: "sales_inv E L c"
  shows "sales_inv E L' c'"
proof -
  note i = inv [unfolded sales_inv_def]
  have keys': "distinct_keys c'" using distinct_keys_step [OF step] i by blast
  then show ?thesis
    using i holds_ok_step [OF step] hosted_ok_step [OF step] sales_ok_step [OF step]
      holds_match_step [OF step] refunds_ok_step [OF step] faces_ok_step [OF step]
      classes_ok_step [OF step] grants_ok_step [OF step] all_known_step [OF step]
      positions_ok_step [OF step] seats_ok_step [OF step] granted_seats_ok_step [OF step]
      capacity_ok_step [OF step] quota_ok_step [OF step]
    unfolding sales_inv_def by blast
qed

definition spec_run :: "env \<Rightarrow> ledger \<times> core \<Rightarrow> ledger \<times> core \<Rightarrow> bool" where
  "spec_run E = (spec_step E)\<^sup>*\<^sup>*"

lemma sales_inv_run:
  assumes "spec_run E w w'" "sales_inv E (fst w) (snd w)"
  shows "sales_inv E (fst w') (snd w')"
  using assms unfolding spec_run_def
proof (induction rule: rtranclp_induct)
  case (step y z)
  then show ?case by (metis sales_inv_step prod.collapse)
qed

lemma sales_inv_empty: "sales_inv E L (core_of empty_store)"
  by (simp add: sales_inv_def invariant_defs core_of_def event_load_def class_load_def load_def)

end
