(* ===== verification/Refinement.thy ===== *)
theory Refinement
  imports SalesBounds Lifecycle
begin

text \<open>
  Each transaction of the code, taken on its own, is a sequence of transitions of
  \<open>SalesSpec\<close>: a lemma per transaction, from any store with the invariants.
\<close>

section \<open>What is assumed of the platform\<close>

text \<open>Normalisation is idempotent and keeps strings well-formed; ticket identifiers do not collide.\<close>

definition env_ok :: "env \<Rightarrow> bool" where
  "env_ok E \<longleftrightarrow> (\<forall>d. isWellFormed E d \<longrightarrow> isWellFormed E (nfc E d) \<and> nfc E (nfc E d) = nfc E d) \<and>
     (\<forall>e z p e' z' p'. ticketId E e z p = ticketId E e' z' p' \<longrightarrow> e = e' \<and> z = z' \<and> p = p')"

lemma env_nfc: "env_ok E \<Longrightarrow> isWellFormed E d \<Longrightarrow> isWellFormed E (nfc E d) \<and> nfc E (nfc E d) = nfc E d"
  unfolding env_ok_def by blast

lemma env_ticket: "env_ok E \<Longrightarrow> ticketId E e z p = ticketId E e' z' p' \<Longrightarrow> e = e' \<and> z = z' \<and> p = p'"
  unfolding env_ok_def by blast

lemma of_hex_to_hex [simp]: "of_hex (to_hex s) = s"
  by (induction s) (simp_all add: to_hex_def of_hex_byte)

lemma to_hex_inject [simp]: "to_hex a = to_hex b \<longleftrightarrow> a = b"
  by (metis of_hex_to_hex)

lemma positionOf_normal: "normal_position E (Some p) \<Longrightarrow> positionOf E p = Inr (to_hex p)"
  by (simp add: normal_position_def positionOf_def normaliseDesignation_def)

lemma canonicalPosition_Inr:
  assumes "env_ok E" "canonicalPosition E s e z d = Inr pos"
  shows "pos = to_hex (nfc E d) \<and> normal_position E (Some (nfc E d))"
  using env_nfc [OF assms(1), of d] assms(2)
  by (auto simp: canonicalPosition_def positionOf_def normaliseDesignation_def normal_position_def
      split: if_splits)

definition seat_canonical :: "env \<Rightarrow> canonical_seat option \<Rightarrow> bool" where
  "seat_canonical E seat \<longleftrightarrow> (\<forall>x. seat = Some x \<longrightarrow> normal_position E (Some (seat_designation x)) \<and>
     seat_position x = to_hex (seat_designation x))"

lemma grant_placement_canonical:
  assumes "env_ok E" "grant_placement E s ev inp disc = Inr (seat, pl)"
  shows "seat_canonical E seat"
proof (cases seat)
  case None
  then show ?thesis by (simp add: seat_canonical_def)
next
  case (Some x)
  then obtain d where d: "canonicalPosition E s (g_event inp) (g_zone inp) d = Inr (seat_position x)"
    "normaliseDesignation E d = Inr (seat_designation x)"
    using assms(2)
    by (auto simp: grant_placement_def fallible_iffs split: placement.splits option.splits if_splits)
  then have "seat_designation x = nfc E d" by (auto simp: normaliseDesignation_def split: if_splits)
  with Some canonicalPosition_Inr [OF assms(1) d(1)] show ?thesis by (simp add: seat_canonical_def)
qed

lemma check_pick_normal:
  assumes "env_ok E" "check_pick E L inp s = Inr pos"
  shows "normal_position E pos"
proof (cases pos)
  case None
  then show ?thesis by (simp add: normal_position_def)
next
  case (Some p)
  then obtain d hex where "canonicalPosition E s (b_event inp) (b_zone inp) d = Inr hex" "p = of_hex hex"
    using assms(2)
    by (auto simp: check_pick_def fallible_iffs split: placement.splits option.splits if_splits)
  with Some canonicalPosition_Inr [OF assms(1)] show ?thesis by fastforce
qed

section \<open>Counts and loads\<close>

lemma core_of_simps [simp]:
  "c_checkouts (core_of s) = checkout_sessions s" "c_holds (core_of s) = holds s"
  "c_hosted (core_of s) = hosted_checkouts s" "c_sales (core_of s) = primary_sales s"
  "c_refunds (core_of s) = refund_entitlements s" "c_faces (core_of s) = face_values s"
  "c_classes (core_of s) = ticket_classes s" "c_grants (core_of s) = granted_issuances s"
  "c_next_grant (core_of s) = granted_seq s"
  "c_verified (core_of s) = filter (\<lambda>a. audit_step a = PaymentVerified) (checkout_audit s)"
  by (simp_all add: core_of_def)

lemma count_live:
  "count_where (\<lambda>h. P h \<and> live h) hs =
     count_where (\<lambda>h. P h \<and> unissued h) hs + count_where (\<lambda>h. P h \<and> hold_status h = Confirmed) hs"
  by (induction hs) (auto simp: count_where_Cons live_def unissued_def)

lemma counts_event_load:
  "int (event_load (t_event t) (core_of s)) =
     granted (counts_of s t) + purchased (counts_of s t) + eventHolds (counts_of s t)"
  by (simp add: event_load_def load_def counts_of_def count_live counted_def)

lemma counts_class_load:
  "int (class_load (t_class t) (core_of s)) =
     classGranted (counts_of s t) + classPurchased (counts_of s t) + classHolds (counts_of s t)"
  by (simp add: class_load_def load_def counts_of_def count_live counted_def)

lemma capacity_room_load:
  assumes "capacityHasRoom ev (counts_of s t)" "maxCapacity ev = Some cap"
  shows "int (event_load (t_event t) (core_of s)) < cap"
  using assms by (auto simp: capacityHasRoom_def capacityRemaining_def Let_def counts_event_load)

lemma quota_room_load:
  assumes "quotaHasRoom (counts_of s t)" "distinct_keys (core_of s)"
    and "cl \<in> set (ticket_classes s)" "class_id cl = t_class t" "quota cl = Some q"
  shows "int (class_load (t_class t) (core_of s)) < q"
proof -
  have "find (\<lambda>c. class_id c = t_class t) (ticket_classes s) = Some cl"
    using find_key [of class_id "ticket_classes s" cl] assms(2-4) by (simp add: distinct_keys_def)
  then have "count_quota (counts_of s t) = Some q" using assms(5) by (simp add: counts_of_def)
  then show ?thesis
    using assms(1) by (auto simp: quotaHasRoom_def quotaRemaining_def counts_class_load)
qed

lemma class_room_counts:
  assumes "quotaHasRoom (counts_of s t)" "distinct_keys (core_of s)"
    and "\<exists>cl \<in> set (ticket_classes s). class_id cl = t_class t"
  shows "class_room (core_of s) (t_class t)"
  using assms quota_room_load [OF assms(1,2)] by (simp add: class_room_def)

text \<open>A seat no live hold has, as the counts see it.\<close>

lemma seat_not_held:
  assumes "\<not> seatHeld (counts_of s t)" "hold_event h = t_event t" "hold_zone h = t_zone t"
    and "hold_position h = t_position t"
  shows "h' \<in> set (holds s) \<Longrightarrow> live h' \<Longrightarrow> \<not> same_seat h h'"
  using assms
  by (cases "hold_position h'") (auto simp: counts_of_def exists_where_iff same_seat_def seat_of_def)

lemma assertFree_no_grant:
  assumes "assertFree E L s e z pos = Inr ticket" "g \<in> set (granted_issuances s)" "counted g"
    and "grants_ok (core_of s)"
  shows "granted_seat g \<noteq> Some (ticketId E e z pos)"
  using assms
  by (auto simp: grants_ok_def bears_seat_def assertFree_def Let_def seatTicketOf_def exists_where_iff counted_def split: if_splits)

section \<open>Holds that end\<close>

lemma kept_refl [simp]: "ended_or_kept h h"
  by (simp add: ended_or_kept_def)

lemma ends_update:
  assumes "\<And>h. h \<in> set hs \<Longrightarrow> P h \<Longrightarrow> ended_or_kept h (f h)"
  shows "ends_only hs (update_where P f hs)"
  unfolding ends_only_def using assms by (intro all2_update_where) simp_all

lemma kept_lapse: "expired at h \<Longrightarrow> ended_or_kept h (lapse h)"
  by (auto simp: ended_or_kept_def expired_def lapse_def hold_ok_def same_terms_def)

lemma kept_release: "hold_status h = Outstanding \<Longrightarrow> ended_or_kept h (release_row at h)"
  by (auto simp: ended_or_kept_def release_row_def hold_ok_def same_terms_def)

lemma kept_extend: "extended_at h = None \<Longrightarrow> ended_or_kept h (extend_row at h)"
  by (auto simp: ended_or_kept_def extend_row_def hold_ok_def same_terms_def)

lemma ends_lapse_event [simp]: "ends_only (holds s) (holds (lapse_event e at s))"
  by (auto simp: lapse_event_def intro!: ends_update kept_lapse)

lemma lapse_event_core: "core_of (lapse_event e at s) = (core_of s)\<lparr>c_holds := holds (lapse_event e at s)\<rparr>"
  by (simp add: core_of_def lapse_event_def)

lemma spec_run_refl [simp, intro]: "spec_run E w w"
  by (simp add: spec_run_def)

lemma spec_run_step: "spec_step E w w' \<Longrightarrow> spec_run E w w'"
  by (simp add: spec_run_def)

lemma spec_run_trans: "spec_run E w w' \<Longrightarrow> spec_run E w' w'' \<Longrightarrow> spec_run E w w''"
  by (simp add: spec_run_def)

lemma run_ends:
  assumes "ends_only (holds s) (holds s')" "core_of s' = (core_of s)\<lparr>c_holds := holds s'\<rparr>"
  shows "spec_run E (L, core_of s) (L, core_of s')"
  using assms by (metis core_of_simps(2) spec_end spec_run_step)

lemma run_lapse_event: "spec_run E (L, core_of s) (L, core_of (lapse_event e at s))"
  by (rule run_ends) (simp_all add: lapse_event_core)

lemma lapse_event_frame [simp]:
  "checkout_sessions (lapse_event e at s) = checkout_sessions s"
  "hosted_checkouts (lapse_event e at s) = hosted_checkouts s"
  "primary_sales (lapse_event e at s) = primary_sales s"
  "refund_entitlements (lapse_event e at s) = refund_entitlements s"
  "ticket_classes (lapse_event e at s) = ticket_classes s"
  "granted_issuances (lapse_event e at s) = granted_issuances s"
  "granted_seq (lapse_event e at s) = granted_seq s"
  "sale_assets (lapse_event e at s) = sale_assets s"
  "sale_closures (lapse_event e at s) = sale_closures s"
  "checkout_audit (lapse_event e at s) = checkout_audit s"
  by (simp_all add: lapse_event_def)

lemma core_audit: "st \<noteq> PaymentVerified \<Longrightarrow> core_of (recordCheckoutStep c st q at d s) = core_of s"
  by (simp add: core_of_def recordCheckoutStep_def)

lemma run_inv: "spec_run E (L, c) (L', c') \<Longrightarrow> sales_inv E L c \<Longrightarrow> sales_inv E L' c'"
  using sales_inv_run by fastforce

section \<open>Placing a hold\<close>

lemma saleTerms_class:
  assumes "saleTerms s e k = Some terms"
  shows "\<exists>cl \<in> set (ticket_classes s). class_id cl = k \<and> class_event cl = e \<and> price cl = Some (snd terms)"
  using assms
  by (auto simp: saleTerms_def Let_def bind_eq_Some_conv split: option.splits if_splits
      dest!: find_Some_in)

lemma eventOnSale_Inr:
  "eventOnSale L s e = Inr ev \<Longrightarrow> getEvent L e = Inr ev \<and> ev_status ev = Active \<and> \<not> salesClosed s e"
  by (auto simp: eventOnSale_def split: sum.splits if_splits)

lemma event_room_counts:
  assumes "getEvent L (t_event t) = Inr ev" "ev_status ev = Active" "capacityHasRoom ev (counts_of s t)"
  shows "event_room L (core_of s) (t_event t)"
  using assms capacity_room_load by (auto simp: event_room_def)

lemma target_of_simps [simp]:
  "t_event (target_of k) = checkout_event k" "t_zone (target_of k) = checkout_zone k"
  "t_class (target_of k) = checkout_class k" "t_position (target_of k) = checkout_position k"
  by (simp_all add: target_of_def)

lemma new_hold_simps [simp]:
  "hold_id (new_hold c t i req at terms) = i" "hold_checkout (new_hold c t i req at terms) = c"
  "hold_event (new_hold c t i req at terms) = t_event t" "hold_zone (new_hold c t i req at terms) = t_zone t"
  "hold_class (new_hold c t i req at terms) = t_class t"
  "hold_position (new_hold c t i req at terms) = t_position t"
  "hold_status (new_hold c t i req at terms) = Outstanding"
  by (simp_all add: new_hold_def)

lemma run_placed:
  assumes inv: "sales_inv E L (core_of s)" and normal: "normal_position E (t_position t)"
    and placed: "place_placed E L req c t at i s r s'"
  shows "spec_run E (L, core_of s) (L, core_of s')"
proof -
  obtain ev terms seat where seat: "position_of_target E t = Inr seat"
    and ev: "eventOnSale L s (t_event t) = Inr ev"
    and terms: "saleTerms s (t_event t) (t_class t) = Some terms"
    and free: "seat_refusal E L s t seat (counts_of s t) = Inr None"
    and room: "capacityHasRoom ev (counts_of s t)" "quotaHasRoom (counts_of s t)"
    and fresh: "\<not> hold_conflicts (new_hold c t i (requestId req) at terms) (holds s)"
    and s': "s' = recordCheckoutStep c Held (cause_of req) at
               [(''hold'', DStr i), (''asset'', DStr (fst terms)), (''price'', DNum (snd terms))]
               (s\<lparr>holds := holds s @ [new_hold c t i (requestId req) at terms]\<rparr>)"
    using placed unfolding place_placed_def by blast
  let ?h = "new_hold c t i (requestId req) at terms"
  obtain cl where cl: "cl \<in> set (ticket_classes s)" "class_id cl = t_class t" "price cl = Some (snd terms)"
    using saleTerms_class [OF terms] by blast
  then have "0 < snd terms" using inv by (auto simp: sales_inv_def classes_ok_def)
  then have ok: "hold_ok ?h" by (simp add: hold_ok_def new_hold_def)
  have "seat = None \<longleftrightarrow> t_position t = None"
    using seat by (auto simp: position_of_target_def fallible_iffs split: option.splits)
  moreover have pos: "seat = Some (to_hex p)" if "t_position t = Some p" for p
    using seat that normal by (auto simp: position_of_target_def positionOf_normal fallible_iffs)
  ultimately have seat_free: "\<not> seatHeld (counts_of s t) \<and>
      (\<exists>ticket. assertFree E L s (t_event t) (t_zone t) (to_hex p) = Inr ticket)" if "t_position t = Some p" for p
    using seat_refusal_None [OF free] that by auto
  have no_hold: "no_hold_on (core_of s) ?h"
  proof (cases "t_position t")
    case None
    then show ?thesis by (simp add: no_hold_on_def same_seat_def)
  next
    case (Some p)
    have "\<not> same_seat ?h h'" if "h' \<in> set (holds s)" "live h'" for h'
      by (rule seat_not_held [OF conjunct1 [OF seat_free [OF Some]] _ _ _ that]) simp_all
    then show ?thesis by (simp add: no_hold_on_def)
  qed
  have grants: "grants_ok (core_of s)" using inv by (simp add: sales_inv_def)
  have no_grant: "no_grant_on E (core_of s) ?h"
  proof (cases "t_position t")
    case None
    then show ?thesis by (simp add: no_grant_on_def)
  next
    case (Some p)
    then obtain ticket where "assertFree E L s (t_event t) (t_zone t) (to_hex p) = Inr ticket"
      using seat_free by blast
    then show ?thesis using Some by (simp add: no_grant_on_def seat_ticket_def assertFree_no_grant grants)
  qed
  have "spec_step E (L, core_of s) (L, (core_of s)\<lparr>c_holds := c_holds (core_of s) @ [?h]\<rparr>)"
  proof (rule spec_place)
    fix h' assume "h' \<in> set (c_holds (core_of s))"
    then show "hold_id h' \<noteq> hold_id ?h \<and> hold_checkout h' \<noteq> hold_checkout ?h"
      using fresh by (auto simp: hold_conflicts_def exists_where_iff)
  next
    show "event_room L (core_of s) (hold_event ?h)"
      using event_room_counts eventOnSale_Inr [OF ev] room(1) by simp
    show "class_room (core_of s) (hold_class ?h)"
      using class_room_counts [OF room(2)] inv cl by (auto simp: sales_inv_def)
  qed (use ok normal no_hold no_grant in simp_all)
  moreover have "core_of s' = (core_of s)\<lparr>c_holds := c_holds (core_of s) @ [?h]\<rparr>"
    by (simp add: s' core_of_def recordCheckoutStep_def)
  ultimately show ?thesis by (simp add: spec_run_step)
qed

lemma run_place:
  assumes inv: "sales_inv E L (core_of s)" and normal: "normal_position E (t_position t)"
    and place: "place E L req c t at i s = Inr (r, s')"
  shows "spec_run E (L, core_of s) (L, core_of s')"
proof -
  let ?s1 = "lapse_event (t_event t) at s"
  have lapse: "spec_run E (L, core_of s) (L, core_of ?s1)" by (rule run_lapse_event)
  have "spec_run E (L, core_of ?s1) (L, core_of s')"
    using place_cases [OF place]
  proof (elim disjE)
    assume "place_existing c ?s1 r s'"
    then show ?thesis by (auto simp: place_existing_def)
  next
    assume "place_refused req c at ?s1 r s'"
    then show ?thesis by (auto simp: place_refused_def core_audit)
  next
    assume "place_placed E L req c t at i ?s1 r s'"
    then show ?thesis by (rule run_placed [OF run_inv [OF lapse inv] normal])
  qed
  with lapse show ?thesis by (rule spec_run_trans)
qed

section \<open>Paying\<close>

lemma run_status: "spec_run E (L, core_of s) (L, core_of (recordStatus i st at s))"
proof -
  have "spec_step E (L, core_of s)
      (L, (core_of s)\<lparr>c_hosted := hosted_checkouts (recordStatus i st at s)\<rparr>)"
    by (rule spec_hosted)
      (auto simp: recordStatus_def same_hosted_def intro!: all2_update_where)
  then show ?thesis by (simp add: spec_run_step recordStatus_def core_of_def)
qed

lemma run_releaseHold: "spec_run E (L, core_of s) (L, core_of (snd (releaseHold i at s)))"
proof (rule run_ends)
  show "ends_only (holds s) (holds (snd (releaseHold i at s)))"
    by (auto simp: releaseHold_def releasable_def intro!: ends_update kept_release)
qed (simp add: core_of_def releaseHold_def)

lemma run_force_release: "spec_run E (L, core_of s) (L, core_of (snd (force_release i at s)))"
proof (rule run_ends)
  show "ends_only (holds s) (holds (snd (force_release i at s)))"
    by (auto simp: force_release_def releasable_def ended_or_kept_def same_terms_def hold_ok_def
        intro!: ends_update)
qed (simp add: core_of_def force_release_def)

lemma run_extend_payment:
  assumes "distinct_keys (core_of s)" "hold_by_id s i = Some h"
  shows "spec_run E (L, core_of s) (L, core_of (snd (extend_for_payment h at s)))"
proof -
  have h: "h \<in> set (holds s)" using assms(2) by (auto simp: hold_by_id_def dest: find_Some_in)
  have self: "y = h" if "y \<in> set (holds s)" "hold_id y = hold_id h" for y
    using distinct_key_eq [of hold_id, OF _ that(1) h that(2)] assms(1) by (simp add: distinct_keys_def)
  have "ended_or_kept y (y\<lparr>expires_at := expires_at h + HOLD_EXTENSION_MS, extended_at := Some at\<rparr>)"
    if "y \<in> set (holds s)" "hold_id y = hold_id h" "extended_at h = None" for y
    using self [OF that(1,2)] kept_extend [OF that(3), of at] by (simp add: extend_row_def)
  then have "ends_only (holds s) (holds (snd (extend_for_payment h at s)))"
    by (auto simp: extend_for_payment_def intro!: ends_update) (simp add: ends_only_def list_all2_same)
  then show ?thesis by (rule run_ends) (simp add: core_of_def extend_for_payment_def)
qed

lemma run_record_payment:
  assumes "h \<in> set (holds s)" "hold_price h = Some amount" "hold_asset h = Some ast"
    and "record_payment E' req h r amount ast exp i at s = Inr (k, s')"
  shows "spec_run E (L, core_of s) (L, core_of s')"
proof -
  let ?k = "new_hosted i h r amount ast exp (requestId req) at"
  obtain s2 where ins: "insert_hosted ?k s = Inr s2" and s': "core_of s' = core_of s2"
    using assms(4) by (auto simp: record_payment_def Let_def fallible_iffs core_audit)
  then have s2: "s2 = s\<lparr>hosted_checkouts := hosted_checkouts s @ [?k]\<rparr>"
    and fresh: "\<And>y. y \<in> set (hosted_checkouts s) \<Longrightarrow> hosted_id y \<noteq> hosted_id ?k"
    by (auto simp: insert_hosted_def exists_where_iff split: if_splits)
  have "spec_step E (L, core_of s) (L, (core_of s)\<lparr>c_hosted := c_hosted (core_of s) @ [?k]\<rparr>)"
    by (rule spec_pay [where h = h]) (use assms fresh in \<open>simp_all add: new_hosted_def\<close>)
  then show ?thesis by (simp add: s' s2 spec_run_step) (simp add: core_of_def spec_run_step)
qed

section \<open>Taking the place of a verified payment\<close>

lemma entitle_cases:
  assumes "entitle q k c amount ast reason i at s = Inr s'"
  shows "s' = s \<and> (\<exists>r \<in> set (refund_entitlements s). refund_hosted r = hosted_id k) \<or>
    (\<exists>r. (\<forall>r' \<in> set (refund_entitlements s). refund_hosted r' \<noteq> hosted_id k) \<and> 0 < refund_amount r \<and>
       refund_hosted r = hosted_id k \<and> refund_reason r = reason \<and> refund_ticket r = None \<and>
       refund_amount r = amount \<and> refund_asset r = ast \<and>
       core_of s' = (core_of s)\<lparr>c_refunds := refund_entitlements s @ [r]\<rparr>)"
  using assms
  by (auto simp: entitle_def exists_where_iff core_audit split: if_splits) (auto simp: core_of_def)

lemma entitle_frame:
  assumes "entitle q k c amount ast reason i at s = Inr s'"
  shows "holds s' = holds s" "hosted_checkouts s' = hosted_checkouts s" "primary_sales s' = primary_sales s"
    "sale_closures s' = sale_closures s"
  using assms by (auto simp: entitle_def split: if_splits)

lemma run_entitle:
  assumes "entitle q k c amount ast reason i at s = Inr s'"
    and "reason = PlaceGone \<or> reason = AmountMismatch \<or> reason = EventClosed"
    and "\<exists>k' \<in> set (hosted_checkouts s). hosted_id k' = hosted_id k"
    and "\<forall>x \<in> set (primary_sales s). sale_hosted x \<noteq> hosted_id k"
  shows "spec_run E (L, core_of s) (L, core_of s')"
  using entitle_cases [OF assms(1)]
proof (elim disjE exE conjE)
  fix r
  assume r: "refund_hosted r = hosted_id k" "refund_reason r = reason" "refund_ticket r = None"
    and fresh: "\<forall>r' \<in> set (refund_entitlements s). refund_hosted r' \<noteq> hosted_id k"
    and s': "core_of s' = (core_of s)\<lparr>c_refunds := refund_entitlements s @ [r]\<rparr>"
  obtain k' where k': "k' \<in> set (hosted_checkouts s)" "hosted_id k' = hosted_id k" using assms(3) by blast
  have "spec_step E (L, core_of s) (L, (core_of s)\<lparr>c_refunds := c_refunds (core_of s) @ [r]\<rparr>)"
    by (rule spec_refund [where k = k'])
      (use k' r fresh assms(2,4) in \<open>auto simp: payment_refund_def c_handled_def\<close>)
  then show ?thesis by (simp add: s' spec_run_step)
qed simp

text \<open>The verified row, appended by the audit step.\<close>

lemma run_verified: "spec_run E (L, core_of s) (L, core_of (recordCheckoutStep c PaymentVerified q at d s))"
proof -
  let ?a = "\<lparr>audit_checkout = c, audit_step = PaymentVerified, audit_request = cause_request q,
       audit_actor = actor_kind (cause_actor q), audit_session = actor_session (cause_actor q),
       audit_holder = actor_holder (cause_actor q), audit_detail = d, audit_recorded_at = at\<rparr>"
  have "core_of (recordCheckoutStep c PaymentVerified q at d s) =
      (core_of s)\<lparr>c_verified := c_verified (core_of s) @ [?a]\<rparr>"
    by (simp add: core_of_def recordCheckoutStep_def)
  then show ?thesis by (metis spec_run_step spec_verify)
qed

lemma still_free_True:
  assumes "still_free E L s h n = Inr True"
  shows "(\<exists>ev. getEvent L (hold_event h) = Inr ev \<and> ev_status ev = Active \<and> capacityHasRoom ev n) \<and>
    quotaHasRoom n \<and> \<not> seatHeld n \<and>
    (\<forall>p. hold_position h = Some p \<longrightarrow> (\<exists>pos ticket. positionOf E p = Inr pos \<and>
       assertFree E L s (hold_event h) (hold_zone h) pos = Inr ticket))"
proof (cases "hold_position h")
  case None
  with assms show ?thesis by (auto simp: still_free_def Let_def split: sum.splits)
next
  case (Some p)
  let ?free = "case getEvent L (hold_event h) of Inl _ \<Rightarrow> False
    | Inr ev \<Rightarrow> ev_status ev = Active \<and> capacityHasRoom ev n \<and> quotaHasRoom n \<and> \<not> seatHeld n"
  have free: ?free using assms Some by (auto simp: still_free_def Let_def split: if_splits)
  then obtain pos where pos: "positionOf E p = Inr pos"
    and af: "(case assertFree E L s (hold_event h) (hold_zone h) pos of
                 Inr _ \<Rightarrow> Inr True
               | Inl (SpecCodeError c r) \<Rightarrow>
                   if c = ''ERR-TicketIdExists'' then Inr False else Inl (SpecCodeError c r)
               | Inl e \<Rightarrow> Inl e) = Inr True"
    using assms Some by (auto simp: still_free_def Let_def fallible_iffs)
  from af have "\<exists>ticket. assertFree E L s (hold_event h) (hold_zone h) pos = Inr ticket"
    by (auto split: sum.splits failure.splits if_splits)
  with pos Some free show ?thesis by (auto split: sum.splits)
qed

lemma target_of_hold_simps [simp]:
  "t_event (target_of_hold h) = hold_event h" "t_zone (target_of_hold h) = hold_zone h"
  "t_class (target_of_hold h) = hold_class h" "t_position (target_of_hold h) = hold_position h"
  by (simp_all add: target_of_hold_def)

text \<open>The place is taken: \<open>cur\<close> is the hold as the transaction reads it after the lapses.\<close>

lemma run_taken:
  assumes inv: "sales_inv E L (core_of s)"
    and cur: "cur \<in> set (holds s)" "same_terms h cur"
    and k: "k \<in> set (hosted_checkouts s)" "hosted_hold k = hold_id h" "\<not> c_handled (core_of s) (hosted_id k)"
    and placed: "placed_now E L s h cur (counts_of s (target_of_hold h)) = Inr True"
    and a: "a \<in> set (checkout_audit s)" "verifies k a"
    and take: "take_hold h s = Inr s1" and ins: "insert_sale x s1 = Inr s2"
    and x: "sale_hosted x = hosted_id k" "sale_hold x = hold_id h" "sale_status x = SaleIssuing"
  shows "spec_run E (L, core_of s) (L, core_of s2)"
proof -
  have terms: "hold_id cur = hold_id h" "hold_event cur = hold_event h" "hold_zone cur = hold_zone h"
    "hold_class cur = hold_class h" "hold_position cur = hold_position h"
    using cur(2) by (simp_all add: same_terms_def)
  have s1: "s1 = s\<lparr>holds := update_where (\<lambda>h'. hold_id h' = hold_id cur) take_row (holds s)\<rparr>"
    and alone: "\<forall>h' \<in> set (holds s). hold_id h' \<noteq> hold_id h \<longrightarrow> live h' \<longrightarrow> \<not> same_seat h h'"
    using take terms by (auto simp: take_hold_def exists_where_iff split: if_splits)
  have s2: "s2 = s1\<lparr>primary_sales := primary_sales s1 @ [x]\<rparr>"
    and fresh: "\<forall>y \<in> set (primary_sales s). sale_id y \<noteq> sale_id x"
    using ins s1 by (auto simp: insert_sale_def exists_where_iff split: if_splits)
  have grants: "grants_ok (core_of s)" using inv by (simp add: sales_inv_def)
  have free: "hold_status cur = Outstanding \<or>
      ((hold_status cur = Lapsed \<or> hold_status cur = Released) \<and> event_room L (core_of s) (hold_event cur) \<and>
       class_room (core_of s) (hold_class cur) \<and> no_grant_on E (core_of s) cur)"
  proof (cases "hold_status cur = Lapsed \<or> hold_status cur = Released")
    case True
    with placed have sf: "still_free E L s h (counts_of s (target_of_hold h)) = Inr True"
      by (simp add: placed_now_def)
    note f = still_free_True [OF sf]
    have "event_room L (core_of s) (hold_event h)"
      using f event_room_counts [of L "target_of_hold h"] by auto
    moreover have "class_room (core_of s) (hold_class h)"
      using f class_room_counts [of s "target_of_hold h"] inv cur(1) terms
      by (fastforce simp: sales_inv_def all_known_def)
    moreover have "no_grant_on E (core_of s) cur"
    proof (cases "hold_position h")
      case None
      then show ?thesis by (simp add: no_grant_on_def terms)
    next
      case (Some p)
      then have "normal_position E (Some p)"
        using inv cur(1) terms by (metis core_of_simps(2) positions_ok_def sales_inv_def)
      with f Some obtain ticket where "assertFree E L s (hold_event h) (hold_zone h) (to_hex p) = Inr ticket"
        by (auto simp: positionOf_normal)
      then show ?thesis
        using Some by (simp add: no_grant_on_def seat_ticket_def terms assertFree_no_grant grants)
    qed
    ultimately show ?thesis using True terms by simp
  next
    case False
    with placed show ?thesis by (simp add: placed_now_def)
  qed
  have "no_hold_on (core_of s) cur"
    using alone terms by (simp add: no_hold_on_def same_seat_def seat_of_def)
  then have "spec_step E (L, core_of s) (L, (core_of s)\<lparr>
      c_holds := update_where (\<lambda>h'. hold_id h' = hold_id cur) take_row (c_holds (core_of s)),
      c_sales := c_sales (core_of s) @ [x]\<rparr>)"
    by (intro spec_take [where k = k and a = a])
      (use cur k free x fresh terms a in \<open>simp_all add: verifies_def\<close>)
  moreover have "core_of s2 = (core_of s)\<lparr>
      c_holds := update_where (\<lambda>h'. hold_id h' = hold_id cur) take_row (c_holds (core_of s)),
      c_sales := c_sales (core_of s) @ [x]\<rparr>"
    by (simp add: s2 s1 core_of_def)
  ultimately show ?thesis by (simp add: spec_run_step)
qed

lemma settle_place_True:
  assumes "settle_place q k r h acc True at D s = Inr (res, s')"
  obtains a s1 where "acc = Some a" "take_hold h s = Inr s1"
    "insert_sale (new_sale (draw_sale D (hosted_id k)) k h a at) s1 = Inr s'"
    "res = Some (draw_sale D (hosted_id k), h)"
  using assms by (auto simp: settle_place_def fallible_iffs split: option.splits)

lemma settle_place_False:
  assumes "settle_place q k r h acc False at D s = Inr (res, s')"
  shows "res = None \<and> entitle q k (hold_checkout h) (remote_amount r) (remote_asset r) PlaceGone
    (draw_refund D (hosted_id k)) at s = Inr s'"
  using assms by (auto simp: settle_place_def fallible_iffs)

lemma recordStatus_frame [simp]:
  "holds (recordStatus i st at s) = holds s" "primary_sales (recordStatus i st at s) = primary_sales s"
  "refund_entitlements (recordStatus i st at s) = refund_entitlements s"
  "sale_closures (recordStatus i st at s) = sale_closures s"
  "checkout_audit (recordStatus i st at s) = checkout_audit s"
  "granted_issuances (recordStatus i st at s) = granted_issuances s"
  "ticket_classes (recordStatus i st at s) = ticket_classes s"
  "checkout_sessions (recordStatus i st at s) = checkout_sessions s"
  by (simp_all add: recordStatus_def)

lemma recordStatus_row:
  assumes "k \<in> set (hosted_checkouts s)"
  obtains k' where "k' \<in> set (hosted_checkouts (recordStatus i st at s))" "same_hosted k k'"
proof
  let ?k = "if hosted_id k = i then k\<lparr>hosted_status := st, hosted_updated_at := at\<rparr> else k"
  show "?k \<in> set (hosted_checkouts (recordStatus i st at s))"
    using assms unfolding recordStatus_def by (simp add: set_update_where)
  show "same_hosted k ?k" by (simp add: same_hosted_def)
qed

text \<open>The hold as it is after the lapses.\<close>

lemma lapsed_hold:
  assumes "distinct (map hold_id (holds s))" "h \<in> set (holds s)"
    and "hold_by_id (lapse_event e at s) (hold_id h) = Some cur"
  shows "cur \<in> set (holds (lapse_event e at s))" "ended_or_kept h cur"
proof -
  show cur: "cur \<in> set (holds (lapse_event e at s))"
    using assms(3) by (auto simp: hold_by_id_def dest: find_Some_in)
  have id: "hold_id cur = hold_id h" using assms(3) by (auto simp: hold_by_id_def dest: find_Some_in)
  obtain y where y: "y \<in> set (holds s)" "ended_or_kept y cur"
    using ends_in [OF ends_lapse_event cur] .
  then have "hold_id y = hold_id h" using id by (simp add: ended_or_kept_def same_terms_def)
  then have "y = h" using distinct_key_eq [of hold_id, OF assms(1) y(1) assms(2)] by simp
  with y show "ended_or_kept h cur" by simp
qed

text \<open>The four ends of the transaction, from the store in which the payment is verified.\<close>

definition awaiting :: "hosted_row \<Rightarrow> store \<Rightarrow> bool" where
  "awaiting k s \<longleftrightarrow> (\<exists>y \<in> set (hosted_checkouts s). same_hosted k y) \<and>
     (\<forall>x \<in> set (primary_sales s). sale_hosted x \<noteq> hosted_id k) \<and>
     (\<forall>r \<in> set (refund_entitlements s). refund_hosted r \<noteq> hosted_id k)"

lemma run_entitle_awaiting:
  assumes "entitle q k c amount ast reason i at s = Inr s'" "awaiting k s"
    and "reason = PlaceGone \<or> reason = AmountMismatch \<or> reason = EventClosed"
  shows "spec_run E (L, core_of s) (L, core_of s')"
  using assms(2) by (intro run_entitle [OF assms(1,3)]) (auto simp: awaiting_def same_hosted_def)

lemma run_refund_mismatch:
  assumes "refund_mismatch q k r h at D s = Inr (res, s')" "awaiting k s"
  shows "spec_run E (L, core_of s) (L, core_of s')"
proof -
  obtain s1 where "entitle q k (hold_checkout h) (remote_amount r) (remote_asset r) AmountMismatch
      (draw_refund D (hosted_id k)) at s = Inr s1" "s' = snd (releaseHold (hold_id h) at s1)"
    using assms(1) by (auto simp: refund_mismatch_def fallible_iffs)
  then show ?thesis
    using run_entitle_awaiting assms(2) run_releaseHold by (blast intro: spec_run_trans)
qed

lemma run_refund_closed:
  assumes "refund_closed q k r h at D s = Inr (res, s')" "awaiting k s"
  shows "spec_run E (L, core_of s) (L, core_of s')"
proof -
  obtain s1 where s1: "entitle q k (hold_checkout h) (remote_amount r) (remote_asset r) EventClosed
      (draw_refund D (hosted_id k)) at s = Inr s1"
    and rest: "(let (released, s2) = releaseHold (hold_id h) at s1 in
     Inr (None, if released then recordCheckoutStep (hold_checkout h) HoldReleased q at [] s2 else s2)) =
       (Inr (res, s') :: failure + (ident \<times> hold_row) option \<times> store)"
    using assms(1) unfolding refund_closed_def and_then_Inr_iff by blast
  from rest have "core_of s' = core_of (snd (releaseHold (hold_id h) at s1))"
    by (cases "releaseHold (hold_id h) at s1") (auto simp: core_audit split: if_splits)
  with s1 show ?thesis
    using run_entitle_awaiting assms(2) run_releaseHold by (metis spec_run_trans)
qed

lemma take_free_cases:
  assumes "take_free E L q k r h c at D s = Inr (res, s')"
  defines "s1 \<equiv> lapse_event (hold_event h) at s"
  obtains (gone) "settle_place q k r h (holder_account c) False at D s1 = Inr (res, s')"
    | (placed) cur where "hold_by_id s1 (hold_id h) = Some cur"
      "placed_now E L s1 h cur (counts_of s1 (target_of_hold h)) = Inr True"
      "settle_place q k r h (holder_account c) True at D s1 = Inr (res, s')"
proof -
  have eq: "take_free E L q k r h c at D s = (case hold_by_id s1 (hold_id h) of
        None \<Rightarrow> settle_place q k r h (holder_account c) False at D s1
      | Some current \<Rightarrow>
          and_then (placed_now E L s1 h current (counts_of s1 (target_of_hold h))) (\<lambda>placed.
          settle_place q k r h (holder_account c) placed at D s1))"
    unfolding take_free_def allocationCounts_def Let_def s1_def by (simp only: target_of_hold_simps prod.case)
  show thesis
  proof (cases "hold_by_id s1 (hold_id h)")
    case None
    with assms(1) eq gone show thesis by simp
  next
    case (Some cur)
    with assms(1) eq obtain p where "placed_now E L s1 h cur (counts_of s1 (target_of_hold h)) = Inr p"
      "settle_place q k r h (holder_account c) p at D s1 = Inr (res, s')"
      by (auto simp: and_then_Inr_iff)
    with Some gone placed show thesis by (cases p) simp_all
  qed
qed

lemma run_take_free:
  assumes inv: "sales_inv E L (core_of s)" and wait: "awaiting k s"
    and h: "h \<in> set (holds s)" "hosted_hold k = hold_id h"
    and a: "a \<in> set (checkout_audit s)" "verifies k a"
    and take: "take_free E L q k r h c at D s = Inr (res, s')"
  shows "spec_run E (L, core_of s) (L, core_of s')"
proof -
  let ?s1 = "lapse_event (hold_event h) at s"
  have run1: "spec_run E (L, core_of s) (L, core_of ?s1)" by (rule run_lapse_event)
  have wait1: "awaiting k ?s1" using wait by (simp add: awaiting_def)
  from take have "spec_run E (L, core_of ?s1) (L, core_of s')"
  proof (cases rule: take_free_cases)
    case gone
    then show ?thesis using settle_place_False run_entitle_awaiting wait1 by metis
  next
    case (placed cur)
    obtain acc s4 where taken: "take_hold h ?s1 = Inr s4"
      "insert_sale (new_sale (draw_sale D (hosted_id k)) k h acc at) s4 = Inr s'"
      using settle_place_True [OF placed(3)] by blast
    have ids: "distinct (map hold_id (holds s))" using inv by (simp add: sales_inv_def distinct_keys_def)
    note cur = lapsed_hold [OF ids h(1) placed(1)]
    obtain k' where k': "k' \<in> set (hosted_checkouts ?s1)" "same_hosted k k'"
      using wait1 by (auto simp: awaiting_def)
    show ?thesis
      by (rule run_taken [OF run_inv [OF run1 inv] cur(1) ended_or_kept_terms [OF cur(2)] k'(1) _ _
            placed(2) _ _ taken, of a])
        (use k' h wait a in \<open>auto simp: same_hosted_def awaiting_def c_handled_def verifies_def new_sale_def\<close>)
  qed
  with run1 show ?thesis by (rule spec_run_trans)
qed

lemma verified_step_row:
  assumes "remote_amount r = hosted_amount k" "remote_asset r = hosted_asset k"
  shows "\<exists>a \<in> set (checkout_audit (verified_step q k r h at s)). verifies k a"
  using assms by (simp add: verified_step_def recordCheckoutStep_def verifies_def)

lemma verified_step_frame [simp]:
  "holds (verified_step q k r h at s) = holds s" "hosted_checkouts (verified_step q k r h at s) = hosted_checkouts s"
  "primary_sales (verified_step q k r h at s) = primary_sales s"
  "refund_entitlements (verified_step q k r h at s) = refund_entitlements s"
  "sale_closures (verified_step q k r h at s) = sale_closures s"
  by (simp_all add: verified_step_def)

lemma run_take:
  assumes inv: "sales_inv E L (core_of s)" and k: "k \<in> set (hosted_checkouts s)"
    and take: "takePlace E L q k r at D s = Inr (res, s')"
  shows "spec_run E (L, core_of s) (L, core_of s')"
proof -
  define s1 where "s1 = recordStatus (hosted_id k) (remote_status r) at s"
  obtain h c where h: "hold_by_id s (hosted_hold k) = Some h"
    and end_: "if handled s1 (hosted_id k) then s' = s1
      else take_verified E L q k r h c at D (verified_step q k r h at s1) = Inr (res, s')"
    using take by (auto simp: takePlace_def Let_def fallible_iffs s1_def split: option.splits if_splits)
  have run1: "spec_run E (L, core_of s) (L, core_of s1)" unfolding s1_def by (rule run_status)
  show ?thesis
  proof (cases "handled s1 (hosted_id k)")
    case True
    with end_ run1 show ?thesis by simp
  next
    case False
    let ?s2 = "verified_step q k r h at s1"
    have run2: "spec_run E (L, core_of s) (L, core_of ?s2)"
      using run1 run_verified unfolding verified_step_def by (rule spec_run_trans)
    obtain y where "y \<in> set (hosted_checkouts s1)" "same_hosted k y"
      using recordStatus_row [OF k] unfolding s1_def .
    then have wait: "awaiting k ?s2"
      using False by (auto simp: awaiting_def handled_def exists_where_iff)
    have h': "h \<in> set (holds ?s2)" "hosted_hold k = hold_id h"
      using h by (auto simp: hold_by_id_def s1_def dest: find_Some_in)
    have "spec_run E (L, core_of ?s2) (L, core_of s')"
    proof (cases "remote_amount r \<noteq> hosted_amount k \<or> remote_asset r \<noteq> hosted_asset k")
      case True
      with end_ False wait show ?thesis by (auto simp: take_verified_def intro: run_refund_mismatch)
    next
      case same: False
      obtain a where a: "a \<in> set (checkout_audit ?s2)" "verifies k a"
        using verified_step_row same by blast
      show ?thesis
      proof (cases "salesClosed ?s2 (hold_event h)")
        case True
        with same end_ False wait show ?thesis by (auto simp: take_verified_def intro: run_refund_closed)
      next
        case open_: False
        have "take_free E L q k r h c at D ?s2 = Inr (res, s')"
          using same open_ end_ False by (simp add: take_verified_def)
        then show ?thesis by (rule run_take_free [OF run_inv [OF run2 inv] wait h' a])
      qed
    qed
    with run2 show ?thesis by (rule spec_run_trans)
  qed
qed

section \<open>Issuing\<close>

text \<open>What each way of completing does to the tables.\<close>

lemma complete_issued:
  assumes "complete q k x h oper (CompleteIssued t cur) at D s = Inr (u, s')"
  obtains f where "face_sale f = x" "face_ticket f = t" "hold_price h = Some (face_amount f)"
    "hold_asset h = Some (face_asset f)" "\<forall>g \<in> set (face_values s). face_ticket g \<noteq> t"
    "core_of s' = (core_of s)\<lparr>
      c_sales := update_where (\<lambda>y. sale_id y = x) (sale_completion (CompleteIssued t cur) at) (primary_sales s),
      c_holds := update_where (\<lambda>y. hold_id y = hold_id h) (confirm_row at) (holds s),
      c_faces := face_values s @ [f]\<rparr>"
proof -
  obtain amount ast where terms: "hold_price h = Some amount" "hold_asset h = Some ast"
    using assms by (auto simp: complete_def Let_def split: option.splits)
  let ?f = "\<lparr>face_ticket = t, face_event = hold_event h, face_class = hold_class h, face_sale = x,
    face_amount = amount, face_asset = ast, face_recorded_at = at\<rparr>"
  show thesis
    by (rule that [of ?f])
      (use assms terms in \<open>auto simp: complete_def Let_def fallible_iffs insert_face_def exists_where_iff
          core_of_def recordCheckoutStep_def split: if_splits\<close>)
qed

lemma complete_rejected:
  assumes "complete q k x h oper (CompleteRejected e) at D s = Inr (u, s')"
    and "\<forall>r \<in> set (refund_entitlements s). refund_hosted r \<noteq> hosted_id k"
  obtains r where "refund_hosted r = hosted_id k" "refund_reason r = IssuanceRejected" "refund_ticket r = None"
    "refund_amount r = hosted_amount k" "refund_asset r = hosted_asset k"
    "core_of s' = (core_of s)\<lparr>
      c_sales := update_where (\<lambda>y. sale_id y = x) (sale_completion (CompleteRejected e) at) (primary_sales s),
      c_holds := update_where (\<lambda>y. hold_id y = hold_id h \<and> hold_status y = Issuing) (give_back_row at) (holds s),
      c_refunds := refund_entitlements s @ [r]\<rparr>"
proof -
  let ?s3 = "recordCheckoutStep (hold_checkout h) IssuanceRejectedStep q at
      [(''sale'', DStr x), (''operation'', detail_of oper), (''errorCode'', detail_of e)]
      (s\<lparr>primary_sales := update_where (\<lambda>y. sale_id y = x) (sale_completion (CompleteRejected e) at) (primary_sales s),
         holds := update_where (\<lambda>y. hold_id y = hold_id h \<and> hold_status y = Issuing) (give_back_row at) (holds s)\<rparr>)"
  have "entitle q k (hold_checkout h) (hosted_amount k) (hosted_asset k) IssuanceRejected
      (draw_refund D (hosted_id k)) at ?s3 = Inr s'"
    using assms(1) by (auto simp: complete_def Let_def fallible_iffs)
  from entitle_cases [OF this] show thesis
    using that assms(2) by (auto simp: core_audit)
qed

lemma complete_failed:
  assumes "complete q k x h oper CompleteFailed at D s = Inr (u, s')"
  shows "core_of s' = (core_of s)\<lparr>
      c_sales := update_where (\<lambda>y. sale_id y = x) (sale_completion CompleteFailed at) (primary_sales s)\<rparr>"
  using assms by (auto simp: complete_def Let_def core_of_def recordCheckoutStep_def)

lemma run_complete:
  assumes inv: "sales_inv E L (core_of s)"
    and x: "x \<in> set (primary_sales s)" "sale_status x = SaleIssuing" "hosted_id k = sale_hosted x"
    and h: "h0 \<in> set (holds s)" "same_terms h0 h" "hold_id h = sale_hold x"
    and fin: "complete q k (sale_id x) h oper d at D s = Inr (u, s')"
  shows "spec_run E (L, core_of s) (L, core_of s')"
proof (cases d)
  case (CompleteIssued t cur)
  obtain f where f: "face_sale f = sale_id x" "face_ticket f = t" "hold_price h = Some (face_amount f)"
    "hold_asset h = Some (face_asset f)" "\<forall>g \<in> set (face_values s). face_ticket g \<noteq> t"
    and s': "core_of s' = (core_of s)\<lparr>
      c_sales := update_where (\<lambda>y. sale_id y = sale_id x) (sale_completion (CompleteIssued t cur) at) (primary_sales s),
      c_holds := update_where (\<lambda>y. hold_id y = hold_id h) (confirm_row at) (holds s),
      c_faces := face_values s @ [f]\<rparr>"
    using fin unfolding CompleteIssued by (rule complete_issued)
  have "spec_step E (L, core_of s) (L, (core_of s)\<lparr>
      c_sales := update_where (\<lambda>y. sale_id y = sale_id x) (sale_completion (CompleteIssued t cur) at) (c_sales (core_of s)),
      c_holds := update_where (\<lambda>y. hold_id y = sale_hold x) (confirm_row at) (c_holds (core_of s)),
      c_faces := c_faces (core_of s) @ [f]\<rparr>)"
    by (rule spec_issued [where h = h0]) (use x h f in \<open>simp_all add: same_terms_def\<close>)
  then show ?thesis using s' h(3) by (simp add: spec_run_step)
next
  case (CompleteRejected e)
  have none: "\<forall>r \<in> set (refund_entitlements s). refund_hosted r \<noteq> hosted_id k"
    using no_refund_while_issuing [of "core_of s" x] inv x by (simp add: sales_inv_def)
  obtain r where r: "refund_hosted r = hosted_id k" "refund_reason r = IssuanceRejected" "refund_ticket r = None"
    and s': "core_of s' = (core_of s)\<lparr>
      c_sales := update_where (\<lambda>y. sale_id y = sale_id x) (sale_completion (CompleteRejected e) at) (primary_sales s),
      c_holds := update_where (\<lambda>y. hold_id y = hold_id h \<and> hold_status y = Issuing) (give_back_row at) (holds s),
      c_refunds := refund_entitlements s @ [r]\<rparr>"
    using fin none unfolding CompleteRejected by (rule complete_rejected)
  have "spec_step E (L, core_of s) (L, (core_of s)\<lparr>
      c_sales := update_where (\<lambda>y. sale_id y = sale_id x) (sale_completion (CompleteRejected e) at) (c_sales (core_of s)),
      c_holds := update_where (\<lambda>y. hold_id y = sale_hold x \<and> hold_status y = Issuing) (give_back_row at) (c_holds (core_of s)),
      c_refunds := c_refunds (core_of s) @ [r]\<rparr>)"
    by (rule spec_rejected) (use x r in simp_all)
  then show ?thesis using s' h(3) by (simp add: spec_run_step)
next
  case CompleteFailed
  have "spec_step E (L, core_of s) (L, (core_of s)\<lparr>
      c_sales := update_where (\<lambda>y. sale_id y = sale_id x) (sale_completion CompleteFailed at) (c_sales (core_of s))\<rparr>)"
    by (rule spec_failed) (use x in simp_all)
  then show ?thesis using complete_failed fin CompleteFailed by (simp add: spec_run_step)
qed

lemma run_sales_noted:
  assumes "list_all2 sale_noted (primary_sales s) xs"
  shows "spec_run E (L, core_of s) (L, core_of (s\<lparr>primary_sales := xs\<rparr>))"
proof -
  have "spec_step E (L, core_of s) (L, (core_of s)\<lparr>c_sales := xs\<rparr>)"
    using assms by (intro spec_note) simp
  then show ?thesis by (simp add: spec_run_step core_of_def)
qed

lemma run_set_ticket:
  assumes "\<forall>y \<in> set (primary_sales s). sale_id y = x \<longrightarrow> sale_status y = SaleIssuing"
  shows "spec_run E (L, core_of s) (L, core_of (set_ticket x t s))"
  unfolding set_ticket_def using assms
  by (intro run_sales_noted all2_update_where) (auto simp: sale_noted_def)

lemma run_operation: "spec_run E (L, core_of s) (L, core_of (recordOperation x oper s))"
proof (cases oper)
  case None
  then show ?thesis by (simp add: recordOperation_def)
next
  case (Some i)
  then show ?thesis
    unfolding recordOperation_def
    by simp (intro run_sales_noted all2_update_where; simp add: sale_noted_def)
qed

section \<open>Checkout sessions\<close>

lemma run_checkouts:
  assumes "core_of s' = (core_of s)\<lparr>c_checkouts := checkout_sessions s'\<rparr>"
    and "\<forall>k \<in> set (checkout_sessions s'). normal_position E (checkout_position k)"
  shows "spec_run E (L, core_of s) (L, core_of s')"
  using spec_checkouts [of "checkout_sessions s'" E L "core_of s"] assms by (simp add: spec_run_step)

lemma run_begin:
  assumes "positions_ok E (core_of s)" "normal_position E pos"
    and "begin_tx E' req inp pos token i at s = Inr (u, s')"
  shows "spec_run E (L, core_of s) (L, core_of s')"
proof (rule run_checkouts)
  show "core_of s' = (core_of s)\<lparr>c_checkouts := checkout_sessions s'\<rparr>"
    using assms(3)
    by (auto simp: begin_tx_def Let_def fallible_iffs insert_checkout_def core_of_def recordCheckoutStep_def
        split: if_splits)
  have "checkout_position (new_checkout E' req inp pos token i at) = pos"
    by (simp add: new_checkout_def Let_def)
  then show "\<forall>k \<in> set (checkout_sessions s'). normal_position E (checkout_position k)"
    using assms
    by (auto simp: begin_tx_def Let_def fallible_iffs insert_checkout_def positions_ok_def split: if_splits)
qed

lemma run_update_checkouts:
  assumes "positions_ok E (core_of s)" "\<And>k. checkout_position (f k) = checkout_position k"
    and "core_of s' = core_of (s\<lparr>checkout_sessions := update_where P f (checkout_sessions s)\<rparr>)"
  shows "spec_run E (L, core_of s) (L, core_of s')"
proof -
  have "spec_step E (L, core_of s) (L, (core_of s)\<lparr>c_checkouts := update_where P f (checkout_sessions s)\<rparr>)"
    using assms(1,2) by (intro spec_checkouts) (auto simp: positions_ok_def set_update_where)
  moreover have "core_of s' = (core_of s)\<lparr>c_checkouts := update_where P f (checkout_sessions s)\<rparr>"
    unfolding assms(3) by (simp add: core_of_def)
  ultimately show ?thesis by (simp add: spec_run_step)
qed

lemma run_link:
  "positions_ok E (core_of s) \<Longrightarrow> spec_run E (L, core_of s) (L, core_of (link_tx req found acc sess at s))"
  unfolding link_tx_def Let_def by (rule run_update_checkouts) (simp_all add: core_audit)

lemma run_confirm:
  "positions_ok E (core_of s) \<Longrightarrow> spec_run E (L, core_of s) (L, core_of (confirm_tx req row acc at s))"
  unfolding confirm_tx_def Let_def by (rule run_update_checkouts) (simp_all add: core_audit)

lemma run_discard:
  "positions_ok E (core_of s) \<Longrightarrow> spec_run E (L, core_of s) (L, core_of (discard_tx E' req row token at s))"
  unfolding discard_tx_def Let_def by (rule run_update_checkouts) (simp_all add: core_audit)

section \<open>Granted issuances\<close>

lemma grant_target_simps [simp]:
  "t_event (grant_target inp seat) = g_event inp" "t_zone (grant_target inp seat) = g_zone inp"
  "t_class (grant_target inp seat) = g_class inp"
  "t_position (grant_target inp seat) = map_option seat_designation seat"
  by (simp_all add: grant_target_def)

lemma reserve_Inr:
  assumes "reserve E L org rid inp seat at s = Inr (i, s')"
  defines "s1 \<equiv> lapse_event (g_event inp) at s"
  obtains ev ticket where "getEvent L (g_event inp) = Inr ev"
    "reserve_seat E L s1 inp seat (counts_of s1 (grant_target inp seat)) = Inr ticket"
    "ev_status ev = Active \<longrightarrow> capacityHasRoom ev (counts_of s1 (grant_target inp seat))"
    "quotaHasRoom (counts_of s1 (grant_target inp seat))"
    "\<exists>cl \<in> set (ticket_classes s1). class_id cl = g_class inp"
    "s' = s1\<lparr>granted_seq := Suc (granted_seq s1), granted_issuances := granted_issuances s1 @
       [new_grant org rid inp ticket (granted_seq s1) at]\<rparr>" "i = granted_seq s1"
proof -
  have 1: "\<exists>cl \<in> set (ticket_classes s1). class_id cl = g_class inp"
    using assms(1) unfolding s1_def
    by (auto simp: reserve_def Let_def fallible_iffs exists_where_iff split: prod.splits)
  obtain ticket where 2: "reserve_seat E L s1 inp seat (counts_of s1 (grant_target inp seat)) = Inr ticket"
    and rest: "(case getEvent L (g_event inp) of
        Inl c \<Rightarrow> Inl (SpecCodeError c None)
      | Inr ev \<Rightarrow>
          and_then (guard (\<not> (ev_status ev = Active \<and> \<not> capacityHasRoom ev (counts_of s1 (grant_target inp seat))))
                      (SpecCodeError ''ERR-CapacityExceeded'' None)) (\<lambda>_.
          and_then (guard (quotaHasRoom (counts_of s1 (grant_target inp seat)))
                      (SpecCodeError ''ERR-ClassQuotaExceeded'' None)) (\<lambda>_.
          Inr (granted_seq s1,
               s1\<lparr>granted_seq := Suc (granted_seq s1),
                  granted_issuances := granted_issuances s1 @
                    [new_grant org rid inp ticket (granted_seq s1) at]\<rparr>)))) = Inr (i, s')"
    using assms(1) unfolding reserve_def Let_def allocationCounts_def s1_def
    by (auto simp: and_then_Inr_iff)
  then obtain ev where ev: "getEvent L (g_event inp) = Inr ev" by (auto split: sum.splits)
  show thesis
  proof (rule that [OF ev 2])
    show "ev_status ev = Active \<longrightarrow> capacityHasRoom ev (counts_of s1 (grant_target inp seat))"
      "quotaHasRoom (counts_of s1 (grant_target inp seat))"
      "s' = s1\<lparr>granted_seq := Suc (granted_seq s1), granted_issuances := granted_issuances s1 @
         [new_grant org rid inp ticket (granted_seq s1) at]\<rparr>" "i = granted_seq s1"
      using rest unfolding ev by (auto simp: fallible_iffs)
  qed (rule 1)
qed

lemma new_grant_simps [simp]:
  "granted_event (new_grant org rid inp ticket i at) = g_event inp"
  "granted_class (new_grant org rid inp ticket i at) = g_class inp"
  "granted_id (new_grant org rid inp ticket i at) = i"
  "granted_ticket (new_grant org rid inp ticket i at) = ticket"
  "granted_seat (new_grant org rid inp ticket i at) = ticket"
  "bears_seat (new_grant org rid inp ticket i at)"
  "counted (new_grant org rid inp ticket i at)"
  by (simp_all add: new_grant_def counted_def bears_seat_def)

lemma run_reserve:
  assumes inv: "sales_inv E L (core_of s)" and env: "env_ok E" and seat: "seat_canonical E seat"
    and reserve: "reserve E L org rid inp seat at s = Inr (i, s')"
  shows "spec_run E (L, core_of s) (L, core_of s')"
proof -
  let ?s1 = "lapse_event (g_event inp) at s" and ?t = "grant_target inp seat"
  obtain ev ticket where ev: "getEvent L (g_event inp) = Inr ev"
    and free: "reserve_seat E L ?s1 inp seat (counts_of ?s1 ?t) = Inr ticket"
    and room: "ev_status ev = Active \<longrightarrow> capacityHasRoom ev (counts_of ?s1 ?t)" "quotaHasRoom (counts_of ?s1 ?t)"
    and cls: "\<exists>cl \<in> set (ticket_classes ?s1). class_id cl = g_class inp"
    and s': "s' = ?s1\<lparr>granted_seq := Suc (granted_seq ?s1), granted_issuances := granted_issuances ?s1 @
       [new_grant org rid inp ticket (granted_seq ?s1) at]\<rparr>"
    using reserve by (rule reserve_Inr)
  let ?g = "new_grant org rid inp ticket (granted_seq ?s1) at"
  have run1: "spec_run E (L, core_of s) (L, core_of ?s1)" by (rule run_lapse_event)
  have inv1: "sales_inv E L (core_of ?s1)" using run_inv [OF run1 inv] .
  have seats: "granted_seat ?g \<noteq> seat_ticket E h"
    if h: "h \<in> set (holds ?s1)" "live h" "hold_position h \<noteq> None" for h
  proof (cases seat)
    case None
    with free h(3) show ?thesis by (auto simp: reserve_seat_def seat_ticket_def)
  next
    case (Some x)
    obtain p where p: "hold_position h = Some p" using h(3) by blast
    from Some free have tk: "ticket = Some (ticketId E (g_event inp) (g_zone inp) (seat_position x))"
      and no: "\<not> seatHeld (counts_of ?s1 ?t)"
      by (auto simp: reserve_seat_def fallible_iffs assertFree_def Let_def seatTicketOf_def
          split: if_splits sum.splits)
    show ?thesis
    proof
      assume "granted_seat ?g = seat_ticket E h"
      then have "ticketId E (g_event inp) (g_zone inp) (seat_position x) =
          ticketId E (hold_event h) (hold_zone h) (to_hex p)" by (simp add: tk seat_ticket_def p)
      then have "g_event inp = hold_event h" "g_zone inp = hold_zone h" "seat_position x = to_hex p"
        using env_ticket [OF env] by blast+
      moreover from this have "p = seat_designation x" using seat Some by (simp add: seat_canonical_def)
      ultimately show False
        using no h Some p by (auto simp: counts_of_def exists_where_iff)
    qed
  qed
  have "spec_step E (L, core_of ?s1) (L, (core_of ?s1)\<lparr>c_grants := c_grants (core_of ?s1) @ [?g],
      c_next_grant := Suc (c_next_grant (core_of ?s1))\<rparr>)"
  proof (rule spec_reserve)
    show "grant_room L (core_of ?s1) (granted_event ?g)"
      using ev room(1) capacity_room_load [of ev ?s1 ?t] by (auto simp: grant_room_def)
    show "class_room (core_of ?s1) (granted_class ?g)"
      using class_room_counts [OF room(2)] inv1 cls by (simp add: sales_inv_def)
  qed (use seats in simp_all)
  moreover have "core_of s' = (core_of ?s1)\<lparr>c_grants := c_grants (core_of ?s1) @ [?g],
      c_next_grant := Suc (c_next_grant (core_of ?s1))\<rparr>"
    by (simp add: s' core_of_def)
  ultimately have "spec_run E (L, core_of ?s1) (L, core_of s')" by (simp add: spec_run_step)
  with run1 show ?thesis by (rule spec_run_trans)
qed

lemma run_grants:
  assumes "list_all2 grant_moves (granted_issuances s) gs"
  shows "spec_run E (L, core_of s) (L, core_of (s\<lparr>granted_issuances := gs\<rparr>))"
proof -
  have "spec_step E (L, core_of s) (L, (core_of s)\<lparr>c_grants := gs\<rparr>)" using assms by (intro spec_grants) simp
  then show ?thesis by (simp add: spec_run_step core_of_def)
qed

lemma grant_moves_refl [simp]: "grant_moves g g"
  by (simp add: grant_moves_def same_grant_def)

lemma run_complete_grant:
  assumes "\<forall>g \<in> set (granted_issuances s). granted_id g = i \<longrightarrow> granted_status g = GrantedPending"
  shows "spec_run E (L, core_of s) (L, core_of (complete_grant i sub at s))"
  unfolding complete_grant_def using assms
  by (intro run_grants all2_update_where)
    (auto simp: grant_moves_def same_grant_def completed_grant_def counted_def bears_seat_def split: submission.splits)

lemma run_granted_ticket:
  assumes "\<forall>g \<in> set (granted_issuances s). granted_id g = i \<longrightarrow> granted_seat g = None \<or> granted_seat g = Some t"
  shows "spec_run E (L, core_of s) (L, core_of (set_granted_ticket i t s))"
  unfolding set_granted_ticket_def using assms
  by (intro run_grants all2_update_where)
    (auto simp: grant_moves_def same_grant_def counted_def bears_seat_def)

lemma run_forget: "spec_run E (L, core_of s) (L, core_of (forget_grant i s))"
proof -
  have "core_of (forget_grant i s) =
      (core_of s)\<lparr>c_grants := filter (\<lambda>g. granted_id g \<noteq> i) (c_grants (core_of s))\<rparr>"
    by (simp add: core_of_def forget_grant_def)
  then show ?thesis by (metis spec_forget spec_run_step)
qed

section \<open>The organiser's configuration\<close>

lemma check_class_price: "check_class inp = Inr u \<Longrightarrow> in_price inp = Some p \<Longrightarrow> 0 < p"
  by (cases "in_provenance inp") (auto simp: check_class_def fallible_iffs isPrice_def)

lemma run_class:
  assumes "define_class L' org inp i at s = Inr (k, s')"
  shows "spec_run E (L, core_of s) (L, core_of s')"
proof -
  have k: "k = class_of_input inp i at" "\<forall>c \<in> set (ticket_classes s). class_id c \<noteq> i"
    and s': "s' = s\<lparr>ticket_classes := ticket_classes s @ [k]\<rparr>" and chk: "\<exists>u. check_class inp = Inr u"
    using assms by (auto simp: define_class_def fallible_iffs exists_where_iff Let_def split: if_splits)
  have "spec_step E (L, core_of s) (L, (core_of s)\<lparr>c_classes := c_classes (core_of s) @ [k]\<rparr>)"
    by (rule spec_class) (use k chk check_class_price in \<open>auto simp: class_of_input_def\<close>)
  then show ?thesis by (simp add: s' spec_run_step core_of_def)
qed

lemma run_prices:
  assumes ok: "classes_ok (core_of s)"
    and f: "\<And>c. class_id (f c) = class_id c \<and> quota (f c) = quota c \<and> (\<forall>p. price (f c) = Some p \<longrightarrow> 0 < p)"
  shows "spec_run E (L, core_of s) (L, core_of (s\<lparr>ticket_classes := update_where P f (ticket_classes s)\<rparr>))"
proof -
  have "spec_step E (L, core_of s) (L, (core_of s)\<lparr>c_classes := update_where P f (ticket_classes s)\<rparr>)"
  proof (rule spec_prices)
    show "list_all2 (\<lambda>k k'. class_id k' = class_id k \<and> quota k' = quota k) (c_classes (core_of s))
        (update_where P f (ticket_classes s))"
      using f by (simp add: all2_update_where)
    fix k p assume "k \<in> set (update_where P f (ticket_classes s))" "price k = Some p"
    then show "0 < p" using ok f by (auto simp: set_update_where classes_ok_def split: if_splits)
  qed
  then show ?thesis by (simp add: spec_run_step core_of_def)
qed

lemma run_setPrice:
  assumes "classes_ok (core_of s)" "setPrice L' org e i p at s = Inr (k, s')"
  shows "spec_run E (L, core_of s) (L, core_of s')"
proof -
  have "s' = s\<lparr>ticket_classes := update_where (priced_class e i)
      (\<lambda>c. c\<lparr>price := Some p, price_set_at := Some at\<rparr>) (ticket_classes s)\<rparr>" "0 < p"
    using assms(2) by (auto simp: setPrice_def fallible_iffs Let_def isPrice_def split: option.splits if_splits)
  then show ?thesis using run_prices [OF assms(1)] by simp
qed

lemma upsert_asset_core: "core_of (upsert_asset org rid e a at s) = core_of s"
  by (simp add: upsert_asset_def Let_def core_of_def)

lemma run_set_asset:
  assumes "classes_ok (core_of s)" "set_asset L' org rid e a at s = Inr (v, s')"
  shows "spec_run E (L, core_of s) (L, core_of s')"
proof -
  have "core_of s' = core_of s \<or> core_of s' = core_of (clear_prices e at s)"
    using assms(2)
    by (auto simp: set_asset_def fallible_iffs Let_def upsert_asset_core split: if_splits)
  moreover have "spec_run E (L, core_of s) (L, core_of (clear_prices e at s))"
    unfolding clear_prices_def by (rule run_prices [OF assms(1)]) simp
  ultimately show ?thesis by auto
qed

section \<open>Cancellation refunds\<close>

lemma run_cancellation_refund:
  assumes x: "x \<in> set (primary_sales s)" "sale_status x = SaleIssued \<or> sale_status x = SaleFailed"
    and f: "rf_hosted f = sale_hosted x" "sale_ticket x = Some (rf_ticket f)"
  shows "spec_run E (L, core_of s) (L, core_of (snd (insert_cancellation_refund q f amount ast holder i at s)))"
proof (cases "exists_where (\<lambda>r. refund_id r = i \<or> refund_hosted r = rf_hosted f \<or>
           refund_ticket r = Some (rf_ticket f)) (refund_entitlements s)")
  case True
  then show ?thesis by (simp add: insert_cancellation_refund_def)
next
  case False
  let ?r = "\<lparr>refund_id = i, refund_hosted = rf_hosted f, refund_checkout = rf_checkout f,
      refund_amount = amount, refund_asset = ast, refund_reason = EventCancelled, refund_created_at = at,
      refund_ticket = Some (rf_ticket f), refund_purchaser = Some (rf_purchaser f),
      holder_at_cancellation = Some holder\<rparr>"
  have "spec_step E (L, core_of s) (L, (core_of s)\<lparr>c_refunds := c_refunds (core_of s) @ [?r]\<rparr>)"
    by (rule spec_cancellation_refund [where x = x]) (use x f False in \<open>auto simp: exists_where_iff\<close>)
  moreover have "core_of (snd (insert_cancellation_refund q f amount ast holder i at s)) =
      (core_of s)\<lparr>c_refunds := c_refunds (core_of s) @ [?r]\<rparr>"
    using False by (simp add: insert_cancellation_refund_def core_audit)
  ultimately show ?thesis by (simp add: spec_run_step)
qed

section \<open>The ledger\<close>

lemma check_decrease_Inr:
  assumes "check_decrease L0 org e cap at s = Inr s1"
  shows "s1 = s \<or> s1 = lapse_event e at s"
    "getEvent L0 e = Inr ev \<Longrightarrow> ev_status ev = Active \<Longrightarrow> int (event_load e (core_of s1)) \<le> cap"
    "audit_log s1 = audit_log s"
proof -
  obtain ev0 where ev0: "getEvent L0 e = Inr ev0"
    using assms by (auto simp: check_decrease_def fallible_iffs ownedEvent_def split: sum.splits option.splits)
  consider "ev_status ev0 \<noteq> Active" "s1 = s"
    | "canDecreaseCapacity L0 e cap at s = Inr (True, s1)"
    using assms ev0 by (auto simp: check_decrease_def fallible_iffs ownedEvent_def split: if_splits option.splits)
  note cases = this
  show "s1 = s \<or> s1 = lapse_event e at s"
    using cases by cases (auto simp: canDecreaseCapacity_def allocationCounts_def event_target_def Let_def split: sum.splits)
  then show "audit_log s1 = audit_log s" by (auto simp: lapse_event_def)
  assume ev: "getEvent L0 e = Inr ev" "ev_status ev = Active"
  with ev0 cases have "canDecreaseCapacity L0 e cap at s = Inr (True, s1)" by auto
  then have "allocatedCount ev (counts_of s1 (event_target e)) \<le> cap"
    using ev(1) by (auto simp: canDecreaseCapacity_def allocationCounts_def event_target_def Let_def)
  then show "int (event_load e (core_of s1)) \<le> cap"
    using counts_event_load [of "event_target e" s1] by (simp add: allocatedCount_def event_target_def)
qed

lemma relay_write_core [simp]: "core_of (snd (relay_write req kind w at s)) = core_of s"
  by (simp add: relay_write_def audit_record_def audit_complete_def core_of_def Let_def split: written.splits)

lemma run_decrease:
  assumes moved: "ledger_moves L0 L" and dec: "decrease_capacity L0 org req e cap w at s = (res, s')"
  shows "spec_run E (L, core_of s) (decrease_ledger L0 org e cap w at s L, core_of s')"
proof (cases "check_decrease L0 org e cap at s")
  case (Inl err)
  with dec show ?thesis by (simp add: decrease_capacity_def decrease_ledger_def)
next
  case (Inr s1)
  note checked = check_decrease_Inr [OF Inr]
  have load: "int (event_load e (core_of s1)) \<le> cap" if ev: "getEvent L e = Inr ev" "ev_status ev = Active" for ev
  proof -
    obtain ev0 where ev0: "getEvent L0 e = Inr ev0"
      using Inr by (auto simp: check_decrease_def fallible_iffs ownedEvent_def split: sum.splits option.splits)
    with moved ev have "ev_status ev0 = Active" by (force simp: ledger_moves_def)
    with checked(2) ev0 show ?thesis by blast
  qed
  have run1: "spec_run E (L, core_of s) (L, core_of s1)" using checked(1) run_lapse_event by auto
  have cmd: "decrease_ledger L0 org e cap w at s L = capacity_command e cap (sent_command w s) L"
    using Inr by (simp add: decrease_ledger_def)
  show ?thesis
  proof (cases "settledOrThrow (fst (relay_write req ''setEventCapacity'' w at s))")
    case (Inr cur)
    then have "capacity_command e cap (sent_command w s) L = set_capacity e cap L"
      by (auto simp: relay_write_def sent_command_def settledOrThrow_def audit_record_def verdict_of_def
          capacity_command_def split: written.splits if_splits sum.splits submission.splits)
    moreover have "core_of s' = core_of s1"
      using dec \<open>check_decrease L0 org e cap at s = Inr s1\<close> Inr by (auto simp: decrease_capacity_def)
    moreover have "spec_step E (L, core_of s1) (set_capacity e cap L, core_of s1)"
      using load by (intro spec_decrease) blast
    ultimately show ?thesis using run1 cmd by (metis spec_run_step spec_run_trans)
  next
    case (Inl err)
    then have "capacity_command e cap (sent_command w s) L = L \<or>
        capacity_command e cap (sent_command w s) L = leave_in_flight e cap L"
      by (auto simp: relay_write_def sent_command_def settledOrThrow_def audit_record_def verdict_of_def
          capacity_command_def split: written.splits if_splits sum.splits submission.splits)
    moreover have "core_of s' = core_of s"
      using dec \<open>check_decrease L0 org e cap at s = Inr s1\<close> Inl by (auto simp: decrease_capacity_def)
    ultimately show ?thesis using cmd spec_flight [of E L "core_of s"] by (metis spec_run_refl spec_run_step)
  qed
qed

end
