(* ===== verification/SalesSystem.thy ===== *)
theory SalesSystem
  imports Refinement
begin

text \<open>
  The program as a state machine: one rule per transaction of the code, over the ledger and
  the whole store, in any order and with any arguments, so the rules cover every
  interleaving of the requests, webhooks and background passes the server runs.  Every step
  refines \<open>SalesSpec\<close>; every reachable store has the invariants; and the operations of
  \<open>Payments\<close> and \<open>Checkouts\<close> are sequences of these steps.
\<close>

section \<open>Steps\<close>

text \<open>The tables the machine does not track: seats, invitations, schedules, logs and the like.\<close>

definition elsewhere :: "store \<Rightarrow> store \<Rightarrow> bool" where
  "elsewhere s s' \<longleftrightarrow> s' = s\<lparr>seat_positions := seat_positions s', organiser_events := organiser_events s',
     derived_tickets := derived_tickets s', organiser_accounts := organiser_accounts s',
     invitations := invitations s', finish_schedules := finish_schedules s', audit_log := audit_log s',
     pass_windows := pass_windows s'\<rparr>"

text \<open>
  The SDK derives the ticket of a seat as \<open>reserve\<close> does, so an issuance that reserved a seat is
  assembled with that seat's ticket (\<open>step_grant_ticket\<close>).  A decrease checks the ledger \<open>L0\<close> of
  some time before its verdict.  The approval of an increase raises the capacity
  (\<open>step_ledger\<close>) or, with no verdict, is in flight (\<open>step_approval\<close>); whatever is in flight may
  take effect at any time later (\<open>step_late\<close>).
\<close>

inductive step :: "env \<Rightarrow> ledger \<times> store \<Rightarrow> ledger \<times> store \<Rightarrow> bool" for E :: env where
  step_begin: "check_pick E L0 inp s0 = Inr pos \<Longrightarrow> begin_tx E req inp pos token i at s = Inr (u, s') \<Longrightarrow>
    step E (L, s) (L, s')"
| step_link: "step E (L, s) (L, link_tx req found acc sess at s)"
| step_confirm: "step E (L, s) (L, confirm_tx req row acc at s)"
| step_discard: "step E (L, s) (L, discard_tx E req row token at s)"
| step_place: "k \<in> set (checkout_sessions s) \<Longrightarrow> holder_account k \<noteq> None \<Longrightarrow> link_confirmed_at k \<noteq> None \<Longrightarrow>
    place E L req (checkout_id k) (target_of k) at i s = Inr (r, s') \<Longrightarrow> step E (L, s) (L, s')"
| step_lapse_event: "step E (L, s) (L, lapse_event e at s)"
| step_lapse: "step E (L, s) (L, lapse_all at s)"
| step_extend: "step E (L, s) (L, snd (Holds.extend c at s))"
| step_release: "step E (L, s) (L, snd (release c at s))"
| step_give_up: "step E (L, s) (L, snd (releaseHold i at s))"
| step_force_release: "step E (L, s) (L, snd (force_release i at s))"
| step_status: "step E (L, s) (L, recordStatus i st at s)"
| step_audit: "st \<noteq> PaymentVerified \<Longrightarrow> step E (L, s) (L, recordCheckoutStep c st q at d s)"
| step_extend_payment: "hold_by_id s i = Some h \<Longrightarrow> hold_status h = Outstanding \<Longrightarrow>
    step E (L, s) (L, snd (extend_for_payment h at s))"
| step_start_payment: "h0 \<in> set (holds s) \<Longrightarrow> same_terms h0 h \<Longrightarrow> hold_price h = Some amount \<Longrightarrow>
    hold_asset h = Some ast \<Longrightarrow> record_payment E req h r amount ast exp i at s = Inr (k, s') \<Longrightarrow>
    step E (L, s) (L, s')"
| step_take: "k \<in> set (hosted_checkouts s) \<Longrightarrow> takePlace E L q k r at D s = Inr (res, s') \<Longrightarrow>
    step E (L, s) (L, s')"
| step_ticket: "\<forall>y \<in> set (primary_sales s). sale_id y = x \<longrightarrow> sale_status y = SaleIssuing \<Longrightarrow>
    step E (L, s) (L, set_ticket x t s)"
| step_operation: "step E (L, s) (L, recordOperation x oper s)"
| step_complete: "x \<in> set (primary_sales s) \<Longrightarrow> sale_status x = SaleIssuing \<Longrightarrow> hosted_id k = sale_hosted x \<Longrightarrow>
    h0 \<in> set (holds s) \<Longrightarrow> same_terms h0 h \<Longrightarrow> hold_id h = sale_hold x \<Longrightarrow>
    complete q k (sale_id x) h oper d at D s = Inr (u, s') \<Longrightarrow> step E (L, s) (L, s')"
| step_close: "step E (L, s) (L, close_sales e q at s)"
| step_reopen: "step E (L, s) (L, snd (reopenSales e q at s))"
| step_reserve: "grant_placement E s0 ev inp disc = Inr (seat, pl) \<Longrightarrow>
    reserve E L org rid inp seat at s = Inr (i, s') \<Longrightarrow> step E (L, s) (L, s')"
| step_granted: "\<forall>g \<in> set (granted_issuances s). granted_id g = i \<longrightarrow> granted_status g = GrantedPending \<Longrightarrow>
    step E (L, s) (L, complete_grant i sub at s)"
| step_grant_ticket: "\<forall>g \<in> set (granted_issuances s). granted_id g = i \<longrightarrow> granted_seat g = None \<or>
    granted_seat g = Some t \<Longrightarrow> step E (L, s) (L, set_granted_ticket i t s)"
| step_forget: "step E (L, s) (L, forget_grant i s)"
| step_class: "define_class L org inp i at s = Inr (k, s') \<Longrightarrow> step E (L, s) (L, s')"
| step_price: "setPrice L org e i p at s = Inr (k, s') \<Longrightarrow> step E (L, s) (L, s')"
| step_asset: "set_asset L org rid e a at s = Inr (v, s') \<Longrightarrow> step E (L, s) (L, s')"
| step_cancellation_refund: "x \<in> set (primary_sales s) \<Longrightarrow> sale_status x = SaleIssued \<or> sale_status x = SaleFailed \<Longrightarrow>
    rf_hosted f = sale_hosted x \<Longrightarrow> sale_ticket x = Some (rf_ticket f) \<Longrightarrow>
    step E (L, s) (L, snd (insert_cancellation_refund q f amount ast holder i at s))"
| step_elsewhere: "elsewhere s s' \<Longrightarrow> step E (L, s) (L, s')"
| step_ledger: "ledger_moves L L' \<Longrightarrow> step E (L, s) (L', s)"
| step_decrease: "ledger_moves L0 L \<Longrightarrow> decrease_capacity L0 org req e cap w at s = (res, s') \<Longrightarrow>
    step E (L, s) (decrease_ledger L0 org e cap w at s L, s')"
| step_approval: "step E (L, s) (leave_in_flight e cap L, s)"
| step_late: "(e, cap) \<in> set (inFlight L) \<Longrightarrow> step E (L, s) (land_late e cap L, s)"

section \<open>Refinement\<close>

definition sys_inv :: "env \<Rightarrow> ledger \<times> store \<Rightarrow> bool" where
  "sys_inv E w \<longleftrightarrow> sales_inv E (fst w) (core_of (snd w))"

lemma run_holds_update:
  assumes "\<And>h. h \<in> set (holds s) \<Longrightarrow> P h \<Longrightarrow> ended_or_kept h (f h)"
  shows "spec_run E (L, core_of s) (L, core_of (s\<lparr>holds := update_where P f (holds s)\<rparr>))"
  using assms by (intro run_ends) (simp_all add: ends_update core_of_def)

lemma same_core: "core_of s' = core_of s \<Longrightarrow> spec_run E (L, core_of s) (L, core_of s')"
  by simp

lemma elsewhere_core: "elsewhere s s' \<Longrightarrow> core_of s' = core_of s"
  unfolding elsewhere_def by (erule ssubst) (simp add: core_of_def)

lemma close_sales_core: "core_of (close_sales e q at s) = core_of s"
  by (simp add: close_sales_def core_of_def)

lemma reopenSales_core: "core_of (snd (reopenSales e q at s)) = core_of s"
  by (simp add: reopenSales_def Let_def core_of_def)

lemma run_place_checkout:
  assumes "sales_inv E L (core_of s)" "k \<in> set (checkout_sessions s)"
    and "place E L req (checkout_id k) (target_of k) at i s = Inr (r, s')"
  shows "spec_run E (L, core_of s) (L, core_of s')"
proof (rule run_place [OF assms(1) _ assms(3)])
  show "normal_position E (t_position (target_of k))"
    using assms(1,2) by (simp add: sales_inv_def positions_ok_def)
qed

lemma run_start_payment:
  assumes "h0 \<in> set (holds s)" "same_terms h0 h" "hold_price h = Some amount" "hold_asset h = Some ast"
    and "record_payment E' req h r amount ast exp i at s = Inr (k, s')"
  shows "spec_run E (L, core_of s) (L, core_of s')"
proof -
  have "record_payment E' req h0 r amount ast exp i at s = Inr (k, s')"
    using assms(2,5) by (simp add: record_payment_def new_hosted_def same_terms_def)
  moreover have "hold_price h0 = Some amount" "hold_asset h0 = Some ast"
    using assms(2-4) by (simp_all add: same_terms_def)
  ultimately show ?thesis using run_record_payment [OF assms(1)] by blast
qed

theorem step_refines:
  assumes "step E (L, s) (L', s')" "sales_inv E L (core_of s)" "env_ok E"
  shows "spec_run E (L, core_of s) (L', core_of s')"
proof -
  have pos: "positions_ok E (core_of s)" and cls: "classes_ok (core_of s)" and keys: "distinct_keys (core_of s)"
    using assms(2) by (simp_all add: sales_inv_def)
  show ?thesis
    using assms(1)
  proof (cases rule: step.cases)
    case step_begin
    then show ?thesis using run_begin [OF pos] check_pick_normal [OF assms(3)] by blast
  next
    case step_place
    then show ?thesis using run_place_checkout [OF assms(2)] by blast
  next
    case step_lapse
    then show ?thesis
      unfolding lapse_all_def by simp (intro run_holds_update kept_lapse)
  next
    case step_extend
    then show ?thesis
      by (simp add: Holds.extend_def) (intro run_holds_update kept_extend; simp add: can_extend_def)
  next
    case step_release
    then show ?thesis
      by (simp add: release_def) (intro run_holds_update kept_release; simp add: can_release_def)
  next
    case step_extend_payment
    then show ?thesis using run_extend_payment [OF keys] by simp
  next
    case step_start_payment
    then show ?thesis using run_start_payment by blast
  next
    case step_take
    then show ?thesis using run_take [OF assms(2)] by blast
  next
    case step_complete
    then show ?thesis using run_complete [OF assms(2)] by blast
  next
    case step_close
    then show ?thesis by (simp add: same_core close_sales_core)
  next
    case step_reopen
    then show ?thesis by (simp add: same_core reopenSales_core)
  next
    case step_reserve
    then show ?thesis using run_reserve [OF assms(2,3) grant_placement_canonical [OF assms(3)]] by blast
  next
    case step_elsewhere
    then show ?thesis by (simp add: elsewhere_core)
  next
    case step_ledger
    then show ?thesis by (simp add: spec_ledger spec_run_step)
  qed (use pos cls in \<open>auto intro: run_link run_confirm run_discard run_lapse_event run_releaseHold
      run_force_release run_status run_set_ticket run_operation run_complete_grant run_granted_ticket
      run_forget run_class run_setPrice run_set_asset run_cancellation_refund run_decrease spec_flight spec_late spec_run_step
      simp: core_audit\<close>)
qed

definition steps :: "env \<Rightarrow> ledger \<times> store \<Rightarrow> ledger \<times> store \<Rightarrow> bool" where
  "steps E = (step E)\<^sup>*\<^sup>*"

text \<open>Reachable: from an empty store, whatever the ledger holds.\<close>

definition reachable :: "env \<Rightarrow> ledger \<Rightarrow> store \<Rightarrow> bool" where
  "reachable E L s \<longleftrightarrow> (\<exists>L0. steps E (L0, empty_store) (L, s))"

lemma steps_sys_inv:
  assumes "steps E w w'" "sys_inv E w" "env_ok E"
  shows "sys_inv E w'"
  using assms(1,2) unfolding steps_def
proof (induction rule: rtranclp_induct)
  case (step y z)
  then show ?case
    using step_refines [of E "fst y" "snd y" "fst z" "snd z"] assms(3) run_inv
    unfolding sys_inv_def by (metis prod.collapse)
qed

lemma reachable_inv: "reachable E L s \<Longrightarrow> env_ok E \<Longrightarrow> sales_inv E L (core_of s)"
  unfolding reachable_def using steps_sys_inv sales_inv_empty by (fastforce simp: sys_inv_def)

end
