(* ===== verification/Operations.thy ===== *)
theory Operations
  imports SalesSystem
begin

text \<open>
  The operations of \<open>Payments\<close>, \<open>Checkouts\<close> and \<open>SaleActions\<close>, from request to answer, are
  sequences of the steps of \<open>SalesSystem\<close>: whatever the payment provider and the ledger
  answer, they lead from reachable stores to reachable stores.
\<close>

section \<open>Sequences of steps\<close>

lemma steps_refl [simp, intro]: "steps E w w"
  by (simp add: steps_def)

lemma steps_step: "step E w w' \<Longrightarrow> steps E w w'"
  by (simp add: steps_def)

lemma steps_trans [trans]: "steps E w w' \<Longrightarrow> steps E w' w'' \<Longrightarrow> steps E w w''"
  by (simp add: steps_def)

lemma steps_inv:
  assumes "steps E (L, s) (L', s')" "sales_inv E L (core_of s)" "env_ok E"
  shows "sales_inv E L' (core_of s')"
  using steps_sys_inv [OF assms(1)] assms(2,3) by (simp add: sys_inv_def)

section \<open>Reconciling\<close>

lemma takePlace_Some:
  assumes "takePlace E L q k r at D s = Inr (Some (x, h), s')"
  shows "hold_by_id s (hosted_hold k) = Some h"
    "\<exists>y \<in> set (primary_sales s'). sale_id y = x \<and> sale_status y = SaleIssuing \<and>
       sale_hosted y = hosted_id k \<and> sale_hold y = hold_id h"
    "\<forall>y \<in> set (primary_sales s'). sale_id y = x \<longrightarrow> sale_status y = SaleIssuing"
proof -
  define s2 where "s2 h0 = verified_step q k r h0 at (recordStatus (hosted_id k) (remote_status r) at s)" for h0
  obtain h0 c where h0: "hold_by_id s (hosted_hold k) = Some h0"
    and take: "take_verified E L q k r h0 c at D (s2 h0) = Inr (Some (x, h), s')"
    using assms by (auto simp: takePlace_def Let_def fallible_iffs s2_def split: option.splits if_splits)
  have "\<not> (remote_amount r \<noteq> hosted_amount k \<or> remote_asset r \<noteq> hosted_asset k)"
    using take by (auto simp: take_verified_def refund_mismatch_def fallible_iffs split: if_splits)
  moreover have "\<not> salesClosed (s2 h0) (hold_event h0)"
    using take by (auto simp: take_verified_def refund_mismatch_def refund_closed_def fallible_iffs Let_def
        split: if_splits prod.splits)
  ultimately have "take_free E L q k r h0 c at D (s2 h0) = Inr (Some (x, h), s')"
    using take by (simp add: take_verified_def)
  then obtain s3 where placed: "settle_place q k r h0 (holder_account c) True at D s3 = Inr (Some (x, h), s')"
    by (cases rule: take_free_cases) (use settle_place_False in fastforce)+
  then obtain a s4 where ins: "insert_sale (new_sale (draw_sale D (hosted_id k)) k h0 a at) s4 = Inr s'"
    and x: "x = draw_sale D (hosted_id k)" "h = h0"
    using settle_place_True by blast
  show "hold_by_id s (hosted_hold k) = Some h" using h0 x by simp
  show "\<exists>y \<in> set (primary_sales s'). sale_id y = x \<and> sale_status y = SaleIssuing \<and>
       sale_hosted y = hosted_id k \<and> sale_hold y = hold_id h"
    "\<forall>y \<in> set (primary_sales s'). sale_id y = x \<longrightarrow> sale_status y = SaleIssuing"
    using ins x by (auto simp: insert_sale_def new_sale_def exists_where_iff split: if_splits)
qed

lemma set_ticket_sale:
  assumes "y \<in> set (primary_sales s)" "sale_status y = SaleIssuing"
  shows "\<exists>y' \<in> set (primary_sales (recordOperation x oper (set_ticket x t s))). sale_id y' = sale_id y \<and>
    sale_status y' = SaleIssuing \<and> sale_hosted y' = sale_hosted y \<and> sale_hold y' = sale_hold y"
proof -
  let ?f = "\<lambda>y. if sale_id y = x then y\<lparr>sale_ticket := Some t\<rparr> else y"
  let ?g = "\<lambda>y. if sale_id y = x then y\<lparr>operation_id := oper\<rparr> else y"
  have "?g (?f y) \<in> set (primary_sales (recordOperation x oper (set_ticket x t s))) \<or>
      ?f y \<in> set (primary_sales (recordOperation x oper (set_ticket x t s)))"
    using assms(1) by (cases oper) (auto simp: recordOperation_def set_ticket_def set_update_where image_image)
  then show ?thesis using assms(2) by (auto intro: bexI [rotated])
qed

lemma complete_steps:
  assumes "x \<in> set (primary_sales s)" "sale_status x = SaleIssuing" "sale_hosted x = hosted_id k"
    "h0 \<in> set (holds s)" "same_terms h0 h" "hold_id h = sale_hold x"
  shows "steps E (L, s) (L, snd (in_transaction (complete q k (sale_id x) h oper d at D) s))"
proof (cases "complete q k (sale_id x) h oper d at D s")
  case (Inl e)
  then show ?thesis by (simp add: in_transaction_def)
next
  case (Inr r)
  obtain s' where r: "r = ((), s')" by (cases r) simp
  have "step E (L, s) (L, s')"
    by (rule step_complete [OF assms(1,2) _ assms(4-6)]) (use assms(3) Inr r in simp_all)
  with Inr r show ?thesis by (simp add: in_transaction_def steps_step)
qed

lemma issue_steps:
  assumes x: "\<exists>y \<in> set (primary_sales s). sale_id y = x \<and> sale_status y = SaleIssuing \<and>
       sale_hosted y = hosted_id k \<and> sale_hold y = hold_id h"
    and only: "\<forall>y \<in> set (primary_sales s). sale_id y = x \<longrightarrow> sale_status y = SaleIssuing"
    and h: "h0 \<in> set (holds s)" "same_terms h0 h"
  shows "steps E (L, s) (L, snd (issue E R q k x h c at D s))"
proof -
  obtain y where y: "y \<in> set (primary_sales s)" "sale_id y = x" "sale_status y = SaleIssuing"
    "sale_hosted y = hosted_id k" "sale_hold y = hold_id h" using x by blast
  show ?thesis
  proof (cases "issue_attempt E R q k h c D s")
    case (NothingSigned e)
    have "steps E (L, s) (L, snd (in_transaction (complete q k (sale_id y) h None (CompleteRejected None) at D) s))"
      by (rule complete_steps [OF y(1,3,4) h]) (simp add: y(5))
    with NothingSigned y(2) show ?thesis by (simp add: issue_def)
  next
    case (Assembled t oper sub)
    let ?s2 = "recordOperation x oper (set_ticket x t s)"
    have "steps E (L, s) (L, set_ticket x t s)" by (rule steps_step [OF step_ticket [OF only]])
    also have "steps E (L, set_ticket x t s) (L, ?s2)" by (rule steps_step [OF step_operation])
    finally have to2: "steps E (L, s) (L, ?s2)" .
    obtain y' where y': "y' \<in> set (primary_sales ?s2)" "sale_id y' = x" "sale_status y' = SaleIssuing"
      "sale_hosted y' = hosted_id k" "sale_hold y' = hold_id h"
      using set_ticket_sale [OF y(1,3), of x oper t] y by auto
    have h2: "h0 \<in> set (holds ?s2)"
      using h(1) by (simp add: recordOperation_def set_ticket_def split: option.splits)
    have "steps E (L, ?s2) (L, snd (in_transaction (complete q k (sale_id y') h oper d at D) ?s2))" for d
      by (rule complete_steps [OF y'(1,3,4) h2 h(2)]) (simp add: y'(5))
    with to2 Assembled y'(2) show ?thesis by (simp add: issue_def Let_def) (metis steps_trans)
  qed
qed

lemma step_terms_kept:
  assumes "steps E (L, s) (L', s')" "sales_inv E L (core_of s)" "env_ok E"
  shows "terms_kept (holds s) (holds s')"
proof -
  have run: "spec_run E w w' \<Longrightarrow> terms_kept (c_holds (snd w)) (c_holds (snd w'))" for w w'
    unfolding spec_run_def
  proof (induction rule: rtranclp_induct)
    case base
    show ?case using terms_kept_refl [of _ "[]"] by simp
  next
    case (step y z)
    then have "terms_kept (c_holds (snd y)) (c_holds (snd z))"
      using spec_step_terms_kept by (metis prod.collapse)
    with step.IH show ?case
      unfolding terms_kept_def same_terms_def by metis
  qed
  have "steps E w w' \<Longrightarrow> sys_inv E w \<Longrightarrow> terms_kept (holds (snd w)) (holds (snd w'))" for w w'
    unfolding steps_def
  proof (induction rule: rtranclp_induct)
    case base
    show ?case using terms_kept_refl [of _ "[]"] by simp
  next
    case (step y z)
    then have "sys_inv E y" using steps_sys_inv assms(3) unfolding steps_def by blast
    then have "spec_run E (fst y, core_of (snd y)) (fst z, core_of (snd z))"
      using step_refines step.hyps(2) assms(3) unfolding sys_inv_def by (metis prod.collapse)
    then have "terms_kept (holds (snd y)) (holds (snd z))" using run by fastforce
    with step.IH [OF step.prems] show ?case unfolding terms_kept_def same_terms_def by metis
  qed
  then show ?thesis using assms(1,2) by (fastforce simp: sys_inv_def)
qed

lemma reconcile_steps:
  assumes inv: "sales_inv (s_env X) (s_ledger X) (core_of s)" and env: "env_ok (s_env X)"
    and rec: "reconcile X rid pid who at D (s, p) = (res, s', p')"
  shows "steps (s_env X) (s_ledger X, s) (s_ledger X, s')"
proof -
  let ?S = "\<lambda>a b. steps (s_env X) (s_ledger X, a) (s_ledger X, b)"
  let ?q = "\<lparr>cause_request = rid, cause_actor = who\<rparr>"
  show ?thesis
  proof (cases "find (\<lambda>k. provider_checkout_id k = pid) (hosted_checkouts s)")
    case None
    with rec show ?thesis by (simp add: reconcile_def)
  next
    case (Some k)
    then have k: "k \<in> set (hosted_checkouts s)" by (auto dest: find_Some_in)
    obtain ret p1 where ret: "retrieve (s_provider X) pid p = (ret, p1)" by fastforce
    show ?thesis
    proof (cases ret)
      case (Inl e)
      with rec Some ret show ?thesis by (simp add: reconcile_def)
    next
      case (Inr r)
      let ?take = "takePlace (s_env X) (s_ledger X) ?q k r at D s"
      consider "remote_hold r \<noteq> Some (hosted_hold k)"
        | "remote_hold r = Some (hosted_hold k)" "remote_status r \<noteq> Paid"
        | (paid) "remote_hold r = Some (hosted_hold k)" "remote_status r = Paid" by blast
      then show ?thesis
      proof cases
        case 1
        with rec Some ret Inr show ?thesis by (simp add: reconcile_def)
      next
        case 2
        with rec Some ret Inr show ?thesis by (auto simp: reconcile_def intro: steps_step step_status)
      next
        case paid
        show ?thesis
        proof (cases ?take)
          case (Inl e)
          with rec Some ret Inr paid show ?thesis by (simp add: reconcile_def in_transaction_def)
        next
          case taken: (Inr out)
          obtain o1 s1 where out: "out = (o1, s1)" by fastforce
          have to1: "?S s s1" using steps_step [OF step_take [OF k]] taken out by blast
          show ?thesis
          proof (cases o1)
            case None
            with rec Some ret Inr paid taken out to1 show ?thesis
              by (simp add: reconcile_def in_transaction_def)
          next
            case sold: (Some xh)
            obtain x h where xh: "xh = (x, h)" by fastforce
            note sale = takePlace_Some [OF taken [unfolded out sold xh]]
            have "h \<in> set (holds s)" using sale(1) by (auto simp: hold_by_id_def dest: find_Some_in)
            then obtain h1 where h1: "h1 \<in> set (holds s1)" "same_terms h h1"
              using step_terms_kept [OF to1 inv env] unfolding terms_kept_def by blast
            then have "same_terms h1 h" by (simp add: same_terms_def)
            then have "?S s1 (snd (issue (s_env X) (s_relay X) ?q k x h c at D s1))" for c
              by (rule issue_steps [OF sale(2,3) h1(1)])
            with to1 have "?S s (snd (issue (s_env X) (s_relay X) ?q k x h c at D s1))" for c
              by (rule steps_trans)
            with rec Some ret Inr paid taken out sold xh to1 show ?thesis
              by (auto simp: reconcile_def in_transaction_def split: option.splits prod.splits)
                (metis snd_conv)
          qed
        qed
      qed
    qed
  qed
qed

lemma reconcile_each_steps:
  assumes "sales_inv (s_env X) (s_ledger X) (core_of s)" "env_ok (s_env X)"
    and "reconcile_each X rid pids who at D (s, p) = (res, s', p')"
  shows "steps (s_env X) (s_ledger X, s) (s_ledger X, s')"
  using assms(1,3)
proof (induction pids arbitrary: s p)
  case Nil
  then show ?case by simp
next
  case (Cons i pids)
  obtain r1 s1 p1 where one: "reconcile X rid i who at D (s, p) = (r1, s1, p1)"
    by (cases "reconcile X rid i who at D (s, p)") auto
  have to1: "steps (s_env X) (s_ledger X, s) (s_ledger X, s1)"
    by (rule reconcile_steps [OF Cons.prems(1) assms(2) one])
  show ?case
  proof (cases r1)
    case (Inl e)
    with Cons.prems(2) one to1 show ?thesis by simp
  next
    case (Inr u)
    have "steps (s_env X) (s_ledger X, s1) (s_ledger X, s')"
      using Cons.IH [OF steps_inv [OF to1 Cons.prems(1) assms(2)]] Cons.prems(2) one Inr by simp
    with to1 show ?thesis by (rule steps_trans)
  qed
qed

lemma cancelHosted_steps:
  assumes "cancelHosted X k at (s, p) = (res, s', p')"
  shows "steps E (L, s) (L, s')"
  using assms by (auto simp: cancelHosted_def split: prod.splits sum.splits if_splits
      intro: steps_step step_status)

section \<open>Paying and giving up\<close>

lemma payable_Inr:
  assumes "payable E s token at = Inr (h, amount, ast)"
  shows "h \<in> set (holds s)" "hold_status h = Outstanding" "expires_at h > at" "hold_price h = Some amount"
    "hold_asset h = Some ast" "\<not> salesClosed s (hold_event h)"
  using assms
  by (auto simp: payable_def holdByToken_def hold_of_checkout_def fallible_iffs split: option.splits
      dest: find_Some_in)

lemma hold_by_id_self:
  assumes "distinct_keys (core_of s)" "h \<in> set (holds s)"
  shows "hold_by_id s (hold_id h) = Some h"
  using find_key [of hold_id "holds s" h] assms by (simp add: hold_by_id_def distinct_keys_def)

lemma start_payment_steps:
  assumes keys: "distinct_keys (core_of s)" and h: "h \<in> set (holds s)" "hold_status h = Outstanding"
    and terms: "hold_price h = Some amount" "hold_asset h = Some ast"
    and start: "start_payment X req inp h amount ast at D (s, p) = (Inr (k, s'), p')"
  shows "steps (s_env X) (L, s) (L, s')"
proof -
  let ?s1 = "snd (extend_for_payment h at s)"
  obtain exp r where rec: "record_payment (s_env X) req h r amount ast exp (draw_hosted D (hold_id h)) at ?s1 = Inr (k, s')"
    using start by (auto simp: start_payment_def Let_def split: prod.splits sum.splits)
  have to1: "steps (s_env X) (L, s) (L, ?s1)"
    by (rule steps_step [OF step_extend_payment [OF hold_by_id_self [OF keys h(1)] h(2)]])
  have "\<exists>h0 \<in> set (holds ?s1). same_terms h0 h"
  proof -
    let ?h = "if extended_at h \<noteq> None then h
      else h\<lparr>expires_at := expires_at h + HOLD_EXTENSION_MS, extended_at := Some at\<rparr>"
    have "?h \<in> set (holds ?s1)"
      using h(1) by (auto simp: extend_for_payment_def set_update_where)
    moreover have "same_terms ?h h" by (simp add: same_terms_def)
    ultimately show ?thesis by blast
  qed
  then obtain h0 where "h0 \<in> set (holds ?s1)" "same_terms h0 h" by blast
  then have "steps (s_env X) (L, ?s1) (L, s')"
    by (intro steps_step step_start_payment [OF _ _ terms rec])
  with to1 show ?thesis by (rule steps_trans)
qed

lemma commit_steps:
  assumes "\<And>k s1 p1. r = (Inr (k, s1), p1) \<Longrightarrow> steps E (L, s) (L, s1)"
    and "commit_or_rollback s r = (res, s', p')"
  shows "steps E (L, s) (L, s')"
  using assms by (cases r) (auto simp: commit_or_rollback_def split: sum.splits)

lemma pay_steps:
  assumes inv: "sales_inv (s_env X) (s_ledger X) (core_of s)" and env: "env_ok (s_env X)"
    and pay: "pay X req inp at D (s, p) = (res, s', p')"
  shows "steps (s_env X) (s_ledger X, s) (s_ledger X, s')"
proof -
  have keys: "distinct_keys (core_of s)" using inv by (simp add: sales_inv_def)
  show ?thesis
  proof (cases "payable (s_env X) s (pay_token inp) at")
    case (Inl e)
    with pay show ?thesis by (simp add: pay_def)
  next
    case (Inr x)
    obtain h amount ast where x: "x = (h, amount, ast)" by (cases x) auto
    note h = payable_Inr [OF Inr [unfolded x]]
    show ?thesis
    proof (cases "openHosted s (hold_id h)")
      case None
      with pay Inr x have "commit_or_rollback s (start_payment X req inp h amount ast at D (s, p)) = (res, s', p')"
        by (simp add: pay_def)
      then show ?thesis by (rule commit_steps [rotated]) (rule start_payment_steps [OF keys h(1,2,4,5)])
    next
      case (Some k)
      obtain ret p1 where ret: "retrieve (s_provider X) (provider_checkout_id k) p = (ret, p1)" by fastforce
      show ?thesis
      proof (cases ret)
        case (Inl e)
        with pay Inr x Some ret show ?thesis by (simp add: pay_def)
      next
        case found: (Inr r)
        let ?s1 = "recordStatus (hosted_id k) (remote_status r) at s"
        have to1: "steps (s_env X) (s_ledger X, s) (s_ledger X, ?s1)" by (rule steps_step [OF step_status])
        consider "remote_status r = Open" | "remote_status r = Paid"
          | (over) "remote_status r \<noteq> Open" "remote_status r \<noteq> Paid" by blast
        then show ?thesis
        proof cases
          case 1
          with pay Inr x Some ret found show ?thesis by (simp add: pay_def)
        next
          case 2
          obtain out s2 p2 where rec: "reconcile X (requestId req) (provider_checkout_id k)
              (Principal (principal req)) at D (?s1, p1) = (out, s2, p2)"
            using prod_cases3 by blast
          with pay Inr x Some ret found 2 have "s' = s2" by (simp add: pay_def)
          moreover have "steps (s_env X) (s_ledger X, ?s1) (s_ledger X, s2)"
            by (rule reconcile_steps [OF steps_inv [OF to1 inv env] env rec])
          ultimately show ?thesis using to1 steps_trans by blast
        next
          case over
          with pay Inr x Some ret found
          have commit: "commit_or_rollback s (start_payment X req inp h amount ast at D (?s1, p1)) = (res, s', p')"
            by (simp add: pay_def)
          have "steps (s_env X) (s_ledger X, ?s1) (s_ledger X, s2)"
            if "start_payment X req inp h amount ast at D (?s1, p1) = (Inr (k2, s2), p2)" for k2 s2 p2
            using start_payment_steps [OF _ _ h(2,4,5) that] steps_inv [OF to1 inv env] h(1)
            by (simp add: sales_inv_def)
          with to1 have "steps (s_env X) (s_ledger X, s) (s_ledger X, s2)"
            if "start_payment X req inp h amount ast at D (?s1, p1) = (Inr (k2, s2), p2)" for k2 s2 p2
            using that steps_trans by blast
          then show ?thesis by (rule commit_steps [OF _ commit])
        qed
      qed
    qed
  qed
qed

lemma cancel_steps:
  assumes inv: "sales_inv (s_env X) (s_ledger X) (core_of s)" and env: "env_ok (s_env X)"
    and cancel: "cancel X req token at D (s, p) = (res, s', p')"
  shows "steps (s_env X) (s_ledger X, s) (s_ledger X, s')"
proof -
  let ?S = "\<lambda>a b. steps (s_env X) (s_ledger X, a) (s_ledger X, b)"
  have give_up: "?S a (recordCheckoutStep c CheckoutCancelled q at d (snd (releaseHold i at a)))" for a c q d i
    using steps_trans [OF steps_step [OF step_give_up] steps_step [OF step_audit]] by blast
  show ?thesis
  proof (cases "holdByToken (s_env X) s token")
    case (Inl e)
    with cancel show ?thesis by (simp add: cancel_def)
  next
    case (Inr x)
    obtain h c where x: "x = (h, c)" by fastforce
    show ?thesis
    proof (cases "openHosted s (hold_id h)")
      case None
      with cancel Inr x give_up show ?thesis by (auto simp: cancel_def Let_def split: if_splits)
    next
      case (Some k)
      obtain ret s1 p1 where ch: "cancelHosted X k at (s, p) = (ret, s1, p1)" using prod_cases3 by blast
      have to1: "?S s s1" by (rule cancelHosted_steps [OF ch])
      show ?thesis
      proof (cases "hold_status h = Outstanding \<and> ret = Inr True")
        case True
        obtain out s2 p2 where rec: "reconcile X (requestId req) (provider_checkout_id k)
            (Principal (principal req)) at D (s1, p1) = (out, s2, p2)" using prod_cases3 by blast
        with cancel Inr x Some ch True have "s' = s2" by (simp add: cancel_def)
        with reconcile_steps [OF steps_inv [OF to1 inv env] env rec] to1 show ?thesis
          using steps_trans by blast
      next
        case False
        with cancel Inr x Some ch to1 give_up steps_trans [OF to1 give_up] show ?thesis
          by (auto simp: cancel_def Let_def split: if_splits sum.splits bool.splits)
      qed
    qed
  qed
qed

lemma paymentWebhook_steps:
  assumes "sales_inv (s_env X) (s_ledger X) (core_of s)" "env_ok (s_env X)"
    and "paymentWebhook X rid body sig at D (s, p) = (res, s', p')"
  shows "steps (s_env X) (s_ledger X, s) (s_ledger X, s')"
  using assms(3) reconcile_each_steps [OF assms(1,2)]
  by (auto simp: paymentWebhook_def Let_def split: option.splits prod.splits sum.splits)

section \<open>Closing an event's sales, the sweep\<close>

lemma release_for_closing_steps: "steps E (L, s) (L, release_for_closing h q at s)"
  using steps_trans [OF steps_step [OF step_force_release] steps_step [OF step_audit]]
    steps_step [OF step_force_release]
  by (auto simp: release_for_closing_def Let_def split: prod.splits) (metis snd_conv checkout_step.distinct)+

lemma release_one_steps:
  assumes "release_one X q i at (s, p) = (res, s', p')"
  shows "steps E (L, s) (L, s')"
proof (cases "hold_by_id s i")
  case None
  with assms show ?thesis by (simp add: release_one_def)
next
  case (Some h)
  show ?thesis
  proof (cases "openHosted s i")
    case None
    with assms Some show ?thesis by (auto simp: release_one_def intro: release_for_closing_steps)
  next
    case k: (Some k)
    obtain ret s1 p1 where ch: "cancelHosted X k at (s, p) = (ret, s1, p1)" using prod_cases3 by blast
    have to1: "steps E (L, s) (L, s1)" by (rule cancelHosted_steps [OF ch])
    let ?s2 = "recordCheckoutStep (hold_checkout h) CheckoutCancelled q at
        [(''providerCheckout'', DStr (provider_checkout_id k))] s1"
    have "steps E (L, s1) (L, ?s2)" by (intro steps_step step_audit) simp
    from steps_trans [OF steps_trans [OF to1 this] release_for_closing_steps]
    have "steps E (L, s) (L, release_for_closing h q at ?s2)" .
    with assms Some k ch to1 show ?thesis
      by (auto simp: release_one_def split: sum.splits bool.splits)
  qed
qed

lemma release_each_steps:
  assumes "release_each X q ids at (s, p) = (res, s', p')"
  shows "steps E (L, s) (L, s')"
  using assms
proof (induction ids arbitrary: s p res s' p')
  case Nil
  then show ?case by simp
next
  case (Cons i ids)
  obtain r1 s1 p1 where one: "release_one X q i at (s, p) = (r1, s1, p1)" using prod_cases3 by blast
  obtain r2 s2 p2 where rest: "release_each X q ids at (s1, p1) = (r2, s2, p2)" using prod_cases3 by blast
  have "steps E (L, s) (L, s1)" "steps E (L, s1) (L, s2)"
    using release_one_steps [OF one] Cons.IH [OF rest] by blast+
  moreover have "s' = s1 \<or> s' = s2"
    using Cons.prems one rest by (auto split: sum.splits)
  ultimately show ?case using steps_trans by blast
qed

lemma releaseAll_steps:
  assumes inv: "sales_inv (s_env X) (s_ledger X) (core_of s)" and env: "env_ok (s_env X)"
    and rel: "releaseAll X e q at D (s, p) = (res, s', p')"
  shows "steps (s_env X) (s_ledger X, s) (s_ledger X, s')"
proof -
  let ?S = "\<lambda>a b. steps (s_env X) (s_ledger X, a) (s_ledger X, b)"
  let ?s1 = "close_sales e q at s"
  obtain r2 s2 p2 where each: "release_each X q (to_release ?s1 e) at (?s1, p) = (r2, s2, p2)"
    using prod_cases3 by blast
  have to2: "?S s s2"
    using steps_trans [OF steps_step [OF step_close] release_each_steps [OF each]] .
  show ?thesis
  proof (cases r2)
    case (Inl err)
    with rel each have "s' = s2" by (simp add: releaseAll_def Let_def)
    with to2 show ?thesis by simp
  next
    case (Inr np)
    obtain n paid where np: "np = (n, paid)" by fastforce
    obtain r3 s3 p3 where rec: "reconcile_each X (cause_request q) paid (cause_actor q) at D (s2, p2) = (r3, s3, p3)"
      using prod_cases3 by blast
    have "?S s2 s3" by (rule reconcile_each_steps [OF steps_inv [OF to2 inv env] env rec])
    moreover have "s' = s3"
      using rel each Inr np rec by (auto simp: releaseAll_def Let_def split: sum.splits)
    ultimately show ?thesis using to2 steps_trans by blast
  qed
qed

lemma sweep_one_steps:
  assumes inv: "sales_inv (s_env X) (s_ledger X) (core_of s)" and env: "env_ok (s_env X)"
  shows "steps (s_env X) (s_ledger X, s) (s_ledger X, fst (sweep_one X rid at D k (s, p)))"
proof -
  obtain ret s1 p1 where ch: "cancelHosted X k at (s, p) = (ret, s1, p1)" using prod_cases3 by blast
  have to1: "steps (s_env X) (s_ledger X, s) (s_ledger X, s1)" by (rule cancelHosted_steps [OF ch])
  obtain r2 s2 p2 where rec: "reconcile X rid (provider_checkout_id k) SweepActor at D (s1, p1) = (r2, s2, p2)"
    using prod_cases3 by blast
  have "steps (s_env X) (s_ledger X, s1) (s_ledger X, s2)"
    by (rule reconcile_steps [OF steps_inv [OF to1 inv env] env rec])
  with to1 ch rec show ?thesis
    by (auto simp: sweep_one_def split: sum.splits bool.splits intro: steps_trans)
qed

lemma sweep_fold_steps:
  assumes "sales_inv (s_env X) (s_ledger X) (core_of (fst w))" "env_ok (s_env X)"
  shows "steps (s_env X) (s_ledger X, fst w) (s_ledger X, fst (fold (sweep_one X rid at D) ks w))"
  using assms(1)
proof (induction ks arbitrary: w)
  case Nil
  then show ?case by simp
next
  case (Cons k ks)
  obtain s p where w: "w = (s, p)" by fastforce
  have one: "steps (s_env X) (s_ledger X, s) (s_ledger X, fst (sweep_one X rid at D k (s, p)))"
    using sweep_one_steps Cons.prems assms(2) w by simp
  show ?case
    using steps_trans [OF one] Cons.IH [of "sweep_one X rid at D k (s, p)"] Cons.prems
      steps_inv [OF one _ assms(2)] w by simp
qed

lemma sweep_steps:
  assumes inv: "sales_inv (s_env X) (s_ledger X) (core_of s)" and env: "env_ok (s_env X)"
  shows "steps (s_env X) (s_ledger X, s) (s_ledger X, fst (sweep X rid at D (s, p)))"
proof -
  have to1: "steps (s_env X) (s_ledger X, s) (s_ledger X, lapse_all at s)" by (rule steps_step [OF step_lapse])
  show ?thesis
    using steps_trans [OF to1] sweep_fold_steps [of X "(lapse_all at s, p)"] steps_inv [OF to1 inv env] env
    by (simp add: sweep_def Let_def)
qed

section \<open>Checkout sessions\<close>

lemma beginCheckout_steps: "steps E (L, s) (L, snd (beginCheckout E L req inp token i at s))"
  by (auto simp: beginCheckout_def in_transaction_def split: sum.splits
      intro!: steps_step intro: step_begin)

lemma linkCheckout_steps: "steps E (L, s) (L, snd (linkCheckout E req handoff at s))"
  by (auto simp: linkCheckout_def Let_def split: principal.splits sum.splits intro: steps_step step_link)

lemma confirmLink_steps: "steps E (L, s) (L, snd (confirmLink E req token pairing at s))"
  by (auto simp: confirmLink_def Let_def split: sum.splits option.splits intro: steps_step step_confirm)

lemma discardLink_steps: "steps E (L, s) (L, snd (discardLink E req token at s))"
  by (auto simp: discardLink_def Let_def split: sum.splits intro: steps_step step_discard)

lemma findBy_in: "findBy E col secret at s = Inr c \<Longrightarrow> c \<in> set (checkout_sessions s)"
  by (auto simp: findBy_def split: option.splits if_splits dest: find_Some_in)

lemma hold_checkout_steps: "steps E (L, s) (L, snd (hold_checkout_step E L req token at i s))"
proof (cases "findBy E token_hash token at s")
  case (Inl e)
  then show ?thesis by (simp add: hold_checkout_step_def)
next
  case (Inr row)
  have "steps E (L, s) (L, s')"
    if "place E L req (checkout_id row) (target_of row) at i s = Inr (r, s')" "holder_account row \<noteq> None"
      "link_confirmed_at row \<noteq> None" for r s'
    by (rule steps_step [OF step_place [OF findBy_in [OF Inr] that(2,3,1)]])
  with Inr show ?thesis
    by (auto simp: hold_checkout_step_def in_transaction_def split: sum.splits option.splits)
qed

section \<open>Cancellation refunds\<close>

definition refundable_in :: "store \<Rightarrow> refundable \<Rightarrow> bool" where
  "refundable_in s f \<longleftrightarrow> (\<exists>x \<in> set (primary_sales s). (sale_status x = SaleIssued \<or> sale_status x = SaleFailed) \<and>
     rf_hosted f = sale_hosted x \<and> sale_ticket x = Some (rf_ticket f))"

lemma refundable_sales_in: "f \<in> set (refundable_sales s e) \<Longrightarrow> refundable_in s f"
  by (auto simp: refundable_sales_def refundable_of_def refundable_in_def map_filter_def
      split: option.splits if_splits)

lemma refund_sale_steps:
  assumes "refund_sale L0 e q draw at f s = Inr (out, s')" "refundable_in s f"
  shows "steps E (L, s) (L, s') \<and> primary_sales s' = primary_sales s"
proof -
  have "s' = s \<or> (\<exists>amount ast holder i. s' = snd (insert_cancellation_refund q f amount ast holder i at s))"
    using assms(1) by (auto simp: refund_sale_def fallible_iffs split: option.splits if_splits) (metis snd_conv)+
  moreover have "steps E (L, s) (L, snd (insert_cancellation_refund q f amount ast holder i at s))"
    for amount ast holder i
    using assms(2) unfolding refundable_in_def by (blast intro: steps_step step_cancellation_refund)
  moreover have "primary_sales (snd (insert_cancellation_refund q f amount ast holder i at s)) = primary_sales s"
    for amount ast holder i by (simp add: insert_cancellation_refund_def)
  ultimately show ?thesis by auto
qed

lemma refund_each_steps:
  assumes "refund_each L0 e q draw at fs s = (res, s')" "\<forall>f \<in> set fs. refundable_in s f"
  shows "steps E (L, s) (L, s')"
  using assms
proof (induction fs arbitrary: s res s')
  case Nil
  then show ?case by simp
next
  case (Cons f fs)
  show ?case
  proof (cases "refund_sale L0 e q draw at f s")
    case (Inl err)
    with Cons.prems(1) show ?thesis by simp
  next
    case (Inr x)
    obtain out s1 where x: "x = (out, s1)" by fastforce
    have one: "steps E (L, s) (L, s1)" "primary_sales s1 = primary_sales s"
      using refund_sale_steps Inr x Cons.prems(2) by (metis list.set_intros(1))+
    obtain r2 s2 where rest: "refund_each L0 e q draw at fs s1 = (r2, s2)" by fastforce
    have "steps E (L, s1) (L, s2)"
      using Cons.IH [OF rest] Cons.prems(2) one(2) by (simp add: refundable_in_def)
    moreover have "s' = s2" using Cons.prems(1) Inr x rest by (auto split: sum.splits)
    ultimately show ?thesis using one(1) steps_trans by blast
  qed
qed

lemma recordCancellationRefunds_steps:
  "steps E (L, s) (L, snd (recordCancellationRefunds L0 e q draw at s))"
proof -
  obtain res s1 where each: "refund_each L0 e q draw at (refundable_sales s e) s = (res, s1)" by fastforce
  have "steps E (L, s) (L, s1)"
    by (rule refund_each_steps [OF each]) (simp add: refundable_sales_in)
  with each show ?thesis
    by (auto simp: recordCancellationRefunds_def split: sum.splits)
qed

section \<open>Every operation\<close>

text \<open>What the API, the webhook route and the background passes call, with any arguments.\<close>

inductive operation :: "'p setting \<Rightarrow> store \<times> 'p \<Rightarrow> store \<times> 'p \<Rightarrow> bool" for X :: "'p setting" where
  op_begin: "operation X (s, p) (snd (beginCheckout (s_env X) (s_ledger X) req inp token i at s), p)"
| op_link: "operation X (s, p) (snd (linkCheckout (s_env X) req handoff at s), p)"
| op_confirm: "operation X (s, p) (snd (confirmLink (s_env X) req token pairing at s), p)"
| op_discard: "operation X (s, p) (snd (discardLink (s_env X) req token at s), p)"
| op_hold: "operation X (s, p) (snd (hold_checkout_step (s_env X) (s_ledger X) req token at i s), p)"
| op_pay: "operation X (s, p) (snd (pay X req inp at D (s, p)))"
| op_cancel: "operation X (s, p) (snd (cancel X req token at D (s, p)))"
| op_reconcile: "operation X (s, p) (snd (reconcile X rid pid who at D (s, p)))"
| op_webhook: "operation X (s, p) (snd (paymentWebhook X rid body sig at D (s, p)))"
| op_sweep: "operation X (s, p) (sweep X rid at D (s, p))"
| op_releaseAll: "operation X (s, p) (snd (releaseAll X e q at D (s, p)))"
| op_reopen: "operation X (s, p) (snd (reopenSales e q at s), p)"
| op_refunds: "operation X (s, p) (snd (recordCancellationRefunds L e q draw at s), p)"

lemma operation_steps:
  assumes "operation X w w'" "sales_inv (s_env X) (s_ledger X) (core_of (fst w))" "env_ok (s_env X)"
  shows "steps (s_env X) (s_ledger X, fst w) (s_ledger X, fst w')"
  using assms(1,2)
proof (induction rule: operation.induct)
  case (op_pay s p req inp at D)
  then show ?case using pay_steps [OF _ assms(3)] by (metis fst_conv prod.collapse)
next
  case (op_cancel s p req token at D)
  then show ?case using cancel_steps [OF _ assms(3)] by (metis fst_conv prod.collapse)
next
  case (op_reconcile s p rid pid who at D)
  then show ?case using reconcile_steps [OF _ assms(3)] by (metis fst_conv prod.collapse)
next
  case (op_webhook s p rid body sig at D)
  then show ?case using paymentWebhook_steps [OF _ assms(3)] by (metis fst_conv prod.collapse)
next
  case (op_releaseAll s p e q at D)
  then show ?case using releaseAll_steps [OF _ assms(3)] by (metis fst_conv prod.collapse)
next
  case (op_sweep s p rid at D)
  then show ?case using sweep_steps [OF _ assms(3)] by simp
qed (simp_all add: beginCheckout_steps linkCheckout_steps confirmLink_steps discardLink_steps
    hold_checkout_steps recordCancellationRefunds_steps steps_step step_reopen)

lemma reachable_steps: "reachable E L s \<Longrightarrow> steps E (L, s) (L', s') \<Longrightarrow> reachable E L' s'"
  unfolding reachable_def using steps_trans by blast

end
