(* ===== verification/Walkthrough.thy ===== *)
theory Walkthrough
  imports SalesSystem
begin

text \<open>
  One sale, step by step: an event with a seated zone and a capacity of one, a priced class,
  a checkout begun by a holder, its hold, its payment, and its ticket.  The witnesses of the
  properties are taken along this run.
\<close>

section \<open>The platform\<close>

text \<open>Identifiers that cannot collide, and no normalisation to do.\<close>

definition walk_ticket :: "ident \<Rightarrow> ident \<Rightarrow> ident \<Rightarrow> ident" where
  "walk_ticket e z p = to_hex e @ CHR ''-'' # to_hex z @ CHR ''-'' # p"

definition walk_env :: env where
  "walk_env = \<lparr>ticketId = walk_ticket, nfc = (\<lambda>d. d), isWellFormed = (\<lambda>_. True), utf16Length = length,
     hashSecret = (\<lambda>d. CHR ''#'' # d), hmac = (\<lambda>k m. k @ m), base64url = (\<lambda>d. d),
     iso = (\<lambda>_. ''2026-01-01T00:00:00.000Z'')\<rparr>"

lemma hex_not_dash: "CHR ''-'' \<notin> set (to_hex s)"
proof -
  have "hex_digit n \<noteq> CHR ''-''" if "n < 16" for n
  proof
    assume "hex_digit n = CHR ''-''"
    then have "hex_value (hex_digit n) = hex_value (CHR ''-'')" by simp
    then have "n = hex_value (CHR ''-'')" using that by (simp add: hex_digit_value)
    then have "n = 0" by (simp add: hex_value_def)
    with \<open>hex_digit n = CHR ''-''\<close> have "hex_digit 0 = CHR ''-''" by simp
    moreover have "hex_digit 0 \<noteq> CHR ''-''" by code_simp
    ultimately show False by contradiction
  qed
  moreover have "of_char c div 16 < (16 :: nat)" for c
    using nat_of_char_less_256 [of c] by (intro less_mult_imp_div_less) simp
  ultimately have "CHR ''-'' \<notin> set (hex_of_byte c)" for c
    by (auto simp: hex_of_byte_def Let_def dest: sym)
  then show ?thesis by (auto simp: to_hex_def)
qed

lemma dash_split:
  assumes "CHR ''-'' \<notin> set a" "CHR ''-'' \<notin> set a'" "a @ CHR ''-'' # r = a' @ CHR ''-'' # r'"
  shows "a = a' \<and> r = r'"
  using assms
proof (induction a arbitrary: a')
  case Nil
  then show ?case by (cases a') auto
next
  case (Cons x a)
  then show ?case by (cases a') auto
qed

lemma walk_env_ok: "env_ok walk_env"
proof -
  have inj: "e = e' \<and> z = z' \<and> p = p'" if "walk_ticket e z p = walk_ticket e' z' p'" for e z p e' z' p'
  proof -
    note split = dash_split [OF hex_not_dash hex_not_dash]
    from that have "to_hex e = to_hex e' \<and> to_hex z @ CHR ''-'' # p = to_hex z' @ CHR ''-'' # p'"
      unfolding walk_ticket_def by (rule split)
    moreover from this have "to_hex z = to_hex z' \<and> p = p'" by (elim conjE) (rule split)
    ultimately show ?thesis by simp
  qed
  have sel: "ticketId walk_env = walk_ticket" "nfc walk_env = (\<lambda>d. d)" "isWellFormed walk_env = (\<lambda>_. True)"
    by (simp_all add: walk_env_def)
  show ?thesis unfolding env_ok_def sel using inj by blast
qed

definition walk_event :: ledger_event where
  "walk_event = \<lparr>owner = ''owner'', ev_status = Active, maxCapacity = Some 1, issued = 0,
     zones = [\<lparr>zone_id = ''stalls'', zone_kind = SeatedZone\<rparr>]\<rparr>"

definition walk_ledger :: ledger where
  "walk_ledger = \<lparr>getEvent = (\<lambda>e. if e = ''event'' then Inr walk_event else Inl ''ERR-EventNotFound''),
     getTicket = (\<lambda>_. Inl ''ERR-TicketNotFound''), getCancellationHolder = (\<lambda>_. Inr None), inFlight = [], landedLate = []\<rparr>"

section \<open>The run\<close>

definition walk_request :: request where
  "walk_request = \<lparr>requestId = ''request'', principal = Holder ''buyer'' ''session''\<rparr>"

definition walk_class :: class_input where
  "walk_class = \<lparr>in_event = ''event'', in_name = ''Stalls'', in_description = None,
     in_provenance = Purchased, in_policy = Single, in_cannot_resale = False,
     in_cannot_transfer = False, in_quota = Some 1, in_price = Some 500\<rparr>"

definition walk_pick :: begin_input where
  "walk_pick = \<lparr>b_event = ''event'', b_zone = ''stalls'', b_class = ''class'', b_placement = Seated ''A1''\<rparr>"

definition walk0 :: store where
  "walk0 = empty_store\<lparr>organiser_accounts := [(''org'', ''owner'')], organiser_events := [(''event'', ''org'')],
     seat_positions := [\<lparr>seat_event = ''event'', seat_zone = ''stalls'', designation = ''A1'',
       seat_request = ''request'', seat_created_at = 0\<rparr>]\<rparr>"

definition walk1 :: store where
  "walk1 = walk0\<lparr>ticket_classes := [class_of_input walk_class ''class'' 0]\<rparr>"

definition walk2 :: store where
  "walk2 = walk1\<lparr>sale_assets := [\<lparr>asset_event = ''event'', sale_asset = ''COPM/2'', asset_organiser = ''org'',
     asset_request = ''request'', asset_set_at = 0\<rparr>]\<rparr>"

definition walk_checkout :: checkout_row where
  "walk_checkout = new_checkout walk_env walk_request walk_pick (Some ''A1'') ''token'' ''checkout'' 1000"

text \<open>The steps recorded: by the buyer, and by the provider's webhook.\<close>

definition buyer_step :: "checkout_step \<Rightarrow> (string \<times> detail) list \<Rightarrow> time \<Rightarrow> audit_row" where
  "buyer_step st det at = \<lparr>audit_checkout = ''checkout'', audit_step = st, audit_request = ''request'',
     audit_actor = ''holder'', audit_session = Some ''session'', audit_holder = Some ''buyer'',
     audit_detail = det, audit_recorded_at = at\<rparr>"

definition webhook_step :: "checkout_step \<Rightarrow> (string \<times> detail) list \<Rightarrow> time \<Rightarrow> audit_row" where
  "webhook_step st det at = \<lparr>audit_checkout = ''checkout'', audit_step = st, audit_request = ''webhook'',
     audit_actor = ''payment-provider'', audit_session = None, audit_holder = None,
     audit_detail = det, audit_recorded_at = at\<rparr>"

definition walk3 :: store where
  "walk3 = walk2\<lparr>checkout_sessions := [walk_checkout], checkout_audit := [
     buyer_step Begun [(''event'', DStr ''event''), (''zone'', DStr ''stalls''), (''class'', DStr ''class''),
       (''position'', DStr ''A1'')] 1000,
     buyer_step Linked [] 1000, buyer_step LinkConfirmed [] 1000]\<rparr>"

definition walk_hold :: hold_row where
  "walk_hold = new_hold ''checkout'' (target_of walk_checkout) ''hold'' ''request'' 2000 (''COPM/2'', 500)"

definition walk4 :: store where
  "walk4 = walk3\<lparr>holds := [walk_hold], checkout_audit := checkout_audit walk3 @
     [buyer_step Held [(''hold'', DStr ''hold''), (''asset'', DStr ''COPM/2''), (''price'', DNum 500)] 2000]\<rparr>"

definition walk_remote :: remote where
  "walk_remote = \<lparr>remote_id = ''pay'', remote_url = ''https://pay'', remote_status = Paid,
     remote_amount = 500, remote_asset = ''COPM/2'', remote_hold = Some ''hold'', remote_expires = None\<rparr>"

definition walk_hosted :: hosted_row where
  "walk_hosted = new_hosted ''hosted'' walk_hold walk_remote 500 ''COPM/2'' 900000 ''request'' 3000"

definition walk5 :: store where
  "walk5 = walk4\<lparr>hosted_checkouts := [walk_hosted], checkout_audit := checkout_audit walk4 @
     [buyer_step PaymentStarted [(''providerCheckout'', DStr ''pay''), (''amount'', DNum 500), (''asset'', DStr ''COPM/2''),
       (''expiresAt'', DStr ''2026-01-01T00:00:00.000Z'')] 3000]\<rparr>"

definition walk_cause :: cause where
  "walk_cause = \<lparr>cause_request = ''webhook'', cause_actor = PaymentProvider\<rparr>"

definition walk_draws :: draws where
  "walk_draws = \<lparr>draw_sale = (\<lambda>k. CHR ''s'' # k), draw_refund = (\<lambda>k. CHR ''r'' # k),
     draw_hosted = (\<lambda>k. CHR ''h'' # k), draw_discriminator = (\<lambda>k. CHR ''d'' # k)\<rparr>"

definition walk_sale :: sale_row where
  "walk_sale = new_sale ''shosted'' walk_hosted walk_hold ''buyer'' 4000"

definition walk6 :: store where
  "walk6 = walk5\<lparr>holds := [take_row walk_hold], primary_sales := [walk_sale],
     hosted_checkouts := [walk_hosted\<lparr>hosted_status := Paid, hosted_updated_at := 4000\<rparr>],
     checkout_audit := checkout_audit walk5 @ [webhook_step PaymentVerified [(''providerCheckout'', DStr ''pay''),
       (''amount'', DNum 500), (''asset'', DStr ''COPM/2'')] 4000]\<rparr>"

definition walk7 :: store where
  "walk7 = walk6\<lparr>holds := [(take_row walk_hold)\<lparr>hold_status := Confirmed, confirmed_at := Some 5000\<rparr>],
     primary_sales := [sale_completion (CompleteIssued ''ticket'' ''cursor'') 5000 walk_sale],
     face_values := [\<lparr>face_ticket = ''ticket'', face_event = ''event'', face_class = ''class'', face_sale = ''shosted'',
       face_amount = 500, face_asset = ''COPM/2'', face_recorded_at = 5000\<rparr>],
     checkout_audit := checkout_audit walk6 @ [webhook_step IssuedStep [(''sale'', DStr ''shosted''),
       (''ticket'', DStr ''ticket''), (''operation'', DStr ''op''), (''cursor'', DStr ''cursor'')] 5000]\<rparr>"

lemma walk_hold_simps:
  "hold_id walk_hold = ''hold''" "hold_event walk_hold = ''event''" "hold_zone walk_hold = ''stalls''"
  "hold_position walk_hold = Some ''A1''" "hold_status walk_hold = Outstanding" "expires_at walk_hold = 602000"
  by (simp_all add: walk_hold_def new_hold_def target_of_def walk_checkout_def new_checkout_def walk_pick_def
      HOLD_LIFETIME_MS_def Let_def)

lemma walk_checkout_simps:
  "checkout_id walk_checkout = ''checkout''" "holder_account walk_checkout = Some ''buyer''"
  "link_confirmed_at walk_checkout = Some 1000"
  by (simp_all add: walk_checkout_def new_checkout_def walk_request_def Let_def)

lemma walk_hosted_simps:
  "hosted_id walk_hosted = ''hosted''" "hosted_hold walk_hosted = ''hold''" "hosted_status walk_hosted = Open"
  "hosted_amount walk_hosted = 500"
  by (simp_all add: walk_hosted_def new_hosted_def walk_hold_simps walk_remote_def)

lemma walk1: "define_class walk_ledger ''org'' walk_class ''class'' 0 walk0 = Inr (class_of_input walk_class ''class'' 0, walk1)"
  by code_simp

lemma walk2: "set_asset walk_ledger ''org'' ''request'' ''event'' ''COPM/2'' 0 walk1 = Inr (asset_read walk2 ''event'', walk2)"
  by code_simp

lemma walk3_pick: "check_pick walk_env walk_ledger walk_pick walk2 = Inr (Some ''A1'')"
  by code_simp

lemma walk3: "begin_tx walk_env walk_request walk_pick (Some ''A1'') ''token'' ''checkout'' 1000 walk2 = Inr ((), walk3)"
  by code_simp

lemma walk3_checkouts: "checkout_sessions walk3 = [walk_checkout]"
  by (simp add: walk3_def)

lemma walk4: "place walk_env walk_ledger walk_request ''checkout'' (target_of walk_checkout) 2000 ''hold'' walk3 =
    Inr (None, walk4)"
  by code_simp

lemma walk4_holds: "holds walk4 = [walk_hold]"
  by (simp add: walk4_def)

lemma walk5: "record_payment walk_env walk_request walk_hold walk_remote 500 ''COPM/2'' 900000
     ''hosted'' 3000 walk4 = Inr (walk_hosted, walk5)"
  by code_simp

lemma walk5_hosted: "hosted_checkouts walk5 = [walk_hosted]"
  by (simp add: walk5_def)

lemma walk6: "takePlace walk_env walk_ledger walk_cause walk_hosted walk_remote 4000 walk_draws walk5 =
    Inr (Some (''shosted'', walk_hold), walk6)"
  by code_simp

lemma walk6_sales: "primary_sales walk6 = [walk_sale]"
  by (simp add: walk6_def)

lemma walk6_holds: "holds walk6 = [take_row walk_hold]"
  by (simp add: walk6_def)

lemma walk7: "complete walk_cause walk_hosted ''shosted'' walk_hold (Some ''op'')
     (CompleteIssued ''ticket'' ''cursor'') 5000 walk_draws walk6 = Inr ((), walk7)"
  by code_simp

section \<open>Every store of it is reachable\<close>

lemma reachable_step:
  assumes "reachable E L s" "step E (L, s) (L', s')"
  shows "reachable E L' s'"
  using assms unfolding reachable_def steps_def by (meson rtranclp.rtrancl_into_rtrancl)

lemma reach0: "reachable walk_env walk_ledger walk0"
proof -
  have "reachable walk_env walk_ledger empty_store" by (auto simp: reachable_def steps_def)
  moreover have "elsewhere empty_store walk0" by (simp add: elsewhere_def walk0_def empty_store_def)
  ultimately show ?thesis using reachable_step step_elsewhere by blast
qed

lemma reach1: "reachable walk_env walk_ledger walk1"
  using reachable_step [OF reach0 step_class [OF walk1]] .

lemma reach2: "reachable walk_env walk_ledger walk2"
  using reachable_step [OF reach1 step_asset [OF walk2]] .

lemma reach3: "reachable walk_env walk_ledger walk3"
  using reachable_step [OF reach2 step_begin [OF walk3_pick walk3]] .

lemma reach4: "reachable walk_env walk_ledger walk4"
proof (rule reachable_step [OF reach3 step_place])
  show "walk_checkout \<in> set (checkout_sessions walk3)" by (simp add: walk3_checkouts)
  show "holder_account walk_checkout \<noteq> None" "link_confirmed_at walk_checkout \<noteq> None"
    by (simp_all add: walk_checkout_def new_checkout_def walk_request_def Let_def)
  have "checkout_id walk_checkout = ''checkout''" by (simp add: walk_checkout_def new_checkout_def Let_def)
  then show "place walk_env walk_ledger walk_request (checkout_id walk_checkout) (target_of walk_checkout)
      2000 ''hold'' walk3 = Inr (None, walk4)" by (simp add: walk4)
qed

lemma reach5: "reachable walk_env walk_ledger walk5"
  by (rule reachable_step [OF reach4 step_start_payment [OF _ _ _ _ walk5, of walk_hold]])
    (simp_all add: walk4_holds walk_hold_def new_hold_def)

lemma reach6: "reachable walk_env walk_ledger walk6"
  by (rule reachable_step [OF reach5 step_take [OF _ walk6]]) (simp add: walk5_hosted)

lemma walk_sale_simps [simp]:
  "sale_id walk_sale = ''shosted''" "sale_status walk_sale = SaleIssuing" "sale_hold walk_sale = hold_id walk_hold"
  "sale_hosted walk_sale = hosted_id walk_hosted"
  by (simp_all add: walk_sale_def new_sale_def)

lemma reach7: "reachable walk_env walk_ledger walk7"
proof (rule reachable_step [OF reach6 step_complete])
  show "walk_sale \<in> set (primary_sales walk6)" by (simp add: walk6_sales)
  show "take_row walk_hold \<in> set (holds walk6)" by (simp add: walk6_holds)
  show "same_terms (take_row walk_hold) walk_hold" by (simp add: same_terms_def take_row_def)
  show "complete walk_cause walk_hosted (sale_id walk_sale) walk_hold (Some ''op'')
     (CompleteIssued ''ticket'' ''cursor'') 5000 walk_draws walk6 = Inr ((), walk7)"
    by (simp add: walk7)
qed simp_all

end
