(* ===== verification/SalesFacts.thy ===== *)
theory SalesFacts
  imports Operations Walkthrough
begin

text \<open>
  What the properties of the sales components rest on beyond the invariants: the life of a
  hold along any run, the transaction that places a hold, and the one that takes a paid
  place, outcome by outcome.
\<close>

section \<open>The life of a hold\<close>

definition hold_moves :: "hold_row \<Rightarrow> hold_row \<Rightarrow> bool" where
  "hold_moves h h' \<longleftrightarrow> same_terms h h' \<and> hold_next\<^sup>*\<^sup>* (hold_status h) (hold_status h')"

lemma hold_moves_refl [simp]: "hold_moves h h"
  by (simp add: hold_moves_def)

lemma hold_moves_trans: "hold_moves h h' \<Longrightarrow> hold_moves h' h'' \<Longrightarrow> hold_moves h h''"
  unfolding hold_moves_def same_terms_def by (metis rtranclp_trans)

lemma hold_moves_next: "same_terms h h' \<Longrightarrow> hold_next (hold_status h) (hold_status h') \<Longrightarrow> hold_moves h h'"
  by (auto simp: hold_moves_def)

lemma ended_or_kept_moves: "ended_or_kept h h' \<Longrightarrow> hold_moves h h'"
  by (auto simp: ended_or_kept_def hold_moves_def)

lemma confirmed_for_ever: "hold_next\<^sup>*\<^sup>* Confirmed st \<Longrightarrow> st = Confirmed"
  by (erule converse_rtranclpE) auto

lemma never_outstanding_again: "hold_next\<^sup>*\<^sup>* st Outstanding \<Longrightarrow> st = Outstanding"
proof (erule rtranclp.cases)
  fix a b c assume "st = a" "Outstanding = c" "hold_next b c"
  then show "st = Outstanding" by (cases b) auto
qed simp

lemma spec_step_moves:
  assumes step: "spec_step E (L, c) (L', c')" and keys: "distinct_keys c" and match: "holds_match c"
    and h: "h \<in> set (c_holds c)"
  shows "\<exists>h' \<in> set (c_holds c'). hold_moves h h'"
proof -
  have kept: ?thesis if "h \<in> set (c_holds c')" using that by (intro bexI [of _ h]) simp_all
  have updated: ?thesis if rows: "c_holds c' = update_where P f (c_holds c)"
    and moves: "P h \<Longrightarrow> hold_moves h (f h)" for P f
    using h moves unfolding rows set_update_where
    by (intro bexI [of _ "if P h then f h else h"]) auto
  show ?thesis
    using step
  proof (cases rule: spec_step.cases)
    case (spec_end hs)
    then obtain h' where "h' \<in> set hs" "ended_or_kept h h'" using h by (auto elim: ends_in_left)
    with spec_end show ?thesis using ended_or_kept_moves by auto
  next
    case (spec_take h0 k x a)
    have "h = h0" if "hold_id h = hold_id h0"
      using distinct_key_eq [of hold_id "c_holds c" h h0] h spec_take that keys by (simp add: distinct_keys_def)
    then have "hold_moves h (take_row h)" if "hold_id h = hold_id h0"
      using that spec_take by (intro hold_moves_next) auto
    with spec_take show ?thesis
      by (intro updated [where P = "\<lambda>h'. hold_id h' = hold_id h0" and f = take_row]) simp_all
  next
    case (spec_issued x h0 f t at cur)
    have "hold_moves h (confirm_row at h)" if "hold_id h = sale_hold x"
      using issuing_sale [OF keys match spec_issued(3,4) h that] by (intro hold_moves_next) simp_all
    with spec_issued show ?thesis
      by (intro updated [where P = "\<lambda>y. hold_id y = sale_hold x" and f = "confirm_row at"]) simp_all
  next
    case (spec_rejected x r at code)
    then show ?thesis
      by (intro updated [where P = "\<lambda>y. hold_id y = sale_hold x \<and> hold_status y = Issuing"
            and f = "give_back_row at"]) (simp_all add: hold_moves_next)
  qed (rule kept, use h in simp)+
qed

lemma spec_run_moves:
  assumes "spec_run E w w'" "sales_inv E (fst w) (snd w)" "h \<in> set (c_holds (snd w))"
  shows "\<exists>h' \<in> set (c_holds (snd w')). hold_moves h h'"
  using assms unfolding spec_run_def
proof (induction rule: rtranclp_induct)
  case base
  then show ?case by (intro bexI [of _ h]) simp_all
next
  case (step y z)
  then obtain h' where h': "h' \<in> set (c_holds (snd y))" "hold_moves h h'" by blast
  have "sales_inv E (fst y) (snd y)"
    using sales_inv_run [of E w y] step.hyps(1) step.prems(1) by (simp add: spec_run_def)
  then obtain h'' where "h'' \<in> set (c_holds (snd z))" "hold_moves h' h''"
    using spec_step_moves [of E "fst y" "snd y" "fst z" "snd z" h'] step.hyps(2) h'(1)
    by (auto simp: sales_inv_def)
  then show ?case using h'(2) hold_moves_trans by blast
qed

lemma steps_moves:
  assumes "steps E w w'" "sys_inv E w" "env_ok E" "h \<in> set (holds (snd w))"
  shows "\<exists>h' \<in> set (holds (snd w')). hold_moves h h'"
  using assms(1,2,4) unfolding steps_def
proof (induction rule: rtranclp_induct)
  case base
  then show ?case by (intro bexI [of _ h]) simp_all
next
  case (step y z)
  then obtain h' where h': "h' \<in> set (holds (snd y))" "hold_moves h h'" by blast
  have inv: "sys_inv E y"
    using steps_sys_inv [of E w y] step.hyps(1) step.prems(1) assms(3) by (simp add: steps_def)
  then have "spec_run E (fst y, core_of (snd y)) (fst z, core_of (snd z))"
    using step_refines [of E "fst y" "snd y" "fst z" "snd z"] step.hyps(2) assms(3) by (simp add: sys_inv_def)
  then obtain h'' where "h'' \<in> set (holds (snd z))" "hold_moves h' h''"
    using spec_run_moves inv h'(1) by (fastforce simp: sys_inv_def)
  then show ?case using h'(2) hold_moves_trans by blast
qed

section \<open>Placing\<close>

text \<open>The code's own checks keep the unique indexes of \<open>holds\<close> from firing.\<close>

lemma place_never_conflicts:
  assumes inv: "sales_inv E L (core_of s)" and normal: "normal_position E (t_position t)"
    and fresh: "\<forall>h \<in> set (holds s). hold_id h \<noteq> i"
  shows "place E L req c t at i s \<noteq> Inl StoreError"
proof
  assume err: "place E L req c t at i s = Inl StoreError"
  let ?s1 = "lapse_event (t_event t) at s"
  have no_store: "assertFree E L ?s1 e z pos \<noteq> Inl StoreError" "positionOf E p \<noteq> Inl StoreError"
    "eventOnSale L ?s1 e \<noteq> Inl StoreError" for e z pos p
    by (auto simp: assertFree_def Let_def positionOf_def normaliseDesignation_def eventOnSale_def fallible_iffs
        split: sum.splits)
  have no_seat: "seat_refusal E L ?s1 t seat n \<noteq> Inl StoreError" for seat n
    using no_store(1) by (auto simp: seat_refusal_def split: option.splits sum.splits failure.splits if_splits)
  have none: "hold_of_checkout ?s1 c = None"
  proof (cases "hold_of_checkout ?s1 c")
    case (Some h)
    then have False
      using err no_store(2)
      by (auto simp: place_def position_of_target_def lockAllocation_def allocationCounts_def Let_def
          fallible_iffs split: option.splits if_splits)
    then show ?thesis ..
  qed
  obtain seat where seat: "position_of_target E t = Inr seat"
    and err1: "and_then (eventOnSale L ?s1 (t_event t)) (\<lambda>ev.
         case saleTerms ?s1 (t_event t) (t_class t) of
           None \<Rightarrow> Inl (RefusedRequest PRECONDITION_FAILED None)
         | Some terms \<Rightarrow>
             and_then (seat_refusal E L ?s1 t seat (counts_of ?s1 t)) (\<lambda>taken.
             case first_refusal ev (counts_of ?s1 t) taken of
               Some r \<Rightarrow>
                 Inr (Some r, recordCheckoutStep c HoldRefused (cause_of req) at
                   [(''reason'', DStr (refusal_name r))] ?s1)
             | None \<Rightarrow>
                 and_then (insert_hold (new_hold c t i (requestId req) at terms) ?s1) (\<lambda>s2.
                 Inr (None, recordCheckoutStep c Held (cause_of req) at
                   [(''hold'', DStr i), (''asset'', DStr (fst terms)), (''price'', DNum (snd terms))]
                   s2)))) = Inl StoreError"
    using err none no_store(2) unfolding place_def allocationCounts_def Let_def
    by (auto simp: position_of_target_def lockAllocation_def and_then_Inl_iff and_then_Inr_iff split: option.splits)
  then obtain terms where free: "seat_refusal E L ?s1 t seat (counts_of ?s1 t) = Inr None"
    and ins: "insert_hold (new_hold c t i (requestId req) at terms) ?s1 = Inl StoreError"
    using no_store(3) no_seat
    by (auto simp: and_then_Inl_iff split: option.splits) (auto simp: first_refusal_None)
  let ?h = "new_hold c t i (requestId req) at terms"
  obtain h' where h': "h' \<in> set (holds ?s1)"
    and clash: "hold_id h' = i \<or> hold_checkout h' = c \<or> (live h' \<and> same_seat ?h h')"
    using ins by (auto simp: insert_hold_def hold_conflicts_def exists_where_iff split: if_splits)
  obtain h where "h \<in> set (holds s)" "ended_or_kept h h'" using ends_in [OF ends_lapse_event h'] .
  then have "hold_id h' \<noteq> i" using fresh by (auto simp: ended_or_kept_def same_terms_def)
  moreover have "hold_checkout h' \<noteq> c" using none h' by (auto simp: hold_of_checkout_def find_None_iff)
  ultimately have seat': "live h'" "same_seat ?h h'" using clash by auto
  then obtain p where p: "t_position t = Some p" by (auto simp: same_seat_def)
  then have "seat \<noteq> None"
    using seat by (auto simp: position_of_target_def fallible_iffs)
  then have "\<not> seatHeld (counts_of ?s1 t)" using seat_refusal_None [OF free] by auto
  then show False using seat_not_held [of ?s1 t ?h h'] h' seat' by simp
qed

text \<open>A checkout whose hold is placed gets the same answer again.\<close>

lemma place_leaves_hold:
  assumes "place E L req c t at i s = Inr (None, s')"
  shows "\<exists>h. hold_of_checkout s' c = Some h \<and> hold_status h = Outstanding \<and>
           (\<exists>seat l. position_of_target E t = Inr seat \<and> lockAllocation E t = Inr l)"
proof -
  let ?s1 = "lapse_event (t_event t) at s"
  have locks: "\<exists>seat l. position_of_target E t = Inr seat \<and> lockAllocation E t = Inr l"
    using assms by (auto simp: place_def and_then_Inr_iff)
  have "\<exists>h. hold_of_checkout s' c = Some h \<and> hold_status h = Outstanding"
    using place_cases [OF assms]
  proof (elim disjE)
    assume "place_placed E L req c t at i ?s1 None s'"
    then show ?thesis
      by (auto simp: place_placed_def hold_of_checkout_def new_hold_def find_append_new)
  qed (auto simp: place_existing_def place_refused_def)
  with locks show ?thesis by blast
qed

lemma place_again:
  assumes "place E L req c t at i s = Inr (None, s')"
    and "\<forall>h \<in> set (holds s'). hold_checkout h = c \<longrightarrow> at' < expires_at h"
  shows "place E L req' c t at' j s' = Inr (None, lapse_event (t_event t) at' s')"
proof -
  obtain h seat l where h: "hold_of_checkout s' c = Some h" "hold_status h = Outstanding"
    and locks: "position_of_target E t = Inr seat" "lockAllocation E t = Inr l"
    using place_leaves_hold [OF assms(1)] by blast
  have "h \<in> set (holds s')" "hold_checkout h = c"
    using h(1) by (auto simp: hold_of_checkout_def find_Some_iff)
  then have "\<not> expired at' h" using assms(2) by (auto simp: expired_def)
  then have "hold_of_checkout (lapse_event (t_event t) at' s') c = Some h"
    using h(1) by (simp add: hold_of_checkout_def lapse_event_def find_update_where lapse_def)
  then show ?thesis
    using h(2) locks by (simp add: place_def allocationCounts_def Let_def and_then_Inr_iff)
qed

section \<open>Taking a paid place\<close>

lemma entitle_entitled:
  assumes "entitle q k c amount ast reason i at s = Inr s'"
  shows "\<exists>r \<in> set (refund_entitlements s'). refund_hosted r = hosted_id k"
  using assms by (auto simp: entitle_def exists_where_iff split: if_splits)

lemma takePlace_Inr:
  assumes "takePlace E L q k r at D s = Inr (res, s')"
  obtains (first) h c where "hold_by_id s (hosted_hold k) = Some h" "checkout_of_hold s h = Some c"
    "handled (recordStatus (hosted_id k) (remote_status r) at s) (hosted_id k)"
    "res = None" "s' = recordStatus (hosted_id k) (remote_status r) at s"
  | (second) h c s2 where "hold_by_id s (hosted_hold k) = Some h" "checkout_of_hold s h = Some c"
    "\<not> handled s (hosted_id k)"
    "s2 = verified_step q k r h at (recordStatus (hosted_id k) (remote_status r) at s)"
    "take_verified E L q k r h c at D s2 = Inr (res, s')"
proof -
  obtain h c where h: "hold_by_id s (hosted_hold k) = Some h" "checkout_of_hold s h = Some c"
    using assms by (auto simp: takePlace_def split: option.splits)
  let ?s1 = "recordStatus (hosted_id k) (remote_status r) at s"
  have taken: "(if handled ?s1 (hosted_id k) then Inr (None, ?s1)
      else take_verified E L q k r h c at D (verified_step q k r h at ?s1)) = Inr (res, s')"
    using assms h by (simp add: takePlace_def Let_def and_then_Inr_iff)
  show thesis
  proof (cases "handled ?s1 (hosted_id k)")
    case True
    then have "res = None" "s' = ?s1" using taken by simp_all
    then show thesis by (rule first [OF h True])
  next
    case False
    have "\<not> handled s (hosted_id k)" using False by (simp add: handled_def recordStatus_def)
    moreover have "take_verified E L q k r h c at D (verified_step q k r h at ?s1) = Inr (res, s')"
      using taken False by simp
    ultimately show thesis by (rule second [OF h _ refl])
  qed
qed

text \<open>A payment once handled is recorded as such, and only its status is touched again.\<close>

lemma takePlace_handles:
  assumes "takePlace E L q k r at D s = Inr (res, s')"
  shows "handled s' (hosted_id k)"
  using assms
proof (cases rule: takePlace_Inr)
  case (first h c)
  then show ?thesis by simp
next
  case (second h c s2)
  have entitled: "handled s3 (hosted_id k)"
    if "entitle q k c' amount ast reason i at s0 = Inr s1" "refund_entitlements s3 = refund_entitlements s1"
    for c' amount ast reason i s0 s1 s3
    using entitle_entitled [OF that(1)] that(2) by (auto simp: handled_def exists_where_iff)
  consider (m) "refund_mismatch q k r h at D s2 = Inr (res, s')"
    | (cl) "refund_closed q k r h at D s2 = Inr (res, s')"
    | (fr) "take_free E L q k r h c at D s2 = Inr (res, s')"
    using second(5) by (auto simp: take_verified_def split: if_splits)
  then show ?thesis
  proof cases
    case m
    then show ?thesis
      by (auto simp: refund_mismatch_def fallible_iffs releaseHold_def intro: entitled)
  next
    case cl
    then show ?thesis
      by (auto simp: refund_closed_def fallible_iffs releaseHold_def Let_def split: if_splits intro: entitled)
  next
    case fr
    then show ?thesis
    proof (cases rule: take_free_cases)
      case gone
      then show ?thesis using settle_place_False by (blast intro: entitled)
    next
      case (placed cur)
      then obtain a s1 where "insert_sale (new_sale (draw_sale D (hosted_id k)) k h a at) s1 = Inr s'"
        using settle_place_True by metis
      then show ?thesis
        by (auto simp: insert_sale_def handled_def exists_where_iff new_sale_def split: if_splits)
    qed
  qed
qed

lemma takePlace_again:
  assumes "handled s (hosted_id k)" "takePlace E L q k r at D s = Inr (res, s')"
  shows "res = None \<and> s' = recordStatus (hosted_id k) (remote_status r) at s"
  using assms(2) by (cases rule: takePlace_Inr) (use assms(1) in simp_all)

text \<open>While an event's sales are closed, a verified payment takes no place.\<close>

lemma closed_frame [simp]:
  "salesClosed (verified_step q k r h at s) e = salesClosed s e"
  "salesClosed (recordStatus i st at s) e = salesClosed s e"
  by (simp_all add: salesClosed_def)

lemma refund_closed_sales:
  assumes "refund_closed q k r h at D s = Inr (res, s')"
  shows "res = None \<and> primary_sales s' = primary_sales s"
proof -
  obtain s1 where "entitle q k (hold_checkout h) (remote_amount r) (remote_asset r) EventClosed
      (draw_refund D (hosted_id k)) at s = Inr s1" "primary_sales s' = primary_sales s1" "res = None"
    using assms by (auto simp: refund_closed_def fallible_iffs releaseHold_def Let_def split: if_splits)
  then show ?thesis using entitle_frame(3) by metis
qed

lemma refund_mismatch_sales:
  assumes "refund_mismatch q k r h at D s = Inr (res, s')"
  shows "res = None \<and> primary_sales s' = primary_sales s"
proof -
  obtain s1 where "entitle q k (hold_checkout h) (remote_amount r) (remote_asset r) AmountMismatch
      (draw_refund D (hosted_id k)) at s = Inr s1" "primary_sales s' = primary_sales s1" "res = None"
    using assms by (auto simp: refund_mismatch_def fallible_iffs releaseHold_def)
  then show ?thesis using entitle_frame(3) by metis
qed

lemma takePlace_closed:
  assumes "takePlace E L q k r at D s = Inr (res, s')" "hold_by_id s (hosted_hold k) = Some h"
    and "salesClosed s (hold_event h)"
  shows "res = None \<and> primary_sales s' = primary_sales s"
  using assms(1)
proof (cases rule: takePlace_Inr)
  case (second h' c s2)
  then have "refund_mismatch q k r h at D s2 = Inr (res, s') \<or> refund_closed q k r h at D s2 = Inr (res, s')"
    using assms(2,3) by (auto simp: take_verified_def split: if_splits)
  then have "res = None \<and> primary_sales s' = primary_sales s2"
    using refund_closed_sales refund_mismatch_sales by blast
  with second show ?thesis by simp
qed simp

text \<open>A payment of another amount than the hold's buys nothing.\<close>

lemma takePlace_mismatch:
  assumes "takePlace E L q k r at D s = Inr (res, s')"
    and "remote_amount r \<noteq> hosted_amount k \<or> remote_asset r \<noteq> hosted_asset k"
  shows "res = None \<and> primary_sales s' = primary_sales s"
  using assms(1)
proof (cases rule: takePlace_Inr)
  case (second h' c s2)
  then have "refund_mismatch q k r h' at D s2 = Inr (res, s')"
    using assms(2) by (simp add: take_verified_def)
  from refund_mismatch_sales [OF this] second show ?thesis by simp
qed simp

lemma takePlace_mismatch_refund:
  assumes "takePlace E L q k r at D s = Inr (res, s')" "\<not> handled s (hosted_id k)"
    and "remote_amount r \<noteq> hosted_amount k \<or> remote_asset r \<noteq> hosted_asset k"
  shows "\<exists>f \<in> set (refund_entitlements s'). refund_hosted f = hosted_id k \<and>
           refund_amount f = remote_amount r \<and> refund_asset f = remote_asset r \<and> refund_reason f = AmountMismatch"
  using assms(1)
proof (cases rule: takePlace_Inr)
  case (first h c)
  then show ?thesis using assms(2) by (simp add: handled_def recordStatus_def)
next
  case (second h c s2)
  have fresh: "\<forall>f \<in> set (refund_entitlements s2). refund_hosted f \<noteq> hosted_id k"
    using assms(2) second(4) by (simp add: handled_def exists_where_iff verified_step_def recordStatus_def)
  have "refund_mismatch q k r h at D s2 = Inr (res, s')"
    using second(5) assms(3) by (simp add: take_verified_def)
  then obtain s3 where "entitle q k (hold_checkout h) (remote_amount r) (remote_asset r) AmountMismatch
      (draw_refund D (hosted_id k)) at s2 = Inr s3" "refund_entitlements s' = refund_entitlements s3"
    by (auto simp: refund_mismatch_def fallible_iffs releaseHold_def)
  then show ?thesis using fresh
    by (auto simp: entitle_def exists_where_iff split: if_splits)
qed

lemma takePlace_none_sales:
  assumes "takePlace E L q k r at D s = Inr (None, s')"
  shows "map sale_id (primary_sales s') = map sale_id (primary_sales s)"
  using assms
proof (cases rule: takePlace_Inr)
  case (first h c)
  then show ?thesis by (simp add: recordStatus_def)
next
  case (second h c s2)
  have frame: "primary_sales s2 = primary_sales s" by (simp add: second(4) verified_step_def recordStatus_def)
  consider (m) "refund_mismatch q k r h at D s2 = Inr (None, s')"
    | (cl) "refund_closed q k r h at D s2 = Inr (None, s')"
    | (fr) "take_free E L q k r h c at D s2 = Inr (None, s')"
    using second(5) by (auto simp: take_verified_def split: if_splits)
  then show ?thesis
  proof cases
    case m then show ?thesis using refund_mismatch_sales frame by metis
  next
    case cl then show ?thesis using refund_closed_sales frame by metis
  next
    case fr
    then show ?thesis
    proof (cases rule: take_free_cases)
      case gone
      from settle_place_False [OF this] have "primary_sales s' = primary_sales (lapse_event (hold_event h) at s2)"
        using entitle_frame(3) by blast
      then show ?thesis using frame by (simp add: lapse_event_def)
    next
      case (placed cur)
      show ?thesis by (rule settle_place_True [OF placed(3)]) simp
    qed
  qed
qed

section \<open>What a hosted checkout's cancellation means\<close>

text \<open>
  Under the provider's contract: a hold \<open>releaseAll\<close> visits either names its hosted checkout
  as paid, or that checkout is recorded over and can never be reported paid again.
\<close>

context payment_provider
begin

lemma cancelHosted_ends:
  assumes "ok p" "s_provider X = P" "cancelHosted X k at (s, p) = (Inr False, s', p')"
  shows "s' = recordStatus (hosted_id k) (remote_status (the (view p' (provider_checkout_id k)))) at s \<and>
    (\<exists>r. view p' (provider_checkout_id k) = Some r \<and> remote_status r \<noteq> Open \<and> remote_status r \<noteq> Paid) \<and> ok p'"
proof -
  obtain r where r: "cancelCheckout P (provider_checkout_id k) p = (Inr r, p')" "remote_status r \<noteq> Paid"
    "s' = recordStatus (hosted_id k) (remote_status r) at s"
    using assms(2,3) by (auto simp: cancelHosted_def split: prod.splits sum.splits if_splits)
  moreover have "ok p'" using ok_cancel [OF assms(1), of "provider_checkout_id k"] r(1) by simp
  ultimately show ?thesis using cancel_ends [OF assms(1) r(1)] by simp
qed

lemma release_one_unpaid:
  assumes "ok p" "s_provider X = P" "hold_by_id s i = Some h" "openHosted s i = Some k"
    and "release_one X q i at (s, p) = (Inr (n, []), s', p')" "run p' p2"
    and "retrieve P (provider_checkout_id k) p2 = (Inr r, p3)"
  shows "remote_status r \<noteq> Paid \<and> remote_status r \<noteq> Open"
proof -
  obtain s1 where "cancelHosted X k at (s, p) = (Inr False, s1, p')"
    using assms(3-5) by (auto simp: release_one_def split: prod.splits sum.splits bool.splits)
  from cancelHosted_ends [OF assms(1,2) this]
  obtain r0 where "view p' (provider_checkout_id k) = Some r0" "remote_status r0 \<noteq> Open" "remote_status r0 \<noteq> Paid" "ok p'"
    by blast
  then show ?thesis using reported_for_ever assms(6,7) by blast
qed

end

end
