(* ===== verification/PaymentsConfig.thy ===== *)
theory PaymentsConfig
  imports Domain "HOL-Library.Sublist"
begin

text \<open>
  \<open>src/sales/payments/config.ts\<close>: which payment provider checkout uses, read from the
  environment, a partial map from variables to values.
\<close>

section \<open>The environment\<close>

type_synonym environment = "string \<rightharpoonup> string"

datatype ledger_environment = Development | TestEnvironment | Staging | Production

datatype config_error =
    NotAUrl | NotAnOrigin | ProviderRequired | UnknownProvider | TestInProduction
  | TestWithBloque | BloqueUnset | BloqueIncomplete "string list" | UnknownMode | KeyPrefixMismatch
  | PublicUrlRequired

record parsed_url =
  url_protocol :: string
  url_origin :: string

datatype bloque_mode = Sandbox | ProductionMode

record bloque_config =
  bloque_mode :: bloque_mode
  secretKey :: string
  webhookSecret :: string

datatype chosen_provider = TestProvider | BloqueProvider bloque_config

record payments_config =
  chosen :: chosen_provider
  publicUrl :: string

text \<open>A variable that is set and not empty.\<close>

definition set_variable :: "environment \<Rightarrow> string \<Rightarrow> string option" where
  "set_variable env k = (case env k of None \<Rightarrow> None | Some v \<Rightarrow> if v = [] then None else Some v)"

definition DEFAULT_PUBLIC_URL :: string where "DEFAULT_PUBLIC_URL = ''http://localhost:8080''"

text \<open>The platform's URL parser is a parameter.\<close>

definition readPublicUrl ::
  "(string \<Rightarrow> parsed_url option) \<Rightarrow> string option \<Rightarrow> config_error + string option" where
  "readPublicUrl parse v = (case v of None \<Rightarrow> Inr None | Some u \<Rightarrow>
     if u = [] then Inr None
     else (case parse u of None \<Rightarrow> Inl NotAUrl
       | Some p \<Rightarrow> if (url_protocol p \<noteq> ''https:'' \<and> url_protocol p \<noteq> ''http:'') \<or> url_origin p \<noteq> u
                  then Inl NotAnOrigin else Inr (Some (url_origin p))))"

definition MODE_KEY :: string where "MODE_KEY = ''KIPPU_BLOQUE_PAYMENTS_MODE''"
definition SECRET_KEY :: string where "SECRET_KEY = ''KIPPU_BLOQUE_PAYMENTS_SECRET_KEY''"
definition WEBHOOK_KEY :: string where "WEBHOOK_KEY = ''KIPPU_BLOQUE_PAYMENTS_WEBHOOK_SECRET''"
definition PROVIDER_KEY :: string where "PROVIDER_KEY = ''KIPPU_PAYMENTS_PROVIDER''"
definition PUBLIC_URL_KEY :: string where "PUBLIC_URL_KEY = ''KIPPU_PUBLIC_URL''"

definition KEYS :: "string list" where "KEYS = [MODE_KEY, SECRET_KEY, WEBHOOK_KEY]"

definition KEY_PREFIX :: "bloque_mode \<Rightarrow> string" where
  "KEY_PREFIX m = (case m of Sandbox \<Rightarrow> ''sk_test_'' | ProductionMode \<Rightarrow> ''sk_live_'')"

definition set_keys :: "environment \<Rightarrow> string list" where
  "set_keys env = filter (\<lambda>k. set_variable env k \<noteq> None) KEYS"

datatype provider_name = NamedTest | NamedBloque

definition provider_named ::
  "ledger_environment \<Rightarrow> environment \<Rightarrow> config_error + provider_name" where
  "provider_named le env = (case set_variable env PROVIDER_KEY of
     None \<Rightarrow> if le = Staging \<or> le = Production then Inl ProviderRequired
            else Inr (if set_keys env = [] then NamedTest else NamedBloque)
   | Some v \<Rightarrow> if v = ''test'' then Inr NamedTest else if v = ''bloque'' then Inr NamedBloque
              else Inl UnknownProvider)"

definition mode_of :: "string option \<Rightarrow> bloque_mode option" where
  "mode_of v = (if v = Some ''sandbox'' then Some Sandbox
                else if v = Some ''production'' then Some ProductionMode else None)"

definition load_bloque ::
  "environment \<Rightarrow> string option \<Rightarrow> config_error + payments_config" where
  "load_bloque env url =
     (if set_keys env = [] then Inl BloqueUnset
      else if length (set_keys env) \<noteq> length KEYS
      then Inl (BloqueIncomplete (filter (\<lambda>k. k \<notin> set (set_keys env)) KEYS))
      else case mode_of (env MODE_KEY) of
             None \<Rightarrow> Inl UnknownMode
           | Some m \<Rightarrow>
               let key = (case env SECRET_KEY of None \<Rightarrow> [] | Some k \<Rightarrow> k) in
               if \<not> prefix (KEY_PREFIX m) key then Inl KeyPrefixMismatch
               else (case url of None \<Rightarrow> Inl PublicUrlRequired
                 | Some u \<Rightarrow> Inr \<lparr>chosen = BloqueProvider \<lparr>bloque_mode = m, secretKey = key,
                     webhookSecret = (case env WEBHOOK_KEY of None \<Rightarrow> [] | Some k \<Rightarrow> k)\<rparr>,
                     publicUrl = u\<rparr>))"

definition loadPaymentsConfig ::
  "(string \<Rightarrow> parsed_url option) \<Rightarrow> ledger_environment \<Rightarrow> environment \<Rightarrow> config_error + payments_config" where
  "loadPaymentsConfig parse le env =
     and_then (readPublicUrl parse (env PUBLIC_URL_KEY)) (\<lambda>url.
     and_then (provider_named le env) (\<lambda>name.
     case name of
       NamedTest \<Rightarrow>
         and_then (guard (le \<noteq> Production) TestInProduction) (\<lambda>_.
         and_then (guard (set_keys env = []) TestWithBloque) (\<lambda>_.
         Inr \<lparr>chosen = TestProvider,
              publicUrl = (case url of None \<Rightarrow> DEFAULT_PUBLIC_URL | Some u \<Rightarrow> u)\<rparr>))
     | NamedBloque \<Rightarrow> load_bloque env url))"

section \<open>What is loaded\<close>

lemma set_variable_Some: "set_variable env k = Some v \<longleftrightarrow> env k = Some v \<and> v \<noteq> []"
  by (auto simp: set_variable_def split: option.splits)

lemma keys_distinct: "distinct KEYS"
  by (simp add: KEYS_def MODE_KEY_def SECRET_KEY_def WEBHOOK_KEY_def)

lemma all_keys_set:
  assumes "length (set_keys env) = length KEYS" "k \<in> set KEYS"
  shows "\<exists>v. env k = Some v \<and> v \<noteq> []"
proof -
  have "set_keys env = KEYS"
    using assms(1) by (metis set_keys_def length_filter_less less_irrefl filter_True)
  then have "set_variable env k \<noteq> None"
    using assms(2) unfolding set_keys_def by (metis (mono_tags, lifting) filter_id_conv)
  then show ?thesis by (metis option.exhaust set_variable_Some)
qed

lemma mode_key_in: "MODE_KEY \<in> set KEYS" "SECRET_KEY \<in> set KEYS" "WEBHOOK_KEY \<in> set KEYS"
  by (simp_all add: KEYS_def)

end
