(* ===== verification/Examples.thy ===== *)
theory Examples
  imports SalesFacts Lifecycle PaymentsConfig
begin

text \<open>Stores, provider states and environments the witnesses of the properties use.\<close>

lemma walk_event_at: "getEvent walk_ledger ''event'' = Inr walk_event" "ev_status walk_event = Active"
  "maxCapacity walk_event = Some 1"
  by (simp_all add: walk_ledger_def walk_event_def)

lemmas walk_values = walk0_def walk1_def walk2_def walk3_def walk4_def walk5_def walk6_def walk7_def

lemma walk7_classes: "ticket_classes walk7 = [(class_of_input walk_class ''class'' 0)]"
  by (simp add: walk_values)

lemma walk_issues: "steps walk_env (walk_ledger, walk5) (walk_ledger, walk6)"
  unfolding steps_def using step_take [OF _ walk6] by (intro r_into_rtranclp) (simp add: walk5_hosted)

lemma walk5_holds: "holds walk5 = [walk_hold]"
  by (simp add: walk_values)

text \<open>The store a transaction leaves.\<close>

definition or_same :: "failure + 'a \<times> store \<Rightarrow> store \<Rightarrow> store" where
  "or_same r s = (case r of Inl _ \<Rightarrow> s | Inr (_, s') \<Rightarrow> s')"

definition walk5_closed :: store where
  "walk5_closed = close_sales ''event'' walk_cause 3500 walk5"

definition walk6_closed :: store where
  "walk6_closed = or_same (takePlace walk_env walk_ledger walk_cause walk_hosted walk_remote 4000 walk_draws walk5_closed) walk5_closed"

lemma walk6_closed: "takePlace walk_env walk_ledger walk_cause walk_hosted walk_remote 4000 walk_draws walk5_closed =
    Inr (None, walk6_closed)"
  by code_simp

lemma walk5_closed_hold: "hold_by_id walk5_closed (hosted_hold walk_hosted) = Some walk_hold"
  by (simp add: walk5_closed_def hold_by_id_def close_sales_def walk5_holds walk_hosted_def new_hosted_def)

lemma walk5_closed_closed: "salesClosed walk5_closed (hold_event walk_hold)"
  by code_simp

definition walk6_mismatch :: store where
  "walk6_mismatch = or_same (takePlace walk_env walk_ledger walk_cause walk_hosted
     (walk_remote\<lparr>remote_amount := 1\<rparr>) 4000 walk_draws walk5) walk5"

lemma walk6_mismatch: "takePlace walk_env walk_ledger walk_cause walk_hosted
     (walk_remote\<lparr>remote_amount := 1\<rparr>) 4000 walk_draws walk5 = Inr (None, walk6_mismatch)"
  by code_simp

definition walk6_again :: store where
  "walk6_again = recordStatus (hosted_id walk_hosted) Paid 4500 walk6"

lemma walk6_checkouts: "checkout_sessions walk6 = [walk_checkout]"
  by (simp add: walk_values)

lemma walk6_again: "takePlace walk_env walk_ledger walk_cause walk_hosted walk_remote 4500 walk_draws walk6 =
    Inr (None, walk6_again)"
proof -
  have "hold_id walk_hold = hosted_hold walk_hosted" "checkout_id walk_checkout = hold_checkout (take_row walk_hold)"
    "hold_id (take_row walk_hold) = hold_id walk_hold" "remote_status walk_remote = Paid" by code_simp+
  moreover obtain l where "lockAllocation walk_env (target_of_hold (take_row walk_hold)) = Inr l"
  proof -
    have "\<not> isl (lockAllocation walk_env (target_of_hold (take_row walk_hold)))" by code_simp
    then show thesis using that by (cases "lockAllocation walk_env (target_of_hold (take_row walk_hold))") simp_all
  qed
  moreover have "handled walk6 (hosted_id walk_hosted)" using takePlace_handles [OF walk6] .
  ultimately show ?thesis
    by (auto simp: takePlace_def walk6_again_def hold_by_id_def checkout_of_hold_def walk6_holds walk6_checkouts
        handled_def recordStatus_def Let_def)
qed

definition walk_setting :: "test_state setting" where
  "walk_setting = \<lparr>s_env = walk_env, s_ledger = walk_ledger,
     s_relay = (\<lambda>_ _ _. NothingSigned OtherError),
     s_provider = test_provider (\<lambda>k b. k @ b) (\<lambda>_. None) ''secret'',
     s_webhook_url = ''https://kippu.test/webhooks/payments''\<rparr>"

definition walk_provider :: test_state where
  "walk_provider = \<lparr>tp_prefix = ''test'', tp_sequence = 0, tp_stored = (\<lambda>_. None), tp_failures = {},
     tp_pays_before_cancel = {}, tp_now = 0\<rparr>"

definition cancel_example :: test_state where
  "cancel_example = \<lparr>tp_prefix = ''test'', tp_sequence = 1,
     tp_stored = [test_id ''test'' 1 \<mapsto> \<lparr>remote_id = test_id ''test'' 1, remote_url = ''u'', remote_status = Open,
       remote_amount = 500, remote_asset = ''COPM/2'', remote_hold = Some ''hold'', remote_expires = None\<rparr>],
     tp_failures = {}, tp_pays_before_cancel = {}, tp_now = 0\<rparr>"

definition cancel_remote :: remote where
  "cancel_remote = \<lparr>remote_id = test_id ''test'' 1, remote_url = ''u'', remote_status = HostedCancelled,
       remote_amount = 500, remote_asset = ''COPM/2'', remote_hold = Some ''hold'', remote_expires = None\<rparr>"

lemma cancel_example_cancels:
  "test_cancel (test_id ''test'' 1) cancel_example =
     (Inr cancel_remote, cancel_example\<lparr>tp_stored := [test_id ''test'' 1 \<mapsto> cancel_remote]\<rparr>)"
  by (simp add: test_cancel_def failIfScripted_def find_stored_def expire_if_due_def Let_def
      cancel_example_def cancel_remote_def)

definition release_example :: store where
  "release_example = empty_store\<lparr>holds := [walk_hold],
     hosted_checkouts := [walk_hosted\<lparr>provider_checkout_id := test_id ''test'' 1\<rparr>]\<rparr>"

definition release_setting :: "test_state setting" where
  "release_setting = \<lparr>s_env = walk_env, s_ledger = walk_ledger, s_relay = (\<lambda>_ _ _. NothingSigned OtherError),
     s_provider = test_provider (\<lambda>k b. k @ b) (\<lambda>_. None) [], s_webhook_url = []\<rparr>"

definition example_environment :: environment where
  "example_environment = [PROVIDER_KEY \<mapsto> ''bloque'', MODE_KEY \<mapsto> ''sandbox'', SECRET_KEY \<mapsto> ''sk_test_1'',
     WEBHOOK_KEY \<mapsto> ''whsec'', PUBLIC_URL_KEY \<mapsto> ''https://api.test'']"

definition example_config :: payments_config where
  "example_config = \<lparr>chosen = BloqueProvider \<lparr>bloque_mode = Sandbox, secretKey = ''sk_test_1'', webhookSecret = ''whsec''\<rparr>,
     publicUrl = ''https://api.test''\<rparr>"

lemma example_loads:
  "loadPaymentsConfig (\<lambda>u. Some \<lparr>url_protocol = ''https:'', url_origin = u\<rparr>) Production example_environment =
     Inr example_config"
  by code_simp

definition walk_offer :: sale_inventory where
  "walk_offer = \<lparr>si_event = ''event'', onSale = True, si_asset = Some ''COPM/2'', available = Some 1,
     classes_on_sale = [\<lparr>cos_id = ''class'', cos_name = ''Stalls'', cos_description = None, cos_price = Some 500,
       cos_policy = Single, cos_available = Some 1\<rparr>],
     zones_on_sale = [SeatedOnSale ''stalls'' [''A1'']]\<rparr>"

lemma walk_offer: "inventory walk_env walk_ledger ''event'' 1500 walk2 = Inr (walk_offer, lapse_event ''event'' 1500 walk2)"
  by code_simp

definition paying_input :: pay_input where
  "paying_input = \<lparr>pay_token = ''token'', pay_success = ''https://ok'', pay_cancel = ''https://no''\<rparr>"

lemma walk_pays: "\<not> isl (fst (pay walk_setting walk_request paying_input 2500 walk_draws (walk4, walk_provider)))"
  by code_simp

definition open_checkout :: checkout_row where
  "open_checkout = walk_checkout\<lparr>link_confirmed_at := None\<rparr>"

definition paid_setting :: "unit setting" where
  "paid_setting = \<lparr>s_env = walk_env, s_ledger = walk_ledger, s_relay = (\<lambda>_ _ _. NothingSigned OtherError),
     s_provider = \<lparr>createCheckout = (\<lambda>_ p. (Inl ProviderError, p)), retrieve = (\<lambda>_ p. (Inr walk_remote, p)),
       cancelCheckout = (\<lambda>_ p. (Inl ProviderError, p)), verifyWebhook = (\<lambda>_ _. None)\<rparr>,
     s_webhook_url = []\<rparr>"

lemma paid_sale: "map sale_id (primary_sales (fst (snd (reconcile paid_setting ''webhook'' ''pay'' PaymentProvider 4000 walk_draws
    (walk5, ()))))) = [''shosted'']"
  by code_simp

definition guest_class :: class_input where
  "guest_class = walk_class\<lparr>in_provenance := Granted, in_price := None, in_name := ''Guests''\<rparr>"

definition walk_granting :: store where
  "walk_granting = or_same (define_class walk_ledger ''org'' guest_class ''guests'' 10 walk2) walk2"

lemma walk_granting: "define_class walk_ledger ''org'' guest_class ''guests'' 10 walk2 =
    Inr (class_of_input guest_class ''guests'' 10, walk_granting)"
  by code_simp

definition grant_example :: grant_input where
  "grant_example = \<lparr>g_event = ''event'', g_class = ''guests'', g_zone = ''stalls'', g_placement = Seated ''A1'', g_holder = ''guest''\<rparr>"

lemma grant_reserves: "isl (fst (issueGranted walk_env walk_ledger (\<lambda>_ _ _. NothingSigned OtherError) ''org'' walk_request
    grant_example ''disc'' 20 walk_granting)) \<and>
  granted_seq (snd (issueGranted walk_env walk_ledger (\<lambda>_ _ _. NothingSigned OtherError) ''org'' walk_request
    grant_example ''disc'' 20 walk_granting)) = 1"
  by code_simp

definition invitation_store :: store where
  "invitation_store = empty_store\<lparr>invitations := [\<lparr>inv_id = ''inv'', inv_token_hash = hashSecret walk_env ''secret'',
     inv_event = ''event'', inv_class = ''guests'', inv_zone = ''stalls'', inv_placement = Unseated, inv_guest = None,
     inv_organiser = ''org'', inv_status = InvOpen, inv_holder = None, inv_ticket = None, inv_request = ''r'',
     inv_created_at = 0, inv_redeemed_at = None\<rparr>]\<rparr>"

end
