(* ===== verification/GrantFacts.thy ===== *)
theory GrantFacts
  imports SalesFacts
begin

text \<open>Reserving a granted issuance, and claiming an invitation.\<close>

lemma reserve_grants:
  assumes "reserve E L org rid inp seat at s = Inr (i, s1)"
  shows "i = granted_seq s \<and> (\<exists>ticket. granted_issuances s1 = granted_issuances s @ [new_grant org rid inp ticket i at])"
  by (rule reserve_Inr [OF assms]) (auto simp: lapse_event_def)

lemma claimed_not_open:
  assumes "claim_invitation th holder s = (Some r, s1)"
  shows "find (\<lambda>x. inv_token_hash x = th \<and> inv_status x = InvOpen) (invitations s1) = None"
proof -
  have "invitations s1 = update_where (\<lambda>x. inv_token_hash x = th \<and> inv_status x = InvOpen)
      (\<lambda>r. r\<lparr>inv_status := Redeeming, inv_holder := Some holder\<rparr>) (invitations s)"
    using assms by (auto simp: claim_invitation_def Let_def)
  then show ?thesis by (simp add: find_updated_None)
qed

section \<open>A granted issuance as steps\<close>

text \<open>
  What is relied on of the SDK: the ticket of a seated command is the one \<open>reserve\<close> derives for
  its event, zone and position.
\<close>

definition derives_seats :: "env \<Rightarrow> relay \<Rightarrow> bool" where
  "derives_seats E R \<longleftrightarrow> (\<forall>org req cmd t oper sub pos. R org req cmd = Assembled t oper sub \<longrightarrow>
     cmd_placement cmd = LedgerSeated pos \<longrightarrow> t = ticketId E (cmd_event cmd) (cmd_zone cmd) pos)"

lemma grant_placement_seat:
  assumes "grant_placement E s ev inp disc = Inr (Some x, pl)"
  shows "pl = LedgerSeated (seat_position x)"
  using assms by (auto simp: grant_placement_def fallible_iffs split: placement.splits option.splits if_splits)

lemma reserve_seat_ticket:
  assumes "reserve_seat E L s inp seat n = Inr ticket"
  shows "ticket = map_option (\<lambda>x. ticketId E (g_event inp) (g_zone inp) (seat_position x)) seat"
  using assms
  by (auto simp: reserve_seat_def fallible_iffs assertFree_def Let_def seatTicketOf_def
      split: option.splits if_splits sum.splits)

lemma issueGranted_steps:
  assumes inv: "sales_inv E L (core_of s)" and seats: "derives_seats E R"
  shows "steps E (L, s) (L, snd (issueGranted E L R org req inp disc at s))"
proof (cases "prepare_grant E L org inp disc s")
  case (Inl e)
  then show ?thesis by (simp add: issueGranted_def)
next
  case (Inr prep)
  obtain c seat pl where prep: "prepare_grant E L org inp disc s = Inr (c, seat, pl)" using Inr by (cases prep) auto
  then obtain ev where placed: "grant_placement E s ev inp disc = Inr (seat, pl)"
    by (auto simp: prepare_grant_def fallible_iffs split: option.splits)
  show ?thesis
  proof (cases "reserve E L org (requestId req) inp seat at s")
    case (Inl e)
    with prep show ?thesis by (simp add: issueGranted_def in_transaction_def)
  next
    case (Inr w)
    obtain i s1 where res: "reserve E L org (requestId req) inp seat at s = Inr (i, s1)" using Inr by (cases w) auto
    have reserved: "steps E (L, s) (L, s1)" by (rule steps_step [OF step_reserve [OF placed res]])
    obtain ticket where tk: "reserve_seat E L (lapse_event (g_event inp) at s) inp seat
        (counts_of (lapse_event (g_event inp) at s) (grant_target inp seat)) = Inr ticket"
      and rows: "granted_issuances s1 = granted_issuances s @ [new_grant org (requestId req) inp ticket i at]"
      and i: "i = granted_seq s"
      by (rule reserve_Inr [OF res]) (auto simp: lapse_event_def)
    have old: "granted_id g \<noteq> i" if "g \<in> set (granted_issuances s)" for g
      using inv that i by (force simp: sales_inv_def grants_ok_def)
    show ?thesis
    proof (cases "R org req (grant_command inp pl c)")
      case (NothingSigned e)
      with prep res have "snd (issueGranted E L R org req inp disc at s) = forget_grant i s1"
        by (simp add: issueGranted_def in_transaction_def)
      then show ?thesis using steps_trans [OF reserved steps_step [OF step_forget]] by metis
    next
      case (Assembled t oper sub)
      have own: "ticket = None \<or> ticket = Some t"
      proof (cases seat)
        case None
        with reserve_seat_ticket [OF tk] show ?thesis by simp
      next
        case (Some x)
        then have "pl = LedgerSeated (seat_position x)" using grant_placement_seat placed by blast
        then have "t = ticketId E (g_event inp) (g_zone inp) (seat_position x)"
          using seats Assembled unfolding derives_seats_def by (fastforce simp: grant_command_def)
        with reserve_seat_ticket [OF tk] Some show ?thesis by simp
      qed
      have "step E (L, s1) (L, set_granted_ticket i t s1)"
        by (rule step_grant_ticket) (use rows old own in auto)
      moreover have "step E (L, set_granted_ticket i t s1) (L, complete_grant i sub at (set_granted_ticket i t s1))"
        by (rule step_granted) (use rows old in \<open>auto simp: set_granted_ticket_def set_update_where new_grant_def\<close>)
      moreover have "snd (issueGranted E L R org req inp disc at s) = complete_grant i sub at (set_granted_ticket i t s1)"
        using prep res Assembled by (simp add: issueGranted_def in_transaction_def Let_def split: submission.splits)
      ultimately show ?thesis using reserved steps_step steps_trans by metis
    qed
  qed
qed

end
