(* ===== verification/Windows.thy ===== *)
theory Windows
  imports Examples GrantFacts
begin

text \<open>
  Two windows the code leaves open, each shown by a run: a capacity decrease that lands after its
  transaction rolled back, and a granted seat that was never reserved.
\<close>

section \<open>A decrease that lands late\<close>

text \<open>
  The organiser decreases the capacity to 0 while nothing is allocated; no verdict comes back, the
  transaction rolls back and frees the event's allocation lock (\<open>src/events/capacity.ts\<close>).  A hold
  is then placed, and the ledger applies the command after all.
\<close>

definition organiser_request :: request where
  "organiser_request = \<lparr>requestId = ''decrease'', principal = Organiser ''org'' ''session''\<rparr>"

definition flying :: ledger where "flying = leave_in_flight ''event'' 0 walk_ledger"
definition landed :: ledger where "landed = land_late ''event'' 0 flying"

definition unanswered :: written where "unanswered = Written ''operation'' NoVerdict"

definition window1 :: store where
  "window1 = snd (decrease_capacity walk_ledger ''org'' organiser_request ''event'' 0 unanswered 1500 walk3)"

definition window2 :: store where
  "window2 = or_same (place walk_env flying walk_request ''checkout'' (target_of walk_checkout)
     2000 ''hold'' window1) window1"

lemma window1_ledger: "decrease_ledger walk_ledger ''org'' ''event'' 0 unanswered 1500 walk3 walk_ledger = flying"
proof -
  have "\<not> isl (check_decrease walk_ledger ''org'' ''event'' 0 1500 walk3)"
    "sent_command unanswered walk3 = Some NoVerdict" by code_simp+
  then show ?thesis
    by (auto simp: decrease_ledger_def capacity_command_def flying_def isl_def split: sum.splits)
qed

lemma window1_checkouts: "checkout_sessions window1 = [walk_checkout]"
  by code_simp


lemma window2: "place walk_env flying walk_request ''checkout'' (target_of walk_checkout) 2000 ''hold'' window1 =
    Inr (None, window2)"
  by code_simp

lemma window2_holds: "holds window2 = [walk_hold]"
  by code_simp

lemma window1_reachable: "reachable walk_env flying window1"
proof -
  have "ledger_moves walk_ledger walk_ledger" by (auto simp: ledger_moves_def capacity_kept_def split: option.splits)
  then have "step walk_env (walk_ledger, walk3) (flying, window1)"
    using step_decrease [of walk_ledger walk_ledger "''org''" organiser_request "''event''" 0 unanswered 1500 walk3]
    by (metis prod.collapse window1_def window1_ledger)
  with reach3 show ?thesis by (rule reachable_step)
qed

lemma window2_reachable: "reachable walk_env flying window2"
proof (rule reachable_step [OF window1_reachable step_place])
  show "walk_checkout \<in> set (checkout_sessions window1)" by (simp add: window1_checkouts)
  show "place walk_env flying walk_request (checkout_id walk_checkout) (target_of walk_checkout) 2000 ''hold'' window1 =
      Inr (None, window2)" by (simp add: walk_checkout_simps window2)
qed (simp_all add: walk_checkout_simps)

theorem decrease_landing_late_oversells:
  "reachable walk_env landed window2 \<and> fell_late landed ''event'' 0 \<and>
   getEvent landed ''event'' = Inr (walk_event\<lparr>maxCapacity := Some 0\<rparr>) \<and>
   count_where (\<lambda>h. hold_event h = ''event'' \<and> live h) (holds window2) = 1"
proof -
  have "step walk_env (flying, window2) (landed, window2)"
    unfolding landed_def by (rule step_late) (simp add: flying_def leave_in_flight_def)
  with window2_reachable have "reachable walk_env landed window2" by (rule reachable_step)
  moreover have "getEvent landed ''event'' = Inr (walk_event\<lparr>maxCapacity := Some 0\<rparr>)"
    by (simp add: landed_def land_late_def flying_def leave_in_flight_def set_capacity_def walk_ledger_def)
  ultimately show ?thesis
    by (simp add: window2_holds count_where_Cons walk_hold_simps live_def unissued_def fell_late_def landed_def land_late_def)
qed

section \<open>A granted seat that was not reserved\<close>

text \<open>
  The seat of a zone the ledger does not name as seated when the event is read is left to the
  ledger's verdict (\<open>src/events/issuance.ts\<close>): nothing is locked or reserved for it.  When the zone
  is there by the time the command lands, the ticket is of a seat somebody holds.
\<close>

definition unzoned :: ledger where
  "unzoned = walk_ledger\<lparr>getEvent := (\<lambda>e. if e = ''event'' then Inr (walk_event\<lparr>maxCapacity := Some 2, zones := []\<rparr>)
     else Inl ''ERR-EventNotFound'')\<rparr>"

definition granting_relay :: relay where
  "granting_relay org req cmd = (case cmd_placement cmd of
     LedgerSeated pos \<Rightarrow> Assembled (walk_ticket (cmd_event cmd) (cmd_zone cmd) pos) (Some ''op'')
       (Settled \<lparr>operationId = ''op'', cursor = ''cursor''\<rparr>)
   | _ \<Rightarrow> NothingSigned OtherError)"

definition held_and_granting :: store where
  "held_and_granting = or_same (define_class walk_ledger ''org'' guest_class ''guests'' 2500 walk4) walk4"

definition held_and_granted :: store where
  "held_and_granted = snd (issueGranted walk_env unzoned granting_relay ''org'' organiser_request grant_example ''disc''
     3000 held_and_granting)"

lemma held_and_granting: "define_class walk_ledger ''org'' guest_class ''guests'' 2500 walk4 =
    Inr (class_of_input guest_class ''guests'' 2500, held_and_granting)"
  by code_simp

lemma held_and_granted_rows:
  "list_ex (\<lambda>h. live h \<and> hold_position h = Some ''A1'' \<and> hold_event h = ''event'' \<and> hold_zone h = ''stalls'')
     (holds held_and_granted)"
  "map (\<lambda>g. (granted_ticket g, granted_seat g, counted g)) (granted_issuances held_and_granted) =
     [(Some (walk_ticket ''event'' ''stalls'' (to_hex ''A1'')), None, True)]"
  by code_simp+


lemma granting_relay_derives: "derives_seats walk_env granting_relay"
  by (auto simp: derives_seats_def granting_relay_def walk_env_def)

lemma held_and_granting_reachable: "reachable walk_env unzoned held_and_granting"
proof -
  have "ledger_moves walk_ledger unzoned"
    by (auto simp: ledger_moves_def unzoned_def walk_ledger_def capacity_kept_def walk_event_def)
  then show ?thesis
    using reachable_step reach4 step_class [OF held_and_granting] step_ledger by metis
qed

theorem unreserved_grant_takes_held_seat:
  "reachable walk_env unzoned held_and_granted \<and>
   (\<exists>h \<in> set (holds held_and_granted). \<exists>g \<in> set (granted_issuances held_and_granted). live h \<and> counted g \<and>
      hold_position h = Some ''A1'' \<and>
      granted_ticket g = Some (ticketId walk_env (hold_event h) (hold_zone h) (to_hex ''A1'')))"
proof -
  have "steps walk_env (unzoned, held_and_granting) (unzoned, held_and_granted)"
    unfolding held_and_granted_def
    using reachable_inv [OF held_and_granting_reachable walk_env_ok] granting_relay_derives
    by (rule issueGranted_steps)
  then have "reachable walk_env unzoned held_and_granted"
    by (rule reachable_steps [OF held_and_granting_reachable])
  then show ?thesis using held_and_granted_rows by (auto simp: list_ex_iff walk_env_def)
qed

end
