(* ===== verification/OfferFacts.thy ===== *)
theory OfferFacts
  imports SalesFacts
begin

text \<open>
  What the public inventory says of a place: an offered seat is free, and its counts are
  those placing a hold reads.
\<close>

lemma inventory_offered:
  assumes "inventory E L e at s = Inr (v, s1)" "onSale v"
  obtains ev n where "getEvent L e = Inr ev" "ev_status ev = Active" "event_asset s e \<noteq> None"
    "unpricedClasses s e = []" "\<not> salesClosed s e" "s1 = lapse_event e at s" "n = counts_of s1 (event_target e)"
    "available v = capacityRemaining ev n"
    "classes_on_sale v = map (offer_class s1 e (capacityRemaining ev n)) (offered_classes s1 e)"
    "zones_on_sale v = map (offer_zone E s1 e (capacityRemaining ev n) at) (zones ev)"
proof -
  obtain ev where ev: "getEvent L e = Inr ev" using assms(1) by (auto simp: inventory_def split: sum.splits)
  have on: "\<not> (ev_status ev \<noteq> Active \<or> event_asset s e = None \<or> unpricedClasses s e \<noteq> [] \<or> salesClosed s e)"
    using assms ev by (auto simp: inventory_def not_offered_def Let_def split: if_splits)
  have target: "t_event (event_target e) = e" by (simp add: event_target_def)
  have "(v, s1) = (\<lparr>si_event = e, onSale = True, si_asset = event_asset s e,
      available = capacityRemaining ev (counts_of (lapse_event e at s) (event_target e)),
      classes_on_sale = map (offer_class (lapse_event e at s) e
        (capacityRemaining ev (counts_of (lapse_event e at s) (event_target e)))) (offered_classes (lapse_event e at s) e),
      zones_on_sale = map (offer_zone E (lapse_event e at s) e
        (capacityRemaining ev (counts_of (lapse_event e at s) (event_target e))) at) (zones ev)\<rparr>, lapse_event e at s)"
    using assms(1) unfolding inventory_def ev sum.case Let_def if_not_P [OF on] allocationCounts_def target prod.case
    by auto
  then show thesis using that [of ev "counts_of s1 (event_target e)"] ev on by simp
qed

lemma lapsed_unexpired:
  assumes "h \<in> set (holds (lapse_event e at s))" "hold_event h = e" "hold_status h = Outstanding"
  shows "at < expires_at h"
proof -
  have "h \<in> (\<lambda>x. if hold_event x = e \<and> expired at x then lapse x else x) ` set (holds s)"
    using assms(1) by (simp add: lapse_event_def set_update_where)
  then obtain h0 where "h = (if hold_event h0 = e \<and> expired at h0 then lapse h0 else h0)" by (rule imageE)
  with assms(2,3) have "\<not> expired at h" by (auto simp: lapse_def split: if_splits)
  with assms(3) show ?thesis by (simp add: expired_def)
qed

lemma offered_seat:
  assumes "SeatedOnSale z ds = offer_zone E s e room at zn" "d \<in> set ds"
  shows "z = zone_id zn \<and> zone_kind zn = SeatedZone \<and> room \<noteq> Some 0 \<and> d \<in> set (positionsOf s e z) \<and>
    d \<notin> heldPositions s e z at \<and> \<not> seat_taken E (taken_tickets s e) e z d"
  using assms by (cases "zone_kind zn") (auto simp: offer_zone_def split: if_splits)

lemma not_held_free:
  assumes "d \<notin> heldPositions s e z at" "h \<in> set (holds s)" "hold_event h = e" "hold_zone h = z"
    "hold_position h = Some d" "live h"
  shows "hold_status h = Outstanding \<and> expires_at h \<le> at"
proof (rule ccontr)
  assume "\<not> ?thesis"
  then have "hold_status h = Issuing \<or> hold_status h = Confirmed \<or> (hold_status h = Outstanding \<and> expires_at h > at)"
    using assms(6) by (auto simp: live_def unissued_def)
  then have "d \<in> heldPositions s e z at"
    using assms(2-5) by (force simp: heldPositions_def map_filter_def)
  then show False using assms(1) by contradiction
qed

lemma offered_seat_free:
  assumes "inventory E L e at s = Inr (v, s1)" "SeatedOnSale z ds \<in> set (zones_on_sale v)" "d \<in> set ds"
    and "positionOf E d = Inr pos"
  shows "onSale v \<and> s1 = lapse_event e at s \<and> d \<in> set (positionsOf s1 e z) \<and>
    (\<forall>h \<in> set (holds s1). hold_event h = e \<and> hold_zone h = z \<and> hold_position h = Some d \<longrightarrow> \<not> live h) \<and>
    (\<forall>g \<in> set (granted_issuances s1). granted_event g = e \<and> counted g \<longrightarrow> granted_ticket g \<noteq> Some (ticketId E e z pos)) \<and>
    (\<forall>t \<in> set (derived_tickets s1). dt_event t = e \<and> dt_seated t \<longrightarrow> dt_id t \<noteq> ticketId E e z pos)"
proof -
  have on: "onSale v"
    using assms(1,2) by (auto simp: inventory_def not_offered_def Let_def split: sum.splits if_splits prod.splits)
  from inventory_offered [OF assms(1) on] obtain ev n where
    s1: "s1 = lapse_event e at s" and z: "zones_on_sale v = map (offer_zone E s1 e (capacityRemaining ev n) at) (zones ev)"
    by metis
  obtain zn where "SeatedOnSale z ds = offer_zone E s1 e (capacityRemaining ev n) at zn" using assms(2) z by auto
  note d = offered_seat [OF this assms(3)]
  have "\<not> live h" if h: "h \<in> set (holds s1)" "hold_event h = e" "hold_zone h = z" "hold_position h = Some d" for h
  proof
    assume "live h"
    then have "hold_status h = Outstanding" "expires_at h \<le> at" using not_held_free h d by blast+
    then show False using lapsed_unexpired h(1,2) s1 by fastforce
  qed
  moreover have "ticketId E e z pos \<notin> taken_tickets s1 e"
    using d assms(4) by (elim conjE) (simp add: seat_taken_def seatTicketOf_def)
  then have "granted_ticket g \<noteq> Some (ticketId E e z pos)"
    if "g \<in> set (granted_issuances s1)" "granted_event g = e" "counted g" for g
    using that by (force simp: taken_tickets_def map_filter_def counted_def)
  moreover have "dt_id t \<noteq> ticketId E e z pos" if "t \<in> set (derived_tickets s1)" "dt_event t = e" "dt_seated t" for t
  proof -
    have "dt_id t \<in> taken_tickets s1 e" using that by (simp add: taken_tickets_def)
    with \<open>ticketId E e z pos \<notin> taken_tickets s1 e\<close> show ?thesis by metis
  qed
  ultimately show ?thesis using on s1 d by blast
qed

lemma lesser_nonzero:
  assumes "lesser (capacityRemaining ev n) (quotaRemaining m) \<noteq> Some 0"
  shows "capacityHasRoom ev n \<and> quotaHasRoom m"
  using assms
  by (auto simp: lesser_def capacityRemaining_def quotaRemaining_def capacityHasRoom_def quotaHasRoom_def
      Let_def min_def max_def split: option.splits if_splits)

lemma event_counts_same:
  assumes "t_event t = e"
  shows "capacityRemaining ev (counts_of s t) = capacityRemaining ev (counts_of s (event_target e))"
  using assms by (simp add: capacityRemaining_def Let_def counts_of_def event_target_def split: option.split)

lemma quota_counts_same:
  assumes "t_class t = c"
  shows "quotaRemaining (counts_of s t) = quotaRemaining (counts_of s (class_target e c))"
  using assms by (simp add: quotaRemaining_def counts_of_def class_target_def event_target_def split: option.split)

lemma capacityHasRoom_cong:
  "capacityRemaining ev n = capacityRemaining ev m \<Longrightarrow> capacityHasRoom ev n = capacityHasRoom ev m"
  by (simp add: capacityHasRoom_def)

lemma quotaHasRoom_cong: "quotaRemaining n = quotaRemaining m \<Longrightarrow> quotaHasRoom n = quotaHasRoom m"
  by (simp add: quotaHasRoom_def)

lemma lapse_event_again: "lapse_event e at (lapse_event e at s) = lapse_event e at s"
proof -
  have "update_where (\<lambda>h. hold_event h = e \<and> expired at h) lapse (holds (lapse_event e at s)) =
      holds (lapse_event e at s)"
  proof (rule update_where_none)
    fix h assume "h \<in> set (holds (lapse_event e at s))"
    then show "\<not> (hold_event h = e \<and> expired at h)"
      using lapsed_unexpired [of h e at s] by (auto simp: expired_def)
  qed
  then show ?thesis by (simp add: lapse_event_def)
qed

lemma unpriced_none: "unpricedClasses s e = [] \<longleftrightarrow> \<not> exists_where (unpriced_class e) (ticket_classes s)"
proof -
  have "unpricedClasses s e = [] \<longleftrightarrow> filter (unpriced_class e) (ticket_classes s) = []"
    by (simp add: unpricedClasses_def by_creation_def) (metis length_0_conv length_sort)
  then show ?thesis by (auto simp: filter_empty_conv exists_where_iff)
qed

lemma offered_terms:
  assumes "co \<in> set (map (offer_class s e room) (offered_classes s e))" "event_asset s e \<noteq> None"
    "unpricedClasses s e = []" "distinct (map class_id (ticket_classes s))"
  shows "\<exists>a p. saleTerms s e (cos_id co) = Some (a, p) \<and> cos_price co = Some p \<and>
     cos_available co = lesser room (quotaRemaining (counts_of s (class_target e (cos_id co))))"
proof -
  obtain k where k: "k \<in> set (ticket_classes s)" "class_event k = e" "price k \<noteq> None" and co: "co = offer_class s e room k"
    using assms(1) by (auto simp: offered_classes_def by_creation_def)
  have "find (\<lambda>r. class_id r = class_id k \<and> class_event r = e) (ticket_classes s) = Some k"
  proof (cases "find (\<lambda>r. class_id r = class_id k \<and> class_event r = e) (ticket_classes s)")
    case None
    then show ?thesis using find_None_all [OF None k(1)] k(2) by simp
  next
    case (Some k')
    then have "k' \<in> set (ticket_classes s)" "class_id k' = class_id k" using find_Some_in by fast+
    then show ?thesis using distinct_key_eq [OF assms(4)] k(1) Some by blast
  qed
  then show ?thesis
    using co k assms(2,3) unfolding unpriced_none by (auto simp: saleTerms_def offer_class_def)
qed

text \<open>A seat nobody holds, was granted or was issued is not refused, and a hold of it is recorded.\<close>

definition unheld_seat :: "ident \<Rightarrow> ident \<Rightarrow> string \<Rightarrow> store \<Rightarrow> bool" where
  "unheld_seat e z d s \<longleftrightarrow>
     (\<forall>h \<in> set (holds s). hold_event h = e \<and> hold_zone h = z \<and> hold_position h = Some d \<longrightarrow> \<not> live h)"

lemma free_seat_not_refused:
  assumes "unheld_seat e z d s" "getTicket L (ticketId E e z pos) = Inl ''ERR-TicketNotFound''"
    and "\<forall>g \<in> set (granted_issuances s). granted_event g = e \<and> counted g \<longrightarrow> granted_ticket g \<noteq> Some (ticketId E e z pos)"
    and "\<forall>g \<in> set (granted_issuances s). granted_ticket g = Some (ticketId E e z pos) \<longrightarrow> granted_event g = e"
    and "t_event t = e" "t_zone t = z" "t_position t = Some d"
  shows "seat_refusal E L s t (Some pos) (counts_of s t) = Inr None"
proof -
  have "\<not> seatHeld (counts_of s t)"
    using assms(1,5-7) by (auto simp: counts_of_def exists_where_iff unheld_seat_def)
  moreover have "\<not> exists_where (\<lambda>g. granted_ticket g = Some (ticketId E e z pos) \<and> granted_status g \<noteq> GrantedRejected)
      (granted_issuances s)"
    using assms(3,4) by (auto simp: exists_where_iff counted_def)
  then have "assertFree E L s e z pos = Inr (ticketId E e z pos)"
    using assms(2) by (simp add: assertFree_def seatTicketOf_def)
  ultimately show ?thesis using assms(5,6) by (simp add: seat_refusal_def)
qed

definition fresh_hold :: "ident \<Rightarrow> ident \<Rightarrow> store \<Rightarrow> bool" where
  "fresh_hold c i s \<longleftrightarrow> c \<notin> set (map hold_checkout (holds s)) \<and> i \<notin> set (map hold_id (holds s))"

lemma fresh_hold_iff: "fresh_hold c i s \<longleftrightarrow> (\<forall>h \<in> set (holds s). hold_checkout h \<noteq> c \<and> hold_id h \<noteq> i)"
  by (auto simp: fresh_hold_def)

lemma fresh_hold_lapse: "fresh_hold c i (lapse_event e at s) = fresh_hold c i s"
proof -
  have "map hold_checkout (holds (lapse_event e at s)) = map hold_checkout (holds s)"
    "map hold_id (holds (lapse_event e at s)) = map hold_id (holds s)"
    by (simp_all add: lapse_event_def map_update_where lapse_def)
  then show ?thesis by (simp only: fresh_hold_def)
qed

lemma free_seat_is_recorded:
  assumes "unheld_seat e z d s" "fresh_hold c i s" "t_event t = e" "t_zone t = z" "t_position t = Some d"
  shows "insert_hold (new_hold c t i r at terms) s = Inr (s\<lparr>holds := holds s @ [new_hold c t i r at terms]\<rparr>) \<and>
    hold_of_checkout s c = None"
proof -
  let ?h = "new_hold c t i r at terms"
  have "\<not> (live h \<and> same_seat ?h h)" if "h \<in> set (holds s)" for h
    using assms(1,3-5) that by (cases "hold_position h") (auto simp: same_seat_def seat_of_def new_hold_def unheld_seat_def)
  moreover have "hold_id ?h = i" "hold_checkout ?h = c" by (simp_all add: new_hold_def)
  ultimately have "\<not> hold_conflicts ?h (holds s)"
    using assms(2) unfolding hold_conflicts_def exists_where_iff fresh_hold_iff by metis
  moreover have "hold_of_checkout s c = None"
    using assms(2) by (auto simp: hold_of_checkout_def find_None_iff fresh_hold_iff)
  ultimately show ?thesis by (simp add: insert_hold_def)
qed

text \<open>What a class and the counts offer is room for a target of the event and the class.\<close>

lemma offered_room:
  assumes "cos_available co \<noteq> Some 0" "t_event t = e" "t_class t = cos_id co"
    and "cos_available co = lesser (capacityRemaining ev (counts_of s (event_target e)))
      (quotaRemaining (counts_of s (class_target e (cos_id co))))"
  shows "capacityHasRoom ev (counts_of s t) \<and> quotaHasRoom (counts_of s t)"
proof -
  have "capacityHasRoom ev (counts_of s (event_target e)) \<and> quotaHasRoom (counts_of s (class_target e (cos_id co)))"
    by (rule lesser_nonzero [OF assms(1) [unfolded assms(4)]])
  moreover have "capacityHasRoom ev (counts_of s t) = capacityHasRoom ev (counts_of s (event_target e))"
    by (intro capacityHasRoom_cong event_counts_same) (simp add: assms(2))
  moreover have "quotaHasRoom (counts_of s t) = quotaHasRoom (counts_of s (class_target e (cos_id co)))"
    by (intro quotaHasRoom_cong quota_counts_same) (simp add: assms(2,3))
  ultimately show ?thesis by simp
qed

text \<open>Placing where nothing refuses.\<close>

lemma place_unrefused:
  assumes "eventOnSale L s (t_event t) = Inr ev" "saleTerms s (t_event t) (t_class t) = Some (a, p)"
    and "t_position t = Some d" "positionOf E d = Inr pos" "allocationCounts t at s = (counts_of s t, s)"
    and "seat_refusal E L s t (Some pos) (counts_of s t) = Inr None"
    and "capacityHasRoom ev (counts_of s t)" "quotaHasRoom (counts_of s t)"
    and "insert_hold (new_hold c t i (requestId req) at (a, p)) s = Inr s'" "hold_of_checkout s c = None"
  shows "place E L req c t at i s = Inr (None, recordCheckoutStep c Held (cause_of req) at
      [(''hold'', DStr i), (''asset'', DStr a), (''price'', DNum p)] s')"
proof -
  have "position_of_target E t = Inr (Some pos)"
    "lockAllocation E t = Inr [SeatLock (ticketId E (t_event t) (t_zone t) pos), EventLock (t_event t)]"
    using assms(3,4) by (simp_all add: position_of_target_def lockAllocation_def lockEventAllocations_def)
  then show ?thesis
    using assms by (simp add: place_def first_refusal_def Let_def)
qed

end
