(* ===== verification/LinkFacts.thy ===== *)
theory LinkFacts
  imports SalesFacts Numerals
begin

text \<open>
  What the handoff of a checkout to a holder's device rests on: a confirmed link is never
  changed.
\<close>

section \<open>Links\<close>

text \<open>Only a linked checkout is confirmed.\<close>

definition link_ok :: "store \<Rightarrow> bool" where
  "link_ok s \<longleftrightarrow> (\<forall>c \<in> set (checkout_sessions s). link_confirmed_at c \<noteq> None \<longrightarrow> holder_account c \<noteq> None)"

lemma link_tx_sessions:
  "checkout_sessions (link_tx req found acc sess at s) = update_where (linkable found)
     (\<lambda>c. c\<lparr>holder_account := Some acc, linked_session_id := Some sess,
            linked_request_id := Some (requestId req), linked_at := Some at\<rparr>) (checkout_sessions s)"
  by (simp add: link_tx_def Let_def)

lemma confirm_tx_sessions:
  "checkout_sessions (confirm_tx req row acc at s) = update_where (confirmable row)
     (\<lambda>c. c\<lparr>link_confirmed_at := Some at, link_confirmed_request_id := Some (requestId req)\<rparr>) (checkout_sessions s)"
  by (simp add: confirm_tx_def Let_def)

lemma discard_tx_sessions:
  "checkout_sessions (discard_tx E req row token at s) = update_where (discardable row)
     (\<lambda>c. c\<lparr>holder_account := None, linked_session_id := None, linked_request_id := None,
            linked_at := None, handoff_generation := handoff_generation row + 1,
            handoff_token_hash := hashSecret E (handoffTokenOf E token (handoff_generation row + 1))\<rparr>)
     (checkout_sessions s)"
  by (simp add: discard_tx_def Let_def)

lemma link_tx_keeps:
  assumes "link_ok s"
  shows "link_ok (link_tx req found acc sess at s) \<and>
    (\<forall>c \<in> set (checkout_sessions s). link_confirmed_at c \<noteq> None \<longrightarrow>
       c \<in> set (checkout_sessions (link_tx req found acc sess at s)))"
proof -
  have "\<not> linkable found c" if "c \<in> set (checkout_sessions s)" "link_confirmed_at c \<noteq> None" for c
    using assms that by (auto simp: link_ok_def linkable_def)
  then show ?thesis
    using assms by (auto simp: link_tx_sessions link_ok_def set_update_where intro: update_where_keeps)
qed

lemma confirm_tx_keeps:
  assumes "link_ok s" "holder_account row \<noteq> None"
  shows "link_ok (confirm_tx req row acc at s) \<and>
    (\<forall>c \<in> set (checkout_sessions s). link_confirmed_at c \<noteq> None \<longrightarrow>
       c \<in> set (checkout_sessions (confirm_tx req row acc at s)))"
  using assms by (auto simp: confirm_tx_sessions link_ok_def set_update_where confirmable_def intro!: update_where_keeps)

lemma discard_tx_keeps:
  assumes "link_ok s"
  shows "link_ok (discard_tx E req row token at s) \<and>
    (\<forall>c \<in> set (checkout_sessions s). link_confirmed_at c \<noteq> None \<longrightarrow>
       c \<in> set (checkout_sessions (discard_tx E req row token at s)))"
  using assms by (auto simp: discard_tx_sessions link_ok_def set_update_where discardable_def intro!: update_where_keeps)

section \<open>Paying\<close>

lemma payable_facts:
  assumes "payable E s token at = Inr (h, amount, ast)"
  shows "\<exists>c. holdByToken E s token = Inr (h, c) \<and> link_confirmed_at c \<noteq> None \<and> holder_account c \<noteq> None \<and>
    hold_status h = Outstanding \<and> at < expires_at h \<and> hold_price h = Some amount \<and> hold_asset h = Some ast \<and>
    \<not> salesClosed s (hold_event h)"
proof -
  obtain h0 c where c: "holdByToken E s token = Inr (h0, c)" "link_confirmed_at c \<noteq> None" "holder_account c \<noteq> None"
    "hold_status h0 = Outstanding" "at < expires_at h0"
    and rest: "(case (hold_price h0, hold_asset h0) of
       (Some amount, Some ast) \<Rightarrow>
         and_then (guard (\<not> salesClosed s (hold_event h0)) (CheckoutError SalesClosed)) (\<lambda>_.
         Inr (h0, amount, ast))
     | _ \<Rightarrow> Inl (RefusedRequest BAD_REQUEST None)) = Inr (h, amount, ast)"
    using assms unfolding payable_def by (auto simp: and_then_Inr_iff guard_Inr_iff)
  then show ?thesis
    by (cases "hold_price h0"; cases "hold_asset h0") (auto simp: and_then_Inr_iff guard_Inr_iff)
qed

text \<open>A payment started is recorded: an open hosted checkout of the hold.\<close>

lemma started_payment:
  assumes "commit_or_rollback s0 (start_payment X req inp h amount ast at D (s1, p1)) = (Inr k, s', p')"
  shows "hosted_hold k = hold_id h \<and> hosted_status k = Open \<and> k \<in> set (hosted_checkouts s')"
proof -
  obtain exp s2 where ext: "extend_for_payment h at s1 = (exp, s2)" by fastforce
  obtain ans p2 where "createCheckout (s_provider X)
      \<lparr>create_hold = hold_id h, create_description = (case find_class s2 (hold_event h) (hold_class h) of
         None \<Rightarrow> ''Ticket'' | Some cl \<Rightarrow> class_name cl), create_amount = amount,
       create_asset = ast, create_expires = exp, successUrl = pay_success inp,
       cancelUrl = pay_cancel inp, webhookUrl = s_webhook_url X\<rparr> p1 = (ans, p2)" by fastforce
  with ext assms have "(case ans of Inl e \<Rightarrow> Inl e | Inr r \<Rightarrow>
      record_payment (s_env X) req h r amount ast exp (draw_hosted D (hold_id h)) at s2) = Inr (k, s')"
    by (cases ans) (auto simp: commit_or_rollback_def start_payment_def Let_def split: sum.split_asm)
  then show ?thesis
    by (cases ans) (auto simp: record_payment_def Let_def and_then_Inr_iff insert_hosted_def new_hosted_def split: if_splits)
qed

end
