(* ===== verification/DerivedCopy.thy ===== *)
theory DerivedCopy
  imports Domain
begin

text \<open>
  The derived copy of the ledger: its tables (\<open>migrations/0005\<close>, \<open>0007\<close>, \<open>0014\<close>, \<open>0024\<close>, \<open>0030\<close>,
  \<open>0031\<close>), the log records it is built from, and the projection that applies one record
  (\<open>src/derived/projection.ts\<close>, \<open>src/derived/ledger-facts.ts\<close>).  A statement a constraint of
  the schema refuses is \<open>CopyStoreError\<close>, as the database throws.
\<close>

section \<open>Log records\<close>

text \<open>The SDK's commands and passes, with the fields the projection reads.\<close>

record issue_input =
  iss_ticket :: ident
  iss_event :: ident
  iss_holder :: ident
  iss_class :: ident
  iss_provenance :: provenance
  iss_zone :: ident
  iss_placement :: "ident + string"
  iss_policy :: policy
  iss_cannot_resale :: bool
  iss_cannot_transfer :: bool

datatype ledger_command =
    CmdCreateEvent ident "int option" "zone list" "string option"
  | CmdSetEventStatus ident event_status
  | CmdSetEventCapacity ident "int option"
  | CmdAddZone ident zone
  | CmdRemoveZone ident ident
  | CmdIssueTicket issue_input
  | CmdTransferTicket ident ident ident
  | CmdRemoveRestriction ident ident string
  | CmdRegisterCredential ident string
  | CmdUnknown string

record access_pass =
  pass_id :: ident
  pass_ticket :: ident
  pass_holder :: ident
  not_before :: time
  not_after :: time

text \<open>A command with its operation id, a pass, or neither.\<close>

datatype ledger_entry = CommandEntry ledger_command ident | PassEntry access_pass | NeitherEntry

record log_record =
  rec_cursor :: ident
  rec_recorded_at :: time
  rec_event :: "(ident \<times> nat) option"
  rec_entry :: ledger_entry
  rec_presented_at :: "time option"

definition command_kind :: "ledger_command \<Rightarrow> string" where
  "command_kind c = (case c of
       CmdCreateEvent _ _ _ _ \<Rightarrow> ''createEvent''
     | CmdSetEventStatus _ _ \<Rightarrow> ''setEventStatus''
     | CmdSetEventCapacity _ _ \<Rightarrow> ''setEventCapacity''
     | CmdAddZone _ _ \<Rightarrow> ''addZone''
     | CmdRemoveZone _ _ \<Rightarrow> ''removeZone''
     | CmdIssueTicket _ \<Rightarrow> ''issueTicket''
     | CmdTransferTicket _ _ _ \<Rightarrow> ''transferTicket''
     | CmdRemoveRestriction _ _ _ \<Rightarrow> ''removeRestriction''
     | CmdRegisterCredential _ _ \<Rightarrow> ''registerCredential''
     | CmdUnknown k \<Rightarrow> k)"

definition entryKind :: "log_record \<Rightarrow> string" where
  "entryKind r = (case rec_entry r of CommandEntry c _ \<Rightarrow> command_kind c | _ \<Rightarrow> ''accessPass'')"

section \<open>The copy's tables\<close>

record applied_row =
  app_sequence :: nat
  app_cursor :: ident
  app_recorded_at :: time
  app_event :: "(ident \<times> nat) option"
  app_kind :: string
  app_operation :: "ident option"
  app_presented_at :: "time option"

record copy_event =
  ce_id :: ident
  ce_owner :: ident
  ce_status :: event_status
  ce_capacity :: "int option"
  ce_issued :: nat
  ce_zones :: "zone list"
  ce_locator :: "string option"
  ce_sequence :: nat

record copy_ticket =
  ct_id :: ident
  ct_event :: ident
  ct_holder :: ident
  ct_class :: ident
  ct_provenance :: provenance
  ct_zone :: ident
  ct_placement :: "ident + string"
  ct_policy :: policy
  ct_cannot_resale :: bool
  ct_cannot_transfer :: bool
  ct_attendances :: nat
  ct_sequence :: nat

record attendance_row =
  at_ticket :: ident
  at_event :: ident
  at_count :: nat
  at_last :: time
  at_sequence :: nat

record transfer_row =
  tr_sequence :: nat
  tr_event :: ident
  tr_ticket :: ident
  tr_from :: ident
  tr_to :: ident
  tr_recorded_at :: time

record pass_row =
  pr_ticket :: ident
  pr_pass :: ident
  pr_event :: ident
  pr_holder :: ident
  pr_not_before :: time
  pr_not_after :: time
  pr_presented_at :: time
  pr_recorded_at :: time
  pr_sequence :: nat

record credential_row =
  cr_account :: ident
  cr_credential :: ident
  cr_registration :: string
  cr_sequence :: nat

record copy =
  cp_cursor :: ident
  cp_next :: nat
  cp_log :: "applied_row list"
  cp_events :: "copy_event list"
  cp_tickets :: "copy_ticket list"
  cp_attendance :: "attendance_row list"
  cp_transfers :: "transfer_row list"
  cp_passes :: "pass_row list"
  cp_credentials :: "credential_row list"

text \<open>The cursor before the log's first record.\<close>

definition LOG_START :: ident where "LOG_START = ''''"

definition empty_copy :: copy where
  "empty_copy = \<lparr>cp_cursor = LOG_START, cp_next = 0, cp_log = [], cp_events = [], cp_tickets = [],
     cp_attendance = [], cp_transfers = [], cp_passes = [], cp_credentials = []\<rparr>"

section \<open>Writes\<close>

datatype copy_error = Unprojectable | LedgerQuery code | CopyStoreError

text \<open>\<open>exactlyOne\<close> around an \<open>UPDATE\<close>, and around an \<open>INSERT\<close> under a unique key.\<close>

definition update_one :: "('r \<Rightarrow> bool) \<Rightarrow> ('r \<Rightarrow> 'r) \<Rightarrow> 'r list \<Rightarrow> copy_error + 'r list" where
  "update_one P f rows = (if count_where P rows = 1 then Inr (update_where P f rows)
     else Inl Unprojectable)"

definition insert_one :: "('r \<Rightarrow> 'k) \<Rightarrow> 'r \<Rightarrow> 'r list \<Rightarrow> copy_error + 'r list" where
  "insert_one key r rows = (if key r \<in> set (map key rows) then Inl CopyStoreError
     else Inr (rows @ [r]))"

definition update_event ::
  "ident \<Rightarrow> (copy_event \<Rightarrow> copy_event) \<Rightarrow> copy \<Rightarrow> copy_error + copy" where
  "update_event e f c = and_then (update_one (\<lambda>r. ce_id r = e) f (cp_events c))
     (\<lambda>rows. Inr (c\<lparr>cp_events := rows\<rparr>))"

definition capacity_valid :: "int option \<Rightarrow> bool" where
  "capacity_valid cap = (case cap of None \<Rightarrow> True | Some n \<Rightarrow> 0 \<le> n)"

definition policy_valid :: "policy \<Rightarrow> bool" where
  "policy_valid p = (case p of Multiple n _ \<Rightarrow> 0 \<le> n | _ \<Rightarrow> True)"

section \<open>Applying a record\<close>

text \<open>The registration's account and credential, as the profile derives them.\<close>

type_synonym registration_reader = "string \<Rightarrow> (ident \<times> ident) option"

definition applyRegistration ::
  "registration_reader \<Rightarrow> nat \<Rightarrow> ident \<Rightarrow> string \<Rightarrow> copy \<Rightarrow> copy_error + copy" where
  "applyRegistration reg sq account registration c = (case reg registration of
       None \<Rightarrow> Inl Unprojectable
     | Some (named, credential) \<Rightarrow>
         if named \<noteq> account then Inl Unprojectable
         else if exists_where (\<lambda>r. cr_account r = named \<and> cr_credential r = credential) (cp_credentials c)
         then Inr c
         else Inr (c\<lparr>cp_credentials := cp_credentials c @
           [\<lparr>cr_account = named, cr_credential = credential, cr_registration = registration,
             cr_sequence = sq\<rparr>]\<rparr>))"

definition applyCreateEvent ::
  "ledger \<Rightarrow> nat \<Rightarrow> ident \<Rightarrow> int option \<Rightarrow> zone list \<Rightarrow> string option \<Rightarrow> copy \<Rightarrow> copy_error + copy" where
  "applyCreateEvent L sq e capacity zs locator c = (case getEvent L e of
       Inl code \<Rightarrow> Inl (LedgerQuery code)
     | Inr ev \<Rightarrow> and_then (guard (capacity_valid capacity) CopyStoreError) (\<lambda>_.
         and_then (insert_one ce_id \<lparr>ce_id = e, ce_owner = owner ev, ce_status = Active,
           ce_capacity = capacity, ce_issued = 0, ce_zones = zs, ce_locator = locator,
           ce_sequence = sq\<rparr> (cp_events c)) (\<lambda>rows. Inr (c\<lparr>cp_events := rows\<rparr>))))"

definition ticket_row :: "nat \<Rightarrow> issue_input \<Rightarrow> copy_ticket" where
  "ticket_row sq i = \<lparr>ct_id = iss_ticket i, ct_event = iss_event i, ct_holder = iss_holder i,
     ct_class = iss_class i, ct_provenance = iss_provenance i, ct_zone = iss_zone i,
     ct_placement = iss_placement i, ct_policy = iss_policy i,
     ct_cannot_resale = (iss_cannot_resale i \<or> iss_cannot_transfer i),
     ct_cannot_transfer = iss_cannot_transfer i, ct_attendances = 0, ct_sequence = sq\<rparr>"

definition applyIssue :: "nat \<Rightarrow> issue_input \<Rightarrow> copy \<Rightarrow> copy_error + copy" where
  "applyIssue sq i c =
     and_then (guard (policy_valid (iss_policy i) \<and>
         iss_event i \<in> set (map ce_id (cp_events c))) CopyStoreError) (\<lambda>_.
     and_then (insert_one ct_id (ticket_row sq i) (cp_tickets c)) (\<lambda>rows.
     update_event (iss_event i) (\<lambda>r. r\<lparr>ce_issued := ce_issued r + 1, ce_sequence := sq\<rparr>)
       (c\<lparr>cp_tickets := rows\<rparr>)))"

definition of_ticket :: "ident \<Rightarrow> ident \<Rightarrow> copy_ticket \<Rightarrow> bool" where
  "of_ticket t e r \<longleftrightarrow> ct_id r = t \<and> ct_event r = e"

definition applyTransfer ::
  "nat \<Rightarrow> time \<Rightarrow> ident \<Rightarrow> ident \<Rightarrow> ident \<Rightarrow> copy \<Rightarrow> copy_error + copy" where
  "applyTransfer sq at t e receiver c = (case find (of_ticket t e) (cp_tickets c) of
       None \<Rightarrow> Inl Unprojectable
     | Some previous \<Rightarrow>
         and_then (update_one (of_ticket t e)
             (\<lambda>r. r\<lparr>ct_holder := receiver, ct_sequence := sq\<rparr>) (cp_tickets c)) (\<lambda>tickets.
         and_then (insert_one tr_sequence \<lparr>tr_sequence = sq, tr_event = e, tr_ticket = t,
             tr_from = ct_holder previous, tr_to = receiver, tr_recorded_at = at\<rparr>
             (cp_transfers c)) (\<lambda>transfers.
         Inr (c\<lparr>cp_tickets := tickets, cp_transfers := transfers\<rparr>))))"

definition applyRestriction ::
  "nat \<Rightarrow> ident \<Rightarrow> ident \<Rightarrow> string \<Rightarrow> copy \<Rightarrow> copy_error + copy" where
  "applyRestriction sq t e restriction c =
     (if restriction = ''cannotResale'' then
        and_then (update_one (of_ticket t e)
            (\<lambda>r. r\<lparr>ct_cannot_resale := False, ct_sequence := sq\<rparr>) (cp_tickets c))
          (\<lambda>rows. Inr (c\<lparr>cp_tickets := rows\<rparr>))
      else if restriction = ''cannotTransfer'' then
        and_then (update_one (of_ticket t e)
            (\<lambda>r. r\<lparr>ct_cannot_transfer := False, ct_sequence := sq\<rparr>) (cp_tickets c))
          (\<lambda>rows. Inr (c\<lparr>cp_tickets := rows\<rparr>))
      else Inl Unprojectable)"

definition applyCommand ::
  "ledger \<Rightarrow> registration_reader \<Rightarrow> nat \<Rightarrow> log_record \<Rightarrow> ledger_command \<Rightarrow> copy \<Rightarrow> copy_error + copy" where
  "applyCommand L reg sq r cmd c = (case cmd of
       CmdCreateEvent e capacity zs locator \<Rightarrow> applyCreateEvent L sq e capacity zs locator c
     | CmdSetEventStatus e s \<Rightarrow> update_event e (\<lambda>x. x\<lparr>ce_status := s, ce_sequence := sq\<rparr>) c
     | CmdSetEventCapacity e n \<Rightarrow>
         and_then (update_event e (\<lambda>x. x\<lparr>ce_capacity := n, ce_sequence := sq\<rparr>) c)
           (\<lambda>c'. if capacity_valid n then Inr c' else Inl CopyStoreError)
     | CmdAddZone e z \<Rightarrow>
         update_event e (\<lambda>x. x\<lparr>ce_zones := ce_zones x @ [z], ce_sequence := sq\<rparr>) c
     | CmdRemoveZone e z \<Rightarrow>
         update_event e (\<lambda>x. x\<lparr>ce_zones := filter (\<lambda>y. zone_id y \<noteq> z) (ce_zones x),
           ce_sequence := sq\<rparr>) c
     | CmdIssueTicket i \<Rightarrow> applyIssue sq i c
     | CmdTransferTicket t e receiver \<Rightarrow> applyTransfer sq (rec_recorded_at r) t e receiver c
     | CmdRemoveRestriction t e restriction \<Rightarrow> applyRestriction sq t e restriction c
     | CmdRegisterCredential account registration \<Rightarrow> applyRegistration reg sq account registration c
     | CmdUnknown _ \<Rightarrow> Inl Unprojectable)"

text \<open>\<open>ON CONFLICT (ticket_id) DO UPDATE\<close>: the ticket's row counts one more.\<close>

definition upsert_attendance :: "nat \<Rightarrow> time \<Rightarrow> ident \<Rightarrow> ident \<Rightarrow> attendance_row list \<Rightarrow> attendance_row list" where
  "upsert_attendance sq at t e rows =
     (if exists_where (\<lambda>r. at_ticket r = t) rows
      then update_where (\<lambda>r. at_ticket r = t)
        (\<lambda>r. r\<lparr>at_count := at_count r + 1, at_last := at, at_sequence := sq\<rparr>) rows
      else rows @ [\<lparr>at_ticket = t, at_event = e, at_count = 1, at_last = at, at_sequence = sq\<rparr>])"

definition consumed_row :: "nat \<Rightarrow> time \<Rightarrow> time \<Rightarrow> ident \<Rightarrow> access_pass \<Rightarrow> pass_row" where
  "consumed_row sq presented at e p = \<lparr>pr_ticket = pass_ticket p, pr_pass = pass_id p, pr_event = e,
     pr_holder = pass_holder p, pr_not_before = not_before p, pr_not_after = not_after p,
     pr_presented_at = presented, pr_recorded_at = at, pr_sequence = sq\<rparr>"

definition applyAttendance :: "nat \<Rightarrow> log_record \<Rightarrow> access_pass \<Rightarrow> copy \<Rightarrow> copy_error + copy" where
  "applyAttendance sq r p c = (case rec_event r of
       None \<Rightarrow> Inl Unprojectable
     | Some (e, _) \<Rightarrow>
         and_then (update_one (of_ticket (pass_ticket p) e)
             (\<lambda>x. x\<lparr>ct_attendances := ct_attendances x + 1, ct_sequence := sq\<rparr>) (cp_tickets c))
           (\<lambda>tickets. case rec_presented_at r of
              None \<Rightarrow> Inl Unprojectable
            | Some presented \<Rightarrow>
                and_then (insert_one (\<lambda>x. (pr_ticket x, pr_pass x))
                    (consumed_row sq presented (rec_recorded_at r) e p) (cp_passes c)) (\<lambda>passes.
                Inr (c\<lparr>cp_tickets := tickets,
                  cp_attendance := upsert_attendance sq (rec_recorded_at r) (pass_ticket p) e
                    (cp_attendance c),
                  cp_passes := passes\<rparr>))))"

definition ledgerFacts ::
  "ledger \<Rightarrow> registration_reader \<Rightarrow> nat \<Rightarrow> log_record \<Rightarrow> copy \<Rightarrow> copy_error + copy" where
  "ledgerFacts L reg sq r c = (case rec_entry r of
       CommandEntry cmd _ \<Rightarrow> applyCommand L reg sq r cmd c
     | PassEntry p \<Rightarrow> applyAttendance sq r p c
     | NeitherEntry \<Rightarrow> Inl Unprojectable)"

end
