(* ===== verification/DerivedReader.thy ===== *)
theory DerivedReader
  imports DerivedCopy
begin

text \<open>
  The derived copy's reader (\<open>src/derived/reader.ts\<close>): a batch pulled from the ledger's log and
  applied in one transaction, under a lock on the reader's row, and catching up with the log.
  The log is a parameter; the waits, hints and retries of the background run are not modelled.
\<close>

section \<open>One batch\<close>

datatype reader_error = LedgerRead code | LogContract | Applying copy_error

text \<open>\<open>log.read(cursor, limit)\<close>: a page and the cursor after it.\<close>

type_synonym log_reader = "ident \<Rightarrow> nat \<Rightarrow> code + (log_record list \<times> ident)"

type_synonym projection = "nat \<Rightarrow> log_record \<Rightarrow> copy \<Rightarrow> copy_error + copy"

definition applied_of :: "nat \<Rightarrow> log_record \<Rightarrow> applied_row" where
  "applied_of sq r = \<lparr>app_sequence = sq, app_cursor = rec_cursor r, app_recorded_at = rec_recorded_at r,
     app_event = rec_event r, app_kind = entryKind r,
     app_operation = (case rec_entry r of CommandEntry _ oid \<Rightarrow> Some oid | _ \<Rightarrow> None),
     app_presented_at = rec_presented_at r\<rparr>"

text \<open>The log's rows have unique sequences and cursors.\<close>

definition recordApplied :: "nat \<Rightarrow> log_record \<Rightarrow> copy \<Rightarrow> copy_error + copy" where
  "recordApplied sq r c =
     (if exists_where (\<lambda>x. app_sequence x = sq \<or> app_cursor x = rec_cursor r) (cp_log c) \<or>
         (entryKind r = ''accessPass'') \<noteq> (app_operation (applied_of sq r) = None)
      then Inl CopyStoreError
      else Inr (c\<lparr>cp_log := cp_log c @ [applied_of sq r]\<rparr>))"

fun apply_projections :: "projection list \<Rightarrow> nat \<Rightarrow> log_record \<Rightarrow> copy \<Rightarrow> copy_error + copy" where
  "apply_projections [] sq r c = Inr c"
| "apply_projections (p # ps) sq r c = and_then (p sq r c) (apply_projections ps sq r)"

definition apply_record :: "projection list \<Rightarrow> nat \<Rightarrow> log_record \<Rightarrow> copy \<Rightarrow> copy_error + copy" where
  "apply_record ps sq r c = and_then (recordApplied sq r c) (apply_projections ps sq r)"

fun apply_records :: "projection list \<Rightarrow> nat \<Rightarrow> log_record list \<Rightarrow> copy \<Rightarrow> copy_error + (copy \<times> nat)" where
  "apply_records ps sq [] c = Inr (c, sq)"
| "apply_records ps sq (r # rs) c = and_then (apply_record ps sq r c) (apply_records ps (sq + 1) rs)"

definition page_ok :: "nat \<Rightarrow> ident \<Rightarrow> log_record list \<Rightarrow> ident \<Rightarrow> bool" where
  "page_ok batchSize from records next' \<longleftrightarrow> length records \<le> batchSize \<and>
     next' = (if records = [] then from else rec_cursor (last records))"

text \<open>\<open>step\<close>: an error rolls the batch back; the batch and the new cursor commit together.\<close>

definition reader_step ::
  "projection list \<Rightarrow> log_reader \<Rightarrow> nat \<Rightarrow> copy \<Rightarrow> reader_error + (copy \<times> log_record list)" where
  "reader_step ps read batchSize c = (case read (cp_cursor c) batchSize of
       Inl code \<Rightarrow> Inl (LedgerRead code)
     | Inr (records, next') \<Rightarrow>
         if \<not> page_ok batchSize (cp_cursor c) records next' then Inl LogContract
         else if records = [] then Inr (c, [])
         else (case apply_records ps (cp_next c) records c of
             Inl e \<Rightarrow> Inl (Applying e)
           | Inr (c', sq) \<Rightarrow> Inr (c'\<lparr>cp_cursor := next', cp_next := sq\<rparr>, records)))"

definition committed :: "copy \<Rightarrow> reader_error + (copy \<times> log_record list) \<Rightarrow> copy" where
  "committed c r = (case r of Inl _ \<Rightarrow> c | Inr (c', _) \<Rightarrow> c')"

section \<open>Catching up\<close>

text \<open>
  Steps until a pull returns nothing, or one throws: the copy as committed, and how many
  records were applied or what was thrown. \<open>None\<close> is a loop that does not end.
\<close>

partial_function (option) catchUp ::
  "(copy \<Rightarrow> reader_error + (copy \<times> log_record list)) \<Rightarrow> copy \<Rightarrow> nat \<Rightarrow>
     (copy \<times> (reader_error + nat)) option" where
  "catchUp pull c applied = (case pull c of
       Inl e \<Rightarrow> Some (c, Inl e)
     | Inr (c', records) \<Rightarrow>
         if records = [] then Some (c', Inr applied)
         else catchUp pull c' (applied + length records))"

text \<open>The server runs one projection.\<close>

definition server_projections :: "ledger \<Rightarrow> registration_reader \<Rightarrow> projection list" where
  "server_projections L reg = [ledgerFacts L reg]"

section \<open>A run of the reader\<close>

text \<open>One pull of a run: the ledger and the log as they then answer, and the batch size.\<close>

record pull =
  pull_ledger :: ledger
  pull_log :: log_reader
  pull_size :: nat

fun reader_run :: "registration_reader \<Rightarrow> pull list \<Rightarrow> copy \<Rightarrow> copy" where
  "reader_run reg [] c = c"
| "reader_run reg (p # ps) c = reader_run reg ps (committed c
     (reader_step (server_projections (pull_ledger p) reg) (pull_log p) (pull_size p) c))"

end
