(* ===== verification/DerivedQueries.thy ===== *)
theory DerivedQueries
  imports DerivedReader Allocation
begin

text \<open>
  Reads of the derived copy: how far it has read the log (\<open>src/derived/freshness.ts\<close>) and the
  queries over its tables (\<open>src/derived/queries.ts\<close>). A row stands for the view built from it:
  the code maps its columns to fields of the same names. Every read is one statement, so a
  result and its freshness are of the same copy.
\<close>

section \<open>Freshness\<close>

record freshness =
  fr_cursor :: ident
  fr_records :: nat
  fr_last :: "time option"

text \<open>The reader's row, joined with the log's row of the last record.\<close>

definition freshnessOf :: "copy \<Rightarrow> freshness" where
  "freshnessOf c = \<lparr>fr_cursor = cp_cursor c, fr_records = cp_next c,
     fr_last = map_option app_recorded_at (find (\<lambda>l. app_sequence l + 1 = cp_next c) (cp_log c))\<rparr>"

text \<open>Whether the copy holds the record at a cursor.\<close>

definition reached :: "ident \<Rightarrow> copy \<Rightarrow> bool" where
  "reached cur c \<longleftrightarrow> exists_where (\<lambda>l. app_cursor l = cur) (cp_log c)"

text \<open>
  \<open>waitFor\<close>: one check after another, each on the copy as it then is, until the record is
  there, the waiter is closed or the deadline has passed. \<open>None\<close>: none of the checks given
  ended the wait. A cursor before the first record is always reached.
\<close>

record wait_check =
  wc_copy :: copy
  wc_closed :: bool
  wc_now :: time

fun wait_loop :: "ident \<Rightarrow> time \<Rightarrow> wait_check list \<Rightarrow> bool option" where
  "wait_loop cur deadline [] = None"
| "wait_loop cur deadline (k # ks) =
     (if reached cur (wc_copy k) then Some True
      else if wc_closed k then Some False
      else if deadline - wc_now k \<le> 0 then Some False
      else wait_loop cur deadline ks)"

datatype wait_error = FreshnessClosed | NegativeTimeout

definition waitFor ::
  "ident \<Rightarrow> time \<Rightarrow> bool \<Rightarrow> time \<Rightarrow> wait_check list \<Rightarrow> wait_error + bool option" where
  "waitFor cur timeout closed start checks =
     (if closed then Inl FreshnessClosed
      else if timeout < 0 then Inl NegativeTimeout
      else if cur = LOG_START then Inr (Some True)
      else Inr (wait_loop cur (start + timeout) checks))"

text \<open>A wait with a check at or after its deadline ends.\<close>

lemma wait_loop_ends:
  "\<exists>k\<in>set checks. deadline \<le> wc_now k \<Longrightarrow> wait_loop cur deadline checks \<noteq> None"
  by (induction checks) auto

lemma wait_loop_reached: "wait_loop cur deadline checks = Some True \<Longrightarrow> \<exists>k\<in>set checks. reached cur (wc_copy k)"
  by (induction checks) (auto split: if_splits)

section \<open>Queries by identifier\<close>

type_synonym 'a derived_read = "'a \<times> freshness"

definition query_event :: "copy \<Rightarrow> ident \<Rightarrow> copy_event option derived_read" where
  "query_event c e = (find (\<lambda>r. ce_id r = e) (cp_events c), freshnessOf c)"

definition query_ticket :: "copy \<Rightarrow> ident \<Rightarrow> copy_ticket option derived_read" where
  "query_ticket c t = (find (\<lambda>r. ct_id r = t) (cp_tickets c), freshnessOf c)"

definition query_attendance :: "copy \<Rightarrow> ident \<Rightarrow> attendance_row option derived_read" where
  "query_attendance c t = (find (\<lambda>r. at_ticket r = t) (cp_attendance c), freshnessOf c)"

definition consumedPass :: "copy \<Rightarrow> ident \<Rightarrow> ident \<Rightarrow> pass_row option derived_read" where
  "consumedPass c t p = (find (\<lambda>r. pr_ticket r = t \<and> pr_pass r = p) (cp_passes c), freshnessOf c)"

definition query_credential :: "copy \<Rightarrow> ident \<Rightarrow> ident \<Rightarrow> (string \<times> nat) option derived_read" where
  "query_credential c account credential =
     (map_option (\<lambda>r. (cr_registration r, cr_sequence r))
        (find (\<lambda>r. cr_account r = account \<and> cr_credential r = credential) (cp_credentials c)), freshnessOf c)"

section \<open>Listings\<close>

text \<open>A credential with when the ledger recorded its registration.\<close>

definition credentials_of :: "copy \<Rightarrow> ident \<Rightarrow> (credential_row \<times> time option) list derived_read" where
  "credentials_of c account =
     (map (\<lambda>r. (r, map_option app_recorded_at (find (\<lambda>l. app_sequence l = cr_sequence r) (cp_log c))))
        (sort_key (\<lambda>r. (cr_sequence r, cr_credential r))
          (filter (\<lambda>r. cr_account r = account) (cp_credentials c))), freshnessOf c)"

definition transfers_of :: "copy \<Rightarrow> ident \<Rightarrow> time \<Rightarrow> time \<Rightarrow> transfer_row list derived_read" where
  "transfers_of c t from until =
     (sort_key tr_sequence (filter (\<lambda>r. tr_ticket r = t \<and> from \<le> tr_recorded_at r \<and>
        tr_recorded_at r \<le> until) (cp_transfers c)), freshnessOf c)"

definition holdings_of :: "copy \<Rightarrow> ident \<Rightarrow> copy_ticket list derived_read" where
  "holdings_of c account =
     (sort_key (\<lambda>r. (ct_event r, ct_id r)) (filter (\<lambda>r. ct_holder r = account) (cp_tickets c)),
      freshnessOf c)"

text \<open>Most recently created first: the first log sequence of the event, the highest first.\<close>

definition first_sequence :: "copy \<Rightarrow> ident \<Rightarrow> nat option" where
  "first_sequence c e = (case map app_sequence (filter (\<lambda>l. map_option fst (app_event l) = Some e) (cp_log c)) of
     [] \<Rightarrow> None | s # ss \<Rightarrow> Some (fold min ss s))"

definition created_order :: "copy \<Rightarrow> copy_event \<Rightarrow> nat \<times> int \<times> ident" where
  "created_order c x = (case first_sequence c (ce_id x) of
     None \<Rightarrow> (0, 0, ce_id x) | Some s \<Rightarrow> (1, - int s, ce_id x))"

definition eventsOwnedBy :: "copy \<Rightarrow> ident \<Rightarrow> copy_event list derived_read" where
  "eventsOwnedBy c account =
     (sort_key (created_order c) (filter (\<lambda>x. ce_owner x = account) (cp_events c)), freshnessOf c)"

section \<open>The index of events on sale\<close>

text \<open>An event's place in creation order: the sequence of its first record, then its id.\<close>

type_synonym position = "nat \<times> ident"

definition on_sale_positions :: "class_row list \<Rightarrow> copy \<Rightarrow> (copy_event \<times> position) list" where
  "on_sale_positions classes c = concat (map (\<lambda>x.
     map (\<lambda>l. (x, (app_sequence l, ce_id x))) (filter (\<lambda>l. app_event l = Some (ce_id x, 0)) (cp_log c)))
     (filter (\<lambda>x. ce_status x = Active \<and>
        exists_where (\<lambda>k. class_event k = ce_id x \<and> class_provenance k = Purchased) classes) (cp_events c)))"

definition before_position :: "position option \<Rightarrow> position \<Rightarrow> bool" where
  "before_position after p = (case after of None \<Rightarrow> True | Some a \<Rightarrow> p < a)"

definition eventsOnSale ::
  "class_row list \<Rightarrow> copy \<Rightarrow> nat \<Rightarrow> position option \<Rightarrow> (copy_event \<times> position) list derived_read" where
  "eventsOnSale classes c limit after =
     (take limit (rev (sort_key snd
        (filter (\<lambda>(x, p). before_position after p) (on_sale_positions classes c)))), freshnessOf c)"

end
