(* ===== verification/Accounts.thy ===== *)
theory Accounts
  imports Catalogue
begin

text \<open>
  Who may act: the tables of \<open>src/auth\<close>, \<open>src/operators\<close> and \<open>src/reviewers\<close>, and the
  operations of \<open>src/auth/service.ts\<close>: organiser sign-up and sign-in with a passkey,
  operator enrolment, holder linking, sessions.  Tokens, codes, identifiers and challenges
  are drawn by the caller of each operation; secrets are stored as the digest
  \<open>hashSecret\<close>.  Strings are read as their code units below 256.
\<close>

section \<open>Failures\<close>

datatype auth_failure =
    EmailTaken | UnknownOrganiser | CeremonyExpired | CredentialRejected
  | EnrolmentCodeRejected | LinkRejected | InvalidInput

text \<open>An \<open>AuthError\<close>, or whatever the store or the ledger threw, passed on as it is.\<close>

datatype auth_error = AuthError auth_failure | Thrown

section \<open>Tables\<close>

text \<open>
  What a session is for: the kind of its principal and the columns that kind fills, which a
  check constraint keeps together.
\<close>

datatype session_principal =
    ForOrganiser ident
  | ForOperator ident ident
  | ForHolder ident ident
  | ForReviewer ident

record session_row =
  session_id :: ident
  session_token :: ident
  session_for :: session_principal
  session_created :: time
  session_expires :: time
  session_revoked :: "time option"

record organiser_row =
  organiser_id :: ident
  organiser_email :: string

record passkey_row =
  credential_id :: ident
  passkey_owner :: ident
  public_key :: string
  sign_count :: nat
  last_used_at :: "time option"

datatype ceremony_kind = OrganiserSignUp | OrganiserSignIn | ReviewerEnrolment | ReviewerSignIn

record ceremony_row =
  ceremony_id :: ident
  ceremony_kind :: ceremony_kind
  ceremony_challenge :: string
  ceremony_account :: ident
  ceremony_email :: string
  ceremony_code :: "ident option"
  ceremony_expires :: time

record operator_row =
  operator_id :: ident
  operator_organiser :: ident
  operator_name :: string
  operator_created :: time

record code_row =
  code_hash :: ident
  code_account :: ident
  code_expires :: time
  code_redeemed :: "time option"
  code_voided :: "time option"

record challenge_row =
  challenge_id :: ident
  challenge_account :: ident
  challenge_nonce :: string
  challenge_expires :: time

record holder_account_row =
  linked_account :: ident
  linked_created :: time
  last_linked_at :: time

record reviewer_row =
  reviewer_id :: ident
  reviewer_email :: string
  enrolled_at :: "time option"
  disabled_at :: "time option"

record gate_grant =
  gate_grant_id :: ident
  gate_operator :: ident
  gate_organiser :: ident
  gate_event :: ident
  gates :: "string list"
  valid_from :: time
  valid_until :: time
  gate_created :: time
  gate_revoked :: "time option"

datatype admission_submission = AdmissionSettled ident | AdmissionRejected code | AdmissionFailed

datatype admission_verdict = Admitted admission_submission | RefusedAtGate string

record report_row =
  report_seq :: nat
  report_id :: ident
  report_operator :: ident
  report_organiser :: ident
  report_session :: ident
  report_request :: ident
  report_event :: ident
  report_gate :: string
  report_ticket :: ident
  report_pass :: ident
  report_holder :: "ident option"
  report_verdict :: admission_verdict
  presented_at :: time
  device_clock :: time
  received_at :: time

record accounts =
  organisers :: "organiser_row list"
  organiser_passkeys :: "passkey_row list"
  webauthn_ceremonies :: "ceremony_row list"
  operators :: "operator_row list"
  operator_codes :: "code_row list"
  sessions :: "session_row list"
  holders :: "holder_account_row list"
  link_challenges :: "challenge_row list"
  reviewers :: "reviewer_row list"
  reviewer_codes :: "code_row list"
  reviewer_passkeys :: "passkey_row list"
  reviewer_ceremonies :: "ceremony_row list"
  operator_grants :: "gate_grant list"
  admission_reports :: "report_row list"
  report_count :: nat

definition no_accounts :: accounts where
  "no_accounts = \<lparr>organisers = [], organiser_passkeys = [], webauthn_ceremonies = [],
     operators = [], operator_codes = [], sessions = [], holders = [], link_challenges = [],
     reviewers = [], reviewer_codes = [], reviewer_passkeys = [], reviewer_ceremonies = [],
     operator_grants = [], admission_reports = [], report_count = 0\<rparr>"

section \<open>What the login relies on\<close>

text \<open>
  The WebAuthn library: whether a registration or an assertion verifies, for a challenge, the
  accepted origins and the relying party, with the passkey or its new counter.
\<close>

record webauthn =
  verifyRegistration :: "string \<Rightarrow> string \<Rightarrow> string list \<Rightarrow> string \<Rightarrow> (ident \<times> string \<times> nat) option"
  verifyAuthentication :: "string \<Rightarrow> string \<Rightarrow> string list \<Rightarrow> string \<Rightarrow> string \<Rightarrow> nat \<Rightarrow> nat option"

record relying_party =
  rp_id :: string
  rp_origins :: "string list"

record assertion =
  asserted_id :: ident
  asserted_response :: string

record proof_challenge =
  proof_audience :: string
  proof_nonce :: string
  proof_expires :: time
  proof_account :: ident

text \<open>
  Holder linking: the profile's decoding and verification of an authorisation, and the
  credential's registration as the ledger records it.
\<close>

record holder_linking =
  decodeKind :: "string \<Rightarrow> string option"
  claimedAccount :: "string \<Rightarrow> (ident \<times> ident) option"
  getCredential :: "ident \<Rightarrow> ident \<Rightarrow> failure + (code + string option)"
  verifyProofOfControl :: "proof_challenge \<Rightarrow> string \<Rightarrow> string \<Rightarrow> time \<Rightarrow> string \<Rightarrow> bool"
  holderRpId :: string

record auth_setting =
  auth_env :: env
  auth_library :: webauthn
  relyingParty :: relying_party
  linking :: "holder_linking option"

section \<open>Lifetimes\<close>

definition HOUR_MS :: time where "HOUR_MS = 60 * 60 * 1000"
definition ORGANISER_SESSION_MS :: time where "ORGANISER_SESSION_MS = 12 * HOUR_MS"
definition OPERATOR_SESSION_MS :: time where "OPERATOR_SESSION_MS = 24 * HOUR_MS"
definition HOLDER_SESSION_MS :: time where "HOLDER_SESSION_MS = 30 * 24 * HOUR_MS"
definition REVOKED_OPERATOR_REPORTING_MS :: time where
  "REVOKED_OPERATOR_REPORTING_MS = 24 * HOUR_MS"
definition HOLDER_CHALLENGE_MS :: time where "HOLDER_CHALLENGE_MS = 5 * 60 * 1000"
definition CEREMONY_MS :: time where "CEREMONY_MS = 5 * 60 * 1000"

lemmas lifetimes = HOUR_MS_def ORGANISER_SESSION_MS_def OPERATOR_SESSION_MS_def
  HOLDER_SESSION_MS_def REVOKED_OPERATOR_REPORTING_MS_def HOLDER_CHALLENGE_MS_def CEREMONY_MS_def

section \<open>Input checks\<close>

definition js_space :: "char \<Rightarrow> bool" where
  "js_space c \<longleftrightarrow> (of_char c :: nat) \<in> {9, 10, 11, 12, 13, 32, 160}"

definition lower_char :: "char \<Rightarrow> char" where
  "lower_char c = (let n = of_char c :: nat in
     if (65 \<le> n \<and> n \<le> 90) \<or> (192 \<le> n \<and> n \<le> 222 \<and> n \<noteq> 215) then char_of (n + 32) else c)"

definition trim :: "string \<Rightarrow> string" where
  "trim s = rev (dropWhile js_space (rev (dropWhile js_space s)))"

definition is_email :: "string \<Rightarrow> bool" where
  "is_email s = (let user = takeWhile (\<lambda>c. c \<noteq> CHR ''@'') s; rest = dropWhile (\<lambda>c. c \<noteq> CHR ''@'') s
     in user \<noteq> [] \<and> length rest > 1 \<and> CHR ''@'' \<notin> set (tl rest) \<and> \<not> list_ex js_space s)"

definition normaliseEmail :: "string \<Rightarrow> auth_error + string" where
  "normaliseEmail email = (let n = map lower_char (trim email) in
     if length n > 320 \<or> \<not> is_email n then Inl (AuthError InvalidInput) else Inr n)"

definition is_hex :: "char \<Rightarrow> bool" where
  "is_hex c \<longleftrightarrow> c \<in> set ''0123456789abcdef''"

definition account_hex :: "string \<Rightarrow> bool" where
  "account_hex s \<longleftrightarrow> length s = 64 \<and> list_all is_hex s"

definition authorisation_hex :: "string \<Rightarrow> bool" where
  "authorisation_hex s \<longleftrightarrow> even (length s) \<and> 2 \<le> length s \<and> length s \<le> 2 * 8192 \<and> list_all is_hex s"

definition linkAudience :: "string \<Rightarrow> string" where
  "linkAudience loginRpId = ''kippu-api@'' @ loginRpId"

end
