(* ===== verification/Authentication.thy ===== *)
theory Authentication
  imports Accounts
begin

text \<open>
  The operations of \<open>src/auth/service.ts\<close>.  A statement outside a transaction stands
  even when what follows it fails, so those operations return the tables beside the answer;
  a transaction is a step that changes nothing when it fails.
\<close>

section \<open>Inserting under the unique indexes\<close>

text \<open>\<open>None\<close> is the store refusing a duplicate key.\<close>

definition insert_unless :: "('r \<Rightarrow> 'r \<Rightarrow> bool) \<Rightarrow> 'r \<Rightarrow> 'r list \<Rightarrow> 'r list option" where
  "insert_unless conflict r rows = (if list_ex (conflict r) rows then None else Some (rows @ [r]))"

definition same_session :: "session_row \<Rightarrow> session_row \<Rightarrow> bool" where
  "same_session x y \<longleftrightarrow> session_id x = session_id y \<or> session_token x = session_token y"

definition new_session ::
  "env \<Rightarrow> session_principal \<Rightarrow> time \<Rightarrow> string \<Rightarrow> ident \<Rightarrow> time \<Rightarrow> session_row" where
  "new_session E p lifetime token i at = \<lparr>session_id = i, session_token = hashSecret E token,
     session_for = p, session_created = at, session_expires = at + lifetime, session_revoked = None\<rparr>"

definition issueSession ::
  "env \<Rightarrow> session_principal \<Rightarrow> time \<Rightarrow> string \<Rightarrow> ident \<Rightarrow> time \<Rightarrow> accounts \<Rightarrow> accounts option" where
  "issueSession E p lifetime token i at a =
     map_option (\<lambda>rows. a\<lparr>sessions := rows\<rparr>)
       (insert_unless same_session (new_session E p lifetime token i at) (sessions a))"

text \<open>A bearer token and when it stops working.\<close>

type_synonym issued = "string \<times> time"

section \<open>Ceremonies\<close>

definition openCeremony ::
  "ceremony_kind \<Rightarrow> string \<Rightarrow> ident \<Rightarrow> string \<Rightarrow> ident \<Rightarrow> time \<Rightarrow> accounts \<Rightarrow> accounts option" where
  "openCeremony kind challenge org email i at a =
     map_option (\<lambda>rows. a\<lparr>webauthn_ceremonies := rows\<rparr>)
       (insert_unless (\<lambda>x y. ceremony_id x = ceremony_id y)
          \<lparr>ceremony_id = i, ceremony_kind = kind, ceremony_challenge = challenge,
           ceremony_account = org, ceremony_email = email, ceremony_code = None,
           ceremony_expires = at + CEREMONY_MS\<rparr> (webauthn_ceremonies a))"

definition ceremony_named :: "ceremony_kind \<Rightarrow> ident \<Rightarrow> ceremony_row \<Rightarrow> bool" where
  "ceremony_named kind i c \<longleftrightarrow> ceremony_id c = i \<and> ceremony_kind c = kind"

definition consumeCeremony ::
  "ceremony_kind \<Rightarrow> ident \<Rightarrow> time \<Rightarrow> accounts \<Rightarrow> (auth_error + ceremony_row) \<times> accounts" where
  "consumeCeremony kind i at a =
     ((case find (ceremony_named kind i) (webauthn_ceremonies a) of
         None \<Rightarrow> Inl (AuthError CeremonyExpired)
       | Some c \<Rightarrow> if ceremony_expires c > at then Inr c else Inl (AuthError CeremonyExpired)),
      a\<lparr>webauthn_ceremonies := filter (\<lambda>c. \<not> ceremony_named kind i c) (webauthn_ceremonies a)\<rparr>)"

section \<open>Organisers\<close>

definition organiser_by_email :: "accounts \<Rightarrow> string \<Rightarrow> organiser_row option" where
  "organiser_by_email a email = find (\<lambda>r. organiser_email r = email) (organisers a)"

definition beginOrganiserSignUp ::
  "string \<Rightarrow> ident \<Rightarrow> string \<Rightarrow> ident \<Rightarrow> time \<Rightarrow> accounts \<Rightarrow> (auth_error + ident) \<times> accounts" where
  "beginOrganiserSignUp email org challenge i at a =
     (case normaliseEmail email of Inl e \<Rightarrow> (Inl e, a)
      | Inr n \<Rightarrow> if organiser_by_email a n \<noteq> None then (Inl (AuthError EmailTaken), a)
          else (case openCeremony OrganiserSignUp challenge org n i at a of
                  None \<Rightarrow> (Inl Thrown, a) | Some a' \<Rightarrow> (Inr i, a')))"

definition insert_organiser :: "organiser_row \<Rightarrow> accounts \<Rightarrow> accounts option" where
  "insert_organiser r a = map_option (\<lambda>rows. a\<lparr>organisers := rows\<rparr>)
     (insert_unless (\<lambda>x y. organiser_id x = organiser_id y \<or> organiser_email x = organiser_email y) r
        (organisers a))"

definition same_passkey :: "passkey_row \<Rightarrow> passkey_row \<Rightarrow> bool" where
  "same_passkey x y \<longleftrightarrow> credential_id x = credential_id y"

definition insert_organiser_passkey :: "passkey_row \<Rightarrow> accounts \<Rightarrow> accounts option" where
  "insert_organiser_passkey r a = map_option (\<lambda>rows. a\<lparr>organiser_passkeys := rows\<rparr>)
     (insert_unless same_passkey r (organiser_passkeys a))"

definition passkey_of :: "ident \<Rightarrow> ident \<times> string \<times> nat \<Rightarrow> passkey_row" where
  "passkey_of who p = (case p of (i, key, counter) \<Rightarrow>
     \<lparr>credential_id = i, passkey_owner = who, public_key = key, sign_count = counter,
      last_used_at = None\<rparr>)"

text \<open>The transaction of a verified sign-up: any duplicate is reported as a taken email.\<close>

definition sign_up_tx ::
  "env \<Rightarrow> ceremony_row \<Rightarrow> ident \<times> string \<times> nat \<Rightarrow> string \<Rightarrow> ident \<Rightarrow> time \<Rightarrow> accounts \<Rightarrow>
     accounts option" where
  "sign_up_tx E c passkey token sid at a =
     Option.bind (insert_organiser \<lparr>organiser_id = ceremony_account c, organiser_email = ceremony_email c\<rparr> a)
       (\<lambda>a1. Option.bind (insert_organiser_passkey (passkey_of (ceremony_account c) passkey) a1)
       (\<lambda>a2. issueSession E (ForOrganiser (ceremony_account c)) ORGANISER_SESSION_MS token sid at a2))"

definition completeOrganiserSignUp ::
  "auth_setting \<Rightarrow> ident \<Rightarrow> string \<Rightarrow> string \<Rightarrow> ident \<Rightarrow> time \<Rightarrow> accounts \<Rightarrow>
     (auth_error + issued \<times> ident) \<times> accounts" where
  "completeOrganiserSignUp X i response token sid at a =
     (case consumeCeremony OrganiserSignUp i at a of
        (Inl e, a1) \<Rightarrow> (Inl e, a1)
      | (Inr c, a1) \<Rightarrow>
          (case verifyRegistration (auth_library X) response (ceremony_challenge c)
                  (rp_origins (relyingParty X)) (rp_id (relyingParty X)) of
             None \<Rightarrow> (Inl (AuthError CredentialRejected), a1)
           | Some passkey \<Rightarrow>
               (case sign_up_tx (auth_env X) c passkey token sid at a1 of
                  None \<Rightarrow> (Inl (AuthError EmailTaken), a1)
                | Some a2 \<Rightarrow> (Inr ((token, at + ORGANISER_SESSION_MS), ceremony_account c), a2))))"

definition beginOrganiserSignIn ::
  "string \<Rightarrow> string \<Rightarrow> ident \<Rightarrow> time \<Rightarrow> accounts \<Rightarrow> (auth_error + ident \<times> ident list) \<times> accounts" where
  "beginOrganiserSignIn email challenge i at a =
     (case normaliseEmail email of Inl e \<Rightarrow> (Inl e, a)
      | Inr n \<Rightarrow> (case organiser_by_email a n of None \<Rightarrow> (Inl (AuthError UnknownOrganiser), a)
          | Some r \<Rightarrow>
              (case openCeremony OrganiserSignIn challenge (organiser_id r) n i at a of
                 None \<Rightarrow> (Inl Thrown, a)
               | Some a' \<Rightarrow> (Inr (i, map credential_id
                     (filter (\<lambda>k. passkey_owner k = organiser_id r) (organiser_passkeys a))), a'))))"

definition passkey_named :: "ident \<Rightarrow> ident \<Rightarrow> passkey_row \<Rightarrow> bool" where
  "passkey_named cred who k \<longleftrightarrow> credential_id k = cred \<and> passkey_owner k = who"

definition count_use :: "ident \<Rightarrow> nat \<Rightarrow> time \<Rightarrow> passkey_row list \<Rightarrow> passkey_row list" where
  "count_use cred counter at = update_where (\<lambda>k. credential_id k = cred)
     (\<lambda>k. k\<lparr>sign_count := counter, last_used_at := Some at\<rparr>)"

definition verify_assertion ::
  "auth_setting \<Rightarrow> assertion \<Rightarrow> string \<Rightarrow> passkey_row \<Rightarrow> nat option" where
  "verify_assertion X cred challenge k =
     verifyAuthentication (auth_library X) (asserted_response cred) challenge
       (rp_origins (relyingParty X)) (rp_id (relyingParty X)) (public_key k) (sign_count k)"

definition completeOrganiserSignIn ::
  "auth_setting \<Rightarrow> ident \<Rightarrow> assertion \<Rightarrow> string \<Rightarrow> ident \<Rightarrow> time \<Rightarrow> accounts \<Rightarrow>
     (auth_error + issued \<times> ident) \<times> accounts" where
  "completeOrganiserSignIn X i cred token sid at a =
     (case consumeCeremony OrganiserSignIn i at a of
        (Inl e, a1) \<Rightarrow> (Inl e, a1)
      | (Inr c, a1) \<Rightarrow>
          (case find (passkey_named (asserted_id cred) (ceremony_account c)) (organiser_passkeys a1) of
             None \<Rightarrow> (Inl (AuthError CredentialRejected), a1)
           | Some k \<Rightarrow>
               (case verify_assertion X cred (ceremony_challenge c) k of
                  None \<Rightarrow> (Inl (AuthError CredentialRejected), a1)
                | Some counter \<Rightarrow>
                    (case issueSession (auth_env X) (ForOrganiser (ceremony_account c))
                            ORGANISER_SESSION_MS token sid at
                            (a1\<lparr>organiser_passkeys :=
                               count_use (credential_id k) counter at (organiser_passkeys a1)\<rparr>) of
                       None \<Rightarrow> (Inl Thrown, a1)
                     | Some a2 \<Rightarrow> (Inr ((token, at + ORGANISER_SESSION_MS), ceremony_account c), a2)))))"

section \<open>Operators enrol\<close>

definition redeemable :: "ident \<Rightarrow> time \<Rightarrow> code_row \<Rightarrow> bool" where
  "redeemable h at c \<longleftrightarrow> code_hash c = h \<and> code_redeemed c = None \<and> code_voided c = None \<and>
     code_expires c > at"

definition operator_by_id :: "accounts \<Rightarrow> ident \<Rightarrow> operator_row option" where
  "operator_by_id a i = find (\<lambda>r. operator_id r = i) (operators a)"

definition redeem_code :: "ident \<Rightarrow> time \<Rightarrow> accounts \<Rightarrow> (code_row \<times> operator_row) option" where
  "redeem_code h at a = Option.bind (find (redeemable h at) (operator_codes a))
     (\<lambda>c. map_option (Pair c) (operator_by_id a (code_account c)))"

definition spend_code :: "ident \<Rightarrow> time \<Rightarrow> code_row list \<Rightarrow> code_row list" where
  "spend_code h at = update_where (redeemable h at) (\<lambda>c. c\<lparr>code_redeemed := Some at\<rparr>)"

definition redeemOperatorEnrolmentCode ::
  "auth_setting \<Rightarrow> string \<Rightarrow> string \<Rightarrow> ident \<Rightarrow> time \<Rightarrow> accounts \<Rightarrow>
     auth_error + (issued \<times> ident \<times> ident) \<times> accounts" where
  "redeemOperatorEnrolmentCode X code token sid at a =
     (let h = hashSecret (auth_env X) code in
      case redeem_code h at a of None \<Rightarrow> Inl (AuthError EnrolmentCodeRejected)
      | Some (c, op) \<Rightarrow>
          (case issueSession (auth_env X) (ForOperator (code_account c) (operator_organiser op))
                  OPERATOR_SESSION_MS token sid at
                  (a\<lparr>operator_codes := spend_code h at (operator_codes a)\<rparr>) of
             None \<Rightarrow> Inl Thrown
           | Some a' \<Rightarrow> Inr (((token, at + OPERATOR_SESSION_MS), code_account c, operator_organiser op), a')))"

section \<open>Holders link\<close>

definition beginHolderLink ::
  "string \<Rightarrow> string \<Rightarrow> string \<Rightarrow> ident \<Rightarrow> time \<Rightarrow> accounts \<Rightarrow>
     (auth_error + ident \<times> proof_challenge) \<times> accounts" where
  "beginHolderLink rp account nonce i at a =
     (if \<not> account_hex account then (Inl (AuthError InvalidInput), a)
      else case insert_unless
             (\<lambda>x y. challenge_id x = challenge_id y \<or> challenge_nonce x = challenge_nonce y)
             \<lparr>challenge_id = i, challenge_account = account, challenge_nonce = nonce,
              challenge_expires = at + HOLDER_CHALLENGE_MS\<rparr> (link_challenges a) of
          None \<Rightarrow> (Inl Thrown, a)
        | Some rows \<Rightarrow> (Inr (i, \<lparr>proof_audience = linkAudience rp, proof_nonce = nonce,
              proof_expires = at + HOLDER_CHALLENGE_MS, proof_account = account\<rparr>),
              a\<lparr>link_challenges := rows\<rparr>))"

definition holder_claim ::
  "holder_linking \<Rightarrow> string \<Rightarrow> ident \<Rightarrow> (ident \<times> ident) option" where
  "holder_claim H bytes account =
     (if decodeKind H bytes \<noteq> Some ''passWebAuthn'' then None
      else Option.bind (claimedAccount H bytes) (\<lambda>(acc, cred).
        if acc = account then Some (acc, cred) else None))"

text \<open>What the code compares and verifies of a consumed challenge: the credential it names.\<close>

definition holder_proof ::
  "auth_setting \<Rightarrow> challenge_row \<Rightarrow> string \<Rightarrow> time \<Rightarrow> auth_error + ident" where
  "holder_proof X row authorisation at =
     (case linking X of None \<Rightarrow> Inl (AuthError LinkRejected)
      | Some H \<Rightarrow>
        if \<not> authorisation_hex authorisation then Inl (AuthError LinkRejected)
        else let bytes = of_hex authorisation in
          (case holder_claim H bytes (challenge_account row) of None \<Rightarrow> Inl (AuthError LinkRejected)
           | Some (acc, cred) \<Rightarrow>
             (case getCredential H acc cred of Inl _ \<Rightarrow> Inl Thrown
              | Inr (Inr (Some registration)) \<Rightarrow>
                  if verifyProofOfControl H
                       \<lparr>proof_audience = linkAudience (rp_id (relyingParty X)),
                        proof_nonce = challenge_nonce row, proof_expires = challenge_expires row,
                        proof_account = challenge_account row\<rparr>
                       bytes registration at (holderRpId H)
                  then Inr cred else Inl (AuthError LinkRejected)
              | Inr _ \<Rightarrow> Inl (AuthError LinkRejected))))"

definition upsert_holder :: "ident \<Rightarrow> time \<Rightarrow> accounts \<Rightarrow> accounts" where
  "upsert_holder account at a = a\<lparr>holders :=
     (if list_ex (\<lambda>r. linked_account r = account) (holders a)
      then update_where (\<lambda>r. linked_account r = account) (\<lambda>r. r\<lparr>last_linked_at := at\<rparr>) (holders a)
      else holders a @ [\<lparr>linked_account = account, linked_created = at, last_linked_at = at\<rparr>])\<rparr>"

definition completeHolderLink ::
  "auth_setting \<Rightarrow> ident \<Rightarrow> string \<Rightarrow> string \<Rightarrow> ident \<Rightarrow> time \<Rightarrow> accounts \<Rightarrow>
     (auth_error + issued \<times> ident) \<times> accounts" where
  "completeHolderLink X i authorisation token sid at a =
     (let a1 = a\<lparr>link_challenges := filter (\<lambda>r. challenge_id r \<noteq> i) (link_challenges a)\<rparr> in
      case find (\<lambda>r. challenge_id r = i) (link_challenges a) of
        None \<Rightarrow> (Inl (AuthError LinkRejected), a1)
      | Some row \<Rightarrow>
          (case holder_proof X row authorisation at of Inl e \<Rightarrow> (Inl e, a1)
           | Inr cred \<Rightarrow>
               (case issueSession (auth_env X) (ForHolder (challenge_account row) cred)
                       HOLDER_SESSION_MS token sid at (upsert_holder (challenge_account row) at a1) of
                  None \<Rightarrow> (Inl Thrown, a1)
                | Some a2 \<Rightarrow> (Inr ((token, at + HOLDER_SESSION_MS), challenge_account row), a2))))"

section \<open>Sessions\<close>

definition principal_of_session :: "session_row \<Rightarrow> principal" where
  "principal_of_session r = (case session_for r of
       ForOrganiser i \<Rightarrow> Organiser i (session_id r)
     | ForOperator i org \<Rightarrow> Operator i org (session_id r)
     | ForHolder acc _ \<Rightarrow> Holder acc (session_id r)
     | ForReviewer i \<Rightarrow> Reviewer i (session_id r))"

definition reviewer_disabled :: "accounts \<Rightarrow> session_row \<Rightarrow> bool" where
  "reviewer_disabled a r = (case session_for r of
       ForReviewer i \<Rightarrow> list_ex (\<lambda>v. reviewer_id v = i \<and> disabled_at v \<noteq> None) (reviewers a)
     | _ \<Rightarrow> False)"

definition session_live :: "accounts \<Rightarrow> ident \<Rightarrow> time \<Rightarrow> session_row \<Rightarrow> bool" where
  "session_live a h at r \<longleftrightarrow> session_token r = h \<and> session_revoked r = None \<and>
     session_expires r > at \<and> \<not> reviewer_disabled a r"

definition authenticate :: "env \<Rightarrow> string \<Rightarrow> time \<Rightarrow> accounts \<Rightarrow> (principal \<times> time) option" where
  "authenticate E token at a =
     map_option (\<lambda>r. (principal_of_session r, session_expires r))
       (find (session_live a (hashSecret E token) at) (sessions a))"

definition revoked_operator :: "ident \<Rightarrow> time \<Rightarrow> session_row \<Rightarrow> bool" where
  "revoked_operator h since r \<longleftrightarrow> session_token r = h \<and>
     (case session_for r of ForOperator _ _ \<Rightarrow> True | _ \<Rightarrow> False) \<and>
     (case session_revoked r of None \<Rightarrow> False | Some t \<Rightarrow> t > since)"

definition authenticateRevokedOperator ::
  "env \<Rightarrow> string \<Rightarrow> time \<Rightarrow> accounts \<Rightarrow> (principal \<times> time) option" where
  "authenticateRevokedOperator E token at a =
     Option.bind (find (revoked_operator (hashSecret E token) (at - REVOKED_OPERATOR_REPORTING_MS)) (sessions a))
       (\<lambda>r. map_option (Pair (principal_of_session r)) (session_revoked r))"

definition revoke_session :: "(session_row \<Rightarrow> bool) \<Rightarrow> time \<Rightarrow> accounts \<Rightarrow> accounts" where
  "revoke_session P at a = a\<lparr>sessions :=
     update_where (\<lambda>r. P r \<and> session_revoked r = None) (\<lambda>r. r\<lparr>session_revoked := Some at\<rparr>) (sessions a)\<rparr>"

definition signOut :: "ident \<Rightarrow> time \<Rightarrow> accounts \<Rightarrow> accounts" where
  "signOut sid at a = revoke_session (\<lambda>r. session_id r = sid) at a"

end
