(* ===== verification/Operators.thy ===== *)
theory Operators
  imports Authentication
begin

text \<open>
  \<open>src/operators/service.ts\<close> and \<open>src/operators/reports.ts\<close>: an organiser's operators,
  their enrolment codes and gates, the check at a gate, and the admission reports it sends.
\<close>

section \<open>Operators and codes\<close>

definition ENROLMENT_CODE_MS :: time where "ENROLMENT_CODE_MS = 60 * 60 * 1000"

definition unknownOperator :: failure where
  "unknownOperator = RefusedRequest NOT_FOUND (Some ''unknown-operator'')"

definition unknownGrant :: failure where
  "unknownGrant = RefusedRequest NOT_FOUND (Some ''unknown-grant'')"

definition refusedCheck :: "string \<Rightarrow> failure" where
  "refusedCheck reason = RefusedRequest FORBIDDEN (Some reason)"

definition or_store_error :: "'a option \<Rightarrow> failure + 'a" where
  "or_store_error r = (case r of None \<Rightarrow> Inl StoreError | Some x \<Rightarrow> Inr x)"

definition assertOperator :: "accounts \<Rightarrow> ident \<Rightarrow> ident \<Rightarrow> failure + unit" where
  "assertOperator a org i =
     guard (list_ex (\<lambda>r. operator_id r = i \<and> operator_organiser r = org) (operators a)) unknownOperator"

definition create_operator ::
  "ident \<Rightarrow> string \<Rightarrow> ident \<Rightarrow> time \<Rightarrow> accounts \<Rightarrow> failure + operator_row \<times> accounts" where
  "create_operator org name i at a =
     (let r = \<lparr>operator_id = i, operator_organiser = org, operator_name = name, operator_created = at\<rparr> in
      if length name < 1 \<or> length name > 200 then Inl StoreError
      else and_then (or_store_error (insert_unless (\<lambda>x y. operator_id x = operator_id y) r (operators a)))
        (\<lambda>rows. Inr (r, a\<lparr>operators := rows\<rparr>)))"

definition operator_session :: "ident \<Rightarrow> session_row \<Rightarrow> bool" where
  "operator_session i r = (case session_for r of ForOperator op _ \<Rightarrow> op = i | _ \<Rightarrow> False)"

definition session_standing :: "time \<Rightarrow> session_row \<Rightarrow> bool" where
  "session_standing at r \<longleftrightarrow> session_revoked r = None \<and> session_expires r > at"

definition list_operators :: "ident \<Rightarrow> time \<Rightarrow> accounts \<Rightarrow> (operator_row \<times> nat) list" where
  "list_operators org at a =
     map (\<lambda>r. (r, count_where (\<lambda>s. operator_session (operator_id r) s \<and> session_standing at s) (sessions a)))
       (sort_key (\<lambda>r. (operator_created r, operator_id r))
          (filter (\<lambda>r. operator_organiser r = org) (operators a)))"

definition same_code :: "code_row \<Rightarrow> code_row \<Rightarrow> bool" where
  "same_code x y \<longleftrightarrow> code_hash x = code_hash y"

definition new_code :: "env \<Rightarrow> string \<Rightarrow> ident \<Rightarrow> time \<Rightarrow> code_row" where
  "new_code E code account expires = \<lparr>code_hash = hashSecret E code, code_account = account,
     code_expires = expires, code_redeemed = None, code_voided = None\<rparr>"

definition issueEnrolmentCode ::
  "env \<Rightarrow> ident \<Rightarrow> ident \<Rightarrow> string \<Rightarrow> time \<Rightarrow> accounts \<Rightarrow> failure + issued \<times> accounts" where
  "issueEnrolmentCode E org i code at a =
     and_then (assertOperator a org i) (\<lambda>_.
     and_then (or_store_error (insert_unless same_code (new_code E code i (at + ENROLMENT_CODE_MS))
                 (operator_codes a)))
       (\<lambda>rows. Inr ((code, at + ENROLMENT_CODE_MS), a\<lparr>operator_codes := rows\<rparr>)))"

definition outstanding_code :: "ident \<Rightarrow> code_row \<Rightarrow> bool" where
  "outstanding_code i c \<longleftrightarrow> code_account c = i \<and> code_redeemed c = None \<and> code_voided c = None"

definition void_codes :: "ident \<Rightarrow> time \<Rightarrow> code_row list \<Rightarrow> code_row list" where
  "void_codes i at = update_where (outstanding_code i) (\<lambda>c. c\<lparr>code_voided := Some at\<rparr>)"

definition revoke_operator_sessions :: "ident \<Rightarrow> time \<Rightarrow> accounts \<Rightarrow> accounts" where
  "revoke_operator_sessions i at = revoke_session (\<lambda>r. operator_session i r \<and> session_expires r > at) at"

definition revokeSessions ::
  "ident \<Rightarrow> ident \<Rightarrow> time \<Rightarrow> accounts \<Rightarrow> failure + (nat \<times> nat) \<times> accounts" where
  "revokeSessions org i at a =
     and_then (assertOperator a org i) (\<lambda>_.
     Inr ((count_where (\<lambda>s. operator_session i s \<and> session_standing at s) (sessions a),
           count_where (outstanding_code i) (operator_codes a)),
          revoke_operator_sessions i at
            (a\<lparr>operator_codes := void_codes i at (operator_codes a)\<rparr>)))"

section \<open>Gates\<close>

record gate_input =
  gi_operator :: ident
  gi_event :: ident
  gi_gates :: "string list"
  gi_from :: time
  gi_until :: time

definition new_gate_grant :: "ident \<Rightarrow> gate_input \<Rightarrow> ident \<Rightarrow> time \<Rightarrow> gate_grant" where
  "new_gate_grant org inp i at = \<lparr>gate_grant_id = i, gate_operator = gi_operator inp,
     gate_organiser = org, gate_event = gi_event inp, gates = gi_gates inp,
     valid_from = gi_from inp, valid_until = gi_until inp, gate_created = at, gate_revoked = None\<rparr>"

definition grant_checks :: "gate_grant \<Rightarrow> bool" where
  "grant_checks g \<longleftrightarrow> 1 \<le> length (gates g) \<and> length (gates g) \<le> 100 \<and> valid_until g > valid_from g"

definition grant_gates ::
  "ledger \<Rightarrow> store \<Rightarrow> ident \<Rightarrow> gate_input \<Rightarrow> ident \<Rightarrow> time \<Rightarrow> accounts \<Rightarrow> failure + gate_grant \<times> accounts" where
  "grant_gates L s org inp i at a =
     and_then (assertOperator a org (gi_operator inp)) (\<lambda>_.
     and_then (ownedEvent L s org (gi_event inp)) (\<lambda>_.
     let g = new_gate_grant org inp i at in
     if \<not> grant_checks g then Inl StoreError
     else and_then (or_store_error (insert_unless (\<lambda>x y. gate_grant_id x = gate_grant_id y) g (operator_grants a)))
       (\<lambda>rows. Inr (g, a\<lparr>operator_grants := rows\<rparr>))))"

definition list_grants ::
  "ident \<Rightarrow> ident option \<Rightarrow> ident option \<Rightarrow> accounts \<Rightarrow> gate_grant list" where
  "list_grants org event op a = filter (\<lambda>g. gate_organiser g = org \<and>
     (event = None \<or> event = Some (gate_event g)) \<and> (op = None \<or> op = Some (gate_operator g)))
     (operator_grants a)"

definition grant_named :: "ident \<Rightarrow> ident \<Rightarrow> gate_grant \<Rightarrow> bool" where
  "grant_named i org g \<longleftrightarrow> gate_grant_id g = i \<and> gate_organiser g = org"

definition revoke_grant_row :: "time \<Rightarrow> gate_grant \<Rightarrow> gate_grant" where
  "revoke_grant_row at g = g\<lparr>gate_revoked := Some at\<rparr>"

definition revokeGrant ::
  "ident \<Rightarrow> ident \<Rightarrow> time \<Rightarrow> accounts \<Rightarrow> failure + gate_grant \<times> accounts" where
  "revokeGrant org i at a =
     (let P = (\<lambda>g. grant_named i org g \<and> gate_revoked g = None);
          a' = a\<lparr>operator_grants := update_where P (revoke_grant_row at) (operator_grants a)\<rparr> in
      case find (grant_named i org) (operator_grants a') of
        None \<Rightarrow> Inl unknownGrant | Some g \<Rightarrow> Inr (g, a'))"

text \<open>The acting operator: its identifier, its organiser's, and its session's.\<close>

record operator_principal =
  acting_operator :: ident
  acting_organiser :: ident
  acting_session :: ident

definition myGrants :: "operator_principal \<Rightarrow> time \<Rightarrow> accounts \<Rightarrow> gate_grant list" where
  "myGrants p at a = sort_key valid_from (filter (\<lambda>g. gate_operator g = acting_operator p \<and>
     gate_organiser g = acting_organiser p \<and> gate_revoked g = None \<and> valid_until g > at)
     (operator_grants a))"

definition gate_grants :: "operator_principal \<Rightarrow> ident \<Rightarrow> string \<Rightarrow> accounts \<Rightarrow> gate_grant list" where
  "gate_grants p event gate a = filter (\<lambda>g. gate_operator g = acting_operator p \<and>
     gate_organiser g = acting_organiser p \<and> gate_event g = event \<and> gate \<in> set (gates g))
     (operator_grants a)"

definition in_window :: "time \<Rightarrow> gate_grant \<Rightarrow> bool" where
  "in_window t g \<longleftrightarrow> valid_from g \<le> t \<and> t < valid_until g"

record authorisation =
  authorised_event :: ident
  authorised_gate :: string
  authorised_by :: ident
  authorised_until :: time
  checked_at :: time

definition check_gate ::
  "operator_principal \<Rightarrow> ident \<Rightarrow> string \<Rightarrow> time \<Rightarrow> accounts \<Rightarrow> failure + authorisation" where
  "check_gate p event gate t a =
     (let rows = gate_grants p event gate a;
          live = filter (\<lambda>g. gate_revoked g = None) rows in
      case sort_key (\<lambda>g. - valid_until g) (filter (in_window t) live) of
        g # _ \<Rightarrow> Inr \<lparr>authorised_event = event, authorised_gate = gate, authorised_by = gate_grant_id g,
                   authorised_until = valid_until g, checked_at = t\<rparr>
      | [] \<Rightarrow>
          if list_ex (\<lambda>g. gate_revoked g \<noteq> None \<and> in_window t g) rows then Inl (refusedCheck ''grant-revoked'')
          else if list_ex (\<lambda>g. valid_from g > t) live then Inl (refusedCheck ''before-window'')
          else if live \<noteq> [] then Inl (refusedCheck ''after-window'')
          else Inl (refusedCheck (if rows \<noteq> [] then ''grant-revoked'' else ''not-granted'')))"

section \<open>Admission reports\<close>

record report_input =
  ri_id :: ident
  ri_event :: ident
  ri_gate :: string
  ri_ticket :: ident
  ri_pass :: ident
  ri_holder :: "ident option"
  ri_verdict :: admission_verdict
  ri_presented :: time
  ri_clock :: time

definition error_code_shape :: "string \<Rightarrow> bool" where
  "error_code_shape c \<longleftrightarrow> take 4 c = ''ERR-'' \<and>
     (case drop 4 c of [] \<Rightarrow> False
      | x # rest \<Rightarrow> of_char x \<in> {65..(90::nat)} \<and>
          list_all (\<lambda>y. of_char y \<in> {65..(90::nat)} \<or> of_char y \<in> {97..(122::nat)}) rest)"

text \<open>The table's check constraints.\<close>

definition report_checks :: "report_row \<Rightarrow> bool" where
  "report_checks r \<longleftrightarrow> account_hex (report_event r) \<and> account_hex (report_ticket r) \<and>
     length (report_pass r) = 32 \<and> list_all is_hex (report_pass r) \<and>
     1 \<le> length (report_gate r) \<and> length (report_gate r) \<le> 100 \<and>
     (case report_holder r of None \<Rightarrow> True | Some h \<Rightarrow> account_hex h) \<and>
     (case report_verdict r of
        RefusedAtGate reason \<Rightarrow> 1 \<le> length reason \<and> length reason \<le> 64
      | Admitted (AdmissionSettled cur) \<Rightarrow> length cur \<le> 256
      | Admitted (AdmissionRejected c) \<Rightarrow> error_code_shape c
      | Admitted AdmissionFailed \<Rightarrow> True)"

definition new_report ::
  "operator_principal \<Rightarrow> request \<Rightarrow> report_input \<Rightarrow> time \<Rightarrow> nat \<Rightarrow> report_row" where
  "new_report p req inp at n = \<lparr>report_seq = n, report_id = ri_id inp, report_operator = acting_operator p,
     report_organiser = acting_organiser p, report_session = acting_session p,
     report_request = requestId req, report_event = ri_event inp, report_gate = ri_gate inp,
     report_ticket = ri_ticket inp, report_pass = ri_pass inp, report_holder = ri_holder inp,
     report_verdict = ri_verdict inp, presented_at = ri_presented inp, device_clock = ri_clock inp,
     received_at = at\<rparr>"

text \<open>\<open>ON CONFLICT DO NOTHING\<close>: the sequence advances although no row is inserted.\<close>

definition insert_report :: "report_row \<Rightarrow> accounts \<Rightarrow> accounts" where
  "insert_report r a = a\<lparr>report_count := Suc (report_count a),
     admission_reports := (if list_ex (\<lambda>x. report_id x = report_id r) (admission_reports a)
                           then admission_reports a else admission_reports a @ [r])\<rparr>"

definition covers :: "time \<Rightarrow> gate_grant \<Rightarrow> bool" where
  "covers presented g = (case gate_revoked g of None \<Rightarrow> True | Some t \<Rightarrow> presented < t)"

definition report_refusal ::
  "operator_principal \<Rightarrow> report_input \<Rightarrow> time option \<Rightarrow> accounts \<Rightarrow> failure option" where
  "report_refusal p inp sessionRevokedAt a =
     (if (case sessionRevokedAt of None \<Rightarrow> False | Some t \<Rightarrow> \<not> ri_presented inp < t)
      then Some (RefusedRequest UNAUTHORIZED None)
      else let rows = gate_grants p (ri_event inp) (ri_gate inp) a in
        if rows = [] then Some (RefusedRequest FORBIDDEN (Some ''not-granted''))
        else if \<not> list_ex (covers (ri_presented inp)) rows
        then Some (RefusedRequest FORBIDDEN (Some ''grant-revoked'')) else None)"

definition record_report ::
  "operator_principal \<Rightarrow> request \<Rightarrow> report_input \<Rightarrow> time option \<Rightarrow> time \<Rightarrow> accounts \<Rightarrow>
     (failure + report_row) \<times> accounts" where
  "record_report p req inp sessionRevokedAt at a =
     (case report_refusal p inp sessionRevokedAt a of Some e \<Rightarrow> (Inl e, a)
      | None \<Rightarrow>
          let r = new_report p req inp at (Suc (report_count a)) in
          if \<not> report_checks r then (Inl StoreError, a\<lparr>report_count := Suc (report_count a)\<rparr>)
          else let a' = insert_report r a in
            ((case find (\<lambda>x. report_id x = ri_id inp \<and> report_operator x = acting_operator p)
                     (admission_reports a') of
                None \<Rightarrow> Inl (RefusedRequest CONFLICT (Some ''report-exists''))
              | Some x \<Rightarrow> Inr x), a'))"

definition DEFAULT_REPORT_PAGE :: nat where "DEFAULT_REPORT_PAGE = 500"

record report_query =
  rq_event :: "ident option"
  rq_pass :: "ident option"

definition query_matches :: "report_query \<Rightarrow> report_row \<Rightarrow> bool" where
  "query_matches q r \<longleftrightarrow> (rq_event q = None \<or> rq_event q = Some (report_event r)) \<and>
     (rq_pass q = None \<or> rq_pass q = Some (report_pass r))"

text \<open>One page, and where to read from next.\<close>

definition list_reports ::
  "report_query \<Rightarrow> nat \<Rightarrow> nat \<Rightarrow> accounts \<Rightarrow> report_row list \<times> nat" where
  "list_reports q after limit a =
     (let page = take limit (sort_key report_seq
            (filter (\<lambda>r. report_seq r > after \<and> query_matches q r) (admission_reports a)))
      in (page, if page = [] then after else report_seq (last page)))"

end
