(* ===== verification/AdmissionFlags.thy ===== *)
theory AdmissionFlags
  imports DerivedQueries Operators
begin

text \<open>
  Matching admission reports with the derived copy (\<open>src/derived/admission-flags.ts\<close>): the
  reports of an event, page by page, and the flags of those the ledger refused, never
  recorded, or that came from a gate whose clock was out of tolerance.  The freshness is
  read first; each report's query then reads the copy as it is at that moment.
\<close>

section \<open>Limits and flags\<close>

definition GATE_CLOCK_TOLERANCE_MS :: time where "GATE_CLOCK_TOLERANCE_MS = 10000"

definition MAX_SAFE_TIME :: time where "MAX_SAFE_TIME = 9007199254740991"

record recording_limits =
  maxPassWindow :: time
  maxRecordingLag :: time

datatype flag_cause =
  SamePassAtTwoGates | TransferBeforeRecording | GateClockOutsideTolerance | NotRecorded | Unexplained

datatype report_outcome = OutcomeSettled | OutcomeRejected | OutcomeFailed | OutcomeRefusedAtGate

record related_report =
  rel_id :: ident
  rel_gate :: string
  rel_operator :: ident
  rel_outcome :: report_outcome
  rel_received :: time

record flag_transfer =
  ft_from :: ident
  ft_to :: ident
  ft_recorded :: time
  ft_sequence :: nat

record admission_flag =
  fl_report :: ident
  fl_gate :: string
  fl_operator :: ident
  fl_ticket :: ident
  fl_pass :: ident
  fl_refusal :: "code option"
  fl_cause :: flag_cause
  fl_presented :: time
  fl_clock :: time
  fl_received :: time
  fl_drift :: time
  fl_deadline :: "time option"
  fl_others :: "related_report list"
  fl_transfers :: "flag_transfer list"

definition outcomeOf :: "report_row \<Rightarrow> report_outcome" where
  "outcomeOf r = (case report_verdict r of
       RefusedAtGate _ \<Rightarrow> OutcomeRefusedAtGate
     | Admitted (AdmissionSettled _) \<Rightarrow> OutcomeSettled
     | Admitted (AdmissionRejected _) \<Rightarrow> OutcomeRejected
     | Admitted AdmissionFailed \<Rightarrow> OutcomeFailed)"

section \<open>The event's reports\<close>

text \<open>Every report of an event: pages until one is empty. \<open>None\<close> is a loop that does not end.\<close>

partial_function (option) reportsFrom ::
  "(nat \<Rightarrow> report_row list \<times> nat) \<Rightarrow> nat \<Rightarrow> report_row list \<Rightarrow> report_row list option" where
  "reportsFrom pages after found = (case pages after of (page, next') \<Rightarrow>
     if page = [] then Some found else reportsFrom pages next' (found @ page))"

definition reportsFor :: "ident \<Rightarrow> accounts \<Rightarrow> report_row list option" where
  "reportsFor event a = reportsFrom
     (\<lambda>after. list_reports \<lparr>rq_event = Some event, rq_pass = None\<rparr> after DEFAULT_REPORT_PAGE a) 0 []"

section \<open>Matching\<close>

definition refused_code :: "report_row \<Rightarrow> code option" where
  "refused_code r = (case report_verdict r of Admitted (AdmissionRejected code) \<Rightarrow> Some code | _ \<Rightarrow> None)"

definition clock_outside :: "report_row \<Rightarrow> bool" where
  "clock_outside r \<longleftrightarrow> \<bar>device_clock r - received_at r\<bar> > GATE_CLOCK_TOLERANCE_MS"

text \<open>
  A failed submission's deadline, once the ledger's clock as the copy has read it is past it
  and the copy's part read holds no record of the pass.
\<close>

definition recording_deadline ::
  "recording_limits \<Rightarrow> freshness \<Rightarrow> copy \<Rightarrow> report_row \<Rightarrow> time option" where
  "recording_deadline lim fr c r = (case report_verdict r of
       Admitted AdmissionFailed \<Rightarrow>
         (let recorded = (case fst (consumedPass c (report_ticket r) (report_pass r)) of
                None \<Rightarrow> False | Some x \<Rightarrow> pr_sequence x < fr_records fr);
              deadline = presented_at r + maxPassWindow lim + maxRecordingLag lim in
          case fr_last fr of None \<Rightarrow> None
          | Some t \<Rightarrow> if \<not> recorded \<and> t > deadline then Some deadline else None)
     | _ \<Rightarrow> None)"

definition explaining_transfers :: "freshness \<Rightarrow> copy \<Rightarrow> report_row \<Rightarrow> ident \<Rightarrow> flag_transfer list" where
  "explaining_transfers fr c r holder =
     map (\<lambda>x. \<lparr>ft_from = tr_from x, ft_to = tr_to x, ft_recorded = tr_recorded_at x, ft_sequence = tr_sequence x\<rparr>)
       (filter (\<lambda>x. tr_sequence x < fr_records fr \<and> tr_from x = holder)
         (fst (transfers_of c (report_ticket r) (presented_at r - GATE_CLOCK_TOLERANCE_MS) MAX_SAFE_TIME)))"

definition admitted_report :: "report_row \<Rightarrow> bool" where
  "admitted_report r \<longleftrightarrow> (case report_verdict r of Admitted _ \<Rightarrow> True | _ \<Rightarrow> False)"

definition flag_cause_of ::
  "freshness \<Rightarrow> copy \<Rightarrow> report_row list \<Rightarrow> time option \<Rightarrow> report_row \<Rightarrow> flag_cause \<times> flag_transfer list" where
  "flag_cause_of fr c others deadline r =
     (if deadline \<noteq> None then (NotRecorded, [])
      else (case refused_code r of
          None \<Rightarrow> (GateClockOutsideTolerance, [])
        | Some code \<Rightarrow>
            if code = ''ERR-PassReplayed'' \<and> list_ex admitted_report others then (SamePassAtTwoGates, [])
            else if code = ''ERR-InvalidPass'' \<and> report_holder r \<noteq> None then
              (let ts = explaining_transfers fr c r (the (report_holder r)) in
               (if ts \<noteq> [] then TransferBeforeRecording else Unexplained, ts))
            else if code = ''ERR-PassExpired'' \<and> clock_outside r then (GateClockOutsideTolerance, [])
            else (Unexplained, [])))"

definition related :: "report_row \<Rightarrow> related_report" where
  "related r = \<lparr>rel_id = report_id r, rel_gate = report_gate r, rel_operator = report_operator r,
     rel_outcome = outcomeOf r, rel_received = received_at r\<rparr>"

definition flag_of ::
  "recording_limits \<Rightarrow> freshness \<Rightarrow> copy \<Rightarrow> report_row list \<Rightarrow> report_row \<Rightarrow> admission_flag option" where
  "flag_of lim fr c own r =
     (let deadline = recording_deadline lim fr c r;
          others = filter (\<lambda>x. report_pass x = report_pass r \<and> report_seq x \<noteq> report_seq r) own;
          (cause, ts) = flag_cause_of fr c others deadline r in
      if refused_code r = None \<and> \<not> clock_outside r \<and> deadline = None then None
      else Some \<lparr>fl_report = report_id r, fl_gate = report_gate r, fl_operator = report_operator r,
        fl_ticket = report_ticket r, fl_pass = report_pass r, fl_refusal = refused_code r,
        fl_cause = cause, fl_presented = presented_at r, fl_clock = device_clock r,
        fl_received = received_at r, fl_drift = device_clock r - received_at r,
        fl_deadline = deadline, fl_others = map related others, fl_transfers = ts\<rparr>)"

text \<open>\<open>seen r\<close> is the copy as the query of the report \<open>r\<close> reads it.\<close>

definition matchAdmissionFlags ::
  "recording_limits \<Rightarrow> freshness \<Rightarrow> (report_row \<Rightarrow> copy) \<Rightarrow> accounts \<Rightarrow> ident \<Rightarrow> ident \<Rightarrow>
     admission_flag list option" where
  "matchAdmissionFlags lim fr seen a organiser event =
     map_option (\<lambda>reports. let own = filter (\<lambda>r. report_organiser r = organiser) reports in
        List.map_filter (\<lambda>r. flag_of lim fr (seen r) own r) own) (reportsFor event a)"

end
