(* ===== verification/Reads.thy ===== *)
theory Reads
  imports AdmissionFlags Catalogue Provider
begin

text \<open>
  The read services (\<open>src/derived/reads.ts\<close>): events, tickets and listings from the derived
  copy, joined with the public document their metadata locator names
  (\<open>packages/metadata-schema/src/locators.ts\<close>), the event's pass window and Kippu's own class.
  URL and JSON parsing and the metadata storage are parameters.
\<close>

section \<open>Locators\<close>

record url =
  u_protocol :: string
  u_origin :: string
  u_pathname :: string
  u_search :: string
  u_hash :: string

definition originOf :: "(string \<Rightarrow> url option) \<Rightarrow> string \<Rightarrow> string option" where
  "originOf parse s = (case parse s of None \<Rightarrow> None
     | Some u \<Rightarrow> if u_protocol u \<noteq> ''https:'' \<or> u_origin u \<noteq> s then None else Some (u_origin u))"

definition valid_identifier :: "string \<Rightarrow> string option" where
  "valid_identifier i = (if length i = 64 \<and> list_all is_hex i then Some i else None)"

text \<open>\<open>None\<close>: the \<open>TypeError\<close> of a malformed origin or identifier.\<close>

definition eventLocator :: "(string \<Rightarrow> url option) \<Rightarrow> ident \<Rightarrow> string \<Rightarrow> string option" where
  "eventLocator parse e origin = (case originOf parse origin of None \<Rightarrow> None
     | Some orig \<Rightarrow> map_option (\<lambda>i. orig @ ''/v0/events/'' @ i @ ''.json'') (valid_identifier e))"

definition classLocator :: "(string \<Rightarrow> url option) \<Rightarrow> ident \<Rightarrow> string \<Rightarrow> string option" where
  "classLocator parse k origin = (case originOf parse origin of None \<Rightarrow> None
     | Some orig \<Rightarrow> map_option (\<lambda>i. orig @ ''/v0/classes/'' @ i @ ''.json'') (valid_identifier k))"

section \<open>The surroundings of a read\<close>

text \<open>
  The public origin, URL and JSON parsing, the metadata storage (an object's text by key) and
  the recording limits, with the profile's default pass window.
\<close>

record reads_setting =
  rs_origin :: string
  rs_url :: "string \<Rightarrow> url option"
  rs_json :: "string \<Rightarrow> json option"
  rs_storage :: "string \<Rightarrow> string option"
  rs_limits :: recording_limits
  rs_default_window :: time

definition document :: "reads_setting \<Rightarrow> string option \<Rightarrow> (string \<times> json) list option" where
  "document R locator = (case locator of None \<Rightarrow> None
     | Some l \<Rightarrow> (case rs_url R l of None \<Rightarrow> None
       | Some u \<Rightarrow>
           if u_origin u \<noteq> rs_origin R \<or> u_search u \<noteq> [] \<or> u_hash u \<noteq> [] then None
           else (case rs_storage R (drop 1 (u_pathname u)) of None \<Rightarrow> None
             | Some body \<Rightarrow> (case rs_json R body of Some (JObj obj) \<Rightarrow> Some obj | _ \<Rightarrow> None))))"

definition pass_window_of :: "reads_setting \<Rightarrow> store \<Rightarrow> ident \<Rightarrow> time \<times> bool" where
  "pass_window_of R s e = (case find (\<lambda>r. win_event r = e) (pass_windows s) of
       None \<Rightarrow> (defaultPassWindow (rs_default_window R) (maxPassWindow (rs_limits R)), True)
     | Some r \<Rightarrow> (window_ms r, False))"

record event_view =
  ev_row :: copy_event
  ev_metadata :: "(string \<times> json) list option"
  ev_window :: "time \<times> bool"

definition eventView :: "reads_setting \<Rightarrow> store \<Rightarrow> copy_event \<Rightarrow> event_view" where
  "eventView R s x = \<lparr>ev_row = x, ev_metadata = document R (ce_locator x),
     ev_window = pass_window_of R s (ce_id x)\<rparr>"

definition kippuClass :: "store \<Rightarrow> copy_ticket \<Rightarrow> string option" where
  "kippuClass s t = map_option class_name
     (find (\<lambda>k. class_id k = ct_class t \<and> class_event k = ct_event t) (ticket_classes s))"

record ticket_view =
  tv_row :: copy_ticket
  tv_class :: "string option"
  tv_locator :: string
  tv_metadata :: "(string \<times> json) list option"

definition ticketView :: "reads_setting \<Rightarrow> store \<Rightarrow> copy_ticket \<Rightarrow> ticket_view option" where
  "ticketView R s t = (case classLocator (rs_url R) (ct_class t) (rs_origin R) of None \<Rightarrow> None
     | Some l \<Rightarrow> Some \<lparr>tv_row = t, tv_class = kippuClass s t, tv_locator = l,
         tv_metadata = document R (Some l)\<rparr>)"

section \<open>Page tokens\<close>

definition pageOf :: "position \<Rightarrow> string" where
  "pageOf p = decimal (fst p) @ ''.'' @ snd p"

definition is_digit :: "char \<Rightarrow> bool" where "is_digit c \<longleftrightarrow> c \<in> set ''0123456789''"

text \<open>\<open>0|[1-9][0-9]{0,15}\<close>\<close>

definition page_number :: "string \<Rightarrow> bool" where
  "page_number ds \<longleftrightarrow> ds = ''0'' \<or>
     (1 \<le> length ds \<and> length ds \<le> 16 \<and> list_all is_digit ds \<and> hd ds \<noteq> CHR ''0'')"

definition MAX_SAFE_SEQUENCE :: nat where "MAX_SAFE_SEQUENCE = 9007199254740991"

definition page_positionOf :: "string \<Rightarrow> position option" where
  "page_positionOf page =
     (let ds = takeWhile (\<lambda>c. c \<noteq> CHR ''.'') page; rest = dropWhile (\<lambda>c. c \<noteq> CHR ''.'') page in
      if page_number ds \<and> rest \<noteq> [] \<and> valid_identifier (tl rest) \<noteq> None \<and> undecimal ds \<le> MAX_SAFE_SEQUENCE
      then Some (undecimal ds, tl rest) else None)"

section \<open>Reads\<close>

definition read_event ::
  "reads_setting \<Rightarrow> store \<Rightarrow> copy \<Rightarrow> ident \<Rightarrow> event_view option \<times> freshness" where
  "read_event R s c e = (map_option (eventView R s) (fst (query_event c e)), snd (query_event c e))"

text \<open>A malformed page is refused; one row more than asked for tells whether a page follows.\<close>

definition eventsOnSalePage ::
  "nat \<Rightarrow> string option \<Rightarrow> store \<Rightarrow> copy \<Rightarrow> failure + (copy_event list \<times> string option \<times> freshness)" where
  "eventsOnSalePage limit page s c =
     (let serve = (\<lambda>after.
        let (rows, fr) = eventsOnSale (ticket_classes s) c (limit + 1) after;
            shown = take limit rows in
        Inr (map fst shown,
          if length rows > limit \<and> shown \<noteq> [] then Some (pageOf (snd (last shown))) else None, fr)) in
      case page of None \<Rightarrow> serve None
      | Some token \<Rightarrow> (case page_positionOf token of
          None \<Rightarrow> Inl (RefusedRequest BAD_REQUEST None) | Some p \<Rightarrow> serve (Some p)))"

definition read_on_sale ::
  "reads_setting \<Rightarrow> nat \<Rightarrow> string option \<Rightarrow> store \<Rightarrow> copy \<Rightarrow>
     failure + (event_view list \<times> string option \<times> freshness)" where
  "read_on_sale R limit page s c = and_then (eventsOnSalePage limit page s c)
     (\<lambda>(events, nxt, fr). Inr (map (eventView R s) events, nxt, fr))"

definition organiserEvents ::
  "reads_setting \<Rightarrow> store \<Rightarrow> copy \<Rightarrow> ident \<Rightarrow> event_view list \<times> freshness" where
  "organiserEvents R s c organiser = (case map_of (organiser_accounts s) organiser of
       None \<Rightarrow> ([], freshnessOf c)
     | Some account \<Rightarrow> (map (eventView R s) (fst (eventsOwnedBy c account)), snd (eventsOwnedBy c account)))"

definition admissionFlags ::
  "reads_setting \<Rightarrow> freshness \<Rightarrow> (report_row \<Rightarrow> copy) \<Rightarrow> accounts \<Rightarrow> ident \<Rightarrow> ident \<Rightarrow>
     (admission_flag list \<times> freshness) option" where
  "admissionFlags R fr seen a organiser event =
     map_option (\<lambda>flags. (flags, fr)) (matchAdmissionFlags (rs_limits R) fr seen a organiser event)"

record credential_view =
  cv_credential :: ident
  cv_registered :: "time option"
  cv_linked :: bool
  cv_sequence :: nat

text \<open>The credential the holder's own session was linked with, if the session is the account's.\<close>

definition linked_with :: "accounts \<Rightarrow> ident \<Rightarrow> ident \<Rightarrow> ident option" where
  "linked_with a account sid = (case find (\<lambda>x. session_id x = sid) (sessions a) of
       None \<Rightarrow> None
     | Some x \<Rightarrow> (case session_for x of
           ForHolder acc credential \<Rightarrow> if acc = account then Some credential else None
         | _ \<Rightarrow> None))"

definition holderCredentials ::
  "accounts \<Rightarrow> copy \<Rightarrow> ident \<Rightarrow> ident \<Rightarrow> credential_view list \<times> freshness" where
  "holderCredentials a c account sid =
     (map (\<lambda>(r, at). \<lparr>cv_credential = cr_credential r, cv_registered = at,
         cv_linked = (Some (cr_credential r) = linked_with a account sid), cv_sequence = cr_sequence r\<rparr>)
        (fst (credentials_of c account)), snd (credentials_of c account))"

text \<open>\<open>None\<close> where a ticket's class is no identifier: the read throws.\<close>

definition read_holdings ::
  "reads_setting \<Rightarrow> store \<Rightarrow> copy \<Rightarrow> ident \<Rightarrow> ((ticket_view \<times> event_view option) list \<times> freshness) option" where
  "read_holdings R s c account =
     (let rows = fst (holdings_of c account); views = map (ticketView R s) rows in
      if list_ex (\<lambda>v. v = None) views then None
      else Some (map2 (\<lambda>t v. (the v, map_option (eventView R s) (fst (query_event c (ct_event t))))) rows views,
        snd (holdings_of c account)))"

definition MAX_WAIT_MS :: time where "MAX_WAIT_MS = 10000"

definition read_waitFor ::
  "ident \<Rightarrow> time \<Rightarrow> bool \<Rightarrow> time \<Rightarrow> wait_check list \<Rightarrow> copy \<Rightarrow> wait_error + (bool option \<times> freshness)" where
  "read_waitFor cur timeout closed start checks c =
     and_then (waitFor cur (min timeout MAX_WAIT_MS) closed start checks) (\<lambda>r. Inr (r, freshnessOf c))"

end
