(* ===== verification/CopyFacts.thy ===== *)
theory CopyFacts
  imports DerivedReader
begin

text \<open>
  What the derived copy promises (\<open>DerivedCopy\<close>, \<open>DerivedReader\<close>).  The abstract view of the
  copy is a function of a list of log records (its replay); the lemmas show that a run of the
  reader, whatever its batches, failures and pulls, leaves the replay of a prefix of the log,
  that catching up ends with the replay of all of it, and that a replay says of every event
  and ticket what the log's history of it says.
\<close>

section \<open>The replay of a list of records\<close>

definition cursor_at :: "log_record list \<Rightarrow> nat \<Rightarrow> ident" where
  "cursor_at rs n = (if n = 0 then LOG_START else rec_cursor (rs ! (n - 1)))"

text \<open>A ledger that answers every event with the owner it has for ever.\<close>

definition owners_ledger :: "(ident \<Rightarrow> ident) \<Rightarrow> ledger" where
  "owners_ledger own = \<lparr>getEvent = (\<lambda>e. Inr \<lparr>owner = own e, ev_status = Active, maxCapacity = None,
     issued = 0, zones = []\<rparr>), getTicket = (\<lambda>_. Inl ''''), getCancellationHolder = (\<lambda>_. Inl ''''), inFlight = [], landedLate = []\<rparr>"

definition owned_by :: "(ident \<Rightarrow> ident) \<Rightarrow> ledger \<Rightarrow> bool" where
  "owned_by own L \<longleftrightarrow> (\<forall>e ev. getEvent L e = Inr ev \<longrightarrow> owner ev = own e)"

definition at_position :: "ident \<Rightarrow> nat \<Rightarrow> copy \<Rightarrow> copy" where
  "at_position cur n c = c\<lparr>cp_cursor := cur, cp_next := n\<rparr>"

definition replay ::
  "(ident \<Rightarrow> ident) \<Rightarrow> registration_reader \<Rightarrow> log_record list \<Rightarrow> copy_error + copy" where
  "replay own reg rs = and_then (apply_records (server_projections (owners_ledger own) reg) 0 rs empty_copy)
     (\<lambda>(c, sq). Inr (at_position (cursor_at rs (length rs)) sq c))"

lemma apply_records_append:
  "apply_records ps sq (rs @ ss) c =
     and_then (apply_records ps sq rs c) (\<lambda>(c', sq'). apply_records ps sq' ss c')"
  by (induction rs arbitrary: sq c) (simp_all add: and_then_def split: sum.split)

lemma apply_records_sequence:
  "apply_records ps sq rs c = Inr (c', sq') \<Longrightarrow> sq' = sq + length rs"
  by (induction rs arbitrary: sq c) (fastforce simp: and_then_Inr_iff)+

lemma server_record:
  "apply_record (server_projections L reg) sq r c =
     and_then (recordApplied sq r c) (ledgerFacts L reg sq r)"
  by (simp add: apply_record_def server_projections_def and_then_def split: sum.split)

section \<open>The ledger's answers\<close>

lemma ledgerFacts_owners:
  "owned_by own L \<Longrightarrow> ledgerFacts L reg sq r c = Inr c' \<Longrightarrow>
   ledgerFacts (owners_ledger own) reg sq r c = Inr c'"
  by (auto simp: ledgerFacts_def applyCommand_def applyCreateEvent_def owners_ledger_def
      owned_by_def split: ledger_entry.splits ledger_command.splits sum.splits)

lemma apply_records_owners:
  assumes "owned_by own L"
  shows "apply_records (server_projections L reg) sq rs c = Inr x \<Longrightarrow>
    apply_records (server_projections (owners_ledger own) reg) sq rs c = Inr x"
  using ledgerFacts_owners[OF assms]
  by (induction rs arbitrary: sq c) (auto simp: and_then_Inr_iff server_record)

section \<open>The position is not read\<close>

lemma at_position_tables [simp]:
  "cp_log (at_position cur n c) = cp_log c"
  "cp_events (at_position cur n c) = cp_events c"
  "cp_tickets (at_position cur n c) = cp_tickets c"
  "cp_attendance (at_position cur n c) = cp_attendance c"
  "cp_transfers (at_position cur n c) = cp_transfers c"
  "cp_passes (at_position cur n c) = cp_passes c"
  "cp_credentials (at_position cur n c) = cp_credentials c"
  "cp_cursor (at_position cur n c) = cur"
  "cp_next (at_position cur n c) = n"
  "at_position cur n (at_position cur' n' c) = at_position cur n c"
  by (simp_all add: at_position_def)

definition moved :: "ident \<Rightarrow> nat \<Rightarrow> copy_error + copy \<Rightarrow> copy_error + copy" where
  "moved cur n r = map_sum id (at_position cur n) r"

lemma moved_simps [simp]:
  "moved cur n (Inl e) = Inl e" "moved cur n (Inr c) = Inr (at_position cur n c)"
  by (simp_all add: moved_def)

lemma at_position_updates:
  "at_position cur n c\<lparr>cp_log := lg\<rparr> = at_position cur n (c\<lparr>cp_log := lg\<rparr>)"
  "at_position cur n c\<lparr>cp_events := es\<rparr> = at_position cur n (c\<lparr>cp_events := es\<rparr>)"
  "at_position cur n c\<lparr>cp_tickets := ts\<rparr> = at_position cur n (c\<lparr>cp_tickets := ts\<rparr>)"
  "at_position cur n c\<lparr>cp_attendance := as\<rparr> = at_position cur n (c\<lparr>cp_attendance := as\<rparr>)"
  "at_position cur n c\<lparr>cp_transfers := trs\<rparr> = at_position cur n (c\<lparr>cp_transfers := trs\<rparr>)"
  "at_position cur n c\<lparr>cp_passes := prs\<rparr> = at_position cur n (c\<lparr>cp_passes := prs\<rparr>)"
  "at_position cur n c\<lparr>cp_credentials := crs\<rparr> = at_position cur n (c\<lparr>cp_credentials := crs\<rparr>)"
  by (simp_all add: at_position_def)

lemma recordApplied_moved:
  "recordApplied sq r (at_position cur n c) = moved cur n (recordApplied sq r c)"
  by (auto simp: recordApplied_def at_position_updates)

lemma update_event_moved:
  "update_event e f (at_position cur n c) = moved cur n (update_event e f c)"
  by (simp add: update_event_def and_then_def at_position_updates split: sum.split)

lemma applyCommand_moved:
  "applyCommand L reg sq r cmd (at_position cur n c) = moved cur n (applyCommand L reg sq r cmd c)"
proof (cases cmd)
  case (CmdIssueTicket i)
  then show ?thesis
    by (simp add: applyCommand_def applyIssue_def and_then_def guard_def at_position_updates
        update_event_moved split: sum.split)
next
  case (CmdSetEventCapacity e k)
  then show ?thesis
    by (simp add: applyCommand_def and_then_def update_event_moved split: sum.split)
qed (simp_all add: applyCommand_def applyCreateEvent_def applyTransfer_def applyRestriction_def
    applyRegistration_def and_then_def guard_def at_position_updates update_event_moved
    split: sum.split option.split)

lemma ledgerFacts_moved:
  "ledgerFacts L reg sq r (at_position cur n c) = moved cur n (ledgerFacts L reg sq r c)"
  by (simp add: ledgerFacts_def applyCommand_moved applyAttendance_def and_then_def
      at_position_updates split: ledger_entry.split option.split sum.split)

lemma apply_records_moved:
  "apply_records (server_projections L reg) sq rs (at_position cur n c) =
     map_sum id (\<lambda>(c', sq'). (at_position cur n c', sq'))
       (apply_records (server_projections L reg) sq rs c)"
proof (induction rs arbitrary: sq c)
  case (Cons r rs)
  show ?case
    by (simp add: server_record recordApplied_moved ledgerFacts_moved Cons.IH and_then_def
        split: sum.split)
qed simp

section \<open>Runs of the reader\<close>

text \<open>
  A reader that follows the log answers, at every position, with a segment of the log from
  there on, or with an error.  An earlier state of a growing log follows the later one too.
\<close>

definition follows :: "log_record list \<Rightarrow> log_reader \<Rightarrow> bool" where
  "follows rs read \<longleftrightarrow> (\<forall>n batch page next'. n \<le> length rs \<longrightarrow>
     read (cursor_at rs n) batch = Inr (page, next') \<longrightarrow> (\<exists>k. page = take k (drop n rs)))"

lemma cursor_at_take: "n \<le> length rs \<Longrightarrow> cursor_at (take n rs) n = cursor_at rs n"
  by (simp add: cursor_at_def)

lemma replay_Inr_iff:
  "replay own reg rs = Inr c \<longleftrightarrow>
   (\<exists>c'. apply_records (server_projections (owners_ledger own) reg) 0 rs empty_copy = Inr (c', length rs) \<and>
      c = at_position (cursor_at rs (length rs)) (length rs) c')"
proof
  assume "replay own reg rs = Inr c"
  then obtain c' sq where
    a: "apply_records (server_projections (owners_ledger own) reg) 0 rs empty_copy = Inr (c', sq)"
    and c: "c = at_position (cursor_at rs (length rs)) sq c'"
    by (auto simp: replay_def and_then_Inr_iff)
  from apply_records_sequence[OF a] a c show "\<exists>c'. apply_records
      (server_projections (owners_ledger own) reg) 0 rs empty_copy = Inr (c', length rs) \<and>
      c = at_position (cursor_at rs (length rs)) (length rs) c'"
    by simp
qed (auto simp: replay_def)

lemma replay_Nil [simp]: "replay own reg [] = Inr empty_copy"
  by (simp add: replay_def at_position_def cursor_at_def empty_copy_def)

text \<open>Applying a page to the replay of a prefix is the replay of the longer prefix.\<close>

lemma replay_extend:
  assumes "replay own reg rs = Inr c"
    and "apply_records (server_projections (owners_ledger own) reg) (length rs) ss c = Inr (c', sq)"
  shows "replay own reg (rs @ ss) = Inr (at_position (cursor_at (rs @ ss) (length rs + length ss)) sq c')"
proof -
  let ?ps = "server_projections (owners_ledger own) reg"
  from assms(1) obtain c0 where c0: "apply_records ?ps 0 rs empty_copy = Inr (c0, length rs)"
    and c: "c = at_position (cursor_at rs (length rs)) (length rs) c0"
    by (auto simp: replay_Inr_iff)
  from assms(2) obtain c1 where c1: "apply_records ?ps (length rs) ss c0 = Inr (c1, sq)"
    and c': "c' = at_position (cursor_at rs (length rs)) (length rs) c1"
    by (auto simp: c apply_records_moved map_sum_def split: sum.splits)
  have "apply_records ?ps 0 (rs @ ss) empty_copy = Inr (c1, sq)"
    by (simp add: apply_records_append c0 c1)
  then show ?thesis by (simp add: replay_def c')
qed

lemma reader_step_replay:
  assumes f: "follows rs read" and o: "owned_by own L" and n: "n \<le> length rs"
    and c: "replay own reg (take n rs) = Inr c"
    and step: "reader_step (server_projections L reg) read batch c = Inr (c', records)"
  shows "n + length records \<le> length rs \<and> replay own reg (take (n + length records) rs) = Inr c'"
proof -
  have pos: "cp_cursor c = cursor_at rs n" "cp_next c = n"
    using c n by (auto simp: replay_Inr_iff cursor_at_take)
  from step obtain next' where read: "read (cursor_at rs n) batch = Inr (records, next')"
    and page: "page_ok batch (cursor_at rs n) records next'"
    by (auto simp: reader_step_def pos split: sum.splits prod.splits if_splits)
  from f n read obtain k where k: "records = take k (drop n rs)" unfolding follows_def by blast
  have len: "n + length records \<le> length rs" using n by (simp add: k)
  show ?thesis
  proof (cases "records = []")
    case True
    then have "c' = c" using step read page by (simp add: reader_step_def pos)
    with c True len show ?thesis by simp
  next
    case False
    from step read page False obtain c1 sq
      where app: "apply_records (server_projections L reg) n records c = Inr (c1, sq)"
        and c': "c' = at_position next' sq c1"
      by (auto simp: reader_step_def pos at_position_def split: sum.splits)
    have whole: "take (n + length records) rs = take n rs @ records"
      by (simp add: k take_add min_def)
    have next': "next' = cursor_at (take n rs @ records) (n + length records)"
      using page False n by (cases records rule: rev_cases)
        (simp_all add: page_ok_def cursor_at_def nth_append)
    have "apply_records (server_projections (owners_ledger own) reg) (length (take n rs)) records c =
      Inr (c1, sq)"
      using apply_records_owners[OF o app] n by simp
    from replay_extend[OF c this] n len show ?thesis by (simp add: whole c' next')
  qed
qed

lemma reader_run_replay:
  assumes "\<And>p. p \<in> set ps \<Longrightarrow> follows rs (pull_log p) \<and> owned_by own (pull_ledger p)"
    and "n \<le> length rs" "replay own reg (take n rs) = Inr c"
  shows "\<exists>m. n \<le> m \<and> m \<le> length rs \<and> replay own reg (take m rs) = Inr (reader_run reg ps c)"
  using assms
proof (induction ps arbitrary: n c)
  case (Cons p ps)
  have p: "follows rs (pull_log p)" "owned_by own (pull_ledger p)" using Cons.prems(1) by auto
  let ?step = "reader_step (server_projections (pull_ledger p) reg) (pull_log p) (pull_size p) c"
  show ?case
  proof (cases ?step)
    case (Inl e)
    then show ?thesis using Cons by (auto simp: committed_def)
  next
    case (Inr x)
    obtain c' records where x: "x = (c', records)" by (cases x)
    from reader_step_replay[OF p Cons.prems(2,3)] Inr
    have "n + length records \<le> length rs" "replay own reg (take (n + length records) rs) = Inr c'"
      by (auto simp: x)
    from Cons.IH[OF _ this] Cons.prems(1)
    obtain m where "n + length records \<le> m" "m \<le> length rs"
      "replay own reg (take m rs) = Inr (reader_run reg ps c')"
      by auto
    then show ?thesis using Inr by (auto simp: x committed_def intro!: exI[of _ m])
  qed
qed auto

section \<open>Catching up\<close>

text \<open>A log that is served: a page at every position, empty only at its end.\<close>

definition serves :: "log_record list \<Rightarrow> log_reader \<Rightarrow> nat \<Rightarrow> bool" where
  "serves rs read batch \<longleftrightarrow> (\<forall>n \<le> length rs. \<exists>k. read (cursor_at rs n) batch =
     Inr (take k (drop n rs), cursor_at rs (n + length (take k (drop n rs)))) \<and>
     length (take k (drop n rs)) \<le> batch \<and> (take k (drop n rs) = [] \<longrightarrow> n = length rs))"

definition answers :: "ledger \<Rightarrow> (ident \<Rightarrow> ident) \<Rightarrow> bool" where
  "answers L own \<longleftrightarrow> (\<forall>e. \<exists>ev. getEvent L e = Inr ev \<and> owner ev = own e)"

lemma ledgerFacts_answers:
  assumes "answers L own"
  shows "ledgerFacts L reg sq r c = ledgerFacts (owners_ledger own) reg sq r c"
proof -
  have "applyCreateEvent L sq e cap zs loc c = applyCreateEvent (owners_ledger own) sq e cap zs loc c"
    for e cap zs loc
  proof -
    from assms obtain ev where "getEvent L e = Inr ev" "owner ev = own e"
      unfolding answers_def by blast
    then show ?thesis by (simp add: applyCreateEvent_def owners_ledger_def)
  qed
  then show ?thesis
    by (simp add: ledgerFacts_def applyCommand_def split: ledger_entry.split ledger_command.split)
qed

lemma apply_records_answers:
  assumes "answers L own"
  shows "apply_records (server_projections L reg) sq rs c =
    apply_records (server_projections (owners_ledger own) reg) sq rs c"
  by (induction rs arbitrary: sq c)
    (simp_all add: server_record ledgerFacts_answers[OF assms] and_then_def split: sum.split)

lemma replay_prefix:
  assumes "replay own reg (rs @ ss) = Inr c"
  obtains c1 c2 where "replay own reg rs = Inr c1"
    "apply_records (server_projections (owners_ledger own) reg) (length rs) ss c1 = Inr (c2, length (rs @ ss))"
proof -
  let ?ps = "server_projections (owners_ledger own) reg"
  from assms obtain c' where "apply_records ?ps 0 (rs @ ss) empty_copy = Inr (c', length (rs @ ss))"
    by (auto simp: replay_Inr_iff)
  then obtain c0 n where c0: "apply_records ?ps 0 rs empty_copy = Inr (c0, n)"
    and c': "apply_records ?ps n ss c0 = Inr (c', length (rs @ ss))"
    by (auto simp: apply_records_append and_then_Inr_iff)
  have n: "n = length rs" using apply_records_sequence[OF c0] by simp
  show thesis
  proof (rule that)
    show "replay own reg rs = Inr (at_position (cursor_at rs (length rs)) (length rs) c0)"
      using c0 by (auto simp: replay_Inr_iff n)
    show "apply_records ?ps (length rs) ss (at_position (cursor_at rs (length rs)) (length rs) c0) =
      Inr (at_position (cursor_at rs (length rs)) (length rs) c', length (rs @ ss))"
      using c' by (simp add: apply_records_moved n)
  qed
qed

text \<open>A pull of a served log, where the whole log can be replayed, applies its page.\<close>

lemma served_step:
  assumes serves: "serves rs read batch" and answers: "answers L own"
    and final: "replay own reg rs = Inr final"
    and n: "n \<le> length rs" and c: "replay own reg (take n rs) = Inr c"
  obtains c' page where
    "reader_step (server_projections L reg) read batch c = Inr (c', page)"
    "n + length page \<le> length rs" "replay own reg (take (n + length page) rs) = Inr c'"
    "page = [] \<longrightarrow> n = length rs"
proof -
  let ?ps = "server_projections (owners_ledger own) reg"
  have pos: "cp_cursor c = cursor_at rs n" "cp_next c = n"
    using n c by (auto simp: replay_Inr_iff cursor_at_take)
  from serves n obtain k where
    read: "read (cursor_at rs n) batch =
      Inr (take k (drop n rs), cursor_at rs (n + length (take k (drop n rs))))"
    and small: "length (take k (drop n rs)) \<le> batch"
    and last: "take k (drop n rs) = [] \<longrightarrow> n = length rs"
    unfolding serves_def by blast
  define page where "page = take k (drop n rs)"
  have len: "n + length page \<le> length rs" using n by (simp add: page_def)
  have whole: "take (n + length page) rs = take n rs @ page"
    by (simp add: page_def take_add min_def)
  have "rec_cursor (List.last page) = cursor_at rs (n + length page)" if "page \<noteq> []"
  proof -
    have "page ! i = rs ! (n + i)" if "i < length page" for i
      using that n by (simp add: page_def)
    then have "List.last page = rs ! (n + (length page - 1))"
      using \<open>page \<noteq> []\<close> by (simp add: last_conv_nth)
    moreover have "n + (length page - 1) = n + length page - 1" using that by (cases page) simp_all
    ultimately show ?thesis using that by (simp add: cursor_at_def)
  qed
  then have ok: "page_ok batch (cursor_at rs n) page (cursor_at rs (n + length page))"
    using small by (auto simp: page_ok_def page_def)
  have "rs = (take n rs @ page) @ drop (n + length page) rs"
    using append_take_drop_id[of "n + length page" rs] whole by simp
  with final obtain c1 where "replay own reg (take n rs @ page) = Inr c1"
    by (metis replay_prefix)
  then obtain c2 where app: "apply_records ?ps (length (take n rs)) page c =
      Inr (c2, length (take n rs @ page))"
    using c by (auto elim!: replay_prefix)
  show thesis
  proof (rule that)
    let ?c' = "at_position (cursor_at rs (n + length page)) (n + length page) c2"
    have cur: "cursor_at (take n rs @ page) (n + length page) = cursor_at rs (n + length page)"
      using len by (simp add: cursor_at_take flip: whole)
    have ext: "replay own reg (take n rs @ page) = Inr ?c'"
      using replay_extend[OF c app] n len by (simp add: cur)
    show "replay own reg (take (n + length page) rs) = Inr ?c'" by (simp add: whole ext)
    show "reader_step (server_projections L reg) read batch c = Inr (?c', page)"
    proof (cases "page = []")
      case True
      then have "?c' = c" using ext c by simp
      with True read ok show ?thesis by (simp add: reader_step_def pos flip: page_def)
    next
      case False
      with read ok app n show ?thesis
        by (simp add: reader_step_def pos at_position_def apply_records_answers[OF answers]
            flip: page_def)
    qed
    show "n + length page \<le> length rs" by (rule len)
    show "page = [] \<longrightarrow> n = length rs" using last by (simp add: page_def)
  qed
qed

lemma catchUp_reaches:
  assumes serves: "serves rs read batch" and answers: "answers L own"
    and final: "replay own reg rs = Inr final"
    and n: "n \<le> length rs" and c: "replay own reg (take n rs) = Inr c"
  shows "catchUp (reader_step (server_projections L reg) read batch) c applied =
    Some (final, Inr (applied + (length rs - n)))"
  using n c
proof (induction "length rs - n" arbitrary: n c applied rule: less_induct)
  case less
  let ?step = "reader_step (server_projections L reg) read batch"
  obtain c' page where step: "?step c = Inr (c', page)"
    and len: "n + length page \<le> length rs" and c': "replay own reg (take (n + length page) rs) = Inr c'"
    and last: "page = [] \<longrightarrow> n = length rs"
    by (rule served_step[OF serves answers final less.prems])
  show ?case
  proof (cases "page = []")
    case True
    with last c' final have "c' = final" "n = length rs" by simp_all
    with True step show ?thesis by (subst catchUp.simps) simp
  next
    case False
    then have "length rs - (n + length page) < length rs - n" using len by (cases page) simp_all
    from less.hyps[OF this len c', of "applied + length page"] len step False
    show ?thesis by (subst catchUp.simps) simp
  qed
qed

end
