(* ===== verification/CopyHistory.thy ===== *)
theory CopyHistory
  imports CopyFacts
begin

text \<open>
  What a replayed copy says of an event and of a ticket, against the log's own history:
  the last status set, the last holder, how often it was issued for and how often it was
  admitted, and for every recorded transfer whom the ticket left.
\<close>

section \<open>The log's history\<close>

definition status_step :: "ident \<Rightarrow> log_record \<Rightarrow> event_status option \<Rightarrow> event_status option" where
  "status_step e r h = (case rec_entry r of
       CommandEntry (CmdCreateEvent e' _ _ _) _ \<Rightarrow> if e' = e then Some Active else h
     | CommandEntry (CmdSetEventStatus e' s) _ \<Rightarrow> if e' = e then Some s else h
     | _ \<Rightarrow> h)"

definition status_after :: "ident \<Rightarrow> log_record list \<Rightarrow> event_status option" where
  "status_after e rs = fold (status_step e) rs None"

definition holder_step :: "ident \<Rightarrow> log_record \<Rightarrow> ident option \<Rightarrow> ident option" where
  "holder_step t r h = (case rec_entry r of
       CommandEntry (CmdIssueTicket i) _ \<Rightarrow> if iss_ticket i = t then Some (iss_holder i) else h
     | CommandEntry (CmdTransferTicket t' _ receiver) _ \<Rightarrow> if t' = t then Some receiver else h
     | _ \<Rightarrow> h)"

definition holder_after :: "ident \<Rightarrow> log_record list \<Rightarrow> ident option" where
  "holder_after t rs = fold (holder_step t) rs None"

definition issues_for :: "ident \<Rightarrow> log_record \<Rightarrow> bool" where
  "issues_for e r \<longleftrightarrow> (case rec_entry r of
     CommandEntry (CmdIssueTicket i) _ \<Rightarrow> iss_event i = e | _ \<Rightarrow> False)"

definition admits :: "ident \<Rightarrow> log_record \<Rightarrow> bool" where
  "admits t r \<longleftrightarrow> (case rec_entry r of PassEntry p \<Rightarrow> pass_ticket p = t | _ \<Rightarrow> False)"

definition transfers_to :: "ident \<Rightarrow> ident \<Rightarrow> ident \<Rightarrow> log_record \<Rightarrow> bool" where
  "transfers_to t e receiver r \<longleftrightarrow> (case rec_entry r of
     CommandEntry (CmdTransferTicket t' e' receiver') _ \<Rightarrow> t' = t \<and> e' = e \<and> receiver' = receiver
   | _ \<Rightarrow> False)"

lemma history_snoc [simp]:
  "status_after e (rs @ [r]) = status_step e r (status_after e rs)"
  "holder_after t (rs @ [r]) = holder_step t r (holder_after t rs)"
  by (simp_all add: status_after_def holder_after_def)

section \<open>The copy's tables as maps\<close>

definition event_of :: "copy \<Rightarrow> ident \<Rightarrow> copy_event option" where
  "event_of c e = find (\<lambda>r. ce_id r = e) (cp_events c)"

definition ticket_of :: "copy \<Rightarrow> ident \<Rightarrow> copy_ticket option" where
  "ticket_of c t = find (\<lambda>r. ct_id r = t) (cp_tickets c)"

definition attended :: "copy \<Rightarrow> ident \<Rightarrow> nat" where
  "attended c t = (case find (\<lambda>r. at_ticket r = t) (cp_attendance c) of
     None \<Rightarrow> 0 | Some r \<Rightarrow> at_count r)"

lemma maps_of_updates [simp]:
  "event_of (c\<lparr>cp_tickets := ts\<rparr>) = event_of c" "event_of (c\<lparr>cp_log := lg\<rparr>) = event_of c"
  "event_of (c\<lparr>cp_attendance := as\<rparr>) = event_of c" "event_of (c\<lparr>cp_passes := ps\<rparr>) = event_of c"
  "event_of (c\<lparr>cp_transfers := trs\<rparr>) = event_of c" "event_of (c\<lparr>cp_credentials := cs\<rparr>) = event_of c"
  "ticket_of (c\<lparr>cp_events := es\<rparr>) = ticket_of c" "ticket_of (c\<lparr>cp_log := lg\<rparr>) = ticket_of c"
  "ticket_of (c\<lparr>cp_attendance := as\<rparr>) = ticket_of c" "ticket_of (c\<lparr>cp_passes := ps\<rparr>) = ticket_of c"
  "ticket_of (c\<lparr>cp_transfers := trs\<rparr>) = ticket_of c" "ticket_of (c\<lparr>cp_credentials := cs\<rparr>) = ticket_of c"
  "attended (c\<lparr>cp_events := es\<rparr>) = attended c" "attended (c\<lparr>cp_log := lg\<rparr>) = attended c"
  "attended (c\<lparr>cp_tickets := ts\<rparr>) = attended c" "attended (c\<lparr>cp_passes := ps\<rparr>) = attended c"
  "attended (c\<lparr>cp_transfers := trs\<rparr>) = attended c" "attended (c\<lparr>cp_credentials := cs\<rparr>) = attended c"
  by (simp_all add: event_of_def ticket_of_def attended_def fun_eq_iff)

lemma find_update_key:
  assumes "\<And>r. P r \<Longrightarrow> key r = k \<and> key (f r) = k"
    and "count_where P rows = 1" "distinct (map key rows)"
  shows "find (\<lambda>r. key r = x) (update_where P f rows) =
    (if x = k then map_option f (find (\<lambda>r. key r = k) rows) else find (\<lambda>r. key r = x) rows)"
  using assms(2,3)
proof (induction rows)
  case (Cons r rows)
  show ?case
  proof (cases "P r")
    case True
    then have "count_where P rows = 0" using Cons.prems(1) by (simp add: count_where_Cons)
    then have "update_where P f rows = rows"
      by (intro update_where_none) (simp add: count_where_0_iff)
    then show ?thesis using assms(1)[OF True] True by (auto simp: update_where_Cons)
  next
    case False
    then have c: "count_where P rows = 1" using Cons.prems(1) by (simp add: count_where_Cons)
    then have "\<exists>y\<in>set rows. P y" using count_where_pos_iff[of P rows] by simp
    then have "key r \<noteq> k" using Cons.prems(2) assms(1) by (auto simp: image_iff)
    then show ?thesis using Cons c False by (auto simp: update_where_Cons)
  qed
qed simp

section \<open>What the copy says\<close>

definition says :: "log_record list \<Rightarrow> copy \<Rightarrow> bool" where
  "says rs c \<longleftrightarrow>
     distinct (map ce_id (cp_events c)) \<and> distinct (map ct_id (cp_tickets c)) \<and>
     (\<forall>e. map_option ce_status (event_of c e) = status_after e rs) \<and>
     (\<forall>e. (case event_of c e of None \<Rightarrow> 0 | Some x \<Rightarrow> ce_issued x) = count_where (issues_for e) rs) \<and>
     (\<forall>e. count_where (\<lambda>x. ct_event x = e) (cp_tickets c) = count_where (issues_for e) rs) \<and>
     (\<forall>t. map_option ct_holder (ticket_of c t) = holder_after t rs) \<and>
     (\<forall>t. (case ticket_of c t of None \<Rightarrow> 0 | Some x \<Rightarrow> ct_attendances x) = count_where (admits t) rs) \<and>
     (\<forall>t. attended c t = count_where (admits t) rs) \<and>
     (\<forall>t. count_where (\<lambda>x. pr_ticket x = t) (cp_passes c) = count_where (admits t) rs)"

definition transfers_say :: "log_record list \<Rightarrow> copy \<Rightarrow> bool" where
  "transfers_say rs c \<longleftrightarrow> (\<forall>x\<in>set (cp_transfers c). tr_sequence x < length rs \<and>
     transfers_to (tr_ticket x) (tr_event x) (tr_to x) (rs ! tr_sequence x) \<and>
     tr_recorded_at x = rec_recorded_at (rs ! tr_sequence x) \<and>
     holder_after (tr_ticket x) (take (tr_sequence x) rs) = Some (tr_from x))"

lemma find_append:
  "find P (xs @ ys) = (case find P xs of None \<Rightarrow> find P ys | Some x \<Rightarrow> Some x)"
  by (induction xs) auto

lemma says_empty: "says [] empty_copy"
  by (simp add: says_def empty_copy_def event_of_def ticket_of_def attended_def status_after_def
      holder_after_def)

lemma update_one_Inr:
  "update_one P f rows = Inr rows' \<longleftrightarrow> count_where P rows = 1 \<and> rows' = update_where P f rows"
  by (auto simp: update_one_def)

lemma insert_one_Inr:
  "insert_one key r rows = Inr rows' \<longleftrightarrow> key r \<notin> key ` set rows \<and> rows' = rows @ [r]"
  by (auto simp: insert_one_def)

lemma find_fresh: "key k \<notin> key ` set rows \<Longrightarrow> find (\<lambda>r. key r = key k) rows = None"
  by (auto simp: find_None_iff image_iff)

text \<open>Updates of one event or one ticket, seen through the maps.\<close>

lemma update_event_maps:
  assumes "update_event e f c = Inr c'" "\<And>x. ce_id (f x) = ce_id x" "distinct (map ce_id (cp_events c))"
  obtains x where "event_of c e = Some x" "event_of c' = (event_of c)(e \<mapsto> f x)"
    "cp_tickets c' = cp_tickets c" "cp_attendance c' = cp_attendance c"
    "cp_passes c' = cp_passes c" "cp_transfers c' = cp_transfers c"
    "map ce_id (cp_events c') = map ce_id (cp_events c)"
proof -
  from assms(1) have one: "count_where (\<lambda>r. ce_id r = e) (cp_events c) = 1"
    and c': "c' = c\<lparr>cp_events := update_where (\<lambda>r. ce_id r = e) f (cp_events c)\<rparr>"
    by (auto simp: update_event_def and_then_Inr_iff update_one_Inr)
  from one have "\<exists>r\<in>set (cp_events c). ce_id r = e"
    using count_where_pos_iff[of "\<lambda>r. ce_id r = e" "cp_events c"] by simp
  then obtain x where x: "event_of c e = Some x"
    unfolding event_of_def using find_None_iff by (metis (mono_tags, lifting) not_None_eq)
  have "event_of c' = (event_of c)(e \<mapsto> f x)"
    using find_update_key[OF _ one assms(3)] assms(2) x
    by (simp add: fun_eq_iff event_of_def c')
  moreover have "map ce_id (cp_events c') = map ce_id (cp_events c)"
    by (simp add: c' map_update_where assms(2))
  ultimately show thesis using x by (intro that) (simp_all add: c')
qed

lemma update_ticket_maps:
  assumes "update_one (of_ticket t e) f (cp_tickets c) = Inr rows"
    "\<And>x. ct_id (f x) = ct_id x" "\<And>x. ct_event (f x) = ct_event x"
    "distinct (map ct_id (cp_tickets c))"
  obtains x where "ticket_of c t = Some x" "ct_event x = e"
    "(\<lambda>t'. find (\<lambda>r. ct_id r = t') rows) = (ticket_of c)(t \<mapsto> f x)"
    "map ct_id rows = map ct_id (cp_tickets c)" "map ct_event rows = map ct_event (cp_tickets c)"
proof -
  from assms(1) have one: "count_where (of_ticket t e) (cp_tickets c) = 1"
    and rows: "rows = update_where (of_ticket t e) f (cp_tickets c)"
    by (simp_all add: update_one_Inr)
  from one have "\<exists>r\<in>set (cp_tickets c). of_ticket t e r"
    using count_where_pos_iff[of "of_ticket t e" "cp_tickets c"] by simp
  then obtain x where x: "x \<in> set (cp_tickets c)" "ct_id x = t" "ct_event x = e"
    by (auto simp: of_ticket_def)
  have tx: "ticket_of c t = Some x"
    unfolding ticket_of_def using find_key[OF assms(4) x(1)] x(2) by simp
  have "\<And>r. of_ticket t e r \<Longrightarrow> ct_id r = t \<and> ct_id (f r) = t"
    by (simp add: of_ticket_def assms(2))
  from find_update_key[where key = ct_id, OF this one assms(4)]
  have "(\<lambda>t'. find (\<lambda>r. ct_id r = t') rows) = (ticket_of c)(t \<mapsto> f x)"
    using tx by (auto simp: rows ticket_of_def fun_eq_iff)
  then show thesis
    by (rule that[OF tx x(3)]) (simp_all add: rows map_update_where assms(2,3))
qed

lemma count_where_map_eq:
  "map g rows' = map g rows \<Longrightarrow> count_where (\<lambda>x. g x = e) rows' = count_where (\<lambda>x. g x = e) rows"
proof -
  have "count_where (\<lambda>x. g x = e) xs = count_where (\<lambda>y. y = e) (map g xs)" for xs
    by (induction xs) (simp_all add: count_where_Cons)
  then show "map g rows' = map g rows \<Longrightarrow> ?thesis" by simp
qed

lemma says_parts:
  assumes "says rs c"
  shows "distinct (map ce_id (cp_events c))" "distinct (map ct_id (cp_tickets c))"
    and "map_option ce_status (event_of c e) = status_after e rs"
    and "(case event_of c e of None \<Rightarrow> 0 | Some x \<Rightarrow> ce_issued x) = count_where (issues_for e) rs"
    and "count_where (\<lambda>x. ct_event x = e) (cp_tickets c) = count_where (issues_for e) rs"
    and "map_option ct_holder (ticket_of c t) = holder_after t rs"
    and "(case ticket_of c t of None \<Rightarrow> 0 | Some x \<Rightarrow> ct_attendances x) = count_where (admits t) rs"
    and "attended c t = count_where (admits t) rs"
    and "count_where (\<lambda>x. pr_ticket x = t) (cp_passes c) = count_where (admits t) rs"
  using assms by (simp_all add: says_def)

lemma saysI:
  assumes "distinct (map ce_id (cp_events c))" "distinct (map ct_id (cp_tickets c))"
    and "\<And>e. map_option ce_status (event_of c e) = status_after e rs"
    and "\<And>e. (case event_of c e of None \<Rightarrow> 0 | Some x \<Rightarrow> ce_issued x) = count_where (issues_for e) rs"
    and "\<And>e. count_where (\<lambda>x. ct_event x = e) (cp_tickets c) = count_where (issues_for e) rs"
    and "\<And>t. map_option ct_holder (ticket_of c t) = holder_after t rs"
    and "\<And>t. (case ticket_of c t of None \<Rightarrow> 0 | Some x \<Rightarrow> ct_attendances x) = count_where (admits t) rs"
    and "\<And>t. attended c t = count_where (admits t) rs"
    and "\<And>t. count_where (\<lambda>x. pr_ticket x = t) (cp_passes c) = count_where (admits t) rs"
  shows "says rs c"
  using assms by (simp add: says_def)

lemma says_status: "says rs c \<Longrightarrow> event_of c e = Some x \<Longrightarrow> status_after e rs = Some (ce_status x)"
  using says_parts(3)[of rs c e] by simp

text \<open>A record that issues and admits nothing and moves no ticket.\<close>

definition quiet :: "log_record \<Rightarrow> bool" where
  "quiet r \<longleftrightarrow> (\<forall>t h. holder_step t r h = h) \<and> (\<forall>e. \<not> issues_for e r) \<and> (\<forall>t. \<not> admits t r)"

lemma quiet_counts:
  "quiet r \<Longrightarrow> count_where (issues_for e) (rs @ [r]) = count_where (issues_for e) rs"
  "quiet r \<Longrightarrow> count_where (admits t) (rs @ [r]) = count_where (admits t) rs"
  "quiet r \<Longrightarrow> holder_step t r h = h"
  by (simp_all add: quiet_def count_where_append count_where_Cons)

text \<open>A step that only touches one event's row.\<close>

lemma says_event_step:
  assumes s: "says rs c" and u: "update_event e f c = Inr c'" and q: "quiet r"
    and f: "\<And>x. ce_id (f x) = ce_id x" "\<And>x. ce_issued (f x) = ce_issued x"
    and st: "\<And>x e'. event_of c e = Some x \<Longrightarrow> status_step e' r (status_after e' rs) =
      (if e' = e then Some (ce_status (f x)) else status_after e' rs)"
  shows "says (rs @ [r]) c'"
proof -
  obtain x where x: "event_of c e = Some x" "event_of c' = (event_of c)(e \<mapsto> f x)"
    "cp_tickets c' = cp_tickets c" "cp_attendance c' = cp_attendance c"
    "cp_passes c' = cp_passes c" "map ce_id (cp_events c') = map ce_id (cp_events c)"
    by (rule update_event_maps[OF u f(1) says_parts(1)[OF s]])
  have same: "ticket_of c' = ticket_of c" "attended c' = attended c"
    by (simp_all add: fun_eq_iff ticket_of_def attended_def x)
  show ?thesis
  proof (rule saysI)
    fix e'
    show "map_option ce_status (event_of c' e') = status_after e' (rs @ [r])"
      using says_parts(3)[OF s, of e'] st[OF x(1), of e'] by (simp add: x(2))
    show "(case event_of c' e' of None \<Rightarrow> 0 | Some x \<Rightarrow> ce_issued x) =
        count_where (issues_for e') (rs @ [r])"
      using says_parts(4)[OF s, of e'] x(1) by (auto simp: x(2) f(2) quiet_counts[OF q])
  qed (use says_parts[OF s] in \<open>simp_all add: x same quiet_counts[OF q]\<close>)
qed

text \<open>A quiet step that keeps every ticket's holder, event and attendances, and the rest.\<close>

lemma says_ticket_step:
  assumes s: "says rs c" and q: "quiet r" and st: "\<And>e h. status_step e r h = h"
    and u: "update_one (of_ticket t e) f (cp_tickets c) = Inr rows"
    and f: "\<And>x. ct_id (f x) = ct_id x" "\<And>x. ct_event (f x) = ct_event x"
      "\<And>x. ct_holder (f x) = ct_holder x" "\<And>x. ct_attendances (f x) = ct_attendances x"
  shows "says (rs @ [r]) (c\<lparr>cp_tickets := rows\<rparr>)"
proof -
  let ?c = "c\<lparr>cp_tickets := rows\<rparr>"
  obtain x where x: "ticket_of c t = Some x" "ct_event x = e"
    "(\<lambda>t'. find (\<lambda>r. ct_id r = t') rows) = (ticket_of c)(t \<mapsto> f x)"
    "map ct_id rows = map ct_id (cp_tickets c)" "map ct_event rows = map ct_event (cp_tickets c)"
    by (rule update_ticket_maps[OF u f(1,2) says_parts(2)[OF s]])
  have t: "ticket_of ?c = (ticket_of c)(t \<mapsto> f x)"
    using x(3) by (simp add: ticket_of_def[abs_def])
  have same: "event_of ?c = event_of c" "attended ?c = attended c"
    by (simp_all add: fun_eq_iff event_of_def attended_def)
  show ?thesis
  proof (rule saysI)
    fix t'
    show "map_option ct_holder (ticket_of ?c t') = holder_after t' (rs @ [r])"
      using says_parts(6)[OF s, of t'] x(1) by (auto simp: t f quiet_counts[OF q])
    show "(case ticket_of ?c t' of None \<Rightarrow> 0 | Some x \<Rightarrow> ct_attendances x) =
        count_where (admits t') (rs @ [r])"
      using says_parts(7)[OF s, of t'] x(1) by (auto simp: t f quiet_counts[OF q])
  qed (use says_parts[OF s] count_where_map_eq[OF x(5)] in
      \<open>simp_all add: x(4) same st quiet_counts[OF q]\<close>)
qed

lemma says_create_step:
  assumes s: "says rs c" and r: "rec_entry r = CommandEntry (CmdCreateEvent e cap zs loc) oid"
    and a: "applyCreateEvent L sq e cap zs loc c = Inr c'"
  shows "says (rs @ [r]) c'"
proof -
  from a obtain own where new: "e \<notin> ce_id ` set (cp_events c)"
    and c1: "c' = c\<lparr>cp_events := cp_events c @ [\<lparr>ce_id = e, ce_owner = own, ce_status = Active,
      ce_capacity = cap, ce_issued = 0, ce_zones = zs, ce_locator = loc, ce_sequence = sq\<rparr>]\<rparr>"
    by (auto simp: applyCreateEvent_def and_then_Inr_iff guard_Inr_iff insert_one_Inr split: sum.splits)
  then obtain row where row: "ce_id row = e" "ce_status row = Active" "ce_issued row = 0"
    and c': "c' = c\<lparr>cp_events := cp_events c @ [row]\<rparr>"
    by (metis copy_event.select_convs(1,3,5))
  have none: "event_of c e = None" using new by (auto simp: event_of_def find_None_iff image_iff)
  have ev: "event_of c' = (event_of c)(e \<mapsto> row)"
    using none by (auto simp: fun_eq_iff event_of_def c' row find_append split: option.split)
  have q: "quiet r" by (simp add: quiet_def r holder_step_def issues_for_def admits_def)
  have same: "ticket_of c' = ticket_of c" "attended c' = attended c"
    by (simp_all add: fun_eq_iff ticket_of_def attended_def c')
  show ?thesis
  proof (rule saysI)
    fix e'
    show "map_option ce_status (event_of c' e') = status_after e' (rs @ [r])"
      using says_parts(3)[OF s, of e'] by (simp add: ev row status_step_def r)
    show "(case event_of c' e' of None \<Rightarrow> 0 | Some x \<Rightarrow> ce_issued x) =
        count_where (issues_for e') (rs @ [r])"
      using says_parts(4)[OF s, of e'] none by (auto simp: ev row quiet_counts[OF q])
  qed (use says_parts[OF s] new in \<open>simp_all add: same row c' quiet_counts[OF q]\<close>)
qed

text \<open>Issuing: the ticket is new, and its event counts one more.\<close>

lemma says_issue_step:
  assumes s: "says rs c" and r: "rec_entry r = CommandEntry (CmdIssueTicket i) oid"
    and a: "applyIssue sq i c = Inr c'"
  shows "says (rs @ [r]) c'"
proof -
  define row where "row = ticket_row sq i"
  have row: "ct_id row = iss_ticket i" "ct_event row = iss_event i" "ct_holder row = iss_holder i"
    "ct_attendances row = 0"
    by (simp_all add: row_def ticket_row_def)
  define c1 where "c1 = c\<lparr>cp_tickets := cp_tickets c @ [row]\<rparr>"
  let ?f = "\<lambda>r. r\<lparr>ce_issued := ce_issued r + 1, ce_sequence := sq\<rparr>"
  from a have new: "iss_ticket i \<notin> ct_id ` set (cp_tickets c)"
    and u: "update_event (iss_event i) ?f c1 = Inr c'"
    by (auto simp: applyIssue_def and_then_Inr_iff insert_one_Inr c1_def row_def ticket_row_def)
  have "distinct (map ce_id (cp_events c1))" using says_parts(1)[OF s] by (simp add: c1_def)
  from update_event_maps[OF u _ this] obtain x where x: "event_of c1 (iss_event i) = Some x"
    "event_of c' = (event_of c1)(iss_event i \<mapsto> ?f x)"
    "cp_tickets c' = cp_tickets c1" "cp_attendance c' = cp_attendance c1"
    "cp_passes c' = cp_passes c1" "map ce_id (cp_events c') = map ce_id (cp_events c1)"
    by auto
  have c1: "event_of c1 = event_of c" by (simp add: fun_eq_iff event_of_def c1_def)
  have none: "ticket_of c (iss_ticket i) = None" using new by (auto simp: ticket_of_def find_None_iff image_iff)
  have t: "ticket_of c' = (ticket_of c)(iss_ticket i \<mapsto> row)"
    using none by (auto simp: fun_eq_iff ticket_of_def x(3) c1_def row find_append split: option.split)
  have rec: "status_step e' r h = h" "holder_step t' r k = (if t' = iss_ticket i then Some (iss_holder i) else k)"
    "issues_for e' r \<longleftrightarrow> e' = iss_event i" "\<not> admits t' r" for e' h t' k
    by (auto simp: r status_step_def holder_step_def issues_for_def admits_def)
  have same: "attended c' = attended c" by (simp add: fun_eq_iff attended_def x c1_def)
  show ?thesis
  proof (rule saysI)
    fix e'
    show "map_option ce_status (event_of c' e') = status_after e' (rs @ [r])"
      using says_parts(3)[OF s, of e'] x(1) by (auto simp: rec x(2) c1)
    show "(case event_of c' e' of None \<Rightarrow> 0 | Some x \<Rightarrow> ce_issued x) =
        count_where (issues_for e') (rs @ [r])"
      using says_parts(4)[OF s, of e'] x(1) by (auto simp: rec x(2) c1 count_where_append count_where_Cons)
    show "count_where (\<lambda>x. ct_event x = e') (cp_tickets c') = count_where (issues_for e') (rs @ [r])"
      using says_parts(5)[OF s, of e']
      by (auto simp: rec x(3) c1_def row count_where_append count_where_Cons)
    fix t'
    show "map_option ct_holder (ticket_of c' t') = holder_after t' (rs @ [r])"
      using says_parts(6)[OF s, of t'] by (simp add: t row rec)
    show "(case ticket_of c' t' of None \<Rightarrow> 0 | Some x \<Rightarrow> ct_attendances x) =
        count_where (admits t') (rs @ [r])"
      using says_parts(7)[OF s, of t'] none
      by (auto simp: t row rec count_where_append count_where_Cons)
  qed (use says_parts[OF s] new in
      \<open>simp_all add: x(3-6) c1_def same row rec count_where_append count_where_Cons\<close>)
qed

lemma says_transfer_step:
  assumes s: "says rs c" and r: "rec_entry r = CommandEntry (CmdTransferTicket t e receiver) oid"
    and a: "applyTransfer sq at t e receiver c = Inr c'"
  shows "says (rs @ [r]) c' \<and> (\<exists>x. holder_after t rs = Some (tr_from x) \<and> tr_sequence x = sq \<and>
    tr_ticket x = t \<and> tr_event x = e \<and> tr_to x = receiver \<and> tr_recorded_at x = at \<and> cp_transfers c' = cp_transfers c @ [x])"
proof -
  let ?f = "\<lambda>r. r\<lparr>ct_holder := receiver, ct_sequence := sq\<rparr>"
  from a obtain previous rows where p: "find (of_ticket t e) (cp_tickets c) = Some previous"
    and u: "update_one (of_ticket t e) ?f (cp_tickets c) = Inr rows"
    and c': "c' = c\<lparr>cp_tickets := rows, cp_transfers := cp_transfers c @ [\<lparr>tr_sequence = sq,
      tr_event = e, tr_ticket = t, tr_from = ct_holder previous, tr_to = receiver,
      tr_recorded_at = at\<rparr>]\<rparr>"
    by (auto simp: applyTransfer_def and_then_Inr_iff insert_one_Inr split: option.splits)
  from update_ticket_maps[OF u _ _ says_parts(2)[OF s]] obtain x where
    x: "ticket_of c t = Some x" "(\<lambda>t'. find (\<lambda>r. ct_id r = t') rows) = (ticket_of c)(t \<mapsto> ?f x)"
    "map ct_id rows = map ct_id (cp_tickets c)" "map ct_event rows = map ct_event (cp_tickets c)"
    by auto
  have "previous \<in> set (cp_tickets c)" "ct_id previous = t"
    using find_Some_in[OF p] by (auto simp: of_ticket_def)
  then have prev: "previous = x"
    using find_key[of ct_id "cp_tickets c" previous] says_parts(2)[OF s] x(1) by (simp add: ticket_of_def)
  have t: "ticket_of c' = (ticket_of c)(t \<mapsto> ?f x)"
    using x(2) by (simp add: ticket_of_def[abs_def] c')
  have same: "event_of c' = event_of c" "attended c' = attended c"
    by (simp_all add: fun_eq_iff event_of_def attended_def c')
  have rec: "status_step e' r h = h" "holder_step t' r k = (if t' = t then Some receiver else k)"
    "\<not> issues_for e' r" "\<not> admits t' r" for e' h t' k
    by (auto simp: r status_step_def holder_step_def issues_for_def admits_def)
  have "says (rs @ [r]) c'"
  proof (rule saysI)
    fix t'
    show "map_option ct_holder (ticket_of c' t') = holder_after t' (rs @ [r])"
      using says_parts(6)[OF s, of t'] by (simp add: t rec)
    show "(case ticket_of c' t' of None \<Rightarrow> 0 | Some x \<Rightarrow> ct_attendances x) =
        count_where (admits t') (rs @ [r])"
      using says_parts(7)[OF s, of t'] x(1)
      by (auto simp: t rec count_where_append count_where_Cons)
    fix e'
    show "count_where (\<lambda>x. ct_event x = e') (cp_tickets c') = count_where (issues_for e') (rs @ [r])"
      using says_parts(5)[OF s, of e'] count_where_map_eq[OF x(4), of e']
      by (simp add: c' rec count_where_append count_where_Cons)
  qed (use says_parts[OF s] in
      \<open>simp_all add: c' x(3) rec count_where_append count_where_Cons\<close>)
  moreover have "holder_after t rs = Some (ct_holder previous)"
    using says_parts(6)[OF s, of t] x(1) by (simp add: prev)
  ultimately show ?thesis by (auto simp: c')
qed

lemma attended_upsert:
  "attended (c\<lparr>cp_tickets := rows, cp_attendance := upsert_attendance sq at t e (cp_attendance c),
     cp_passes := ps\<rparr>) t' = (if t' = t then Suc (attended c t) else attended c t')"
proof (cases "exists_where (\<lambda>r. at_ticket r = t) (cp_attendance c)")
  case True
  let ?f = "\<lambda>r. r\<lparr>at_count := Suc (at_count r), at_last := at, at_sequence := sq\<rparr>"
  have f: "find (\<lambda>r. at_ticket r = t') (update_where (\<lambda>r. at_ticket r = t) ?f xs) =
      map_option (\<lambda>x. if at_ticket x = t then ?f x else x) (find (\<lambda>r. at_ticket r = t') xs)" for xs
    by (rule find_update_where) simp
  from True have "find (\<lambda>r. at_ticket r = t) (cp_attendance c) \<noteq> None"
    by (auto simp: exists_where_iff find_None_iff)
  then obtain y where y: "find (\<lambda>r. at_ticket r = t) (cp_attendance c) = Some y" by blast
  then have yt: "at_ticket y = t" by (auto dest: find_Some_in)
  show ?thesis
  proof (cases "t' = t")
    case t': True
    with True y yt show ?thesis using f[of "cp_attendance c"] by (simp add: attended_def upsert_attendance_def)
  next
    case t': False
    show ?thesis
    proof (cases "find (\<lambda>r. at_ticket r = t') (cp_attendance c)")
      case None
      with True t' show ?thesis by (simp add: attended_def upsert_attendance_def f)
    next
      case (Some z)
      then have "at_ticket z = t'" by (auto dest: find_Some_in)
      with Some True t' show ?thesis by (simp add: attended_def upsert_attendance_def f)
    qed
  qed
next
  case False
  then have "find (\<lambda>r. at_ticket r = t) (cp_attendance c) = None"
    by (auto simp: exists_where_iff find_None_iff)
  with False show ?thesis
    by (auto simp: attended_def upsert_attendance_def find_append split: option.split)
qed

lemma says_pass_step:
  assumes s: "says rs c" and r: "rec_entry r = PassEntry p"
    and a: "applyAttendance sq r p c = Inr c'"
  shows "says (rs @ [r]) c'"
proof -
  let ?f = "\<lambda>x. x\<lparr>ct_attendances := ct_attendances x + 1, ct_sequence := sq\<rparr>"
  let ?t = "pass_ticket p"
  from a obtain e presented rows where
    u: "update_one (of_ticket ?t e) ?f (cp_tickets c) = Inr rows"
    and c': "c' = c\<lparr>cp_tickets := rows,
      cp_attendance := upsert_attendance sq (rec_recorded_at r) ?t e (cp_attendance c),
      cp_passes := cp_passes c @ [consumed_row sq presented (rec_recorded_at r) e p]\<rparr>"
    by (auto simp: applyAttendance_def and_then_Inr_iff insert_one_Inr split: option.splits)
  from update_ticket_maps[OF u _ _ says_parts(2)[OF s]] obtain x where
    x: "ticket_of c ?t = Some x" "(\<lambda>t'. find (\<lambda>r. ct_id r = t') rows) = (ticket_of c)(?t \<mapsto> ?f x)"
    "map ct_id rows = map ct_id (cp_tickets c)" "map ct_event rows = map ct_event (cp_tickets c)"
    by auto
  have t: "ticket_of c' = (ticket_of c)(?t \<mapsto> ?f x)"
    using x(2) by (simp add: ticket_of_def[abs_def] c')
  have att: "attended c' t' = (if t' = ?t then Suc (attended c ?t) else attended c t')" for t'
    unfolding c' by (rule attended_upsert)
  have same: "event_of c' = event_of c" by (simp add: fun_eq_iff event_of_def c')
  have rec: "status_step e' r h = h" "holder_step t' r k = k" "\<not> issues_for e' r"
    "admits t' r \<longleftrightarrow> t' = ?t" for e' h t' k
    by (auto simp: r status_step_def holder_step_def issues_for_def admits_def)
  show ?thesis
  proof (rule saysI)
    fix t'
    show "map_option ct_holder (ticket_of c' t') = holder_after t' (rs @ [r])"
      using says_parts(6)[OF s, of t'] x(1) by (auto simp: t rec)
    show "(case ticket_of c' t' of None \<Rightarrow> 0 | Some x \<Rightarrow> ct_attendances x) =
        count_where (admits t') (rs @ [r])"
      using says_parts(7)[OF s, of t'] x(1)
      by (auto simp: t rec count_where_append count_where_Cons)
    show "attended c' t' = count_where (admits t') (rs @ [r])"
      using says_parts(8)[OF s, of t'] by (auto simp: att rec count_where_append count_where_Cons)
    show "count_where (\<lambda>x. pr_ticket x = t') (cp_passes c') = count_where (admits t') (rs @ [r])"
      using says_parts(9)[OF s, of t']
      by (auto simp: c' rec consumed_row_def count_where_append count_where_Cons)
    fix e'
    show "count_where (\<lambda>x. ct_event x = e') (cp_tickets c') = count_where (issues_for e') (rs @ [r])"
      using says_parts(5)[OF s, of e'] count_where_map_eq[OF x(4), of e']
      by (simp add: c' rec count_where_append count_where_Cons)
  qed (use says_parts[OF s] in
      \<open>simp_all add: c' x(3) rec count_where_append count_where_Cons\<close>)
qed

lemma says_log: "says rs (c\<lparr>cp_log := lg\<rparr>) \<longleftrightarrow> says rs c"
  by (simp add: says_def)

lemma says_command_step:
  assumes s: "says rs c" and r: "rec_entry r = CommandEntry cmd oid"
    and a: "applyCommand L reg sq r cmd c = Inr c'"
  shows "says (rs @ [r]) c'"
proof (cases cmd)
  case (CmdSetEventStatus e st)
  have "update_event e (\<lambda>x. x\<lparr>ce_status := st, ce_sequence := sq\<rparr>) c = Inr c'"
    using a by (simp add: applyCommand_def CmdSetEventStatus)
  from says_event_step[OF s this] show ?thesis
    by (simp add: r CmdSetEventStatus quiet_def status_step_def holder_step_def issues_for_def admits_def)
next
  case (CmdSetEventCapacity e n)
  have "update_event e (\<lambda>x. x\<lparr>ce_capacity := n, ce_sequence := sq\<rparr>) c = Inr c'"
    using a by (auto simp: applyCommand_def CmdSetEventCapacity and_then_Inr_iff split: if_splits)
  from says_event_step[OF s this] says_status[OF s] show ?thesis
    by (simp add: r CmdSetEventCapacity quiet_def status_step_def holder_step_def issues_for_def admits_def)
next
  case (CmdAddZone e z)
  have "update_event e (\<lambda>x. x\<lparr>ce_zones := ce_zones x @ [z], ce_sequence := sq\<rparr>) c = Inr c'"
    using a by (simp add: applyCommand_def CmdAddZone)
  from says_event_step[OF s this] says_status[OF s] show ?thesis
    by (simp add: r CmdAddZone quiet_def status_step_def holder_step_def issues_for_def admits_def)
next
  case (CmdRemoveZone e z)
  have "update_event e (\<lambda>x. x\<lparr>ce_zones := filter (\<lambda>y. zone_id y \<noteq> z) (ce_zones x),
      ce_sequence := sq\<rparr>) c = Inr c'"
    using a by (simp add: applyCommand_def CmdRemoveZone)
  from says_event_step[OF s this] says_status[OF s] show ?thesis
    by (simp add: r CmdRemoveZone quiet_def status_step_def holder_step_def issues_for_def admits_def)
next
  case (CmdCreateEvent e cap zs loc)
  with a r s show ?thesis by (auto simp: applyCommand_def intro: says_create_step)
next
  case (CmdIssueTicket i)
  with a r s show ?thesis by (auto simp: applyCommand_def intro: says_issue_step)
next
  case (CmdTransferTicket t e receiver)
  with a r s show ?thesis by (auto simp: applyCommand_def dest: says_transfer_step)
next
  case (CmdRemoveRestriction t e restriction)
  have q: "quiet r" "\<And>e h. status_step e r h = h"
    by (simp_all add: r CmdRemoveRestriction quiet_def status_step_def holder_step_def issues_for_def
        admits_def)
  from a obtain f rows where "update_one (of_ticket t e) f (cp_tickets c) = Inr rows"
    "c' = c\<lparr>cp_tickets := rows\<rparr>" "\<And>x. ct_id (f x) = ct_id x" "\<And>x. ct_event (f x) = ct_event x"
    "\<And>x. ct_holder (f x) = ct_holder x" "\<And>x. ct_attendances (f x) = ct_attendances x"
    by (auto simp: applyCommand_def applyRestriction_def CmdRemoveRestriction and_then_Inr_iff
        split: if_splits)
  with says_ticket_step[OF s q] show ?thesis by simp
next
  case (CmdRegisterCredential account registration)
  have q: "quiet r" "\<And>e h. status_step e r h = h"
    by (simp_all add: r CmdRegisterCredential quiet_def status_step_def holder_step_def issues_for_def
        admits_def)
  have "c' = c \<or> (\<exists>crs. c' = c\<lparr>cp_credentials := crs\<rparr>)"
    using a by (auto simp: applyCommand_def applyRegistration_def CmdRegisterCredential
        split: option.splits prod.splits if_splits)
  moreover have "says (rs @ [r]) c" using s by (simp add: says_def quiet_counts[OF q(1)] q(2))
  moreover have "says rs' (c\<lparr>cp_credentials := crs\<rparr>) \<longleftrightarrow> says rs' c" for rs' crs
    by (simp add: says_def)
  ultimately show ?thesis by auto
next
  case (CmdUnknown k)
  with a show ?thesis by (simp add: applyCommand_def)
qed

lemma says_record:
  assumes s: "says rs c" and a: "apply_record (server_projections L reg) sq r c = Inr c'"
  shows "says (rs @ [r]) c'"
proof -
  define c1 where "c1 = c\<lparr>cp_log := cp_log c @ [applied_of sq r]\<rparr>"
  have "says rs c1" using s by (simp add: c1_def says_log)
  moreover have "ledgerFacts L reg sq r c1 = Inr c'"
    using a by (auto simp: server_record and_then_Inr_iff recordApplied_def c1_def split: if_splits)
  ultimately show ?thesis
    using says_command_step says_pass_step
    by (auto simp: ledgerFacts_def split: ledger_entry.splits)
qed

lemma says_at_position: "says rs (at_position cur n c) \<longleftrightarrow> says rs c"
  by (simp add: says_def event_of_def ticket_of_def attended_def)

text \<open>
  Induction along a replay, for facts of the tables: they do not depend on the position.
\<close>

lemma replay_snoc:
  assumes "replay own reg (rs @ [r]) = Inr c"
  obtains c0 c1 where "replay own reg rs = Inr c0"
    "apply_record (server_projections (owners_ledger own) reg) (length rs) r c0 = Inr c1"
    "c = at_position (cursor_at (rs @ [r]) (Suc (length rs))) (Suc (length rs)) c1"
proof -
  from assms obtain c0 c1 where c0: "replay own reg rs = Inr c0"
    and app: "apply_records (server_projections (owners_ledger own) reg) (length rs) [r] c0 =
      Inr (c1, length (rs @ [r]))"
    by (rule replay_prefix)
  have "c = at_position (cursor_at (rs @ [r]) (Suc (length rs))) (Suc (length rs)) c1"
    using replay_extend[OF c0 app] assms by simp
  moreover have "apply_record (server_projections (owners_ledger own) reg) (length rs) r c0 = Inr c1"
    using app by (auto simp: and_then_Inr_iff)
  ultimately show thesis using c0 by (intro that)
qed

lemma replay_induct:
  assumes "replay own reg rs = Inr c" "P [] empty_copy"
    and "\<And>rs r c c'. P rs c \<Longrightarrow>
      apply_record (server_projections (owners_ledger own) reg) (length rs) r c = Inr c' \<Longrightarrow> P (rs @ [r]) c'"
    and "\<And>rs c cur n. P rs c \<Longrightarrow> P rs (at_position cur n c)"
  shows "P rs c"
  using assms(1)
proof (induction rs arbitrary: c rule: rev_induct)
  case (snoc r rs)
  from snoc.prems show ?case
    by (rule replay_snoc) (use snoc.IH assms(3,4) in auto)
qed (use assms(2) in simp)

lemma replay_says: "replay own reg rs = Inr c \<Longrightarrow> says rs c"
  by (rule replay_induct[where P = says, OF _ says_empty]) (auto simp: says_at_position intro: says_record)

section \<open>Recorded transfers\<close>

lemma transfers_say_snoc:
  assumes "transfers_say rs c"
    and "cp_transfers c' = cp_transfers c \<or> (\<exists>x. cp_transfers c' = cp_transfers c @ [x] \<and>
      tr_sequence x = length rs \<and> transfers_to (tr_ticket x) (tr_event x) (tr_to x) r \<and>
      tr_recorded_at x = rec_recorded_at r \<and>
      holder_after (tr_ticket x) rs = Some (tr_from x))"
  shows "transfers_say (rs @ [r]) c'"
proof -
  have "transfers_to (tr_ticket x) (tr_event x) (tr_to x) ((rs @ [r]) ! tr_sequence x) \<and>
      tr_recorded_at x = rec_recorded_at ((rs @ [r]) ! tr_sequence x) \<and>
      holder_after (tr_ticket x) (take (tr_sequence x) (rs @ [r])) = Some (tr_from x) \<and>
      tr_sequence x < length (rs @ [r])" if "x \<in> set (cp_transfers c)" for x
    using assms(1) that by (auto simp: transfers_say_def nth_append)
  with assms(2) show ?thesis unfolding transfers_say_def by auto
qed

lemma update_event_transfers: "update_event e f c = Inr c' \<Longrightarrow> cp_transfers c' = cp_transfers c"
  by (auto simp: update_event_def and_then_Inr_iff)

lemma applyCommand_transfers:
  assumes s: "says rs c" and r: "rec_entry r = CommandEntry cmd oid"
    and a: "applyCommand L reg (length rs) r cmd c = Inr c'"
  shows "cp_transfers c' = cp_transfers c \<or> (\<exists>x. cp_transfers c' = cp_transfers c @ [x] \<and>
      tr_sequence x = length rs \<and> transfers_to (tr_ticket x) (tr_event x) (tr_to x) r \<and>
      tr_recorded_at x = rec_recorded_at r \<and>
      holder_after (tr_ticket x) rs = Some (tr_from x))"
proof (cases cmd)
  case (CmdTransferTicket t e receiver)
  then have "applyTransfer (length rs) (rec_recorded_at r) t e receiver c = Inr c'"
    using a by (simp add: applyCommand_def)
  from says_transfer_step[OF s r[unfolded CmdTransferTicket] this]
  show ?thesis by (auto simp: transfers_to_def r CmdTransferTicket)
qed (use a in \<open>auto simp: applyCommand_def applyCreateEvent_def applyIssue_def applyRestriction_def
    applyRegistration_def and_then_Inr_iff split: sum.splits option.splits if_splits
    dest: update_event_transfers\<close>)

lemma transfers_say_record:
  assumes "says rs c" "transfers_say rs c"
    and "apply_record (server_projections L reg) (length rs) r c = Inr c'"
  shows "transfers_say (rs @ [r]) c'"
proof -
  define c1 where "c1 = c\<lparr>cp_log := cp_log c @ [applied_of (length rs) r]\<rparr>"
  have c1: "says rs c1" "cp_transfers c1 = cp_transfers c" using assms(1) by (simp_all add: c1_def says_log)
  have f: "ledgerFacts L reg (length rs) r c1 = Inr c'"
    using assms(3) by (auto simp: server_record and_then_Inr_iff recordApplied_def c1_def split: if_splits)
  show ?thesis
  proof (rule transfers_say_snoc[OF assms(2)], cases "rec_entry r")
    case (CommandEntry cmd oid)
    with f applyCommand_transfers[OF c1(1) CommandEntry]
    show "cp_transfers c' = cp_transfers c \<or> (\<exists>x. cp_transfers c' = cp_transfers c @ [x] \<and>
      tr_sequence x = length rs \<and> transfers_to (tr_ticket x) (tr_event x) (tr_to x) r \<and>
      tr_recorded_at x = rec_recorded_at r \<and>
      holder_after (tr_ticket x) rs = Some (tr_from x))"
      by (simp add: ledgerFacts_def c1(2))
  qed (use f c1(2) in \<open>auto simp: ledgerFacts_def applyAttendance_def and_then_Inr_iff
      split: option.splits\<close>)
qed

lemma replay_transfers: "replay own reg rs = Inr c \<Longrightarrow> transfers_say rs c"
proof -
  assume "replay own reg rs = Inr c"
  then have "says rs c \<and> transfers_say rs c"
  proof (rule replay_induct[where P = "\<lambda>rs c. says rs c \<and> transfers_say rs c"])
    show "says [] empty_copy \<and> transfers_say [] empty_copy"
      using says_empty by (simp add: transfers_say_def empty_copy_def)
  next
    fix rs c cur n
    assume "says rs c \<and> transfers_say rs c"
    then show "says rs (at_position cur n c) \<and> transfers_say rs (at_position cur n c)"
      by (simp add: says_at_position transfers_say_def)
  qed (auto intro: says_record transfers_say_record)
  then show ?thesis ..
qed

section \<open>Consumed passes and the log's rows\<close>

text \<open>The access passes of the log, each with its place in it.\<close>

definition pass_of :: "nat \<Rightarrow> log_record \<Rightarrow> (nat \<times> ident \<times> ident) list" where
  "pass_of k r = (case rec_entry r of PassEntry p \<Rightarrow> [(k, pass_ticket p, pass_id p)] | _ \<Rightarrow> [])"

definition pass_index :: "log_record list \<Rightarrow> (nat \<times> ident \<times> ident) list" where
  "pass_index rs = concat (map (\<lambda>k. pass_of k (rs ! k)) [0..<length rs])"

lemma map_nth_snoc:
  "map (\<lambda>k. f k ((rs @ [r]) ! k)) [0..<Suc (length rs)] = map (\<lambda>k. f k (rs ! k)) [0..<length rs] @ [f (length rs) r]"
  by (simp add: nth_append)

lemma pass_index_snoc: "pass_index (rs @ [r]) = pass_index rs @ pass_of (length rs) r"
  by (simp only: pass_index_def length_append_singleton map_nth_snoc concat_append) simp

lemma pass_index_iff:
  "(k, t, p) \<in> set (pass_index rs) \<longleftrightarrow> k < length rs \<and>
     (\<exists>x. rec_entry (rs ! k) = PassEntry x \<and> pass_ticket x = t \<and> pass_id x = p)"
proof -
  have "(k, t, p) \<in> set (pass_index rs) \<longleftrightarrow> (\<exists>i<length rs. (k, t, p) \<in> set (pass_of i (rs ! i)))"
    by (auto simp: pass_index_def)
  also have "\<dots> \<longleftrightarrow> k < length rs \<and> (k, t, p) \<in> set (pass_of k (rs ! k))"
    by (auto simp: pass_of_def split: ledger_entry.splits)
  finally show ?thesis by (cases "rec_entry (rs ! k)") (auto simp: pass_of_def)
qed

definition rows_say :: "log_record list \<Rightarrow> copy \<Rightarrow> bool" where
  "rows_say rs c \<longleftrightarrow>
     map (\<lambda>x. (pr_sequence x, pr_ticket x, pr_pass x)) (cp_passes c) = pass_index rs \<and>
     distinct (map (\<lambda>x. (pr_ticket x, pr_pass x)) (cp_passes c)) \<and>
     cp_log c = map (\<lambda>k. applied_of k (rs ! k)) [0..<length rs]"

lemma update_event_rows:
  "update_event e f c = Inr c' \<Longrightarrow> cp_passes c' = cp_passes c \<and> cp_log c' = cp_log c"
  by (auto simp: update_event_def and_then_Inr_iff)

lemma applyCommand_rows:
  "applyCommand L reg sq r cmd c = Inr c' \<Longrightarrow> cp_passes c' = cp_passes c \<and> cp_log c' = cp_log c"
  by (cases cmd)
    (auto simp: applyCommand_def applyCreateEvent_def applyIssue_def applyTransfer_def applyRestriction_def
      applyRegistration_def and_then_Inr_iff split: sum.splits option.splits if_splits
      dest!: update_event_rows)

lemma rows_say_record:
  assumes "rows_say rs c"
    and "apply_record (server_projections L reg) (length rs) r c = Inr c'"
  shows "rows_say (rs @ [r]) c'"
proof -
  define c1 where "c1 = c\<lparr>cp_log := cp_log c @ [applied_of (length rs) r]\<rparr>"
  have f: "ledgerFacts L reg (length rs) r c1 = Inr c'"
    using assms(2) by (auto simp: server_record and_then_Inr_iff recordApplied_def c1_def split: if_splits)
  have log: "cp_log c1 = map (\<lambda>k. applied_of k ((rs @ [r]) ! k)) [0..<length (rs @ [r])]"
    using assms(1) by (simp add: c1_def rows_say_def nth_append)
  show ?thesis
  proof (cases "rec_entry r")
    case (CommandEntry cmd oid)
    with f have "cp_passes c' = cp_passes c1 \<and> cp_log c' = cp_log c1"
      by (auto simp: ledgerFacts_def dest: applyCommand_rows)
    with log assms(1) show ?thesis
      by (simp add: rows_say_def c1_def pass_index_snoc pass_of_def CommandEntry)
  next
    case (PassEntry p)
    with f obtain e sq presented at where
      "(pass_ticket p, pass_id p) \<notin> (\<lambda>x. (pr_ticket x, pr_pass x)) ` set (cp_passes c1)"
      "cp_passes c' = cp_passes c1 @ [consumed_row (length rs) presented at e p]" "cp_log c' = cp_log c1"
      by (auto simp: ledgerFacts_def applyAttendance_def and_then_Inr_iff insert_one_Inr consumed_row_def
          split: option.splits)
    with log assms(1) show ?thesis
      by (simp add: rows_say_def c1_def pass_index_snoc pass_of_def PassEntry consumed_row_def)
  next
    case NeitherEntry
    with f show ?thesis by (simp add: ledgerFacts_def)
  qed
qed

lemma replay_rows: "replay own reg rs = Inr c \<Longrightarrow> rows_say rs c"
proof (erule replay_induct[where P = rows_say])
  fix rs c cur n
  assume "rows_say rs c"
  then show "rows_say rs (at_position cur n c)" by (simp add: rows_say_def)
next
  show "rows_say [] empty_copy" by (simp add: rows_say_def empty_copy_def pass_index_def)
qed (rule rows_say_record)

end
