(* ===== verification/ReadFacts.thy ===== *)
theory ReadFacts
  imports Reads Numerals CopyHistory
begin

text \<open>
  What the index of events on sale promises: a page token reads back, and a page is a segment
  of one listing, newest first, that its next page goes on with.
\<close>

section \<open>Page tokens\<close>

lemma of_digit: "c \<in> set ''0123456789'' \<Longrightarrow> is_digit c \<and> c \<noteq> CHR ''.''"
  by (auto simp: is_digit_def)

lemma decimal_all_digits: "list_all is_digit (decimal n)" "CHR ''.'' \<notin> set (decimal n)"
  using decimal_digits[of n] of_digit by (auto simp: list_all_iff)

lemma page_positionOf_pageOf:
  assumes "n \<le> MAX_SAFE_SEQUENCE" "valid_identifier i \<noteq> None"
  shows "page_positionOf (pageOf (n, i)) = Some (n, i)"
proof -
  have dot: "\<forall>c\<in>set (decimal n). c \<noteq> CHR ''.''" using decimal_all_digits(2) by auto
  then have "takeWhile (\<lambda>c. c \<noteq> CHR ''.'') (pageOf (n, i)) = decimal n"
    "dropWhile (\<lambda>c. c \<noteq> CHR ''.'') (pageOf (n, i)) = CHR ''.'' # i"
    by (simp_all add: pageOf_def takeWhile_append dropWhile_append)
  moreover have "page_number (decimal n)"
  proof (cases "n = 0")
    case False
    have "n < 10 ^ Suc 15" using assms(1) by (simp add: MAX_SAFE_SEQUENCE_def)
    from decimal_length[OF this] decimal_no_zero[of n] decimal_nonempty[of n] decimal_all_digits(1)[of n] False
    show ?thesis by (simp add: page_number_def Suc_le_eq)
  qed (simp add: page_number_def decimal_0)
  ultimately show ?thesis using assms by (simp add: page_positionOf_def undecimal_decimal)
qed

section \<open>The listing\<close>

definition on_sale_after :: "store \<Rightarrow> copy \<Rightarrow> position option \<Rightarrow> (copy_event \<times> position) list" where
  "on_sale_after s c after = rev (sort_key snd
     (filter (\<lambda>(x, p). before_position after p) (on_sale_positions (ticket_classes s) c)))"

lemma distinct_positions:
  assumes "distinct (map ce_id (cp_events c))" "distinct (map app_sequence (cp_log c))"
  shows "distinct (map snd (on_sale_positions classes c))"
proof -
  let ?rows = "\<lambda>x. map (\<lambda>l. (x, (app_sequence l, ce_id x))) (filter (\<lambda>l. app_event l = Some (ce_id x, 0)) (cp_log c))"
  have "distinct (map snd (concat (map ?rows xs)))" if "distinct (map ce_id xs)" for xs
    using that
  proof (induction xs)
    case (Cons x xs)
    have "distinct (map snd (?rows x))"
      using distinct_map_filter[OF assms(2)] by (auto simp: distinct_map inj_on_def)
    moreover have "set (map snd (?rows x)) \<inter> set (map snd (concat (map ?rows xs))) = {}"
      using Cons.prems by auto
    ultimately show ?case using Cons by (simp only: map_append concat.simps list.map distinct_append) simp
  qed simp
  from this[OF distinct_map_filter[OF assms(1)]] show ?thesis unfolding on_sale_positions_def .
qed

lemma on_sale_descending:
  assumes "distinct (map snd (on_sale_positions (ticket_classes s) c))"
  shows "sorted_wrt (\<lambda>a b. snd b < snd a) (on_sale_after s c after)"
proof -
  let ?xs = "filter (\<lambda>(x, p). before_position after p) (on_sale_positions (ticket_classes s) c)"
  have "distinct (map snd (sort_key snd ?xs))"
    using distinct_map_filter[OF assms] by (simp add: distinct_map)
  moreover have "sorted (map snd (sort_key snd ?xs))" by simp
  ultimately have "sorted_wrt (<) (map snd (sort_key snd ?xs))"
    by (simp add: strict_sorted_iff)
  then show ?thesis by (simp add: on_sale_after_def sorted_wrt_rev sorted_wrt_map)
qed

text \<open>What goes on after the last of a descending list's first rows.\<close>

lemma descending_rest:
  fixes key :: "'r \<Rightarrow> 'k::linorder"
  assumes "sorted_wrt (\<lambda>a b. key b < key a) rows" "page = take n rows" "page \<noteq> []"
  shows "rows = page @ filter (\<lambda>r. key r < key (last page)) rows"
proof -
  have rows: "rows = page @ drop n rows" using assms(2) append_take_drop_id[of n rows] by simp
  then have order: "\<forall>x\<in>set page. \<forall>y\<in>set (drop n rows). key y < key x"
      "sorted_wrt (\<lambda>a b. key b < key a) page"
    using assms(1) by (metis sorted_wrt_append)+
  obtain ys y where y: "page = ys @ [y]" using assms(3) by (metis append_butlast_last_id)
  have "filter (\<lambda>r. key r < key (last page)) page = []"
    using order(2) by (auto simp: y sorted_wrt_append filter_empty_conv)
  moreover have "filter (\<lambda>r. key r < key (last page)) (drop n rows) = drop n rows"
    using order(1) by (auto simp: y filter_id_conv)
  ultimately have "filter (\<lambda>r. key r < key (last page)) (page @ drop n rows) = drop n rows" by simp
  then show ?thesis using rows by metis
qed

lemma before_last:
  assumes "before_position after p"
  shows "filter (\<lambda>a. snd a < p) (filter (\<lambda>(x, q). before_position after q) xs) =
    filter (\<lambda>(x, q). before_position (Some p) q) xs"
proof -
  have "before_position after q \<and> q < p \<longleftrightarrow> before_position (Some p) q" for q
    using assms by (cases after) (auto simp: before_position_def intro: less_trans)
  then show ?thesis unfolding filter_filter case_prod_beta by (intro filter_cong refl) blast
qed

lemma on_sale_rest:
  assumes d: "distinct (map snd (on_sale_positions (ticket_classes s) c))"
    and page: "page = take n (on_sale_after s c after)" "page \<noteq> []"
  shows "on_sale_after s c after = page @ on_sale_after s c (Some (snd (last page)))"
proof -
  have "last page \<in> set (on_sale_after s c after)" using page by (metis in_set_takeD last_in_set)
  then have "before_position after (snd (last page))" by (auto simp: on_sale_after_def)
  note before_last[OF this, of "on_sale_positions (ticket_classes s) c"]
  then have "filter (\<lambda>r. snd r < snd (last page)) (on_sale_after s c after) =
      on_sale_after s c (Some (snd (last page)))"
    by (simp add: on_sale_after_def filter_sort flip: rev_filter)
  with descending_rest[OF on_sale_descending[OF d] page] show ?thesis by simp
qed

lemma eventsOnSale_eq:
  "eventsOnSale (ticket_classes s) c n after = (take n (on_sale_after s c after), freshnessOf c)"
  by (simp add: eventsOnSale_def on_sale_after_def)

lemma replay_positions:
  assumes "replay own reg rs = Inr c"
  shows "distinct (map snd (on_sale_positions classes c))"
    and "x \<in> set (on_sale_positions classes c) \<Longrightarrow> fst (snd x) < length rs"
    and "x \<in> set (on_sale_positions classes c) \<Longrightarrow> snd (snd x) \<in> ce_id ` set (cp_events c)"
proof -
  have log: "cp_log c = map (\<lambda>k. applied_of k (rs ! k)) [0..<length rs]"
    using replay_rows[OF assms] by (simp add: rows_say_def)
  then have "map app_sequence (cp_log c) = [0..<length rs]"
    by (simp add: comp_def applied_of_def)
  then show "distinct (map snd (on_sale_positions classes c))"
    using distinct_positions says_parts(1)[OF replay_says[OF assms]] by simp
  show "x \<in> set (on_sale_positions classes c) \<Longrightarrow> fst (snd x) < length rs"
    by (auto simp: on_sale_positions_def log applied_of_def)
  show "x \<in> set (on_sale_positions classes c) \<Longrightarrow> snd (snd x) \<in> ce_id ` set (cp_events c)"
    by (auto simp: on_sale_positions_def)
qed

end
