(* ===== verification/Reviewers.thy ===== *)
theory Reviewers
  imports Operators
begin

text \<open>
  \<open>src/reviewers/service.ts\<close>: reviewer accounts, created, re-issued and disabled from the
  command line, and the enrolment and sign-in of a reviewer with a one-time code and a
  passkey.
\<close>

section \<open>Failures and lifetimes\<close>

datatype reviewer_failure =
    CodeRejected | UnknownReviewer | ReviewerCeremonyExpired | ReviewerCredentialRejected
  | ReviewerInvalidInput

datatype reviewer_error = ReviewerAuthError reviewer_failure | ReviewerThrown

definition REVIEWER_SESSION_MS :: time where "REVIEWER_SESSION_MS = 12 * HOUR_MS"
definition REVIEWER_ENROLMENT_CODE_MS :: time where "REVIEWER_ENROLMENT_CODE_MS = 72 * HOUR_MS"

section \<open>Codes, sessions, ceremonies\<close>

definition issueCode :: "env \<Rightarrow> ident \<Rightarrow> string \<Rightarrow> time \<Rightarrow> accounts \<Rightarrow> accounts option" where
  "issueCode E i code at a =
     map_option (\<lambda>rows. a\<lparr>reviewer_codes := rows\<rparr>)
       (insert_unless same_code (new_code E code i (at + REVIEWER_ENROLMENT_CODE_MS))
          (void_codes i at (reviewer_codes a)))"

definition reviewer_ceremony_ends ::
  "ceremony_kind \<Rightarrow> ident \<Rightarrow> accounts \<Rightarrow> ceremony_row \<Rightarrow> bool" where
  "reviewer_ceremony_ends kind i a c \<longleftrightarrow> ceremony_named kind i c \<and>
     list_ex (\<lambda>r. reviewer_id r = ceremony_account c) (reviewers a)"

definition reviewer_by_id :: "accounts \<Rightarrow> ident \<Rightarrow> reviewer_row option" where
  "reviewer_by_id a i = find (\<lambda>r. reviewer_id r = i) (reviewers a)"

text \<open>The ceremony, joined with its reviewer; live while in time and the reviewer enabled.\<close>

definition ceremony_answer ::
  "time \<Rightarrow> accounts \<Rightarrow> ceremony_row \<Rightarrow> reviewer_error + ceremony_row \<times> string" where
  "ceremony_answer at a c = (case reviewer_by_id a (ceremony_account c) of
       None \<Rightarrow> Inl (ReviewerAuthError ReviewerCeremonyExpired)
     | Some r \<Rightarrow> if ceremony_expires c > at \<and> disabled_at r = None then Inr (c, reviewer_email r)
                else Inl (ReviewerAuthError ReviewerCeremonyExpired))"

definition consumeReviewerCeremony ::
  "ceremony_kind \<Rightarrow> ident \<Rightarrow> time \<Rightarrow> accounts \<Rightarrow>
     (reviewer_error + ceremony_row \<times> string) \<times> accounts" where
  "consumeReviewerCeremony kind i at a =
     ((case find (reviewer_ceremony_ends kind i a) (reviewer_ceremonies a) of
         None \<Rightarrow> Inl (ReviewerAuthError ReviewerCeremonyExpired)
       | Some c \<Rightarrow> ceremony_answer at a c),
      a\<lparr>reviewer_ceremonies := filter (\<lambda>c. \<not> reviewer_ceremony_ends kind i a c) (reviewer_ceremonies a)\<rparr>)"

definition reviewerByEmail :: "accounts \<Rightarrow> string \<Rightarrow> auth_error + reviewer_row option" where
  "reviewerByEmail a email = (case normaliseEmail email of Inl e \<Rightarrow> Inl e
     | Inr n \<Rightarrow> Inr (find (\<lambda>r. reviewer_email r = n) (reviewers a)))"

section \<open>Administration\<close>

text \<open>The command line's errors are plain: \<open>None\<close> is any of them, and changes nothing.\<close>

type_synonym created = "ident \<times> string \<times> time"

definition create_reviewer ::
  "env \<Rightarrow> string \<Rightarrow> ident \<Rightarrow> string \<Rightarrow> time \<Rightarrow> accounts \<Rightarrow> (created \<times> accounts) option" where
  "create_reviewer E email i code at a =
     (case normaliseEmail email of Inl _ \<Rightarrow> None
      | Inr n \<Rightarrow>
          if list_ex (\<lambda>r. reviewer_email r = n \<or> reviewer_id r = i) (reviewers a) then None
          else map_option (Pair (i, code, at + REVIEWER_ENROLMENT_CODE_MS))
            (issueCode E i code at (a\<lparr>reviewers := reviewers a @
               [\<lparr>reviewer_id = i, reviewer_email = n, enrolled_at = None, disabled_at = None\<rparr>]\<rparr>)))"

definition reissueCode ::
  "env \<Rightarrow> string \<Rightarrow> string \<Rightarrow> time \<Rightarrow> accounts \<Rightarrow> (created \<times> accounts) option" where
  "reissueCode E email code at a =
     (case reviewerByEmail a email of
        Inr (Some r) \<Rightarrow>
          if disabled_at r \<noteq> None then None
          else map_option (Pair (reviewer_id r, code, at + REVIEWER_ENROLMENT_CODE_MS))
                 (issueCode E (reviewer_id r) code at a)
      | _ \<Rightarrow> None)"

definition reviewer_session :: "ident \<Rightarrow> session_row \<Rightarrow> bool" where
  "reviewer_session i r = (case session_for r of ForReviewer v \<Rightarrow> v = i | _ \<Rightarrow> False)"

definition first_time :: "time option \<Rightarrow> time \<Rightarrow> time option" where
  "first_time x at = (case x of None \<Rightarrow> Some at | Some t \<Rightarrow> Some t)"

definition disable_row :: "time \<Rightarrow> reviewer_row \<Rightarrow> reviewer_row" where
  "disable_row at r = r\<lparr>disabled_at := first_time (disabled_at r) at\<rparr>"

definition disable_reviewer :: "string \<Rightarrow> time \<Rightarrow> accounts \<Rightarrow> ((ident \<times> nat) \<times> accounts) option" where
  "disable_reviewer email at a =
     (case reviewerByEmail a email of
        Inr (Some r) \<Rightarrow>
          let i = reviewer_id r;
              a1 = a\<lparr>reviewers := update_where (\<lambda>v. reviewer_id v = i) (disable_row at) (reviewers a),
                     reviewer_codes := void_codes i at (reviewer_codes a)\<rparr>;
              a2 = revoke_session (\<lambda>s. reviewer_session i s \<and> session_expires s > at) at a1
          in Some ((i, count_where (\<lambda>s. reviewer_session i s \<and> session_standing at s) (sessions a)),
                   a2\<lparr>reviewer_ceremonies :=
                        filter (\<lambda>c. ceremony_account c \<noteq> i) (reviewer_ceremonies a2)\<rparr>)
      | _ \<Rightarrow> None)"

section \<open>Enrolment\<close>

definition open_reviewer_ceremony ::
  "ceremony_kind \<Rightarrow> string \<Rightarrow> ident \<Rightarrow> ident option \<Rightarrow> ident \<Rightarrow> time \<Rightarrow> accounts \<Rightarrow> accounts option" where
  "open_reviewer_ceremony kind challenge reviewer code i at a =
     map_option (\<lambda>rows. a\<lparr>reviewer_ceremonies := rows\<rparr>)
       (insert_unless (\<lambda>x y. ceremony_id x = ceremony_id y)
          \<lparr>ceremony_id = i, ceremony_kind = kind, ceremony_challenge = challenge,
           ceremony_account = reviewer, ceremony_email = [], ceremony_code = code,
           ceremony_expires = at + CEREMONY_MS\<rparr> (reviewer_ceremonies a))"

definition invited :: "accounts \<Rightarrow> ident \<Rightarrow> string \<Rightarrow> time \<Rightarrow> code_row \<Rightarrow> bool" where
  "invited a h email at c \<longleftrightarrow> redeemable h at c \<and>
     list_ex (\<lambda>r. reviewer_id r = code_account c \<and> disabled_at r = None \<and> reviewer_email r = email)
       (reviewers a)"

definition beginEnrolment ::
  "env \<Rightarrow> string \<Rightarrow> string \<Rightarrow> string \<Rightarrow> ident \<Rightarrow> time \<Rightarrow> accounts \<Rightarrow> (reviewer_error + ident) \<times> accounts" where
  "beginEnrolment E code email challenge i at a =
     (case normaliseEmail email of Inl _ \<Rightarrow> (Inl (ReviewerAuthError ReviewerInvalidInput), a)
      | Inr n \<Rightarrow>
          let h = hashSecret E code in
          (case find (invited a h n at) (reviewer_codes a) of
             None \<Rightarrow> (Inl (ReviewerAuthError CodeRejected), a)
           | Some c \<Rightarrow>
               (case open_reviewer_ceremony ReviewerEnrolment challenge (code_account c) (Some h) i at a of
                  None \<Rightarrow> (Inl ReviewerThrown, a) | Some a' \<Rightarrow> (Inr i, a'))))"

definition enrol_row :: "time \<Rightarrow> reviewer_row \<Rightarrow> reviewer_row" where
  "enrol_row at r = r\<lparr>enrolled_at := first_time (enrolled_at r) at\<rparr>"

definition reviewer_session_issue ::
  "env \<Rightarrow> ident \<Rightarrow> string \<Rightarrow> ident \<Rightarrow> time \<Rightarrow> accounts \<Rightarrow> accounts option" where
  "reviewer_session_issue E i token sid at a =
     issueSession E (ForReviewer i) REVIEWER_SESSION_MS token sid at a"

definition enrol_tx ::
  "env \<Rightarrow> ident \<Rightarrow> ident \<Rightarrow> ident \<times> string \<times> nat \<Rightarrow> string \<Rightarrow> ident \<Rightarrow> time \<Rightarrow> accounts \<Rightarrow>
     reviewer_error + accounts" where
  "enrol_tx E i h passkey token sid at a =
     (if count_where (redeemable h at) (reviewer_codes a) \<noteq> 1 then Inl (ReviewerAuthError CodeRejected)
      else case Option.bind (insert_unless same_passkey (passkey_of i passkey) (reviewer_passkeys a))
             (\<lambda>rows. reviewer_session_issue E i token sid at
               (a\<lparr>reviewer_codes := spend_code h at (reviewer_codes a), reviewer_passkeys := rows,
                  reviewers := update_where (\<lambda>r. reviewer_id r = i) (enrol_row at) (reviewers a)\<rparr>)) of
             None \<Rightarrow> Inl ReviewerThrown | Some a' \<Rightarrow> Inr a')"

definition completeEnrolment ::
  "auth_setting \<Rightarrow> ident \<Rightarrow> string \<Rightarrow> string \<Rightarrow> ident \<Rightarrow> time \<Rightarrow> accounts \<Rightarrow>
     (reviewer_error + issued \<times> ident \<times> string) \<times> accounts" where
  "completeEnrolment X i response token sid at a =
     (case consumeReviewerCeremony ReviewerEnrolment i at a of
        (Inl e, a1) \<Rightarrow> (Inl e, a1)
      | (Inr (c, email), a1) \<Rightarrow>
          (case verifyRegistration (auth_library X) response (ceremony_challenge c)
                  (rp_origins (relyingParty X)) (rp_id (relyingParty X)) of
             None \<Rightarrow> (Inl (ReviewerAuthError ReviewerCredentialRejected), a1)
           | Some passkey \<Rightarrow>
               (case ceremony_code c of None \<Rightarrow> (Inl (ReviewerAuthError CodeRejected), a1)
                | Some h \<Rightarrow>
                    (case enrol_tx (auth_env X) (ceremony_account c) h passkey token sid at a1 of
                       Inl e \<Rightarrow> (Inl e, a1)
                     | Inr a2 \<Rightarrow> (Inr ((token, at + REVIEWER_SESSION_MS), ceremony_account c, email), a2)))))"

section \<open>Sign-in\<close>

definition signs_in :: "string \<Rightarrow> reviewer_row \<Rightarrow> bool" where
  "signs_in email r \<longleftrightarrow> reviewer_email r = email \<and> disabled_at r = None \<and> enrolled_at r \<noteq> None"

definition beginSignIn ::
  "string \<Rightarrow> string \<Rightarrow> ident \<Rightarrow> time \<Rightarrow> accounts \<Rightarrow> (reviewer_error + ident \<times> ident list) \<times> accounts" where
  "beginSignIn email challenge i at a =
     (case normaliseEmail email of Inl _ \<Rightarrow> (Inl (ReviewerAuthError ReviewerInvalidInput), a)
      | Inr n \<Rightarrow> (case find (signs_in n) (reviewers a) of
            None \<Rightarrow> (Inl (ReviewerAuthError UnknownReviewer), a)
          | Some r \<Rightarrow>
              (case open_reviewer_ceremony ReviewerSignIn challenge (reviewer_id r) None i at a of
                 None \<Rightarrow> (Inl ReviewerThrown, a)
               | Some a' \<Rightarrow> (Inr (i, map credential_id
                     (filter (\<lambda>k. passkey_owner k = reviewer_id r) (reviewer_passkeys a))), a'))))"

definition completeSignIn ::
  "auth_setting \<Rightarrow> ident \<Rightarrow> assertion \<Rightarrow> string \<Rightarrow> ident \<Rightarrow> time \<Rightarrow> accounts \<Rightarrow>
     (reviewer_error + issued \<times> ident \<times> string) \<times> accounts" where
  "completeSignIn X i cred token sid at a =
     (case consumeReviewerCeremony ReviewerSignIn i at a of
        (Inl e, a1) \<Rightarrow> (Inl e, a1)
      | (Inr (c, email), a1) \<Rightarrow>
          (case find (passkey_named (asserted_id cred) (ceremony_account c)) (reviewer_passkeys a1) of
             None \<Rightarrow> (Inl (ReviewerAuthError ReviewerCredentialRejected), a1)
           | Some k \<Rightarrow>
               (case verify_assertion X cred (ceremony_challenge c) k of
                  None \<Rightarrow> (Inl (ReviewerAuthError ReviewerCredentialRejected), a1)
                | Some counter \<Rightarrow>
                    (case reviewer_session_issue (auth_env X) (ceremony_account c) token sid at
                            (a1\<lparr>reviewer_passkeys :=
                               count_use (credential_id k) counter at (reviewer_passkeys a1)\<rparr>) of
                       None \<Rightarrow> (Inl ReviewerThrown, a1)
                     | Some a2 \<Rightarrow>
                         (Inr ((token, at + REVIEWER_SESSION_MS), ceremony_account c, email), a2)))))"

end
