(* ===== verification/AccountSteps.thy ===== *)
theory AccountSteps
  imports Reviewers
begin

text \<open>
  The accounts as a transition system: every statement or transaction of the login,
  operator and reviewer services is a step, so a run is any interleaving of them.  \<open>T\<close> bounds
  the clock of the steps from below.
\<close>

section \<open>Steps\<close>

inductive account_step :: "env \<Rightarrow> time \<Rightarrow> accounts \<Rightarrow> accounts \<Rightarrow> bool" for E T where
  OpenCeremony: "T \<le> at \<Longrightarrow> openCeremony kind ch org email i at a = Some a' \<Longrightarrow> account_step E T a a'"
| Consume: "T \<le> at \<Longrightarrow> a' = snd (consumeCeremony kind i at a) \<Longrightarrow> account_step E T a a'"
| SignUp: "T \<le> at \<Longrightarrow> sign_up_tx E c passkey token sid at a = Some a' \<Longrightarrow> account_step E T a a'"
| SignIn: "T \<le> at \<Longrightarrow> issueSession E (ForOrganiser org) ORGANISER_SESSION_MS token sid at
      (a\<lparr>organiser_passkeys := count_use cred counter at (organiser_passkeys a)\<rparr>) = Some a' \<Longrightarrow>
    account_step E T a a'"
| Redeem: "T \<le> at \<Longrightarrow> auth_env X = E \<Longrightarrow>
    redeemOperatorEnrolmentCode X code token sid at a = Inr (r, a') \<Longrightarrow> account_step E T a a'"
| Challenge: "T \<le> at \<Longrightarrow> a' = snd (beginHolderLink rp acc nonce i at a) \<Longrightarrow> account_step E T a a'"
| TakeChallenge: "a' = a\<lparr>link_challenges := filter (\<lambda>r. challenge_id r \<noteq> i) (link_challenges a)\<rparr> \<Longrightarrow>
    account_step E T a a'"
| LinkHolder: "T \<le> at \<Longrightarrow> issueSession E (ForHolder acc cred) HOLDER_SESSION_MS token sid at
      (upsert_holder acc at a) = Some a' \<Longrightarrow> account_step E T a a'"
| SignOut: "T \<le> at \<Longrightarrow> account_step E T a (signOut sid at a)"
| CreateOperator: "T \<le> at \<Longrightarrow> create_operator org name i at a = Inr (r, a') \<Longrightarrow> account_step E T a a'"
| IssueCode: "T \<le> at \<Longrightarrow> issueEnrolmentCode E org i code at a = Inr (r, a') \<Longrightarrow> account_step E T a a'"
| RevokeSessions: "T \<le> at \<Longrightarrow> revokeSessions org i at a = Inr (r, a') \<Longrightarrow> account_step E T a a'"
| GrantGates: "T \<le> at \<Longrightarrow> grant_gates L s org inp i at a = Inr (g, a') \<Longrightarrow> account_step E T a a'"
| RevokeGrant: "T \<le> at \<Longrightarrow> revokeGrant org i at a = Inr (g, a') \<Longrightarrow> account_step E T a a'"
| Report: "T \<le> at \<Longrightarrow> a' = snd (record_report p req inp ended at a) \<Longrightarrow> account_step E T a a'"
| CreateReviewer: "T \<le> at \<Longrightarrow> create_reviewer E email i code at a = Some (r, a') \<Longrightarrow> account_step E T a a'"
| ReissueCode: "T \<le> at \<Longrightarrow> reissueCode E email code at a = Some (r, a') \<Longrightarrow> account_step E T a a'"
| DisableReviewer: "T \<le> at \<Longrightarrow> disable_reviewer email at a = Some (r, a') \<Longrightarrow> account_step E T a a'"
| OpenReviewer: "T \<le> at \<Longrightarrow> open_reviewer_ceremony kind ch v h i at a = Some a' \<Longrightarrow> account_step E T a a'"
| ConsumeReviewer: "T \<le> at \<Longrightarrow> a' = snd (consumeReviewerCeremony kind i at a) \<Longrightarrow> account_step E T a a'"
| Enrol: "T \<le> at \<Longrightarrow> enrol_tx E v h passkey token sid at a = Inr a' \<Longrightarrow> account_step E T a a'"
| ReviewerSignIn: "T \<le> at \<Longrightarrow> reviewer_session_issue E v token sid at
      (a\<lparr>reviewer_passkeys := count_use cred counter at (reviewer_passkeys a)\<rparr>) = Some a' \<Longrightarrow>
    account_step E T a a'"

abbreviation account_steps :: "env \<Rightarrow> time \<Rightarrow> accounts \<Rightarrow> accounts \<Rightarrow> bool" where
  "account_steps E T \<equiv> (account_step E T)\<^sup>*\<^sup>*"

section \<open>How steps change each table\<close>

lemma insert_unless_Some:
  "insert_unless c r rows = Some rows' \<longleftrightarrow> rows' = rows @ [r] \<and> (\<forall>x \<in> set rows. \<not> c r x)"
  by (auto simp: insert_unless_def list_ex_iff)

lemma issueSession_Some:
  "issueSession E p l token i at a = Some a' \<longleftrightarrow>
     a' = a\<lparr>sessions := sessions a @ [new_session E p l token i at]\<rparr> \<and>
     (\<forall>x \<in> set (sessions a). session_id x \<noteq> i \<and> session_token x \<noteq> hashSecret E token)"
  by (auto simp: issueSession_def insert_unless_Some same_session_def new_session_def)

lemma or_store_error_Inr [simp]: "or_store_error r = Inr x \<longleftrightarrow> r = Some x"
  by (cases r) (simp_all add: or_store_error_def)

lemma snd_consumeCeremony: "snd (consumeCeremony kind i at a) =
    a\<lparr>webauthn_ceremonies := filter (\<lambda>c. \<not> ceremony_named kind i c) (webauthn_ceremonies a)\<rparr>"
  by (simp add: consumeCeremony_def)

lemma snd_consumeReviewer: "snd (consumeReviewerCeremony kind i at a) =
    a\<lparr>reviewer_ceremonies := filter (\<lambda>c. \<not> reviewer_ceremony_ends kind i a c) (reviewer_ceremonies a)\<rparr>"
  by (simp add: consumeReviewerCeremony_def)

lemma openCeremony_Some: "openCeremony kind ch org email i at a = Some a' \<Longrightarrow>
    \<exists>rows. a' = a\<lparr>webauthn_ceremonies := rows\<rparr>"
  by (auto simp: openCeremony_def)

lemma open_reviewer_Some: "open_reviewer_ceremony kind ch v h i at a = Some a' \<Longrightarrow>
    \<exists>rows. a' = a\<lparr>reviewer_ceremonies := rows\<rparr>"
  by (auto simp: open_reviewer_ceremony_def)

lemma sign_up_Some:
  assumes "sign_up_tx E c passkey token sid at a = Some a'"
  obtains os ks where "issueSession E (ForOrganiser (ceremony_account c)) ORGANISER_SESSION_MS token sid at
    (a\<lparr>organisers := os, organiser_passkeys := ks\<rparr>) = Some a'"
  using assms unfolding sign_up_tx_def insert_organiser_def insert_organiser_passkey_def
  by (auto simp: bind_eq_Some_conv)

lemma same_challenges: "\<exists>rows. a = a\<lparr>link_challenges := rows\<rparr>"
  by (rule exI [of _ "link_challenges a"]) simp

lemma snd_beginHolderLink: "\<exists>rows. snd (beginHolderLink rp acc nonce i at a) = a\<lparr>link_challenges := rows\<rparr>"
  unfolding beginHolderLink_def using same_challenges by (auto split: option.split)

lemma redeem_Inr:
  assumes "redeemOperatorEnrolmentCode X code token sid at a = Inr (r, a')"
  obtains c op where "find (redeemable (hashSecret (auth_env X) code) at) (operator_codes a) = Some c"
    "operator_by_id a (code_account c) = Some op"
    "issueSession (auth_env X) (ForOperator (code_account c) (operator_organiser op)) OPERATOR_SESSION_MS
       token sid at (a\<lparr>operator_codes := spend_code (hashSecret (auth_env X) code) at (operator_codes a)\<rparr>) = Some a'"
  using assms unfolding redeemOperatorEnrolmentCode_def redeem_code_def Let_def
  by (auto split: option.splits simp: bind_eq_Some_conv)

lemma same_reports: "\<exists>rows n. a = a\<lparr>report_count := n, admission_reports := rows\<rparr>"
  by (rule exI [of _ "admission_reports a"], rule exI [of _ "report_count a"]) simp

lemma counted_reports: "\<exists>rows m. a\<lparr>report_count := n\<rparr> = a\<lparr>report_count := m, admission_reports := rows\<rparr>"
  by (rule exI [of _ "admission_reports a"], rule exI [of _ n]) simp

lemma snd_record_report: "\<exists>rows n. snd (record_report p req inp ended at a) =
    a\<lparr>report_count := n, admission_reports := rows\<rparr>"
proof (cases "report_refusal p inp ended a")
  case (Some e)
  then show ?thesis using same_reports by (simp add: record_report_def)
next
  case None
  show ?thesis
    unfolding record_report_def None Let_def insert_report_def
    using counted_reports by auto
qed

lemma create_operator_Inr: "create_operator org name i at a = Inr (r, a') \<Longrightarrow>
    \<exists>rows. a' = a\<lparr>operators := rows\<rparr>"
  by (auto simp: create_operator_def Let_def and_then_def split: if_splits sum.splits)

lemma issue_code_Inr:
  assumes "issueEnrolmentCode E org i code at a = Inr (r, a')"
  shows "a' = a\<lparr>operator_codes := operator_codes a @ [new_code E code i (at + ENROLMENT_CODE_MS)]\<rparr> \<and>
    (\<forall>c \<in> set (operator_codes a). code_hash c \<noteq> hashSecret E code)"
  using assms unfolding issueEnrolmentCode_def and_then_def
  by (auto simp: insert_unless_Some same_code_def new_code_def or_store_error_def
        split: sum.splits option.splits)

lemma revokeSessions_Inr:
  assumes "revokeSessions org i at a = Inr (r, a')"
  shows "a' = revoke_operator_sessions i at (a\<lparr>operator_codes := void_codes i at (operator_codes a)\<rparr>)"
  using assms unfolding revokeSessions_def and_then_def by (auto split: sum.splits)

lemma grant_gates_Inr:
  assumes "grant_gates L s org inp i at a = Inr (g, a')"
  shows "a' = a\<lparr>operator_grants := operator_grants a @ [g]\<rparr> \<and> g = new_gate_grant org inp i at \<and>
    grant_checks g \<and> (\<forall>x \<in> set (operator_grants a). gate_grant_id x \<noteq> i)"
  using assms unfolding grant_gates_def and_then_def Let_def
  by (auto simp: insert_unless_Some new_gate_grant_def or_store_error_def
        split: sum.splits option.splits if_splits)

lemma revokeGrant_Inr: "revokeGrant org i at a = Inr (g, a') \<Longrightarrow>
    a' = a\<lparr>operator_grants := update_where (\<lambda>g. grant_named i org g \<and> gate_revoked g = None)
             (revoke_grant_row at) (operator_grants a)\<rparr>"
  unfolding revokeGrant_def Let_def by (auto split: option.splits)

lemma issueCode_Some: "issueCode E i code at a = Some a' \<Longrightarrow>
    a' = a\<lparr>reviewer_codes := void_codes i at (reviewer_codes a) @
             [new_code E code i (at + REVIEWER_ENROLMENT_CODE_MS)]\<rparr> \<and>
    (\<forall>c \<in> set (void_codes i at (reviewer_codes a)). code_hash c \<noteq> hashSecret E code)"
  by (auto simp: issueCode_def insert_unless_Some same_code_def new_code_def)

lemma issueCode_frame: "issueCode E i code at b = Some a' \<Longrightarrow> sessions a' = sessions b \<and>
    operator_codes a' = operator_codes b \<and> reviewers a' = reviewers b \<and>
    operator_grants a' = operator_grants b"
  by (drule issueCode_Some) simp

lemma create_reviewer_Some:
  assumes "create_reviewer E email i code at a = Some (r, a')"
  obtains v where "reviewer_id v = i" "disabled_at v = None"
    "\<forall>x \<in> set (reviewers a). reviewer_id x \<noteq> i"
    "issueCode E i code at (a\<lparr>reviewers := reviewers a @ [v]\<rparr>) = Some a'"
proof -
  obtain n where n: "normaliseEmail email = Inr n"
    using assms unfolding create_reviewer_def by (auto split: sum.splits)
  with assms have "\<not> list_ex (\<lambda>r. reviewer_email r = n \<or> reviewer_id r = i) (reviewers a)"
    "issueCode E i code at (a\<lparr>reviewers := reviewers a @ [\<lparr>reviewer_id = i, reviewer_email = n,
       enrolled_at = None, disabled_at = None\<rparr>]\<rparr>) = Some a'"
    unfolding create_reviewer_def by (auto split: if_splits)
  then show thesis
    by (intro that [of "\<lparr>reviewer_id = i, reviewer_email = n, enrolled_at = None, disabled_at = None\<rparr>"])
      (auto simp: list_ex_iff)
qed

lemma reissue_Some:
  assumes "reissueCode E email code at a = Some (r, a')"
  obtains v where "v \<in> set (reviewers a)" "disabled_at v = None" "issueCode E (reviewer_id v) code at a = Some a'"
  using assms unfolding reissueCode_def reviewerByEmail_def
  by (auto split: sum.splits option.splits if_splits dest!: find_Some_in)

lemma disable_Some:
  assumes "disable_reviewer email at a = Some (r, a')"
  obtains v cs where "v \<in> set (reviewers a)" "fst r = reviewer_id v"
    "a' = revoke_session (\<lambda>s. reviewer_session (reviewer_id v) s \<and> session_expires s > at) at
      (a\<lparr>reviewers := update_where (\<lambda>x. reviewer_id x = reviewer_id v) (disable_row at) (reviewers a),
         reviewer_codes := void_codes (reviewer_id v) at (reviewer_codes a)\<rparr>)\<lparr>reviewer_ceremonies := cs\<rparr>"
proof -
  obtain v where email: "reviewerByEmail a email = Inr (Some v)"
    using assms unfolding disable_reviewer_def by (auto split: sum.splits option.splits)
  then have "v \<in> set (reviewers a)"
    by (auto simp: reviewerByEmail_def split: sum.splits dest: find_Some_in)
  moreover have "r = (reviewer_id v, count_where (\<lambda>s. reviewer_session (reviewer_id v) s \<and> session_standing at s) (sessions a))"
    and a': "a' = (revoke_session (\<lambda>s. reviewer_session (reviewer_id v) s \<and> session_expires s > at) at
      (a\<lparr>reviewers := update_where (\<lambda>x. reviewer_id x = reviewer_id v) (disable_row at) (reviewers a),
         reviewer_codes := void_codes (reviewer_id v) at (reviewer_codes a)\<rparr>))\<lparr>reviewer_ceremonies :=
       filter (\<lambda>c. ceremony_account c \<noteq> reviewer_id v) (reviewer_ceremonies (revoke_session
         (\<lambda>s. reviewer_session (reviewer_id v) s \<and> session_expires s > at) at
         (a\<lparr>reviewers := update_where (\<lambda>x. reviewer_id x = reviewer_id v) (disable_row at) (reviewers a),
            reviewer_codes := void_codes (reviewer_id v) at (reviewer_codes a)\<rparr>)))\<rparr>"
    using assms unfolding disable_reviewer_def email by (simp_all add: Let_def)
  ultimately show thesis using that by simp
qed

lemma enrol_Inr:
  assumes "enrol_tx E v h passkey token sid at a = Inr a'"
  obtains ks where "count_where (redeemable h at) (reviewer_codes a) = 1"
    "issueSession E (ForReviewer v) REVIEWER_SESSION_MS token sid at
       (a\<lparr>reviewer_codes := spend_code h at (reviewer_codes a), reviewer_passkeys := ks,
          reviewers := update_where (\<lambda>r. reviewer_id r = v) (enrol_row at) (reviewers a)\<rparr>) = Some a'"
  using assms unfolding enrol_tx_def reviewer_session_issue_def
  by (auto simp: bind_eq_Some_conv split: if_splits option.splits)

lemmas step_elims = sign_up_Some redeem_Inr create_reviewer_Some reissue_Some disable_Some enrol_Inr

lemma challenge_frame [simp]:
  "sessions (snd (beginHolderLink rp acc nonce i at a)) = sessions a"
  "operator_codes (snd (beginHolderLink rp acc nonce i at a)) = operator_codes a"
  "reviewers (snd (beginHolderLink rp acc nonce i at a)) = reviewers a"
  "reviewer_codes (snd (beginHolderLink rp acc nonce i at a)) = reviewer_codes a"
  "operator_grants (snd (beginHolderLink rp acc nonce i at a)) = operator_grants a"
  "admission_reports (snd (beginHolderLink rp acc nonce i at a)) = admission_reports a"
  "report_count (snd (beginHolderLink rp acc nonce i at a)) = report_count a"
  using snd_beginHolderLink [of rp acc nonce i at a] by auto

lemma report_frame [simp]:
  "sessions (snd (record_report p req inp ended at a)) = sessions a"
  "operator_codes (snd (record_report p req inp ended at a)) = operator_codes a"
  "reviewers (snd (record_report p req inp ended at a)) = reviewers a"
  "reviewer_codes (snd (record_report p req inp ended at a)) = reviewer_codes a"
  "operator_grants (snd (record_report p req inp ended at a)) = operator_grants a"
  using snd_record_report [of p req inp ended at a] by auto

lemmas step_shapes = snd_consumeCeremony snd_consumeReviewer signOut_def revoke_operator_sessions_def
  reviewer_session_issue_def upsert_holder_def

lemmas table_effects = openCeremony_Some open_reviewer_Some create_operator_Inr revokeSessions_Inr
  grant_gates_Inr revokeGrant_Inr issue_code_Inr

section \<open>Sessions\<close>

definition sessions_evolve :: "env \<Rightarrow> time \<Rightarrow> session_row list \<Rightarrow> session_row list \<Rightarrow> bool" where
  "sessions_evolve E T xs ys \<longleftrightarrow> ys = xs \<or>
     (\<exists>p l token i at. T \<le> at \<and> ys = xs @ [new_session E p l token i at] \<and>
        (\<forall>x \<in> set xs. session_id x \<noteq> i \<and> session_token x \<noteq> hashSecret E token)) \<or>
     (\<exists>P at. T \<le> at \<and> ys = update_where (\<lambda>r. P r \<and> session_revoked r = None)
        (\<lambda>r. r\<lparr>session_revoked := Some at\<rparr>) xs)"

lemma sessions_evolve_issue:
  assumes "T \<le> at" "issueSession E p l token i at b = Some a'" "sessions b = sessions a"
  shows "sessions_evolve E T (sessions a) (sessions a')"
proof -
  have "sessions a' = sessions a @ [new_session E p l token i at]"
    "\<forall>x \<in> set (sessions a). session_id x \<noteq> i \<and> session_token x \<noteq> hashSecret E token"
    using assms(2,3) unfolding issueSession_Some by simp_all
  with assms(1) show ?thesis unfolding sessions_evolve_def by blast
qed

lemma sessions_evolve_revoke: "T \<le> at \<Longrightarrow> sessions b = sessions a \<Longrightarrow>
    sessions_evolve E T (sessions a) (sessions (revoke_session P at b))"
  unfolding sessions_evolve_def revoke_session_def by auto

lemma sessions_evolve_same: "sessions_evolve E T xs xs"
  by (simp add: sessions_evolve_def)

lemma step_sessions:
  assumes "account_step E T a a'"
  shows "sessions_evolve E T (sessions a) (sessions a')"
  using assms
  by cases (auto dest!: table_effects issueCode_frame elim!: step_elims simp: step_shapes
    intro: sessions_evolve_same intro!: sessions_evolve_revoke dest: sessions_evolve_issue)

section \<open>Gate grants\<close>

text \<open>A grant keeps its terms; a revocation is made once, no earlier than \<open>T\<close>.\<close>

definition grant_kept :: "time \<Rightarrow> gate_grant \<Rightarrow> gate_grant \<Rightarrow> bool" where
  "grant_kept T g g' \<longleftrightarrow> g'\<lparr>gate_revoked := gate_revoked g\<rparr> = g \<and>
     (gate_revoked g' = gate_revoked g \<or> gate_revoked g = None \<and> (\<exists>t \<ge> T. gate_revoked g' = Some t))"

lemma grant_kept_refl [simp]: "grant_kept T g g"
  by (simp add: grant_kept_def)

lemma grant_kept_trans: "grant_kept T g h \<Longrightarrow> grant_kept T h k \<Longrightarrow> grant_kept T g k"
  by (cases g; cases h; cases k) (auto simp: grant_kept_def)

lemma grant_kept_terms: "grant_kept T g g' \<Longrightarrow> gate_operator g' = gate_operator g \<and>
    gate_organiser g' = gate_organiser g \<and> gate_event g' = gate_event g \<and> gates g' = gates g"
  by (cases g; cases g') (auto simp: grant_kept_def)

lemma step_grants:
  assumes "account_step E T a a'" "g \<in> set (operator_grants a)"
  shows "\<exists>g' \<in> set (operator_grants a'). grant_kept T g g'"
  using assms(1)
proof cases
  case (RevokeGrant at org i h)
  let ?P = "\<lambda>g. grant_named i org g \<and> gate_revoked g = None"
  have "(if ?P g then revoke_grant_row at g else g) \<in> set (operator_grants a')"
    using revokeGrant_Inr [OF RevokeGrant(2)] assms(2) by (simp add: set_update_where)
  then show ?thesis
    by (rule bexI [rotated]) (use RevokeGrant(1) in \<open>auto simp: grant_kept_def revoke_grant_row_def\<close>)
qed (use assms(2) in \<open>auto dest!: table_effects issueCode_frame elim!: step_elims
       simp: step_shapes revoke_session_def issueSession_Some intro!: bexI [of _ g]\<close>)

lemma steps_grants:
  assumes "account_steps E T a a'" "g \<in> set (operator_grants a)"
  shows "\<exists>g' \<in> set (operator_grants a'). grant_kept T g g'"
  using assms
proof (induction rule: rtranclp_induct)
  case base
  then show ?case by (auto intro!: bexI [of _ g])
next
  case (step b c)
  then obtain h where "h \<in> set (operator_grants b)" "grant_kept T g h" by auto
  with step_grants [OF step.hyps(2)] show ?case using grant_kept_trans by blast
qed

section \<open>Reviewers\<close>

definition disabled :: "accounts \<Rightarrow> ident \<Rightarrow> bool" where
  "disabled a i \<longleftrightarrow> (\<exists>r \<in> set (reviewers a). reviewer_id r = i \<and> disabled_at r \<noteq> None)"

lemma disabled_append: "disabled a i \<Longrightarrow> reviewers b = reviewers a @ vs \<Longrightarrow> disabled b i"
  by (auto simp: disabled_def)

lemma disabled_update:
  assumes "disabled a i" "reviewers b = update_where P f (reviewers a)"
    "\<And>r. reviewer_id (f r) = reviewer_id r" "\<And>r. disabled_at r \<noteq> None \<Longrightarrow> disabled_at (f r) \<noteq> None"
  shows "disabled b i"
proof -
  obtain r where r: "r \<in> set (reviewers a)" "reviewer_id r = i" "disabled_at r \<noteq> None"
    using assms(1) by (auto simp: disabled_def)
  then have "(if P r then f r else r) \<in> set (reviewers b)"
    by (simp add: assms(2) set_update_where)
  then show ?thesis unfolding disabled_def
    by (rule bexI [rotated]) (use r assms(3,4) in auto)
qed

lemma disabled_same: "disabled a i \<Longrightarrow> reviewers b = reviewers a \<Longrightarrow> disabled b i"
  by (simp add: disabled_def)

lemma first_time_Some [simp]: "first_time x at \<noteq> None"
  by (cases x) (simp_all add: first_time_def)

lemma step_disabled:
  assumes "account_step E T a a'" "disabled a i"
  shows "disabled a' i"
  using assms(1)
proof cases
  case (CreateReviewer at email j code r)
  from CreateReviewer(2) show ?thesis
    by (rule create_reviewer_Some) (auto dest!: issueCode_frame intro!: disabled_append [OF assms(2)])
next
  case (DisableReviewer at email r)
  from DisableReviewer(2) show ?thesis
    by (rule disable_Some)
      (rule disabled_update [OF assms(2), where f = "disable_row at"], auto simp: revoke_session_def disable_row_def)
next
  case (Enrol at v h passkey token sid)
  from Enrol(2) show ?thesis
    by (rule enrol_Inr)
      (rule disabled_update [OF assms(2), where f = "enrol_row at"], auto simp: issueSession_Some enrol_row_def)
qed (auto dest!: table_effects issueCode_frame elim!: step_elims intro!: disabled_same [OF assms(2)]
       simp: step_shapes revoke_session_def issueSession_Some)

lemma steps_disabled: "account_steps E T a a' \<Longrightarrow> disabled a i \<Longrightarrow> disabled a' i"
  by (induction rule: rtranclp_induct) (auto intro: step_disabled)

end
