(* ===== verification/AccountFacts.thy ===== *)
theory AccountFacts
  imports AccountSteps
begin

text \<open>
  What holds of the accounts in every interleaving: sessions and codes are unique, an
  operator's sessions are the codes redeemed for it, a reviewer has at most one code that can
  still be redeemed, a revocation and a disabling last, and what a gate's check allowed can be
  reported.
\<close>

section \<open>The invariant\<close>

definition redeemed_for :: "ident \<Rightarrow> code_row \<Rightarrow> bool" where
  "redeemed_for i c \<longleftrightarrow> code_account c = i \<and> code_redeemed c \<noteq> None"

definition sessions_from_codes :: "accounts \<Rightarrow> bool" where
  "sessions_from_codes a \<longleftrightarrow> distinct (map code_hash (operator_codes a)) \<and>
     (\<forall>i. count_where (operator_session i) (sessions a) = count_where (redeemed_for i) (operator_codes a))"

definition one_code :: "accounts \<Rightarrow> bool" where
  "one_code a \<longleftrightarrow> distinct (map code_hash (reviewer_codes a)) \<and>
     (\<forall>i. count_where (outstanding_code i) (reviewer_codes a) \<le> 1)"

definition unique_sessions :: "accounts \<Rightarrow> bool" where
  "unique_sessions a \<longleftrightarrow> distinct (map session_id (sessions a)) \<and> distinct (map session_token (sessions a))"

lemma distinct_map_new: "distinct (map f (xs @ [x])) \<longleftrightarrow> distinct (map f xs) \<and> (\<forall>y \<in> set xs. f y \<noteq> f x)"
  by (auto simp: image_iff)

section \<open>Sessions are unique, and a revoked one stays revoked\<close>

lemma evolve_unique:
  assumes "sessions_evolve E T xs ys" "distinct (map session_id xs)" "distinct (map session_token xs)"
  shows "distinct (map session_id ys) \<and> distinct (map session_token ys)"
  using assms unfolding sessions_evolve_def
  by (elim disjE exE conjE) (simp_all only: distinct_map_new, simp_all add: map_update_where new_session_def)

lemma step_unique: "account_step E T a a' \<Longrightarrow> unique_sessions a \<Longrightarrow> unique_sessions a'"
  using evolve_unique [OF step_sessions] by (simp add: unique_sessions_def)

lemma steps_unique: "account_steps E T a a' \<Longrightarrow> unique_sessions a \<Longrightarrow> unique_sessions a'"
  by (induction rule: rtranclp_induct) (auto intro: step_unique)

definition session_kept :: "session_row \<Rightarrow> session_row \<Rightarrow> bool" where
  "session_kept r r' \<longleftrightarrow> r'\<lparr>session_revoked := session_revoked r\<rparr> = r \<and>
     (session_revoked r \<noteq> None \<longrightarrow> session_revoked r' = session_revoked r)"

lemma session_kept_refl [simp]: "session_kept r r"
  by (simp add: session_kept_def)

lemma session_kept_trans: "session_kept r u \<Longrightarrow> session_kept u v \<Longrightarrow> session_kept r v"
  by (cases r; cases u; cases v) (auto simp: session_kept_def)

lemma evolve_kept:
  assumes "sessions_evolve E T xs ys" "r \<in> set xs"
  shows "\<exists>r' \<in> set ys. session_kept r r'"
proof -
  have "\<exists>r' \<in> set ys. session_kept r r'"
    if "ys = update_where (\<lambda>r. P r \<and> session_revoked r = None) (\<lambda>r. r\<lparr>session_revoked := Some at\<rparr>) xs"
    for P at
  proof -
    let ?r = "if P r \<and> session_revoked r = None then r\<lparr>session_revoked := Some at\<rparr> else r"
    have "?r \<in> set ys" using assms(2) by (simp add: that set_update_where)
    then show ?thesis by (rule bexI [rotated]) (auto simp: session_kept_def)
  qed
  then show ?thesis using assms unfolding sessions_evolve_def by (auto intro: bexI [of _ r])
qed

lemma steps_kept:
  assumes "account_steps E T a a'" "r \<in> set (sessions a)"
  shows "\<exists>r' \<in> set (sessions a'). session_kept r r'"
  using assms
proof (induction rule: rtranclp_induct)
  case base
  then show ?case by (auto intro: bexI [of _ r])
next
  case (step b c)
  then obtain u where "u \<in> set (sessions b)" "session_kept r u" by auto
  with evolve_kept [OF step_sessions [OF step.hyps(2)]] show ?case using session_kept_trans by blast
qed

section \<open>An operator's sessions are its redeemed codes\<close>

lemma count_by_key:
  assumes "distinct (map key rows)" "r \<in> set rows" "\<And>x. x \<in> set rows \<Longrightarrow> P x \<Longrightarrow> key x = key r"
  shows "count_where P rows = (if P r then 1 else 0)"
  using assms
proof (induction rows)
  case Nil
  then show ?case by simp
next
  case (Cons y rows)
  show ?case
  proof (cases "r \<in> set rows")
    case True
    then have "\<not> P y" using Cons.prems by (auto simp: image_iff)
    then show ?thesis using Cons True by (auto simp: count_where_Cons)
  next
    case False
    then have "r = y" "\<forall>x \<in> set rows. \<not> P x" using Cons.prems by (auto simp: image_iff)
    then show ?thesis by (auto simp: count_where_Cons count_where_0_iff)
  qed
qed

lemma spend_code_hashes [simp]: "map code_hash (spend_code h at cs) = map code_hash cs"
  by (simp add: spend_code_def map_update_where)

lemma void_codes_hashes [simp]: "map code_hash (void_codes i at cs) = map code_hash cs"
  by (simp add: void_codes_def map_update_where)

lemma count_redeemed_spend:
  assumes "distinct (map code_hash cs)" "find (redeemable h at) cs = Some c"
  shows "count_where (redeemed_for i) (spend_code h at cs) =
    count_where (redeemed_for i) cs + (if code_account c = i then 1 else 0)"
proof -
  have c: "c \<in> set cs" "redeemable h at c" using find_Some_in [OF assms(2)] by auto
  have "count_where (redeemed_for i) (spend_code h at cs) =
      count_where (\<lambda>x. redeemed_for i x \<or> (redeemable h at x \<and> code_account x = i)) cs"
    unfolding spend_code_def count_where_update
    by (rule count_where_cong) (auto simp: redeemed_for_def)
  also have "\<dots> = count_where (redeemed_for i) cs + count_where (\<lambda>x. redeemable h at x \<and> code_account x = i) cs"
    by (rule count_where_disj) (auto simp: redeemed_for_def redeemable_def)
  also have "count_where (\<lambda>x. redeemable h at x \<and> code_account x = i) cs = (if code_account c = i then 1 else 0)"
    using c count_by_key [OF assms(1) c(1), of "\<lambda>x. redeemable h at x \<and> code_account x = i"]
    by (auto simp: redeemable_def)
  finally show ?thesis .
qed

lemma count_redeemed_void [simp]:
  "count_where (redeemed_for i) (void_codes j at cs) = count_where (redeemed_for i) cs"
  unfolding void_codes_def count_where_update by (rule count_where_cong) (auto simp: redeemed_for_def)

lemma count_revoked [simp]: "count_where (operator_session i) (update_where P
    (\<lambda>r. r\<lparr>session_revoked := Some at\<rparr>) xs) = count_where (operator_session i) xs"
  unfolding count_where_update by (rule count_where_cong) (auto simp: operator_session_def)

lemma operator_session_new: "operator_session i (new_session E p l token sid at) \<longleftrightarrow>
    (\<exists>org. p = ForOperator i org)"
  by (auto simp: operator_session_def new_session_def split: session_principal.splits)

lemma new_code_not_redeemed [simp]: "\<not> redeemed_for i (new_code E code j t)"
  by (simp add: redeemed_for_def new_code_def)

lemma step_sessions_from_codes:
  assumes "account_step E T a a'" "sessions_from_codes a"
  shows "sessions_from_codes a'"
  using assms(1)
proof cases
  case (Redeem at X code token sid r)
  from Redeem(3) show ?thesis
  proof (rule redeem_Inr)
    fix c op
    let ?h = "hashSecret (auth_env X) code"
    assume c: "find (redeemable ?h at) (operator_codes a) = Some c"
      and s: "issueSession (auth_env X) (ForOperator (code_account c) (operator_organiser op))
        OPERATOR_SESSION_MS token sid at (a\<lparr>operator_codes := spend_code ?h at (operator_codes a)\<rparr>) = Some a'"
    have "distinct (map code_hash (operator_codes a))"
      using assms(2) by (simp add: sessions_from_codes_def)
    from count_redeemed_spend [OF this c] show ?thesis
      using s assms(2) unfolding issueSession_Some sessions_from_codes_def
      by (auto simp: count_where_append count_where_Cons operator_session_new)
  qed
next
  case (IssueCode at org i code r)
  from issue_code_Inr [OF IssueCode(2)] assms(2) show ?thesis
    unfolding sessions_from_codes_def
    by (simp del: distinct_append map_append add: distinct_map_new count_where_append count_where_Cons)
      (simp add: new_code_def)
qed (use assms(2) in \<open>auto dest!: table_effects issueCode_frame elim!: step_elims
       simp: sessions_from_codes_def step_shapes revoke_session_def issueSession_Some
         count_where_append count_where_Cons operator_session_new\<close>)

lemma steps_sessions_from_codes:
  "account_steps E T a a' \<Longrightarrow> sessions_from_codes a \<Longrightarrow> sessions_from_codes a'"
  by (induction rule: rtranclp_induct) (auto intro: step_sessions_from_codes)

section \<open>One redeemable code per reviewer\<close>

lemma outstanding_void [simp]:
  "count_where (outstanding_code i) (void_codes j at cs) = (if i = j then 0 else count_where (outstanding_code i) cs)"
proof (cases "i = j")
  case True
  have "count_where (outstanding_code j) (void_codes j at cs) = 0"
    by (simp add: void_codes_def count_where_update count_where_0_iff outstanding_code_def)
  then show ?thesis using True by simp
next
  case False
  have "count_where (outstanding_code i) (void_codes j at cs) = count_where (outstanding_code i) cs"
    unfolding void_codes_def count_where_update
    by (rule count_where_cong) (use False in \<open>auto simp: outstanding_code_def\<close>)
  then show ?thesis using False by simp
qed

lemma outstanding_new: "outstanding_code i (new_code E code j t) \<longleftrightarrow> i = j"
  by (auto simp: outstanding_code_def new_code_def)

lemma outstanding_spend:
  "count_where (outstanding_code i) (spend_code h at cs) \<le> count_where (outstanding_code i) cs"
  unfolding spend_code_def count_where_update by (rule count_where_mono) (auto simp: outstanding_code_def split: if_splits)

lemma one_code_issue:
  assumes "one_code a" "issueCode E j code at b = Some a'" "reviewer_codes b = reviewer_codes a"
  shows "one_code a'"
proof -
  have r: "reviewer_codes a' = void_codes j at (reviewer_codes a) @ [new_code E code j (at + REVIEWER_ENROLMENT_CODE_MS)]"
    "\<forall>c \<in> set (void_codes j at (reviewer_codes a)). code_hash c \<noteq> hashSecret E code"
    using issueCode_Some [OF assms(2)] assms(3) by auto
  show ?thesis
    using assms(1) r(2) unfolding one_code_def r(1) distinct_map_new
    by (simp add: count_where_append count_where_Cons outstanding_new) (simp add: new_code_def)
qed

lemma one_code_same: "one_code a \<Longrightarrow> reviewer_codes b = reviewer_codes a \<Longrightarrow> one_code b"
  by (simp add: one_code_def)

lemma step_one_code:
  assumes "account_step E T a a'" "one_code a"
  shows "one_code a'"
  using assms(1)
proof cases
  case (CreateReviewer at email i code r)
  from CreateReviewer(2) show ?thesis
    by (rule create_reviewer_Some) (erule one_code_issue [OF assms(2)], simp)
next
  case (ReissueCode at email code r)
  from ReissueCode(2) show ?thesis
    by (rule reissue_Some) (erule one_code_issue [OF assms(2)], simp)
next
  case (DisableReviewer at email r)
  from DisableReviewer(2) show ?thesis
    by (rule disable_Some) (use assms(2) in \<open>auto simp: revoke_session_def one_code_def\<close>)
next
  case (Enrol at v h passkey token sid)
  from Enrol(2) show ?thesis
  proof (rule enrol_Inr)
    fix ks
    assume "issueSession E (ForReviewer v) REVIEWER_SESSION_MS token sid at
       (a\<lparr>reviewer_codes := spend_code h at (reviewer_codes a), reviewer_passkeys := ks,
          reviewers := update_where (\<lambda>r. reviewer_id r = v) (enrol_row at) (reviewers a)\<rparr>) = Some a'"
    then have "reviewer_codes a' = spend_code h at (reviewer_codes a)" by (simp add: issueSession_Some)
    then show ?thesis
      using assms(2) outstanding_spend le_trans unfolding one_code_def by (simp, blast)
  qed
qed (auto dest!: table_effects elim!: step_elims intro!: one_code_same [OF assms(2)]
       simp: step_shapes revoke_session_def issueSession_Some)

lemma steps_one_code: "account_steps E T a a' \<Longrightarrow> one_code a \<Longrightarrow> one_code a'"
  by (induction rule: rtranclp_induct) (auto intro: step_one_code)

section \<open>Where an operator's sessions come from\<close>

definition no_new_operator :: "session_row list \<Rightarrow> session_row list \<Rightarrow> bool" where
  "no_new_operator xs ys \<longleftrightarrow> (\<forall>r' \<in> set ys. (\<exists>r \<in> set xs. session_kept r r') \<or> (\<forall>j. \<not> operator_session j r'))"

lemma no_new_operator_same [simp]: "no_new_operator xs xs"
  unfolding no_new_operator_def using session_kept_refl by blast

lemma no_new_operator_append:
  assumes "\<forall>j. \<not> operator_session j r"
  shows "no_new_operator xs (xs @ [r])"
  unfolding no_new_operator_def
proof
  fix r'
  assume "r' \<in> set (xs @ [r])"
  then show "(\<exists>r \<in> set xs. session_kept r r') \<or> (\<forall>j. \<not> operator_session j r')"
    using assms by (cases "r' \<in> set xs") (auto intro: bexI [of _ r'])
qed

lemma no_new_operator_revoke:
  "no_new_operator xs (update_where (\<lambda>r. P r \<and> session_revoked r = None) (\<lambda>r. r\<lparr>session_revoked := Some at\<rparr>) xs)"
  unfolding no_new_operator_def
proof (intro ballI disjI1)
  fix r'
  assume "r' \<in> set (update_where (\<lambda>r. P r \<and> session_revoked r = None) (\<lambda>r. r\<lparr>session_revoked := Some at\<rparr>) xs)"
  then obtain r where "r \<in> set xs"
    "r' = (if P r \<and> session_revoked r = None then r\<lparr>session_revoked := Some at\<rparr> else r)"
    by (rule in_update_where)
  then show "\<exists>r \<in> set xs. session_kept r r'" by (auto simp: session_kept_def intro!: bexI [of _ r])
qed

lemma no_new_operator_revoked:
  "sessions b = sessions a \<Longrightarrow> no_new_operator (sessions a) (sessions (revoke_session P at b))"
  unfolding revoke_session_def using no_new_operator_revoke by simp

text \<open>Every step leaves the codes, voids some, spends one for its session, or issues one.\<close>

definition codes_evolve :: "accounts \<Rightarrow> accounts \<Rightarrow> bool" where
  "codes_evolve a a' \<longleftrightarrow>
     (operator_codes a' = operator_codes a \<or> (\<exists>j at. operator_codes a' = void_codes j at (operator_codes a))) \<and>
       no_new_operator (sessions a) (sessions a') \<or>
     (\<exists>c h at. c \<in> set (operator_codes a) \<and> redeemable h at c \<and>
        operator_codes a' = spend_code h at (operator_codes a) \<and>
        (\<forall>r \<in> set (sessions a'). r \<in> set (sessions a) \<or> (\<exists>org. session_for r = ForOperator (code_account c) org))) \<or>
     (\<exists>c. operator_codes a' = operator_codes a @ [c] \<and>
        (\<forall>x \<in> set (operator_codes a). code_hash x \<noteq> code_hash c) \<and> sessions a' = sessions a)"

lemma codes_same: "operator_codes a' = operator_codes a \<Longrightarrow> no_new_operator (sessions a) (sessions a') \<Longrightarrow>
    codes_evolve a a'"
  by (simp add: codes_evolve_def)

lemma step_codes:
  assumes "account_step E T a a'"
  shows "codes_evolve a a'"
  using assms
proof cases
  case (Redeem at X code token sid r)
  from Redeem(3) show ?thesis
  proof (rule redeem_Inr)
    fix c op
    let ?h = "hashSecret (auth_env X) code"
    assume c: "find (redeemable ?h at) (operator_codes a) = Some c"
      and s: "issueSession (auth_env X) (ForOperator (code_account c) (operator_organiser op))
        OPERATOR_SESSION_MS token sid at (a\<lparr>operator_codes := spend_code ?h at (operator_codes a)\<rparr>) = Some a'"
    have "operator_codes a' = spend_code ?h at (operator_codes a)"
      "\<forall>r \<in> set (sessions a'). r \<in> set (sessions a) \<or> (\<exists>org. session_for r = ForOperator (code_account c) org)"
      using s by (auto simp: issueSession_Some new_session_def)
    with find_Some_in [OF c] show ?thesis unfolding codes_evolve_def by blast
  qed
next
  case (IssueCode at org i code r)
  from issue_code_Inr [OF IssueCode(2)] show ?thesis
    unfolding codes_evolve_def by (auto simp: new_code_def)
next
  case (RevokeSessions at org i r)
  have "no_new_operator (sessions a) (sessions a')"
    unfolding revokeSessions_Inr [OF RevokeSessions(2)] revoke_operator_sessions_def
    by (rule no_new_operator_revoked) simp
  moreover have "operator_codes a' = void_codes i at (operator_codes a)"
    unfolding revokeSessions_Inr [OF RevokeSessions(2)] revoke_operator_sessions_def revoke_session_def by simp
  ultimately show ?thesis unfolding codes_evolve_def by blast
next
  case (DisableReviewer at email r)
  from DisableReviewer(2) show ?thesis
    by (rule disable_Some) (rule codes_same, simp add: revoke_session_def, simp add: no_new_operator_revoked)
qed (auto dest!: table_effects issueCode_frame elim!: step_elims
       simp: step_shapes issueSession_Some revoke_session_def operator_session_new
       intro!: codes_same no_new_operator_append no_new_operator_revoke)

section \<open>Locked out\<close>

definition locked_out :: "ident \<Rightarrow> time \<Rightarrow> accounts \<Rightarrow> bool" where
  "locked_out i at a \<longleftrightarrow>
     (\<forall>c \<in> set (operator_codes a). code_account c = i \<longrightarrow> code_redeemed c \<noteq> None \<or> code_voided c \<noteq> None) \<and>
     (\<forall>r \<in> set (sessions a). operator_session i r \<longrightarrow> session_revoked r \<noteq> None \<or> session_expires r \<le> at)"

lemma ball_update_where:
  "(\<forall>x \<in> set (update_where P f rows). Q x) \<longleftrightarrow> (\<forall>x \<in> set rows. Q (if P x then f x else x))"
  by (induction rows) (simp_all add: update_where_def)

lemma revoke_locks_out:
  assumes "revokeSessions org i at a = Inr (r, a')"
  shows "locked_out i at a'"
  unfolding revokeSessions_Inr [OF assms] revoke_operator_sessions_def revoke_session_def locked_out_def
    void_codes_def
  by (simp add: ball_update_where) (auto simp: outstanding_code_def operator_session_def)

text \<open>How many codes were ever issued for an operator.\<close>

definition codes_issued :: "ident \<Rightarrow> accounts \<Rightarrow> nat" where
  "codes_issued i a = count_where (\<lambda>c. code_account c = i) (operator_codes a)"

lemma codes_issued_evolve:
  assumes "codes_evolve a a'"
  shows "codes_issued i a' \<ge> codes_issued i a"
proof -
  have "codes_issued i a' = codes_issued i a"
    if "operator_codes a' = update_where P f (operator_codes a)" "\<And>c. code_account (f c) = code_account c" for P f
    unfolding codes_issued_def that(1) count_where_update by (rule count_where_cong) (simp add: that(2))
  then show ?thesis
    using assms unfolding codes_evolve_def void_codes_def spend_code_def
    by (auto simp: codes_issued_def count_where_append)
qed

lemma session_kept_dead: "session_kept r r' \<Longrightarrow> operator_session i r' \<Longrightarrow>
    operator_session i r \<and> session_expires r' = session_expires r \<and> (session_revoked r \<noteq> None \<longrightarrow> session_revoked r' \<noteq> None)"
  by (cases r; cases r') (auto simp: session_kept_def operator_session_def)

lemma locked_out_evolve:
  assumes "codes_evolve a a'" "locked_out i at a" "codes_issued i a' = codes_issued i a"
  shows "locked_out i at a'"
proof -
  have codes: "\<forall>c \<in> set (operator_codes a). code_account c = i \<longrightarrow> code_redeemed c \<noteq> None \<or> code_voided c \<noteq> None"
    and live: "\<forall>r \<in> set (sessions a). operator_session i r \<longrightarrow> session_revoked r \<noteq> None \<or> session_expires r \<le> at"
    using assms(2) by (simp_all add: locked_out_def)
  have kept: "\<forall>r \<in> set (sessions a'). operator_session i r \<longrightarrow> session_revoked r \<noteq> None \<or> session_expires r \<le> at"
    if "no_new_operator (sessions a) (sessions a')"
  proof (intro ballI impI)
    fix r' assume "r' \<in> set (sessions a')" "operator_session i r'"
    with that obtain r where "r \<in> set (sessions a)" "session_kept r r'"
      unfolding no_new_operator_def by blast
    with live session_kept_dead \<open>operator_session i r'\<close>
    show "session_revoked r' \<noteq> None \<or> session_expires r' \<le> at" by metis
  qed
  from assms(1) consider
      "operator_codes a' = operator_codes a" "no_new_operator (sessions a) (sessions a')"
    | j t where "operator_codes a' = void_codes j t (operator_codes a)" "no_new_operator (sessions a) (sessions a')"
    | c h t where "c \<in> set (operator_codes a)" "redeemable h t c"
        "operator_codes a' = spend_code h t (operator_codes a)"
        "\<forall>r \<in> set (sessions a'). r \<in> set (sessions a) \<or> (\<exists>org. session_for r = ForOperator (code_account c) org)"
    | c where "operator_codes a' = operator_codes a @ [c]" "sessions a' = sessions a"
    unfolding codes_evolve_def by blast
  then show ?thesis
  proof cases
    case 1
    then show ?thesis using codes kept by (simp add: locked_out_def)
  next
    case 2
    then show ?thesis using codes kept by (simp add: locked_out_def void_codes_def ball_update_where)
  next
    case 3
    then have "code_account c \<noteq> i" using codes by (auto simp: redeemable_def)
    then have "\<forall>r \<in> set (sessions a'). operator_session i r \<longrightarrow> r \<in> set (sessions a)"
      using 3(4) by (auto simp: operator_session_def)
    then show ?thesis using codes live 3(3) by (simp add: locked_out_def spend_code_def ball_update_where)
  next
    case 4
    then have "code_account c \<noteq> i"
      using assms(3) by (auto simp: codes_issued_def count_where_append count_where_Cons split: if_splits)
    then show ?thesis using codes live 4 by (simp add: locked_out_def)
  qed
qed

lemma steps_locked_out:
  assumes "account_steps E T a a'" "locked_out i at a" "codes_issued i a' = codes_issued i a"
  shows "locked_out i at a'"
proof -
  have "codes_issued i a \<le> codes_issued i a' \<and> (codes_issued i a' = codes_issued i a \<longrightarrow> locked_out i at a')"
    using assms(1)
  proof (induction rule: rtranclp_induct)
    case base
    then show ?case using assms(2) by simp
  next
    case (step b c)
    have "codes_evolve b c" by (rule step_codes [OF step.hyps(2)])
    from codes_issued_evolve [OF this, of i] locked_out_evolve [OF this, of i at] step.IH show ?case by auto
  qed
  with assms(3) show ?thesis by simp
qed

section \<open>Reports are numbered as they arrive\<close>

definition reports_ok :: "accounts \<Rightarrow> bool" where
  "reports_ok a \<longleftrightarrow> sorted_wrt (<) (map report_seq (admission_reports a)) \<and>
     (\<forall>r \<in> set (admission_reports a). 0 < report_seq r \<and> report_seq r \<le> report_count a)"

lemma reports_same: "reports_ok a \<Longrightarrow> admission_reports b = admission_reports a \<Longrightarrow>
    report_count b = report_count a \<Longrightarrow> reports_ok b"
  by (simp add: reports_ok_def)

lemma issueCode_reports: "issueCode E i code at b = Some a' \<Longrightarrow>
    admission_reports a' = admission_reports b \<and> report_count a' = report_count b"
  by (drule issueCode_Some) simp

lemma insert_report_ok:
  assumes "reports_ok a" "report_seq r = Suc (report_count a)"
  shows "reports_ok (insert_report r a)"
  using assms by (auto simp: reports_ok_def insert_report_def sorted_wrt_append intro: le_SucI dest: bspec)

lemma record_reports_ok:
  assumes "reports_ok a"
  shows "reports_ok (snd (record_report p req inp ended at a))"
proof -
  have "reports_ok (a\<lparr>report_count := Suc (report_count a)\<rparr>)"
    using assms by (auto simp: reports_ok_def intro: le_SucI)
  with assms insert_report_ok [OF assms, of "new_report p req inp at (Suc (report_count a))"]
  show ?thesis unfolding record_report_def Let_def
    by (auto simp: new_report_def split: option.split)
qed

lemma step_reports:
  assumes "account_step E T a a'" "reports_ok a"
  shows "reports_ok a'"
  using assms(1)
  by cases (auto dest!: table_effects issueCode_reports elim!: step_elims
    simp: step_shapes revoke_session_def issueSession_Some record_reports_ok [OF assms(2)]
    intro!: reports_same [OF assms(2)])

lemma steps_reports: "account_steps E T a a' \<Longrightarrow> reports_ok a \<Longrightarrow> reports_ok a'"
  by (induction rule: rtranclp_induct) (auto intro: step_reports)

text \<open>A strictly ascending list cut after the page that ends with \<open>x\<close> goes on with what is greater.\<close>

lemma page_and_rest:
  fixes key :: "'r \<Rightarrow> nat"
  assumes "sorted_wrt (<) (map key rows)" "take n rows = page" "page \<noteq> []"
  shows "rows = page @ filter (\<lambda>r. key r > key (last page)) rows"
proof -
  have split: "rows = page @ drop n rows" using assms(2) append_take_drop_id [of n rows] by simp
  have "sorted_wrt (<) (map key (page @ drop n rows))" using assms(1) split by simp
  then have order: "\<forall>x \<in> set page. \<forall>y \<in> set (drop n rows). key x < key y" "sorted_wrt (<) (map key page)"
    by (simp_all add: sorted_wrt_append)
  have "filter (\<lambda>r. key r > key (last page)) page = []"
  proof -
    obtain ys y where "page = ys @ [y]" using assms(3) by (metis append_butlast_last_id)
    then show ?thesis using order(2) by (fastforce simp: sorted_wrt_append filter_empty_conv)
  qed
  moreover have "filter (\<lambda>r. key r > key (last page)) (drop n rows) = drop n rows"
    using order(1) assms(3) by (auto intro!: filter_True)
  ultimately show ?thesis using split by (metis append_Nil filter_append)
qed

lemma sort_key_ascending:
  fixes key :: "'r \<Rightarrow> 'k::linorder"
  assumes "sorted_wrt (<) (map key rows)"
  shows "sort_key key rows = rows"
  using assms
proof (induction rows)
  case Nil
  then show ?case by simp
next
  case (Cons r rows)
  then show ?case by (simp add: insort_is_Cons order_less_imp_le)
qed

text \<open>A page of the reports and what comes after it.\<close>

definition reports_after :: "report_query \<Rightarrow> nat \<Rightarrow> accounts \<Rightarrow> report_row list" where
  "reports_after q n a = filter (\<lambda>r. report_seq r > n \<and> query_matches q r) (admission_reports a)"

lemma list_reports_split:
  assumes "reports_ok a" "list_reports q after limit a = (page, nxt)" "0 < limit"
  shows "reports_after q after a = page @ reports_after q nxt a"
    and "page = [] \<longleftrightarrow> reports_after q after a = []"
proof -
  let ?rows = "reports_after q after a"
  have asc: "sorted_wrt (<) (map report_seq ?rows)"
    using assms(1) by (simp add: reports_ok_def reports_after_def sorted_wrt_map sorted_wrt_filter)
  then have "sort_key report_seq ?rows = ?rows" by (simp add: sort_key_ascending)
  then have page: "page = take limit ?rows" "nxt = (if page = [] then after else report_seq (last page))"
    using assms(2) by (auto simp: list_reports_def reports_after_def Let_def)
  then show "page = [] \<longleftrightarrow> ?rows = []" using assms(3) by simp
  show "?rows = page @ reports_after q nxt a"
  proof (cases "page = []")
    case True
    then show ?thesis using page assms(3) by simp
  next
    case False
    then have "last page \<in> set ?rows" using page(1) by (metis in_set_takeD last_in_set)
    then have "report_seq (last page) > after" by (simp add: reports_after_def)
    then have "filter (\<lambda>r. report_seq r > report_seq (last page)) ?rows = reports_after q nxt a"
      using False page(2) by (auto simp: reports_after_def intro: filter_cong)
    with page_and_rest [OF asc page(1) [symmetric] False] show ?thesis by (simp only:)
  qed
qed

end
