(* ===== verification/FlagFacts.thy ===== *)
theory FlagFacts
  imports AdmissionFlags CopyHistory AccountFacts
begin

text \<open>
  What the flags of admissions rest on (\<open>AdmissionFlags\<close>): every report of the event is read,
  and, across the reader and the reports, a flag's cause is in the part of the ledger's log
  the answer says it has read.
\<close>

section \<open>Reading every report\<close>

lemma reportsFrom_all:
  assumes "reports_ok a" "0 < limit"
  shows "reportsFrom (\<lambda>after. list_reports q after limit a) after found =
    Some (found @ reports_after q after a)"
proof (induction "length (reports_after q after a)" arbitrary: after found rule: less_induct)
  case less
  obtain page nxt where page: "list_reports q after limit a = (page, nxt)"
    by (cases "list_reports q after limit a")
  note split = list_reports_split[OF assms(1) page assms(2)]
  show ?case
  proof (cases "page = []")
    case True
    with page split(2) show ?thesis by (subst reportsFrom.simps) simp
  next
    case False
    then have "length (reports_after q nxt a) < length (reports_after q after a)"
      using split(1) by simp
    from less.hyps[OF this, of "found @ page"] page False split(1)
    show ?thesis by (subst reportsFrom.simps) simp
  qed
qed

lemma reportsFor_all:
  assumes "reports_ok a"
  shows "reportsFor event a = Some (filter (\<lambda>r. report_event r = event) (admission_reports a))"
proof -
  have "reports_after \<lparr>rq_event = Some event, rq_pass = None\<rparr> 0 a =
      filter (\<lambda>r. report_event r = event) (admission_reports a)"
    using assms by (auto simp: reports_after_def reports_ok_def query_matches_def intro!: filter_cong)
  then show ?thesis
    using reportsFrom_all[OF assms, of DEFAULT_REPORT_PAGE]
    by (simp add: reportsFor_def DEFAULT_REPORT_PAGE_def)
qed

section \<open>What a flag says\<close>

lemma map_filter_in: "y \<in> set (List.map_filter f xs) \<longleftrightarrow> (\<exists>x\<in>set xs. f x = Some y)"
  by (force simp: List.map_filter_def image_iff)

lemma matched_flag:
  assumes "reports_ok a" "matchAdmissionFlags lim fr seen a organiser event = Some flags" "f \<in> set flags"
  obtains r own where "r \<in> set (admission_reports a)" "report_event r = event" "report_organiser r = organiser"
    "flag_of lim fr (seen r) own r = Some f"
  using assms by (auto simp: matchAdmissionFlags_def reportsFor_all Let_def map_filter_in)

lemma flag_of_fields:
  assumes "flag_of lim fr c own r = Some f"
  shows "fl_report f = report_id r" "fl_ticket f = report_ticket r" "fl_pass f = report_pass r"
    "fl_presented f = presented_at r" "fl_deadline f = recording_deadline lim fr c r"
    "\<exists>others. flag_cause_of fr c others (recording_deadline lim fr c r) r = (fl_cause f, fl_transfers f)"
  using assms by (auto simp: flag_of_def Let_def split: prod.splits if_splits)

lemma cause_not_recorded:
  "flag_cause_of fr c others d r = (NotRecorded, ts) \<Longrightarrow> d \<noteq> None"
  by (auto simp: flag_cause_of_def Let_def split: option.splits if_splits)

lemma cause_transfers:
  assumes "flag_cause_of fr c others d r = (cause, ts)" "x \<in> set ts"
  obtains holder where "report_holder r = Some holder" "x \<in> set (explaining_transfers fr c r holder)"
  using assms by (auto simp: flag_cause_of_def Let_def split: option.splits if_splits)

lemma cause_transfer_explained:
  "flag_cause_of fr c others d r = (TransferBeforeRecording, ts) \<Longrightarrow> ts \<noteq> []"
  by (auto simp: flag_cause_of_def Let_def split: option.splits if_splits)

section \<open>The copies read\<close>

text \<open>A replay's freshness: how many records it holds, and when the last was recorded.\<close>

lemma freshness_of_replay:
  assumes "replay own reg rs = Inr c"
  shows "fr_records (freshnessOf c) = length rs"
    and "fr_last (freshnessOf c) = (if rs = [] then None else Some (rec_recorded_at (last rs)))"
proof -
  show n: "fr_records (freshnessOf c) = length rs"
    using assms by (auto simp: freshnessOf_def replay_Inr_iff)
  have log: "cp_log c = map (\<lambda>k. applied_of k (rs ! k)) [0..<length rs]"
    using replay_rows[OF assms] by (simp add: rows_say_def)
  show "fr_last (freshnessOf c) = (if rs = [] then None else Some (rec_recorded_at (last rs)))"
  proof (cases rs rule: rev_cases)
    case Nil
    with log show ?thesis by (simp add: freshnessOf_def)
  next
    case (snoc rs' r)
    have "find (\<lambda>l. app_sequence l + 1 = length rs) (cp_log c) = Some (applied_of (length rs') r)"
    proof -
      have old: "find (\<lambda>l. app_sequence l + 1 = length rs) (map (\<lambda>k. applied_of k (rs ! k)) [0..<length rs']) = None"
        by (auto simp: find_None_iff applied_of_def snoc)
      have "cp_log c = map (\<lambda>k. applied_of k (rs ! k)) [0..<length rs'] @ [applied_of (length rs') r]"
        by (simp add: log snoc nth_append)
      with find_append_new[OF old] show ?thesis by (simp add: applied_of_def snoc)
    qed
    with n snoc show ?thesis by (simp add: freshnessOf_def applied_of_def)
  qed
qed

text \<open>A pass the copy's part of the log consumed is in every later copy.\<close>

lemma consumed_in_replay:
  assumes "replay own reg (take m rs) = Inr c" "m \<le> length rs" "n \<le> m" "k < n"
    and "rec_entry (rs ! k) = PassEntry p"
  shows "\<exists>x. fst (consumedPass c (pass_ticket p) (pass_id p)) = Some x \<and> pr_sequence x = k"
proof -
  note rows = replay_rows[OF assms(1), unfolded rows_say_def]
  have "(k, pass_ticket p, pass_id p) \<in> set (pass_index (take m rs))"
    using assms(2-5) by (auto simp: pass_index_iff)
  then have "(k, pass_ticket p, pass_id p) \<in> set (map (\<lambda>x. (pr_sequence x, pr_ticket x, pr_pass x)) (cp_passes c))"
    using rows by simp
  then obtain x where x: "x \<in> set (cp_passes c)" "pr_sequence x = k" "pr_ticket x = pass_ticket p"
      "pr_pass x = pass_id p"
    by auto
  have "distinct (map (\<lambda>x. (pr_ticket x, pr_pass x)) (cp_passes c))" using rows by simp
  from find_key[OF this x(1)] x show ?thesis by (auto simp: consumedPass_def)
qed

lemma recording_deadline_Some:
  assumes "recording_deadline lim fr c r = Some d"
  shows "d = presented_at r + maxPassWindow lim + maxRecordingLag lim"
    and "\<exists>t. fr_last fr = Some t \<and> t > d"
    and "\<And>x. fst (consumedPass c (report_ticket r) (report_pass r)) = Some x \<Longrightarrow> fr_records fr \<le> pr_sequence x"
  using assms
  by (auto simp: recording_deadline_def Let_def split: admission_verdict.splits admission_submission.splits
      option.splits if_splits)

lemma explaining_transfer:
  assumes "replay own reg (take m rs) = Inr c" "m \<le> length rs" "n \<le> m" "fr_records fr = n"
    and "x \<in> set (explaining_transfers fr c r holder)"
  shows "ft_from x = holder \<and> ft_sequence x < n \<and>
    (\<exists>e. transfers_to (report_ticket r) e (ft_to x) (rs ! ft_sequence x)) \<and>
    ft_recorded x = rec_recorded_at (rs ! ft_sequence x) \<and>
    presented_at r - GATE_CLOCK_TOLERANCE_MS \<le> ft_recorded x \<and>
    holder_after (report_ticket r) (take (ft_sequence x) rs) = Some holder"
proof -
  from assms(5) obtain y where y: "y \<in> set (cp_transfers c)" "tr_ticket y = report_ticket r"
      "presented_at r - GATE_CLOCK_TOLERANCE_MS \<le> tr_recorded_at y" "tr_sequence y < n" "tr_from y = holder"
    and x: "ft_from x = tr_from y" "ft_to x = tr_to y" "ft_recorded x = tr_recorded_at y" "ft_sequence x = tr_sequence y"
    using assms(4) by (auto simp: explaining_transfers_def transfers_of_def)
  have "tr_sequence y < m" using y(4) assms(3) by simp
  with replay_transfers[OF assms(1)] y(1) have
    "transfers_to (tr_ticket y) (tr_event y) (tr_to y) (rs ! tr_sequence y)"
    "tr_recorded_at y = rec_recorded_at (rs ! tr_sequence y)"
    "holder_after (tr_ticket y) (take (tr_sequence y) rs) = Some (tr_from y)"
    by (auto simp: transfers_say_def dest!: bspec)
  with x y show ?thesis by auto
qed

end
