(* ===== verification/CopyProperties.thy ===== *)
theory CopyProperties
  imports CopyHistory
begin

text \<open>
  Properties of the derived copy and its reader, each with an instance on a short log served
  page by page.
\<close>

section \<open>A log served from a list\<close>

definition served_from :: "log_record list \<Rightarrow> log_reader" where
  "served_from rs cur batch =
     (let n = (if cur = LOG_START then 0 else length (takeWhile (\<lambda>r. rec_cursor r \<noteq> cur) rs) + 1);
          page = take batch (drop n rs)
      in Inr (page, if page = [] then cur else rec_cursor (last page)))"

lemma takeWhile_before:
  assumes "distinct (map f rs)" "i < length rs"
  shows "length (takeWhile (\<lambda>r. f r \<noteq> f (rs ! i)) rs) = i"
  using assms
proof (induction rs arbitrary: i)
  case (Cons r rs)
  then show ?case by (cases i) auto
qed simp

lemma served_from_position:
  assumes "distinct (LOG_START # map rec_cursor rs)" "n \<le> length rs"
  shows "served_from rs (cursor_at rs n) batch =
    Inr (take batch (drop n rs), cursor_at rs (n + length (take batch (drop n rs))))"
proof -
  have pos: "(if cursor_at rs n = LOG_START then 0
      else length (takeWhile (\<lambda>r. rec_cursor r \<noteq> cursor_at rs n) rs) + 1) = n"
  proof (cases n)
    case (Suc m)
    with assms have "cursor_at rs n = rec_cursor (rs ! m)" "m < length rs" "rs ! m \<in> set rs"
      by (simp_all add: cursor_at_def)
    moreover from this assms(1) have "rec_cursor (rs ! m) \<noteq> LOG_START"
      by (metis distinct.simps(2) image_eqI list.set_map)
    ultimately
    show ?thesis using takeWhile_before[of rec_cursor rs m] assms(1) Suc by simp
  qed (simp add: cursor_at_def)
  define page where "page = take batch (drop n rs)"
  have "(if page = [] then cursor_at rs n else rec_cursor (last page)) = cursor_at rs (n + length page)"
  proof (cases "page = []")
    case False
    have "page ! i = rs ! (n + i)" if "i < length page" for i
      using that assms(2) by (simp add: page_def)
    then have "last page = rs ! (n + (length page - 1))" using False by (simp add: last_conv_nth)
    moreover have "n + (length page - 1) = n + length page - 1" using False by (cases page) simp_all
    ultimately show ?thesis using False by (simp add: cursor_at_def)
  qed simp
  then show ?thesis unfolding served_from_def Let_def pos page_def[symmetric] by (simp only:)
qed

lemma served_from_follows:
  assumes "distinct (LOG_START # map rec_cursor rs)"
  shows "follows rs (served_from rs)"
  unfolding follows_def using served_from_position[OF assms] by auto

lemma served_from_serves:
  assumes "distinct (LOG_START # map rec_cursor rs)" "0 < batch"
  shows "serves rs (served_from rs) batch"
  unfolding serves_def
proof (intro allI impI exI)
  fix n
  assume "n \<le> length rs"
  then show "served_from rs (cursor_at rs n) batch =
      Inr (take batch (drop n rs), cursor_at rs (n + length (take batch (drop n rs)))) \<and>
    length (take batch (drop n rs)) \<le> batch \<and> (take batch (drop n rs) = [] \<longrightarrow> n = length rs)"
    using served_from_position[OF assms(1)] assms(2) by auto
qed

text \<open>A gig with one ticket, transferred and then admitted.\<close>

definition gig_log :: "log_record list" where
  "gig_log =
    [\<lparr>rec_cursor = ''c1'', rec_recorded_at = 10, rec_event = Some (''gig'', 0),
       rec_entry = CommandEntry (CmdCreateEvent ''gig'' (Some 5) [] None) ''o1'', rec_presented_at = None\<rparr>,
     \<lparr>rec_cursor = ''c2'', rec_recorded_at = 20, rec_event = Some (''gig'', 1),
       rec_entry = CommandEntry (CmdIssueTicket \<lparr>iss_ticket = ''t1'', iss_event = ''gig'',
         iss_holder = ''ana'', iss_class = ''k'', iss_provenance = Purchased, iss_zone = ''z'',
         iss_placement = Inl ''d'', iss_policy = Single, iss_cannot_resale = False,
         iss_cannot_transfer = False\<rparr>) ''o2'', rec_presented_at = None\<rparr>,
     \<lparr>rec_cursor = ''c3'', rec_recorded_at = 30, rec_event = Some (''gig'', 2),
       rec_entry = CommandEntry (CmdTransferTicket ''t1'' ''gig'' ''bob'') ''o3'', rec_presented_at = None\<rparr>,
     \<lparr>rec_cursor = ''c4'', rec_recorded_at = 40, rec_event = Some (''gig'', 3),
       rec_entry = PassEntry \<lparr>pass_id = ''p1'', pass_ticket = ''t1'', pass_holder = ''bob'',
         not_before = 35, not_after = 45\<rparr>, rec_presented_at = Some 38\<rparr>]"

definition gig_owner :: "ident \<Rightarrow> ident" where "gig_owner e = ''org''"

definition gig_copy :: copy where
  "gig_copy = (case replay gig_owner (\<lambda>_. None) gig_log of Inr c \<Rightarrow> c | Inl _ \<Rightarrow> empty_copy)"

lemma gig_distinct: "distinct (LOG_START # map rec_cursor gig_log)"
  by code_simp

lemma gig_replay: "replay gig_owner (\<lambda>_. None) gig_log = Inr gig_copy"
proof -
  have "isl (replay gig_owner (\<lambda>_. None) gig_log) = False" by code_simp
  then show ?thesis by (auto simp: gig_copy_def split: sum.split)
qed

lemma gig_answers: "answers (owners_ledger gig_owner) gig_owner"
  by (simp add: answers_def owners_ledger_def)

lemma gig_owned: "owned_by gig_owner (owners_ledger gig_owner)"
  by (simp add: owned_by_def owners_ledger_def)

section \<open>Properties\<close>

text \<open>
  C15. The derived copy follows the ledger's log: whatever the pulls, their batch sizes, their
  errors and the batches rolled back, the copy after a run of the reader is the replay of a
  prefix of the log, no record skipped and none applied twice.
\<close>

lemma copy_is_a_replay_of_the_log:
  assumes "\<And>p. p \<in> set pulls \<Longrightarrow> follows rs (pull_log p) \<and> owned_by own (pull_ledger p)"
  shows "\<exists>n \<le> length rs. replay own reg (take n rs) = Inr (reader_run reg pulls empty_copy)"
  using reader_run_replay[of pulls rs own 0 reg empty_copy] assms by auto

definition gig_pulls :: "pull list" where
  "gig_pulls = [\<lparr>pull_ledger = owners_ledger gig_owner, pull_log = served_from gig_log, pull_size = 3\<rparr>,
     \<lparr>pull_ledger = owners_ledger gig_owner, pull_log = (\<lambda>_ _. Inl ''ERR-Down''), pull_size = 3\<rparr>]"

lemma copy_is_a_replay_of_the_log_witness:
  "(\<exists>n \<le> length gig_log. replay gig_owner (\<lambda>_. None) (take n gig_log) =
     Inr (reader_run (\<lambda>_. None) gig_pulls empty_copy)) \<and>
   cp_next (reader_run (\<lambda>_. None) gig_pulls empty_copy) = 3"
proof -
  have "follows gig_log (pull_log p) \<and> owned_by gig_owner (pull_ledger p)" if "p \<in> set gig_pulls" for p
    using that served_from_follows[OF gig_distinct] gig_owned
    by (auto simp: gig_pulls_def follows_def[of _ "\<lambda>_ _. Inl _"])
  note copy_is_a_replay_of_the_log[of gig_pulls gig_log gig_owner "\<lambda>_. None", OF this]
  moreover have "cp_next (reader_run (\<lambda>_. None) gig_pulls empty_copy) = 3" by code_simp
  ultimately show ?thesis by simp
qed

text \<open>
  C16. Catching up ends, with the replay of the whole log and the count of the records it
  applied, from wherever the copy stood, when the log is served, the ledger answers and the
  log can be projected.
\<close>

lemma catching_up_ends_with_the_whole_log:
  assumes "serves rs read batch" "answers L own" "replay own reg rs = Inr final"
    and "n \<le> length rs" "replay own reg (take n rs) = Inr c"
  shows "catchUp (reader_step (server_projections L reg) read batch) c 0 =
    Some (final, Inr (length rs - n))"
  using catchUp_reaches[OF assms, of 0] by simp

lemma catching_up_ends_with_the_whole_log_witness:
  "catchUp (reader_step (server_projections (owners_ledger gig_owner) (\<lambda>_. None))
     (served_from gig_log) 3) empty_copy 0 = Some (gig_copy, Inr 4)"
proof -
  have "serves gig_log (served_from gig_log) 3" by (rule served_from_serves[OF gig_distinct]) simp
  from catching_up_ends_with_the_whole_log[OF this gig_answers gig_replay, of 0 empty_copy]
  show ?thesis by (simp add: gig_log_def)
qed

text \<open>
  C17. A copy says of every event and ticket what the log's history says: the event's last
  status, how many tickets were issued for it (which is how many the copy holds), the
  ticket's last holder, and how often it was admitted (which is its attendances, its
  attendance row's count and how many of its passes were consumed).
\<close>

lemma copy_says_what_the_log_says:
  assumes "replay own reg rs = Inr c"
  shows "map_option ce_status (event_of c e) = status_after e rs \<and>
    (case event_of c e of None \<Rightarrow> 0 | Some x \<Rightarrow> ce_issued x) = count_where (issues_for e) rs \<and>
    count_where (\<lambda>x. ct_event x = e) (cp_tickets c) = count_where (issues_for e) rs \<and>
    map_option ct_holder (ticket_of c t) = holder_after t rs \<and>
    (case ticket_of c t of None \<Rightarrow> 0 | Some x \<Rightarrow> ct_attendances x) = count_where (admits t) rs \<and>
    attended c t = count_where (admits t) rs \<and>
    count_where (\<lambda>x. pr_ticket x = t) (cp_passes c) = count_where (admits t) rs"
  using says_parts[OF replay_says[OF assms]] by simp

lemma copy_says_what_the_log_says_witness:
  "map_option ce_status (event_of gig_copy ''gig'') = Some Active \<and>
   map_option ct_holder (ticket_of gig_copy ''t1'') = Some ''bob'' \<and> attended gig_copy ''t1'' = 1"
  using copy_says_what_the_log_says[OF gig_replay, of "''gig''" "''t1''"]
  by (simp add: gig_log_def status_after_def holder_after_def status_step_def holder_step_def
      admits_def count_where_Cons)

text \<open>
  Every transfer the copy holds is one the log records at its sequence, and the holder it
  names as the one left is the log's holder of the ticket just before it.
\<close>

lemma transfers_leave_the_holder:
  assumes "replay own reg rs = Inr c" "x \<in> set (cp_transfers c)"
  shows "tr_sequence x < length rs \<and>
    transfers_to (tr_ticket x) (tr_event x) (tr_to x) (rs ! tr_sequence x) \<and>
    holder_after (tr_ticket x) (take (tr_sequence x) rs) = Some (tr_from x)"
  using replay_transfers[OF assms(1)] assms(2) by (simp add: transfers_say_def)

lemma transfers_leave_the_holder_witness:
  "cp_transfers gig_copy = [\<lparr>tr_sequence = 2, tr_event = ''gig'', tr_ticket = ''t1'', tr_from = ''ana'',
     tr_to = ''bob'', tr_recorded_at = 30\<rparr>] \<and>
   holder_after ''t1'' (take 2 gig_log) = Some ''ana''"
proof -
  let ?x = "\<lparr>tr_sequence = 2, tr_event = ''gig'', tr_ticket = ''t1'', tr_from = ''ana'',
     tr_to = ''bob'', tr_recorded_at = 30\<rparr>"
  have c: "cp_transfers gig_copy = [?x]" by code_simp
  then have "?x \<in> set (cp_transfers gig_copy)" by simp
  from transfers_leave_the_holder[OF gig_replay this] c show ?thesis by simp
qed

end
