(* ===== verification/AccountOperations.thy ===== *)
theory AccountOperations
  imports AccountFacts
begin

text \<open>
  Every operation of the three services, as the API and the command line call them, is a run
  of account steps, whichever way it ends.
\<close>

inductive account_operation :: "auth_setting \<Rightarrow> time \<Rightarrow> accounts \<Rightarrow> accounts \<Rightarrow> bool" for X at where
  "account_operation X at a (snd (beginOrganiserSignUp email org ch i at a))"
| "account_operation X at a (snd (completeOrganiserSignUp X i response token sid at a))"
| "account_operation X at a (snd (beginOrganiserSignIn email ch i at a))"
| "account_operation X at a (snd (completeOrganiserSignIn X i cred token sid at a))"
| "redeemOperatorEnrolmentCode X code token sid at a = Inr (r, a') \<Longrightarrow> account_operation X at a a'"
| "account_operation X at a (snd (beginHolderLink rp acc nonce i at a))"
| "account_operation X at a (snd (completeHolderLink X i authorisation token sid at a))"
| "account_operation X at a (signOut sid at a)"
| "create_operator org name i at a = Inr (row, a') \<Longrightarrow> account_operation X at a a'"
| "issueEnrolmentCode (auth_env X) org i code at a = Inr (fresh, a') \<Longrightarrow> account_operation X at a a'"
| "revokeSessions org i at a = Inr (ended, a') \<Longrightarrow> account_operation X at a a'"
| "grant_gates L s org inp i at a = Inr (g, a') \<Longrightarrow> account_operation X at a a'"
| "revokeGrant org i at a = Inr (g, a') \<Longrightarrow> account_operation X at a a'"
| "account_operation X at a (snd (record_report p req report revoked at a))"
| "create_reviewer (auth_env X) email i code at a = Some (created, a') \<Longrightarrow> account_operation X at a a'"
| "reissueCode (auth_env X) email code at a = Some (created, a') \<Longrightarrow> account_operation X at a a'"
| "disable_reviewer email at a = Some (ended', a') \<Longrightarrow> account_operation X at a a'"
| "account_operation X at a (snd (beginEnrolment (auth_env X) code email ch i at a))"
| "account_operation X at a (snd (completeEnrolment X i response token sid at a))"
| "account_operation X at a (snd (beginSignIn email ch i at a))"
| "account_operation X at a (snd (completeSignIn X i cred token sid at a))"

lemma begin_sign_up_steps: "T \<le> at \<Longrightarrow> account_steps E T a (snd (beginOrganiserSignUp email org ch i at a))"
  unfolding beginOrganiserSignUp_def
  by (auto split: sum.split option.split intro: account_step.OpenCeremony)

lemma begin_sign_in_steps: "T \<le> at \<Longrightarrow> account_steps E T a (snd (beginOrganiserSignIn email ch i at a))"
  unfolding beginOrganiserSignIn_def
  by (auto split: sum.split option.split intro: account_step.OpenCeremony)

lemma consume_step:
  assumes "consumeCeremony kind i at a = (r, a1)" "T \<le> at"
  shows "account_step E T a a1"
  using account_step.Consume [OF assms(2), of a1 kind i a E] assms(1) by simp

lemma consume_reviewer_step:
  assumes "consumeReviewerCeremony kind i at a = (r, a1)" "T \<le> at"
  shows "account_step E T a a1"
  using account_step.ConsumeReviewer [OF assms(2), of a1 kind i a E] assms(1) by simp

lemma complete_sign_up_steps:
  assumes "T \<le> at"
  shows "account_steps (auth_env X) T a (snd (completeOrganiserSignUp X i response token sid at a))"
proof -
  obtain r a1 where c: "consumeCeremony OrganiserSignUp i at a = (r, a1)" by fastforce
  have "account_step (auth_env X) T a a1" by (rule consume_step [OF c assms])
  then show ?thesis
    unfolding completeOrganiserSignUp_def c
    by (auto split: sum.split option.split intro: account_step.SignUp [OF assms] converse_rtranclp_into_rtranclp)
qed

lemma complete_sign_in_steps:
  assumes "T \<le> at"
  shows "account_steps (auth_env X) T a (snd (completeOrganiserSignIn X i cred token sid at a))"
proof -
  obtain r a1 where c: "consumeCeremony OrganiserSignIn i at a = (r, a1)" by fastforce
  have "account_step (auth_env X) T a a1" by (rule consume_step [OF c assms])
  then show ?thesis
    unfolding completeOrganiserSignIn_def c
    by (auto split: sum.split option.split intro: account_step.SignIn [OF assms] converse_rtranclp_into_rtranclp)
qed

lemma complete_link_steps:
  assumes "T \<le> at"
  shows "account_steps (auth_env X) T a (snd (completeHolderLink X i authorisation token sid at a))"
proof -
  let ?a1 = "a\<lparr>link_challenges := filter (\<lambda>r. challenge_id r \<noteq> i) (link_challenges a)\<rparr>"
  have "account_step (auth_env X) T a ?a1" by (rule account_step.TakeChallenge) simp
  then show ?thesis
    unfolding completeHolderLink_def Let_def
    by (auto split: sum.split option.split
          intro: account_step.LinkHolder [OF assms] converse_rtranclp_into_rtranclp)
qed

lemma begin_enrolment_steps: "T \<le> at \<Longrightarrow> account_steps E T a (snd (beginEnrolment E' code email ch i at a))"
  unfolding beginEnrolment_def Let_def
  by (auto split: sum.split option.split intro: account_step.OpenReviewer)

lemma begin_reviewer_steps: "T \<le> at \<Longrightarrow> account_steps E T a (snd (beginSignIn email ch i at a))"
  unfolding beginSignIn_def
  by (auto split: sum.split option.split intro: account_step.OpenReviewer)

lemma complete_enrolment_steps:
  assumes "T \<le> at"
  shows "account_steps (auth_env X) T a (snd (completeEnrolment X i response token sid at a))"
proof -
  obtain r a1 where c: "consumeReviewerCeremony ReviewerEnrolment i at a = (r, a1)" by fastforce
  have "account_step (auth_env X) T a a1" by (rule consume_reviewer_step [OF c assms])
  then show ?thesis
    unfolding completeEnrolment_def c
    by (auto split: sum.split option.split intro: account_step.Enrol [OF assms] converse_rtranclp_into_rtranclp)
qed

lemma complete_reviewer_steps:
  assumes "T \<le> at"
  shows "account_steps (auth_env X) T a (snd (completeSignIn X i cred token sid at a))"
proof -
  obtain r a1 where c: "consumeReviewerCeremony ReviewerSignIn i at a = (r, a1)" by fastforce
  have "account_step (auth_env X) T a a1" by (rule consume_reviewer_step [OF c assms])
  then show ?thesis
    unfolding completeSignIn_def c
    by (auto split: sum.split option.split
          intro: account_step.ReviewerSignIn [OF assms] converse_rtranclp_into_rtranclp)
qed

lemma account_operation_steps:
  assumes "account_operation X at a a'" "T \<le> at"
  shows "account_steps (auth_env X) T a a'"
  using assms
  by cases (auto intro: begin_sign_up_steps begin_sign_in_steps complete_sign_up_steps
      complete_sign_in_steps complete_link_steps begin_enrolment_steps begin_reviewer_steps
      complete_enrolment_steps complete_reviewer_steps account_step.intros)

end
