(* ===== verification/AccountProperties.thy ===== *)
theory AccountProperties
  imports AccountOperations Examples
begin

text \<open>
  The properties of logins, operators, gates and reviewers, each with a run of the services
  it holds of.
\<close>

section \<open>A run\<close>

text \<open>An operator is created, enrols with a code, is granted a gate and revoked.\<close>

definition accept_all :: webauthn where
  "accept_all = \<lparr>verifyRegistration = (\<lambda>r _ _ _. Some (r, r, 0)), verifyAuthentication = (\<lambda>_ _ _ _ _ n. Some (Suc n))\<rparr>"

definition login_setting :: auth_setting where
  "login_setting = \<lparr>auth_env = walk_env, auth_library = accept_all,
     relyingParty = \<lparr>rp_id = ''kippu'', rp_origins = [''https://kippu'']\<rparr>, linking = None\<rparr>"

definition after_ok :: "failure + 'a \<times> accounts \<Rightarrow> accounts \<Rightarrow> accounts" where
  "after_ok r a = (case r of Inl _ \<Rightarrow> a | Inr (_, a') \<Rightarrow> a')"

definition after_login :: "auth_error + 'a \<times> accounts \<Rightarrow> accounts \<Rightarrow> accounts" where
  "after_login r a = (case r of Inl _ \<Rightarrow> a | Inr (_, a') \<Rightarrow> a')"

definition desk_event :: ident where
  "desk_event = replicate 64 CHR ''a''"

definition desk_ledger :: ledger where
  "desk_ledger = \<lparr>ledger.getEvent = (\<lambda>_. Inr walk_event), getTicket = (\<lambda>_. Inl ''ERR-TicketNotFound''),
     getCancellationHolder = (\<lambda>_. Inr None), inFlight = [], landedLate = []\<rparr>"

definition gate_of_walk :: gate_input where
  "gate_of_walk = \<lparr>gi_operator = ''op'', gi_event = desk_event, gi_gates = [''north''], gi_from = 0, gi_until = 90000\<rparr>"

definition desk1 :: accounts where
  "desk1 = after_ok (create_operator ''org'' ''Ana'' ''op'' 0 no_accounts) no_accounts"

definition desk2 :: accounts where
  "desk2 = after_ok (issueEnrolmentCode walk_env ''org'' ''op'' ''code'' 1000 desk1) desk1"

definition desk3 :: accounts where
  "desk3 = after_login (redeemOperatorEnrolmentCode login_setting ''code'' ''token'' ''session'' 2000 desk2) desk2"

definition desk4 :: accounts where
  "desk4 = after_ok (grant_gates desk_ledger walk0 ''org'' gate_of_walk ''grant'' 3000 desk3) desk3"

definition desk5 :: accounts where
  "desk5 = after_ok (revokeGrant ''org'' ''grant'' 6000 desk4) desk4"

definition desk6 :: accounts where
  "desk6 = after_ok (revokeSessions ''org'' ''op'' 7000 desk5) desk5"

lemma after_ok_run: "r = Inr (x, a') \<Longrightarrow> after_ok r a = a'"
  by (simp add: after_ok_def)

definition is_ok :: "'e + 'a \<Rightarrow> bool" where
  "is_ok r = (case r of Inl _ \<Rightarrow> False | Inr _ \<Rightarrow> True)"

lemma ok_after: "is_ok r \<Longrightarrow> \<exists>x. r = Inr (x, after_ok r a)"
  by (cases r) (auto simp: is_ok_def after_ok_def)

lemma ok_after_login: "is_ok r \<Longrightarrow> \<exists>x. r = Inr (x, after_login r a)"
  by (cases r) (auto simp: is_ok_def after_login_def)

lemma login_env: "auth_env login_setting = walk_env"
  by (simp add: login_setting_def)

lemma desk1: "account_step walk_env 0 no_accounts desk1"
proof -
  have "is_ok (create_operator ''org'' ''Ana'' ''op'' 0 no_accounts)" by code_simp
  from ok_after [OF this, of no_accounts] show ?thesis
    unfolding desk1_def by (auto intro: account_step.CreateOperator)
qed

lemma desk2: "account_step walk_env 0 desk1 desk2"
proof -
  have "is_ok (issueEnrolmentCode walk_env ''org'' ''op'' ''code'' 1000 desk1)" by code_simp
  from ok_after [OF this, of desk1] show ?thesis
    unfolding desk2_def by (auto intro: account_step.IssueCode [of _ 1000])
qed

lemma desk3: "account_step walk_env 0 desk2 desk3"
proof -
  have "is_ok (redeemOperatorEnrolmentCode login_setting ''code'' ''token'' ''session'' 2000 desk2)" by code_simp
  from ok_after_login [OF this, of desk2] show ?thesis
    unfolding desk3_def by (auto intro: account_step.Redeem [of _ 2000 login_setting] simp: login_env)
qed

lemma desk4: "account_step walk_env 0 desk3 desk4"
proof -
  have "is_ok (grant_gates desk_ledger walk0 ''org'' gate_of_walk ''grant'' 3000 desk3)" by code_simp
  from ok_after [OF this, of desk3] show ?thesis
    unfolding desk4_def by (auto intro: account_step.GrantGates [of _ 3000])
qed

lemma desk_run: "account_steps walk_env 0 no_accounts desk4"
  using desk1 desk2 desk3 desk4 by (meson converse_rtranclp_into_rtranclp rtranclp.rtrancl_refl)

lemma desk5: "account_step walk_env 6000 desk4 desk5"
proof -
  have "is_ok (revokeGrant ''org'' ''grant'' 6000 desk4)" by code_simp
  from ok_after [OF this, of desk4] show ?thesis
    unfolding desk5_def by (auto intro: account_step.RevokeGrant [of _ 6000])
qed

section \<open>Codes and sessions\<close>

text \<open>
  C37. Enrolment codes work once: however requests interleave, an operator has exactly as many
  sessions as codes redeemed for it, a reviewer at most one code still redeemable, and no two
  sessions share a token.
\<close>

theorem codes_work_once:
  assumes "account_steps E T no_accounts a"
  shows "count_where (operator_session i) (sessions a) = count_where (redeemed_for i) (operator_codes a) \<and>
         count_where (outstanding_code i) (reviewer_codes a) \<le> 1 \<and> distinct (map session_token (sessions a))"
proof -
  have "sessions_from_codes no_accounts" "one_code no_accounts" "unique_sessions no_accounts"
    by (simp_all add: no_accounts_def sessions_from_codes_def one_code_def unique_sessions_def)
  with steps_sessions_from_codes [OF assms] steps_one_code [OF assms] steps_unique [OF assms]
  show ?thesis by (simp add: sessions_from_codes_def one_code_def unique_sessions_def)
qed

theorem codes_work_once_witness:
  "count_where (operator_session ''op'') (sessions desk4) = 1 \<and>
   count_where (redeemed_for ''op'') (operator_codes desk4) = 1"
proof -
  have "count_where (operator_session ''op'') (sessions desk4) = 1" by code_simp
  with codes_work_once [OF desk_run, of "''op''"] show ?thesis by simp
qed

text \<open>
  Revoking an operator's sessions locks it out: whatever runs afterwards, as long as no new
  code is issued for it, no token authenticates as that operator, a redemption racing the
  revocation included.
\<close>

theorem revoked_operator_is_locked_out:
  assumes "revokeSessions org i at a = Inr (n, a1)" "account_steps E T a1 a2"
    and "codes_issued i a2 = codes_issued i a1" "at \<le> t"
  shows "authenticate E token t a2 \<noteq> Some (Operator i org' sid, x)"
proof
  assume "authenticate E token t a2 = Some (Operator i org' sid, x)"
  then obtain r where r: "find (session_live a2 (hashSecret E token) t) (sessions a2) = Some r"
    "principal_of_session r = Operator i org' sid"
    unfolding authenticate_def by auto
  then have "r \<in> set (sessions a2)" "session_revoked r = None" "session_expires r > t"
    using find_Some_in [OF r(1)] by (auto simp: session_live_def)
  moreover have "operator_session i r"
    using r(2) by (auto simp: principal_of_session_def operator_session_def split: session_principal.splits)
  moreover have "locked_out i at a2"
    by (rule steps_locked_out [OF assms(2) revoke_locks_out [OF assms(1)] assms(3)])
  ultimately show False using assms(4) by (auto simp: locked_out_def)
qed

theorem revoked_operator_is_locked_out_witness:
  "authenticate walk_env ''token'' 6500 desk5 = Some (Operator ''op'' ''org'' ''session'', 86402000) \<and>
   authenticate walk_env ''token'' 7500 desk6 \<noteq> Some (Operator ''op'' ''org'' ''session'', 86402000)"
proof -
  have "is_ok (revokeSessions ''org'' ''op'' 7000 desk5)" by code_simp
  from ok_after [OF this, of desk5] obtain n where "revokeSessions ''org'' ''op'' 7000 desk5 = Inr (n, desk6)"
    unfolding desk6_def by auto
  from revoked_operator_is_locked_out [OF this rtranclp.rtrancl_refl refl, of 7500 walk_env "''token''"]
  have "authenticate walk_env ''token'' 7500 desk6 \<noteq> Some (Operator ''op'' ''org'' ''session'', 86402000)" by simp
  moreover have "authenticate walk_env ''token'' 6500 desk5 = Some (Operator ''op'' ''org'' ''session'', 86402000)"
    by code_simp
  ultimately show ?thesis by simp
qed

text \<open>
  C40. A disabled reviewer never acts again: no token authenticates as them, at any time,
  whatever runs afterwards, sign-ins already under way included.
\<close>

theorem disabled_reviewer_never_acts:
  assumes "disable_reviewer email at a = Some ((i, n), a1)" "account_steps E T a1 a2"
  shows "authenticate E token t a2 \<noteq> Some (Reviewer i sid, x)"
proof
  assume "authenticate E token t a2 = Some (Reviewer i sid, x)"
  then obtain r where r: "find (session_live a2 (hashSecret E token) t) (sessions a2) = Some r"
    "principal_of_session r = Reviewer i sid"
    unfolding authenticate_def by auto
  have "disabled a1 i"
  proof (rule disable_Some [OF assms(1)])
    fix v cs
    assume "v \<in> set (reviewers a)" "fst (i, n) = reviewer_id v"
      and "a1 = revoke_session (\<lambda>s. reviewer_session (reviewer_id v) s \<and> session_expires s > at) at
        (a\<lparr>reviewers := update_where (\<lambda>x. reviewer_id x = reviewer_id v) (disable_row at) (reviewers a),
           reviewer_codes := void_codes (reviewer_id v) at (reviewer_codes a)\<rparr>)\<lparr>reviewer_ceremonies := cs\<rparr>"
    then have "disable_row at v \<in> set (reviewers a1)" "reviewer_id v = i"
      by (simp_all add: revoke_session_def set_update_where)
    then show ?thesis unfolding disabled_def by (auto simp: disable_row_def first_time_def split: option.split intro!: bexI [of _ "disable_row at v"])
  qed
  then have "disabled a2 i" by (rule steps_disabled [OF assms(2)])
  moreover have "session_for r = ForReviewer i"
    using r(2) by (auto simp: principal_of_session_def split: session_principal.splits)
  ultimately show False
    using find_Some_in [OF r(1)] by (auto simp: session_live_def reviewer_disabled_def disabled_def list_ex_iff)
qed

definition after_some :: "('a \<times> accounts) option \<Rightarrow> accounts \<Rightarrow> accounts" where
  "after_some r a = (case r of None \<Rightarrow> a | Some (_, a') \<Rightarrow> a')"

definition panel1 :: accounts where
  "panel1 = after_some (create_reviewer walk_env ''Rev@kippu'' ''rev'' ''invite'' 0 no_accounts) no_accounts"

definition panel2 :: accounts where
  "panel2 = snd (completeEnrolment login_setting ''ceremony'' ''passkey'' ''token'' ''session'' 2000
     (snd (beginEnrolment walk_env ''invite'' ''rev@kippu'' ''challenge'' ''ceremony'' 1000 panel1)))"

theorem disabled_reviewer_never_acts_witness:
  "authenticate walk_env ''token'' 3000 panel2 = Some (Reviewer ''rev'' ''session'', 43202000) \<and>
   authenticate walk_env ''token'' 3000 (after_some (disable_reviewer ''rev@kippu'' 2500 panel2) panel2) \<noteq>
     Some (Reviewer ''rev'' ''session'', 43202000)"
proof -
  have "map_option fst (disable_reviewer ''rev@kippu'' 2500 panel2) = Some (''rev'', 1)" by code_simp
  then have "disable_reviewer ''rev@kippu'' 2500 panel2 =
      Some ((''rev'', 1), after_some (disable_reviewer ''rev@kippu'' 2500 panel2) panel2)"
    by (auto simp: after_some_def)
  note disabled_reviewer_never_acts [OF this rtranclp.rtrancl_refl]
  moreover have "authenticate walk_env ''token'' 3000 panel2 = Some (Reviewer ''rev'' ''session'', 43202000)"
    by code_simp
  ultimately show ?thesis by simp
qed

lemma find_not_last: "\<not> P x \<Longrightarrow> find P (xs @ [x]) = find P xs"
  by (induction xs) simp_all

text \<open>
  A session that was issued authenticates: with its token, until it expires, as the
  principal it was issued for; and no other token answers differently.
\<close>

theorem issued_session_authenticates:
  assumes "issueSession E p l token sid at a = Some a'" "t < at + l"
    and "\<forall>v. p = ForReviewer v \<longrightarrow> \<not> disabled a v"
  shows "authenticate E token t a' =
           Some (principal_of_session (new_session E p l token sid at), at + l) \<and>
         (hashSecret E other \<noteq> hashSecret E token \<longrightarrow> authenticate E other t a' = authenticate E other t a)"
proof -
  let ?r = "new_session E p l token sid at"
  have a': "a' = a\<lparr>sessions := sessions a @ [?r]\<rparr>"
    and fresh: "\<forall>x \<in> set (sessions a). session_token x \<noteq> hashSecret E token"
    using assms(1) by (auto simp: issueSession_Some)
  have live: "session_live a' h t = session_live a h t" for h
    by (rule ext) (simp add: session_live_def reviewer_disabled_def a' split: session_principal.split)
  have "find (session_live a' (hashSecret E token) t) (sessions a) = None"
    unfolding find_None_iff using fresh by (auto simp: session_live_def)
  moreover have "session_live a' (hashSecret E token) t ?r"
    using assms(2,3) unfolding live
    by (auto simp: session_live_def new_session_def reviewer_disabled_def disabled_def list_ex_iff
        split: session_principal.split)
  ultimately have "authenticate E token t a' = Some (principal_of_session ?r, at + l)"
    by (simp add: authenticate_def a' find_append_new new_session_def)
  moreover have "authenticate E other t a' = authenticate E other t a" if "hashSecret E other \<noteq> hashSecret E token"
  proof -
    have "\<not> session_live a' (hashSecret E other) t ?r" using that by (simp add: session_live_def new_session_def)
    then have "find (session_live a' (hashSecret E other) t) (sessions a @ [?r]) =
        find (session_live a' (hashSecret E other) t) (sessions a)"
      by (rule find_not_last)
    then show ?thesis unfolding authenticate_def by (simp add: a' live [unfolded a'])
  qed
  ultimately show ?thesis by blast
qed

theorem issued_session_authenticates_witness:
  "authenticate walk_env ''token'' 86401999 desk3 = Some (Operator ''op'' ''org'' ''session'', 86402000)"
proof -
  let ?a = "desk2\<lparr>operator_codes := spend_code (hashSecret walk_env ''code'') 2000 (operator_codes desk2)\<rparr>"
  have "is_ok (redeemOperatorEnrolmentCode login_setting ''code'' ''token'' ''session'' 2000 desk2)" by code_simp
  from ok_after_login [OF this, of desk2] obtain x where
    "redeemOperatorEnrolmentCode login_setting ''code'' ''token'' ''session'' 2000 desk2 = Inr (x, desk3)"
    unfolding desk3_def by auto
  then show ?thesis
  proof (rule redeem_Inr)
    fix c op
    assume c: "find (redeemable (hashSecret (auth_env login_setting) ''code'') 2000) (operator_codes desk2) = Some c"
      and op: "operator_by_id desk2 (code_account c) = Some op"
      and s: "issueSession (auth_env login_setting) (ForOperator (code_account c) (operator_organiser op))
        OPERATOR_SESSION_MS ''token'' ''session'' 2000
        (desk2\<lparr>operator_codes := spend_code (hashSecret (auth_env login_setting) ''code'') 2000 (operator_codes desk2)\<rparr>) =
        Some desk3"
    have "map_option code_account (find (redeemable (hashSecret walk_env ''code'') 2000) (operator_codes desk2)) = Some ''op''"
      "map_option operator_organiser (operator_by_id desk2 ''op'') = Some ''org''" by code_simp+
    then have "code_account c = ''op''" "operator_organiser op = ''org''"
      using c op by (simp_all add: login_env)
    with issued_session_authenticates [OF s [unfolded login_env], of 86401999] show ?thesis
      by (simp add: principal_of_session_def new_session_def lifetimes)
  qed
qed

section \<open>Gates and reports\<close>

text \<open>
  What a gate's check allowed can be reported: an admission presented no later than a
  check that authorised its operator is never refused for want of a grant, whatever is revoked
  afterwards.
\<close>

theorem checked_gate_can_report:
  assumes "check_gate p (ri_event inp) (ri_gate inp) t a = Inr x" "account_steps E T a a'" "t < T"
    and "ri_presented inp \<le> t"
  shows "report_refusal p inp None a' = None"
proof -
  let ?rows = "gate_grants p (ri_event inp) (ri_gate inp) a"
  let ?active = "filter (in_window t) (filter (\<lambda>g. gate_revoked g = None) ?rows)"
  have "sort_key (\<lambda>g. - valid_until g) ?active \<noteq> []"
    using assms(1) unfolding check_gate_def Let_def by (auto split: list.splits if_splits)
  then have "?active \<noteq> []" by auto
  then obtain g where "g \<in> set ?active" by (meson list.set_sel(1))
  then have g: "g \<in> set (operator_grants a)" "gate_operator g = acting_operator p"
    "gate_organiser g = acting_organiser p" "gate_event g = ri_event inp" "ri_gate inp \<in> set (gates g)"
    "gate_revoked g = None"
    by (auto simp: gate_grants_def)
  obtain g' where g': "g' \<in> set (operator_grants a')" "grant_kept T g g'"
    using steps_grants [OF assms(2) g(1)] by blast
  then have "g' \<in> set (gate_grants p (ri_event inp) (ri_gate inp) a')"
    using g grant_kept_terms [OF g'(2)] by (simp add: gate_grants_def)
  moreover have "covers (ri_presented inp) g'"
    using g'(2) g(6) assms(3,4) by (auto simp: covers_def grant_kept_def split: option.splits)
  ultimately show ?thesis unfolding report_refusal_def Let_def by (auto simp: list_ex_iff)
qed

definition desk_operator :: operator_principal where
  "desk_operator = \<lparr>acting_operator = ''op'', acting_organiser = ''org'', acting_session = ''session''\<rparr>"

definition desk_report :: report_input where
  "desk_report = \<lparr>ri_id = ''report'', ri_event = desk_event, ri_gate = ''north'', ri_ticket = desk_event,
     ri_pass = replicate 32 CHR ''b'', ri_holder = None, ri_verdict = Admitted AdmissionFailed, ri_presented = 5000,
     ri_clock = 5000\<rparr>"

theorem checked_gate_can_report_witness:
  "is_ok (check_gate desk_operator desk_event ''north'' 5000 desk4) \<and>
   \<not> is_ok (check_gate desk_operator desk_event ''north'' 6500 desk5) \<and>
   report_refusal desk_operator desk_report None desk5 = None"
proof -
  have ok: "is_ok (check_gate desk_operator desk_event ''north'' 5000 desk4)"
    "\<not> is_ok (check_gate desk_operator desk_event ''north'' 6500 desk5)" by code_simp+
  moreover have "ri_event desk_report = desk_event" "ri_gate desk_report = ''north''" "ri_presented desk_report = 5000"
    by (simp_all add: desk_report_def)
  moreover from ok(1) obtain x where "check_gate desk_operator desk_event ''north'' 5000 desk4 = Inr x"
    unfolding is_ok_def by (cases "check_gate desk_operator desk_event ''north'' 5000 desk4") auto
  ultimately show ?thesis
    using checked_gate_can_report [of desk_operator desk_report 5000 desk4 x walk_env 6000 desk5] desk5 by auto
qed

text \<open>
  Paging through the admission reports misses none and repeats none: what matches after a
  point is the page read from it followed by what matches after where the page says to go on,
  and an empty page says there is nothing more.
\<close>

theorem report_pages_miss_nothing:
  assumes "account_steps E T no_accounts a" "list_reports q after limit a = (page, nxt)" "0 < limit"
  shows "filter (\<lambda>r. report_seq r > after \<and> query_matches q r) (admission_reports a) =
           page @ filter (\<lambda>r. report_seq r > nxt \<and> query_matches q r) (admission_reports a) \<and>
         (page = [] \<longleftrightarrow> filter (\<lambda>r. report_seq r > after \<and> query_matches q r) (admission_reports a) = [])"
proof -
  have "reports_ok a" by (rule steps_reports [OF assms(1)]) (simp add: reports_ok_def no_accounts_def)
  from list_reports_split [OF this assms(2,3)] show ?thesis by (simp add: reports_after_def)
qed

definition desk_reported :: accounts where
  "desk_reported = snd (record_report desk_operator walk_request (desk_report\<lparr>ri_id := ''second''\<rparr>) None 5600
     (snd (record_report desk_operator walk_request desk_report None 5500 desk4)))"

lemma desk_reported_run: "account_steps walk_env 0 no_accounts desk_reported"
  unfolding desk_reported_def
  by (rule rtranclp.rtrancl_into_rtrancl, rule rtranclp.rtrancl_into_rtrancl, rule desk_run,
      rule account_step.Report [of _ 5500], simp, rule refl,
      rule account_step.Report [of _ 5600], simp, rule refl)

definition any_report :: report_query where
  "any_report = \<lparr>rq_event = None, rq_pass = None\<rparr>"

theorem report_pages_miss_nothing_witness:
  "snd (list_reports any_report 0 1 desk_reported) = 1 \<and>
   map report_id (filter (\<lambda>r. report_seq r > 0 \<and> query_matches any_report r) (admission_reports desk_reported)) =
     map report_id (fst (list_reports any_report 0 1 desk_reported) @
       filter (\<lambda>r. report_seq r > 1 \<and> query_matches any_report r) (admission_reports desk_reported)) \<and>
   map report_id (fst (list_reports any_report 0 1 desk_reported)) = [''report'']"
proof -
  have n: "snd (list_reports any_report 0 1 desk_reported) = 1"
    "map report_id (fst (list_reports any_report 0 1 desk_reported)) = [''report'']" by code_simp+
  have "list_reports any_report 0 1 desk_reported = (fst (list_reports any_report 0 1 desk_reported), 1)"
    using n(1) by (metis prod.collapse)
  from report_pages_miss_nothing [OF desk_reported_run this] n show ?thesis by simp
qed

end
