(* ===== verification/DerivedProperties.thy ===== *)
theory DerivedProperties
  imports ReadFacts FlagFacts CopyProperties AccountProperties
begin

text \<open>
  Properties of the reads of the derived copy: the loop over an event's reports ends with all
  of them, the flags of admissions rest on the part of the log read, and the index of events
  on sale is read page by page without a gap.
\<close>

section \<open>Admission flags\<close>

text \<open>
  C21. The loop over an event's admission reports ends, with every report recorded for the
  event, in the order received.
\<close>

theorem event_reports_are_all_read:
  assumes "account_steps E T no_accounts a"
  shows "reportsFor event a = Some (filter (\<lambda>r. report_event r = event) (admission_reports a))"
proof -
  have "reports_ok a" by (rule steps_reports [OF assms]) (simp add: reports_ok_def no_accounts_def)
  then show ?thesis by (rule reportsFor_all)
qed

theorem event_reports_are_all_read_witness:
  "map_option (map report_id) (reportsFor desk_event desk_reported) = Some [''report'', ''second'']"
proof -
  have "map report_id (filter (\<lambda>r. report_event r = desk_event) (admission_reports desk_reported)) =
      [''report'', ''second'']"
    by code_simp
  with event_reports_are_all_read [OF desk_reported_run, of desk_event] show ?thesis by simp
qed

text \<open>A door: a ticket issued to one holder and transferred, and two reports of its pass.\<close>

definition door_holder :: ident where "door_holder = replicate 64 CHR ''c''"

definition door_log :: "log_record list" where
  "door_log =
    [\<lparr>rec_cursor = ''c1'', rec_recorded_at = 10, rec_event = Some (desk_event, 0),
       rec_entry = CommandEntry (CmdCreateEvent desk_event None [] None) ''o1'', rec_presented_at = None\<rparr>,
     \<lparr>rec_cursor = ''c2'', rec_recorded_at = 20, rec_event = Some (desk_event, 1),
       rec_entry = CommandEntry (CmdIssueTicket \<lparr>iss_ticket = desk_event, iss_event = desk_event,
         iss_holder = door_holder, iss_class = ''k'', iss_provenance = Purchased, iss_zone = ''z'',
         iss_placement = Inl ''d'', iss_policy = Single, iss_cannot_resale = False,
         iss_cannot_transfer = False\<rparr>) ''o2'', rec_presented_at = None\<rparr>,
     \<lparr>rec_cursor = ''c3'', rec_recorded_at = 9000, rec_event = Some (desk_event, 2),
       rec_entry = CommandEntry (CmdTransferTicket desk_event desk_event ''bob'') ''o3'', rec_presented_at = None\<rparr>]"

definition door_copy :: copy where
  "door_copy = (case replay gig_owner (\<lambda>_. None) door_log of Inr c \<Rightarrow> c | Inl _ \<Rightarrow> empty_copy)"

lemma door_replay: "replay gig_owner (\<lambda>_. None) (take 3 door_log) = Inr door_copy"
proof -
  have "isl (replay gig_owner (\<lambda>_. None) door_log) = False" by code_simp
  then have "replay gig_owner (\<lambda>_. None) door_log = Inr door_copy"
    by (auto simp: door_copy_def split: sum.split)
  then show ?thesis by (simp add: door_log_def)
qed

definition door_limits :: recording_limits where
  "door_limits = \<lparr>maxPassWindow = 1000, maxRecordingLag = 1000\<rparr>"

definition door_flags :: "accounts \<Rightarrow> admission_flag list" where
  "door_flags a =
     (let own = filter (\<lambda>r. report_organiser r = ''org'')
        (filter (\<lambda>r. report_event r = desk_event) (admission_reports a)) in
      List.map_filter (\<lambda>r. flag_of door_limits (freshnessOf door_copy) door_copy own r) own)"

lemma door_flags_matched:
  assumes "account_steps E T no_accounts a"
  shows "matchAdmissionFlags door_limits (freshnessOf door_copy) (\<lambda>_. door_copy) a ''org'' desk_event =
    Some (door_flags a)"
proof -
  have "reports_ok a" by (rule steps_reports [OF assms]) (simp add: reports_ok_def no_accounts_def)
  then show ?thesis by (simp add: door_flags_def matchAdmissionFlags_def reportsFor_all)
qed

lemma door_seen: "\<exists>m. 3 \<le> m \<and> m \<le> length door_log \<and> replay gig_owner (\<lambda>_. None) (take m door_log) = Inr door_copy"
  using door_replay by (intro exI [of _ 3]) (simp add: door_log_def)

text \<open>
  C19. A flag that says an admission was never recorded is true of the log: none of the records
  the answer says the copy has read consumed the pass, and the last of them is later than
  the pass could still be recorded.
\<close>

theorem unrecorded_flags_are_unrecorded:
  assumes "account_steps E T no_accounts a" "n \<le> length rs"
    and "replay own reg (take n rs) = Inr head"
    and "\<And>r. \<exists>m. n \<le> m \<and> m \<le> length rs \<and> replay own reg (take m rs) = Inr (seen r)"
    and "matchAdmissionFlags lim (freshnessOf head) seen a organiser event = Some flags"
    and "f \<in> set flags" "fl_cause f = NotRecorded"
  shows "0 < n \<and> rec_recorded_at (rs ! (n - 1)) > fl_presented f + maxPassWindow lim + maxRecordingLag lim \<and>
    (\<forall>k<n. \<forall>p. rec_entry (rs ! k) = PassEntry p \<longrightarrow>
       \<not> (pass_ticket p = fl_ticket f \<and> pass_id p = fl_pass f))"
proof -
  have "reports_ok a" by (rule steps_reports [OF assms(1)]) (simp add: reports_ok_def no_accounts_def)
  from matched_flag [OF this assms(5,6)] obtain r mine where
    f: "flag_of lim (freshnessOf head) (seen r) mine r = Some f" by blast
  from flag_of_fields(6) [OF f] assms(7) obtain d where
    d: "recording_deadline lim (freshnessOf head) (seen r) r = Some d"
    by (auto dest: cause_not_recorded)
  note D = recording_deadline_Some [OF d]
  have fr: "fr_records (freshnessOf head) = n"
    "fr_last (freshnessOf head) = (if n = 0 then None else Some (rec_recorded_at (rs ! (n - 1))))"
    using freshness_of_replay [OF assms(3)] assms(2) by (auto simp: last_conv_nth min_def)
  have late: "0 < n \<and> rec_recorded_at (rs ! (n - 1)) > d"
    using D(2) fr(2) by (auto split: if_splits)
  have "\<not> (pass_ticket p = fl_ticket f \<and> pass_id p = fl_pass f)"
    if k: "k < n" "rec_entry (rs ! k) = PassEntry p" for k p
  proof
    assume p: "pass_ticket p = fl_ticket f \<and> pass_id p = fl_pass f"
    from assms(4) obtain m where m: "n \<le> m" "m \<le> length rs" "replay own reg (take m rs) = Inr (seen r)"
      by blast
    from consumed_in_replay [OF m(3,2,1) k] obtain x where
      "fst (consumedPass (seen r) (pass_ticket p) (pass_id p)) = Some x" "pr_sequence x = k" by blast
    with D(3) [of x] p flag_of_fields(2,3) [OF f] fr(1) k(1) show False by simp
  qed
  with late D(1) flag_of_fields(4) [OF f] show ?thesis by simp
qed

theorem unrecorded_flags_are_unrecorded_witness:
  "map fl_cause (door_flags desk_reported) = [NotRecorded, NotRecorded] \<and>
   rec_recorded_at (door_log ! 2) > fl_presented (hd (door_flags desk_reported)) + 1000 + 1000"
proof -
  have causes: "map fl_cause (door_flags desk_reported) = [NotRecorded, NotRecorded]" by code_simp
  then have "hd (door_flags desk_reported) \<in> set (door_flags desk_reported)"
    "fl_cause (hd (door_flags desk_reported)) = NotRecorded"
    by (cases "door_flags desk_reported"; simp)+
  from unrecorded_flags_are_unrecorded [OF desk_reported_run _ door_replay door_seen
      door_flags_matched [OF desk_reported_run] this] causes
  show ?thesis by (simp add: door_limits_def door_log_def)
qed

text \<open>
  C20. A flag that blames a transfer names one: each of its transfers is in the part of the log
  read, no earlier than the presentation less the gate's tolerance, and took the ticket from
  the holder the gate reported, who held it until then.
\<close>

theorem transfer_flags_rest_on_the_log:
  assumes "account_steps E T no_accounts a" "n \<le> length rs"
    and "replay own reg (take n rs) = Inr head"
    and "\<And>r. \<exists>m. n \<le> m \<and> m \<le> length rs \<and> replay own reg (take m rs) = Inr (seen r)"
    and "matchAdmissionFlags lim (freshnessOf head) seen a organiser event = Some flags"
    and "f \<in> set flags" "fl_cause f = TransferBeforeRecording"
  shows "fl_transfers f \<noteq> [] \<and> (\<forall>x\<in>set (fl_transfers f).
    ft_sequence x < n \<and> (\<exists>e. transfers_to (fl_ticket f) e (ft_to x) (rs ! ft_sequence x)) \<and>
    rec_recorded_at (rs ! ft_sequence x) \<ge> fl_presented f - GATE_CLOCK_TOLERANCE_MS \<and>
    holder_after (fl_ticket f) (take (ft_sequence x) rs) = Some (ft_from x) \<and>
    (\<exists>r\<in>set (admission_reports a). report_id r = fl_report f \<and> report_holder r = Some (ft_from x)))"
proof -
  have "reports_ok a" by (rule steps_reports [OF assms(1)]) (simp add: reports_ok_def no_accounts_def)
  from matched_flag [OF this assms(5,6)] obtain r mine where r: "r \<in> set (admission_reports a)"
    and f: "flag_of lim (freshnessOf head) (seen r) mine r = Some f" by blast
  from flag_of_fields(6) [OF f] obtain others d where
    c: "flag_cause_of (freshnessOf head) (seen r) others d r = (fl_cause f, fl_transfers f)" by blast
  from assms(4) obtain m where m: "n \<le> m" "m \<le> length rs" "replay own reg (take m rs) = Inr (seen r)"
    by blast
  have fr: "fr_records (freshnessOf head) = n"
    using freshness_of_replay(1) [OF assms(3)] assms(2) by simp
  show ?thesis
  proof (intro conjI ballI)
    show "fl_transfers f \<noteq> []" using cause_transfer_explained c assms(7) by simp
  next
    fix x
    assume x: "x \<in> set (fl_transfers f)"
    from cause_transfers [OF c x] obtain holder where
      h: "report_holder r = Some holder" "x \<in> set (explaining_transfers (freshnessOf head) (seen r) r holder)" .
    from explaining_transfer [OF m(3,2,1) fr h(2)] flag_of_fields(1,2,4) [OF f] r h(1)
    show "ft_sequence x < n" "\<exists>e. transfers_to (fl_ticket f) e (ft_to x) (rs ! ft_sequence x)"
      "rec_recorded_at (rs ! ft_sequence x) \<ge> fl_presented f - GATE_CLOCK_TOLERANCE_MS"
      "holder_after (fl_ticket f) (take (ft_sequence x) rs) = Some (ft_from x)"
      "\<exists>r\<in>set (admission_reports a). report_id r = fl_report f \<and> report_holder r = Some (ft_from x)"
      by auto
  qed
qed

definition desk_refused :: accounts where
  "desk_refused = snd (record_report desk_operator walk_request (desk_report\<lparr>ri_holder := Some door_holder,
     ri_verdict := Admitted (AdmissionRejected ''ERR-InvalidPass'')\<rparr>) None 5500 desk4)"

theorem transfer_flags_rest_on_the_log_witness:
  "map fl_cause (door_flags desk_refused) = [TransferBeforeRecording] \<and>
   map ft_sequence (fl_transfers (hd (door_flags desk_refused))) = [2] \<and>
   holder_after desk_event (take 2 door_log) = Some door_holder"
proof -
  have run: "account_steps walk_env 0 no_accounts desk_refused"
    unfolding desk_refused_def
    by (rule rtranclp.rtrancl_into_rtrancl, rule desk_run, rule account_step.Report [of _ 5500], simp, rule refl)
  let ?f = "hd (door_flags desk_refused)"
  have causes: "map fl_cause (door_flags desk_refused) = [TransferBeforeRecording]" by code_simp
  have ts: "map (\<lambda>x. (ft_sequence x, ft_from x)) (fl_transfers ?f) = [(2, door_holder)]"
    "fl_ticket ?f = desk_event" by code_simp+
  from causes have "?f \<in> set (door_flags desk_refused)" "fl_cause ?f = TransferBeforeRecording"
    by (cases "door_flags desk_refused"; simp)+
  note transfer_flags_rest_on_the_log [OF run _ door_replay door_seen door_flags_matched [OF run] this]
  then have "\<forall>x\<in>set (fl_transfers ?f). holder_after (fl_ticket ?f) (take (ft_sequence x) door_log) = Some (ft_from x)"
    by (auto simp: door_log_def)
  then show ?thesis using ts causes by (cases "fl_transfers ?f") auto
qed

section \<open>Events on sale\<close>

text \<open>Every event on sale from a page token on, newest first.\<close>

definition on_sale_listing :: "store \<Rightarrow> copy \<Rightarrow> string option \<Rightarrow> copy_event list" where
  "on_sale_listing s c page = (case page of None \<Rightarrow> map fst (on_sale_after s c None)
     | Some token \<Rightarrow> (case page_positionOf token of None \<Rightarrow> []
         | Some p \<Rightarrow> map fst (on_sale_after s c (Some p))))"

text \<open>A page is the first part of what is on sale from it on, and names where the rest begins.\<close>

lemma take_take_Suc: "take n (take (Suc n) xs) = take n xs"
  by (simp add: min_def)

lemma page_is_first_part:
  assumes "0 < limit" "eventsOnSalePage limit page s c = Inr (shown, nxt, fr)"
  obtains after where "on_sale_listing s c page = map fst (on_sale_after s c after)"
    "shown = map fst (take limit (on_sale_after s c after))"
    "nxt = (if length (on_sale_after s c after) > limit
      then Some (pageOf (snd (last (take limit (on_sale_after s c after))))) else None)"
proof (cases page)
  case None
  show thesis
    by (rule that [of None]; use None assms in \<open>auto simp: eventsOnSalePage_def eventsOnSale_eq Let_def
      on_sale_listing_def take_take_Suc simp del: take_take split: if_splits\<close>)
next
  case (Some token)
  with assms(2) obtain p where p: "page_positionOf token = Some p"
    by (auto simp: eventsOnSalePage_def Let_def split: option.splits)
  show thesis
    by (rule that [of "Some p"]; use Some p assms in \<open>auto simp: eventsOnSalePage_def eventsOnSale_eq Let_def
      on_sale_listing_def take_take_Suc simp del: take_take split: if_splits\<close>)
qed

lemma page_token_reads_back:
  assumes "replay own reg rs = Inr c" "length rs \<le> MAX_SAFE_SEQUENCE" "x \<in> set (on_sale_after s c after)"
    and "\<And>x. x \<in> set (cp_events c) \<Longrightarrow> valid_identifier (ce_id x) \<noteq> None"
  shows "on_sale_listing s c (Some (pageOf (snd x))) = map fst (on_sale_after s c (Some (snd x)))"
proof -
  from assms(3) have "x \<in> set (on_sale_positions (ticket_classes s) c)" by (auto simp: on_sale_after_def)
  from replay_positions(2,3) [OF assms(1) this] assms(2,4)
  have "page_positionOf (pageOf (snd x)) = Some (snd x)"
    by (cases "snd x") (auto intro!: page_positionOf_pageOf)
  then show ?thesis by (simp add: on_sale_listing_def)
qed

text \<open>
  C22. The index of events on sale is read page by page without a gap or a repetition: what is
  on sale from a page on is the page's events followed by what is on sale from the page it
  names next, and a page that names none is the last.
\<close>

theorem on_sale_pages_leave_no_gap:
  assumes "replay own reg rs = Inr c" "length rs \<le> MAX_SAFE_SEQUENCE" "0 < limit"
    and "\<And>x. x \<in> set (cp_events c) \<Longrightarrow> valid_identifier (ce_id x) \<noteq> None"
    and "eventsOnSalePage limit page s c = Inr (shown, nxt, fr)"
  shows "on_sale_listing s c page = shown @ (case nxt of None \<Rightarrow> [] | Some token \<Rightarrow> on_sale_listing s c (Some token)) \<and>
    length shown \<le> limit"
proof -
  obtain after where after: "on_sale_listing s c page = map fst (on_sale_after s c after)"
    and shown: "shown = map fst (take limit (on_sale_after s c after))"
    and nxt: "nxt = (if length (on_sale_after s c after) > limit
      then Some (pageOf (snd (last (take limit (on_sale_after s c after))))) else None)"
    using page_is_first_part [OF assms(3,5)] .
  define rows where "rows = on_sale_after s c after"
  define part where "part = take limit rows"
  have shown': "shown = map fst part" by (simp add: shown part_def rows_def)
  show ?thesis
  proof (cases "length rows > limit")
    case False
    then show ?thesis using after shown nxt by (simp add: rows_def)
  next
    case True
    then have part: "part \<noteq> []" using assms(3) by (auto simp: part_def)
    have rest: "rows = part @ on_sale_after s c (Some (snd (last part)))"
      using on_sale_rest [OF replay_positions(1) [OF assms(1)], of part limit s after] part by (simp add: rows_def part_def)
    have "last part \<in> set rows" using part by (metis part_def in_set_takeD last_in_set)
    note page_token_reads_back [OF assms(1,2) this [unfolded rows_def] assms(4)]
    moreover have "nxt = Some (pageOf (snd (last part)))" using nxt True by (simp add: part_def rows_def)
    moreover have "map fst rows = shown @ map fst (on_sale_after s c (Some (snd (last part))))"
      using rest shown' by (metis map_append)
    ultimately show ?thesis using after shown by (simp add: rows_def)
  qed
qed

definition door_class :: class_row where
  "door_class = \<lparr>class_id = ''k'', class_event = desk_event, class_name = ''Door'', class_description = None,
     class_provenance = Purchased, class_policy = Single, cannot_resale = False, cannot_transfer = False,
     quota = None, price = None, price_set_at = None, class_created_at = 0\<rparr>"

theorem on_sale_pages_leave_no_gap_witness:
  "map ce_id (on_sale_listing (empty_store\<lparr>ticket_classes := [door_class]\<rparr>) door_copy None) = [desk_event]"
proof -
  let ?s = "empty_store\<lparr>ticket_classes := [door_class]\<rparr>"
  obtain shown nxt fr where page: "eventsOnSalePage 1 None ?s door_copy = Inr (shown, nxt, fr)"
    by (cases "eventsOnSalePage 1 None ?s door_copy") (auto simp: eventsOnSalePage_def Let_def split: prod.splits)
  have val: "map_sum id (\<lambda>(es, n, _). (map ce_id es, n)) (eventsOnSalePage 1 None ?s door_copy) =
      Inr ([desk_event], None)" by code_simp
  have ids: "list_all (\<lambda>x. valid_identifier (ce_id x) \<noteq> None) (cp_events door_copy)" by code_simp
  have "valid_identifier (ce_id x) \<noteq> None" if "x \<in> set (cp_events door_copy)" for x
    using ids that by (simp add: list_all_iff)
  from on_sale_pages_leave_no_gap [OF door_replay _ _ this page] page val
  show ?thesis by (simp add: MAX_SAFE_SEQUENCE_def)
qed

end
