(* ===== verification/Sponsor.thy ===== *)
theory Sponsor
  imports Accounts
begin

text \<open>
  The sponsor relay: what it sponsors (\<open>src/sponsor/entitlements.ts\<close>), the request that asks
  for it (\<open>src/sponsor/relay.ts\<close>), and its configuration (\<open>src/sponsor/config.ts\<close>).  The
  profile's encodings and signatures, the derived copy's reads and the decoding of signed
  inputs are parameters.
\<close>

section \<open>Inputs and reads\<close>

datatype owner_kind = SetEventStatus | SetEventCapacity | AddZone | RemoveZone | RemoveRestriction

text \<open>A command, with the fields a decision reads.\<close>

datatype command =
    OwnerCommand owner_kind ident
  | CreateEvent ident string
  | IssueTicket ident
  | TransferTicket ident ident
  | RegisterCredential ident string
  | OtherCommand string

datatype signed_input =
    SignedCommand ident command string
  | SignedPass ident ident string

definition input_authorisation :: "signed_input \<Rightarrow> string" where
  "input_authorisation i = (case i of SignedCommand _ _ a \<Rightarrow> a | SignedPass _ _ a \<Rightarrow> a)"

record profile =
  p_accountOf :: "string \<Rightarrow> (ident \<times> ident) option"
  p_registrationAccount :: "string \<Rightarrow> (ident \<times> ident) option"
  p_payload :: "signed_input \<Rightarrow> string"
  p_verify :: "string \<Rightarrow> string \<Rightarrow> string \<Rightarrow> bool"
  p_eventId :: "ident \<Rightarrow> string \<Rightarrow> ident"

record derived_event = de_owner :: ident  de_status :: event_status

record derived_ticket =
  dtk_id :: ident
  dtk_event :: ident
  dtk_holder :: ident
  dtk_cannot_transfer :: bool

record derived_reads =
  d_credentials :: "ident \<Rightarrow> ident list"
  d_credential :: "ident \<Rightarrow> ident \<Rightarrow> string option"
  d_event :: "ident \<Rightarrow> derived_event option"
  d_ticket :: "ident \<Rightarrow> derived_ticket option"
  d_isOrganiser :: "ident \<Rightarrow> bool"

section \<open>Decisions\<close>

datatype entitlement =
    EventOwned ident ident
  | EventCreated ident ident
  | TicketHeld ident ident
  | AccountCreation ident
  | PassTicketLive ident ident

datatype refusal_reason =
    NamesNoAccount | FirstRegistration | NotRegistered | NotVerified | NoEvent | NotEventOwner
  | NotDerivedFromSigner | NotOrganiserAccount | NoTicket | NotTicketHolder | CannotTransfer
  | TooManyRegistrations | NoEntitlement | EventOver

datatype decision = Entitled entitlement | NotEntitled refusal_reason

record rate_limit =
  max_registrations :: nat
  limit_window :: time

text \<open>Sponsored registrations per account, by when they were sponsored: a \<open>Map\<close>.\<close>

type_synonym registrations = "(ident \<times> time list) list"

definition SWEEP_THRESHOLD :: nat where "SWEEP_THRESHOLD = 10000"

definition lookup_times :: "registrations \<Rightarrow> ident \<Rightarrow> time list" where
  "lookup_times m a = (case map_of m a of None \<Rightarrow> [] | Some ts \<Rightarrow> ts)"

text \<open>\<open>Map.set\<close>: an entry keeps its place.\<close>

definition map_set :: "ident \<Rightarrow> time list \<Rightarrow> registrations \<Rightarrow> registrations" where
  "map_set a ts m = (if map_of m a = None then m @ [(a, ts)]
     else map (\<lambda>(k, v). if k = a then (k, ts) else (k, v)) m)"

definition sweep_registrations :: "time \<Rightarrow> time \<Rightarrow> registrations \<Rightarrow> registrations" where
  "sweep_registrations window at m = (if length m < SWEEP_THRESHOLD then m
     else filter (\<lambda>(_, ts). \<not> list_all (\<lambda>t. t \<le> at - window) ts) m)"

text \<open>The constructor refuses a limit that is not positive.\<close>

definition limit_ok :: "rate_limit \<Rightarrow> bool" where
  "limit_ok l \<longleftrightarrow> 1 \<le> max_registrations l \<and> 1 \<le> limit_window l"

definition register_decision ::
  "rate_limit \<Rightarrow> ident \<Rightarrow> time \<Rightarrow> registrations \<Rightarrow> decision \<times> registrations" where
  "register_decision l a at m =
     (let m1 = sweep_registrations (limit_window l) at m;
          recent = filter (\<lambda>t. t > at - limit_window l) (lookup_times m1 a) in
      if length recent \<ge> max_registrations l
      then (NotEntitled TooManyRegistrations, map_set a recent m1)
      else (Entitled (AccountCreation a), map_set a (recent @ [at]) m1))"

definition first_registration ::
  "profile \<Rightarrow> signed_input \<Rightarrow> ident \<Rightarrow> ident \<Rightarrow> string \<Rightarrow> refusal_reason + ident" where
  "first_registration P i account credential registration =
     (if p_registrationAccount P registration = Some (account, credential) \<and>
         p_verify P registration (p_payload P i) (input_authorisation i)
      then Inr account else Inl FirstRegistration)"

definition registered_signer ::
  "profile \<Rightarrow> derived_reads \<Rightarrow> signed_input \<Rightarrow> ident \<Rightarrow> ident \<Rightarrow> refusal_reason + ident" where
  "registered_signer P D i account credential =
     (case d_credential D account credential of None \<Rightarrow> Inl NotRegistered
      | Some registration \<Rightarrow>
          if p_verify P registration (p_payload P i) (input_authorisation i)
          then Inr account else Inl NotVerified)"

definition verifiedSigner ::
  "profile \<Rightarrow> derived_reads \<Rightarrow> signed_input \<Rightarrow> refusal_reason + ident" where
  "verifiedSigner P D i =
     (case p_accountOf P (input_authorisation i) of None \<Rightarrow> Inl NamesNoAccount
      | Some (account, credential) \<Rightarrow>
          (case i of
             SignedCommand _ (RegisterCredential named registration) _ \<Rightarrow>
               if named = account \<and> d_credentials D account = []
               then first_registration P i account credential registration
               else registered_signer P D i account credential
           | _ \<Rightarrow> registered_signer P D i account credential))"

definition ownedBy :: "derived_reads \<Rightarrow> ident \<Rightarrow> ident \<Rightarrow> decision" where
  "ownedBy D e signer = (case d_event D e of None \<Rightarrow> NotEntitled NoEvent
     | Some ev \<Rightarrow> if de_owner ev \<noteq> signer then NotEntitled NotEventOwner
                 else Entitled (EventOwned e (de_owner ev)))"

definition decideTransfer :: "derived_reads \<Rightarrow> ident \<Rightarrow> ident \<Rightarrow> ident \<Rightarrow> decision" where
  "decideTransfer D ticket e signer = (case d_ticket D ticket of None \<Rightarrow> NotEntitled NoTicket
     | Some tk \<Rightarrow> if dtk_event tk \<noteq> e then NotEntitled NoTicket
         else if dtk_holder tk \<noteq> signer then NotEntitled NotTicketHolder
         else if dtk_cannot_transfer tk then NotEntitled CannotTransfer
         else Entitled (TicketHeld (dtk_id tk) signer))"

definition decideCommand ::
  "profile \<Rightarrow> derived_reads \<Rightarrow> rate_limit \<Rightarrow> command \<Rightarrow> ident \<Rightarrow> time \<Rightarrow> registrations \<Rightarrow>
     decision \<times> registrations" where
  "decideCommand P D l c signer at m = (case c of
       OwnerCommand _ e \<Rightarrow> (ownedBy D e signer, m)
     | CreateEvent e salt \<Rightarrow>
         (if p_eventId P signer salt \<noteq> e then NotEntitled NotDerivedFromSigner
          else if \<not> d_isOrganiser D signer then NotEntitled NotOrganiserAccount
          else Entitled (EventCreated e signer), m)
     | IssueTicket e \<Rightarrow> (ownedBy D e signer, m)
     | TransferTicket ticket e \<Rightarrow> (decideTransfer D ticket e signer, m)
     | RegisterCredential account _ \<Rightarrow> register_decision l account at m
     | OtherCommand _ \<Rightarrow> (NotEntitled NoEntitlement, m))"

definition decidePass :: "derived_reads \<Rightarrow> ident \<Rightarrow> decision" where
  "decidePass D ticket = (case d_ticket D ticket of None \<Rightarrow> NotEntitled NoTicket
     | Some tk \<Rightarrow> (case d_event D (dtk_event tk) of None \<Rightarrow> NotEntitled NoEvent
         | Some ev \<Rightarrow> if de_status ev = Cancelled \<or> de_status ev = Finished then NotEntitled EventOver
                     else Entitled (PassTicketLive (dtk_id tk) (dtk_event tk))))"

definition decide ::
  "profile \<Rightarrow> derived_reads \<Rightarrow> rate_limit \<Rightarrow> signed_input \<Rightarrow> time \<Rightarrow> registrations \<Rightarrow>
     decision \<times> registrations" where
  "decide P D l i at m = (case verifiedSigner P D i of
       Inl reason \<Rightarrow> (NotEntitled reason, m)
     | Inr signer \<Rightarrow> (case i of
           SignedCommand _ c _ \<Rightarrow> decideCommand P D l c signer at m
         | SignedPass _ ticket _ \<Rightarrow> (decidePass D ticket, m)))"

section \<open>The request\<close>

datatype sponsor_reply =
    Malformed | Lagging | RefusedSponsorship refusal_reason | Sponsored entitlement

text \<open>The characters of a log cursor.\<close>

definition cursor_char :: "char \<Rightarrow> bool" where
  "cursor_char c \<longleftrightarrow> (let n = of_char c :: nat in
     (65 \<le> n \<and> n \<le> 90) \<or> (97 \<le> n \<and> n \<le> 122) \<or> (48 \<le> n \<and> n \<le> 57)) \<or> c \<in> set ''._~-''"

definition cursor_ok :: "string \<Rightarrow> bool" where
  "cursor_ok s \<longleftrightarrow> length s \<le> 128 \<and> list_all cursor_char s"

definition hex_bytes :: "string \<Rightarrow> string option" where
  "hex_bytes s = (if even (length s) \<and> list_all is_hex s then Some (of_hex s) else None)"

text \<open>What a request body holds, where its types are as expected; \<open>None\<close> where not.\<close>

record sponsor_body =
  body_kind :: string
  body_bytes :: string
  body_after :: "string option option"

definition inputOf ::
  "(string \<Rightarrow> signed_input option) \<Rightarrow> (string \<Rightarrow> signed_input option) \<Rightarrow> sponsor_body \<Rightarrow> signed_input option" where
  "inputOf decodeCommand decodePass b = (case hex_bytes (body_bytes b) of None \<Rightarrow> None
     | Some bytes \<Rightarrow> if body_kind b = ''command'' then decodeCommand bytes
                    else if body_kind b = ''pass'' then decodePass bytes else None)"

text \<open>\<open>None\<close>: malformed; \<open>Some None\<close>: absent.\<close>

definition afterOf :: "sponsor_body \<Rightarrow> string option option" where
  "afterOf b = (case body_after b of None \<Rightarrow> Some None
     | Some None \<Rightarrow> None
     | Some (Some c) \<Rightarrow> if cursor_ok c then Some (Some c) else None)"

text \<open>
  A refusal the copy's lag may explain is decided again, on the copy as it is once it
  reflects the submitter's cursor: \<open>D\<close> and \<open>D'\<close> are the copy at the two decisions.
\<close>

definition sponsor_decision ::
  "profile \<Rightarrow> derived_reads \<Rightarrow> derived_reads \<Rightarrow> rate_limit \<Rightarrow> signed_input \<Rightarrow> string option \<Rightarrow> bool \<Rightarrow>
     time \<Rightarrow> time \<Rightarrow> registrations \<Rightarrow> sponsor_reply \<times> registrations" where
  "sponsor_decision P D D' l i after waited at at' m =
     (case decide P D l i at m of
        (Entitled e, m1) \<Rightarrow> (Sponsored e, m1)
      | (NotEntitled reason, m1) \<Rightarrow>
          if after = None then (RefusedSponsorship reason, m1)
          else if \<not> waited then (Lagging, m1)
          else (case decide P D' l i at' m1 of
              (Entitled e, m2) \<Rightarrow> (Sponsored e, m2)
            | (NotEntitled reason', m2) \<Rightarrow> (RefusedSponsorship reason', m2)))"

definition sponsor_request ::
  "profile \<Rightarrow> derived_reads \<Rightarrow> derived_reads \<Rightarrow> rate_limit \<Rightarrow>
     (string \<Rightarrow> signed_input option) \<Rightarrow> (string \<Rightarrow> signed_input option) \<Rightarrow> sponsor_body \<Rightarrow>
     bool \<Rightarrow> time \<Rightarrow> time \<Rightarrow> registrations \<Rightarrow> sponsor_reply \<times> registrations" where
  "sponsor_request P D D' l decodeCommand decodePass b waited at at' m =
     (case inputOf decodeCommand decodePass b of None \<Rightarrow> (Malformed, m)
      | Some i \<Rightarrow> (case afterOf b of None \<Rightarrow> (Malformed, m)
          | Some after \<Rightarrow> sponsor_decision P D D' l i after waited at at' m))"

section \<open>The rate limit\<close>

fun sponsor_run ::
  "profile \<Rightarrow> rate_limit \<Rightarrow> (derived_reads \<times> signed_input \<times> time) list \<Rightarrow> registrations \<Rightarrow>
     (decision \<times> time) list" where
  "sponsor_run P l [] m = []"
| "sponsor_run P l ((D, i, at) # rest) m =
     (let (d, m') = decide P D l i at m in (d, at) # sponsor_run P l rest m')"

text \<open>When registrations of an account were sponsored.\<close>

definition sponsored_at :: "ident \<Rightarrow> (decision \<times> time) list \<Rightarrow> time list" where
  "sponsored_at a ds = map snd (filter (\<lambda>(d, _). d = Entitled (AccountCreation a)) ds)"

end
