(* ===== verification/SponsorFacts.thy ===== *)
theory SponsorFacts
  imports Sponsor
begin

text \<open>
  What the sponsor relay sponsors (\<open>Sponsor\<close>): the signer of a sponsored input is verified
  and entitled, and the registrations sponsored for one account stay within the limit over
  every window of time, whatever the sweep of the counting map forgets.
\<close>

section \<open>The counting map\<close>

lemma map_of_map_value:
  "map_of (map (\<lambda>(k, v). if k = a then (k, ts) else (k, v)) m) =
     (map_of m)(a := if map_of m a = None then None else Some ts)"
  by (induction m) (auto simp: fun_eq_iff)

lemma map_of_append_new:
  "map_of m a = None \<Longrightarrow> map_of (m @ [(a, ts)]) = (map_of m)(a \<mapsto> ts)"
  by (induction m) (auto split: if_splits)

lemma map_of_map_set: "map_of (map_set a ts m) = (map_of m)(a \<mapsto> ts)"
proof (cases "map_of m a")
  case None
  then show ?thesis by (simp add: map_set_def map_of_append_new del: map_of_append)
next
  case (Some v)
  then show ?thesis by (simp only: map_set_def map_of_map_value option.distinct if_False)
qed

lemma lookup_map_set: "lookup_times (map_set a ts m) b = (if b = a then ts else lookup_times m b)"
  by (simp add: lookup_times_def map_of_map_set)

lemma distinct_map_set: "distinct (map fst m) \<Longrightarrow> distinct (map fst (map_set a ts m))"
proof -
  assume m: "distinct (map fst m)"
  have "map fst (map (\<lambda>(k, v). if k = a then (k, ts) else (k, v)) m) = map fst m"
    by (induction m) auto
  moreover have "a \<notin> fst ` set m" if "map_of m a = None"
    using that by (simp add: map_of_eq_None_iff)
  ultimately show ?thesis using m
    by (cases "map_of m a") (simp_all add: map_set_def del: map_map)
qed

lemma map_of_filter_distinct:
  "distinct (map fst m) \<Longrightarrow>
   map_of (filter P m) a = (case map_of m a of None \<Rightarrow> None
     | Some v \<Rightarrow> if P (a, v) then Some v else None)"
proof (induction m)
  case (Cons kv m)
  obtain k v where kv: "kv = (k, v)" by (cases kv)
  have "map_of m a = None" if "a = k"
    using Cons.prems that by (auto simp: kv map_of_eq_None_iff image_iff)
  then show ?case using Cons by (auto simp: kv split: option.splits)
qed simp

lemma distinct_sweep:
  "distinct (map fst m) \<Longrightarrow> distinct (map fst (sweep_registrations w at m))"
  by (auto simp: sweep_registrations_def distinct_map_filter)

text \<open>The sweep forgets no registration inside the window.\<close>

lemma sweep_recent:
  assumes "distinct (map fst m)"
  shows "filter (\<lambda>s. at - w < s) (lookup_times (sweep_registrations w at m) a) =
    filter (\<lambda>s. at - w < s) (lookup_times m a)"
proof (cases "map_of m a")
  case None
  then show ?thesis using map_of_filter_distinct[OF assms]
    by (simp add: lookup_times_def sweep_registrations_def)
next
  case (Some ts)
  have "filter (\<lambda>s. at - w < s) ts = []" if "list_all (\<lambda>t. t \<le> at - w) ts"
    using that by (auto simp: list_all_iff filter_empty_conv not_less)
  then show ?thesis using map_of_filter_distinct[OF assms] Some
    by (auto simp: lookup_times_def sweep_registrations_def)
qed

section \<open>The rate limit\<close>

definition counts_recent :: "ident \<Rightarrow> rate_limit \<Rightarrow> time \<Rightarrow> time list \<Rightarrow> registrations \<Rightarrow> bool" where
  "counts_recent a l now S m \<longleftrightarrow> distinct (map fst m) \<and> (\<forall>s\<in>set S. s \<le> now) \<and>
     filter (\<lambda>s. now - limit_window l < s) (lookup_times m a) =
     filter (\<lambda>s. now - limit_window l < s) S"

definition within_limit :: "rate_limit \<Rightarrow> time list \<Rightarrow> bool" where
  "within_limit l S \<longleftrightarrow> (\<forall>t. length (filter (\<lambda>s. t - limit_window l < s \<and> s \<le> t) S) \<le> max_registrations l)"

lemma filter_later:
  fixes a b :: time
  assumes "a \<le> b" "filter (\<lambda>s. a < s) xs = filter (\<lambda>s. a < s) ys"
  shows "filter (\<lambda>s. b < s) xs = filter (\<lambda>s. b < s) ys"
proof -
  have "filter (\<lambda>s. b < s) zs = filter (\<lambda>s. b < s) (filter (\<lambda>s. a < s) zs)" for zs
    using assms(1) by (auto intro: filter_cong)
  with assms(2) show ?thesis by metis
qed

lemma counts_recent_later:
  assumes "counts_recent a l now S m" "now \<le> t"
  shows "counts_recent a l t S m"
  using assms filter_later[of "now - limit_window l" "t - limit_window l" "lookup_times m a" S]
  by (auto simp: counts_recent_def)

lemma counts_recent_register:
  assumes "counts_recent a l t S m" "limit_ok l" "register_decision l b t m = (d, m')"
  shows "counts_recent a l t (if d = Entitled (AccountCreation a) then S @ [t] else S) m'"
proof -
  let ?w = "limit_window l"
  let ?m1 = "sweep_registrations ?w t m"
  let ?recent = "filter (\<lambda>s. s > t - ?w) (lookup_times ?m1 b)"
  have m: "distinct (map fst m)" and S: "\<forall>s\<in>set S. s \<le> t"
    and same: "filter (\<lambda>s. t - ?w < s) (lookup_times m a) = filter (\<lambda>s. t - ?w < s) S"
    using assms(1) by (auto simp: counts_recent_def)
  have w: "0 < ?w" using assms(2) by (simp add: limit_ok_def)
  have swept: "filter (\<lambda>s. t - ?w < s) (lookup_times ?m1 a) = filter (\<lambda>s. t - ?w < s) S"
    using sweep_recent[OF m, of t ?w a] same by simp
  have set: "distinct (map fst (map_set b ts ?m1))" for ts
    by (rule distinct_map_set[OF distinct_sweep[OF m]])
  show ?thesis
  proof (cases "max_registrations l \<le> length ?recent")
    case True
    with assms(3) have "d = NotEntitled TooManyRegistrations" "m' = map_set b ?recent ?m1"
      by (auto simp: register_decision_def Let_def)
    with set swept S show ?thesis by (auto simp: counts_recent_def lookup_map_set)
  next
    case False
    with assms(3) have "d = Entitled (AccountCreation b)" "m' = map_set b (?recent @ [t]) ?m1"
      by (auto simp: register_decision_def Let_def)
    with set swept S w show ?thesis by (simp add: counts_recent_def lookup_map_set)
  qed
qed

lemma decide_other:
  assumes "decide P D l i t m = (d, m')"
  shows "(\<exists>b. register_decision l b t m = (d, m')) \<or>
    (m' = m \<and> (\<forall>a. d \<noteq> Entitled (AccountCreation a)))"
  using assms
  by (auto simp: decide_def decideCommand_def decideTransfer_def decidePass_def ownedBy_def
      split: sum.splits signed_input.splits command.splits option.splits if_splits)

lemma counts_recent_decide:
  assumes "counts_recent a l t S m" "limit_ok l" "decide P D l i t m = (d, m')"
  shows "counts_recent a l t (if d = Entitled (AccountCreation a) then S @ [t] else S) m'"
  using decide_other[OF assms(3)]
proof
  assume "\<exists>b. register_decision l b t m = (d, m')"
  then show ?thesis using counts_recent_register[OF assms(1,2)] by blast
next
  assume "m' = m \<and> (\<forall>a. d \<noteq> Entitled (AccountCreation a))"
  then show ?thesis using assms(1) by simp
qed

text \<open>A sponsored registration was counts_recent below the limit.\<close>

lemma sponsored_below:
  assumes "counts_recent a l t S m" "decide P D l i t m = (Entitled (AccountCreation a), m')"
  shows "length (filter (\<lambda>s. t - limit_window l < s) S) < max_registrations l"
proof -
  have "register_decision l a t m = (Entitled (AccountCreation a), m')"
    using decide_other[OF assms(2)]
    by (auto simp: register_decision_def Let_def split: if_splits)
  moreover have "filter (\<lambda>s. t - limit_window l < s)
      (lookup_times (sweep_registrations (limit_window l) t m) a) =
    filter (\<lambda>s. t - limit_window l < s) S"
    using assms(1) sweep_recent[of m t "limit_window l" a] by (simp add: counts_recent_def)
  ultimately show ?thesis
    by (auto simp: register_decision_def Let_def split: if_splits)
qed

lemma length_filter_le_mono:
  "(\<And>x. x \<in> set xs \<Longrightarrow> P x \<Longrightarrow> Q x) \<Longrightarrow> length (filter P xs) \<le> length (filter Q xs)"
  by (induction xs) (auto simp: le_SucI)

lemma within_limit_snoc:
  assumes "within_limit l S" "\<forall>s\<in>set S. s \<le> t"
    and "length (filter (\<lambda>s. t - limit_window l < s) S) < max_registrations l"
  shows "within_limit l (S @ [t])"
  unfolding within_limit_def
proof
  fix u
  let ?in = "\<lambda>s. u - limit_window l < s \<and> s \<le> u"
  show "length (filter ?in (S @ [t])) \<le> max_registrations l"
  proof (cases "?in t")
    case True
    then have "length (filter ?in S) \<le> length (filter (\<lambda>s. t - limit_window l < s) S)"
      by (intro length_filter_le_mono) auto
    then show ?thesis using True assms(3) by simp
  next
    case False
    then show ?thesis using assms(1) by (auto simp: within_limit_def)
  qed
qed

lemma within_limit_run:
  assumes "counts_recent a l now S m" "limit_ok l" "within_limit l S"
    and "sorted (now # map (\<lambda>(_, _, t). t) inputs)"
  shows "within_limit l (S @ sponsored_at a (sponsor_run P l inputs m))"
  using assms
proof (induction inputs arbitrary: now S m)
  case Nil
  then show ?case by (simp add: sponsored_at_def)
next
  case (Cons input inputs)
  obtain D i t where input: "input = (D, i, t)" by (cases input)
  obtain d m' where d: "decide P D l i t m = (d, m')" by (cases "decide P D l i t m")
  have later: "now \<le> t" "sorted (t # map (\<lambda>(_, _, t). t) inputs)"
    using Cons.prems(4) by (auto simp: input)
  have c: "counts_recent a l t S m" by (rule counts_recent_later[OF Cons.prems(1) later(1)])
  let ?S = "if d = Entitled (AccountCreation a) then S @ [t] else S"
  have "within_limit l ?S"
  proof (cases "d = Entitled (AccountCreation a)")
    case True
    then have below: "length (filter (\<lambda>s. t - limit_window l < s) S) < max_registrations l"
      using sponsored_below[OF c] d by simp
    have "\<forall>s\<in>set S. s \<le> t" using c by (simp add: counts_recent_def)
    from within_limit_snoc[OF Cons.prems(3) this below] True show ?thesis by simp
  qed (use Cons.prems(3) in simp)
  then have "within_limit l (?S @ sponsored_at a (sponsor_run P l inputs m'))"
    using Cons.IH[OF counts_recent_decide[OF c Cons.prems(2) d] Cons.prems(2) _ later(2)] by simp
  moreover have "S @ sponsored_at a (sponsor_run P l (input # inputs) m) =
      ?S @ sponsored_at a (sponsor_run P l inputs m')"
    by (simp add: input d sponsored_at_def)
  ultimately show ?case by simp
qed

section \<open>What is sponsored\<close>

text \<open>
  What the copy must say for each entitlement: of an event its owner, of a ticket its holder,
  of a pass its ticket and its event.
\<close>

definition supported ::
  "profile \<Rightarrow> derived_reads \<Rightarrow> signed_input \<Rightarrow> ident \<Rightarrow> entitlement \<Rightarrow> bool" where
  "supported P D i signer e = (case e of
       EventOwned ev own \<Rightarrow> own = signer \<and>
         (\<exists>op auth. i = SignedCommand op (IssueTicket ev) auth \<or>
            (\<exists>k. i = SignedCommand op (OwnerCommand k ev) auth)) \<and>
         map_option de_owner (d_event D ev) = Some signer
     | EventCreated ev creator \<Rightarrow> creator = signer \<and> d_isOrganiser D signer \<and>
         (\<exists>op salt auth. i = SignedCommand op (CreateEvent ev salt) auth \<and> p_eventId P signer salt = ev)
     | TicketHeld tk holder \<Rightarrow> holder = signer \<and>
         (\<exists>op named ev auth t. i = SignedCommand op (TransferTicket named ev) auth \<and>
            d_ticket D named = Some t \<and> dtk_id t = tk \<and> dtk_event t = ev \<and>
            dtk_holder t = signer \<and> \<not> dtk_cannot_transfer t)
     | AccountCreation a \<Rightarrow> \<exists>op registration auth. i = SignedCommand op (RegisterCredential a registration) auth
     | PassTicketLive tk ev \<Rightarrow>
         (\<exists>p named auth t x. i = SignedPass p named auth \<and> d_ticket D named = Some t \<and>
            dtk_id t = tk \<and> dtk_event t = ev \<and>
            d_event D ev = Some x \<and> de_status x \<notin> {Cancelled, Finished}))"

text \<open>The signer an input was verified for: a credential of that account verifies it.\<close>

definition signed_by :: "profile \<Rightarrow> derived_reads \<Rightarrow> signed_input \<Rightarrow> ident \<Rightarrow> bool" where
  "signed_by P D i account \<longleftrightarrow> (\<exists>credential registration.
     p_accountOf P (input_authorisation i) = Some (account, credential) \<and>
     p_verify P registration (p_payload P i) (input_authorisation i) \<and>
     (d_credential D account credential = Some registration \<or>
      d_credentials D account = [] \<and>
      (\<exists>op a. i = SignedCommand op (RegisterCredential account registration) a) \<and>
      p_registrationAccount P registration = Some (account, credential)))"

lemma verifiedSigner_Inr: "verifiedSigner P D i = Inr s \<Longrightarrow> signed_by P D i s"
  unfolding verifiedSigner_def signed_by_def first_registration_def registered_signer_def
    input_authorisation_def
  by (cases i)
    (fastforce split: option.splits prod.splits command.splits if_splits)+

lemma decideCommand_supported:
  "decideCommand P D l c signer t m = (Entitled e, m') \<Longrightarrow>
   supported P D (SignedCommand op c auth) signer e"
  by (cases c)
    (fastforce simp: decideCommand_def ownedBy_def decideTransfer_def supported_def
      register_decision_def Let_def split: option.splits if_splits)+

lemma decidePass_supported:
  "decidePass D tk = Entitled e \<Longrightarrow> supported P D (SignedPass p tk auth) signer e"
  by (fastforce simp: decidePass_def supported_def split: option.splits if_splits)

lemma decide_Entitled:
  assumes "decide P D l i t m = (Entitled e, m')"
  shows "\<exists>signer. signed_by P D i signer \<and> supported P D i signer e"
proof -
  from assms obtain signer where v: "verifiedSigner P D i = Inr signer"
    by (auto simp: decide_def split: sum.splits)
  have "supported P D i signer e"
    using assms v decideCommand_supported decidePass_supported
    by (fastforce simp: decide_def split: signed_input.splits)
  with verifiedSigner_Inr[OF v] show ?thesis by blast
qed

lemma sponsor_decision_Sponsored:
  "sponsor_decision P D D' l i after waited t t' m = (Sponsored e, m') \<Longrightarrow>
   decide P D l i t m = (Entitled e, m') \<or>
   (\<exists>reason m1. decide P D l i t m = (NotEntitled reason, m1) \<and>
      decide P D' l i t' m1 = (Entitled e, m'))"
  by (auto simp: sponsor_decision_def split: prod.splits decision.splits if_splits)

text \<open>
  A registered signer may name any account: the registration it asks for counts against the
  account named.
\<close>

lemma other_accounts_registrations_count:
  assumes "p_accountOf P auth = Some (signer, credential)" "signer \<noteq> named"
    and "d_credential D signer credential = Some known"
    and "p_verify P known (p_payload P (SignedCommand op (RegisterCredential named registration) auth)) auth"
  shows "decide P D l (SignedCommand op (RegisterCredential named registration) auth) t m =
    register_decision l named t m"
  using assms
  by (simp add: decide_def verifiedSigner_def registered_signer_def decideCommand_def
      input_authorisation_def)

lemma sponsor_request_entitled:
  assumes "sponsor_request P D D' l decodeCommand decodePass b waited t t' m = (Sponsored e, m')"
  shows "\<exists>i signer. inputOf decodeCommand decodePass b = Some i \<and>
    (signed_by P D i signer \<and> supported P D i signer e \<or>
     signed_by P D' i signer \<and> supported P D' i signer e)"
proof -
  from assms obtain i after where i: "inputOf decodeCommand decodePass b = Some i"
    and d: "sponsor_decision P D D' l i after waited t t' m = (Sponsored e, m')"
    by (auto simp: sponsor_request_def split: option.splits)
  from sponsor_decision_Sponsored[OF d] i show ?thesis by (blast dest: decide_Entitled)
qed

section \<open>Properties\<close>

text \<open>
  C23. Under a clock that never goes back, the relay sponsors at most the configured number of
  registrations for one account in any window of the configured length, over any sequence of
  requests and however often the map of counts is swept.
\<close>

lemma sponsored_registrations_stay_limited:
  assumes "limit_ok l" "sorted (map (\<lambda>(_, _, t). t) inputs)"
  shows "length (filter (\<lambda>s. t - limit_window l < s \<and> s \<le> t)
      (sponsored_at a (sponsor_run P l inputs []))) \<le> max_registrations l"
proof -
  define now where "now = (case inputs of [] \<Rightarrow> 0 | (_, _, t) # _ \<Rightarrow> t)"
  have "sorted (now # map (\<lambda>(_, _, t). t) inputs)"
    using assms(2) by (cases inputs) (auto simp: now_def)
  moreover have "counts_recent a l now [] []" by (simp add: counts_recent_def lookup_times_def)
  moreover have "within_limit l []" by (simp add: within_limit_def)
  ultimately have "within_limit l ([] @ sponsored_at a (sponsor_run P l inputs []))"
    using assms(1) by (intro within_limit_run)
  then show ?thesis by (simp add: within_limit_def)
qed

text \<open>A profile under which an authorisation is the account it names, and one that verifies it.\<close>

definition open_profile :: profile where
  "open_profile = \<lparr>p_accountOf = (\<lambda>auth. Some (auth, ''key'')),
     p_registrationAccount = (\<lambda>r. Some (r, ''key'')), p_payload = (\<lambda>_. ''''),
     p_verify = (\<lambda>r _ auth. r = auth), p_eventId = (\<lambda>a salt. a @ salt)\<rparr>"

definition open_copy :: derived_reads where
  "open_copy = \<lparr>d_credentials = (\<lambda>a. if a = ''ana'' then [''key''] else []),
     d_credential = (\<lambda>a _. if a = ''ana'' then Some ''ana'' else None),
     d_event = (\<lambda>e. if e = ''gig'' then Some \<lparr>de_owner = ''org'', de_status = Active\<rparr> else None),
     d_ticket = (\<lambda>k. if k = ''t1'' then Some \<lparr>dtk_id = ''t1'', dtk_event = ''gig'', dtk_holder = ''ana'',
        dtk_cannot_transfer = False\<rparr> else None),
     d_isOrganiser = (\<lambda>a. a = ''org'')\<rparr>"

definition registering :: "time \<Rightarrow> derived_reads \<times> signed_input \<times> time" where
  "registering t = (open_copy, SignedCommand ''op'' (RegisterCredential ''bob'' ''bob'') ''bob'', t)"

lemma sponsored_registrations_stay_limited_witness:
  "sponsored_at ''bob'' (sponsor_run open_profile \<lparr>max_registrations = 2, limit_window = 100\<rparr>
     [registering 0, registering 10, registering 20, registering 105] []) = [0, 10, 105] \<and>
   length (filter (\<lambda>s. 105 - 100 < s \<and> s \<le> 105) [0, 10, 105 :: time]) \<le> 2"
proof -
  let ?l = "\<lparr>max_registrations = 2, limit_window = 100\<rparr>"
  let ?in = "[registering 0, registering 10, registering 20, registering 105]"
  have run: "sponsored_at ''bob'' (sponsor_run open_profile ?l ?in []) = [0, 10, 105]"
    by code_simp
  have "limit_ok ?l" "sorted (map (\<lambda>(_, _, t). t) ?in)"
    by (simp_all add: limit_ok_def registering_def)
  from sponsored_registrations_stay_limited[OF this, of 105 "''bob''" open_profile] run
  show ?thesis by simp
qed

end
