(* ===== verification/SponsorCopy.thy ===== *)
theory SponsorCopy
  imports SponsorFacts DerivedQueries CopyProperties
begin

text \<open>
  The sponsor relay's access to the derived copy (\<open>src/sponsor/derived.ts\<close>): the queries of the
  copy and the view of organiser accounts. What the relay sponsors rests, through the copy,
  on the ledger's log.
\<close>

definition relay_copy :: "copy \<Rightarrow> ident list \<Rightarrow> derived_reads" where
  "relay_copy c orgs =
     \<lparr>d_credentials = (\<lambda>a. map (\<lambda>(r, _). cr_credential r) (fst (credentials_of c a))),
      d_credential = (\<lambda>a k. map_option fst (fst (query_credential c a k))),
      d_event = (\<lambda>e. map_option (\<lambda>x. \<lparr>de_owner = ce_owner x, de_status = ce_status x\<rparr>) (fst (query_event c e))),
      d_ticket = (\<lambda>t. map_option (\<lambda>x. \<lparr>dtk_id = ct_id x, dtk_event = ct_event x, dtk_holder = ct_holder x,
         dtk_cannot_transfer = ct_cannot_transfer x\<rparr>) (fst (query_ticket c t))),
      d_isOrganiser = (\<lambda>a. a \<in> set orgs)\<rparr>"

lemma relay_copy_ticket:
  "d_ticket (relay_copy c orgs) t = map_option (\<lambda>x. \<lparr>dtk_id = ct_id x, dtk_event = ct_event x,
     dtk_holder = ct_holder x, dtk_cannot_transfer = ct_cannot_transfer x\<rparr>) (ticket_of c t)"
  by (simp add: relay_copy_def query_ticket_def ticket_of_def)

lemma ticket_of_id: "ticket_of c t = Some x \<Longrightarrow> ct_id x = t"
  by (auto simp: ticket_of_def dest: find_Some_in)

lemma relay_copy_event:
  "d_event (relay_copy c orgs) e =
     map_option (\<lambda>x. \<lparr>de_owner = ce_owner x, de_status = ce_status x\<rparr>) (event_of c e)"
  by (simp add: relay_copy_def query_event_def event_of_def)

text \<open>
  Removing \<open>cannotResale\<close> on a ticket that cannot be transferred leaves the copy's ticket
  resellable but bound, although the ledger then frees it for both: the relay refuses its
  transfer.
\<close>

lemma resale_freed_ticket_stays_bound:
  assumes "distinct (map ct_id (cp_tickets c))" "ticket_of c t = Some x" "ct_cannot_transfer x"
    and "applyRestriction sq t e ''cannotResale'' c = Inr c'"
  shows "\<exists>y. ticket_of c' t = Some y \<and> \<not> ct_cannot_resale y \<and> ct_cannot_transfer y \<and>
    decideTransfer (relay_copy c' orgs) t e (ct_holder y) = NotEntitled CannotTransfer"
proof -
  let ?f = "\<lambda>r. r\<lparr>ct_cannot_resale := False, ct_sequence := sq\<rparr>"
  from assms(4) obtain rows where u: "update_one (of_ticket t e) ?f (cp_tickets c) = Inr rows"
    and c': "c' = c\<lparr>cp_tickets := rows\<rparr>"
    by (auto simp: applyRestriction_def and_then_Inr_iff)
  from update_ticket_maps[OF u _ _ assms(1)] assms(2) have
    "ct_event x = e" "(\<lambda>t'. find (\<lambda>r. ct_id r = t') rows) = (ticket_of c)(t \<mapsto> ?f x)"
    by auto
  then have "ct_event (?f x) = e" "ticket_of c' t = Some (?f x)"
    by (simp_all add: c' ticket_of_def[abs_def])
  with assms(3) show ?thesis by (auto simp: decideTransfer_def relay_copy_ticket)
qed

text \<open>
  C18. A transfer the relay sponsors is signed by whom the ledger's log, as far as the copy has
  read it, gives the ticket to; and an event's command, by the owner the ledger answered.
\<close>

theorem sponsored_transfer_has_the_logs_holder:
  assumes "replay own reg rs = Inr c"
    and "decide P (relay_copy c orgs) l i t m = (Entitled (TicketHeld tk holder), m')"
  shows "signed_by P (relay_copy c orgs) i holder \<and> holder_after tk rs = Some holder"
proof -
  from decide_Entitled[OF assms(2)] obtain signer where
    s: "signed_by P (relay_copy c orgs) i signer"
    and "supported P (relay_copy c orgs) i signer (TicketHeld tk holder)" by blast
  then obtain named tkt where holder: "holder = signer" and tkt: "d_ticket (relay_copy c orgs) named = Some tkt"
    and ids: "dtk_id tkt = tk" "dtk_holder tkt = signer"
    unfolding supported_def by auto
  from tkt obtain x where "ticket_of c named = Some x" and tkt': "tkt = \<lparr>dtk_id = ct_id x,
      dtk_event = ct_event x, dtk_holder = ct_holder x, dtk_cannot_transfer = ct_cannot_transfer x\<rparr>"
    unfolding relay_copy_ticket by (cases "ticket_of c named") simp_all
  moreover have x: "ct_id x = tk" "ct_holder x = holder" using ids holder by (simp_all add: tkt')
  ultimately have "ticket_of c tk = Some x" using ticket_of_id[of c named x] by simp
  then have "holder_after tk rs = Some holder"
    using says_parts(6)[OF replay_says[OF assms(1)], of tk] x(2) by simp
  with s holder show ?thesis by simp
qed

definition signed_log :: "log_record list" where
  "signed_log = take 2 gig_log @
     [\<lparr>rec_cursor = ''c9'', rec_recorded_at = 25, rec_event = None,
        rec_entry = CommandEntry (CmdRegisterCredential ''ana'' ''ana'') ''o9'', rec_presented_at = None\<rparr>]"

definition signed_copy :: copy where
  "signed_copy = (case replay gig_owner (\<lambda>r. Some (r, ''key'')) signed_log of Inr c \<Rightarrow> c | Inl _ \<Rightarrow> empty_copy)"

theorem sponsored_transfer_has_the_logs_holder_witness:
  "fst (decide open_profile (relay_copy signed_copy []) \<lparr>max_registrations = 2, limit_window = 100\<rparr>
     (SignedCommand ''op'' (TransferTicket ''t1'' ''gig'') ''ana'') 0 []) = Entitled (TicketHeld ''t1'' ''ana'') \<and>
   holder_after ''t1'' signed_log = Some ''ana''"
proof -
  let ?l = "\<lparr>max_registrations = 2, limit_window = 100\<rparr>"
  let ?i = "SignedCommand ''op'' (TransferTicket ''t1'' ''gig'') ''ana''"
  have "isl (replay gig_owner (\<lambda>r. Some (r, ''key'')) signed_log) = False" by code_simp
  then have c: "replay gig_owner (\<lambda>r. Some (r, ''key'')) signed_log = Inr signed_copy"
    by (auto simp: signed_copy_def split: sum.split)
  have d: "decide open_profile (relay_copy signed_copy []) ?l ?i 0 [] =
      (Entitled (TicketHeld ''t1'' ''ana''), [])" by code_simp
  from sponsored_transfer_has_the_logs_holder[OF c d] d show ?thesis by simp
qed

end
