(* ===== verification/Sponsorship.thy ===== *)
theory Sponsorship
  imports Sponsor
begin

text \<open>
  The sponsorship package (\<open>packages/sponsorship/src\<close>): what a sponsorship binds, its encoding
  and strict decoding, issuing and verifying it (\<open>sponsorship.ts\<close>), the sponsor's signer over a
  key held elsewhere (\<open>kms.ts\<close>), and the client that asks the relay for one
  (\<open>relay-client.ts\<close>).  Bytes are strings.  The SCALE codec, the hashes and curves, the
  profile's framing and authorisations, and the network are parameters.
\<close>

section \<open>Values\<close>

datatype bound_target = CommandTarget ident string | PassTarget ident string

fun target_digest :: "bound_target \<Rightarrow> string" where
  "target_digest (CommandTarget _ d) = d"
| "target_digest (PassTarget _ d) = d"

record sponsorship_value =
  sv_target :: bound_target
  sv_cost :: int
  sv_authorisation :: string

record frame =
  frame_version :: nat
  frame_kind :: nat
  frame_id :: string
  frame_digest :: string
  frame_cost :: int

text \<open>An authorisation as the profile decodes it: its kind, public key and signature.\<close>

record decoded_authorisation =
  da_kind :: string
  da_key :: string
  da_signature :: string

text \<open>
  The packages the code calls.  The codecs are those of \<open>unsignedCodec\<close> and
  \<open>sponsorshipCodec\<close>, and \<open>None\<close> is an exception thrown.
\<close>

record libraries =
  l_unsigned :: "frame \<Rightarrow> string"
  l_encode :: "frame \<Rightarrow> string \<Rightarrow> string"
  l_decode :: "string \<Rightarrow> (frame \<times> string) option"
  l_toHex :: "string \<Rightarrow> string"
  l_fromHex :: "string \<Rightarrow> string option"
  l_blake2b :: "string \<Rightarrow> string"
  l_framing :: "signed_input \<Rightarrow> string"
  l_command_kind :: nat
  l_pass_kind :: nat
  l_authorisation :: "string \<Rightarrow> decoded_authorisation option"
  l_encodeAuthorisation :: "decoded_authorisation \<Rightarrow> string"
  l_account :: "string \<Rightarrow> ident option"
  l_digest :: "string \<Rightarrow> string"
  l_verify :: "string \<Rightarrow> string \<Rightarrow> string \<Rightarrow> bool option"
  l_normalise :: "string \<Rightarrow> bool \<Rightarrow> string option"

definition SPONSORSHIP_FORMAT_VERSION :: nat where "SPONSORSHIP_FORMAT_VERSION = 0"

definition SPONSORSHIP_SIGNING_TAG :: string where
  "SPONSORSHIP_SIGNING_TAG = ''kippu/v0/sponsorship''"

definition BOUND_ID_LENGTH :: nat where "BOUND_ID_LENGTH = 16"

definition INPUT_DIGEST_LENGTH :: nat where "INPUT_DIGEST_LENGTH = 32"

definition MAX_NOTIONAL_COST :: int where "MAX_NOTIONAL_COST = 2 ^ 128 - 1"

section \<open>Encoding\<close>

datatype encode_error = CostOutOfRange | NotAHexId | BadHex | WrongIdLength | WrongDigestLength

definition signedInputDigest :: "libraries \<Rightarrow> signed_input \<Rightarrow> string" where
  "signedInputDigest K i = l_blake2b K (l_framing K i)"

definition sponsorshipTarget :: "libraries \<Rightarrow> signed_input \<Rightarrow> bound_target" where
  "sponsorshipTarget K i = (let digest = signedInputDigest K i in
     case i of SignedPass p _ _ \<Rightarrow> PassTarget p digest | SignedCommand op _ _ \<Rightarrow> CommandTarget op digest)"

definition boundId :: "libraries \<Rightarrow> string \<Rightarrow> encode_error + string" where
  "boundId K hex = (if \<not> list_all is_hex hex then Inl NotAHexId
     else (case l_fromHex K hex of None \<Rightarrow> Inl BadHex
       | Some i \<Rightarrow> if length i \<noteq> BOUND_ID_LENGTH then Inl WrongIdLength else Inr i))"

definition target_kind :: "libraries \<Rightarrow> bound_target \<Rightarrow> nat \<times> ident" where
  "target_kind K t = (case t of CommandTarget op _ \<Rightarrow> (l_command_kind K, op)
     | PassTarget p _ \<Rightarrow> (l_pass_kind K, p))"

definition frameOf :: "libraries \<Rightarrow> bound_target \<Rightarrow> int \<Rightarrow> encode_error + frame" where
  "frameOf K t cost =
     and_then (guard (0 \<le> cost \<and> cost \<le> MAX_NOTIONAL_COST) CostOutOfRange) (\<lambda>_.
     let (kind, hex) = target_kind K t in
     and_then (boundId K hex) (\<lambda>i.
     and_then (guard (length (target_digest t) = INPUT_DIGEST_LENGTH) WrongDigestLength) (\<lambda>_.
     Inr \<lparr>frame_version = SPONSORSHIP_FORMAT_VERSION, frame_kind = kind, frame_id = i,
          frame_digest = target_digest t, frame_cost = cost\<rparr>)))"

definition sponsorshipSigningPayload :: "libraries \<Rightarrow> bound_target \<Rightarrow> int \<Rightarrow> encode_error + string" where
  "sponsorshipSigningPayload K t cost =
     and_then (frameOf K t cost) (\<lambda>f. Inr (SPONSORSHIP_SIGNING_TAG @ l_unsigned K f))"

definition encodeSponsorship :: "libraries \<Rightarrow> sponsorship_value \<Rightarrow> encode_error + string" where
  "encodeSponsorship K v =
     and_then (frameOf K (sv_target v) (sv_cost v)) (\<lambda>f. Inr (l_encode K f (sv_authorisation v)))"

section \<open>Strict decoding\<close>

datatype decode_error =
    NotDecodable | UnsupportedVersion nat | UnknownInputKind nat | NotEncodable encode_error | NotCanonical

definition value_of_frame ::
  "libraries \<Rightarrow> frame \<Rightarrow> string \<Rightarrow> decode_error + sponsorship_value" where
  "value_of_frame K f auth =
     and_then (guard (frame_version f = SPONSORSHIP_FORMAT_VERSION) (UnsupportedVersion (frame_version f))) (\<lambda>_.
     let hex = l_toHex K (frame_id f) in
     and_then (if frame_kind f = l_command_kind K then Inr (CommandTarget hex (frame_digest f))
               else if frame_kind f = l_pass_kind K then Inr (PassTarget hex (frame_digest f))
               else Inl (UnknownInputKind (frame_kind f))) (\<lambda>t.
     Inr \<lparr>sv_target = t, sv_cost = frame_cost f, sv_authorisation = auth\<rparr>))"

definition decodeSponsorship :: "libraries \<Rightarrow> string \<Rightarrow> decode_error + sponsorship_value" where
  "decodeSponsorship K bytes = (case l_decode K bytes of None \<Rightarrow> Inl NotDecodable
     | Some (f, auth) \<Rightarrow>
         and_then (value_of_frame K f auth) (\<lambda>v.
         case encodeSponsorship K v of Inl e \<Rightarrow> Inl (NotEncodable e)
         | Inr reencoded \<Rightarrow> if reencoded \<noteq> bytes then Inl NotCanonical else Inr v))"

section \<open>Issuing and verifying\<close>

datatype issue_error = NotSigned | NotEncoded encode_error

text \<open>\<open>sign\<close> is the sponsor's signer: the authorisation, or nothing when it throws.\<close>

definition issueSponsorship ::
  "libraries \<Rightarrow> (string \<Rightarrow> string option) \<Rightarrow> signed_input \<Rightarrow> int \<Rightarrow> issue_error + string" where
  "issueSponsorship K sign i cost = (let t = sponsorshipTarget K i in
     case sponsorshipSigningPayload K t cost of Inl e \<Rightarrow> Inl (NotEncoded e)
     | Inr payload \<Rightarrow> (case sign payload of None \<Rightarrow> Inl NotSigned
         | Some auth \<Rightarrow> (case encodeSponsorship K \<lparr>sv_target = t, sv_cost = cost, sv_authorisation = auth\<rparr> of
               Inl e \<Rightarrow> Inl (NotEncoded e) | Inr bytes \<Rightarrow> Inr bytes)))"

definition sameId :: "bound_target \<Rightarrow> bound_target \<Rightarrow> bool" where
  "sameId a b = (case (a, b) of
       (CommandTarget x _, CommandTarget y _) \<Rightarrow> x = y
     | (PassTarget x _, PassTarget y _) \<Rightarrow> x = y
     | _ \<Rightarrow> False)"

datatype verify_refusal =
    MalformedSponsorship decode_error | OtherId | OtherInput | MalformedAuthorisation | NotP256
  | NoPublicKey | NotConfigured | PayloadThrown encode_error | BadSignature

record verified = v_sponsor :: ident  v_cost :: int

definition verifySponsorship ::
  "libraries \<Rightarrow> string \<Rightarrow> signed_input \<Rightarrow> ident list \<Rightarrow> verify_refusal + verified" where
  "verifySponsorship K bytes i sponsors = (case decodeSponsorship K bytes of
       Inl e \<Rightarrow> Inl (MalformedSponsorship e)
     | Inr v \<Rightarrow> (let t = sponsorshipTarget K i in
         and_then (guard (sameId (sv_target v) t) OtherId) (\<lambda>_.
         and_then (guard (target_digest (sv_target v) = target_digest t) OtherInput) (\<lambda>_.
         case l_authorisation K (sv_authorisation v) of None \<Rightarrow> Inl MalformedAuthorisation
         | Some signed \<Rightarrow>
             and_then (guard (da_kind signed = ''p256'') NotP256) (\<lambda>_.
             case l_account K (da_key signed) of None \<Rightarrow> Inl NoPublicKey
             | Some sponsor \<Rightarrow>
                 and_then (guard (sponsor \<in> set sponsors) NotConfigured) (\<lambda>_.
                 case sponsorshipSigningPayload K (sv_target v) (sv_cost v) of
                   Inl e \<Rightarrow> Inl (PayloadThrown e)
                 | Inr payload \<Rightarrow>
                     if l_verify K (da_signature signed) (l_digest K payload) (da_key signed) = Some True
                     then Inr \<lparr>v_sponsor = sponsor, v_cost = sv_cost v\<rparr>
                     else Inl BadSignature))))))"

section \<open>A key held in a KMS\<close>

text \<open>\<open>signDigest\<close> answers a signature and whether it is in DER, or throws.\<close>

record kms_key =
  publicKey :: string
  signDigest :: "string \<Rightarrow> (string \<times> bool) option"

text \<open>The signer's account; the key is refused when it has none.\<close>

definition kms_account :: "libraries \<Rightarrow> kms_key \<Rightarrow> ident option" where
  "kms_account K k = l_account K (publicKey k)"

definition kmsP256Signer :: "libraries \<Rightarrow> kms_key \<Rightarrow> string \<Rightarrow> string option" where
  "kmsP256Signer K k payload = (let digest = l_digest K payload in
     case signDigest k digest of None \<Rightarrow> None
     | Some (signature, der) \<Rightarrow> (case l_normalise K signature der of None \<Rightarrow> None
         | Some normalised \<Rightarrow>
             if l_verify K normalised digest (publicKey k) = Some True
             then Some (l_encodeAuthorisation K
               \<lparr>da_kind = ''p256'', da_key = publicKey k, da_signature = normalised\<rparr>)
             else None))"

end
