(* ===== verification/RelayClient.thy ===== *)
theory RelayClient
  imports Sponsorship Provider
begin

text \<open>
  The client every Ticketto client of Kippu obtains sponsorships with
  (\<open>packages/sponsorship/src/relay-client.ts\<close>): its hexadecimal, its requests with their waits,
  and how it reads what the relay answers.  And the relay's own replies
  (\<open>src/sponsor/relay.ts\<close>), from the decision to the bytes.
\<close>

section \<open>Hexadecimal\<close>

definition HEX_DIGITS :: string where "HEX_DIGITS = ''0123456789abcdef''"

definition toHex :: "string \<Rightarrow> string" where
  "toHex bytes = foldl (\<lambda>out byte. out @ [HEX_DIGITS ! (of_char byte div 16), HEX_DIGITS ! (of_char byte mod 16)])
     '''' bytes"

fun hex_pairs :: "string \<Rightarrow> bool" where
  "hex_pairs (a # b # rest) \<longleftrightarrow> is_hex a \<and> is_hex b \<and> (rest = [] \<or> hex_pairs rest)"
| "hex_pairs _ \<longleftrightarrow> False"

definition fromHex :: "string \<Rightarrow> string option" where
  "fromHex hex = (if \<not> hex_pairs hex then None
     else Some (map (\<lambda>i. char_of (16 * hex_value (hex ! (2 * i)) + hex_value (hex ! (2 * i + 1))))
       [0..<length hex div 2]))"

section \<open>Asking the relay\<close>

text \<open>What one request meets: no response, one without JSON, or its status, header and body.\<close>

datatype fetched = Unreached string | NoJson nat | Answered nat "string option" json

definition json_field :: "string \<Rightarrow> json option \<Rightarrow> json option" where
  "json_field k v = (case v of Some (JObj fs) \<Rightarrow> map_of fs k | _ \<Rightarrow> None)"

definition decimal_value :: "string \<Rightarrow> nat" where
  "decimal_value s = foldl (\<lambda>n c. 10 * n + (of_char c - 48)) 0 s"

definition digit_char :: "char \<Rightarrow> bool" where
  "digit_char c \<longleftrightarrow> c \<in> set ''0123456789''"

definition retryAfter :: "string option \<Rightarrow> int option" where
  "retryAfter header = (case header of None \<Rightarrow> None
     | Some v \<Rightarrow> if trim v = [] \<or> \<not> list_all digit_char (trim v) then None
                else Some (int (decimal_value (trim v)) * 1000))"

datatype problem = NotReached | FailedRequest string | RelayIs string "string option"

datatype client_answer =
    Obtained string
  | SponsorshipRefused "string option"
  | LedgerUnavailable problem
  | NotProtocol
  | NullBody

text \<open>
  What an answer means: an end, or a problem to try again for, with the wait it asks for.
  Reading \<open>error\<close> of a \<open>null\<close> body throws.
\<close>

definition read_answer :: "nat \<Rightarrow> string option \<Rightarrow> json \<Rightarrow> client_answer + problem \<times> int option" where
  "read_answer status header parsed = (if parsed = JNull then Inl NullBody else
     let error = json_field ''error'' (Some parsed);
         code = json_field ''code'' error;
         detail = (case json_field ''detail'' error of Some (JStr d) \<Rightarrow> Some d | _ \<Rightarrow> None) in
     case (if status = 200 then json_field ''sponsorship'' (Some parsed) else None) of
       Some (JStr hex) \<Rightarrow> Inl (case fromHex hex of None \<Rightarrow> NotProtocol | Some bytes \<Rightarrow> Obtained bytes)
     | _ \<Rightarrow>
         if status = 403 \<and> code = Some (JStr ''ERR-SponsorshipRefused'') then Inl (SponsorshipRefused detail)
         else if status = 503 \<and> code = Some (JStr ''lagging'') then Inr (RelayIs ''lagging'' detail, retryAfter header)
         else if status = 503 \<and> code = Some (JStr ''unavailable'')
           then Inr (RelayIs ''unavailable'' detail, retryAfter header)
         else Inl NotProtocol)"

text \<open>
  The attempts from one on: \<open>fetch\<close> is what each of them meets.  The answer comes with the
  waits between them, oldest first.
\<close>

function attempts_from ::
  "(nat \<Rightarrow> fetched) \<Rightarrow> nat \<Rightarrow> int \<Rightarrow> nat \<Rightarrow> problem \<Rightarrow> client_answer \<times> int list" where
  "attempts_from fetch attempts backoff attempt lastProblem =
     (if attempt > attempts then (LedgerUnavailable lastProblem, [])
      else let again = (\<lambda>p wait.
          let (answer, waits) = attempts_from fetch attempts backoff (attempt + 1) p in
          (answer, (if attempt < attempts then wait # waits else waits))) in
        case fetch attempt of
          Unreached e \<Rightarrow> again (FailedRequest e) (backoff * 2 ^ (attempt - 1))
        | NoJson _ \<Rightarrow> (NotProtocol, [])
        | Answered status header parsed \<Rightarrow> (case read_answer status header parsed of
              Inl answer \<Rightarrow> (answer, [])
            | Inr (p, wait) \<Rightarrow> again p (case wait of Some w \<Rightarrow> w | None \<Rightarrow> backoff * 2 ^ (attempt - 1))))"
  by pat_completeness auto

termination attempts_from
  by (relation "measure (\<lambda>(_, attempts, _, attempt, _). Suc attempts - attempt)") auto

declare attempts_from.simps [simp del]

text \<open>A client needs at least one attempt: its constructor throws otherwise.\<close>

definition ask_relay :: "(nat \<Rightarrow> fetched) \<Rightarrow> nat \<Rightarrow> int \<Rightarrow> (client_answer \<times> int list) option" where
  "ask_relay fetch attempts backoff =
     (if attempts < 1 then None else Some (attempts_from fetch attempts backoff 1 NotReached))"

text \<open>The body of the request: the input's kind and its encoding, and the receipt cursor.\<close>

definition request_body :: "(signed_input \<Rightarrow> string) \<Rightarrow> signed_input \<Rightarrow> string option \<Rightarrow> sponsor_body" where
  "request_body encode i after =
     \<lparr>body_kind = (case i of SignedPass _ _ _ \<Rightarrow> ''pass'' | SignedCommand _ _ _ \<Rightarrow> ''command''),
      body_bytes = toHex (encode i), body_after = map_option Some after\<rparr>"

section \<open>The relay's replies\<close>

definition NOTIONAL_COST :: int where "NOTIONAL_COST = 0"

text \<open>
  A reply to what the relay decided, or to a copy it cannot read: \<open>refusal_text\<close> is the wording
  of a refusal's reason, \<open>malformed\<close> of what is wrong with a request, and \<open>server_error\<close> the
  server's body when the signer throws.
\<close>

definition error_body :: "string \<Rightarrow> string option \<Rightarrow> json" where
  "error_body code detail = JObj [(''error'', JObj ((''code'', JStr code) #
     (case detail of None \<Rightarrow> [] | Some d \<Rightarrow> [(''detail'', JStr d)])))]"

record reply_texts =
  refusal_text :: "refusal_reason \<Rightarrow> string"
  malformed_text :: string
  server_error :: json

definition relay_reply ::
  "libraries \<Rightarrow> (string \<Rightarrow> string option) \<Rightarrow> reply_texts \<Rightarrow> string \<Rightarrow> signed_input \<Rightarrow>
     sponsor_reply option \<Rightarrow> fetched" where
  "relay_reply K sign T after i r = (case r of
       None \<Rightarrow> Answered 503 None (error_body ''unavailable'' None)
     | Some Malformed \<Rightarrow> Answered 400 None (error_body ''malformed'' (Some (malformed_text T)))
     | Some Lagging \<Rightarrow> Answered 503 (Some ''1'') (error_body ''lagging'' (Some
         (''the derived copy has not reached cursor '' @ [CHR 0x22] @ after @ [CHR 0x22] @ '' yet; retry'')))
     | Some (RefusedSponsorship reason) \<Rightarrow> Answered 403 None
         (error_body ''ERR-SponsorshipRefused'' (Some (refusal_text T reason)))
     | Some (Sponsored _) \<Rightarrow> (case issueSponsorship K sign i NOTIONAL_COST of
           Inl _ \<Rightarrow> Answered 500 None (server_error T)
         | Inr bytes \<Rightarrow> Answered 200 None (JObj [(''sponsorship'', JStr (to_hex bytes))])))"

end
