(* ===== verification/SponsorshipFacts.thy ===== *)
theory SponsorshipFacts
  imports RelayClient SponsorFacts
begin

text \<open>
  What a sponsorship binds (\<open>Sponsorship\<close>): its encoding and its strict decoding are inverse,
  its signing payload names one input, and the client of the relay (\<open>RelayClient\<close>) ends with
  one that verifies.
\<close>

section \<open>The packages\<close>

text \<open>
  What the code relies on: the fixed-width and compact codecs read back what they write and
  lose nothing, hexadecimal reads back both ways, the digest is 32 bytes long, the profile's
  two input kinds differ and fit a byte, and its authorisations decode to what was encoded.
\<close>

definition frame_ok :: "frame \<Rightarrow> bool" where
  "frame_ok f \<longleftrightarrow> frame_version f < 256 \<and> frame_kind f < 256 \<and> length (frame_id f) = 16 \<and>
     length (frame_digest f) = 32 \<and> 0 \<le> frame_cost f \<and> frame_cost f < 2 ^ 536"

definition libraries_ok :: "libraries \<Rightarrow> bool" where
  "libraries_ok K \<longleftrightarrow>
     (\<forall>f auth. frame_ok f \<longrightarrow> l_decode K (l_encode K f auth) = Some (f, auth)) \<and>
     (\<forall>f g. frame_ok f \<and> frame_ok g \<and> l_unsigned K f = l_unsigned K g \<longrightarrow> f = g) \<and>
     (\<forall>h b. list_all is_hex h \<and> l_fromHex K h = Some b \<longrightarrow> l_toHex K b = h) \<and>
     (\<forall>s. length (l_blake2b K s) = 32) \<and>
     l_command_kind K \<noteq> l_pass_kind K \<and> l_command_kind K < 256 \<and> l_pass_kind K < 256 \<and>
     (\<forall>d. l_authorisation K (l_encodeAuthorisation K d) = Some d)"

lemma libraries_okD:
  assumes "libraries_ok K"
  shows "frame_ok f \<Longrightarrow> l_decode K (l_encode K f auth) = Some (f, auth)"
    and "frame_ok f \<Longrightarrow> frame_ok g \<Longrightarrow> l_unsigned K f = l_unsigned K g \<longleftrightarrow> f = g"
    and "list_all is_hex h \<Longrightarrow> l_fromHex K h = Some b \<Longrightarrow> l_toHex K b = h"
    and "length (l_blake2b K s) = 32"
    and "l_command_kind K \<noteq> l_pass_kind K" "l_command_kind K < 256" "l_pass_kind K < 256"
    and "l_authorisation K (l_encodeAuthorisation K d) = Some d"
  using assms unfolding libraries_ok_def by blast+

section \<open>Frames\<close>

lemma boundId_Inr_iff:
  "boundId K hex = Inr i \<longleftrightarrow> list_all is_hex hex \<and> l_fromHex K hex = Some i \<and> length i = 16"
  by (auto simp: boundId_def BOUND_ID_LENGTH_def split: option.splits)

lemma frameOf_Inr_iff:
  "frameOf K t cost = Inr f \<longleftrightarrow> 0 \<le> cost \<and> cost \<le> MAX_NOTIONAL_COST \<and>
     length (target_digest t) = 32 \<and>
     (\<exists>i. boundId K (snd (target_kind K t)) = Inr i \<and>
        f = \<lparr>frame_version = 0, frame_kind = fst (target_kind K t), frame_id = i,
             frame_digest = target_digest t, frame_cost = cost\<rparr>)"
  by (cases "target_kind K t")
    (auto simp: frameOf_def and_then_Inr_iff guard_def INPUT_DIGEST_LENGTH_def
      SPONSORSHIP_FORMAT_VERSION_def Let_def split: if_splits)

lemma frameOf_ok:
  assumes "libraries_ok K" "frameOf K t cost = Inr f"
  shows "frame_ok f"
proof -
  from assms(2) have "cost < 2 ^ 536"
    by (auto simp: frameOf_Inr_iff MAX_NOTIONAL_COST_def)
  with assms libraries_okD(6,7)[OF assms(1)] show ?thesis
    by (auto simp: frameOf_Inr_iff frame_ok_def target_kind_def boundId_Inr_iff split: bound_target.splits)
qed

text \<open>The target a frame was made of reads back from it, and only that one.\<close>

lemma value_of_frameOf:
  assumes "libraries_ok K" "frameOf K t cost = Inr f"
  shows "value_of_frame K f auth = Inr \<lparr>sv_target = t, sv_cost = cost, sv_authorisation = auth\<rparr>"
  using assms(2) libraries_okD(3,5)[OF assms(1)]
  by (cases t) (auto simp: frameOf_Inr_iff value_of_frame_def target_kind_def boundId_Inr_iff
      SPONSORSHIP_FORMAT_VERSION_def guard_def and_then_def Let_def)

lemma frameOf_inject:
  assumes "libraries_ok K" "frameOf K t cost = Inr f" "frameOf K t' cost' = Inr f"
  shows "t = t' \<and> cost = cost'"
  using value_of_frameOf[OF assms(1,2), of "''''"] value_of_frameOf[OF assms(1,3), of "''''"] by simp

lemma payload_inject:
  assumes "libraries_ok K" "sponsorshipSigningPayload K t cost = Inr p"
    and "sponsorshipSigningPayload K t' cost' = Inr p"
  shows "t = t' \<and> cost = cost'"
  using assms(2,3) frameOf_inject[OF assms(1)] frameOf_ok[OF assms(1)] libraries_okD(2)[OF assms(1)]
  by (fastforce simp: sponsorshipSigningPayload_def and_then_Inr_iff)

section \<open>Encoding and decoding\<close>

lemma decode_encodes:
  assumes "decodeSponsorship K b = Inr v"
  shows "encodeSponsorship K v = Inr b"
proof -
  from assms obtain x where "(case encodeSponsorship K x of Inl e \<Rightarrow> Inl (NotEncodable e)
      | Inr y \<Rightarrow> if y \<noteq> b then Inl NotCanonical else Inr x) = Inr v"
    by (auto simp: decodeSponsorship_def and_then_Inr_iff split: option.split_asm)
  then show ?thesis by (auto split: sum.split_asm if_split_asm)
qed

lemma encode_decodes:
  assumes "libraries_ok K" "encodeSponsorship K v = Inr b"
  shows "decodeSponsorship K b = Inr v"
proof -
  from assms(2) obtain f where f: "frameOf K (sv_target v) (sv_cost v) = Inr f"
    and b: "b = l_encode K f (sv_authorisation v)"
    by (auto simp: encodeSponsorship_def and_then_Inr_iff)
  have "l_decode K b = Some (f, sv_authorisation v)"
    using libraries_okD(1)[OF assms(1) frameOf_ok[OF assms(1) f]] b by simp
  then show ?thesis using value_of_frameOf[OF assms(1) f] assms(2)
    by (cases v) (simp add: decodeSponsorship_def and_then_def)
qed

section \<open>Verifying\<close>

lemma same_target:
  "sameId a b \<Longrightarrow> target_digest a = target_digest b \<Longrightarrow> a = b"
  by (cases a; cases b) (auto simp: sameId_def)

definition p256_signed :: "libraries \<Rightarrow> ident \<Rightarrow> bound_target \<Rightarrow> int \<Rightarrow> string \<Rightarrow> bool" where
  "p256_signed K a t cost auth \<longleftrightarrow> (\<exists>d payload. l_authorisation K auth = Some d \<and> da_kind d = ''p256'' \<and>
     l_account K (da_key d) = Some a \<and> sponsorshipSigningPayload K t cost = Inr payload \<and>
     l_verify K (da_signature d) (l_digest K payload) (da_key d) = Some True)"

lemma verify_Inr_iff:
  "verifySponsorship K b i S = Inr w \<longleftrightarrow> v_sponsor w \<in> set S \<and>
     (\<exists>auth. decodeSponsorship K b =
         Inr \<lparr>sv_target = sponsorshipTarget K i, sv_cost = v_cost w, sv_authorisation = auth\<rparr> \<and>
       p256_signed K (v_sponsor w) (sponsorshipTarget K i) (v_cost w) auth)"
  (is "?l \<longleftrightarrow> ?r")
proof
  assume ?l
  then obtain v d a payload where "decodeSponsorship K b = Inr v"
    and t: "sameId (sv_target v) (sponsorshipTarget K i)"
      "target_digest (sv_target v) = target_digest (sponsorshipTarget K i)"
    and "l_authorisation K (sv_authorisation v) = Some d" "da_kind d = ''p256''"
      "l_account K (da_key d) = Some a" "a \<in> set S"
      "sponsorshipSigningPayload K (sv_target v) (sv_cost v) = Inr payload"
      "l_verify K (da_signature d) (l_digest K payload) (da_key d) = Some True"
      "w = \<lparr>v_sponsor = a, v_cost = sv_cost v\<rparr>"
    by (auto simp: verifySponsorship_def Let_def and_then_Inr_iff guard_def
        split: sum.splits option.splits if_splits)
  moreover obtain t' c auth where "v = \<lparr>sv_target = t', sv_cost = c, sv_authorisation = auth\<rparr>"
    by (cases v)
  ultimately show ?r using same_target[OF t] by (auto simp: p256_signed_def)
next
  assume ?r
  then show ?l
    by (cases "sponsorshipTarget K i"; cases w)
      (auto simp: verifySponsorship_def Let_def p256_signed_def and_then_def guard_def sameId_def)
qed

lemma issued_verifies:
  assumes "libraries_ok K" "kms_account K k = Some a" "a \<in> set S"
    and "issueSponsorship K (kmsP256Signer K k) i cost = Inr b"
  shows "verifySponsorship K b i S = Inr \<lparr>v_sponsor = a, v_cost = cost\<rparr>"
proof -
  let ?t = "sponsorshipTarget K i"
  from assms(4) obtain payload auth where p: "sponsorshipSigningPayload K ?t cost = Inr payload"
    and s: "kmsP256Signer K k payload = Some auth"
    and e: "encodeSponsorship K \<lparr>sv_target = ?t, sv_cost = cost, sv_authorisation = auth\<rparr> = Inr b"
    by (auto simp: issueSponsorship_def Let_def split: sum.splits option.splits)
  from s obtain sig where "auth = l_encodeAuthorisation K \<lparr>da_kind = ''p256'', da_key = publicKey k, da_signature = sig\<rparr>"
    and "l_verify K sig (l_digest K payload) (publicKey k) = Some True"
    by (auto simp: kmsP256Signer_def Let_def split: option.splits if_splits)
  then have "p256_signed K a ?t cost auth"
    using p assms(2) libraries_okD(8)[OF assms(1)] by (simp add: p256_signed_def kms_account_def)
  with assms(3) encode_decodes[OF assms(1) e] show ?thesis by (simp add: verify_Inr_iff)
qed

section \<open>The client's hexadecimal\<close>

lemma HEX_DIGITS_nth: "n < 16 \<Longrightarrow> HEX_DIGITS ! n = hex_digit n"
proof -
  assume "n < 16"
  then have "n \<in> set [0..<16]" by simp
  moreover have "list_all (\<lambda>n. HEX_DIGITS ! n = hex_digit n) [0..<16]" by code_simp
  ultimately show ?thesis by (simp only: list_all_iff)
qed

lemma byte_parts: "(of_char c :: nat) div 16 < 16" "(of_char c :: nat) mod 16 < 16"
  using nat_of_char_less_256[of c] by (auto intro: less_mult_imp_div_less)

lemma foldl_append_map: "foldl (\<lambda>out x. out @ f x) out xs = out @ concat (map f xs)"
  by (induction xs arbitrary: out) auto

lemma toHex_eq: "toHex = to_hex"
  by (simp add: fun_eq_iff toHex_def to_hex_def foldl_append_map hex_of_byte_def Let_def
      HEX_DIGITS_nth byte_parts cong: map_cong)

lemma is_hex_digit: "n < 16 \<Longrightarrow> is_hex (hex_digit n)"
proof -
  assume "n < 16"
  then have "n \<in> set [0..<16]" by simp
  moreover have "list_all (\<lambda>n. is_hex (hex_digit n)) [0..<16]" by code_simp
  ultimately show ?thesis by (simp only: list_all_iff)
qed

lemma hex_pairs_to_hex: "hex_pairs (to_hex b) \<longleftrightarrow> b \<noteq> []"
  by (induction b) (simp_all add: to_hex_def hex_of_byte_def Let_def is_hex_digit byte_parts)

lemma of_hex_nth:
  "even (length h) \<Longrightarrow> of_hex h =
     map (\<lambda>i. char_of (16 * hex_value (h ! (2 * i)) + hex_value (h ! (2 * i + 1)))) [0..<length h div 2]"
  by (induction h rule: of_hex.induct)
    (auto simp: upt_conv_Cons map_Suc_upt [symmetric] simp del: upt_Suc)

lemma hex_pairs_even: "hex_pairs h \<Longrightarrow> even (length h)"
  by (induction h rule: hex_pairs.induct) auto

lemma fromHex_eq: "fromHex h = (if hex_pairs h then Some (of_hex h) else None)"
  using hex_pairs_even[of h] by (auto simp: fromHex_def of_hex_nth)

lemma of_hex_to_hex_bytes: "of_hex (to_hex s) = s"
  by (induction s) (simp_all add: to_hex_def of_hex_byte)

lemma fromHex_to_hex: "fromHex (to_hex b) = (if b = [] then None else Some b)"
  by (simp add: fromHex_eq hex_pairs_to_hex of_hex_to_hex_bytes)

lemma hex_bytes_toHex: "hex_bytes (toHex s) = Some s"
proof -
  have "even (length (to_hex s)) \<and> list_all is_hex (to_hex s)"
    by (induction s) (simp_all add: to_hex_def hex_of_byte_def Let_def is_hex_digit byte_parts)
  then show ?thesis by (simp add: hex_bytes_def toHex_eq of_hex_to_hex_bytes)
qed

text \<open>The relay reads the client's request as the input it was made of.\<close>

definition reads_back ::
  "(signed_input \<Rightarrow> string) \<Rightarrow> (string \<Rightarrow> signed_input option) \<Rightarrow> (string \<Rightarrow> signed_input option) \<Rightarrow>
     signed_input \<Rightarrow> bool" where
  "reads_back encode decodeCommand decodePass i \<longleftrightarrow> (case i of
       SignedCommand _ _ _ \<Rightarrow> decodeCommand (encode i) = Some i
     | SignedPass _ _ _ \<Rightarrow> decodePass (encode i) = Some i)"

lemma inputOf_request:
  "reads_back encode decodeCommand decodePass i \<Longrightarrow>
   inputOf decodeCommand decodePass (request_body encode i after) = Some i"
  by (cases i) (simp_all add: inputOf_def request_body_def hex_bytes_toHex reads_back_def)

section \<open>The client's attempts\<close>

text \<open>What an attempt leads to: an end, or another attempt after a wait.\<close>

definition outcome :: "int \<Rightarrow> nat \<Rightarrow> fetched \<Rightarrow> client_answer + problem \<times> int" where
  "outcome backoff n x = (case x of
       Unreached e \<Rightarrow> Inr (FailedRequest e, backoff * 2 ^ (n - 1))
     | NoJson _ \<Rightarrow> Inl NotProtocol
     | Answered status header body \<Rightarrow> (case read_answer status header body of
           Inl answer \<Rightarrow> Inl answer
         | Inr (p, wait) \<Rightarrow> Inr (p, case wait of Some w \<Rightarrow> w | None \<Rightarrow> backoff * 2 ^ (n - 1))))"

lemma outcome_simps [simp]:
  "outcome backoff n (Unreached e) = Inr (FailedRequest e, backoff * 2 ^ (n - 1))"
  "outcome backoff n (NoJson st) = Inl NotProtocol"
  by (simp_all add: outcome_def)

lemma attempts_over: "n > attempts \<Longrightarrow> attempts_from fetch attempts backoff n p = (LedgerUnavailable p, [])"
  by (subst attempts_from.simps) simp

lemma attempts_end:
  "n \<le> attempts \<Longrightarrow> outcome backoff n (fetch n) = Inl answer \<Longrightarrow>
   attempts_from fetch attempts backoff n p = (answer, [])"
  by (subst attempts_from.simps)
    (auto simp: outcome_def Let_def split: fetched.splits sum.splits prod.splits)

lemma attempts_again:
  "n \<le> attempts \<Longrightarrow> outcome backoff n (fetch n) = Inr (q, wait) \<Longrightarrow>
   attempts_from fetch attempts backoff n p =
     (fst (attempts_from fetch attempts backoff (Suc n) q),
      (if n < attempts then wait # snd (attempts_from fetch attempts backoff (Suc n) q)
       else snd (attempts_from fetch attempts backoff (Suc n) q)))"
  by (subst attempts_from.simps)
    (auto simp: outcome_def Let_def split: fetched.splits sum.splits prod.splits)

text \<open>
  The client's answer, without the waits: what ends it first, or, when every attempt met a
  problem to try again for, that the ledger cannot be reached.
\<close>

lemma attempts_answer:
  "(case find (\<lambda>m. isl (outcome backoff m (fetch m))) [n..<Suc attempts] of
      Some m \<Rightarrow> fst (attempts_from fetch attempts backoff n p) = projl (outcome backoff m (fetch m))
    | None \<Rightarrow> \<exists>q. fst (attempts_from fetch attempts backoff n p) = LedgerUnavailable q)"
proof (induction "Suc attempts - n" arbitrary: n p)
  case 0
  then show ?case by (simp add: attempts_over)
next
  case (Suc d)
  then have n: "n \<le> attempts" by simp
  then have range: "[n..<Suc attempts] = n # [Suc n..<Suc attempts]" by (simp add: upt_conv_Cons)
  show ?case
  proof (cases "outcome backoff n (fetch n)")
    case (Inl answer)
    then show ?thesis by (simp only: range) (simp add: attempts_end[OF n])
  next
    case (Inr qw)
    obtain q wait where "qw = (q, wait)" by (cases qw)
    with Inr have "fst (attempts_from fetch attempts backoff n p) =
        fst (attempts_from fetch attempts backoff (Suc n) q)"
      by (simp add: attempts_again[OF n])
    moreover have "d = Suc attempts - Suc n" using Suc.hyps(2) by simp
    ultimately show ?thesis using Suc.hyps(1)[of "Suc n" q] Inr by (simp only: range) simp
  qed
qed

text \<open>The waits: one before each attempt but the first, until one ends it.\<close>

lemma attempts_waits:
  "snd (attempts_from fetch attempts backoff n p) =
     map (\<lambda>m. snd (projr (outcome backoff m (fetch m))))
       (takeWhile (\<lambda>m. \<not> isl (outcome backoff m (fetch m))) [n..<attempts])"
proof (induction "Suc attempts - n" arbitrary: n p)
  case 0
  then show ?case by (simp add: attempts_over)
next
  case (Suc d)
  then have n: "n \<le> attempts" by simp
  have d: "d = Suc attempts - Suc n" using Suc.hyps(2) by simp
  show ?case
  proof (cases "outcome backoff n (fetch n)")
    case (Inl answer)
    then show ?thesis using n by (cases "n < attempts") (simp_all add: attempts_end upt_conv_Cons)
  next
    case (Inr qw)
    obtain q wait where "qw = (q, wait)" by (cases qw)
    with Inr n Suc.hyps(1)[OF d, of q] show ?thesis
      by (cases "n < attempts") (simp_all add: attempts_again upt_conv_Cons)
  qed
qed

lemma attempts_obtained:
  assumes "attempts_from fetch attempts backoff n p = (Obtained b, ws)"
  shows "\<exists>m \<in> {n..attempts}. outcome backoff m (fetch m) = Inl (Obtained b)"
proof -
  let ?f = "find (\<lambda>m. isl (outcome backoff m (fetch m))) [n..<Suc attempts]"
  have answer: "fst (attempts_from fetch attempts backoff n p) = Obtained b" using assms by simp
  obtain m where m: "?f = Some m"
    using attempts_answer[where fetch = fetch and attempts = attempts and n = n and p = p and backoff = backoff] answer by (cases ?f) auto
  from find_Some_in[OF m] have "m \<in> {n..attempts}" "isl (outcome backoff m (fetch m))" by auto
  moreover have "projl (outcome backoff m (fetch m)) = Obtained b"
    using attempts_answer[where fetch = fetch and attempts = attempts and n = n and p = p and backoff = backoff] m answer by simp
  ultimately show ?thesis by (metis sum.collapse(1))
qed

lemma attempts_waits_length: "length (snd (attempts_from fetch attempts backoff n p)) \<le> attempts - n"
  using length_takeWhile_le[of _ "[n..<attempts]"] by (simp add: attempts_waits)

section \<open>From the relay to the client\<close>

lemma outcome_reply:
  assumes "outcome backoff n (relay_reply K sign T after i r) = Inl (Obtained b)"
  shows "\<exists>e. r = Some (Sponsored e) \<and> issueSponsorship K sign i NOTIONAL_COST = Inr b"
  using assms
  by (auto simp: outcome_def relay_reply_def read_answer_def error_body_def json_field_def Let_def
      fromHex_to_hex split: option.splits sponsor_reply.splits sum.splits if_splits json.splits)

lemma outcome_sponsored:
  "issueSponsorship K sign i NOTIONAL_COST = Inr b \<Longrightarrow> b \<noteq> [] \<Longrightarrow>
   outcome backoff n (relay_reply K sign T after i (Some (Sponsored e))) = Inl (Obtained b)"
  by (simp add: outcome_def relay_reply_def read_answer_def json_field_def fromHex_to_hex Let_def)

end
