(* ===== verification/SponsorshipProperties.thy ===== *)
theory SponsorshipProperties
  imports SponsorshipFacts
begin

text \<open>
  Properties of sponsorships, from the input a client signs to what the ledger service
  verifies, each with an instance on a small codec.
\<close>

section \<open>A codec\<close>

text \<open>
  Packages that have the laws of \<open>libraries_ok\<close>: costs and lengths in unary, a signature that
  is the key and the digest, a digest that keeps the first bytes.
\<close>

definition unary :: "nat \<Rightarrow> string" where "unary n = replicate n CHR ''x'' @ '';''"

definition read_unary :: "string \<Rightarrow> nat \<times> string" where
  "read_unary s = (length (takeWhile (\<lambda>c. c = CHR ''x'') s), tl (dropWhile (\<lambda>c. c = CHR ''x'') s))"

definition tiny_unsigned :: "frame \<Rightarrow> string" where
  "tiny_unsigned f = [char_of (frame_version f), char_of (frame_kind f)] @ frame_id f @ frame_digest f @
     unary (nat (frame_cost f))"

definition tiny_decode :: "string \<Rightarrow> (frame \<times> string) option" where
  "tiny_decode s = (if length s < 51 then None else
     let (cost, auth) = read_unary (drop 50 s) in
     Some (\<lparr>frame_version = of_char (s ! 0), frame_kind = of_char (s ! 1), frame_id = take 16 (drop 2 s),
            frame_digest = take 32 (drop 18 s), frame_cost = int cost\<rparr>, auth))"

definition tiny_authorisation :: "decoded_authorisation \<Rightarrow> string" where
  "tiny_authorisation d = unary (length (da_kind d)) @ unary (length (da_key d)) @
     da_kind d @ da_key d @ da_signature d"

definition tiny_read_authorisation :: "string \<Rightarrow> decoded_authorisation option" where
  "tiny_read_authorisation s = (let (k, s1) = read_unary s; (n, s2) = read_unary s1 in
     Some \<lparr>da_kind = take k s2, da_key = take n (drop k s2), da_signature = drop (k + n) s2\<rparr>)"

definition tiny_libraries :: libraries where
  "tiny_libraries = \<lparr>l_unsigned = tiny_unsigned, l_encode = (\<lambda>f auth. tiny_unsigned f @ auth),
     l_decode = tiny_decode, l_toHex = to_hex, l_fromHex = hex_bytes,
     l_blake2b = (\<lambda>s. take 32 (s @ replicate 32 CHR ''0'')), l_framing = input_authorisation,
     l_command_kind = 0, l_pass_kind = 1, l_authorisation = tiny_read_authorisation,
     l_encodeAuthorisation = tiny_authorisation, l_account = Some, l_digest = (\<lambda>p. p),
     l_verify = (\<lambda>sig digest key. Some (sig = key @ digest)), l_normalise = (\<lambda>sig _. Some sig)\<rparr>"

lemma read_unary: "read_unary (unary n @ s) = (n, s)"
  by (induction n) (simp_all add: read_unary_def unary_def)

lemma tiny_decode_encode:
  assumes "frame_ok f"
  shows "tiny_decode (tiny_unsigned f @ auth) = Some (f, auth)"
proof -
  let ?s = "tiny_unsigned f @ auth"
  have s: "?s = [char_of (frame_version f), char_of (frame_kind f)] @ frame_id f @ frame_digest f @
      unary (nat (frame_cost f)) @ auth"
    by (simp add: tiny_unsigned_def)
  have "drop 50 ?s = unary (nat (frame_cost f)) @ auth" "take 16 (drop 2 ?s) = frame_id f"
    "take 32 (drop 18 ?s) = frame_digest f" "\<not> length ?s < 51"
    using assms unfolding s by (simp_all add: frame_ok_def numeral_2_eq_2 unary_def)
  moreover have "of_char (?s ! 0) = frame_version f" "of_char (?s ! 1) = frame_kind f"
    using assms unfolding s by (simp_all add: frame_ok_def of_char_of)
  ultimately show ?thesis using assms
    by (simp add: tiny_decode_def read_unary frame_ok_def)
qed

lemma hex_digit_of_value: "is_hex a \<Longrightarrow> hex_value a < 16 \<and> hex_digit (hex_value a) = a"
proof -
  have "list_all (\<lambda>a. hex_value a < 16 \<and> hex_digit (hex_value a) = a) ''0123456789abcdef''" by code_simp
  then show "is_hex a \<Longrightarrow> ?thesis" unfolding is_hex_def list_all_iff by blast
qed

lemma hex_of_hex_byte:
  assumes "is_hex a" "is_hex b"
  shows "hex_of_byte (char_of (16 * hex_value a + hex_value b)) = [a, b]"
proof -
  let ?n = "16 * hex_value a + hex_value b"
  have ab: "hex_value a < 16" "hex_value b < 16" using assms hex_digit_of_value by blast+
  then have "?n < 256" "?n div 16 = hex_value a" "?n mod 16 = hex_value b" by simp_all
  then have "(of_char (char_of ?n :: char) :: nat) = ?n" by (simp add: of_char_of)
  then show ?thesis using \<open>?n div 16 = hex_value a\<close> \<open>?n mod 16 = hex_value b\<close>
    hex_digit_of_value[OF assms(1)] hex_digit_of_value[OF assms(2)]
    by (simp only: hex_of_byte_def Let_def)
qed

lemma to_hex_of_hex: "even (length h) \<Longrightarrow> list_all is_hex h \<Longrightarrow> to_hex (of_hex h) = h"
  by (induction h rule: of_hex.induct) (auto simp: to_hex_def hex_of_hex_byte)

lemma tiny_ok: "libraries_ok tiny_libraries"
proof -
  have "f = g" if "frame_ok f" "frame_ok g" "tiny_unsigned f = tiny_unsigned g" for f g
    using tiny_decode_encode[OF that(1), of "''''"] tiny_decode_encode[OF that(2), of "''''"] that(3) by simp
  moreover have "tiny_read_authorisation (tiny_authorisation d) = Some d" for d
    by (cases d) (simp add: tiny_read_authorisation_def tiny_authorisation_def read_unary)
  ultimately show ?thesis
    by (auto simp: libraries_ok_def tiny_libraries_def tiny_decode_encode hex_bytes_def to_hex_of_hex)
qed

section \<open>Properties\<close>

text \<open>
  C26. Encoding and strict decoding of a sponsorship are inverse: bytes decode to a value exactly
  when they are that value's encoding, so a value has one encoding and no other bytes, with a
  longer cost, trailing bytes or another version, are accepted.
\<close>

lemma sponsorship_decoding_is_strict:
  assumes "libraries_ok K"
  shows "decodeSponsorship K b = Inr v \<longleftrightarrow> encodeSponsorship K v = Inr b"
  using decode_encodes encode_decodes[OF assms] by blast

definition tiny_transfer :: signed_input where
  "tiny_transfer = SignedCommand (concat (replicate 16 ''0a'')) (TransferTicket ''t1'' ''gig'') ''ana''"

definition tiny_value :: sponsorship_value where
  "tiny_value = \<lparr>sv_target = sponsorshipTarget tiny_libraries tiny_transfer, sv_cost = 3, sv_authorisation = ''auth''\<rparr>"

lemma sponsorship_decoding_is_strict_witness:
  "\<exists>b. encodeSponsorship tiny_libraries tiny_value = Inr b \<and> decodeSponsorship tiny_libraries b = Inr tiny_value"
proof -
  have "\<not> isl (encodeSponsorship tiny_libraries tiny_value)" by code_simp
  then obtain b where "encodeSponsorship tiny_libraries tiny_value = Inr b"
    by (cases "encodeSponsorship tiny_libraries tiny_value") auto
  with sponsorship_decoding_is_strict[OF tiny_ok] show ?thesis by blast
qed

text \<open>
  C25. A sponsorship binds one input: two inputs the same bytes verify for have the same kind,
  the same operation or pass id and the same digest; what verifies is signed by a configured
  sponsor over the payload naming exactly these and the cost, and a payload names nothing
  else.
\<close>

lemma sponsorship_binds_one_input:
  assumes "libraries_ok K" "verifySponsorship K b i S = Inr w"
  shows "v_sponsor w \<in> set S \<and>
    (\<exists>v payload. decodeSponsorship K b = Inr v \<and>
       sponsorshipSigningPayload K (sponsorshipTarget K i) (v_cost w) = Inr payload \<and>
       p256_signed K (v_sponsor w) (sponsorshipTarget K i) (v_cost w) (sv_authorisation v) \<and>
       (\<forall>t c. sponsorshipSigningPayload K t c = Inr payload \<longrightarrow> t = sponsorshipTarget K i \<and> c = v_cost w)) \<and>
    (\<forall>j S' w'. verifySponsorship K b j S' = Inr w' \<longrightarrow>
       sponsorshipTarget K j = sponsorshipTarget K i \<and> v_cost w' = v_cost w)"
proof -
  from assms(2) obtain auth where w: "v_sponsor w \<in> set S"
    and d: "decodeSponsorship K b =
      Inr \<lparr>sv_target = sponsorshipTarget K i, sv_cost = v_cost w, sv_authorisation = auth\<rparr>"
    and s: "p256_signed K (v_sponsor w) (sponsorshipTarget K i) (v_cost w) auth"
    by (auto simp: verify_Inr_iff)
  from s obtain payload where p: "sponsorshipSigningPayload K (sponsorshipTarget K i) (v_cost w) = Inr payload"
    by (auto simp: p256_signed_def)
  have "\<forall>j S' w'. verifySponsorship K b j S' = Inr w' \<longrightarrow>
      sponsorshipTarget K j = sponsorshipTarget K i \<and> v_cost w' = v_cost w"
    using d by (auto simp: verify_Inr_iff)
  with w d s p payload_inject[OF assms(1)] show ?thesis by fastforce
qed

definition tiny_key :: kms_key where
  "tiny_key = \<lparr>publicKey = ''sponsor'', signDigest = (\<lambda>d. Some (''sponsor'' @ d, True))\<rparr>"

definition tiny_sponsorship :: string where
  "tiny_sponsorship = (case issueSponsorship tiny_libraries (kmsP256Signer tiny_libraries tiny_key) tiny_transfer 0 of
     Inr b \<Rightarrow> b | Inl _ \<Rightarrow> [])"

lemma sponsorship_binds_one_input_witness:
  "\<exists>v payload. decodeSponsorship tiny_libraries tiny_sponsorship = Inr v \<and>
     sponsorshipSigningPayload tiny_libraries (sponsorshipTarget tiny_libraries tiny_transfer) 0 = Inr payload"
proof -
  have "verifySponsorship tiny_libraries tiny_sponsorship tiny_transfer [''sponsor''] =
      Inr \<lparr>v_sponsor = ''sponsor'', v_cost = 0\<rparr>" by code_simp
  from sponsorship_binds_one_input[OF tiny_ok this] show ?thesis by auto
qed

text \<open>
  C24. What a client obtains from the relay is worth submitting: whatever answers, failures and
  waits its requests met, bytes it returns come from a request within its attempts in which
  the relay read exactly the client's input, found it signed by an account whose credential
  verifies it and entitled by the copy, and they verify for that input under the sponsor's
  account at the nil cost.
\<close>

lemma obtained_sponsorship_verifies:
  assumes "libraries_ok K" "kms_account K k = Some a" "a \<in> set S"
    and decode: "reads_back encode decodeCommand decodePass i"
    and served: "\<And>n. fetch n = relay_reply K (kmsP256Signer K k) T seen i (Some (fst (sponsor_request P (D n) (D' n) l
        decodeCommand decodePass (request_body encode i after) (waited n) (t n) (t' n) (m n)))) \<or>
      fetch n = relay_reply K (kmsP256Signer K k) T seen i None \<or>
      (\<exists>e. fetch n = Unreached e) \<or> (\<exists>st. fetch n = NoJson st)"
    and asked: "ask_relay fetch attempts backoff = Some (Obtained b, waits)"
  shows "verifySponsorship K b i S = Inr \<lparr>v_sponsor = a, v_cost = 0\<rparr> \<and> length waits < attempts \<and>
    (\<exists>n \<in> {1..attempts}. \<exists>signer e.
       signed_by P (D n) i signer \<and> supported P (D n) i signer e \<or>
       signed_by P (D' n) i signer \<and> supported P (D' n) i signer e)"
proof -
  from asked have att: "1 \<le> attempts" and run: "attempts_from fetch attempts backoff 1 NotReached = (Obtained b, waits)"
    by (auto simp: ask_relay_def split: if_splits)
  obtain n where n: "n \<in> {1..attempts}" and out: "outcome backoff n (fetch n) = Inl (Obtained b)"
    using attempts_obtained[OF run] by auto
  let ?r = "fst (sponsor_request P (D n) (D' n) l decodeCommand decodePass (request_body encode i after)
      (waited n) (t n) (t' n) (m n))"
  obtain reply where f: "fetch n = relay_reply K (kmsP256Signer K k) T seen i reply"
    and reply: "reply = Some ?r \<or> reply = None"
    using served[of n] out by auto
  from outcome_reply[OF out[unfolded f]] obtain e where e: "reply = Some (Sponsored e)"
    and b: "issueSponsorship K (kmsP256Signer K k) i NOTIONAL_COST = Inr b" by blast
  have r: "?r = Sponsored e" using reply e by simp
  have "inputOf decodeCommand decodePass (request_body encode i after) = Some i"
    using decode by (rule inputOf_request)
  moreover obtain m' where "sponsor_request P (D n) (D' n) l decodeCommand decodePass (request_body encode i after)
      (waited n) (t n) (t' n) (m n) = (Sponsored e, m')"
    using r by (metis prod.collapse)
  ultimately have "\<exists>signer. signed_by P (D n) i signer \<and> supported P (D n) i signer e \<or>
      signed_by P (D' n) i signer \<and> supported P (D' n) i signer e"
    using sponsor_request_entitled by fastforce
  with n have "\<exists>n \<in> {1..attempts}. \<exists>signer e.
      signed_by P (D n) i signer \<and> supported P (D n) i signer e \<or>
      signed_by P (D' n) i signer \<and> supported P (D' n) i signer e" by blast
  moreover have "length waits < attempts"
    using attempts_waits_length[of fetch attempts backoff 1 NotReached] run att by simp
  ultimately show ?thesis using issued_verifies[OF assms(1-3) b] by (simp add: NOTIONAL_COST_def)
qed

definition tiny_texts :: reply_texts where
  "tiny_texts = \<lparr>refusal_text = (\<lambda>_. ''refused''), malformed_text = ''malformed'', server_error = JNull\<rparr>"

definition tiny_limit :: rate_limit where
  "tiny_limit = \<lparr>max_registrations = 2, limit_window = 100\<rparr>"

definition tiny_encode :: "signed_input \<Rightarrow> string" where
  "tiny_encode i = (if i = tiny_transfer then ''a'' else ''b'')"

definition tiny_decode_command :: "string \<Rightarrow> signed_input option" where
  "tiny_decode_command s = (if s = ''a'' then Some tiny_transfer else None)"

definition tiny_request :: "sponsor_reply \<times> registrations" where
  "tiny_request = sponsor_request open_profile open_copy open_copy tiny_limit tiny_decode_command (\<lambda>_. None)
     (request_body tiny_encode tiny_transfer None) True 0 0 []"

text \<open>The relay cannot be reached at first, and then serves the request.\<close>

definition tiny_fetch :: "nat \<Rightarrow> fetched" where
  "tiny_fetch n = (if n = 1 then Unreached ''reset''
     else relay_reply tiny_libraries (kmsP256Signer tiny_libraries tiny_key) tiny_texts [] tiny_transfer
       (Some (fst tiny_request)))"

lemma obtained_sponsorship_verifies_witness:
  "ask_relay tiny_fetch 5 250 = Some (Obtained tiny_sponsorship, [250]) \<and>
   verifySponsorship tiny_libraries tiny_sponsorship tiny_transfer [''sponsor''] =
     Inr \<lparr>v_sponsor = ''sponsor'', v_cost = 0\<rparr>"
proof -
  have "fst tiny_request = Sponsored (TicketHeld ''t1'' ''ana'')" "tiny_sponsorship \<noteq> []"
    "\<not> isl (issueSponsorship tiny_libraries (kmsP256Signer tiny_libraries tiny_key) tiny_transfer NOTIONAL_COST)"
    by code_simp+
  then have "outcome 250 2 (tiny_fetch 2) = Inl (Obtained tiny_sponsorship)"
    by (auto simp: tiny_fetch_def tiny_sponsorship_def NOTIONAL_COST_def intro: outcome_sponsored split: sum.splits)
  then have "attempts_from tiny_fetch 5 250 2 p = (Obtained tiny_sponsorship, [])" for p
    by (simp add: attempts_end)
  moreover have "outcome 250 1 (tiny_fetch 1) = Inr (FailedRequest ''reset'', 250)" by (simp add: tiny_fetch_def)
  ultimately have asked: "ask_relay tiny_fetch 5 250 = Some (Obtained tiny_sponsorship, [250])"
    by (simp add: ask_relay_def attempts_again numeral_2_eq_2)
  have "kms_account tiny_libraries tiny_key = Some ''sponsor''"
    "reads_back tiny_encode tiny_decode_command (\<lambda>_. None) tiny_transfer" by code_simp+
  note laws = obtained_sponsorship_verifies[OF tiny_ok this(1) _ this(2), where S = "[''sponsor'']"]
  have "tiny_fetch n = relay_reply tiny_libraries (kmsP256Signer tiny_libraries tiny_key) tiny_texts [] tiny_transfer
      (Some (fst tiny_request)) \<or> (\<exists>e. tiny_fetch n = Unreached e)" for n
    by (simp add: tiny_fetch_def)
  then have "verifySponsorship tiny_libraries tiny_sponsorship tiny_transfer [''sponsor''] =
      Inr \<lparr>v_sponsor = ''sponsor'', v_cost = 0\<rparr>"
    using laws[where fetch = tiny_fetch and T = tiny_texts and seen = "[]" and P = open_profile
      and D = "\<lambda>_. open_copy" and D' = "\<lambda>_. open_copy" and l = tiny_limit and after = None
      and waited = "\<lambda>_. True" and t = "\<lambda>_. 0" and t' = "\<lambda>_. 0" and m = "\<lambda>_. []", OF _ _ asked]
    unfolding tiny_request_def by auto
  with asked show ?thesis by blast
qed

end
