(* ===== verification/PersonalData.thy ===== *)
theory PersonalData
  imports Accounts Provider
begin

text \<open>
  The personal-data lint of metadata schemas (\<open>packages/metadata-schema/src/personal-data.ts\<close>):
  the field names denied, and the walk over a JSON Schema that finds every field it declares.
  A JSON object is the list of its entries, in the order of \<open>Object.entries\<close>.
\<close>

section \<open>Denied names\<close>

definition DENIED_FIELD_NAMES :: "string list" where
  "DENIED_FIELD_NAMES = [
    ''firstname'', ''middlename'', ''lastname'', ''givenname'', ''familyname'', ''surname'',
    ''fullname'', ''legalname'', ''personalname'', ''birthname'', ''maidenname'', ''username'',
    ''email'', ''emailaddress'', ''phone'', ''phonenumber'', ''telephone'', ''mobile'',
    ''mobilenumber'', ''homeaddress'', ''personaladdress'', ''residentialaddress'',
    ''billingaddress'', ''shippingaddress'', ''ipaddress'', ''dateofbirth'', ''birthdate'',
    ''birthday'', ''dob'', ''age'', ''gender'', ''sex'', ''nationality'', ''nationalid'',
    ''idnumber'', ''identitynumber'', ''documentnumber'', ''passport'', ''passportnumber'',
    ''taxid'', ''taxnumber'', ''ssn'', ''socialsecuritynumber'', ''driverslicence'',
    ''driverslicense'', ''cardnumber'', ''iban'', ''bankaccount'', ''bankaccountnumber'',
    ''holdername'', ''ownername'', ''attendeename'', ''buyername'', ''customername'',
    ''contactname'']"

definition DENIED_FIELD_NAME_FRAGMENTS :: "string list" where
  "DENIED_FIELD_NAME_FRAGMENTS = [
    ''email'', ''phone'', ''passport'', ''birth'', ''firstname'', ''lastname'', ''surname'',
    ''fullname'', ''givenname'', ''familyname'', ''legalname'', ''personalname'', ''nationalid'']"

definition field_char :: "char \<Rightarrow> bool" where
  "field_char c \<longleftrightarrow> (let n = of_char c :: nat in (97 \<le> n \<and> n \<le> 122) \<or> (48 \<le> n \<and> n \<le> 57))"

definition normaliseFieldName :: "string \<Rightarrow> string" where
  "normaliseFieldName field = filter field_char (map lower_char field)"

fun has_part :: "string \<Rightarrow> string \<Rightarrow> bool" where
  "has_part [] part \<longleftrightarrow> part = []"
| "has_part (c # s) part \<longleftrightarrow> take (length part) (c # s) = part \<or> has_part s part"

definition isDeniedFieldName :: "string \<Rightarrow> bool" where
  "isDeniedFieldName field = (let n = normaliseFieldName field in
     n \<in> set DENIED_FIELD_NAMES \<or> list_ex (has_part n) DENIED_FIELD_NAME_FRAGMENTS)"

section \<open>The lint\<close>

record violation =
  v_pointer :: string
  v_field :: string

definition replace_char :: "char \<Rightarrow> string \<Rightarrow> string \<Rightarrow> string" where
  "replace_char c r s = concat (map (\<lambda>x. if x = c then r else [x]) s)"

definition escapePointer :: "string \<Rightarrow> string" where
  "escapePointer segment = replace_char CHR ''/'' ''~1'' (replace_char CHR ''~'' ''~0'' segment)"

definition SUBSCHEMA_KEYWORDS :: "string list" where
  "SUBSCHEMA_KEYWORDS = [''items'', ''contains'', ''not'', ''if'', ''then'', ''else'',
     ''additionalProperties'', ''unevaluatedProperties'', ''unevaluatedItems'', ''propertyNames'',
     ''contentSchema'']"

definition SUBSCHEMA_ARRAY_KEYWORDS :: "string list" where
  "SUBSCHEMA_ARRAY_KEYWORDS = [''allOf'', ''anyOf'', ''oneOf'', ''prefixItems'']"

definition SUBSCHEMA_MAP_KEYWORDS :: "string list" where
  "SUBSCHEMA_MAP_KEYWORDS = [''$defs'', ''definitions'', ''patternProperties'']"

text \<open>The entries of a value that is an object, and the items of one that is an array.\<close>

definition entries_of :: "json option \<Rightarrow> (string \<times> json) list" where
  "entries_of v = (case v of Some (JObj fs) \<Rightarrow> fs | _ \<Rightarrow> [])"

definition items_of :: "json option \<Rightarrow> (nat \<times> json) list" where
  "items_of v = (case v of Some (JArr xs) \<Rightarrow> enumerate 0 xs | _ \<Rightarrow> [])"

definition check_field :: "string \<Rightarrow> string \<Rightarrow> violation list" where
  "check_field field pointer =
     (if isDeniedFieldName field then [\<lparr>v_pointer = pointer, v_field = field\<rparr>] else [])"

definition check_items :: "json option \<Rightarrow> string \<Rightarrow> violation list" where
  "check_items v pointer = concat (map (\<lambda>(i, x). case x of
     JStr field \<Rightarrow> check_field field (pointer @ ''/'' @ decimal i) | _ \<Rightarrow> []) (items_of v))"

lemma entries_size: "(f, x) \<in> set (entries_of (map_of fs k)) \<Longrightarrow> size x < size (JObj fs)"
proof -
  assume "(f, x) \<in> set (entries_of (map_of fs k))"
  then obtain gs where gs: "map_of fs k = Some (JObj gs)" "(f, x) \<in> set gs"
    by (cases "map_of fs k") (auto simp: entries_of_def split: json.splits)
  have "size x < size (JObj gs)" using gs(2) by (induction gs) auto
  moreover have "size (JObj gs) < size (JObj fs)" using map_of_SomeD[OF gs(1)] by (induction fs) auto
  ultimately show ?thesis by simp
qed

lemma items_size: "(i, x) \<in> set (items_of (map_of fs k)) \<Longrightarrow> size x < size (JObj fs)"
proof -
  assume "(i, x) \<in> set (items_of (map_of fs k))"
  then obtain xs where xs: "map_of fs k = Some (JArr xs)" "x \<in> set xs"
    by (cases "map_of fs k") (auto simp: items_of_def in_set_enumerate_eq split: json.splits)
  have "size x < size (JArr xs)" using xs(2) by (induction xs) auto
  moreover have "size (JArr xs) < size (JObj fs)" using map_of_SomeD[OF xs(1)] by (induction fs) auto
  ultimately show ?thesis by simp
qed

lemma field_size: "map_of fs k = Some x \<Longrightarrow> size x < size (JObj fs)"
  by (drule map_of_SomeD, induction fs) auto

function walk_schema :: "json \<Rightarrow> string \<Rightarrow> violation list" where
  "walk_schema node pointer = (case node of
     JObj fs \<Rightarrow>
       concat (map (\<lambda>(field, sub). let at = pointer @ ''/properties/'' @ escapePointer field in
         check_field field at @ walk_schema sub at) (entries_of (map_of fs ''properties''))) @
       check_items (map_of fs ''required'') (pointer @ ''/required'') @
       concat (map (\<lambda>(field, deps). let at = pointer @ ''/dependentRequired/'' @ escapePointer field in
         check_field field at @ check_items (Some deps) at) (entries_of (map_of fs ''dependentRequired''))) @
       concat (map (\<lambda>(field, sub). let at = pointer @ ''/dependentSchemas/'' @ escapePointer field in
         check_field field at @ walk_schema sub at) (entries_of (map_of fs ''dependentSchemas''))) @
       concat (map (\<lambda>keyword. case map_of fs keyword of None \<Rightarrow> []
         | Some sub \<Rightarrow> walk_schema sub (pointer @ ''/'' @ keyword)) SUBSCHEMA_KEYWORDS) @
       concat (map (\<lambda>keyword. concat (map (\<lambda>(i, sub).
         walk_schema sub (pointer @ ''/'' @ keyword @ ''/'' @ decimal i)) (items_of (map_of fs keyword))))
         SUBSCHEMA_ARRAY_KEYWORDS) @
       concat (map (\<lambda>keyword. concat (map (\<lambda>(key, sub).
         walk_schema sub (pointer @ ''/'' @ keyword @ ''/'' @ escapePointer key)) (entries_of (map_of fs keyword))))
         SUBSCHEMA_MAP_KEYWORDS)
   | _ \<Rightarrow> [])"
  by pat_completeness auto

termination walk_schema
  by (relation "measure (\<lambda>(node, _). size node)")
    (auto dest: entries_size items_size field_size simp del: json.size)

declare walk_schema.simps [simp del]

definition lintPersonalData :: "json \<Rightarrow> violation list" where
  "lintPersonalData schema = walk_schema schema []"

end
