(* ===== verification/PersonalDataFacts.thy ===== *)
theory PersonalDataFacts
  imports PersonalData Numerals
begin

text \<open>
  What the lint promises: it finds exactly the denied names among the fields a schema declares,
  at any depth, and a name is denied however it is written.
\<close>

section \<open>What a schema declares\<close>

text \<open>The subschemas of a schema, with their JSON Pointers.\<close>

inductive schema_at :: "json \<Rightarrow> json \<Rightarrow> string \<Rightarrow> bool" where
  at_root: "schema_at r r []"
| at_field: "schema_at r (JObj fs) p \<Longrightarrow>
    k \<in> {''properties'', ''dependentSchemas''} \<union> set SUBSCHEMA_MAP_KEYWORDS \<Longrightarrow>
    (f, x) \<in> set (entries_of (map_of fs k)) \<Longrightarrow> schema_at r x (p @ ''/'' @ k @ ''/'' @ escapePointer f)"
| at_keyword: "schema_at r (JObj fs) p \<Longrightarrow> k \<in> set SUBSCHEMA_KEYWORDS \<Longrightarrow>
    map_of fs k = Some x \<Longrightarrow> schema_at r x (p @ ''/'' @ k)"
| at_item: "schema_at r (JObj fs) p \<Longrightarrow> k \<in> set SUBSCHEMA_ARRAY_KEYWORDS \<Longrightarrow>
    (i, x) \<in> set (items_of (map_of fs k)) \<Longrightarrow> schema_at r x (p @ ''/'' @ k @ ''/'' @ decimal i)"

text \<open>The field names a schema declares, each with the JSON Pointer of where it appears.\<close>

inductive declares :: "json \<Rightarrow> string \<Rightarrow> string \<Rightarrow> bool" where
  declares_entry: "schema_at r (JObj fs) p \<Longrightarrow>
    k \<in> {''properties'', ''dependentRequired'', ''dependentSchemas''} \<Longrightarrow>
    (f, x) \<in> set (entries_of (map_of fs k)) \<Longrightarrow> declares r f (p @ ''/'' @ k @ ''/'' @ escapePointer f)"
| declares_required: "schema_at r (JObj fs) p \<Longrightarrow>
    (i, JStr f) \<in> set (items_of (map_of fs ''required'')) \<Longrightarrow> declares r f (p @ ''/required/'' @ decimal i)"
| declares_dependent: "schema_at r (JObj fs) p \<Longrightarrow>
    (g, x) \<in> set (entries_of (map_of fs ''dependentRequired'')) \<Longrightarrow> (i, JStr f) \<in> set (items_of (Some x)) \<Longrightarrow>
    declares r f (p @ ''/dependentRequired/'' @ escapePointer g @ ''/'' @ decimal i)"

section \<open>The walk\<close>

lemma set_check_field:
  "v \<in> set (check_field f p) \<longleftrightarrow> isDeniedFieldName f \<and> v = \<lparr>v_pointer = p, v_field = f\<rparr>"
  by (auto simp: check_field_def)

lemma walk_object: "v \<in> set (walk_schema node p) \<Longrightarrow> \<exists>fs. node = JObj fs"
proof (rule ccontr)
  assume "v \<in> set (walk_schema node p)" "\<nexists>fs. node = JObj fs"
  then show False by (subst (asm) walk_schema.simps) (cases node, auto)
qed

lemma in_pairs:
  "(\<exists>y \<in> set xs. v \<in> set (case y of (a, b) \<Rightarrow> h a b)) \<longleftrightarrow> (\<exists>a b. (a, b) \<in> set xs \<and> v \<in> set (h a b))"
  by auto

lemma in_concat_keys:
  "v \<in> set (concat (map h ks)) \<longleftrightarrow> (\<exists>k \<in> set ks. v \<in> set (h k))"
  by simp

lemma in_case_option:
  "v \<in> set (case y of None \<Rightarrow> [] | Some x \<Rightarrow> g x) \<longleftrightarrow> (\<exists>x. y = Some x \<and> v \<in> set (g x))"
  by (cases y) auto

lemma set_check_items:
  "v \<in> set (check_items x p) \<longleftrightarrow>
     (\<exists>i f. (i, JStr f) \<in> set (items_of x) \<and> v \<in> set (check_field f (p @ ''/'' @ decimal i)))"
proof -
  have str: "v \<in> set (case y of JStr f \<Rightarrow> check_field f q | _ \<Rightarrow> []) \<longleftrightarrow>
      (\<exists>f. y = JStr f \<and> v \<in> set (check_field f q))" for y q
    by (cases y) auto
  show ?thesis unfolding check_items_def in_concat_keys in_pairs str by blast
qed

lemma walk_step:
  "v \<in> set (walk_schema (JObj fs) p) \<longleftrightarrow>
     (\<exists>f x. (f, x) \<in> set (entries_of (map_of fs ''properties'')) \<and>
        (v \<in> set (check_field f (p @ ''/properties/'' @ escapePointer f)) \<or>
         v \<in> set (walk_schema x (p @ ''/properties/'' @ escapePointer f)))) \<or>
     v \<in> set (check_items (map_of fs ''required'') (p @ ''/required'')) \<or>
     (\<exists>f x. (f, x) \<in> set (entries_of (map_of fs ''dependentRequired'')) \<and>
        (v \<in> set (check_field f (p @ ''/dependentRequired/'' @ escapePointer f)) \<or>
         v \<in> set (check_items (Some x) (p @ ''/dependentRequired/'' @ escapePointer f)))) \<or>
     (\<exists>f x. (f, x) \<in> set (entries_of (map_of fs ''dependentSchemas'')) \<and>
        (v \<in> set (check_field f (p @ ''/dependentSchemas/'' @ escapePointer f)) \<or>
         v \<in> set (walk_schema x (p @ ''/dependentSchemas/'' @ escapePointer f)))) \<or>
     (\<exists>k \<in> set SUBSCHEMA_KEYWORDS. \<exists>x. map_of fs k = Some x \<and> v \<in> set (walk_schema x (p @ ''/'' @ k))) \<or>
     (\<exists>k \<in> set SUBSCHEMA_ARRAY_KEYWORDS. \<exists>i x. (i, x) \<in> set (items_of (map_of fs k)) \<and>
        v \<in> set (walk_schema x (p @ ''/'' @ k @ ''/'' @ decimal i))) \<or>
     (\<exists>k \<in> set SUBSCHEMA_MAP_KEYWORDS. \<exists>f x. (f, x) \<in> set (entries_of (map_of fs k)) \<and>
        v \<in> set (walk_schema x (p @ ''/'' @ k @ ''/'' @ escapePointer f)))"
  by (subst walk_schema.simps)
    (simp only: json.case set_append Un_iff Let_def in_concat_keys in_pairs in_case_option)

section \<open>Soundness and completeness\<close>

lemmas declares_intros =
  declares_entry[where k = "''properties''", simplified] declares_entry[where k = "''dependentRequired''", simplified]
  declares_entry[where k = "''dependentSchemas''", simplified] declares_required declares_dependent

lemmas at_intros =
  at_field[where k = "''properties''", simplified] at_field[where k = "''dependentSchemas''", simplified]
  at_field at_keyword at_item

lemma walk_sound:
  assumes "v \<in> set (walk_schema node p)" "schema_at r node p"
  shows "declares r (v_field v) (v_pointer v) \<and> isDeniedFieldName (v_field v)" (is ?ok)
  using assms
proof (induction "size node" arbitrary: node p rule: less_induct)
  case less
  obtain fs where fs: "node = JObj fs" using walk_object[OF less.prems(1)] by blast
  note at = less.prems(2)[unfolded fs]
  have checked: ?ok if "v \<in> set (check_field f q)" "declares r f q" for f q
    using that by (auto simp: set_check_field)
  have deeper: ?ok if "v \<in> set (walk_schema x q)" "schema_at r x q" "size x < size (JObj fs)" for x q
    using less.hyps[of x q] that fs by blast
  have entries: ?ok if "v \<in> set (walk_schema x q)" "schema_at r x q" "(f, x) \<in> set (entries_of (map_of fs k))" for x q f k
    using deeper that entries_size by blast
  from less.prems(1)[unfolded fs walk_step set_check_items] show ?case
  proof (elim disjE exE conjE bexE)
    fix k x assume "k \<in> set SUBSCHEMA_KEYWORDS" "map_of fs k = Some x" "v \<in> set (walk_schema x (p @ ''/'' @ k))"
    then show ?ok using deeper at_keyword[OF at] field_size by blast
  next
    fix k i x assume "k \<in> set SUBSCHEMA_ARRAY_KEYWORDS" "(i, x) \<in> set (items_of (map_of fs k))"
      "v \<in> set (walk_schema x (p @ ''/'' @ k @ ''/'' @ decimal i))"
    then show ?ok using deeper at_item[OF at] items_size by blast
  next
    fix k f x assume "k \<in> set SUBSCHEMA_MAP_KEYWORDS" "(f, x) \<in> set (entries_of (map_of fs k))"
      "v \<in> set (walk_schema x (p @ ''/'' @ k @ ''/'' @ escapePointer f))"
    then show ?ok using entries at_field[OF at, of k] by blast
  next
    fix f x assume a: "(f, x) \<in> set (entries_of (map_of fs ''properties''))"
      "v \<in> set (check_field f (p @ ''/properties/'' @ escapePointer f))"
    show ?ok by (rule checked[OF a(2)]) (use declares_intros(1)[OF at a(1)] in simp)
  next
    fix f x assume a: "(f, x) \<in> set (entries_of (map_of fs ''properties''))"
      "v \<in> set (walk_schema x (p @ ''/properties/'' @ escapePointer f))"
    show ?ok by (rule entries[OF a(2) _ a(1)]) (use at_intros(1)[OF at a(1)] in simp)
  next
    fix f x assume a: "(f, x) \<in> set (entries_of (map_of fs ''dependentRequired''))"
      "v \<in> set (check_field f (p @ ''/dependentRequired/'' @ escapePointer f))"
    show ?ok by (rule checked[OF a(2)]) (use declares_intros(2)[OF at a(1)] in simp)
  next
    fix f x assume a: "(f, x) \<in> set (entries_of (map_of fs ''dependentSchemas''))"
      "v \<in> set (check_field f (p @ ''/dependentSchemas/'' @ escapePointer f))"
    show ?ok by (rule checked[OF a(2)]) (use declares_intros(3)[OF at a(1)] in simp)
  next
    fix f x assume a: "(f, x) \<in> set (entries_of (map_of fs ''dependentSchemas''))"
      "v \<in> set (walk_schema x (p @ ''/dependentSchemas/'' @ escapePointer f))"
    show ?ok by (rule entries[OF a(2) _ a(1)]) (use at_intros(2)[OF at a(1)] in simp)
  next
    fix i f assume a: "(i, JStr f) \<in> set (items_of (map_of fs ''required''))"
      "v \<in> set (check_field f ((p @ ''/required'') @ ''/'' @ decimal i))"
    show ?ok by (rule checked[OF a(2)]) (use declares_required[OF at a(1)] in simp)
  next
    fix g x i f assume a: "(g, x) \<in> set (entries_of (map_of fs ''dependentRequired''))"
      "(i, JStr f) \<in> set (items_of (Some x))"
      "v \<in> set (check_field f ((p @ ''/dependentRequired/'' @ escapePointer g) @ ''/'' @ decimal i))"
    show ?ok by (rule checked[OF a(3)]) (use declares_dependent[OF at a(1,2)] in simp)
  qed
qed

lemma walk_within:
  assumes "schema_at r x q" "v \<in> set (walk_schema x q)"
  shows "v \<in> set (walk_schema r [])"
  using assms
proof induction
  case (at_field r fs p k f x)
  then show ?case by (intro at_field.IH) (auto simp: walk_step)
next
  case (at_keyword r fs p k x)
  then show ?case by (intro at_keyword.IH) (auto simp: walk_step)
next
  case (at_item r fs p k i x)
  then show ?case by (intro at_item.IH) (auto simp: walk_step)
qed

lemma walk_complete:
  assumes "declares r f q" "isDeniedFieldName f"
  shows "\<lparr>v_pointer = q, v_field = f\<rparr> \<in> set (walk_schema r [])"
  using assms
proof cases
  case (declares_entry fs p k x)
  from declares_entry(3) have "\<lparr>v_pointer = q, v_field = f\<rparr> \<in> set (walk_schema (JObj fs) p)"
    unfolding walk_step set_check_field declares_entry(1)
    by (elim insertE emptyE) (use declares_entry(4) assms(2) in \<open>simp, blast\<close>)+
  then show ?thesis by (rule walk_within[OF declares_entry(2)])
next
  case (declares_required fs p i)
  then have "\<lparr>v_pointer = q, v_field = f\<rparr> \<in> set (check_items (map_of fs ''required'') (p @ ''/required''))"
    using assms(2) by (auto simp: set_check_items set_check_field)
  then show ?thesis by (intro walk_within[OF declares_required(2)]) (simp only: walk_step simp_thms)
next
  case (declares_dependent fs p g x i)
  then have "\<lparr>v_pointer = q, v_field = f\<rparr> \<in>
      set (check_items (Some x) (p @ ''/dependentRequired/'' @ escapePointer g))"
    using assms(2) by (auto simp: set_check_items set_check_field)
  with declares_dependent(3) show ?thesis
    by (intro walk_within[OF declares_dependent(2)]) (simp only: walk_step, blast)
qed

lemma has_part_iff: "has_part s part \<longleftrightarrow> (\<exists>a b. s = a @ part @ b)"
proof (induction s)
  case Nil
  then show ?case by auto
next
  case (Cons c s)
  have "(\<exists>a b. c # s = a @ part @ b) \<longleftrightarrow> (\<exists>b. c # s = part @ b) \<or> (\<exists>a b. s = a @ part @ b)"
    by (metis append_Cons append_Nil list.exhaust list.inject)
  moreover have "(\<exists>b. c # s = part @ b) \<longleftrightarrow> take (length part) (c # s) = part"
    by (metis append_eq_conv_conj append_take_drop_id)
  ultimately show ?case using Cons by simp
qed

text \<open>
  C29. The lint finds exactly the personal data a schema declares: a field is reported at a
  pointer exactly when the schema declares it there, at any depth and under any of the
  keywords that hold schemas, and its name, however it is cased and separated, is a denied
  one or contains a denied fragment.
\<close>

lemma lint_finds_personal_data:
  "\<lparr>v_pointer = p, v_field = f\<rparr> \<in> set (lintPersonalData schema) \<longleftrightarrow>
     declares schema f p \<and>
     (normaliseFieldName f \<in> set DENIED_FIELD_NAMES \<or>
      (\<exists>a d b. d \<in> set DENIED_FIELD_NAME_FRAGMENTS \<and> normaliseFieldName f = a @ d @ b))"
proof -
  have "isDeniedFieldName f \<longleftrightarrow> normaliseFieldName f \<in> set DENIED_FIELD_NAMES \<or>
      (\<exists>a d b. d \<in> set DENIED_FIELD_NAME_FRAGMENTS \<and> normaliseFieldName f = a @ d @ b)"
    unfolding isDeniedFieldName_def Let_def list_ex_iff has_part_iff by blast
  then show ?thesis
    using walk_sound[OF _ at_root, of "\<lparr>v_pointer = p, v_field = f\<rparr>" schema] walk_complete[of schema f p]
    by (auto simp: lintPersonalData_def)
qed

end
