(* ===== verification/Metadata.thy ===== *)
theory Metadata
  imports Reads PersonalData
begin

text \<open>
  Public metadata (\<open>src/metadata\<close>): the object storage as a list of objects by key, images and
  their checks (\<open>images.ts\<close>), the references of a document (\<open>self-contained.ts\<close>), an
  organiser's edits (\<open>documents.ts\<close>), the publishing of schemas (\<open>schemas.ts\<close>) and the public
  read path (\<open>edge.ts\<close>).  Bytes are strings; URL parsing, JSON, hashing, the JSON Schema
  validator and the store's entity tags are parameters.
\<close>

section \<open>Object storage\<close>

record stored_object =
  so_type :: string
  so_cache :: string
  so_body :: string

type_synonym storage = "(string \<times> stored_object) list"

definition METADATA_CACHE_CONTROL :: string where
  "METADATA_CACHE_CONTROL = ''public, max-age=60''"

definition key_char :: "char \<Rightarrow> bool" where
  "key_char c \<longleftrightarrow> (let n = of_char c :: nat in
     (65 \<le> n \<and> n \<le> 90) \<or> (97 \<le> n \<and> n \<le> 122) \<or> (48 \<le> n \<and> n \<le> 57)) \<or> c \<in> set ''._-''"

text \<open>\<open>split\<close> at a character.\<close>

fun split_at :: "char \<Rightarrow> string \<Rightarrow> string list" where
  "split_at c [] = [[]]"
| "split_at c (x # s) = (if x = c then [] # split_at c s
     else (case split_at c s of [] \<Rightarrow> [[x]] | y # ys \<Rightarrow> (x # y) # ys))"

definition isObjectKey :: "string \<Rightarrow> bool" where
  "isObjectKey key \<longleftrightarrow> key \<noteq> [] \<and> length key \<le> 1024 \<and>
     list_all (\<lambda>segment. segment \<noteq> [] \<and> list_all key_char segment \<and> segment \<noteq> ''.'' \<and> segment \<noteq> ''..'')
       (split_at CHR ''/'' key)"

text \<open>Storing replaces the object at the key; a key that is none throws.\<close>

definition put_object :: "string \<Rightarrow> string \<Rightarrow> string \<Rightarrow> storage \<Rightarrow> failure + storage" where
  "put_object key body content_type st = (if \<not> isObjectKey key then Inl OtherError else
     let o' = \<lparr>so_type = content_type, so_cache = METADATA_CACHE_CONTROL, so_body = body\<rparr> in
     Inr (if map_of st key = None then st @ [(key, o')]
          else map (\<lambda>(k, v). if k = key then (k, o') else (k, v)) st))"

definition get_object :: "storage \<Rightarrow> string \<Rightarrow> stored_object option" where
  "get_object st key = (if isObjectKey key then map_of st key else None)"

definition list_objects :: "storage \<Rightarrow> string \<Rightarrow> string list" where
  "list_objects st pre = filter (\<lambda>k. take (length pre) k = pre) (map fst st)"

section \<open>Images\<close>

definition MAX_IMAGE_BYTES :: nat where "MAX_IMAGE_BYTES = 2 * 1024 * 1024"

definition IMAGE_EXTENSIONS :: "(string \<times> string) list" where
  "IMAGE_EXTENSIONS = [(''image/jpeg'', ''jpg''), (''image/png'', ''png''), (''image/webp'', ''webp'')]"

definition IMAGE_PREFIX :: string where "IMAGE_PREFIX = ''v0/images/''"

definition PNG_SIGNATURE :: string where
  "PNG_SIGNATURE = map char_of [0x89, 0x50, 0x4e, 0x47, 0x0d, 0x0a, 0x1a, 0x0a :: nat]"

definition startsWith :: "string \<Rightarrow> string \<Rightarrow> nat \<Rightarrow> bool" where
  "startsWith bytes pre at \<longleftrightarrow> length bytes \<ge> at + length pre \<and>
     list_all (\<lambda>i. bytes ! (at + i) = pre ! i) [0..<length pre]"

definition sniffImageType :: "string \<Rightarrow> string option" where
  "sniffImageType bytes =
     (if startsWith bytes (map char_of [0xff, 0xd8, 0xff :: nat]) 0 then Some ''image/jpeg''
      else if startsWith bytes PNG_SIGNATURE 0 then Some ''image/png''
      else if startsWith bytes ''RIFF'' 0 \<and> startsWith bytes ''WEBP'' 8 then Some ''image/webp''
      else None)"

text \<open>Standard base64: its letters, the expression the code tests, and \<open>Buffer.from\<close> on what passes it.\<close>

definition base64_value :: "char \<Rightarrow> nat option" where
  "base64_value c = (let n = of_char c :: nat in
     if 65 \<le> n \<and> n \<le> 90 then Some (n - 65)
     else if 97 \<le> n \<and> n \<le> 122 then Some (n - 71)
     else if 48 \<le> n \<and> n \<le> 57 then Some (n + 4)
     else if n = 43 then Some 62 else if n = 47 then Some 63 else None)"

definition base64_letter :: "char \<Rightarrow> bool" where
  "base64_letter c \<longleftrightarrow> base64_value c \<noteq> None"

fun is_base64 :: "string \<Rightarrow> bool" where
  "is_base64 [] \<longleftrightarrow> True"
| "is_base64 (a # b # c # d # rest) \<longleftrightarrow> base64_letter a \<and> base64_letter b \<and>
     (base64_letter c \<and> base64_letter d \<and> is_base64 rest \<or>
      rest = [] \<and> d = CHR ''='' \<and> (base64_letter c \<or> c = CHR ''=''))"
| "is_base64 _ \<longleftrightarrow> False"

definition base64_bits :: "char \<Rightarrow> nat" where
  "base64_bits c = (case base64_value c of Some v \<Rightarrow> v | None \<Rightarrow> 0)"

fun base64_decode :: "string \<Rightarrow> string" where
  "base64_decode (a # b # c # d # rest) =
     char_of (4 * base64_bits a + base64_bits b div 16) #
     (if c = CHR ''='' then [] else char_of (16 * (base64_bits b mod 16) + base64_bits c div 4) #
       (if d = CHR ''='' then [] else char_of (64 * (base64_bits c mod 4) + base64_bits d) # base64_decode rest))"
| "base64_decode _ = []"

datatype image_refusal =
    NotAnImageType | TooManyCharacters | NotBase64 | EmptyImage | TooManyBytes | OtherBytes

definition checkImage :: "string \<Rightarrow> string \<Rightarrow> image_refusal + string" where
  "checkImage mediaType data =
     and_then (guard (map_of IMAGE_EXTENSIONS mediaType \<noteq> None) NotAnImageType) (\<lambda>_.
     and_then (guard (length data \<le> (MAX_IMAGE_BYTES + 2) div 3 * 4) TooManyCharacters) (\<lambda>_.
     and_then (guard (is_base64 data) NotBase64) (\<lambda>_.
     let bytes = base64_decode data in
     and_then (guard (length bytes \<noteq> 0) EmptyImage) (\<lambda>_.
     and_then (guard (length bytes \<le> MAX_IMAGE_BYTES) TooManyBytes) (\<lambda>_.
     and_then (guard (sniffImageType bytes = Some mediaType) OtherBytes) (\<lambda>_.
     Inr bytes))))))"

definition imageKey :: "(string \<Rightarrow> string) \<Rightarrow> ident \<Rightarrow> string \<Rightarrow> string \<Rightarrow> string" where
  "imageKey sha256 e mediaType bytes = IMAGE_PREFIX @ e @ ''/'' @ sha256 bytes @ ''.'' @
     (case map_of IMAGE_EXTENSIONS mediaType of Some x \<Rightarrow> x | None \<Rightarrow> [])"

section \<open>References\<close>

definition DOCUMENT_PREFIXES :: "string list" where
  "DOCUMENT_PREFIXES = [''v0/events/'', ''v0/classes/'']"

record foreign_reference =
  fr_pointer :: string
  fr_url :: string

definition web_scheme :: "string \<Rightarrow> bool" where
  "web_scheme v \<longleftrightarrow> map lower_char (take 7 v) = ''http://'' \<or> map lower_char (take 8 v) = ''https://''"

definition absoluteWebUrl :: "(string \<Rightarrow> url option) \<Rightarrow> string \<Rightarrow> url option" where
  "absoluteWebUrl parse v = (if \<not> web_scheme v then None else parse v)"

lemma array_size: "(i, x) \<in> set (enumerate 0 xs) \<Longrightarrow> size x < size (JArr xs)"
proof -
  assume "(i, x) \<in> set (enumerate 0 xs)"
  then have "x \<in> set xs" by (auto simp: in_set_enumerate_eq)
  then show ?thesis by (induction xs) auto
qed

lemma object_size: "(f, x) \<in> set fs \<Longrightarrow> size x < size (JObj fs)"
  by (induction fs) auto

function (sequential) walk_references :: "(string \<Rightarrow> url option) \<Rightarrow> string \<Rightarrow> json \<Rightarrow> string \<Rightarrow> foreign_reference list" where
  "walk_references parse orig (JStr v) pointer = (case absoluteWebUrl parse v of None \<Rightarrow> []
     | Some u \<Rightarrow> if u_origin u \<noteq> orig then [\<lparr>fr_pointer = pointer, fr_url = v\<rparr>] else [])"
| "walk_references parse orig (JArr xs) pointer = concat (map (\<lambda>(i, item).
     walk_references parse orig item (pointer @ ''/'' @ decimal i)) (enumerate 0 xs))"
| "walk_references parse orig (JObj fs) pointer = concat (map (\<lambda>(field, item).
     walk_references parse orig item (pointer @ ''/'' @ escapePointer field)) fs)"
| "walk_references parse orig _ pointer = []"
  by pat_completeness auto

termination walk_references
  by (relation "measure (\<lambda>(_, _, v, _). size v)") (auto dest: array_size object_size simp del: json.size)

text \<open>\<open>None\<close>: the public origin is not a URL.\<close>

definition foreignReferences ::
  "(string \<Rightarrow> url option) \<Rightarrow> json \<Rightarrow> string \<Rightarrow> foreign_reference list option" where
  "foreignReferences parse doc publicUrl = (case parse publicUrl of None \<Rightarrow> None
     | Some u \<Rightarrow> Some (walk_references parse (u_origin u) doc []))"

section \<open>Documents\<close>

definition SCHEMA_BASE_URL :: string where "SCHEMA_BASE_URL = ''https://meta.kippu.rocks/v0/schemas/''"

definition DOCUMENT_CONTENT_TYPE :: string where "DOCUMENT_CONTENT_TYPE = ''application/json''"

definition MAX_DOCUMENT_BYTES :: nat where "MAX_DOCUMENT_BYTES = 256 * 1024"

text \<open>
  The surroundings of an edit: \<open>ms_validate\<close> is whether a document conforms to the published
  schema of an \<open>$id\<close>, \<open>ms_stringify\<close> the bytes of its JSON, \<open>ms_locator\<close> the locator an event
  was created with.
\<close>

record metadata_setting =
  ms_origin :: string
  ms_url :: "string \<Rightarrow> url option"
  ms_validate :: "string \<Rightarrow> json \<Rightarrow> bool"
  ms_stringify :: "json \<Rightarrow> string"
  ms_json :: "string \<Rightarrow> json option"
  ms_sha256 :: "string \<Rightarrow> string"
  ms_etag :: "string \<Rightarrow> string"
  ms_locator :: "ident \<Rightarrow> string option"

definition declaredSchema :: "(string \<times> json) list \<Rightarrow> string \<Rightarrow> failure + string" where
  "declaredSchema doc kind = (case map_of doc ''$schema'' of
       Some (JStr declared) \<Rightarrow> (let base = SCHEMA_BASE_URL @ kind @ ''/'' in
         if take (length base) declared = base then Inr declared else Inl (RefusedRequest BAD_REQUEST None))
     | _ \<Rightarrow> Inl (RefusedRequest BAD_REQUEST None))"

definition key_of :: "metadata_setting \<Rightarrow> string \<Rightarrow> failure + string" where
  "key_of M locator = (case ms_url M locator of None \<Rightarrow> Inl OtherError | Some u \<Rightarrow> Inr (drop 1 (u_pathname u)))"

text \<open>Writing answers the locator and the stored object's entity tag.\<close>

definition write_document ::
  "metadata_setting \<Rightarrow> string \<Rightarrow> string \<Rightarrow> (string \<times> json) list \<Rightarrow> storage \<Rightarrow>
     failure + (string \<times> string) \<times> storage" where
  "write_document M locator schemaId doc st =
     and_then (guard (ms_validate M schemaId (JObj doc)) (RefusedRequest BAD_REQUEST None)) (\<lambda>_.
     case foreignReferences (ms_url M) (JObj doc) (ms_origin M) of None \<Rightarrow> Inl OtherError
     | Some refs \<Rightarrow>
         and_then (guard (refs = []) (RefusedRequest BAD_REQUEST None)) (\<lambda>_.
         let bytes = ms_stringify M (JObj doc) in
         and_then (guard (length bytes \<le> MAX_DOCUMENT_BYTES) (RefusedRequest BAD_REQUEST None)) (\<lambda>_.
         and_then (key_of M locator) (\<lambda>key.
         and_then (put_object key bytes DOCUMENT_CONTENT_TYPE st) (\<lambda>st'.
         Inr ((locator, ms_etag M bytes), st'))))))"

definition putEventDocument ::
  "ledger \<Rightarrow> metadata_setting \<Rightarrow> store \<Rightarrow> ident \<Rightarrow> ident \<Rightarrow> (string \<times> json) list \<Rightarrow> storage \<Rightarrow>
     failure + (string \<times> string) \<times> storage" where
  "putEventDocument L M s org e doc st =
     and_then (ownedEvent L s org e) (\<lambda>_.
     and_then (declaredSchema doc ''event'') (\<lambda>schemaId.
     and_then (guard (map_of doc ''eventId'' = Some (JStr e)) (RefusedRequest BAD_REQUEST None)) (\<lambda>_.
     and_then (case ms_locator M e of Some l \<Rightarrow> Inr l
       | None \<Rightarrow> (case eventLocator (ms_url M) e (ms_origin M) of Some l \<Rightarrow> Inr l | None \<Rightarrow> Inl OtherError)) (\<lambda>locator.
     write_document M locator schemaId doc st))))"

definition putClassDocument ::
  "ledger \<Rightarrow> metadata_setting \<Rightarrow> store \<Rightarrow> ident \<Rightarrow> ident \<Rightarrow> ident \<Rightarrow> (string \<times> json) list \<Rightarrow> storage \<Rightarrow>
     failure + (string \<times> string) \<times> storage" where
  "putClassDocument L M s org e k doc st =
     and_then (ownedEvent L s org e) (\<lambda>_.
     and_then (guard (exists_where (\<lambda>c. class_id c = k \<and> class_event c = e) (ticket_classes s))
       (SpecCodeError ''ERR-UnknownClass'' None)) (\<lambda>_.
     and_then (declaredSchema doc ''class'') (\<lambda>schemaId.
     and_then (guard (map_of doc ''classId'' = Some (JStr k) \<and> map_of doc ''eventId'' = Some (JStr e))
       (RefusedRequest BAD_REQUEST None)) (\<lambda>_.
     and_then (case classLocator (ms_url M) k (ms_origin M) of Some l \<Rightarrow> Inr l | None \<Rightarrow> Inl OtherError) (\<lambda>locator.
     write_document M locator schemaId doc st)))))"

text \<open>An upload answers the image's URL and size.\<close>

definition uploadImage ::
  "ledger \<Rightarrow> metadata_setting \<Rightarrow> store \<Rightarrow> ident \<Rightarrow> ident \<Rightarrow> string \<Rightarrow> string \<Rightarrow> storage \<Rightarrow>
     failure + (string \<times> nat) \<times> storage" where
  "uploadImage L M s org e mediaType data st =
     and_then (ownedEvent L s org e) (\<lambda>_.
     case checkImage mediaType data of Inl _ \<Rightarrow> Inl (RefusedRequest BAD_REQUEST None)
     | Inr bytes \<Rightarrow> (let key = imageKey (ms_sha256 M) e mediaType bytes in
         and_then (put_object key bytes mediaType st) (\<lambda>st'.
         Inr ((ms_origin M @ ''/'' @ key, length bytes), st'))))"

section \<open>Schemas and the check for relocation\<close>

definition SCHEMA_CONTENT_TYPE :: string where "SCHEMA_CONTENT_TYPE = ''application/schema+json''"

definition objectKeyOf ::
  "(string \<Rightarrow> url option) \<Rightarrow> (string \<Rightarrow> string option) \<Rightarrow> string \<Rightarrow> string \<Rightarrow> string option" where
  "objectKeyOf parse decodeURI publicUrl address = (case (parse publicUrl, parse address) of
       (Some base, Some u) \<Rightarrow>
         if u_origin u \<noteq> u_origin base \<or> u_search u \<noteq> [] \<or> u_hash u \<noteq> [] then None
         else decodeURI (drop 1 (u_pathname u))
     | _ \<Rightarrow> None)"

text \<open>The schema files of the package, by \<open>$id\<close>, stored in turn.\<close>

fun publishSchemas ::
  "metadata_setting \<Rightarrow> (string \<Rightarrow> string option) \<Rightarrow> (string \<times> string) list \<Rightarrow> storage \<Rightarrow>
     (failure + (string \<times> string) list) \<times> storage" where
  "publishSchemas M decodeURI [] st = (Inr [], st)"
| "publishSchemas M decodeURI ((i, bytes) # files) st =
     (case objectKeyOf (ms_url M) decodeURI (ms_origin M) i of None \<Rightarrow> (Inl OtherError, st)
      | Some key \<Rightarrow> (case put_object key bytes SCHEMA_CONTENT_TYPE st of Inl e \<Rightarrow> (Inl e, st)
          | Inr st' \<Rightarrow> (case publishSchemas M decodeURI files st' of
                (Inl e, st'') \<Rightarrow> (Inl e, st'')
              | (Inr published, st'') \<Rightarrow> (Inr ((i, key) # published), st''))))"

record stored_violation =
  sd_key :: string
  sd_references :: "foreign_reference list"
  sd_unreadable :: bool

definition check_stored :: "metadata_setting \<Rightarrow> storage \<Rightarrow> string \<Rightarrow> stored_violation list" where
  "check_stored M st key = (case get_object st key of None \<Rightarrow> []
     | Some x \<Rightarrow> (case ms_json M (so_body x) of
           None \<Rightarrow> [\<lparr>sd_key = key, sd_references = [], sd_unreadable = True\<rparr>]
         | Some doc \<Rightarrow> (case foreignReferences (ms_url M) doc (ms_origin M) of
               Some (r # rs) \<Rightarrow> [\<lparr>sd_key = key, sd_references = r # rs, sd_unreadable = False\<rparr>]
             | _ \<Rightarrow> [])))"

definition checkStoredDocuments :: "metadata_setting \<Rightarrow> storage \<Rightarrow> stored_violation list" where
  "checkStoredDocuments M st =
     concat (map (\<lambda>pre. concat (map (check_stored M st) (list_objects st pre))) DOCUMENT_PREFIXES)"

section \<open>The public read path\<close>

text \<open>\<open>replace(/^W\//, "")\<close>\<close>

definition opaque_tag :: "string \<Rightarrow> string" where
  "opaque_tag tag = (let t = trim tag in if take 2 t = ''W/'' then drop 2 t else t)"

definition matchesIfNoneMatch :: "string option \<Rightarrow> string \<Rightarrow> bool" where
  "matchesIfNoneMatch header etag = (case header of None \<Rightarrow> False
     | Some h \<Rightarrow> list_ex (\<lambda>tag. trim tag = ''*'' \<or> opaque_tag tag = opaque_tag etag) (split_at CHR '','' h))"

definition edge_key :: "(string \<Rightarrow> string option) \<Rightarrow> string \<Rightarrow> string option" where
  "edge_key decodeURI address = (let path = hd (split_at CHR ''?'' address) in
     if take 1 path \<noteq> ''/'' then None else decodeURI (drop 1 path))"

record edge_request =
  er_method :: string
  er_url :: string
  er_none_match :: "string option"

record edge_reply =
  ed_status :: nat
  ed_any_origin :: bool
  ed_object :: "stored_object option"
  ed_etag :: "string option"
  ed_cache :: "string option"

definition bare_reply :: "nat \<Rightarrow> edge_reply" where
  "bare_reply status = \<lparr>ed_status = status, ed_any_origin = True, ed_object = None, ed_etag = None,
     ed_cache = None\<rparr>"

definition READ_METHODS :: "string list" where "READ_METHODS = [''GET'', ''HEAD'', ''OPTIONS'']"

text \<open>Every answer allows any origin, and none looks at who asks.\<close>

definition edge :: "metadata_setting \<Rightarrow> (string \<Rightarrow> string option) \<Rightarrow> storage \<Rightarrow> edge_request \<Rightarrow> edge_reply" where
  "edge M decodeURI st q =
     (if er_method q \<notin> set READ_METHODS then bare_reply 405
      else if er_method q = ''OPTIONS'' then bare_reply 204
      else if hd (split_at CHR ''?'' (er_url q)) = ''/health'' then bare_reply 200
      else case edge_key decodeURI (er_url q) of None \<Rightarrow> bare_reply 404
      | Some key \<Rightarrow> (case get_object st key of None \<Rightarrow> bare_reply 404
          | Some x \<Rightarrow> (let etag = ms_etag M (so_body x) in
              if matchesIfNoneMatch (er_none_match q) etag then (bare_reply 304)\<lparr>ed_etag := Some etag, ed_cache := Some (so_cache x)\<rparr>
              else (bare_reply 200)\<lparr>ed_etag := Some etag, ed_cache := Some (so_cache x),
                ed_object := (if er_method q = ''HEAD'' then None else Some x)\<rparr>)))"

end
