(* ===== verification/MetadataFacts.thy ===== *)
theory MetadataFacts
  imports Metadata
begin

text \<open>
  What public metadata promises (\<open>Metadata\<close>): the checks of an image, that every stored
  document can be moved with its files, and that an edit is what every reader gets.
\<close>

section \<open>Images\<close>

lemma base64_lengths:
  "is_base64 s \<Longrightarrow> \<exists>k. length s = 4 * k \<and> length (base64_decode s) \<le> 3 * k \<and> 3 * k \<le> length (base64_decode s) + 2"
proof (induction s rule: is_base64.induct)
  case (2 a b c d rest)
  show ?case
  proof (cases "base64_letter c \<and> base64_letter d \<and> is_base64 rest")
    case True
    moreover from this have "c \<noteq> CHR ''=''" "d \<noteq> CHR ''=''"
      by (auto simp: base64_letter_def base64_value_def)
    moreover from 2(1) True obtain k where "length rest = 4 * k" "length (base64_decode rest) \<le> 3 * k"
      "3 * k \<le> length (base64_decode rest) + 2" by auto
    ultimately show ?thesis by (intro exI[of _ "Suc k"]) simp
  next
    case False
    with 2(2) show ?thesis by (intro exI[of _ 1]) auto
  qed
qed auto

lemma checkImage_Inr_iff:
  "checkImage mediaType data = Inr bytes \<longleftrightarrow> map_of IMAGE_EXTENSIONS mediaType \<noteq> None \<and> is_base64 data \<and>
     bytes = base64_decode data \<and> bytes \<noteq> [] \<and> length bytes \<le> MAX_IMAGE_BYTES \<and>
     sniffImageType bytes = Some mediaType"
proof -
  have "length data \<le> (MAX_IMAGE_BYTES + 2) div 3 * 4"
    if "is_base64 data" "length (base64_decode data) \<le> MAX_IMAGE_BYTES"
    using base64_lengths[OF that(1)] that(2) by (auto simp: MAX_IMAGE_BYTES_def)
  then show ?thesis
    by (auto simp: checkImage_def and_then_Inr_iff guard_def Let_def split: if_splits)
qed

section \<open>Storage\<close>

lemma put_object_entries:
  "put_object key body t st = Inr st' \<Longrightarrow> set st' \<subseteq> insert (key, \<lparr>so_type = t,
     so_cache = METADATA_CACHE_CONTROL, so_body = body\<rparr>) (set st)"
  by (auto simp: put_object_def Let_def split: if_splits prod.splits)

lemma map_of_replaced:
  "map_of (map (\<lambda>(k, v). if k = key then (k, x) else (k, v)) st) j =
     (if j = key \<and> map_of st key \<noteq> None then Some x else map_of st j)"
  by (induction st) auto

lemma put_object_reads:
  assumes "put_object key body t st = Inr st'"
  shows "get_object st' j = (if j = key then Some \<lparr>so_type = t, so_cache = METADATA_CACHE_CONTROL, so_body = body\<rparr>
     else get_object st j)" "isObjectKey key"
proof -
  show key: "isObjectKey key" using assms by (auto simp: put_object_def split: if_splits)
  have "map_of st' j = (if j = key then Some \<lparr>so_type = t, so_cache = METADATA_CACHE_CONTROL, so_body = body\<rparr>
      else map_of st j)"
    using assms key by (cases "map_of st key")
      (auto simp: put_object_def Let_def map_of_replaced map_add_def split: option.splits)
  then show "get_object st' j = (if j = key then Some \<lparr>so_type = t, so_cache = METADATA_CACHE_CONTROL, so_body = body\<rparr>
      else get_object st j)"
    using key by (cases "j = key") (simp_all add: get_object_def)
qed

section \<open>Relocation\<close>

definition has_prefix :: "string \<Rightarrow> string \<Rightarrow> bool" where
  "has_prefix pre key \<longleftrightarrow> take (length pre) key = pre"

text \<open>Every document object reads as a document with no foreign reference.\<close>

definition documents_ok :: "metadata_setting \<Rightarrow> storage \<Rightarrow> bool" where
  "documents_ok M st \<longleftrightarrow> (\<forall>(k, x) \<in> set st. (\<exists>pre \<in> set DOCUMENT_PREFIXES. has_prefix pre k) \<longrightarrow>
     (\<exists>doc. ms_json M (so_body x) = Some doc \<and> foreignReferences (ms_url M) doc (ms_origin M) = Some []))"

lemma documents_okD:
  "documents_ok M st \<Longrightarrow> (k, x) \<in> set st \<Longrightarrow> pre \<in> set DOCUMENT_PREFIXES \<Longrightarrow> has_prefix pre k \<Longrightarrow>
   \<exists>doc. ms_json M (so_body x) = Some doc \<and> foreignReferences (ms_url M) doc (ms_origin M) = Some []"
  unfolding documents_ok_def by (drule bspec, assumption, simp, blast)

lemma documents_ok_put:
  assumes "documents_ok M st" "put_object key body t st = Inr st'"
    and "(\<exists>pre \<in> set DOCUMENT_PREFIXES. has_prefix pre key) \<Longrightarrow>
      \<exists>doc. ms_json M body = Some doc \<and> foreignReferences (ms_url M) doc (ms_origin M) = Some []"
  shows "documents_ok M st'"
  unfolding documents_ok_def
proof (intro ballI, clarify)
  fix k x pre assume "(k, x) \<in> set st'" and pre: "pre \<in> set DOCUMENT_PREFIXES" "has_prefix pre k"
  with put_object_entries[OF assms(2)] consider "(k, x) \<in> set st" | "k = key" "so_body x = body" by auto
  then show "\<exists>doc. ms_json M (so_body x) = Some doc \<and> foreignReferences (ms_url M) doc (ms_origin M) = Some []"
    using documents_okD[OF assms(1)] pre assms(3) by cases blast+
qed

lemma write_document_Inr:
  assumes "write_document M locator schemaId doc st = Inr ((l, tag), st')"
  shows "l = locator \<and> tag = ms_etag M (ms_stringify M (JObj doc)) \<and> ms_validate M schemaId (JObj doc) \<and>
    foreignReferences (ms_url M) (JObj doc) (ms_origin M) = Some [] \<and>
    length (ms_stringify M (JObj doc)) \<le> MAX_DOCUMENT_BYTES \<and>
    (\<exists>u. ms_url M locator = Some u \<and>
       put_object (drop 1 (u_pathname u)) (ms_stringify M (JObj doc)) DOCUMENT_CONTENT_TYPE st = Inr st')"
  using assms
  by (auto simp: write_document_def and_then_Inr_iff guard_def Let_def key_of_def
      split: option.split_asm if_split_asm)

lemma documents_ok_write:
  assumes "documents_ok M st" "write_document M locator schemaId doc st = Inr ((l, tag), st')"
    and "\<And>i d. ms_validate M i d \<Longrightarrow> ms_json M (ms_stringify M d) = Some d"
  shows "documents_ok M st'"
  using write_document_Inr[OF assms(2)] documents_ok_put[OF assms(1)] assms(3) by blast

lemma putEventDocument_writes:
  "putEventDocument L M s org e doc st = Inr r \<Longrightarrow>
   \<exists>locator schemaId. declaredSchema doc ''event'' = Inr schemaId \<and> map_of doc ''eventId'' = Some (JStr e) \<and>
     (ms_locator M e = Some locator \<or>
      ms_locator M e = None \<and> eventLocator (ms_url M) e (ms_origin M) = Some locator) \<and>
     (\<exists>x. ownedEvent L s org e = Inr x) \<and> write_document M locator schemaId doc st = Inr r"
  by (auto simp: putEventDocument_def and_then_Inr_iff guard_def split: option.split_asm if_split_asm)

lemma putClassDocument_writes:
  "putClassDocument L M s org e k doc st = Inr r \<Longrightarrow>
   \<exists>locator schemaId. write_document M locator schemaId doc st = Inr r"
  by (auto simp: putClassDocument_def and_then_Inr_iff)

lemma uploadImage_puts:
  "uploadImage L M s org e mediaType data st = Inr (x, st') \<Longrightarrow>
   \<exists>bytes. checkImage mediaType data = Inr bytes \<and>
     put_object (imageKey (ms_sha256 M) e mediaType bytes) bytes mediaType st = Inr st'"
  by (auto simp: uploadImage_def and_then_Inr_iff Let_def split: sum.split_asm)

lemma image_is_no_document: "\<not> (\<exists>pre \<in> set DOCUMENT_PREFIXES. has_prefix pre (imageKey h e t b))"
  by (auto simp: DOCUMENT_PREFIXES_def has_prefix_def imageKey_def IMAGE_PREFIX_def)

lemma documents_ok_publish:
  assumes "documents_ok M st"
    and "\<And>i b key. (i, b) \<in> set files \<Longrightarrow> objectKeyOf (ms_url M) decodeURI (ms_origin M) i = Some key \<Longrightarrow>
      has_prefix ''v0/schemas/'' key"
  shows "documents_ok M (snd (publishSchemas M decodeURI files st))"
  using assms
proof (induction files arbitrary: st)
  case (Cons f files)
  obtain i b where f: "f = (i, b)" by (cases f)
  show ?case
  proof (cases "objectKeyOf (ms_url M) decodeURI (ms_origin M) i")
    case (Some key)
    then have "has_prefix ''v0/schemas/'' key" using Cons.prems(2) f by auto
    then obtain rest where "key = ''v0/schemas/'' @ rest"
      unfolding has_prefix_def by (metis append_take_drop_id)
    then have no: "\<not> (\<exists>pre \<in> set DOCUMENT_PREFIXES. has_prefix pre key)"
      by (simp add: DOCUMENT_PREFIXES_def has_prefix_def)
    show ?thesis
    proof (cases "put_object key b SCHEMA_CONTENT_TYPE st")
      case (Inr st')
      have "documents_ok M st'" using documents_ok_put[OF Cons.prems(1) Inr] no by blast
      then have "documents_ok M (snd (publishSchemas M decodeURI files st'))" using Cons by auto
      then show ?thesis using Some Inr f by (auto split: prod.splits sum.splits)
    qed (use Some f Cons.prems(1) in simp)
  qed (use f Cons.prems(1) in simp)
qed simp

lemma documents_ok_clean:
  assumes "documents_ok M st"
  shows "checkStoredDocuments M st = []"
proof -
  have "check_stored M st key = []" if pre: "pre \<in> set DOCUMENT_PREFIXES" and key: "key \<in> set (list_objects st pre)" for pre key
  proof (cases "get_object st key")
    case (Some x)
    then have "(key, x) \<in> set st" by (auto simp: get_object_def dest: map_of_SomeD split: if_splits)
    moreover have "has_prefix pre key" using key by (auto simp: list_objects_def has_prefix_def)
    ultimately obtain doc where "ms_json M (so_body x) = Some doc"
      "foreignReferences (ms_url M) doc (ms_origin M) = Some []"
      using documents_okD[OF assms(1)] pre by blast
    then show ?thesis using Some by (simp add: check_stored_def)
  qed (simp add: check_stored_def)
  then show ?thesis by (simp add: checkStoredDocuments_def)
qed

end
