(* ===== verification/MetadataProperties.thy ===== *)
theory MetadataProperties
  imports MetadataFacts Examples
begin

text \<open>Properties of public metadata, each with an instance on one event's document.\<close>

section \<open>Runs\<close>

text \<open>The storage after any sequence of edits, uploads and publishing of the package's schemas.\<close>

inductive metadata_reach ::
  "metadata_setting \<Rightarrow> (string \<Rightarrow> string option) \<Rightarrow> (string \<times> string) list \<Rightarrow> storage \<Rightarrow> bool" where
  metadata_empty: "metadata_reach M U files []"
| metadata_event: "metadata_reach M U files st \<Longrightarrow>
    putEventDocument L M s org e doc st = Inr (w, st') \<Longrightarrow> metadata_reach M U files st'"
| metadata_class: "metadata_reach M U files st \<Longrightarrow>
    putClassDocument L M s org e k doc st = Inr (w, st') \<Longrightarrow> metadata_reach M U files st'"
| metadata_image: "metadata_reach M U files st \<Longrightarrow>
    uploadImage L M s org e mediaType data st = Inr (x, st') \<Longrightarrow> metadata_reach M U files st'"
| metadata_schemas: "metadata_reach M U files st \<Longrightarrow>
    publishSchemas M U files st = (published, st') \<Longrightarrow> metadata_reach M U files st'"

section \<open>An event's document\<close>

definition page_origin :: string where "page_origin = ''https://meta.kippu.rocks''"

definition page_url :: "string \<Rightarrow> url option" where
  "page_url s = (if take 24 s = page_origin then Some \<lparr>u_protocol = ''https:'', u_origin = page_origin,
     u_pathname = drop 24 s, u_search = [], u_hash = []\<rparr> else None)"

definition page_document :: "(string \<times> json) list" where
  "page_document = [(''$schema'', JStr (SCHEMA_BASE_URL @ ''event/1.0.json'')), (''eventId'', JStr ''event'')]"

definition page_setting :: metadata_setting where
  "page_setting = \<lparr>ms_origin = page_origin, ms_url = page_url, ms_validate = (\<lambda>_ d. d = JObj page_document),
     ms_stringify = (\<lambda>_. ''page''), ms_json = (\<lambda>s. if s = ''page'' then Some (JObj page_document) else None),
     ms_sha256 = (\<lambda>s. s), ms_etag = (\<lambda>s. s), ms_locator = (\<lambda>_. Some (page_origin @ ''/v0/events/event.json''))\<rparr>"

definition page_put :: "failure + (string \<times> string) \<times> storage" where
  "page_put = putEventDocument walk_ledger page_setting walk0 ''org'' ''event'' page_document []"

definition page_storage :: storage where
  "page_storage = [(''v0/events/event.json'', \<lparr>so_type = DOCUMENT_CONTENT_TYPE,
     so_cache = METADATA_CACHE_CONTROL, so_body = ''page''\<rparr>)]"

lemma page_put: "page_put = Inr ((page_origin @ ''/v0/events/event.json'', ''page''), page_storage)"
proof -
  have "\<not> isl (ownedEvent walk_ledger walk0 ''org'' ''event'')" by code_simp
  moreover have "declaredSchema page_document ''event'' = Inr (SCHEMA_BASE_URL @ ''event/1.0.json'')" by code_simp
  moreover have "map_of page_document ''eventId'' = Some (JStr ''event'')" by code_simp
  moreover have "foreignReferences page_url (JObj page_document) page_origin = Some []" by code_simp
  moreover have "key_of page_setting (page_origin @ ''/v0/events/event.json'') = Inr ''v0/events/event.json''" by code_simp
  moreover have "put_object ''v0/events/event.json'' ''page'' DOCUMENT_CONTENT_TYPE [] = Inr page_storage" by code_simp
  ultimately show ?thesis
    by (auto simp: page_put_def putEventDocument_def write_document_def page_setting_def and_then_def guard_def
        MAX_DOCUMENT_BYTES_def split: sum.splits)
qed

lemma page_laws: "ms_validate page_setting i d \<Longrightarrow> ms_json page_setting (ms_stringify page_setting d) = Some d"
  by (simp add: page_setting_def)

section \<open>Properties\<close>

text \<open>
  C27. Everything Kippu publishes stays relocatable: whatever organisers wrote and uploaded, in
  whatever order, the check of the stored documents finds none that is unreadable or holds a
  URL of another origin.
\<close>

lemma stored_documents_stay_relocatable:
  assumes "metadata_reach M U files st"
    and "\<And>i d. ms_validate M i d \<Longrightarrow> ms_json M (ms_stringify M d) = Some d"
    and "\<And>i b key. (i, b) \<in> set files \<Longrightarrow> objectKeyOf (ms_url M) U (ms_origin M) i = Some key \<Longrightarrow>
      has_prefix ''v0/schemas/'' key"
  shows "checkStoredDocuments M st = []"
proof -
  have "documents_ok M st" using assms
  proof (induction rule: metadata_reach.induct)
    case (metadata_event M U files st L s org e doc w st')
    then show ?case using putEventDocument_writes documents_ok_write by (metis surj_pair)
  next
    case (metadata_class M U files st L s org e k doc w st')
    then show ?case using putClassDocument_writes documents_ok_write by (metis surj_pair)
  next
    case (metadata_image M U files st L s org e mediaType data x st')
    obtain bytes where "put_object (imageKey (ms_sha256 M) e mediaType bytes) bytes mediaType st = Inr st'"
      using uploadImage_puts[OF metadata_image.hyps(2)] by blast
    then show ?case using documents_ok_put metadata_image image_is_no_document by blast
  next
    case (metadata_schemas M U files st published st')
    then show ?case using documents_ok_publish[of M st files U] by simp
  qed (simp add: documents_ok_def)
  then show ?thesis by (rule documents_ok_clean)
qed

lemma stored_documents_stay_relocatable_witness:
  "checkStoredDocuments page_setting page_storage = []"
proof -
  have "metadata_reach page_setting Some [] page_storage"
    using metadata_event[OF metadata_empty page_put[unfolded page_put_def]] .
  from stored_documents_stay_relocatable[OF this page_laws] show ?thesis by simp
qed

text \<open>
  C28. An edit is what everyone reads: after an organiser's event document is written, the
  document is the one its locator gives on the read path, with its entity tag, to anyone; a
  reader that has it is told so; the API's own reads of the event join it; and every other
  object is as before.
\<close>

lemma edited_document_is_read:
  assumes put: "putEventDocument L M s org e doc st = Inr ((locator, tag), st')"
    and laws: "\<And>i d. ms_validate M i d \<Longrightarrow> ms_json M (ms_stringify M d) = Some d"
    and at: "ms_url M locator = Some u" "u_pathname u = CHR ''/'' # key" "U key = Some key"
      "CHR ''?'' \<notin> set key" "key \<noteq> ''health''"
    and reads: "rs_url R = ms_url M" "rs_origin R = ms_origin M" "rs_json R = ms_json M"
      "rs_storage R = (\<lambda>k. map_option so_body (get_object st' k))"
      "u_origin u = ms_origin M" "u_search u = []" "u_hash u = []"
  shows "ed_status (edge M U st' \<lparr>er_method = ''GET'', er_url = u_pathname u, er_none_match = None\<rparr>) = 200 \<and>
    map_option so_body (ed_object (edge M U st' \<lparr>er_method = ''GET'', er_url = u_pathname u, er_none_match = None\<rparr>)) =
      Some (ms_stringify M (JObj doc)) \<and>
    ed_etag (edge M U st' \<lparr>er_method = ''GET'', er_url = u_pathname u, er_none_match = None\<rparr>) = Some tag \<and>
    document R (Some locator) = Some doc \<and>
    (\<forall>j. j \<noteq> key \<longrightarrow> get_object st' j = get_object st j)"
proof -
  from putEventDocument_writes[OF put] obtain schemaId l where
    "write_document M l schemaId doc st = Inr ((locator, tag), st')" by blast
  from write_document_Inr[OF this] at(1,2) laws have tag: "tag = ms_etag M (ms_stringify M (JObj doc))"
    and json: "ms_json M (ms_stringify M (JObj doc)) = Some (JObj doc)"
    and stored: "put_object key (ms_stringify M (JObj doc)) DOCUMENT_CONTENT_TYPE st = Inr st'"
    by auto
  note got = put_object_reads(1)[OF stored]
  have split: "split_at CHR ''?'' s = [s]" if "CHR ''?'' \<notin> set s" for s
    using that by (induction s) auto
  have "hd (split_at CHR ''?'' (u_pathname u)) = CHR ''/'' # key" using at by (simp add: split)
  then show ?thesis using at reads tag json got
    by (simp add: edge_def READ_METHODS_def edge_key_def matchesIfNoneMatch_def bare_reply_def Let_def document_def)
qed

lemma edited_document_is_read_witness:
  "document \<lparr>rs_origin = page_origin, rs_url = page_url, rs_json = ms_json page_setting,
     rs_storage = (\<lambda>k. map_option so_body (get_object page_storage k)),
     rs_limits = recording_limits.make 0 0, rs_default_window = 0\<rparr>
   (Some (page_origin @ ''/v0/events/event.json'')) = Some page_document"
proof -
  let ?u = "\<lparr>u_protocol = ''https:'', u_origin = page_origin, u_pathname = ''/v0/events/event.json'',
     u_search = [], u_hash = []\<rparr>"
  have "ms_url page_setting (page_origin @ ''/v0/events/event.json'') = Some ?u" by code_simp
  from edited_document_is_read[OF page_put[unfolded page_put_def] page_laws this, where U = Some
      and key = "''v0/events/event.json''"]
  show ?thesis by (simp add: page_setting_def)
qed

text \<open>
  An image is accepted exactly when it is one: of an accepted type by declaration and by its
  first bytes, in well-formed base64, neither empty nor over the limit; the bound on the
  text's length refuses no image within the limit.
\<close>

lemma image_check_is_exact:
  "checkImage mediaType data = Inr bytes \<longleftrightarrow>
     mediaType \<in> {''image/jpeg'', ''image/png'', ''image/webp''} \<and> is_base64 data \<and>
     bytes = base64_decode data \<and> 0 < length bytes \<and> length bytes \<le> 2 * 1024 * 1024 \<and>
     sniffImageType bytes = Some mediaType"
  unfolding checkImage_Inr_iff by (auto simp: IMAGE_EXTENSIONS_def MAX_IMAGE_BYTES_def split: if_splits)

end
