(* ===== verification/Proofs.thy ===== *)
theory Proofs
  imports Metadata AuditLog
begin

text \<open>
  Capacity proofs and their review (\<open>src/proofs/service.ts\<close>, \<open>src/proofs/artefacts.ts\<close>,
  \<open>src/proofs/ports.ts\<close>): an organiser asks for an increase with an artefact, a reviewer
  decides, and only an approval reaches the ledger, with a proof of its own.  The clock, fresh
  identifiers and random bytes are drawn by the caller, and what became of a write at the
  ledger is an argument, as in \<open>AuditLog\<close>.
\<close>

section \<open>Artefacts\<close>

definition MAX_PROOF_ARTEFACT_BYTES :: nat where "MAX_PROOF_ARTEFACT_BYTES = 2 * 1024 * 1024"

definition PROOF_ARTEFACT_CACHE_CONTROL :: string where
  "PROOF_ARTEFACT_CACHE_CONTROL = ''private, no-store''"

definition PROOF_ARTEFACT_MEDIA_TYPES :: "string list" where
  "PROOF_ARTEFACT_MEDIA_TYPES = [''application/pdf'', ''image/jpeg'', ''image/png'']"

definition proofArtefactKey :: "ident \<Rightarrow> string" where
  "proofArtefactKey i = ''capacity-proofs/'' @ i"

definition sniffArtefactType :: "string \<Rightarrow> string option" where
  "sniffArtefactType bytes =
     (if startsWith bytes ''%PDF-'' 0 then Some ''application/pdf''
      else if startsWith bytes (map char_of [0xff, 0xd8, 0xff :: nat]) 0 then Some ''image/jpeg''
      else if startsWith bytes PNG_SIGNATURE 0 then Some ''image/png''
      else None)"

datatype artefact_refusal =
    NotAnArtefactType | ArtefactTooLarge | ArtefactNotBase64 | EmptyArtefact | OtherArtefactBytes

definition checkArtefact :: "string \<Rightarrow> string \<Rightarrow> artefact_refusal + string" where
  "checkArtefact mediaType data =
     and_then (guard (mediaType \<in> set PROOF_ARTEFACT_MEDIA_TYPES) NotAnArtefactType) (\<lambda>_.
     and_then (guard (length data \<le> (MAX_PROOF_ARTEFACT_BYTES + 2) div 3 * 4) ArtefactTooLarge) (\<lambda>_.
     and_then (guard (is_base64 data) ArtefactNotBase64) (\<lambda>_.
     let bytes = base64_decode data in
     and_then (guard (length bytes \<noteq> 0) EmptyArtefact) (\<lambda>_.
     and_then (guard (length bytes \<le> MAX_PROOF_ARTEFACT_BYTES) ArtefactTooLarge) (\<lambda>_.
     and_then (guard (sniffArtefactType bytes = Some mediaType) OtherArtefactBytes) (\<lambda>_.
     Inr bytes))))))"

text \<open>The private bucket: an artefact's type and bytes by key.\<close>

type_synonym artefacts = "(string \<times> string \<times> string) list"

definition put_artefact :: "string \<Rightarrow> string \<Rightarrow> string \<Rightarrow> artefacts \<Rightarrow> failure + artefacts" where
  "put_artefact key bytes t A = (if \<not> isObjectKey key then Inl OtherError
     else Inr ((key, t, bytes) # filter (\<lambda>(k, _). k \<noteq> key) A))"

definition get_artefact :: "artefacts \<Rightarrow> string \<Rightarrow> (string \<times> string) option" where
  "get_artefact A key = (if isObjectKey key then map_of A key else None)"

section \<open>Requests\<close>

datatype proof_status = ProofPending | ProofApproved | ProofRejected

record proof_row =
  pf_id :: ident
  pf_event :: ident
  pf_organiser :: ident
  pf_capacity :: "int option"
  pf_key :: string
  pf_type :: string
  pf_size :: nat
  pf_sha256 :: string
  pf_request :: ident
  pf_requested_at :: time
  pf_status :: proof_status
  pf_reviewer :: "ident option"
  pf_decision :: "ident option"
  pf_decided_at :: "time option"
  pf_proof :: "ident option"
  pf_cursor :: "ident option"

record proofs_state =
  proof_requests :: "proof_row list"
  artefacts :: artefacts

definition isIncrease :: "int option \<Rightarrow> int option \<Rightarrow> bool" where
  "isIncrease current requested = (case current of None \<Rightarrow> False
     | Some c \<Rightarrow> (case requested of None \<Rightarrow> True | Some r \<Rightarrow> r > c))"

text \<open>A UUID in lower-case hexadecimal.\<close>

definition is_uuid :: "string \<Rightarrow> bool" where
  "is_uuid s \<longleftrightarrow> map length (split_at CHR ''-'' s) = [8, 4, 4, 4, 12] \<and>
     list_all (list_all is_hex) (split_at CHR ''-'' s)"

definition find_proof :: "ident \<Rightarrow> proofs_state \<Rightarrow> failure + proof_row" where
  "find_proof i p = (case (if is_uuid i then find (\<lambda>r. pf_id r = i) (proof_requests p) else None) of
       None \<Rightarrow> Inl (RefusedRequest NOT_FOUND None) | Some r \<Rightarrow> Inr r)"

text \<open>The constraints of the table: its keys, one pending request per event, its checks.\<close>

definition insert_proof :: "proof_row \<Rightarrow> proofs_state \<Rightarrow> failure + proofs_state" where
  "insert_proof r p =
     (if exists_where (\<lambda>x. pf_event x = pf_event r \<and> pf_status x = ProofPending) (proof_requests p)
      then Inl (RefusedRequest CONFLICT (Some ''pending''))
      else if exists_where (\<lambda>x. pf_id x = pf_id r \<or> pf_key x = pf_key r) (proof_requests p)
      then Inl (RefusedRequest CONFLICT (Some ''pending''))
      else if pf_size r = 0 \<or> pf_capacity r \<noteq> None \<and> the (pf_capacity r) < 0 then Inl StoreError
      else Inr (p\<lparr>proof_requests := proof_requests p @ [r]\<rparr>))"

record proof_input =
  pi_event :: ident
  pi_capacity :: "int option"
  pi_media :: string
  pi_data :: string

definition new_proof ::
  "(string \<Rightarrow> string) \<Rightarrow> ident \<Rightarrow> request \<Rightarrow> proof_input \<Rightarrow> string \<Rightarrow> ident \<Rightarrow> time \<Rightarrow> proof_row" where
  "new_proof sha256 org req inp bytes i at =
     \<lparr>pf_id = i, pf_event = pi_event inp, pf_organiser = org, pf_capacity = pi_capacity inp,
      pf_key = proofArtefactKey i, pf_type = pi_media inp, pf_size = length bytes,
      pf_sha256 = sha256 bytes, pf_request = requestId req, pf_requested_at = at,
      pf_status = ProofPending, pf_reviewer = None, pf_decision = None, pf_decided_at = None,
      pf_proof = None, pf_cursor = None\<rparr>"

text \<open>
  Up to the insertion: the artefact, the event's owner, the increase, and that nothing is
  pending.  Then the artefact is stored, and the row inserted, whatever was inserted since.
\<close>

definition check_proof_request ::
  "ledger \<Rightarrow> store \<Rightarrow> ident \<Rightarrow> proof_input \<Rightarrow> proofs_state \<Rightarrow> failure + string" where
  "check_proof_request L s org inp p =
     (case checkArtefact (pi_media inp) (pi_data inp) of Inl _ \<Rightarrow> Inl (RefusedRequest BAD_REQUEST (Some ''artefact''))
      | Inr bytes \<Rightarrow>
          and_then (ownedEvent L s org (pi_event inp)) (\<lambda>(ev, _).
          and_then (guard (isIncrease (maxCapacity ev) (pi_capacity inp))
            (RefusedRequest BAD_REQUEST (Some ''not-an-increase''))) (\<lambda>_.
          and_then (guard (\<not> exists_where (\<lambda>r. pf_event r = pi_event inp \<and> pf_status r = ProofPending) (proof_requests p))
            (RefusedRequest CONFLICT (Some ''pending''))) (\<lambda>_.
          Inr bytes))))"

definition store_artefact :: "proof_input \<Rightarrow> string \<Rightarrow> ident \<Rightarrow> proofs_state \<Rightarrow> failure + proofs_state" where
  "store_artefact inp bytes i p =
     and_then (put_artefact (proofArtefactKey i) bytes (pi_media inp) (artefacts p)) (\<lambda>A.
     Inr (p\<lparr>artefacts := A\<rparr>))"

definition request_increase ::
  "ledger \<Rightarrow> (string \<Rightarrow> string) \<Rightarrow> store \<Rightarrow> ident \<Rightarrow> request \<Rightarrow> proof_input \<Rightarrow> ident \<Rightarrow> time \<Rightarrow> proofs_state \<Rightarrow>
     (failure + proof_row) \<times> proofs_state" where
  "request_increase L sha256 s org req inp i at p =
     (case check_proof_request L s org inp p of Inl e \<Rightarrow> (Inl e, p)
      | Inr bytes \<Rightarrow> (case store_artefact inp bytes i p of Inl e \<Rightarrow> (Inl e, p)
          | Inr p1 \<Rightarrow> (let r = new_proof sha256 org req inp bytes i at in
              case insert_proof r p1 of Inl e \<Rightarrow> (Inl e, p1) | Inr p2 \<Rightarrow> (Inr r, p2))))"

definition list_proofs ::
  "ledger \<Rightarrow> store \<Rightarrow> ident \<Rightarrow> ident \<Rightarrow> proofs_state \<Rightarrow> failure + proof_row list" where
  "list_proofs L s org e p = and_then (ownedEvent L s org e) (\<lambda>_.
     Inr (sort_key (\<lambda>r. (- pf_requested_at r, pf_id r)) (filter (\<lambda>r. pf_event r = e) (proof_requests p))))"

definition proof_queue :: "proofs_state \<Rightarrow> proof_row list" where
  "proof_queue p = sort_key (\<lambda>r. (pf_requested_at r, pf_id r))
     (filter (\<lambda>r. pf_status r = ProofPending) (proof_requests p))"

definition read_artefact :: "ident \<Rightarrow> proofs_state \<Rightarrow> failure + string \<times> string" where
  "read_artefact i p = and_then (find_proof i p) (\<lambda>r.
     case get_artefact (artefacts p) (pf_key r) of None \<Rightarrow> Inl OtherError
     | Some (_, bytes) \<Rightarrow> Inr (pf_type r, bytes))"

section \<open>Decisions\<close>

definition already_decided :: failure where
  "already_decided = RefusedRequest CONFLICT (Some ''decided'')"

definition approved_row :: "ident \<Rightarrow> request \<Rightarrow> time \<Rightarrow> ident \<Rightarrow> ident \<Rightarrow> proof_row \<Rightarrow> proof_row" where
  "approved_row reviewer req at proof cur r =
     r\<lparr>pf_status := ProofApproved, pf_reviewer := Some reviewer, pf_decision := Some (requestId req),
       pf_decided_at := Some at, pf_proof := Some proof, pf_cursor := Some cur\<rparr>"

text \<open>
  The increase as it reaches the ledger: the event, the capacity and the proof.  Nothing is
  submitted unless the request is still pending under the event's lock.
\<close>

record increase =
  inc_event :: ident
  inc_capacity :: "int option"
  inc_proof :: ident

definition proposed :: "proof_row \<Rightarrow> string \<Rightarrow> increase" where
  "proposed r drawn = \<lparr>inc_event = pf_event r, inc_capacity = pf_capacity r, inc_proof = to_hex drawn\<rparr>"

text \<open>
  A write with an operation of its own is submitted once its audit row is written, whatever
  then becomes of it.
\<close>

definition is_sent :: "written \<Rightarrow> store \<Rightarrow> bool" where
  "is_sent w s \<longleftrightarrow> sent_command w s \<noteq> None"

text \<open>
  \<open>w\<close> is what became of the write; \<open>commits\<close>, whether the transaction that records the decision
  does.  The answer, the requests, the store with the audit row, and what was submitted.
\<close>

definition approve ::
  "ident \<Rightarrow> request \<Rightarrow> ident \<Rightarrow> string \<Rightarrow> written \<Rightarrow> bool \<Rightarrow> time \<Rightarrow> proofs_state \<Rightarrow> store \<Rightarrow>
     (failure + proof_row) \<times> proofs_state \<times> store \<times> increase option" where
  "approve reviewer req i drawn w commits at p s =
     (case find_proof i p of Inl e \<Rightarrow> (Inl e, p, s, None)
      | Inr r \<Rightarrow>
          if pf_status r \<noteq> ProofPending then (Inl already_decided, p, s, None)
          else (let (v, s1) = relay_write req ''setEventCapacity'' w at s;
                    sent = (if is_sent w s then Some (proposed r drawn) else None) in
            case settledOrThrow v of
              Inl e \<Rightarrow> (Inl e, p, s1, sent)
            | Inr cur \<Rightarrow>
                if \<not> commits \<or> exists_where (\<lambda>x. pf_proof x = Some (to_hex drawn)) (proof_requests p)
                then (Inl StoreError, p, s1, sent)
                else (Inr (approved_row reviewer req at (to_hex drawn) cur r),
                      p\<lparr>proof_requests := update_where (\<lambda>x. pf_id x = i)
                        (approved_row reviewer req at (to_hex drawn) cur) (proof_requests p)\<rparr>,
                      s1, sent)))"

definition rejected_row :: "ident \<Rightarrow> request \<Rightarrow> time \<Rightarrow> proof_row \<Rightarrow> proof_row" where
  "rejected_row reviewer req at r = r\<lparr>pf_status := ProofRejected, pf_reviewer := Some reviewer,
     pf_decision := Some (requestId req), pf_decided_at := Some at\<rparr>"

definition reject ::
  "ident \<Rightarrow> request \<Rightarrow> ident \<Rightarrow> time \<Rightarrow> proofs_state \<Rightarrow> (failure + proof_row) \<times> proofs_state" where
  "reject reviewer req i at p = (case find_proof i p of Inl e \<Rightarrow> (Inl e, p)
     | Inr _ \<Rightarrow> (case find (\<lambda>r. pf_id r = i \<and> pf_status r = ProofPending) (proof_requests p) of
           None \<Rightarrow> (Inl already_decided, p)
         | Some r \<Rightarrow> (Inr (rejected_row reviewer req at r),
             p\<lparr>proof_requests := update_where (\<lambda>x. pf_id x = i \<and> pf_status x = ProofPending)
               (rejected_row reviewer req at) (proof_requests p)\<rparr>)))"

end
