(* ===== verification/ProofFacts.thy ===== *)
theory ProofFacts
  imports Proofs
begin

text \<open>
  What the review of capacity increases promises, in every interleaving of requests and
  decisions: one pending request per event, decisions that stay, and nothing at the ledger
  that an organiser did not ask for, with an artefact, and a reviewer did not act on.
\<close>

section \<open>Runs\<close>

text \<open>
  A request whose artefact is stored is on its way to its row: its organiser, input, bytes and
  identifier.  \<open>rv_past\<close> is the history of the run: the ledgers there were, each with the tables
  beside it.
\<close>

record review =
  rv_proofs :: proofs_state
  rv_store :: store
  rv_arriving :: "(ident \<times> proof_input \<times> string \<times> ident) list"
  rv_sent :: "increase list"
  rv_past :: "(ledger \<times> store) list"

text \<open>
  What makes a request acceptable: its artefact, and, at some time of the run, an event owned by the
  organiser's account with a capacity that what is asked exceeds.
\<close>

definition increases_own_event :: "ident \<Rightarrow> ident \<Rightarrow> int option \<Rightarrow> ledger \<times> store \<Rightarrow> bool" where
  "increases_own_event org e asked w \<longleftrightarrow> (\<exists>ev c. getEvent (fst w) e = Inr ev \<and>
     authority_account (snd w) org = Some (owner ev) \<and> maxCapacity ev = Some c \<and>
     (\<forall>n. asked = Some n \<longrightarrow> c < n))"

definition acceptable :: "(ledger \<times> store) list \<Rightarrow> ident \<Rightarrow> proof_input \<Rightarrow> string \<Rightarrow> bool" where
  "acceptable past org inp bytes \<longleftrightarrow> checkArtefact (pi_media inp) (pi_data inp) = Inr bytes \<and>
     (\<exists>w \<in> set past. increases_own_event org (pi_event inp) (pi_capacity inp) w)"

text \<open>
  A request is checked against a ledger and tables of the run, which may have changed by the time its
  artefact is stored, and again by the time its row is inserted.
\<close>

inductive reviews :: "(string \<Rightarrow> string) \<Rightarrow> review \<Rightarrow> review \<Rightarrow> bool" for sha256 where
  reviews_refl: "reviews sha256 v v"
| reviews_artefact: "reviews sha256 v v' \<Longrightarrow> (L, s) \<in> set (rv_past v') \<Longrightarrow>
    check_proof_request L s org inp p = Inr bytes \<Longrightarrow>
    \<not> exists_where (\<lambda>(_, _, _, j). j = i) (rv_arriving v') \<Longrightarrow>
    \<not> exists_where (\<lambda>r. pf_id r = i) (proof_requests (rv_proofs v')) \<Longrightarrow>
    store_artefact inp bytes i (rv_proofs v') = Inr q \<Longrightarrow>
    reviews sha256 v (v'\<lparr>rv_proofs := q, rv_arriving := (org, inp, bytes, i) # rv_arriving v'\<rparr>)"
| reviews_insert: "reviews sha256 v v' \<Longrightarrow> (org, inp, bytes, i) \<in> set (rv_arriving v') \<Longrightarrow>
    insert_proof (new_proof sha256 org req inp bytes i at) (rv_proofs v') = Inr q \<Longrightarrow>
    reviews sha256 v (v'\<lparr>rv_proofs := q\<rparr>)"
| reviews_approve: "reviews sha256 v v' \<Longrightarrow>
    approve reviewer req i drawn w commits at (rv_proofs v') (rv_store v') = (res, q, s, sent) \<Longrightarrow>
    reviews sha256 v (v'\<lparr>rv_proofs := q, rv_store := s, rv_sent := (case sent of None \<Rightarrow> [] | Some x \<Rightarrow> [x]) @ rv_sent v'\<rparr>)"
| reviews_reject: "reviews sha256 v v' \<Longrightarrow> reject reviewer req i at (rv_proofs v') = (res, q) \<Longrightarrow>
    reviews sha256 v (v'\<lparr>rv_proofs := q\<rparr>)"
| reviews_world: "reviews sha256 v v' \<Longrightarrow> reviews sha256 v (v'\<lparr>rv_store := s, rv_past := (L, s) # rv_past v'\<rparr>)"

definition no_reviews :: "ledger \<Rightarrow> store \<Rightarrow> review" where
  "no_reviews L s = \<lparr>rv_proofs = \<lparr>proof_requests = [], artefacts = []\<rparr>, rv_store = s, rv_arriving = [],
     rv_sent = [], rv_past = [(L, s)]\<rparr>"

section \<open>Invariant\<close>

definition row_ok :: "(string \<Rightarrow> string) \<Rightarrow> (ledger \<times> store) list \<Rightarrow> artefacts \<Rightarrow> proof_row \<Rightarrow> bool" where
  "row_ok sha256 past A r \<longleftrightarrow>
     (pf_status r = ProofPending \<longleftrightarrow> pf_reviewer r = None) \<and>
     (pf_status r = ProofPending \<longleftrightarrow> pf_decided_at r = None) \<and>
     (pf_status r = ProofPending \<longleftrightarrow> pf_decision r = None) \<and>
     (pf_status r = ProofApproved \<longleftrightarrow> pf_proof r \<noteq> None) \<and>
     (pf_status r = ProofApproved \<longleftrightarrow> pf_cursor r \<noteq> None) \<and>
     pf_key r = proofArtefactKey (pf_id r) \<and>
     (\<exists>inp bytes. acceptable past (pf_organiser r) inp bytes \<and> pf_event r = pi_event inp \<and>
        pf_capacity r = pi_capacity inp \<and> pf_type r = pi_media inp \<and> pf_size r = length bytes \<and>
        pf_sha256 r = sha256 bytes \<and> get_artefact A (pf_key r) = Some (pf_type r, bytes))"

definition rows_ok :: "(string \<Rightarrow> string) \<Rightarrow> (ledger \<times> store) list \<Rightarrow> proofs_state \<Rightarrow> bool" where
  "rows_ok sha256 past p \<longleftrightarrow> distinct (map pf_id (proof_requests p)) \<and>
     distinct (map pf_event (filter (\<lambda>r. pf_status r = ProofPending) (proof_requests p))) \<and>
     (\<forall>r \<in> set (proof_requests p). row_ok sha256 past (artefacts p) r)"

definition arriving_ok :: "review \<Rightarrow> bool" where
  "arriving_ok v \<longleftrightarrow> (\<forall>(org, inp, bytes, i) \<in> set (rv_arriving v). acceptable (rv_past v) org inp bytes \<and>
     get_artefact (artefacts (rv_proofs v)) (proofArtefactKey i) = Some (pi_media inp, bytes))"

text \<open>Every increase submitted is of a request, as it was made.\<close>

definition sent_ok :: "proof_row list \<Rightarrow> increase list \<Rightarrow> bool" where
  "sent_ok rows sent \<longleftrightarrow> (\<forall>x \<in> set sent. (inc_event x, inc_capacity x) \<in> (\<lambda>r. (pf_event r, pf_capacity r)) ` set rows)"

definition review_ok :: "(string \<Rightarrow> string) \<Rightarrow> review \<Rightarrow> bool" where
  "review_ok sha256 v \<longleftrightarrow> rows_ok sha256 (rv_past v) (rv_proofs v) \<and> arriving_ok v \<and>
     sent_ok (proof_requests (rv_proofs v)) (rv_sent v)"

lemma check_acceptable:
  assumes "check_proof_request L s org inp p = Inr bytes" "(L, s) \<in> set past"
  shows "acceptable past org inp bytes"
proof -
  obtain ev acc where own: "ownedEvent L s org (pi_event inp) = Inr (ev, acc)"
    and up: "isIncrease (maxCapacity ev) (pi_capacity inp)"
    and art: "checkArtefact (pi_media inp) (pi_data inp) = Inr bytes"
    using assms(1) by (auto simp: check_proof_request_def and_then_Inr_iff guard_def split: sum.split_asm if_split_asm)
  have "increases_own_event org (pi_event inp) (pi_capacity inp) (L, s)"
    using own up
    by (auto simp: increases_own_event_def ownedEvent_def isIncrease_def split: sum.splits option.splits if_splits)
  with art assms(2) show ?thesis by (auto simp: acceptable_def)
qed

lemma acceptable_later: "acceptable past org inp bytes \<Longrightarrow> acceptable (w # past) org inp bytes"
  by (auto simp: acceptable_def)

lemma rows_ok_later: "rows_ok sha256 past p \<Longrightarrow> rows_ok sha256 (w # past) p"
  unfolding rows_ok_def row_ok_def using acceptable_later by metis

lemma arriving_ok_later:
  "arriving_ok v \<Longrightarrow> arriving_ok (v\<lparr>rv_store := s, rv_past := w # rv_past v\<rparr>)"
  by (auto simp: arriving_ok_def intro!: acceptable_later)

lemma map_of_filter_ne: "k \<noteq> key \<Longrightarrow> map_of (filter (\<lambda>(k', _). k' \<noteq> key) A) k = map_of A k"
  by (induction A) auto

lemma put_artefact_reads:
  "put_artefact key bytes t A = Inr A' \<Longrightarrow> get_artefact A' k = (if k = key then Some (t, bytes) else get_artefact A k)"
  by (auto simp: put_artefact_def get_artefact_def map_of_filter_ne split: if_splits)

section \<open>Deciding a request\<close>

text \<open>A decision changes the columns of the decision alone.\<close>

definition decides :: "(proof_row \<Rightarrow> proof_row) \<Rightarrow> bool" where
  "decides f \<longleftrightarrow> (\<exists>reviewer req at. f = rejected_row reviewer req at \<or>
     (\<exists>proof cur. f = approved_row reviewer req at proof cur))"

lemma decides_approved: "decides (approved_row reviewer req at proof cur)"
  unfolding decides_def by blast

lemma decides_rejected: "decides (rejected_row reviewer req at)"
  unfolding decides_def by blast

lemma decides_columns:
  assumes "decides f"
  shows "pf_id (f r) = pf_id r" "pf_event (f r) = pf_event r" "pf_organiser (f r) = pf_organiser r"
    "pf_capacity (f r) = pf_capacity r" "pf_key (f r) = pf_key r" "pf_type (f r) = pf_type r"
    "pf_size (f r) = pf_size r" "pf_sha256 (f r) = pf_sha256 r" "pf_request (f r) = pf_request r"
    "pf_requested_at (f r) = pf_requested_at r" "pf_status (f r) \<noteq> ProofPending"
  using assms by (auto simp: decides_def approved_row_def rejected_row_def)

lemma row_ok_decided:
  "decides f \<Longrightarrow> row_ok sha256 past A r \<Longrightarrow> pf_status r = ProofPending \<Longrightarrow> row_ok sha256 past A (f r)"
  by (auto simp: decides_def approved_row_def rejected_row_def row_ok_def)

lemma filter_pending_decided:
  assumes "decides f" "\<And>x. P x \<Longrightarrow> x \<in> set rows \<Longrightarrow> pf_status x = ProofPending"
  shows "filter (\<lambda>r. pf_status r = ProofPending) (update_where P f rows) =
    filter (\<lambda>r. pf_status r = ProofPending \<and> \<not> P r) rows"
  using decides_columns(11)[OF assms(1)] by (induction rows) (auto simp: update_where_def)

lemma rows_ok_decided:
  assumes "rows_ok sha256 past p" "decides f"
    and "\<And>x. P x \<Longrightarrow> x \<in> set (proof_requests p) \<Longrightarrow> pf_status x = ProofPending"
  shows "rows_ok sha256 past (p\<lparr>proof_requests := update_where P f (proof_requests p)\<rparr>)"
proof -
  let ?rows = "proof_requests p"
  have "map pf_id (update_where P f ?rows) = map pf_id ?rows"
    by (simp add: update_where_def decides_columns(1)[OF assms(2)])
  moreover have "distinct (map pf_event (filter (\<lambda>r. pf_status r = ProofPending \<and> \<not> P r) ?rows))"
    using assms(1) distinct_map_filter[of pf_event "filter (\<lambda>r. pf_status r = ProofPending) ?rows" "\<lambda>r. \<not> P r"]
    by (simp add: rows_ok_def conj_commute)
  moreover have "row_ok sha256 past (artefacts p) r" if "r \<in> set (update_where P f ?rows)" for r
    using that assms(1,3) row_ok_decided[OF assms(2)] by (auto simp: update_where_def rows_ok_def)
  ultimately show ?thesis
    using assms(1) filter_pending_decided[OF assms(2,3)] by (simp add: rows_ok_def)
qed

lemma requests_kept:
  "decides f \<Longrightarrow> (\<lambda>r. (pf_event r, pf_capacity r)) ` set (update_where P f rows) =
     (\<lambda>r. (pf_event r, pf_capacity r)) ` set rows"
  by (metis (no_types, lifting) decides_columns(2,4) map_update_where list.set_map)

section \<open>Operations\<close>

lemma find_proof_Inr: "find_proof i p = Inr r \<Longrightarrow> r \<in> set (proof_requests p) \<and> pf_id r = i"
  by (auto simp: find_proof_def split: option.split_asm if_split_asm dest: find_Some_in)

lemma approve_cases:
  assumes "approve reviewer req i drawn w commits at p s = (res, q, s', sent)"
  shows "(q = p \<or> (\<exists>r cur. r \<in> set (proof_requests p) \<and> pf_id r = i \<and> pf_status r = ProofPending \<and>
        q = p\<lparr>proof_requests := update_where (\<lambda>x. pf_id x = i)
          (approved_row reviewer req at (to_hex drawn) cur) (proof_requests p)\<rparr>)) \<and>
    (\<forall>x. sent = Some x \<longrightarrow> (\<exists>r \<in> set (proof_requests p). pf_id r = i \<and> pf_status r = ProofPending \<and> x = proposed r drawn))"
proof (cases "find_proof i p")
  case (Inl e)
  with assms show ?thesis by (simp add: approve_def)
next
  case (Inr r)
  note r = find_proof_Inr[OF Inr]
  obtain v s1 where v: "relay_write req ''setEventCapacity'' w at s = (v, s1)" by fastforce
  show ?thesis
  proof (cases "pf_status r = ProofPending")
    case False
    with assms Inr show ?thesis by (simp add: approve_def)
  next
    case True
    have sent: "sent = (if is_sent w s then Some (proposed r drawn) else None)"
      using assms Inr True v by (cases "settledOrThrow v") (simp_all add: approve_def Let_def split: if_split_asm)
    have q: "q = p \<or> (\<exists>cur. q = p\<lparr>proof_requests := update_where (\<lambda>x. pf_id x = i)
          (approved_row reviewer req at (to_hex drawn) cur) (proof_requests p)\<rparr>)"
      using assms Inr True v by (cases "settledOrThrow v") (simp_all add: approve_def Let_def split: if_split_asm, blast+)
    from q r True have "q = p \<or> (\<exists>r cur. r \<in> set (proof_requests p) \<and> pf_id r = i \<and> pf_status r = ProofPending \<and>
        q = p\<lparr>proof_requests := update_where (\<lambda>x. pf_id x = i)
          (approved_row reviewer req at (to_hex drawn) cur) (proof_requests p)\<rparr>)" by blast
    moreover have "\<forall>x. sent = Some x \<longrightarrow>
        (\<exists>r \<in> set (proof_requests p). pf_id r = i \<and> pf_status r = ProofPending \<and> x = proposed r drawn)"
      using sent r True by (simp split: if_splits) blast
    ultimately show ?thesis by blast
  qed
qed

lemma reject_cases:
  assumes "reject reviewer req i at p = (res, q)"
  shows "q = p \<or> q = p\<lparr>proof_requests := update_where (\<lambda>x. pf_id x = i \<and> pf_status x = ProofPending)
    (rejected_row reviewer req at) (proof_requests p)\<rparr>"
proof (cases "find_proof i p")
  case (Inr r)
  with assms show ?thesis
    by (cases "find (\<lambda>r. pf_id r = i \<and> pf_status r = ProofPending) (proof_requests p)") (simp_all add: reject_def)
qed (use assms in \<open>simp add: reject_def\<close>)

lemma same_id:
  "distinct (map pf_id rows) \<Longrightarrow> x \<in> set rows \<Longrightarrow> r \<in> set rows \<Longrightarrow> pf_id x = pf_id r \<Longrightarrow> x = r"
  by (metis distinct_map inj_onD)

text \<open>Each operation that decides is one update of pending rows, or none.\<close>

lemma decided_by:
  assumes "rows_ok sha256 past p"
    and "approve reviewer req i drawn w commits at p s = (res, q, s', sent) \<or> reject reviewer req i at p = (res, q)"
  shows "q = p \<or> (\<exists>P f. decides f \<and> (\<forall>x \<in> set (proof_requests p). P x \<longrightarrow> pf_status x = ProofPending) \<and>
    q = p\<lparr>proof_requests := update_where P f (proof_requests p)\<rparr>)"
  using assms(2)
proof
  assume "approve reviewer req i drawn w commits at p s = (res, q, s', sent)"
  then consider "q = p" | r cur where "r \<in> set (proof_requests p)" "pf_id r = i" "pf_status r = ProofPending"
    "q = p\<lparr>proof_requests := update_where (\<lambda>x. pf_id x = i)
       (approved_row reviewer req at (to_hex drawn) cur) (proof_requests p)\<rparr>"
    using approve_cases by blast
  then show ?thesis
  proof cases
    case 2
    then have "\<forall>x \<in> set (proof_requests p). pf_id x = i \<longrightarrow> pf_status x = ProofPending"
      using assms(1) same_id unfolding rows_ok_def by metis
    then show ?thesis unfolding 2(4)
      by (intro disjI2 exI[of _ "\<lambda>x. pf_id x = i"] exI[of _ "approved_row reviewer req at (to_hex drawn) cur"])
        (simp add: decides_approved)
  qed simp
next
  assume "reject reviewer req i at p = (res, q)"
  from reject_cases[OF this] show ?thesis
  proof
    assume q: "q = p\<lparr>proof_requests := update_where (\<lambda>x. pf_id x = i \<and> pf_status x = ProofPending)
      (rejected_row reviewer req at) (proof_requests p)\<rparr>"
    show ?thesis unfolding q
      by (intro disjI2 exI[of _ "\<lambda>x. pf_id x = i \<and> pf_status x = ProofPending"]
          exI[of _ "rejected_row reviewer req at"]) (simp add: decides_rejected)
  qed simp
qed

lemma store_artefact_reads:
  assumes "store_artefact inp bytes i p = Inr q"
  shows "proof_requests q = proof_requests p" "get_artefact (artefacts q) k =
    (if k = proofArtefactKey i then Some (pi_media inp, bytes) else get_artefact (artefacts p) k)"
  using assms put_artefact_reads by (auto simp: store_artefact_def and_then_Inr_iff)

lemma key_inject: "proofArtefactKey i = proofArtefactKey j \<longleftrightarrow> i = j"
  by (simp add: proofArtefactKey_def)

lemma rows_ok_artefact:
  assumes "rows_ok sha256 past p" "store_artefact inp bytes i p = Inr q"
    and "\<not> exists_where (\<lambda>r. pf_id r = i) (proof_requests p)"
  shows "rows_ok sha256 past q"
proof -
  have "row_ok sha256 past (artefacts q) r" if "row_ok sha256 past (artefacts p) r" "pf_id r \<noteq> i" for r
    using that store_artefact_reads(2)[OF assms(2)] by (auto simp: row_ok_def key_inject)
  then show ?thesis
    using assms(1,3) store_artefact_reads(1)[OF assms(2)] by (auto simp: rows_ok_def exists_where_iff)
qed

lemma insert_proof_Inr:
  "insert_proof r p = Inr q \<Longrightarrow> q = p\<lparr>proof_requests := proof_requests p @ [r]\<rparr> \<and>
     (\<forall>x \<in> set (proof_requests p). pf_id x \<noteq> pf_id r \<and> (pf_event x = pf_event r \<longrightarrow> pf_status x \<noteq> ProofPending))"
  by (auto simp: insert_proof_def exists_where_iff split: if_splits)

lemma rows_ok_insert:
  assumes "rows_ok sha256 past p" "insert_proof (new_proof sha256 org req inp bytes i at) p = Inr q"
    and "acceptable past org inp bytes" "get_artefact (artefacts p) (proofArtefactKey i) = Some (pi_media inp, bytes)"
  shows "rows_ok sha256 past q"
proof -
  let ?r = "new_proof sha256 org req inp bytes i at"
  have "row_ok sha256 past (artefacts p) ?r" using assms(3,4) by (auto simp: row_ok_def new_proof_def)
  moreover have "pf_status ?r = ProofPending" by (simp add: new_proof_def)
  ultimately show ?thesis using assms(1) insert_proof_Inr[OF assms(2)] by (auto simp: rows_ok_def)
qed

section \<open>Every run\<close>

lemma reviews_ok:
  assumes "reviews sha256 v v'" "review_ok sha256 v"
  shows "review_ok sha256 v'"
  using assms
proof induction
  case (reviews_artefact v v' L s org inp p bytes i q)
  then have ok: "rows_ok sha256 (rv_past v') (rv_proofs v')" "arriving_ok v'" by (auto simp: review_ok_def)
  have "j \<noteq> i" if "(o', inp', b', j) \<in> set (rv_arriving v')" for o' inp' b' j
    using that reviews_artefact.hyps(4) by (auto simp: exists_where_iff)
  then have "arriving_ok (v'\<lparr>rv_proofs := q, rv_arriving := (org, inp, bytes, i) # rv_arriving v'\<rparr>)"
    using ok(2) check_acceptable[OF reviews_artefact.hyps(3,2)] store_artefact_reads(2)[OF reviews_artefact.hyps(6)]
    by (fastforce simp: arriving_ok_def key_inject)
  then show ?case
    using reviews_artefact rows_ok_artefact[OF ok(1) reviews_artefact.hyps(6,5)]
      store_artefact_reads(1)[OF reviews_artefact.hyps(6)]
    by (auto simp: review_ok_def)
next
  case (reviews_insert v v' org inp bytes i req at q)
  then have "acceptable (rv_past v') org inp bytes"
    "get_artefact (artefacts (rv_proofs v')) (proofArtefactKey i) = Some (pi_media inp, bytes)"
    by (auto simp: review_ok_def arriving_ok_def)
  with reviews_insert rows_ok_insert[OF _ reviews_insert.hyps(3)] insert_proof_Inr[OF reviews_insert.hyps(3)]
  show ?case by (auto simp: review_ok_def arriving_ok_def sent_ok_def)
next
  case (reviews_approve v v' reviewer req i drawn w commits at res q s sent)
  then have ok: "rows_ok sha256 (rv_past v') (rv_proofs v')" "arriving_ok v'" "sent_ok (proof_requests (rv_proofs v')) (rv_sent v')"
    by (auto simp: review_ok_def)
  have sent: "sent_ok (proof_requests (rv_proofs v')) ((case sent of None \<Rightarrow> [] | Some x \<Rightarrow> [x]) @ rv_sent v')"
    using approve_cases[OF reviews_approve.hyps(2)] ok(3)
    by (cases sent) (auto simp: sent_ok_def proposed_def)
  from decided_by[OF ok(1) disjI1[OF reviews_approve.hyps(2)]] show ?case
    using ok sent rows_ok_decided[OF ok(1)] requests_kept
    by (auto simp: review_ok_def arriving_ok_def sent_ok_def)
next
  case (reviews_reject v v' reviewer req i at res q)
  then have ok: "rows_ok sha256 (rv_past v') (rv_proofs v')" "arriving_ok v'" "sent_ok (proof_requests (rv_proofs v')) (rv_sent v')"
    by (auto simp: review_ok_def)
  from decided_by[OF ok(1) disjI2[OF reviews_reject.hyps(2)]] show ?case
    using ok rows_ok_decided[OF ok(1)] requests_kept
    by (auto simp: review_ok_def arriving_ok_def sent_ok_def)
next
  case (reviews_world v v' s L)
  then show ?case using rows_ok_later arriving_ok_later by (simp add: review_ok_def)
qed

lemma no_reviews_ok: "review_ok sha256 (no_reviews L s)"
  by (simp add: review_ok_def no_reviews_def rows_ok_def arriving_ok_def sent_ok_def)

text \<open>A request keeps what was asked, and a decided one keeps its decision.\<close>

definition rows_kept :: "proof_row list \<Rightarrow> proof_row list \<Rightarrow> bool" where
  "rows_kept rows rows' \<longleftrightarrow> (\<forall>r \<in> set rows. \<exists>r' \<in> set rows'. pf_id r' = pf_id r \<and> pf_event r' = pf_event r \<and>
     pf_organiser r' = pf_organiser r \<and> pf_capacity r' = pf_capacity r \<and> pf_sha256 r' = pf_sha256 r \<and>
     pf_requested_at r' = pf_requested_at r \<and> (pf_status r \<noteq> ProofPending \<longrightarrow> r' = r))"

lemma rows_kept_refl: "rows_kept rows rows"
  by (auto simp: rows_kept_def)

lemma rows_kept_trans: "rows_kept a b \<Longrightarrow> rows_kept b c \<Longrightarrow> rows_kept a c"
  unfolding rows_kept_def by metis

lemma rows_kept_decided:
  assumes "decides f" "\<forall>x \<in> set rows. P x \<longrightarrow> pf_status x = ProofPending"
  shows "rows_kept rows (update_where P f rows)"
  unfolding rows_kept_def
proof
  fix r assume "r \<in> set rows"
  then have "(if P r then f r else r) \<in> set (update_where P f rows)" by (simp add: set_update_where)
  then show "\<exists>r' \<in> set (update_where P f rows). pf_id r' = pf_id r \<and> pf_event r' = pf_event r \<and>
     pf_organiser r' = pf_organiser r \<and> pf_capacity r' = pf_capacity r \<and> pf_sha256 r' = pf_sha256 r \<and>
     pf_requested_at r' = pf_requested_at r \<and> (pf_status r \<noteq> ProofPending \<longrightarrow> r' = r)"
    using decides_columns[OF assms(1), of r] assms(2) \<open>r \<in> set rows\<close>
    by (intro bexI[of _ "if P r then f r else r"]) auto
qed

lemma reviews_kept:
  assumes "reviews sha256 v v'" "review_ok sha256 v"
  shows "rows_kept (proof_requests (rv_proofs v)) (proof_requests (rv_proofs v'))"
  using assms
proof induction
  case (reviews_artefact v v' L s org inp p bytes i q)
  then show ?case using store_artefact_reads(1) by simp
next
  case (reviews_insert v v' org inp bytes i req at q)
  have "rows_kept (proof_requests (rv_proofs v')) (proof_requests q)"
    using insert_proof_Inr[OF reviews_insert.hyps(3)] by (auto simp: rows_kept_def)
  with reviews_insert show ?case by (auto intro: rows_kept_trans)
next
  case (reviews_approve v v' reviewer req i drawn w commits at res q s sent)
  have "rows_ok sha256 (rv_past v') (rv_proofs v')" using reviews_ok[OF reviews_approve.hyps(1) reviews_approve.prems]
    by (simp add: review_ok_def)
  from decided_by[OF this disjI1[OF reviews_approve.hyps(2)]]
  have "rows_kept (proof_requests (rv_proofs v')) (proof_requests q)"
    by (auto simp: rows_kept_refl rows_kept_decided)
  with reviews_approve show ?case by (auto intro: rows_kept_trans)
next
  case (reviews_reject v v' reviewer req i at res q)
  have "rows_ok sha256 (rv_past v') (rv_proofs v')" using reviews_ok[OF reviews_reject.hyps(1) reviews_reject.prems]
    by (simp add: review_ok_def)
  from decided_by[OF this disjI2[OF reviews_reject.hyps(2)]]
  have "rows_kept (proof_requests (rv_proofs v')) (proof_requests q)"
    by (auto simp: rows_kept_refl rows_kept_decided)
  with reviews_reject show ?case by (auto intro: rows_kept_trans)
qed (simp_all add: rows_kept_refl)

text \<open>
  An approval whose transaction does not commit after the ledger took the increase leaves the
  request pending: it can be rejected, although the ledger has the increase, or approved again,
  which submits the increase again with another proof.
\<close>

lemma lost_approval_stays_pending:
  assumes "find_proof i p = Inr r" "pf_status r = ProofPending" "relay_write req ''setEventCapacity'' w at s = (v, s1)"
    and "settledOrThrow v = Inr cur"
  shows "approve reviewer req i drawn w False at p s =
    (Inl StoreError, p, s1, if is_sent w s then Some (proposed r drawn) else None)"
  using assms by (simp add: approve_def Let_def)

end
