(* ===== verification/ProofProperties.thy ===== *)
theory ProofProperties
  imports ProofFacts Examples
begin

text \<open>The property of capacity proofs, with a run from a request to its approval.\<close>

text \<open>
  C33. Capacity increases are reviewed, in every interleaving of requests and decisions: an event
  has at most one pending request; every increase submitted to the ledger was asked for by an
  organiser who, in a ledger of the run, owned the event, whose capacity there was less than what
  was asked, with an artefact of an accepted type that is still in private storage under the hash
  recorded; and a decision names its reviewer, is never changed, and never submits again.
\<close>

lemma increases_are_reviewed:
  assumes "reviews sha256 (no_reviews L s) v" "reviews sha256 v v'"
  shows "distinct (map pf_event (filter (\<lambda>r. pf_status r = ProofPending) (proof_requests (rv_proofs v)))) \<and>
    (\<forall>x \<in> set (rv_sent v). \<exists>r \<in> set (proof_requests (rv_proofs v)). \<exists>encoded bytes.
       inc_event x = pf_event r \<and> inc_capacity x = pf_capacity r \<and>
       (\<exists>w \<in> set (rv_past v). \<exists>ev c. getEvent (fst w) (pf_event r) = Inr ev \<and>
          authority_account (snd w) (pf_organiser r) = Some (owner ev) \<and> maxCapacity ev = Some c \<and>
          (\<forall>n. inc_capacity x = Some n \<longrightarrow> c < n)) \<and>
       checkArtefact (pf_type r) encoded = Inr bytes \<and> pf_sha256 r = sha256 bytes \<and>
       get_artefact (artefacts (rv_proofs v)) (pf_key r) = Some (pf_type r, bytes)) \<and>
    (\<forall>r \<in> set (proof_requests (rv_proofs v)). pf_status r \<noteq> ProofPending \<longrightarrow>
       pf_reviewer r \<noteq> None \<and> r \<in> set (proof_requests (rv_proofs v')) \<and>
       (\<forall>reviewer req drawn w commits at s'. snd (snd (snd
          (approve reviewer req (pf_id r) drawn w commits at (rv_proofs v') s'))) = None))"
proof -
  have ok: "review_ok sha256 v" and ok': "review_ok sha256 v'"
    using reviews_ok[OF assms(1) no_reviews_ok] reviews_ok[OF assms(2)] by blast+
  have rows: "row_ok sha256 (rv_past v) (artefacts (rv_proofs v)) r" if "r \<in> set (proof_requests (rv_proofs v))" for r
    using ok that by (simp add: review_ok_def rows_ok_def)
  have "\<exists>r \<in> set (proof_requests (rv_proofs v)). \<exists>encoded bytes.
       inc_event x = pf_event r \<and> inc_capacity x = pf_capacity r \<and>
       (\<exists>w \<in> set (rv_past v). \<exists>ev c. getEvent (fst w) (pf_event r) = Inr ev \<and>
          authority_account (snd w) (pf_organiser r) = Some (owner ev) \<and> maxCapacity ev = Some c \<and>
          (\<forall>n. inc_capacity x = Some n \<longrightarrow> c < n)) \<and>
       checkArtefact (pf_type r) encoded = Inr bytes \<and> pf_sha256 r = sha256 bytes \<and>
       get_artefact (artefacts (rv_proofs v)) (pf_key r) = Some (pf_type r, bytes)"
    if "x \<in> set (rv_sent v)" for x
  proof -
    from ok that obtain r where r: "r \<in> set (proof_requests (rv_proofs v))"
      "inc_event x = pf_event r" "inc_capacity x = pf_capacity r"
      by (auto simp: review_ok_def sent_ok_def)
    obtain inp bytes where a: "acceptable (rv_past v) (pf_organiser r) inp bytes" "pf_event r = pi_event inp"
      "pf_capacity r = pi_capacity inp" "pf_type r = pi_media inp" "pf_sha256 r = sha256 bytes"
      "get_artefact (artefacts (rv_proofs v)) (pf_key r) = Some (pf_type r, bytes)"
      using rows[OF r(1)] unfolding row_ok_def by blast
    then have art: "checkArtefact (pf_type r) (pi_data inp) = Inr bytes"
      and own: "\<exists>w \<in> set (rv_past v). increases_own_event (pf_organiser r) (pf_event r) (inc_capacity x) w"
      using r(3) by (simp_all add: acceptable_def)
    show ?thesis
      by (intro bexI[OF _ r(1)] exI[of _ "pi_data inp"] exI[of _ bytes] conjI)
        (use r art own a(5,6) in \<open>simp_all add: increases_own_event_def\<close>)
  qed
  moreover have "pf_reviewer r \<noteq> None \<and> r \<in> set (proof_requests (rv_proofs v')) \<and>
       (\<forall>reviewer req drawn w commits at s'. snd (snd (snd
          (approve reviewer req (pf_id r) drawn w commits at (rv_proofs v') s'))) = None)"
    if r: "r \<in> set (proof_requests (rv_proofs v))" "pf_status r \<noteq> ProofPending" for r
  proof -
    have r': "r \<in> set (proof_requests (rv_proofs v'))"
      using reviews_kept[OF assms(2) ok] r unfolding rows_kept_def by blast
    have "snd (snd (snd (approve reviewer req (pf_id r) drawn w commits at (rv_proofs v') s'))) = None"
      for reviewer req drawn w commits at s'
    proof -
      obtain res q s1 sent where a: "approve reviewer req (pf_id r) drawn w commits at (rv_proofs v') s' =
          (res, q, s1, sent)" by (metis prod_cases4)
      have "x = r" if "x \<in> set (proof_requests (rv_proofs v'))" "pf_id x = pf_id r" for x
        using ok' same_id[OF _ that(1) r' that(2)] by (simp add: review_ok_def rows_ok_def)
      then have "sent = None" using approve_cases[OF a] r(2) by (cases sent) auto
      then show ?thesis by (simp add: a)
    qed
    with r' rows[OF r(1)] r(2) show ?thesis by (auto simp: row_ok_def)
  qed
  ultimately show ?thesis using ok by (simp add: review_ok_def rows_ok_def)
qed

definition asked_increase :: proof_input where
  "asked_increase = \<lparr>pi_event = ''event'', pi_capacity = Some 5, pi_media = ''application/pdf'', pi_data = ''JVBERi0=''\<rparr>"

definition asked_id :: ident where "asked_id = ''00000000-0000-4000-8000-000000000000''"

definition by_reviewer :: request where
  "by_reviewer = \<lparr>requestId = ''review'', principal = Reviewer ''rita'' ''session''\<rparr>"

definition asked_row :: proof_row where
  "asked_row = new_proof (\<lambda>b. b) ''org'' walk_request asked_increase ''%PDF-'' asked_id 5"

definition asked_state :: proofs_state where
  "asked_state = \<lparr>proof_requests = [asked_row], artefacts = [(proofArtefactKey asked_id, ''application/pdf'', ''%PDF-'')]\<rparr>"

definition approved_state :: proofs_state where
  "approved_state = asked_state\<lparr>proof_requests := [approved_row ''rita'' by_reviewer 9 (to_hex ''0123456789abcdef'') ''c'' asked_row]\<rparr>"

lemma asked_artefact: "checkArtefact ''application/pdf'' ''JVBERi0='' = Inr ''%PDF-''"
proof -
  have "is_base64 ''JVBERi0=''" "base64_decode ''JVBERi0='' = ''%PDF-''"
    "sniffArtefactType ''%PDF-'' = Some ''application/pdf''" "''application/pdf'' \<in> set PROOF_ARTEFACT_MEDIA_TYPES"
    by code_simp+
  then show ?thesis by (simp add: checkArtefact_def and_then_def guard_def MAX_PROOF_ARTEFACT_BYTES_def Let_def)
qed

lemma asked_checks:
  "check_proof_request walk_ledger walk0 ''org'' asked_increase \<lparr>proof_requests = [], artefacts = []\<rparr> = Inr ''%PDF-''"
proof -
  have "\<not> isl (ownedEvent walk_ledger walk0 ''org'' ''event'')"
    "maxCapacity (fst (projr (ownedEvent walk_ledger walk0 ''org'' ''event''))) = Some 1" by code_simp+
  then show ?thesis
    by (cases "ownedEvent walk_ledger walk0 ''org'' ''event''")
      (auto simp: check_proof_request_def asked_increase_def asked_artefact and_then_def guard_def isIncrease_def exists_where_def)
qed

definition arriving_review :: review where
  "arriving_review = (no_reviews walk_ledger walk0)\<lparr>rv_proofs := asked_state\<lparr>proof_requests := []\<rparr>,
     rv_arriving := [(''org'', asked_increase, ''%PDF-'', asked_id)]\<rparr>"

definition approval :: "(failure + proof_row) \<times> proofs_state \<times> store \<times> increase option" where
  "approval = approve ''rita'' by_reviewer asked_id ''0123456789abcdef''
     (Written ''op'' (Settled \<lparr>operationId = ''op'', cursor = ''c''\<rparr>)) True 9 asked_state walk0"

definition approved_review :: review where
  "approved_review = arriving_review\<lparr>rv_proofs := approved_state, rv_store := fst (snd (snd approval)),
     rv_sent := [\<lparr>inc_event = ''event'', inc_capacity = Some 5, inc_proof = to_hex ''0123456789abcdef''\<rparr>]\<rparr>"

lemma reviewed_run: "reviews (\<lambda>b. b) (no_reviews walk_ledger walk0) approved_review"
proof -
  have "store_artefact asked_increase ''%PDF-'' asked_id (rv_proofs (no_reviews walk_ledger walk0)) = Inr (asked_state\<lparr>proof_requests := []\<rparr>)"
    by code_simp
  from reviews_artefact[OF reviews_refl _ asked_checks _ _ this] have arriving:
    "reviews (\<lambda>b. b) (no_reviews walk_ledger walk0) arriving_review"
    by (simp add: arriving_review_def no_reviews_def exists_where_def)
  have "insert_proof asked_row (rv_proofs arriving_review) = Inr asked_state" by code_simp
  from reviews_insert[OF arriving _ this[unfolded asked_row_def]] have
    inserted: "reviews (\<lambda>b. b) (no_reviews walk_ledger walk0) (arriving_review\<lparr>rv_proofs := asked_state\<rparr>)"
    by (simp add: arriving_review_def)
  have "fst (snd approval) = approved_state" "snd (snd (snd approval)) =
      Some \<lparr>inc_event = ''event'', inc_capacity = Some 5, inc_proof = to_hex ''0123456789abcdef''\<rparr>"
    by code_simp+
  then have "approve ''rita'' by_reviewer asked_id ''0123456789abcdef''
      (Written ''op'' (Settled \<lparr>operationId = ''op'', cursor = ''c''\<rparr>)) True 9
      (rv_proofs (arriving_review\<lparr>rv_proofs := asked_state\<rparr>)) (rv_store (arriving_review\<lparr>rv_proofs := asked_state\<rparr>)) =
      (fst approval, approved_state, fst (snd (snd approval)),
       Some \<lparr>inc_event = ''event'', inc_capacity = Some 5, inc_proof = to_hex ''0123456789abcdef''\<rparr>)"
    by (simp add: approval_def arriving_review_def no_reviews_def prod_eq_iff)
  from reviews_approve[OF inserted this] show ?thesis
    by (simp add: approved_review_def arriving_review_def no_reviews_def)
qed

lemma increases_are_reviewed_witness:
  "\<exists>r \<in> set (proof_requests approved_state). pf_event r = ''event'' \<and> pf_capacity r = Some 5 \<and>
     pf_sha256 r = ''%PDF-'' \<and> pf_reviewer r \<noteq> None"
proof -
  from increases_are_reviewed[OF reviewed_run reviews_refl] show ?thesis
    by (auto simp: approved_review_def approved_state_def asked_state_def approved_row_def asked_row_def new_proof_def asked_increase_def)
qed

end
