(* ===== verification/Authority.thy ===== *)
theory Authority
  imports Sponsorship AuditLog PaymentsConfig
begin

text \<open>
  Organisers' authority on the ledger (\<open>src/authority/authority.ts\<close>, \<open>src/authority/kms.ts\<close>,
  the signers of \<open>src/audit/relay.ts\<close>): an account per organiser, its key in a KMS, the
  self-registration of the key, and a signer that reaches the key only for a command with a
  pending audit row.  The KMS and the profile are parameters, and what became of a write at the
  ledger is an argument.
\<close>

section \<open>Accounts and keys\<close>

record ledger_account =
  la_organiser :: ident
  la_key_ref :: string
  la_public_key :: string
  la_account :: ident
  la_request :: ident
  la_kind :: string
  la_session :: "ident option"
  la_created_at :: time
  la_registration :: "string option"
  la_signed_at :: "time option"
  la_registered_at :: "time option"

text \<open>The table, the organisers it refers to, and the keys the KMS holds.\<close>

record authority_state =
  ledger_accounts :: "ledger_account list"
  known_organisers :: "ident list"
  kms_keys :: "(string \<times> kms_key) list"

text \<open>
  Of the profile: the digest of a self-registration, its encoding and the account it names, the
  tag of a command's signing payload and the command's operation and kind.
\<close>

record registration_profile =
  rp_digest :: "string \<Rightarrow> string"
  rp_encode :: "string \<Rightarrow> string \<Rightarrow> string"
  rp_account :: "string \<Rightarrow> ident option"
  rp_tag :: string
  rp_command :: "string \<Rightarrow> (ident \<times> string) option"

definition commandOfSigningPayload :: "registration_profile \<Rightarrow> string \<Rightarrow> (ident \<times> string) option" where
  "commandOfSigningPayload R payload = (let tag = rp_tag R in
     if length payload \<le> length tag \<or> take (length tag) payload \<noteq> tag then None
     else rp_command R (drop (length tag) payload))"

section \<open>Signing\<close>

text \<open>A signature, or an error, with the payloads the KMS was asked to sign.\<close>

definition organiserSigner ::
  "libraries \<Rightarrow> registration_profile \<Rightarrow> kms_key \<Rightarrow> store \<Rightarrow> string \<Rightarrow> (failure + string) \<times> string list" where
  "organiserSigner K R k s payload = (case commandOfSigningPayload R payload of None \<Rightarrow> (Inl OtherError, [])
     | Some (oper, kind) \<Rightarrow> (case audit_find oper s of None \<Rightarrow> (Inl OtherError, [])
         | Some row \<Rightarrow>
             if log_outcome row \<noteq> LogPending \<or> log_command row \<noteq> kind then (Inl OtherError, [])
             else (case kmsP256Signer K k payload of None \<Rightarrow> (Inl OtherError, [payload])
               | Some auth \<Rightarrow> (Inr auth, [payload]))))"

text \<open>The audited signer records the command's row first.\<close>

definition auditedSigner ::
  "libraries \<Rightarrow> registration_profile \<Rightarrow> kms_key \<Rightarrow> request \<Rightarrow> time \<Rightarrow> string \<Rightarrow> store \<Rightarrow>
     ((failure + string) \<times> string list) \<times> store" where
  "auditedSigner K R k req at payload s = (case commandOfSigningPayload R payload of
       None \<Rightarrow> ((Inl OtherError, []), s)
     | Some (oper, kind) \<Rightarrow> (case audit_record req oper kind at s of
           Inl e \<Rightarrow> ((Inl e, []), s)
         | Inr s1 \<Rightarrow> (organiserSigner K R k s1 payload, s1)))"

text \<open>The key's self-registration; it throws when the signature does not verify.\<close>

definition signRegistration ::
  "libraries \<Rightarrow> registration_profile \<Rightarrow> kms_key \<Rightarrow> failure + string" where
  "signRegistration K R k = (case signDigest k (rp_digest R (publicKey k)) of None \<Rightarrow> Inl OtherError
     | Some (signature, der) \<Rightarrow> (case l_normalise K signature der of None \<Rightarrow> Inl OtherError
         | Some normalised \<Rightarrow> (let registration = rp_encode R (publicKey k) normalised in
             if rp_account R registration = None \<or> rp_account R registration \<noteq> l_account K (publicKey k)
             then Inl OtherError else Inr registration)))"

section \<open>Provisioning\<close>

definition read_account :: "ident \<Rightarrow> authority_state \<Rightarrow> ledger_account option" where
  "read_account org a = find (\<lambda>r. la_organiser r = org) (ledger_accounts a)"

definition ledgerAccountOf :: "ident \<Rightarrow> authority_state \<Rightarrow> ident option" where
  "ledgerAccountOf org a = map_option la_account (read_account org a)"

definition keyOf :: "string \<Rightarrow> authority_state \<Rightarrow> failure + kms_key" where
  "keyOf r a = (case map_of (kms_keys a) r of None \<Rightarrow> Inl OtherError | Some k \<Rightarrow> Inr k)"

definition session_of :: "principal \<Rightarrow> ident option" where
  "session_of p = (case p of Anonymous \<Rightarrow> None | Organiser _ x \<Rightarrow> Some x | Operator _ _ x \<Rightarrow> Some x
     | Holder _ x \<Rightarrow> Some x | Reviewer _ x \<Rightarrow> Some x | System _ _ \<Rightarrow> None)"

definition new_account :: "ident \<Rightarrow> string \<Rightarrow> kms_key \<Rightarrow> ident \<Rightarrow> request \<Rightarrow> time \<Rightarrow> ledger_account" where
  "new_account org r k acc req at =
     \<lparr>la_organiser = org, la_key_ref = r, la_public_key = publicKey k, la_account = acc,
      la_request = requestId req, la_kind = fst (principalColumns (principal req)),
      la_session = session_of (principal req), la_created_at = at, la_registration = None,
      la_signed_at = None, la_registered_at = None\<rparr>"

definition insert_account :: "ledger_account \<Rightarrow> authority_state \<Rightarrow> failure + authority_state" where
  "insert_account r a =
     (if exists_where (\<lambda>x. la_organiser x = la_organiser r \<or> la_key_ref x = la_key_ref r \<or>
         la_public_key x = la_public_key r \<or> la_account x = la_account r) (ledger_accounts a) \<or>
         length (la_public_key r) \<noteq> 33 \<or> \<not> account_hex (la_account r)
      then Inl StoreError
      else Inr (a\<lparr>ledger_accounts := ledger_accounts a @ [r]\<rparr>))"

text \<open>
  The organiser's row, with a key created for it under the organiser's lock if it had none.
  \<open>drawn\<close> is the key the KMS creates, or its failure; a key created stays in the KMS whatever
  becomes of the transaction.
\<close>

definition accountRow ::
  "libraries \<Rightarrow> ident \<Rightarrow> request \<Rightarrow> (string \<times> kms_key) option \<Rightarrow> time \<Rightarrow> authority_state \<Rightarrow>
     (failure + ledger_account) \<times> authority_state" where
  "accountRow K org req drawn at a = (case read_account org a of Some row \<Rightarrow> (Inr row, a)
     | None \<Rightarrow>
         if org \<notin> set (known_organisers a) then (Inl OtherError, a)
         else (case drawn of None \<Rightarrow> (Inl OtherError, a)
           | Some (r, k) \<Rightarrow> (let a1 = a\<lparr>kms_keys := (r, k) # kms_keys a\<rparr> in
               case l_account K (publicKey k) of None \<Rightarrow> (Inl OtherError, a1)
               | Some acc \<Rightarrow> (let row = new_account org r k acc req at in
                   case insert_account row a1 of Inl e \<Rightarrow> (Inl e, a1) | Inr a2 \<Rightarrow> (Inr row, a2)))))"

definition set_registration :: "ident \<Rightarrow> string \<Rightarrow> time \<Rightarrow> authority_state \<Rightarrow> authority_state" where
  "set_registration org registration at a = a\<lparr>ledger_accounts :=
     update_where (\<lambda>r. la_organiser r = org \<and> la_registration r = None)
       (\<lambda>r. r\<lparr>la_registration := Some registration, la_signed_at := Some at\<rparr>) (ledger_accounts a)\<rparr>"

definition set_registered :: "ident \<Rightarrow> time \<Rightarrow> authority_state \<Rightarrow> authority_state" where
  "set_registered org at a = a\<lparr>ledger_accounts :=
     update_where (\<lambda>r. la_organiser r = org \<and> la_registered_at r = None)
       (\<lambda>r. r\<lparr>la_registered_at := Some at\<rparr>) (ledger_accounts a)\<rparr>"

text \<open>
  The key's registration as the row has it, signed first when it has none: what another
  request signed meanwhile stands.
\<close>

definition sign_account ::
  "libraries \<Rightarrow> registration_profile \<Rightarrow> ledger_account \<Rightarrow> time \<Rightarrow> authority_state \<Rightarrow>
     (failure + ledger_account) \<times> authority_state" where
  "sign_account K R row at a = (case keyOf (la_key_ref row) a of Inl e \<Rightarrow> (Inl e, a)
     | Inr k \<Rightarrow>
         if la_registration row \<noteq> None then (Inr row, a)
         else (case signRegistration K R k of Inl e \<Rightarrow> (Inl e, a)
           | Inr registration \<Rightarrow> (let a1 = set_registration (la_organiser row) registration at a in
               case read_account (la_organiser row) a1 of None \<Rightarrow> (Inl OtherError, a1)
               | Some row' \<Rightarrow> (Inr row', a1))))"

text \<open>The answer, the tables, and the registration submitted with what became of it.\<close>

definition provision_sent ::
  "libraries \<Rightarrow> registration_profile \<Rightarrow> ident \<Rightarrow> request \<Rightarrow> (string \<times> kms_key) option \<Rightarrow> written \<Rightarrow> time \<Rightarrow>
     authority_state \<times> store \<Rightarrow> (failure + ident) \<times> authority_state \<times> store \<times> (string \<times> submission) option" where
  "provision_sent K R org req drawn w at x = (let (a, s) = x in
     case accountRow K org req drawn at a of (Inl e, a1) \<Rightarrow> (Inl e, a1, s, None)
     | (Inr row, a1) \<Rightarrow>
         if la_registered_at row \<noteq> None then (Inr (la_account row), a1, s, None)
         else (case sign_account K R row at a1 of (Inl e, a2) \<Rightarrow> (Inl e, a2, s, None)
           | (Inr row', a2) \<Rightarrow> (case la_registration row' of None \<Rightarrow> (Inl OtherError, a2, s, None)
               | Some g \<Rightarrow> (let (v, s1) = relay_write req ''registerCredential'' w at s;
                              sent = map_option (Pair g) (sent_command w s) in
                   case v of Inl e \<Rightarrow> (Inl e, a2, s1, sent)
                   | Inr (Inl c) \<Rightarrow> (Inl (SpecCodeError c None), a2, s1, sent)
                   | Inr (Inr _) \<Rightarrow> (Inr (la_account row'), set_registered org at a2, s1, sent)))))"

definition provision ::
  "libraries \<Rightarrow> registration_profile \<Rightarrow> ident \<Rightarrow> request \<Rightarrow> (string \<times> kms_key) option \<Rightarrow> written \<Rightarrow> time \<Rightarrow>
     authority_state \<times> store \<Rightarrow> (failure + ident) \<times> authority_state \<times> store" where
  "provision K R org req drawn w at x =
     (let (res, a, s, sent) = provision_sent K R org req drawn w at x in (res, a, s))"

text \<open>Relaying a write with the organiser's authority: provisioned first, then the write.\<close>

definition authority_relay ::
  "libraries \<Rightarrow> registration_profile \<Rightarrow> ident \<Rightarrow> request \<Rightarrow> (string \<times> kms_key) option \<Rightarrow> written \<Rightarrow>
     string \<Rightarrow> written \<Rightarrow> time \<Rightarrow> authority_state \<times> store \<Rightarrow>
     (failure + (code + receipt)) \<times> authority_state \<times> store" where
  "authority_relay K R org req drawn registering kind w at x =
     (case provision K R org req drawn registering at x of (Inl e, a, s) \<Rightarrow> (Inl e, a, s)
      | (Inr _, a, s) \<Rightarrow> (case read_account org a of None \<Rightarrow> (Inl OtherError, a, s)
          | Some row \<Rightarrow> (case keyOf (la_key_ref row) a of Inl e \<Rightarrow> (Inl e, a, s)
              | Inr _ \<Rightarrow> (let (v, s1) = relay_write req kind w at s in (v, a, s1)))))"

text \<open>Whether an environment has a KMS: production refuses to start without one.\<close>

definition organiserKmsFor :: "ledger_environment \<Rightarrow> failure + unit" where
  "organiserKmsFor d = (case d of Production \<Rightarrow> Inl OtherError | _ \<Rightarrow> Inr ())"

end
