(* ===== verification/AuthorityFacts.thy ===== *)
theory AuthorityFacts
  imports Authority
begin

text \<open>
  What organisers' authority promises: one ledger account per organiser for ever, whatever
  requests provision it at once; and an organiser's key signs a command only when its audit row
  is there.
\<close>

section \<open>Provisioning in every interleaving\<close>

text \<open>
  Each step is one transaction or statement of some request: a row created with a fresh key,
  a registration signed, a registration submitted that the ledger accepts, and an account marked
  registered once its registration was.  Beside the tables stand the registrations the ledger
  has accepted.
\<close>

inductive authority_steps :: "libraries \<Rightarrow> registration_profile \<Rightarrow>
    authority_state \<times> string list \<Rightarrow> authority_state \<times> string list \<Rightarrow> bool" for K R where
  authority_refl: "authority_steps K R x x"
| authority_row: "authority_steps K R x (a, gs) \<Longrightarrow>
    (case drawn of None \<Rightarrow> True | Some (r, _) \<Rightarrow> r \<notin> fst ` set (kms_keys a)) \<Longrightarrow>
    accountRow K org req drawn at a = (res, a') \<Longrightarrow> authority_steps K R x (a', gs)"
| authority_sign: "authority_steps K R x (a, gs) \<Longrightarrow> row \<in> set (ledger_accounts a) \<Longrightarrow>
    keyOf (la_key_ref row) a = Inr k \<Longrightarrow> signRegistration K R k = Inr registration \<Longrightarrow>
    authority_steps K R x (set_registration (la_organiser row) registration at a, gs)"
| authority_accepted: "authority_steps K R x (a, gs) \<Longrightarrow> row \<in> set (ledger_accounts a) \<Longrightarrow>
    la_registration row = Some g \<Longrightarrow> authority_steps K R x (a, g # gs)"
| authority_registered: "authority_steps K R x (a, gs) \<Longrightarrow> read_account org a = Some row \<Longrightarrow>
    la_registration row = Some g \<Longrightarrow> g \<in> set gs \<Longrightarrow> authority_steps K R x (set_registered org at a, gs)"

text \<open>What the ledger has accepted once a submission ended.\<close>

definition accepted :: "(string \<times> submission) option \<Rightarrow> string list \<Rightarrow> string list" where
  "accepted sent gs = (case sent of Some (g, Settled _) \<Rightarrow> g # gs | _ \<Rightarrow> gs)"

definition registered_ok :: "authority_state \<Rightarrow> string list \<Rightarrow> bool" where
  "registered_ok a gs \<longleftrightarrow> (\<forall>r \<in> set (ledger_accounts a). la_registered_at r \<noteq> None \<longrightarrow>
     (\<exists>g \<in> set gs. la_registration r = Some g))"

definition account_ok :: "libraries \<Rightarrow> registration_profile \<Rightarrow> authority_state \<Rightarrow> ledger_account \<Rightarrow> bool" where
  "account_ok K R a r \<longleftrightarrow> (\<exists>k. map_of (kms_keys a) (la_key_ref r) = Some k \<and> publicKey k = la_public_key r) \<and>
     l_account K (la_public_key r) = Some (la_account r) \<and>
     (la_registration r = None \<longleftrightarrow> la_signed_at r = None) \<and>
     (la_registered_at r \<noteq> None \<longrightarrow> la_registration r \<noteq> None) \<and>
     (\<forall>g. la_registration r = Some g \<longrightarrow> rp_account R g = Some (la_account r))"

definition authority_ok :: "libraries \<Rightarrow> registration_profile \<Rightarrow> authority_state \<Rightarrow> bool" where
  "authority_ok K R a \<longleftrightarrow> distinct (map la_organiser (ledger_accounts a)) \<and>
     distinct (map la_key_ref (ledger_accounts a)) \<and> distinct (map la_account (ledger_accounts a)) \<and>
     (\<forall>r \<in> set (ledger_accounts a). account_ok K R a r)"

lemma signRegistration_Inr:
  "signRegistration K R k = Inr g \<Longrightarrow> \<exists>acc. rp_account R g = Some acc \<and> l_account K (publicKey k) = Some acc"
  by (cases "l_account K (publicKey k)")
    (auto simp: signRegistration_def Let_def split: option.split_asm if_split_asm)

text \<open>What never changes of a row, and what only ever is set.\<close>

definition same_identity :: "ledger_account \<Rightarrow> ledger_account \<Rightarrow> bool" where
  "same_identity r r' \<longleftrightarrow> la_organiser r' = la_organiser r \<and> la_key_ref r' = la_key_ref r \<and>
     la_public_key r' = la_public_key r \<and> la_account r' = la_account r \<and> la_request r' = la_request r \<and>
     (la_registration r \<noteq> None \<longrightarrow> la_registration r' = la_registration r) \<and>
     (la_registered_at r \<noteq> None \<longrightarrow> la_registered_at r' = la_registered_at r)"

lemma same_identity_refl: "same_identity r r"
  by (simp add: same_identity_def)

lemma same_identity_trans: "same_identity a b \<Longrightarrow> same_identity b c \<Longrightarrow> same_identity a c"
  by (auto simp: same_identity_def)

definition extends :: "ledger_account list \<Rightarrow> ledger_account list \<Rightarrow> bool" where
  "extends rows rows' \<longleftrightarrow> (\<forall>r \<in> set rows. \<exists>r' \<in> set rows'. same_identity r r')"

lemma extends_refl: "extends rows rows"
  by (auto simp: extends_def intro: same_identity_refl)

lemma extends_trans: "extends a b \<Longrightarrow> extends b c \<Longrightarrow> extends a c"
  unfolding extends_def by (meson same_identity_trans)

lemma extends_update:
  assumes "\<And>r. P r \<Longrightarrow> same_identity r (f r)"
  shows "extends rows (update_where P f rows)"
  unfolding extends_def
proof
  fix r assume "r \<in> set rows"
  then have "(if P r then f r else r) \<in> set (update_where P f rows)" by (simp add: set_update_where)
  moreover have "same_identity r (if P r then f r else r)" using assms same_identity_refl by simp
  ultimately show "\<exists>r' \<in> set (update_where P f rows). same_identity r r'" by blast
qed

lemma set_registration_extends: "extends (ledger_accounts a) (ledger_accounts (set_registration org g at a))"
  unfolding set_registration_def by (simp, rule extends_update) (simp add: same_identity_def)

lemma set_registered_extends: "extends (ledger_accounts a) (ledger_accounts (set_registered org at a))"
  unfolding set_registered_def by (simp, rule extends_update) (simp add: same_identity_def)

lemma accountRow_cases:
  assumes "accountRow K org req drawn at a = (res, a')"
  shows "(ledger_accounts a' = ledger_accounts a \<and>
      (kms_keys a' = kms_keys a \<or> (\<exists>r k. drawn = Some (r, k) \<and> kms_keys a' = (r, k) # kms_keys a))) \<or>
    (\<exists>r k acc. drawn = Some (r, k) \<and> l_account K (publicKey k) = Some acc \<and> read_account org a = None \<and>
       kms_keys a' = (r, k) # kms_keys a \<and>
       insert_account (new_account org r k acc req at) (a\<lparr>kms_keys := (r, k) # kms_keys a\<rparr>) = Inr a')"
proof (cases "read_account org a")
  case (Some row)
  with assms show ?thesis by (simp add: accountRow_def)
next
  case None
  show ?thesis
  proof (cases drawn)
    case n: None
    with assms \<open>read_account org a = None\<close> show ?thesis by (auto simp: accountRow_def split: if_split_asm)
  next
    case (Some d)
    obtain r k where d: "d = (r, k)" by (cases d)
    show ?thesis
    proof (cases "l_account K (publicKey k)")
      case n: None
      with assms \<open>read_account org a = None\<close> Some d show ?thesis
        by (auto simp: accountRow_def Let_def split: if_split_asm)
    next
      case acc: (Some acc)
      show ?thesis
      proof (cases "insert_account (new_account org r k acc req at) (a\<lparr>kms_keys := (r, k) # kms_keys a\<rparr>)")
        case (Inl e)
        with assms \<open>read_account org a = None\<close> Some d acc show ?thesis
          by (auto simp: accountRow_def Let_def split: if_split_asm)
      next
        case (Inr a2)
        then have "kms_keys a2 = (r, k) # kms_keys a" by (auto simp: insert_account_def split: if_split_asm)
        with assms \<open>read_account org a = None\<close> Some d acc Inr show ?thesis
          by (auto simp: accountRow_def Let_def split: if_split_asm)
      qed
    qed
  qed
qed

lemma insert_account_Inr:
  "insert_account r a = Inr a' \<Longrightarrow> a' = a\<lparr>ledger_accounts := ledger_accounts a @ [r]\<rparr> \<and>
     (\<forall>x \<in> set (ledger_accounts a). la_organiser x \<noteq> la_organiser r \<and> la_key_ref x \<noteq> la_key_ref r \<and>
        la_account x \<noteq> la_account r)"
  by (auto simp: insert_account_def exists_where_iff split: if_splits)

lemma accountRow_ok:
  assumes "authority_ok K R a" "accountRow K org req drawn at a = (res, a')"
    and fresh: "case drawn of None \<Rightarrow> True | Some (r, _) \<Rightarrow> r \<notin> fst ` set (kms_keys a)"
  shows "authority_ok K R a' \<and> extends (ledger_accounts a) (ledger_accounts a')"
proof -
  have keep: "account_ok K R b x"
    if "account_ok K R a x" "drawn = Some (r, k)" "kms_keys b = (r, k) # kms_keys a" for b x r k
  proof -
    from that(1) obtain k' where "map_of (kms_keys a) (la_key_ref x) = Some k'" "publicKey k' = la_public_key x"
      by (auto simp: account_ok_def)
    moreover from this(1) have "la_key_ref x \<noteq> r" using fresh that(2) by (force dest: map_of_SomeD)
    ultimately show ?thesis using that by (auto simp: account_ok_def)
  qed
  from accountRow_cases[OF assms(2)] show ?thesis
  proof (elim disjE exE conjE)
    assume "ledger_accounts a' = ledger_accounts a" "kms_keys a' = kms_keys a"
    then show ?thesis using assms(1) by (auto simp: authority_ok_def account_ok_def extends_refl)
  next
    fix r k assume "ledger_accounts a' = ledger_accounts a" "drawn = Some (r, k)" "kms_keys a' = (r, k) # kms_keys a"
    then show ?thesis using assms(1) keep by (auto simp: authority_ok_def extends_refl)
  next
    fix r k acc assume d: "drawn = Some (r, k)" "l_account K (publicKey k) = Some acc"
      "kms_keys a' = (r, k) # kms_keys a"
      "insert_account (new_account org r k acc req at) (a\<lparr>kms_keys := (r, k) # kms_keys a\<rparr>) = Inr a'"
    let ?n = "new_account org r k acc req at"
    from insert_account_Inr[OF d(4)] have rows: "ledger_accounts a' = ledger_accounts a @ [?n]"
      and new: "\<forall>x \<in> set (ledger_accounts a). la_organiser x \<noteq> la_organiser ?n \<and>
        la_key_ref x \<noteq> la_key_ref ?n \<and> la_account x \<noteq> la_account ?n" by auto
    have "account_ok K R a' ?n" using d by (auto simp: account_ok_def new_account_def)
    moreover have "account_ok K R a' x" if "x \<in> set (ledger_accounts a)" for x
      using keep[OF _ d(1,3)] assms(1) that by (auto simp: authority_ok_def)
    ultimately have "authority_ok K R a'" using assms(1) new by (auto simp: authority_ok_def rows)
    moreover have "extends (ledger_accounts a) (ledger_accounts a')"
      by (auto simp: extends_def rows intro: same_identity_refl)
    ultimately show ?thesis by blast
  qed
qed

lemma set_registration_ok:
  assumes "authority_ok K R a" "row \<in> set (ledger_accounts a)" "keyOf (la_key_ref row) a = Inr k"
    and "signRegistration K R k = Inr g"
  shows "authority_ok K R (set_registration (la_organiser row) g at a)"
proof -
  have row: "account_ok K R a row" using assms(1,2) by (simp add: authority_ok_def)
  with assms(3) have "publicKey k = la_public_key row" by (auto simp: account_ok_def keyOf_def split: option.splits)
  with signRegistration_Inr[OF assms(4)] row have g: "rp_account R g = Some (la_account row)"
    by (auto simp: account_ok_def)
  have "account_ok K R (set_registration (la_organiser row) g at a) y"
    if "y \<in> set (ledger_accounts (set_registration (la_organiser row) g at a))" for y
  proof -
    from that obtain x where x: "x \<in> set (ledger_accounts a)"
      and y: "y = (if la_organiser x = la_organiser row \<and> la_registration x = None
        then x\<lparr>la_registration := Some g, la_signed_at := Some at\<rparr> else x)"
      by (auto simp: set_registration_def set_update_where)
    have "account_ok K R a x" using assms(1) x by (simp add: authority_ok_def)
    moreover have "x = row" if "la_organiser x = la_organiser row"
      using assms(1,2) x that unfolding authority_ok_def by (metis distinct_map inj_onD)
    ultimately show ?thesis using g by (auto simp: y account_ok_def set_registration_def)
  qed
  moreover have "map h (ledger_accounts (set_registration (la_organiser row) g at a)) = map h (ledger_accounts a)"
    if "\<And>r. h (r\<lparr>la_registration := Some g, la_signed_at := Some at\<rparr>) = h r" for h :: "ledger_account \<Rightarrow> string"
    using that by (simp add: set_registration_def map_update_where)
  ultimately show ?thesis using assms(1) by (simp add: authority_ok_def)
qed

lemma set_registered_ok:
  assumes "authority_ok K R a" "read_account org a = Some row" "la_registration row \<noteq> None"
  shows "authority_ok K R (set_registered org at a)"
proof -
  have row: "row \<in> set (ledger_accounts a)" "la_organiser row = org"
    using assms(2) find_Some_in by (fastforce simp: read_account_def)+
  have "account_ok K R (set_registered org at a) y" if "y \<in> set (ledger_accounts (set_registered org at a))" for y
  proof -
    from that obtain x where x: "x \<in> set (ledger_accounts a)"
      and y: "y = (if la_organiser x = org \<and> la_registered_at x = None then x\<lparr>la_registered_at := Some at\<rparr> else x)"
      by (auto simp: set_registered_def set_update_where)
    have "account_ok K R a x" using assms(1) x by (simp add: authority_ok_def)
    moreover have "x = row" if "la_organiser x = org"
      using assms(1) row x that unfolding authority_ok_def by (metis distinct_map inj_onD)
    ultimately show ?thesis using assms(3) by (auto simp: y account_ok_def set_registered_def)
  qed
  moreover have "map h (ledger_accounts (set_registered org at a)) = map h (ledger_accounts a)"
    if "\<And>r. h (r\<lparr>la_registered_at := Some at\<rparr>) = h r" for h :: "ledger_account \<Rightarrow> string"
    using that by (simp add: set_registered_def map_update_where)
  ultimately show ?thesis using assms(1) by (simp add: authority_ok_def)
qed

lemma authority_steps_ok:
  assumes "authority_steps K R x y" "authority_ok K R (fst x)"
  shows "authority_ok K R (fst y) \<and> extends (ledger_accounts (fst x)) (ledger_accounts (fst y))"
  using assms
proof induction
  case (authority_refl x)
  then show ?case by (simp add: extends_refl)
next
  case (authority_row x a gs drawn org req at res a')
  then have "authority_ok K R a" "extends (ledger_accounts (fst x)) (ledger_accounts a)" by auto
  with accountRow_ok[OF this(1) authority_row.hyps(3,2)] show ?case using extends_trans by auto
next
  case (authority_sign x a gs row k registration at)
  then have "authority_ok K R a" "extends (ledger_accounts (fst x)) (ledger_accounts a)" by auto
  with set_registration_ok[OF this(1) authority_sign.hyps(2-4)] show ?case
    using extends_trans set_registration_extends by auto
next
  case (authority_registered x a gs org row g at)
  then have "authority_ok K R a" "extends (ledger_accounts (fst x)) (ledger_accounts a)" by auto
  with set_registered_ok[OF this(1) authority_registered.hyps(2)] authority_registered.hyps(3) show ?case
    using extends_trans set_registered_extends by auto
qed simp

lemma accountRow_registered:
  assumes "accountRow K org req drawn at a = (res, a')" "registered_ok a gs"
  shows "registered_ok a' gs"
  using accountRow_cases[OF assms(1)]
proof (elim disjE exE conjE)
  fix r k acc assume "insert_account (new_account org r k acc req at) (a\<lparr>kms_keys := (r, k) # kms_keys a\<rparr>) = Inr a'"
  from insert_account_Inr[OF this] assms(2) show ?thesis by (auto simp: registered_ok_def new_account_def)
qed (use assms(2) in \<open>simp_all add: registered_ok_def\<close>)

lemma set_registered_accepted:
  assumes "authority_ok K R a" "registered_ok a gs" "read_account org a = Some row"
    and "la_registration row = Some g" "g \<in> set gs"
  shows "registered_ok (set_registered org at a) gs"
proof -
  have row: "row \<in> set (ledger_accounts a)" "la_organiser row = org"
    using assms(3) find_Some_in by (fastforce simp: read_account_def)+
  have "x = row" if "x \<in> set (ledger_accounts a)" "la_organiser x = org" for x
    using assms(1) row that unfolding authority_ok_def by (metis distinct_map inj_onD)
  then show ?thesis
    using assms(2,4,5) by (auto simp: registered_ok_def set_registered_def set_update_where)
qed

lemma set_registration_registered:
  assumes "registered_ok a gs"
  shows "registered_ok (set_registration org g at a) gs"
  unfolding registered_ok_def
proof (intro ballI impI)
  fix y assume "y \<in> set (ledger_accounts (set_registration org g at a))" and y: "la_registered_at y \<noteq> None"
  then obtain x where x: "x \<in> set (ledger_accounts a)"
    and yx: "y = (if la_organiser x = org \<and> la_registration x = None
        then x\<lparr>la_registration := Some g, la_signed_at := Some at\<rparr> else x)"
    by (auto simp: set_registration_def set_update_where)
  have "la_registered_at x \<noteq> None" using y by (simp add: yx split: if_split_asm)
  with assms x obtain h where h: "h \<in> set gs" "la_registration x = Some h"
    unfolding registered_ok_def by blast
  then have "y = x" by (simp add: yx)
  with h show "\<exists>h \<in> set gs. la_registration y = Some h" by blast
qed

lemma authority_steps_registered:
  assumes "authority_steps K R x y" "authority_ok K R (fst x)" "registered_ok (fst x) (snd x)"
  shows "registered_ok (fst y) (snd y)"
  using assms
proof induction
  case (authority_row x a gs drawn org req at res a')
  then show ?case using accountRow_registered by simp
next
  case (authority_sign x a gs row k registration at)
  then show ?case using set_registration_registered by simp
next
  case (authority_accepted x a gs row g)
  then show ?case by (auto simp: registered_ok_def)
next
  case (authority_registered x a gs org row g at)
  have "authority_ok K R a" "registered_ok a gs"
    using authority_steps_ok[OF authority_registered.hyps(1)] authority_registered.IH authority_registered.prems
    by simp_all
  with authority_registered.hyps show ?case using set_registered_accepted by simp
qed

lemma ledgerAccountOf_extends:
  assumes "authority_ok K R a'" "extends (ledger_accounts a) (ledger_accounts a')" "read_account org a = Some r"
  shows "\<exists>r'. read_account org a' = Some r' \<and> same_identity r r'"
proof -
  have "r \<in> set (ledger_accounts a)" "la_organiser r = org"
    using assms(3) find_Some_in by (fastforce simp: read_account_def)+
  then obtain r' where r': "r' \<in> set (ledger_accounts a')" "same_identity r r'"
    using assms(2) by (auto simp: extends_def)
  then have org: "la_organiser r' = org" using \<open>la_organiser r = org\<close> by (simp add: same_identity_def)
  obtain x where x: "read_account org a' = Some x"
    using r'(1) org by (cases "read_account org a'") (auto simp: read_account_def find_None_iff)
  then have "x \<in> set (ledger_accounts a')" "la_organiser x = org"
    using find_Some_in by (fastforce simp: read_account_def)+
  then have "x = r'" using assms(1) r'(1) org unfolding authority_ok_def by (metis distinct_map inj_onD)
  with x r'(2) show ?thesis by blast
qed

section \<open>Operations\<close>

lemma read_account_in: "read_account org a = Some row \<Longrightarrow> row \<in> set (ledger_accounts a) \<and> la_organiser row = org"
  using find_Some_in by (fastforce simp: read_account_def)

lemma accountRow_reads:
  assumes "accountRow K org req drawn at a = (Inr row, a')"
  shows "read_account org a' = Some row"
proof (cases "read_account org a")
  case (Some x)
  with assms show ?thesis by (simp add: accountRow_def)
next
  case None
  then have none: "\<forall>x \<in> set (ledger_accounts a). la_organiser x \<noteq> org"
    by (auto simp: read_account_def find_None_iff)
  from assms None obtain r k acc where row: "row = new_account org r k acc req at"
    and "insert_account row (a\<lparr>kms_keys := (r, k) # kms_keys a\<rparr>) = Inr a'"
    by (auto simp: accountRow_def Let_def split: if_split_asm option.split_asm prod.split_asm sum.split_asm)
  from insert_account_Inr[OF this(2)] have "ledger_accounts a' = ledger_accounts a @ [row]" by simp
  moreover have "la_organiser row = org" by (simp add: row new_account_def)
  moreover have "find (\<lambda>x. la_organiser x = org) (ledger_accounts a) = None"
    using None by (simp add: read_account_def)
  ultimately show ?thesis by (simp add: read_account_def find_append_new)
qed

lemma sign_account_cases:
  assumes "sign_account K R row at a = (res, a')"
  shows "a' = a \<or> (\<exists>k g. keyOf (la_key_ref row) a = Inr k \<and> signRegistration K R k = Inr g \<and>
      a' = set_registration (la_organiser row) g at a)"
  using assms
  by (auto simp: sign_account_def Let_def split: sum.split_asm if_split_asm option.split_asm)

text \<open>The rows of an organiser after its registration was set.\<close>

lemma read_set_registration:
  "read_account org (set_registration org' g at a) = map_option (\<lambda>r. if la_organiser r = org' \<and> la_registration r = None
     then r\<lparr>la_registration := Some g, la_signed_at := Some at\<rparr> else r) (read_account org a)"
  unfolding read_account_def set_registration_def by (simp add: find_update_where)

lemma read_set_registered:
  "read_account org (set_registered org' at a) = map_option (\<lambda>r. if la_organiser r = org' \<and> la_registered_at r = None
     then r\<lparr>la_registered_at := Some at\<rparr> else r) (read_account org a)"
  unfolding read_account_def set_registered_def by (simp add: find_update_where)

lemma sign_account_registers:
  assumes "sign_account K R row at a = (Inr row', a')" "read_account org a = Some row"
  shows "read_account org a' = Some row' \<and> la_registration row' \<noteq> None \<and> la_account row' = la_account row"
proof (cases "la_registration row")
  case (Some g)
  with assms show ?thesis by (auto simp: sign_account_def split: sum.split_asm)
next
  case None
  note org = read_account_in[OF assms(2)]
  from assms(1) None obtain k g where a': "a' = set_registration org g at a"
    and row': "read_account org a' = Some row'"
    using org by (auto simp: sign_account_def Let_def split: sum.split_asm option.split_asm)
  then show ?thesis using assms(2) None org by (auto simp: read_set_registration)
qed

lemma provision_run:
  assumes "provision_sent K R org req drawn w at (a, s) = (res, a', s', sent)"
    and "case drawn of None \<Rightarrow> True | Some (r, _) \<Rightarrow> r \<notin> fst ` set (kms_keys a)"
  shows "authority_steps K R (a, gs) (a', accepted sent gs) \<and> (\<forall>acc. res = Inr acc \<longrightarrow>
    (\<exists>row. read_account org a' = Some row \<and> la_account row = acc \<and> la_registered_at row \<noteq> None))"
proof -
  obtain r1 a1 where a1: "accountRow K org req drawn at a = (r1, a1)" by fastforce
  have s1: "authority_steps K R (a, gs) (a1, gs)" using authority_row[OF authority_refl assms(2) a1] .
  show ?thesis
  proof (cases r1)
    case (Inl e)
    with assms(1) a1 s1 show ?thesis by (auto simp: provision_sent_def accepted_def)
  next
    case (Inr row)
    have row: "read_account org a1 = Some row" using accountRow_reads a1 Inr by blast
    show ?thesis
    proof (cases "la_registered_at row")
      case (Some t)
      with assms(1) a1 s1 Inr row show ?thesis by (auto simp: provision_sent_def accepted_def)
    next
      case None
      obtain r2 a2 where a2: "sign_account K R row at a1 = (r2, a2)" by fastforce
      have s2: "authority_steps K R (a, gs) (a2, gs)"
        using sign_account_cases[OF a2] authority_sign[OF s1] read_account_in[OF row] s1 by auto
      obtain v s3 where v: "relay_write req ''registerCredential'' w at s = (v, s3)" by fastforce
      show ?thesis
      proof (cases r2)
        case (Inl e)
        with assms(1) a1 a2 s2 Inr None show ?thesis by (auto simp: provision_sent_def accepted_def)
      next
        case i2: (Inr row')
        from sign_account_registers[OF a2[unfolded i2] row] obtain g where row': "read_account org a2 = Some row'"
          "la_registration row' = Some g" by auto
        have sent: "sent = map_option (Pair g) (sent_command w s)"
          using assms(1) a1 a2 Inr None i2 v row'(2)
          by (cases v) (auto simp: provision_sent_def Let_def split: sum.split_asm)
        have taken: "authority_steps K R (a, gs) (a2, accepted sent gs)"
          using authority_accepted[OF s2 conjunct1[OF read_account_in[OF row'(1)]] row'(2)] s2
          by (cases "sent_command w s") (auto simp: sent accepted_def split: submission.split)
        show ?thesis
        proof (cases "\<exists>rc. v = Inr (Inr rc)")
          case True
          then obtain rc where rc: "v = Inr (Inr rc)" by blast
          have verdict: "fst (relay_write req ''registerCredential'' w at s) = Inr (Inr rc)" by (simp add: v rc)
          obtain sub where "sent_command w s = Some sub" "verdict_of sub = Inr (Inr rc)"
            using relay_write_verdict[OF verdict] .
          then have "g \<in> set (accepted sent gs)"
            by (cases sub) (simp_all add: sent accepted_def verdict_of_def)
          from authority_registered[OF taken row' this]
          have "authority_steps K R (a, gs) (set_registered org at a2, accepted sent gs)" .
          moreover have "\<exists>x. read_account org (set_registered org at a2) = Some x \<and> la_account x = la_account row' \<and>
              la_registered_at x \<noteq> None"
            using row' read_account_in[OF row'(1)] by (auto simp: read_set_registered)
          ultimately show ?thesis
            using assms(1) a1 a2 Inr None i2 v rc row'(2) by (auto simp: provision_sent_def)
        next
          case False
          with assms(1) a1 a2 taken Inr None i2 v row'(2) show ?thesis
            by (cases v) (auto simp: provision_sent_def Let_def split: sum.split_asm)
        qed
      qed
    qed
  qed
qed

section \<open>Signatures\<close>

text \<open>
  Within a relayed write the KMS is reached exactly when the row could be written, and then it
  names the request and its principal.
\<close>

lemma auditedSigner_asks:
  assumes "auditedSigner K R k req at payload s = ((res, asked), s')" "asked \<noteq> []" "names_task req"
  shows "asked = [payload] \<and> (\<exists>oper kind row. commandOfSigningPayload R payload = Some (oper, kind) \<and>
    audit_find oper s = None \<and> audit_find oper s' = Some row \<and> log_outcome row = LogPending \<and>
    log_command row = kind \<and> log_request row = requestId req \<and> principalOf row = Some (principal req))"
proof -
  from assms obtain oper kind s1 where c: "commandOfSigningPayload R payload = Some (oper, kind)"
    and r: "audit_record req oper kind at s = Inr s1" and o: "organiserSigner K R k s1 payload = (res, asked)" "s' = s1"
    by (auto simp: auditedSigner_def split: option.split_asm sum.split_asm)
  from r have none: "audit_find oper s = None"
    and s1: "s1 = s\<lparr>audit_log := audit_log s @ [log_entry req oper kind at]\<rparr>"
    by (auto simp: audit_record_Inr audit_find_def find_None_iff exists_where_iff)
  then have "audit_find oper s1 = Some (log_entry req oper kind at)"
    by (simp add: audit_find_def find_append_new)
  moreover have "asked = [payload]" using o(1) assms(2) c
    by (auto simp: organiserSigner_def split: option.split_asm if_split_asm)
  ultimately show ?thesis using c none o(2) by (auto simp: principalOf_log_entry [OF assms(3)])
qed

lemma auditedSigner_never_refused_by_the_key:
  assumes "audit_record req oper kind at s = Inr s1" "commandOfSigningPayload R payload = Some (oper, kind)"
  shows "auditedSigner K R k req at payload s =
    ((case kmsP256Signer K k payload of None \<Rightarrow> Inl OtherError | Some auth \<Rightarrow> Inr auth, [payload]), s1)"
proof -
  from assms(1) have "find (\<lambda>r. log_operation r = oper) (audit_log s) = None"
    by (auto simp: audit_record_Inr find_None_iff exists_where_iff)
  then have "audit_find oper s1 = Some (log_entry req oper kind at)"
    using assms(1) by (auto simp: audit_record_Inr audit_find_def find_append_new)
  with assms show ?thesis by (simp add: auditedSigner_def organiserSigner_def split: option.splits)
qed

end
