(* ===== verification/AuthorityProperties.thy ===== *)
theory AuthorityProperties
  imports AuthorityFacts SponsorshipProperties Walkthrough
begin

text \<open>The property of organisers' authority, with a provisioning run.\<close>

text \<open>
  C34. Organisers keep their account, in every interleaving of the transactions that provision
  them: whatever a provisioning answered is and stays the organiser's account; the ledger accepted
  a registration that names that account, the one in its row, signed with a key still in the KMS whose
  account it is; and no other organiser ever has it.
\<close>

lemma organisers_keep_their_account:
  assumes "authority_steps K R (a0, []) (a, gs)" "ledger_accounts a0 = []"
    and "provision_sent K R org req drawn w at (a, s) = (Inr acc, a', s', sent)"
    and "case drawn of None \<Rightarrow> True | Some (r, _) \<Rightarrow> r \<notin> fst ` set (kms_keys a)"
    and "authority_steps K R (a', case sent of Some (g, Settled _) \<Rightarrow> g # gs | _ \<Rightarrow> gs) (a'', gs'')"
  shows "ledgerAccountOf org a'' = Some acc \<and>
    (\<forall>other. ledgerAccountOf other a'' = Some acc \<longrightarrow> other = org) \<and>
    (\<exists>row k. \<exists>g \<in> set gs''. read_account org a'' = Some row \<and> la_registration row = Some g \<and>
       rp_account R g = Some acc \<and> keyOf (la_key_ref row) a'' = Inr k \<and> l_account K (publicKey k) = Some acc)"
proof -
  have ok0: "authority_ok K R a0" "registered_ok a0 []" using assms(2) by (simp_all add: authority_ok_def registered_ok_def)
  have ok: "authority_ok K R a" using authority_steps_ok[OF assms(1)] ok0 by simp
  have reg: "registered_ok a gs" using authority_steps_registered[OF assms(1)] ok0 by simp
  note sent = accepted_def[of sent gs, symmetric]
  from provision_run[OF assms(3,4), of gs] obtain row where steps: "authority_steps K R (a, gs) (a', accepted sent gs)"
    and row: "read_account org a' = Some row" "la_account row = acc" "la_registered_at row \<noteq> None" by auto
  have ok': "authority_ok K R a'" using authority_steps_ok[OF steps] ok by simp
  have reg': "registered_ok a' (accepted sent gs)" using authority_steps_registered[OF steps] ok reg by simp
  note later = assms(5)[unfolded sent]
  have ok'': "authority_ok K R a''" and more: "extends (ledger_accounts a') (ledger_accounts a'')"
    using authority_steps_ok[OF later] ok' by simp_all
  have reg'': "registered_ok a'' gs''" using authority_steps_registered[OF later] ok' reg' by simp
  from ledgerAccountOf_extends[OF ok'' more row(1)] obtain row' where row': "read_account org a'' = Some row'"
    "same_identity row row'" by blast
  then have same: "la_account row' = acc" "la_registered_at row' \<noteq> None"
    using row by (auto simp: same_identity_def)
  have in': "row' \<in> set (ledger_accounts a'')" "la_organiser row' = org" using read_account_in[OF row'(1)] by auto
  then have "account_ok K R a'' row'" using ok'' by (simp add: authority_ok_def)
  moreover obtain g where "g \<in> set gs''" "la_registration row' = Some g"
    using reg'' in'(1) same(2) unfolding registered_ok_def by blast
  moreover have "other = org" if "ledgerAccountOf other a'' = Some acc" for other
  proof -
    from that obtain x where "read_account other a'' = Some x" "la_account x = acc" by (auto simp: ledgerAccountOf_def)
    then have "x \<in> set (ledger_accounts a'')" "la_organiser x = other" "la_account x = la_account row'"
      using read_account_in same by auto
    then have "x = row'" using ok'' in'(1) unfolding authority_ok_def by (metis distinct_map inj_onD)
    then show ?thesis using in'(2) \<open>la_organiser x = other\<close> by simp
  qed
  ultimately show ?thesis using row' same by (auto simp: ledgerAccountOf_def account_ok_def keyOf_def)
qed

definition organiser_key :: kms_key where
  "organiser_key = \<lparr>publicKey = replicate 33 CHR ''k'', signDigest = (\<lambda>d. Some (replicate 33 CHR ''k'' @ d, True))\<rparr>"

definition tiny_accounts :: libraries where
  "tiny_accounts = tiny_libraries\<lparr>l_account := (\<lambda>k. Some (replicate 64 CHR ''a''))\<rparr>"

definition tiny_registration :: registration_profile where
  "tiny_registration = \<lparr>rp_digest = (\<lambda>k. k), rp_encode = (\<lambda>k g. k @ g), rp_account = (\<lambda>g. Some (replicate 64 CHR ''a'')),
     rp_tag = ''tag'', rp_command = (\<lambda>_. None)\<rparr>"

definition unprovisioned :: authority_state where
  "unprovisioned = \<lparr>ledger_accounts = [], known_organisers = [''org''], kms_keys = []\<rparr>"

definition provisioned :: "(failure + ident) \<times> authority_state \<times> store \<times> (string \<times> submission) option" where
  "provisioned = provision_sent tiny_accounts tiny_registration ''org'' walk_request (Some (''ref'', organiser_key))
     (Written ''op'' (Settled \<lparr>operationId = ''op'', cursor = ''c''\<rparr>)) 5 (unprovisioned, walk0)"

lemma organisers_keep_their_account_witness:
  "ledgerAccountOf ''org'' (fst (snd provisioned)) = Some (replicate 64 CHR ''a'') \<and>
   (\<exists>row g. snd (snd (snd provisioned)) = Some (g, Settled \<lparr>operationId = ''op'', cursor = ''c''\<rparr>) \<and>
      read_account ''org'' (fst (snd provisioned)) = Some row \<and> la_registration row = Some g)"
proof -
  have answer: "fst provisioned = Inr (replicate 64 CHR ''a'')" by code_simp
  have sent: "map_option snd (snd (snd (snd provisioned))) = Some (Settled \<lparr>operationId = ''op'', cursor = ''c''\<rparr>)" by code_simp
  from answer have run: "provision_sent tiny_accounts tiny_registration ''org'' walk_request (Some (''ref'', organiser_key))
     (Written ''op'' (Settled \<lparr>operationId = ''op'', cursor = ''c''\<rparr>)) 5 (unprovisioned, walk0) =
     (Inr (replicate 64 CHR ''a''), fst (snd provisioned), fst (snd (snd provisioned)), snd (snd (snd provisioned)))"
    unfolding provisioned_def[symmetric] by (simp add: prod_eq_iff)
  obtain g where g: "snd (snd (snd provisioned)) = Some (g, Settled \<lparr>operationId = ''op'', cursor = ''c''\<rparr>)"
    using sent by auto
  have start: "ledger_accounts unprovisioned = []"
    "case Some (''ref'', organiser_key) of None \<Rightarrow> True | Some (r, _) \<Rightarrow> r \<notin> fst ` set (kms_keys unprovisioned)"
    by (simp_all add: unprovisioned_def)
  note kept = organisers_keep_their_account[OF authority_refl start(1) run start(2) authority_refl]
  from kept[unfolded g] g show ?thesis by simp blast
qed

end
