(* ===== verification/Configuration.thy ===== *)
theory Configuration
  imports PaymentsConfig Metadata
begin

text \<open>
  What the processes read from the environment: the API's configuration (\<open>src/config.ts\<close>), the
  sponsor relay's (\<open>src/sponsor/config.ts\<close>), the metadata service's
  (\<open>src/metadata/config.ts\<close>) and the capacity proofs' bucket (\<open>src/proofs/artefacts.ts\<close>).  An
  environment is the list of its variables, each named once; the platform's URL parser and its
  reading of numbers are parameters.
\<close>

section \<open>The environment\<close>

type_synonym settings = "(string \<times> string) list"

record host_url = parsed_url +
  url_hostname :: string

text \<open>\<open>pl_number\<close> is the integer a text reads as, if it reads as one.\<close>

record platform =
  pl_url :: "string \<Rightarrow> host_url option"
  pl_number :: "string \<Rightarrow> int option"

datatype config_refusal =
    ForeignStore "string list" | NotSet string | NotUrl string | WrongProtocol string
  | NotRpId string | NotOrigin string | NotHttps string | NotServedFromRpId string
  | NotPort string | NotEnvironment string | SameRpIds | StagingIncomplete | ServiceOutsideStaging
  | ApiStoreGiven | NoSponsorKms | NotSecretKey | NotPositive string | CredentialsApart
  | NotPathStyle | PublicProofBucket

definition env_value :: "settings \<Rightarrow> string \<Rightarrow> string option" where
  "env_value env k = set_variable (map_of env) k"

definition required :: "settings \<Rightarrow> string \<Rightarrow> config_refusal + string" where
  "required env k = (case env_value env k of None \<Rightarrow> Inl (NotSet k) | Some v \<Rightarrow> Inr v)"

text \<open>libpq's variables, and what looks like a route to the ledger service's database.\<close>

definition upper :: "char \<Rightarrow> bool" where
  "upper c \<longleftrightarrow> c \<in> set ''ABCDEFGHIJKLMNOPQRSTUVWXYZ''"

definition digit :: "char \<Rightarrow> bool" where
  "digit c \<longleftrightarrow> c \<in> set ''0123456789''"

definition libpq_variable :: "string \<Rightarrow> bool" where
  "libpq_variable k \<longleftrightarrow> take 2 k = ''PG'' \<and> length k > 2 \<and> list_all upper (drop 2 k)"

definition store_word :: "string \<Rightarrow> bool" where
  "store_word r \<longleftrightarrow> list_all (\<lambda>c. upper c \<or> digit c \<or> c = CHR ''_'') r \<and>
     list_ex (\<lambda>t. list_ex (\<lambda>w. prefix (CHR ''_'' # w) t) [''DATABASE'', ''DB'', ''PG'', ''POSTGRES'']) (suffixes r)"

definition ledger_store_variable :: "string \<Rightarrow> bool" where
  "ledger_store_variable k \<longleftrightarrow> list_ex (\<lambda>p. prefix p k \<and> store_word (drop (length p) k)) [''LEDGER'', ''TICKETTO'']"

definition foreign_variable :: "string \<Rightarrow> bool" where
  "foreign_variable k \<longleftrightarrow> libpq_variable k \<or> ledger_store_variable k"

definition assertNoForeignStoreCredentials :: "settings \<Rightarrow> config_refusal + unit" where
  "assertNoForeignStoreCredentials env = (let refused = sort (filter foreign_variable (map fst env)) in
     guard (refused = []) (ForeignStore refused))"

section \<open>Readers\<close>

definition readPort :: "platform \<Rightarrow> string \<Rightarrow> int \<Rightarrow> settings \<Rightarrow> config_refusal + int" where
  "readPort P k usual env = (case env_value env k of None \<Rightarrow> Inr usual
     | Some v \<Rightarrow> (case pl_number P v of None \<Rightarrow> Inl (NotPort k)
         | Some port \<Rightarrow> if port < 0 \<or> port > 65535 then Inl (NotPort k) else Inr port))"

definition readDatabaseUrl :: "platform \<Rightarrow> string \<Rightarrow> settings \<Rightarrow> config_refusal + string" where
  "readDatabaseUrl P k env = and_then (required env k) (\<lambda>v.
     case pl_url P v of None \<Rightarrow> Inl (NotUrl k)
     | Some u \<Rightarrow> if url_protocol u \<noteq> ''postgres:'' \<and> url_protocol u \<noteq> ''postgresql:''
                then Inl (WrongProtocol k) else Inr v)"

definition host_char :: "char \<Rightarrow> bool" where
  "host_char c \<longleftrightarrow> c \<in> set ''abcdefghijklmnopqrstuvwxyz'' \<or> digit c"

definition host_label :: "string \<Rightarrow> bool" where
  "host_label l \<longleftrightarrow> l \<noteq> [] \<and> length l \<le> 63 \<and> host_char (hd l) \<and> host_char (last l) \<and>
     list_all (\<lambda>c. host_char c \<or> c = CHR ''-'') l"

definition is_rp_id :: "string \<Rightarrow> bool" where
  "is_rp_id v \<longleftrightarrow> 1 \<le> length v \<and> length v \<le> 253 \<and> list_all host_label (split_at CHR ''.'' v)"

definition readRpId :: "string \<Rightarrow> settings \<Rightarrow> config_refusal + string" where
  "readRpId k env = and_then (required env k) (\<lambda>v. if is_rp_id v then Inr v else Inl (NotRpId k))"

text \<open>An origin of the login ceremony, from the RP id or under it.\<close>

definition served_by :: "string \<Rightarrow> string \<Rightarrow> bool" where
  "served_by rp host \<longleftrightarrow> host = rp \<or> suffix (CHR ''.'' # rp) host"

definition readOrigin :: "platform \<Rightarrow> string \<Rightarrow> string \<Rightarrow> config_refusal + string" where
  "readOrigin P rp entry = (let e = trim entry in case pl_url P e of None \<Rightarrow> Inl (NotOrigin entry)
     | Some u \<Rightarrow>
         if url_origin u \<noteq> e then Inl (NotOrigin entry)
         else if url_protocol u \<noteq> ''https:'' \<and> \<not> (url_hostname u = ''localhost'' \<and> url_protocol u = ''http:'')
         then Inl (NotHttps entry)
         else if \<not> served_by rp (url_hostname u) then Inl (NotServedFromRpId entry)
         else Inr (url_origin u))"

primrec read_each :: "('a \<Rightarrow> 'e + 'b) \<Rightarrow> 'a list \<Rightarrow> 'e + 'b list" where
  "read_each f [] = Inr []"
| "read_each f (x # xs) = and_then (f x) (\<lambda>y. and_then (read_each f xs) (\<lambda>ys. Inr (y # ys)))"

definition readOrigins :: "platform \<Rightarrow> string \<Rightarrow> string \<Rightarrow> settings \<Rightarrow> config_refusal + string list" where
  "readOrigins P k rp env = (case map_of env k of None \<Rightarrow> Inl (NotSet k)
     | Some v \<Rightarrow> if trim v = [] then Inl (NotSet k) else read_each (readOrigin P rp) (split_at CHR '','' v))"

definition readLedgerEnvironment :: "string \<Rightarrow> settings \<Rightarrow> config_refusal + ledger_environment" where
  "readLedgerEnvironment k env =
     (case map_of [(''development'', Development), (''test'', TestEnvironment), (''staging'', Staging),
        (''production'', Production)] (case map_of env k of None \<Rightarrow> [] | Some v \<Rightarrow> v) of
        None \<Rightarrow> Inl (NotEnvironment k) | Some e \<Rightarrow> Inr e)"

definition readHttpUrl :: "platform \<Rightarrow> string \<Rightarrow> settings \<Rightarrow> config_refusal + string option" where
  "readHttpUrl P k env = (case env_value env k of None \<Rightarrow> Inr None
     | Some v \<Rightarrow> (case pl_url P v of None \<Rightarrow> Inl (NotUrl k)
         | Some u \<Rightarrow> if url_protocol u \<noteq> ''https:'' \<and> url_protocol u \<noteq> ''http:'' then Inl (WrongProtocol k)
                    else Inr (Some v)))"

definition readPositiveInteger :: "platform \<Rightarrow> string \<Rightarrow> settings \<Rightarrow> config_refusal + int" where
  "readPositiveInteger P k env = and_then (required env k) (\<lambda>v.
     case pl_number P v of None \<Rightarrow> Inl (NotPositive k)
     | Some n \<Rightarrow> if n > 2 ^ 53 - 1 \<or> n < 1 then Inl (NotPositive k) else Inr n)"

section \<open>The API\<close>

record api_config =
  cf_host :: string
  cf_port :: int
  cf_database :: string
  cf_login :: string
  cf_origins :: "string list"
  cf_holder :: string
  cf_environment :: ledger_environment
  cf_sponsor :: "string option"
  cf_service :: "string option"

definition readLedgerWiring ::
  "platform \<Rightarrow> ledger_environment \<Rightarrow> settings \<Rightarrow> config_refusal + string option \<times> string option" where
  "readLedgerWiring P le env =
     and_then (readHttpUrl P ''KIPPU_SPONSOR_URL'' env) (\<lambda>sponsor.
     and_then (readHttpUrl P ''KIPPU_LEDGER_SERVICE_URL'' env) (\<lambda>service.
     if le = Staging then
       (if service = None \<or> sponsor = None then Inl StagingIncomplete else Inr (sponsor, service))
     else if service \<noteq> None then Inl ServiceOutsideStaging
     else Inr (sponsor, service)))"

text \<open>The store's URL alone, for the migration runner.\<close>

definition loadStoreConfig :: "platform \<Rightarrow> settings \<Rightarrow> config_refusal + string" where
  "loadStoreConfig P env = and_then (assertNoForeignStoreCredentials env) (\<lambda>_.
     readDatabaseUrl P ''KIPPU_DATABASE_URL'' env)"

definition host_or :: "string \<Rightarrow> string \<Rightarrow> settings \<Rightarrow> string" where
  "host_or k usual env = (case env_value env k of None \<Rightarrow> usual | Some v \<Rightarrow> v)"

definition loadConfig :: "platform \<Rightarrow> settings \<Rightarrow> config_refusal + api_config" where
  "loadConfig P env =
     and_then (assertNoForeignStoreCredentials env) (\<lambda>_.
     and_then (readRpId ''KIPPU_LOGIN_RP_ID'' env) (\<lambda>login.
     and_then (readRpId ''KIPPU_HOLDER_RP_ID'' env) (\<lambda>holder.
     and_then (readLedgerEnvironment ''KIPPU_LEDGER_ENVIRONMENT'' env) (\<lambda>le.
     and_then (guard (login \<noteq> holder) SameRpIds) (\<lambda>_.
     and_then (readPort P ''PORT'' 8080 env) (\<lambda>port.
     and_then (readDatabaseUrl P ''KIPPU_DATABASE_URL'' env) (\<lambda>database.
     and_then (readOrigins P ''KIPPU_LOGIN_ORIGINS'' login env) (\<lambda>origins.
     and_then (readLedgerWiring P le env) (\<lambda>(sponsor, service).
     Inr \<lparr>cf_host = host_or ''HOST'' ''0.0.0.0'' env, cf_port = port, cf_database = database,
          cf_login = login, cf_origins = origins, cf_holder = holder, cf_environment = le,
          cf_sponsor = sponsor, cf_service = service\<rparr>)))))))))"

section \<open>The sponsor relay\<close>

datatype relay_environment = RelayDevelopment | RelayTest | RelayProduction

record relay_config =
  rc_environment :: relay_environment
  rc_host :: string
  rc_port :: int
  rc_database :: string
  rc_secret :: string
  rc_registrations :: int
  rc_window :: int
  rc_lag_wait :: int
  rc_holder :: string

definition readRelayEnvironment :: "string \<Rightarrow> settings \<Rightarrow> config_refusal + relay_environment" where
  "readRelayEnvironment k env = and_then (required env k) (\<lambda>v.
     case map_of [(''development'', RelayDevelopment), (''test'', RelayTest), (''production'', RelayProduction)] v of
       None \<Rightarrow> Inl (NotEnvironment k) | Some e \<Rightarrow> Inr e)"

definition readSoftwareSecretKey :: "relay_environment \<Rightarrow> string \<Rightarrow> settings \<Rightarrow> config_refusal + string" where
  "readSoftwareSecretKey e k env =
     (if e = RelayProduction then Inl NoSponsorKms
      else case env_value env k of None \<Rightarrow> Inl NotSecretKey
        | Some v \<Rightarrow> if account_hex v then Inr (of_hex v) else Inl NotSecretKey)"

definition readHolderRpId :: "string \<Rightarrow> settings \<Rightarrow> config_refusal + string" where
  "readHolderRpId k env = (case env_value env k of None \<Rightarrow> Inl (NotRpId k)
     | Some v \<Rightarrow> if is_rp_id v then Inr v else Inl (NotRpId k))"

definition loadSponsorRelayConfig :: "platform \<Rightarrow> settings \<Rightarrow> config_refusal + relay_config" where
  "loadSponsorRelayConfig P env =
     and_then (assertNoForeignStoreCredentials env) (\<lambda>_.
     and_then (guard (env_value env ''KIPPU_DATABASE_URL'' = None) ApiStoreGiven) (\<lambda>_.
     and_then (readRelayEnvironment ''KIPPU_SPONSOR_ENVIRONMENT'' env) (\<lambda>e.
     and_then (readPort P ''KIPPU_SPONSOR_PORT'' 8082 env) (\<lambda>port.
     and_then (readDatabaseUrl P ''KIPPU_SPONSOR_DERIVED_DATABASE_URL'' env) (\<lambda>database.
     and_then (readSoftwareSecretKey e ''KIPPU_SPONSOR_SOFTWARE_SECRET_KEY'' env) (\<lambda>secret.
     and_then (readPositiveInteger P ''KIPPU_SPONSOR_REGISTRATIONS_PER_WINDOW'' env) (\<lambda>registrations.
     and_then (readPositiveInteger P ''KIPPU_SPONSOR_REGISTRATION_WINDOW_SECONDS'' env) (\<lambda>seconds.
     and_then (readPositiveInteger P ''KIPPU_SPONSOR_LAG_WAIT_MS'' env) (\<lambda>wait.
     and_then (readHolderRpId ''KIPPU_SPONSOR_HOLDER_RP_ID'' env) (\<lambda>holder.
     Inr \<lparr>rc_environment = e, rc_host = host_or ''KIPPU_SPONSOR_HOST'' ''0.0.0.0'' env, rc_port = port,
          rc_database = database, rc_secret = secret, rc_registrations = registrations,
          rc_window = seconds * 1000, rc_lag_wait = wait, rc_holder = holder\<rparr>))))))))))"

section \<open>Metadata and capacity proofs\<close>

record object_storage_config =
  oc_bucket :: string
  oc_region :: string
  oc_endpoint :: "string option"
  oc_path_style :: bool
  oc_credentials :: "(string \<times> string) option"

record metadata_config =
  mc_url :: string
  mc_storage :: object_storage_config

definition readMetadataUrl :: "platform \<Rightarrow> string \<Rightarrow> settings \<Rightarrow> config_refusal + string" where
  "readMetadataUrl P k env = (case env_value env k of None \<Rightarrow> Inr ''https://meta.kippu.rocks''
     | Some v \<Rightarrow> (case pl_url P v of None \<Rightarrow> Inl (NotUrl k)
         | Some u \<Rightarrow> if url_origin u \<noteq> v then Inl (NotOrigin k)
                    else if url_protocol u \<noteq> ''https:'' then Inl (NotHttps k) else Inr (url_origin u)))"

definition readStorage :: "platform \<Rightarrow> settings \<Rightarrow> config_refusal + object_storage_config" where
  "readStorage P env =
     and_then (required env ''KIPPU_METADATA_S3_BUCKET'') (\<lambda>bucket.
     let endpoint = env_value env ''KIPPU_METADATA_S3_ENDPOINT'';
         key = env_value env ''KIPPU_METADATA_S3_ACCESS_KEY_ID'';
         secret = env_value env ''KIPPU_METADATA_S3_SECRET_ACCESS_KEY'';
         style = env_value env ''KIPPU_METADATA_S3_FORCE_PATH_STYLE'' in
     and_then (guard (endpoint = None \<or> pl_url P (the endpoint) \<noteq> None) (NotUrl ''KIPPU_METADATA_S3_ENDPOINT'')) (\<lambda>_.
     and_then (guard ((key = None) = (secret = None)) CredentialsApart) (\<lambda>_.
     and_then (guard (style \<in> {None, Some ''true'', Some ''false''}) NotPathStyle) (\<lambda>_.
     Inr \<lparr>oc_bucket = bucket, oc_region = host_or ''KIPPU_METADATA_S3_REGION'' ''us-east-1'' env,
          oc_endpoint = endpoint, oc_path_style = (style = Some ''true''),
          oc_credentials = (case (key, secret) of (Some a, Some b) \<Rightarrow> Some (a, b) | _ \<Rightarrow> None)\<rparr>))))"

definition loadMetadataPublicUrl :: "platform \<Rightarrow> settings \<Rightarrow> config_refusal + string" where
  "loadMetadataPublicUrl P env = readMetadataUrl P ''KIPPU_METADATA_PUBLIC_URL'' env"

definition loadMetadataConfig :: "platform \<Rightarrow> settings \<Rightarrow> config_refusal + metadata_config" where
  "loadMetadataConfig P env = and_then (loadMetadataPublicUrl P env) (\<lambda>u.
     and_then (readStorage P env) (\<lambda>st. Inr \<lparr>mc_url = u, mc_storage = st\<rparr>))"

text \<open>The edge's configuration: the metadata's, its host and its port.\<close>

definition loadMetadataEdgeConfig ::
  "platform \<Rightarrow> settings \<Rightarrow> config_refusal + metadata_config \<times> string \<times> int" where
  "loadMetadataEdgeConfig P env = and_then (loadMetadataConfig P env) (\<lambda>m.
     and_then (readPort P ''KIPPU_METADATA_EDGE_PORT'' 8081 env) (\<lambda>port.
     Inr (m, host_or ''KIPPU_METADATA_EDGE_HOST'' ''0.0.0.0'' env, port)))"

definition loadProofStorageConfig :: "platform \<Rightarrow> settings \<Rightarrow> config_refusal + object_storage_config" where
  "loadProofStorageConfig P env = and_then (required env ''KIPPU_PROOFS_S3_BUCKET'') (\<lambda>bucket.
     and_then (loadMetadataConfig P env) (\<lambda>m.
     and_then (guard (bucket \<noteq> oc_bucket (mc_storage m)) PublicProofBucket) (\<lambda>_.
     Inr ((mc_storage m)\<lparr>oc_bucket := bucket\<rparr>))))"

end
