(* ===== verification/ConfigurationProperties.thy ===== *)
theory ConfigurationProperties
  imports Configuration
begin

text \<open>What a loaded configuration is, and what keeps the processes apart.\<close>

section \<open>Readers\<close>

lemma env_value_Some: "env_value env k = Some v \<longleftrightarrow> map_of env k = Some v \<and> v \<noteq> []"
  by (simp add: env_value_def set_variable_Some)

lemma required_Inr: "required env k = Inr v \<longleftrightarrow> env_value env k = Some v"
  by (simp add: required_def split: option.split)

lemma assertNoForeign_Inr:
  "assertNoForeignStoreCredentials env = Inr u \<longleftrightarrow> (\<forall>(k, _) \<in> set env. \<not> foreign_variable k)"
proof -
  have "sort ks = [] \<longleftrightarrow> ks = []" for ks :: "string list" by (metis length_0_conv length_sort)
  then show ?thesis
    by (auto simp: assertNoForeignStoreCredentials_def Let_def guard_Inr_iff filter_empty_conv)
qed

lemma readRpId_Inr: "readRpId k env = Inr v \<longleftrightarrow> env_value env k = Some v \<and> is_rp_id v"
  by (auto simp: readRpId_def and_then_Inr_iff required_Inr split: if_splits)

lemma readPort_Inr: "readPort P k d env = Inr p \<Longrightarrow> 0 \<le> d \<Longrightarrow> d \<le> 65535 \<Longrightarrow> 0 \<le> p \<and> p \<le> 65535"
  by (auto simp: readPort_def split: option.splits if_splits)

lemma readDatabaseUrl_Inr:
  "readDatabaseUrl P k env = Inr v \<longleftrightarrow> env_value env k = Some v \<and>
     (\<exists>u. pl_url P v = Some u \<and> (url_protocol u = ''postgres:'' \<or> url_protocol u = ''postgresql:''))"
  by (auto simp: readDatabaseUrl_def and_then_Inr_iff required_Inr split: option.splits if_splits)

lemma readOrigin_Inr:
  "readOrigin P rp entry = Inr x \<Longrightarrow> \<exists>u. pl_url P x = Some u \<and> url_origin u = x \<and> served_by rp (url_hostname u) \<and>
     (url_protocol u = ''https:'' \<or> url_hostname u = ''localhost'' \<and> url_protocol u = ''http:'')"
  by (auto simp: readOrigin_def Let_def split: option.splits if_splits)

lemma read_each_Inr: "read_each f xs = Inr ys \<longleftrightarrow> list_all2 (\<lambda>x y. f x = Inr y) xs ys"
  by (induction xs arbitrary: ys) (auto simp: and_then_Inr_iff list_all2_Cons1)

lemma read_each_in:
  assumes "read_each f xs = Inr ys" "y \<in> set ys"
  shows "\<exists>x \<in> set xs. f x = Inr y"
  using assms unfolding read_each_Inr by (induction xs ys rule: list_all2_induct) auto

lemma split_at_not_Nil: "split_at c s \<noteq> []"
  by (induction s) (auto split: list.splits)

lemma readOrigins_Inr:
  assumes "readOrigins P k rp env = Inr xs"
  shows "xs \<noteq> [] \<and> (\<forall>x \<in> set xs. \<exists>u. pl_url P x = Some u \<and> url_origin u = x \<and>
    served_by rp (url_hostname u) \<and>
    (url_protocol u = ''https:'' \<or> url_hostname u = ''localhost'' \<and> url_protocol u = ''http:''))"
proof -
  from assms obtain v where v: "read_each (readOrigin P rp) (split_at CHR '','' v) = Inr xs"
    by (auto simp: readOrigins_def split: option.splits if_splits)
  then have "length xs = length (split_at CHR '','' v)" by (simp add: read_each_Inr list_all2_lengthD)
  then have "xs \<noteq> []" using split_at_not_Nil by (metis length_0_conv)
  moreover have "\<exists>u. pl_url P x = Some u \<and> url_origin u = x \<and> served_by rp (url_hostname u) \<and>
    (url_protocol u = ''https:'' \<or> url_hostname u = ''localhost'' \<and> url_protocol u = ''http:'')"
    if "x \<in> set xs" for x
    using read_each_in[OF v that] readOrigin_Inr by blast
  ultimately show ?thesis by blast
qed

lemma readLedgerWiring_Inr:
  "readLedgerWiring P le env = Inr (sponsor, service) \<Longrightarrow>
     (service \<noteq> None \<longleftrightarrow> le = Staging) \<and> (le = Staging \<longrightarrow> sponsor \<noteq> None)"
  by (auto simp: readLedgerWiring_def and_then_Inr_iff split: if_splits)

lemma loadConfig_Inr:
  assumes "loadConfig P env = Inr c"
  shows "assertNoForeignStoreCredentials env = Inr () \<and> readRpId ''KIPPU_LOGIN_RP_ID'' env = Inr (cf_login c) \<and>
    readRpId ''KIPPU_HOLDER_RP_ID'' env = Inr (cf_holder c) \<and> cf_login c \<noteq> cf_holder c \<and>
    readPort P ''PORT'' 8080 env = Inr (cf_port c) \<and>
    readDatabaseUrl P ''KIPPU_DATABASE_URL'' env = Inr (cf_database c) \<and>
    readOrigins P ''KIPPU_LOGIN_ORIGINS'' (cf_login c) env = Inr (cf_origins c) \<and>
    readLedgerWiring P (cf_environment c) env = Inr (cf_sponsor c, cf_service c)"
  using assms by (auto simp: loadConfig_def and_then_Inr_iff guard_Inr_iff)

section \<open>The other processes\<close>

lemma loadSponsorRelayConfig_Inr:
  assumes "loadSponsorRelayConfig P env = Inr r"
  shows "env_value env ''KIPPU_DATABASE_URL'' = None \<and> rc_environment r \<noteq> RelayProduction \<and>
    length (rc_secret r) = 32 \<and> rc_registrations r \<ge> 1 \<and> rc_window r \<ge> 1000 \<and> rc_lag_wait r \<ge> 1 \<and>
    is_rp_id (rc_holder r)"
proof -
  have secret: "e \<noteq> RelayProduction \<and> length v = 32" if "readSoftwareSecretKey e k env = Inr v" for e k v
  proof -
    have "length (of_hex h) = length h div 2" for h by (induction h rule: of_hex.induct) auto
    with that show ?thesis by (auto simp: readSoftwareSecretKey_def account_hex_def split: if_splits option.splits)
  qed
  have number: "n \<ge> 1" if "readPositiveInteger P k env = Inr n" for k n
    using that by (auto simp: readPositiveInteger_def and_then_Inr_iff split: option.splits if_splits)
  have holder: "is_rp_id v" if "readHolderRpId k env = Inr v" for k v
    using that by (auto simp: readHolderRpId_def split: option.splits if_splits)
  from assms obtain e secret n s w h where
    "guard (env_value env ''KIPPU_DATABASE_URL'' = None) ApiStoreGiven = Inr ()"
    "readSoftwareSecretKey e ''KIPPU_SPONSOR_SOFTWARE_SECRET_KEY'' env = Inr secret"
    "readPositiveInteger P ''KIPPU_SPONSOR_REGISTRATIONS_PER_WINDOW'' env = Inr n"
    "readPositiveInteger P ''KIPPU_SPONSOR_REGISTRATION_WINDOW_SECONDS'' env = Inr s"
    "readPositiveInteger P ''KIPPU_SPONSOR_LAG_WAIT_MS'' env = Inr w"
    "readHolderRpId ''KIPPU_SPONSOR_HOLDER_RP_ID'' env = Inr h"
    "rc_environment r = e" "rc_secret r = secret" "rc_registrations r = n" "rc_window r = s * 1000"
    "rc_lag_wait r = w" "rc_holder r = h"
    by (auto simp: loadSponsorRelayConfig_def and_then_Inr_iff)
  with secret[OF this(2)] number[OF this(3)] number[OF this(4)] number[OF this(5)] holder[OF this(6)]
  show ?thesis by (simp add: guard_Inr_iff)
qed

lemma proof_bucket_is_apart:
  assumes "loadProofStorageConfig P env = Inr b" "loadMetadataEdgeConfig P env = Inr (m, host, port)"
  shows "oc_bucket b \<noteq> oc_bucket (mc_storage m)"
  using assms by (auto simp: loadProofStorageConfig_def loadMetadataEdgeConfig_def and_then_Inr_iff guard_Inr_iff)

section \<open>Property\<close>

text \<open>
  A loaded configuration is well-formed: its RP ids are host names and differ, its port is a
  port, its store a PostgreSQL URL, each login origin is its own origin, served from the login
  RP id over HTTPS unless it is localhost; the ledger service is set exactly in staging, and
  then the sponsor relay too; and no variable of the environment is another store's or libpq's,
  nor does the sponsor relay start in it.
\<close>

lemma loaded_configuration_is_well_formed:
  assumes "loadConfig P env = Inr c"
  shows "is_rp_id (cf_login c) \<and> is_rp_id (cf_holder c) \<and> cf_login c \<noteq> cf_holder c \<and>
    0 \<le> cf_port c \<and> cf_port c \<le> 65535 \<and>
    (\<exists>u. pl_url P (cf_database c) = Some u \<and> url_protocol u \<in> {''postgres:'', ''postgresql:''}) \<and>
    cf_origins c \<noteq> [] \<and>
    (\<forall>x \<in> set (cf_origins c). \<exists>u. pl_url P x = Some u \<and> url_origin u = x \<and>
       served_by (cf_login c) (url_hostname u) \<and>
       (url_protocol u = ''https:'' \<or> url_hostname u = ''localhost'' \<and> url_protocol u = ''http:'')) \<and>
    (cf_service c \<noteq> None \<longleftrightarrow> cf_environment c = Staging) \<and>
    (cf_environment c = Staging \<longrightarrow> cf_sponsor c \<noteq> None) \<and>
    (\<forall>(k, _) \<in> set env. \<not> libpq_variable k \<and> \<not> ledger_store_variable k) \<and>
    (\<forall>r. loadSponsorRelayConfig P env \<noteq> Inr r)"
proof -
  note c = loadConfig_Inr[OF assms]
  have "env_value env ''KIPPU_DATABASE_URL'' \<noteq> None" using c by (auto simp: readDatabaseUrl_Inr)
  then have "loadSponsorRelayConfig P env \<noteq> Inr r" for r
    by (metis loadSponsorRelayConfig_Inr)
  moreover have "0 \<le> cf_port c \<and> cf_port c \<le> 65535" 
    using c readPort_Inr[of P "''PORT''" 8080 env "cf_port c"] by simp
  moreover note readOrigins_Inr[of P _ "cf_login c" env "cf_origins c"]
    readLedgerWiring_Inr[of P "cf_environment c" env "cf_sponsor c" "cf_service c"]
  ultimately show ?thesis
    using c by (auto simp: readRpId_Inr readDatabaseUrl_Inr assertNoForeign_Inr foreign_variable_def)
qed

definition staging_settings :: settings where
  "staging_settings = [(''KIPPU_LOGIN_RP_ID'', ''kippu.rocks''), (''KIPPU_HOLDER_RP_ID'', ''saifu.rocks''),
     (''KIPPU_LEDGER_ENVIRONMENT'', ''staging''), (''KIPPU_DATABASE_URL'', ''postgres://db''),
     (''KIPPU_LOGIN_ORIGINS'', ''https://a.kippu.rocks, https://kippu.rocks''),
     (''KIPPU_SPONSOR_URL'', ''https://s''), (''KIPPU_LEDGER_SERVICE_URL'', ''https://l'')]"

definition staging_platform :: platform where
  "staging_platform = \<lparr>pl_url = map_of (map (\<lambda>(u, p, h). (u, \<lparr>url_protocol = p, url_origin = u, url_hostname = h\<rparr>))
       [(''postgres://db'', ''postgres:'', ''db''), (''https://a.kippu.rocks'', ''https:'', ''a.kippu.rocks''),
        (''https://kippu.rocks'', ''https:'', ''kippu.rocks''), (''https://s'', ''https:'', ''s''),
        (''https://l'', ''https:'', ''l'')]), pl_number = (\<lambda>_. None)\<rparr>"

lemma loaded_configuration_is_well_formed_witness:
  "\<exists>c. loadConfig staging_platform staging_settings = Inr c \<and>
     cf_origins c = [''https://a.kippu.rocks'', ''https://kippu.rocks''] \<and> cf_login c \<noteq> cf_holder c \<and>
     cf_service c \<noteq> None"
proof -
  have "\<not> isl (loadConfig staging_platform staging_settings)"
    "cf_origins (projr (loadConfig staging_platform staging_settings)) = [''https://a.kippu.rocks'', ''https://kippu.rocks'']"
    "cf_environment (projr (loadConfig staging_platform staging_settings)) = Staging"
    by code_simp+
  then obtain c where c: "loadConfig staging_platform staging_settings = Inr c"
    "cf_origins c = [''https://a.kippu.rocks'', ''https://kippu.rocks'']" "cf_environment c = Staging"
    by (metis isl_def sum.collapse(2) sum.exhaust_sel)
  from loaded_configuration_is_well_formed[OF c(1)] c show ?thesis by blast
qed

end
