(* ===== verification/LedgerBoundary.thy ===== *)
theory LedgerBoundary
  imports PersonalData PaymentsConfig
begin

text \<open>
  The boundary to the ledger (\<open>src/ledger/allow-list.ts\<close>, \<open>src/ledger/ticketto.ts\<close>,
  \<open>src/ledger/receipts.ts\<close>): the fields a command may carry, checked at every depth before the
  SDK is called, and the cursor of the latest write settled.  The SDK itself is a parameter.
\<close>

section \<open>Values\<close>

text \<open>
  A value as it arrives: a number is an integer or is none (a fraction, an infinity, NaN), bytes
  are a view of a buffer, an object is the list of its own entries.
\<close>

datatype js_number = Whole int | NotWhole

datatype js_value = JsUndefined | JsNull | JsBool bool | JsNumber js_number | JsString string
  | JsBytes string | JsArray "js_value list" | JsObject "(string \<times> js_value) list"

text \<open>What a field may hold: a value with no fields of its own, a list, or an object.\<close>

datatype field_spec = Leaf | ListOf field_spec | Fields "(string \<times> field_spec) list"

lemma item_size: "x \<in> set xs \<Longrightarrow> size (x :: js_value) < Suc (size_list size xs)"
  by (induction xs) auto

lemma entry_size: "(f, x) \<in> set fs \<Longrightarrow> size (x :: js_value) < Suc (size_list (size_prod (\<lambda>_. 0) size) fs)"
  by (induction fs) auto

definition is_container :: "js_value \<Rightarrow> bool" where
  "is_container v = (case v of JsArray _ \<Rightarrow> True | JsObject _ \<Rightarrow> True | _ \<Rightarrow> False)"

text \<open>The path of the field refused, or nothing.\<close>

function assertAllowed :: "js_value \<Rightarrow> field_spec \<Rightarrow> string \<Rightarrow> string + unit"
  and assert_items :: "js_value list \<Rightarrow> field_spec \<Rightarrow> string \<Rightarrow> nat \<Rightarrow> string + unit"
  and assert_entries :: "(string \<times> js_value) list \<Rightarrow> (string \<times> field_spec) list \<Rightarrow> string \<Rightarrow> string + unit" where
  "assertAllowed v Leaf path = guard (\<not> is_container v) path"
| "assertAllowed v (ListOf spec) path = (case v of JsArray xs \<Rightarrow> assert_items xs spec path 0 | _ \<Rightarrow> Inl path)"
| "assertAllowed v (Fields table) path = (case v of JsObject fs \<Rightarrow> assert_entries fs table path | _ \<Rightarrow> Inl path)"
| "assert_items [] spec path i = Inr ()"
| "assert_items (x # xs) spec path i =
     and_then (assertAllowed x spec (path @ ''['' @ decimal i @ '']'')) (\<lambda>_. assert_items xs spec path (Suc i))"
| "assert_entries [] table path = Inr ()"
| "assert_entries ((f, x) # fs) table path = (case map_of table f of None \<Rightarrow> Inl (path @ ''.'' @ f)
     | Some spec \<Rightarrow> and_then (assertAllowed x spec (path @ ''.'' @ f)) (\<lambda>_. assert_entries fs table path))"
  by pat_completeness auto
termination
  by (relation "measure (case_sum (\<lambda>(v, _). 2 * size v) (case_sum (\<lambda>(xs, _). 2 * size_list size xs + 1)
      (\<lambda>(fs, _). 2 * size_list (size_prod (\<lambda>_. 0) size) fs + 1)))") auto

section \<open>The lists\<close>

definition zone_fields :: field_spec where
  "zone_fields = Fields [(''id'', Leaf), (''kind'', Leaf)]"

definition placement_fields :: field_spec where
  "placement_fields = Fields [(''kind'', Leaf), (''position'', Leaf), (''discriminator'', Leaf)]"

definition policy_fields :: field_spec where
  "policy_fields = Fields [(''kind'', Leaf), (''max'', Leaf), (''until'', Leaf)]"

definition restriction_fields :: field_spec where
  "restriction_fields = Fields [(''cannotResale'', Leaf), (''cannotTransfer'', Leaf)]"

definition COMMAND_INPUT_ALLOW_LIST :: "(string \<times> field_spec) list" where
  "COMMAND_INPUT_ALLOW_LIST = [
    (''createEvent'', Fields [(''salt'', Leaf), (''zones'', ListOf zone_fields), (''capacity'', Leaf), (''metadata'', Leaf)]),
    (''setEventStatus'', Fields [(''event'', Leaf), (''status'', Leaf)]),
    (''setEventCapacity'', Fields [(''event'', Leaf), (''capacity'', Leaf), (''proof'', Leaf)]),
    (''addZone'', Fields [(''event'', Leaf), (''zone'', zone_fields)]),
    (''removeZone'', Fields [(''event'', Leaf), (''zone'', Leaf)]),
    (''issueTicket'', Fields [(''event'', Leaf), (''zone'', Leaf), (''placement'', placement_fields), (''class'', Leaf),
       (''provenance'', Leaf), (''policy'', policy_fields), (''restrictions'', restriction_fields),
       (''holder'', Leaf), (''metadata'', Leaf)]),
    (''transferTicket'', Fields [(''event'', Leaf), (''ticket'', Leaf), (''receiver'', Leaf)]),
    (''removeRestriction'', Fields [(''event'', Leaf), (''ticket'', Leaf), (''restriction'', Leaf)]),
    (''registerCredential'', Fields [(''account'', Leaf), (''registration'', Leaf)])]"

definition PASS_ALLOW_LIST :: field_spec where
  "PASS_ALLOW_LIST = Fields [(''pass'', Fields [(''ticket'', Leaf), (''holder'', Leaf), (''id'', Leaf),
     (''notBefore'', Leaf), (''notAfter'', Leaf)]), (''authorisation'', Leaf)]"

definition PRESENTATION_ALLOW_LIST :: field_spec where
  "PRESENTATION_ALLOW_LIST = Fields [(''presentedAt'', Leaf)]"

section \<open>The SDK behind the boundary\<close>

text \<open>
  What is asked of the SDK, and the SDK: its answer and state.  A refused field throws before
  the SDK is reached.
\<close>

datatype sdk_call = SdkCommand string js_value | SdkPass js_value js_value

type_synonym ('s, 'r) sdk = "sdk_call \<Rightarrow> 's \<Rightarrow> 'r \<times> 's"

definition ticketto_write :: "('s, 'r) sdk \<Rightarrow> string \<Rightarrow> js_value \<Rightarrow> 's \<Rightarrow> (string + 'r) \<times> 's" where
  "ticketto_write sdk kind input s = (case map_of COMMAND_INPUT_ALLOW_LIST kind of None \<Rightarrow> (Inl kind, s)
     | Some spec \<Rightarrow> (case assertAllowed input spec kind of Inl field \<Rightarrow> (Inl field, s)
         | Inr _ \<Rightarrow> (let (r, s') = sdk (SdkCommand kind input) s in (Inr r, s'))))"

definition submitAccessPass :: "('s, 'r) sdk \<Rightarrow> js_value \<Rightarrow> js_value \<Rightarrow> 's \<Rightarrow> (string + 'r) \<times> 's" where
  "submitAccessPass sdk p presentation s =
     (case and_then (assertAllowed p PASS_ALLOW_LIST ''submitAccessPass.pass'')
         (\<lambda>_. assertAllowed presentation PRESENTATION_ALLOW_LIST ''submitAccessPass.presentation'') of
        Inl field \<Rightarrow> (Inl field, s)
      | Inr _ \<Rightarrow> (let (r, s') = sdk (SdkPass p presentation) s in (Inr r, s')))"

definition boundary_call :: "('s, 'r) sdk \<Rightarrow> sdk_call \<Rightarrow> 's \<Rightarrow> (string + 'r) \<times> 's" where
  "boundary_call sdk c s = (case c of SdkCommand kind input \<Rightarrow> ticketto_write sdk kind input s
     | SdkPass p presentation \<Rightarrow> submitAccessPass sdk p presentation s)"

text \<open>The backend: in memory, or the one connected to the ledger service.\<close>

datatype 'b backend_choice = MemoryBackend | ConnectedBackend 'b

definition backendFor :: "ledger_environment \<Rightarrow> 'b option \<Rightarrow> failure + 'b backend_choice" where
  "backendFor le connected = (if le = Development \<or> le = TestEnvironment then Inr MemoryBackend
     else (case connected of None \<Rightarrow> Inl OtherError | Some b \<Rightarrow> Inr (ConnectedBackend b)))"

section \<open>Receipts\<close>

text \<open>How each observed write ended, in the order they ended: the cursor of the latest settled.\<close>

datatype settlement = SettledAt ident | NotSettled

definition observe_settlement :: "settlement \<Rightarrow> ident option \<Rightarrow> ident option" where
  "observe_settlement x latest = (case x of SettledAt cur \<Rightarrow> Some cur | NotSettled \<Rightarrow> latest)"

definition trackReceipts :: "settlement list \<Rightarrow> ident option" where
  "trackReceipts xs = fold observe_settlement xs None"

section \<open>What passes\<close>

text \<open>A value of the shape a specification lists.\<close>

inductive conforms :: "js_value \<Rightarrow> field_spec \<Rightarrow> bool" where
  conforms_leaf: "\<not> is_container v \<Longrightarrow> conforms v Leaf"
| conforms_list: "(\<And>x. x \<in> set xs \<Longrightarrow> conforms x spec) \<Longrightarrow> conforms (JsArray xs) (ListOf spec)"
| conforms_object: "(\<And>f x. (f, x) \<in> set fs \<Longrightarrow> \<exists>spec. map_of table f = Some spec \<and> conforms x spec) \<Longrightarrow>
    conforms (JsObject fs) (Fields table)"

inductive_simps conforms_simps:
  "conforms v Leaf" "conforms v (ListOf spec)" "conforms v (Fields table)"

lemma assert_iff:
  "assertAllowed v spec path = Inr () \<longleftrightarrow> conforms v spec"
  "assert_items xs spec path i = Inr () \<longleftrightarrow> (\<forall>x \<in> set xs. conforms x spec)"
  "assert_entries fs table path = Inr () \<longleftrightarrow>
     (\<forall>(f, x) \<in> set fs. \<exists>spec. map_of table f = Some spec \<and> conforms x spec)"
proof (induction v spec path and xs spec path i and fs table path
    rule: assertAllowed_assert_items_assert_entries.induct)
  case (2 v spec path)
  then show ?case by (cases v) (auto simp: conforms_simps)
next
  case (3 v table path)
  then show ?case by (cases v) (auto simp: conforms_simps)
next
  case (7 f x fs table path)
  then show ?case by (cases "map_of table f") (auto simp: and_then_Inr_iff)
qed (auto simp: guard_Inr_iff conforms_simps and_then_Inr_iff)

text \<open>The names of the fields a value has, and those a specification lists, at any depth.\<close>

fun value_fields :: "js_value \<Rightarrow> string list" where
  "value_fields (JsArray xs) = concat (map value_fields xs)"
| "value_fields (JsObject fs) = concat (map (\<lambda>(f, x). f # value_fields x) fs)"
| "value_fields _ = []"

fun spec_fields :: "field_spec \<Rightarrow> string list" where
  "spec_fields Leaf = []"
| "spec_fields (ListOf spec) = spec_fields spec"
| "spec_fields (Fields table) = concat (map (\<lambda>(f, spec). f # spec_fields spec) table)"

lemma conforms_fields: "conforms v spec \<Longrightarrow> set (value_fields v) \<subseteq> set (spec_fields spec)"
proof (induction rule: conforms.induct)
  case (conforms_leaf v)
  then show ?case by (cases v) (auto simp: is_container_def)
next
  case (conforms_list xs spec)
  then show ?case by fastforce
next
  case (conforms_object fs table)
  show ?case
  proof
    fix g assume "g \<in> set (value_fields (JsObject fs))"
    then obtain f x where fx: "(f, x) \<in> set fs" and g: "g = f \<or> g \<in> set (value_fields x)" by auto
    from conforms_object[OF fx] obtain spec where spec: "map_of table f = Some spec"
      "set (value_fields x) \<subseteq> set (spec_fields spec)" by blast
    then have "(f, spec) \<in> set table" by (simp add: map_of_SomeD)
    with g spec(2) show "g \<in> set (spec_fields (Fields table))" by fastforce
  qed
qed

end
