(* ===== verification/BoundaryProperties.thy ===== *)
theory BoundaryProperties
  imports LedgerBoundary
begin

text \<open>What reaches the ledger's SDK.\<close>

definition call_listed :: "sdk_call \<Rightarrow> bool" where
  "call_listed c \<longleftrightarrow> (case c of
     SdkCommand kind input \<Rightarrow> \<exists>spec. map_of COMMAND_INPUT_ALLOW_LIST kind = Some spec \<and> conforms input spec
   | SdkPass p presentation \<Rightarrow> conforms p PASS_ALLOW_LIST \<and> conforms presentation PRESENTATION_ALLOW_LIST)"

definition call_fields :: "sdk_call \<Rightarrow> string list" where
  "call_fields c = (case c of SdkCommand _ input \<Rightarrow> value_fields input
     | SdkPass p presentation \<Rightarrow> value_fields p @ value_fields presentation)"

definition listed_names :: "string list" where
  "listed_names = concat (map (spec_fields \<circ> snd) COMMAND_INPUT_ALLOW_LIST) @
     spec_fields PASS_ALLOW_LIST @ spec_fields PRESENTATION_ALLOW_LIST"

definition distinct_names :: "string list" where
  "distinct_names = [''salt'', ''zones'', ''id'', ''kind'', ''capacity'', ''metadata'', ''event'', ''status'',
     ''proof'', ''zone'', ''placement'', ''position'', ''discriminator'', ''class'', ''provenance'', ''policy'',
     ''max'', ''until'', ''restrictions'', ''cannotResale'', ''cannotTransfer'', ''holder'', ''ticket'',
     ''receiver'', ''restriction'', ''account'', ''registration'', ''pass'', ''notBefore'', ''notAfter'',
     ''authorisation'', ''presentedAt'']"

lemma listed_names_distinct: "set listed_names \<subseteq> set distinct_names"
  by (simp add: listed_names_def distinct_names_def COMMAND_INPUT_ALLOW_LIST_def PASS_ALLOW_LIST_def
      PRESENTATION_ALLOW_LIST_def zone_fields_def placement_fields_def policy_fields_def restriction_fields_def)

lemma no_distinct_name_denied: "list_all (\<lambda>f. \<not> isDeniedFieldName f) distinct_names"
  by (simp add: distinct_names_def isDeniedFieldName_def normaliseFieldName_def lower_char_def field_char_def
      DENIED_FIELD_NAMES_def DENIED_FIELD_NAME_FRAGMENTS_def)

lemma listed_call_fields:
  assumes "call_listed c"
  shows "set (call_fields c) \<subseteq> set listed_names"
proof (cases c)
  case (SdkCommand kind input)
  with assms obtain spec where spec: "map_of COMMAND_INPUT_ALLOW_LIST kind = Some spec" "conforms input spec"
    by (auto simp: call_listed_def)
  then have "(kind, spec) \<in> set COMMAND_INPUT_ALLOW_LIST" by (simp add: map_of_SomeD)
  then have "set (spec_fields spec) \<subseteq> set listed_names" unfolding listed_names_def by force
  then show ?thesis using SdkCommand conforms_fields[OF spec(2)] by (auto simp: call_fields_def)
next
  case (SdkPass p presentation)
  then show ?thesis using assms conforms_fields[of p] conforms_fields[of presentation]
    by (auto simp: call_fields_def call_listed_def listed_names_def)
qed

lemma boundary_call_listed:
  "call_listed c \<Longrightarrow> boundary_call sdk c s = (Inr (fst (sdk c s)), snd (sdk c s))"
  by (cases c) (auto simp: call_listed_def boundary_call_def ticketto_write_def submitAccessPass_def
      assert_iff(1)[THEN iffD2] split: prod.splits)

lemma boundary_call_unlisted:
  assumes "\<not> call_listed c"
  shows "\<exists>field. boundary_call sdk c s = (Inl field, s)"
proof (cases c)
  case (SdkCommand kind input)
  show ?thesis
  proof (cases "map_of COMMAND_INPUT_ALLOW_LIST kind")
    case (Some spec)
    with assms SdkCommand have "\<not> conforms input spec" by (auto simp: call_listed_def)
    then obtain field where "assertAllowed input spec kind = Inl field"
      by (cases "assertAllowed input spec kind") (auto dest: assert_iff(1)[THEN iffD1])
    with Some SdkCommand show ?thesis by (auto simp: boundary_call_def ticketto_write_def)
  qed (use SdkCommand in \<open>auto simp: boundary_call_def ticketto_write_def\<close>)
next
  case (SdkPass p presentation)
  let ?check = "and_then (assertAllowed p PASS_ALLOW_LIST ''submitAccessPass.pass'')
    (\<lambda>_. assertAllowed presentation PRESENTATION_ALLOW_LIST ''submitAccessPass.presentation'')"
  have "?check \<noteq> Inr ()" using assms SdkPass by (auto simp: call_listed_def and_then_Inr_iff assert_iff)
  then obtain field where "?check = Inl field" by (cases ?check) auto
  with SdkPass show ?thesis by (auto simp: boundary_call_def submitAccessPass_def)
qed

text \<open>
  C36. Only listed fields reach the ledger: whatever a command's or a pass's input, the SDK is
  called exactly when the input has the shape listed for its kind, at every depth, and otherwise
  is not reached at all; so every field name that reaches the ledger is a listed one, and none
  is a name the personal-data lint denies.
\<close>

lemma only_listed_fields_reach_the_ledger:
  "(call_listed c \<longrightarrow> boundary_call sdk c s = (Inr (fst (sdk c s)), snd (sdk c s)) \<and>
      (\<forall>f \<in> set (call_fields c). f \<in> set listed_names \<and> \<not> isDeniedFieldName f)) \<and>
   (\<not> call_listed c \<longrightarrow> (\<exists>field. boundary_call sdk c s = (Inl field, s)))"
proof (intro conjI impI ballI)
  assume listed: "call_listed c"
  then show "boundary_call sdk c s = (Inr (fst (sdk c s)), snd (sdk c s))" by (rule boundary_call_listed)
  fix f assume "f \<in> set (call_fields c)"
  then have f: "f \<in> set listed_names" using listed_call_fields[OF listed] by blast
  then show "f \<in> set listed_names" .
  show "\<not> isDeniedFieldName f" using f listed_names_distinct no_distinct_name_denied by (auto simp: list_all_iff)
next
  assume "\<not> call_listed c"
  then show "\<exists>field. boundary_call sdk c s = (Inl field, s)" by (rule boundary_call_unlisted)
qed

definition guest_zone :: js_value where
  "guest_zone = JsObject [(''id'', JsString ''z''), (''kind'', JsString ''Seated''), (''email'', JsString ''a@b'')]"

lemma only_listed_fields_reach_the_ledger_witness:
  "(\<exists>field. boundary_call (\<lambda>c s. ((), c # s)) (SdkCommand ''addZone'' (JsObject [(''event'', JsString ''e''), (''zone'', guest_zone)])) []
     = (Inl field, [])) \<and>
   boundary_call (\<lambda>c s. ((), c # s)) (SdkCommand ''removeZone'' (JsObject [(''event'', JsString ''e'')])) []
     = (Inr (), [SdkCommand ''removeZone'' (JsObject [(''event'', JsString ''e'')])])"
proof -
  let ?bad = "SdkCommand ''addZone'' (JsObject [(''event'', JsString ''e''), (''zone'', guest_zone)])"
  let ?good = "SdkCommand ''removeZone'' (JsObject [(''event'', JsString ''e'')])"
  have "f \<in> {''id'', ''kind''}" if "conforms guest_zone zone_fields" "f \<in> set (value_fields guest_zone)" for f
    using conforms_fields[OF that(1)] that(2) by (auto simp: zone_fields_def)
  then have "\<not> conforms guest_zone zone_fields" by (fastforce simp: guest_zone_def)
  then have "\<not> call_listed ?bad"
    by (auto simp: call_listed_def COMMAND_INPUT_ALLOW_LIST_def conforms_simps)
  moreover have "call_listed ?good"
    by (simp add: call_listed_def COMMAND_INPUT_ALLOW_LIST_def conforms_simps is_container_def)
  ultimately show ?thesis
    using only_listed_fields_reach_the_ledger[of ?bad "\<lambda>c s. ((), c # s)" "[]"]
      only_listed_fields_reach_the_ledger[of ?good "\<lambda>c s. ((), c # s)" "[]"] by simp
qed

end
