(* ===== verification/Transport.thy ===== *)
theory Transport
  imports Reviewers LedgerBoundary
begin

text \<open>
  The transport of the API (\<open>src/trpc\<close>): the context of a request from its bearer token
  (\<open>fastify-context.ts\<close>), the builders of procedures and whom they admit (\<open>trpc.ts\<close>), and the
  mapping of what a service throws to what a client sees (\<open>errors.ts\<close>, the routers' \<open>mapped\<close>).
  Messages are not modelled, only whether an error's own is shown.
\<close>

section \<open>Errors\<close>

datatype trpc_code = TransportClass transport | ServiceUnavailable | UnprocessableContent | InternalServerError

datatype error_cause = NoCause | SpecErrorCause code "string option" | RefusalReasonCause string | OtherCause

record trpc_error =
  te_code :: trpc_code
  te_cause :: error_cause

definition capital :: "char \<Rightarrow> bool" where
  "capital c \<longleftrightarrow> c \<in> set ''ABCDEFGHIJKLMNOPQRSTUVWXYZ''"

definition letter :: "char \<Rightarrow> bool" where
  "letter c \<longleftrightarrow> capital c \<or> c \<in> set ''abcdefghijklmnopqrstuvwxyz''"

definition isSpecErrorCode :: "code \<Rightarrow> bool" where
  "isSpecErrorCode c \<longleftrightarrow> take 4 c = ''ERR-'' \<and>
     (case drop 4 c of [] \<Rightarrow> False | x # xs \<Rightarrow> capital x \<and> list_all letter xs)"

definition transportCode :: "code \<Rightarrow> trpc_code" where
  "transportCode c = (if suffix ''NotFound'' c then TransportClass NOT_FOUND
     else if c = ''ERR-NotOwner'' \<or> c = ''ERR-InvalidAuthorisation'' then TransportClass FORBIDDEN
     else if c = ''ERR-LedgerUnavailable'' then ServiceUnavailable
     else if suffix ''Exists'' c then TransportClass CONFLICT
     else UnprocessableContent)"

definition toTRPCError :: "code \<Rightarrow> string option \<Rightarrow> trpc_error" where
  "toTRPCError c reason = (if \<not> isSpecErrorCode c then \<lparr>te_code = InternalServerError, te_cause = NoCause\<rparr>
     else \<lparr>te_code = transportCode c, te_cause = SpecErrorCause c reason\<rparr>)"

text \<open>What a service throws, whichever it is; anything else is internal.\<close>

datatype thrown = Failed failure | AuthFailed auth_failure | ReviewerFailed reviewer_failure | Uncaught

definition internal_error :: trpc_error where
  "internal_error = \<lparr>te_code = InternalServerError, te_cause = OtherCause\<rparr>"

definition refused_with :: "transport \<Rightarrow> string option \<Rightarrow> trpc_error" where
  "refused_with t reason = \<lparr>te_code = TransportClass t,
     te_cause = (case reason of None \<Rightarrow> NoCause | Some r \<Rightarrow> RefusalReasonCause r)\<rparr>"

text \<open>\<open>mapped\<close> of the events, operators and capacity proofs routers.\<close>

definition mapped :: "thrown \<Rightarrow> trpc_error" where
  "mapped e = (case e of Failed (SpecCodeError c reason) \<Rightarrow> toTRPCError c reason
     | Failed (RefusedRequest t reason) \<Rightarrow> refused_with t reason
     | _ \<Rightarrow> internal_error)"

definition checkout_transport :: "checkout_failure \<Rightarrow> transport" where
  "checkout_transport f = (case f of UnknownCheckout \<Rightarrow> NOT_FOUND | LinkedToAnotherAccount \<Rightarrow> CONFLICT
     | AccountRequired \<Rightarrow> PRECONDITION_FAILED | HoldEnded \<Rightarrow> CONFLICT
     | LinkUnconfirmed \<Rightarrow> PRECONDITION_FAILED | NotPairing \<Rightarrow> PRECONDITION_FAILED
     | PairingCodeMismatch \<Rightarrow> CONFLICT | HoldRequired \<Rightarrow> PRECONDITION_FAILED
     | AlreadyPaid \<Rightarrow> CONFLICT | SalesClosed \<Rightarrow> CONFLICT)"

definition sales_mapped :: "thrown \<Rightarrow> trpc_error" where
  "sales_mapped e = (case e of Failed (SpecCodeError c reason) \<Rightarrow> toTRPCError c reason
     | Failed (RefusedRequest t _) \<Rightarrow> refused_with t None
     | Failed ProviderError \<Rightarrow> \<lparr>te_code = ServiceUnavailable, te_cause = OtherCause\<rparr>
     | Failed (CheckoutError f) \<Rightarrow> refused_with (checkout_transport f) None
     | _ \<Rightarrow> internal_error)"

definition metadata_mapped :: "thrown \<Rightarrow> trpc_error" where
  "metadata_mapped e = (case e of Failed (SpecCodeError c reason) \<Rightarrow> toTRPCError c reason
     | Failed (RefusedRequest _ _) \<Rightarrow> refused_with BAD_REQUEST None
     | _ \<Rightarrow> internal_error)"

definition page_mapped :: "thrown \<Rightarrow> trpc_error" where
  "page_mapped e = (case e of Failed (RefusedRequest _ _) \<Rightarrow> refused_with BAD_REQUEST None | _ \<Rightarrow> internal_error)"

definition auth_transport :: "auth_failure \<Rightarrow> transport" where
  "auth_transport f = (case f of EmailTaken \<Rightarrow> CONFLICT | UnknownOrganiser \<Rightarrow> NOT_FOUND
     | CeremonyExpired \<Rightarrow> UNAUTHORIZED | CredentialRejected \<Rightarrow> UNAUTHORIZED
     | EnrolmentCodeRejected \<Rightarrow> UNAUTHORIZED | LinkRejected \<Rightarrow> UNAUTHORIZED | InvalidInput \<Rightarrow> BAD_REQUEST)"

definition auth_mapped :: "thrown \<Rightarrow> trpc_error" where
  "auth_mapped e = (case e of AuthFailed f \<Rightarrow> refused_with (auth_transport f) None | _ \<Rightarrow> internal_error)"

definition reviewer_transport :: "reviewer_failure \<Rightarrow> transport" where
  "reviewer_transport f = (case f of CodeRejected \<Rightarrow> UNAUTHORIZED | UnknownReviewer \<Rightarrow> NOT_FOUND
     | ReviewerCeremonyExpired \<Rightarrow> UNAUTHORIZED | ReviewerCredentialRejected \<Rightarrow> UNAUTHORIZED
     | ReviewerInvalidInput \<Rightarrow> BAD_REQUEST)"

definition reviewer_mapped :: "thrown \<Rightarrow> trpc_error" where
  "reviewer_mapped e = (case e of ReviewerFailed f \<Rightarrow> refused_with (reviewer_transport f) None | _ \<Rightarrow> internal_error)"

text \<open>A router that maps nothing: whatever is thrown is internal.\<close>

definition unmapped :: "thrown \<Rightarrow> trpc_error" where
  "unmapped e = internal_error"

text \<open>What the client sees of an error; an internal one's own message is not shown.\<close>

record client_error =
  ce_code :: trpc_code
  ce_errorCode :: "code option"
  ce_reason :: "string option"
  ce_own_message :: bool

definition errorFormatter :: "trpc_error \<Rightarrow> client_error" where
  "errorFormatter e = \<lparr>ce_code = te_code e,
     ce_errorCode = (case te_cause e of SpecErrorCause c _ \<Rightarrow> Some c | _ \<Rightarrow> None),
     ce_reason = (case te_cause e of SpecErrorCause _ r \<Rightarrow> r | RefusalReasonCause r \<Rightarrow> Some r | _ \<Rightarrow> None),
     ce_own_message = (te_code e \<noteq> InternalServerError)\<rparr>"

section \<open>The context of a request\<close>

definition token_char :: "char \<Rightarrow> bool" where
  "token_char c \<longleftrightarrow> letter c \<or> c \<in> set ''0123456789_-''"

definition bearerToken :: "string option \<Rightarrow> string option" where
  "bearerToken header = (case header of None \<Rightarrow> None
     | Some h \<Rightarrow> (let t = drop 7 h in
         if take 7 h = ''Bearer '' \<and> 16 \<le> length t \<and> length t \<le> 256 \<and> list_all token_char t
         then Some t else None))"

record call_context =
  ctx_request :: ident
  ctx_session :: "(principal \<times> time) option"
  ctx_principal :: principal
  ctx_revoked :: "(principal \<times> time) option"

text \<open>
  The token is looked up as a session of \<open>a\<close> at \<open>at\<close>, and, when it names none, as a revoked
  operator's of \<open>a'\<close> at \<open>at'\<close>.
\<close>

definition createContext ::
  "env \<Rightarrow> string option \<Rightarrow> ident \<Rightarrow> time \<Rightarrow> accounts \<Rightarrow> time \<Rightarrow> accounts \<Rightarrow> call_context" where
  "createContext E header rid at a at' a' =
     (let token = bearerToken header;
          session = Option.bind token (\<lambda>t. authenticate E t at a);
          revoked = (if token = None \<or> session \<noteq> None then None
                     else authenticateRevokedOperator E (the token) at' a') in
      \<lparr>ctx_request = rid, ctx_session = session,
       ctx_principal = (case session of None \<Rightarrow> Anonymous | Some (p, _) \<Rightarrow> p), ctx_revoked = revoked\<rparr>)"

section \<open>Procedures\<close>

datatype access = NothingDeclared | PublicAccess | SignedIn | OperatorReport

definition unauthorised :: trpc_error where
  "unauthorised = refused_with UNAUTHORIZED None"

definition forbidden :: trpc_error where
  "forbidden = refused_with FORBIDDEN None"

definition guarded :: "access \<Rightarrow> call_context \<Rightarrow> trpc_error + unit" where
  "guarded acc ctx = (let reporting = (acc = OperatorReport \<and> ctx_revoked ctx \<noteq> None) in
     if ctx_principal ctx = Anonymous \<and> acc \<noteq> PublicAccess \<and> \<not> reporting then Inl unauthorised else Inr ())"

text \<open>Who a procedure then acts for, and when their session was revoked, if it was.\<close>

type_synonym acting = "principal \<times> time option"

definition publicProcedure :: "call_context \<Rightarrow> trpc_error + acting" where
  "publicProcedure ctx = and_then (guarded PublicAccess ctx) (\<lambda>_. Inr (ctx_principal ctx, None))"

definition authenticatedProcedure :: "call_context \<Rightarrow> trpc_error + acting" where
  "authenticatedProcedure ctx = and_then (guarded SignedIn ctx) (\<lambda>_.
     case ctx_session ctx of None \<Rightarrow> Inl unauthorised | Some (p, _) \<Rightarrow> Inr (p, None))"

definition only :: "(principal \<Rightarrow> bool) \<Rightarrow> call_context \<Rightarrow> trpc_error + acting" where
  "only kind ctx = and_then (authenticatedProcedure ctx) (\<lambda>(p, r).
     if kind p then Inr (p, r) else Inl forbidden)"

definition is_organiser :: "principal \<Rightarrow> bool" where
  "is_organiser p = (case p of Organiser _ _ \<Rightarrow> True | _ \<Rightarrow> False)"

definition is_operator :: "principal \<Rightarrow> bool" where
  "is_operator p = (case p of Operator _ _ _ \<Rightarrow> True | _ \<Rightarrow> False)"

definition is_holder :: "principal \<Rightarrow> bool" where
  "is_holder p = (case p of Holder _ _ \<Rightarrow> True | _ \<Rightarrow> False)"

definition is_reviewer :: "principal \<Rightarrow> bool" where
  "is_reviewer p = (case p of Reviewer _ _ \<Rightarrow> True | _ \<Rightarrow> False)"

definition organiserProcedure :: "call_context \<Rightarrow> trpc_error + acting" where
  "organiserProcedure = only is_organiser"

definition operatorProcedure :: "call_context \<Rightarrow> trpc_error + acting" where
  "operatorProcedure = only is_operator"

definition holderProcedure :: "call_context \<Rightarrow> trpc_error + acting" where
  "holderProcedure = only is_holder"

definition reviewerProcedure :: "call_context \<Rightarrow> trpc_error + acting" where
  "reviewerProcedure = only is_reviewer"

definition reportingOperatorProcedure :: "call_context \<Rightarrow> trpc_error + acting" where
  "reportingOperatorProcedure ctx = and_then (guarded OperatorReport ctx) (\<lambda>_.
     case ctx_session ctx of
       Some (p, _) \<Rightarrow> if is_operator p then Inr (p, None) else Inl forbidden
     | None \<Rightarrow> (case ctx_revoked ctx of None \<Rightarrow> Inl unauthorised | Some (p, t) \<Rightarrow> Inr (p, Some t)))"

datatype builder = PublicProcedure | AuthenticatedProcedure | OrganiserProcedure | OperatorProcedure
  | HolderProcedure | ReviewerProcedure | ReportingOperatorProcedure

definition admit :: "builder \<Rightarrow> call_context \<Rightarrow> trpc_error + acting" where
  "admit b = (case b of PublicProcedure \<Rightarrow> publicProcedure | AuthenticatedProcedure \<Rightarrow> authenticatedProcedure
     | OrganiserProcedure \<Rightarrow> organiserProcedure | OperatorProcedure \<Rightarrow> operatorProcedure
     | HolderProcedure \<Rightarrow> holderProcedure | ReviewerProcedure \<Rightarrow> reviewerProcedure
     | ReportingOperatorProcedure \<Rightarrow> reportingOperatorProcedure)"

end
