(* ===== verification/Schemas.thy ===== *)
theory Schemas
  imports Transport
begin

text \<open>
  The input schemas of the routers, as the data the validator is given, and what its
  documentation says of a value it answers with.  The validator itself is a parameter, as are
  its own formats (UUIDs, URLs) and the platform's test for well-formed Unicode.
\<close>

section \<open>Schemas\<close>

datatype string_rule = MinLength nat | MaxLength nat | Pattern "string \<Rightarrow> bool" | Trimmed | UuidFormat
  | HttpUrl | WellFormed

datatype need = Needed | Optional

datatype schema = StringOf "string_rule list" | OneOf "string list" | IntegerIn int int | AnyInteger
  | Boolean | ListIn nat nat schema | ObjectOf bool "(string \<times> need \<times> schema) list"
  | Tagged string "(string \<times> schema) list" | Nullable schema | Distinct schema
  | Increasing string string schema | JsonObject | Absent schema

text \<open>\<open>ObjectOf True\<close> is strict; \<open>Absent\<close> is an input that may be left out altogether.\<close>

record formats =
  fm_uuid :: "string \<Rightarrow> bool"
  fm_http :: "string \<Rightarrow> bool"
  fm_unicode :: "string \<Rightarrow> bool"

definition rule_holds :: "formats \<Rightarrow> string \<Rightarrow> string_rule \<Rightarrow> bool" where
  "rule_holds F s r = (case r of MinLength n \<Rightarrow> n \<le> length s | MaxLength n \<Rightarrow> length s \<le> n
     | Pattern p \<Rightarrow> p s | Trimmed \<Rightarrow> trim s = s | UuidFormat \<Rightarrow> fm_uuid F s | HttpUrl \<Rightarrow> fm_http F s
     | WellFormed \<Rightarrow> fm_unicode F s)"

definition entries :: "js_value \<Rightarrow> (string \<times> js_value) list" where
  "entries v = (case v of JsObject es \<Rightarrow> es | _ \<Rightarrow> [])"

definition field_in :: "js_value \<Rightarrow> string \<Rightarrow> js_value" where
  "field_in v k = (case map_of (entries v) k of None \<Rightarrow> JsUndefined | Some w \<Rightarrow> w)"

definition integer_in :: "js_value \<Rightarrow> string \<Rightarrow> int" where
  "integer_in v k = (case field_in v k of JsNumber (Whole n) \<Rightarrow> n | _ \<Rightarrow> 0)"

lemma schema_entry_size [termination_simp]:
  "(k, need, s) \<in> set fs \<Longrightarrow> size (s :: schema) < Suc (size_list (size_prod (\<lambda>_. 0) (size_prod (\<lambda>_. 0) size)) fs)"
  by (induction fs) auto

lemma schema_choice_size [termination_simp]:
  "(k, s) \<in> set fs \<Longrightarrow> size (s :: schema) < Suc (size_list (size_prod (\<lambda>_. 0) size) fs)"
  by (induction fs) auto

text \<open>What the answer to a schema is.\<close>

fun satisfies :: "formats \<Rightarrow> schema \<Rightarrow> js_value \<Rightarrow> bool" where
  "satisfies F (StringOf rules) v \<longleftrightarrow> (\<exists>s. v = JsString s \<and> list_all (rule_holds F s) rules)"
| "satisfies F (OneOf names) v \<longleftrightarrow> (\<exists>s. v = JsString s \<and> s \<in> set names)"
| "satisfies F (IntegerIn lo hi) v \<longleftrightarrow> (\<exists>n. v = JsNumber (Whole n) \<and> lo \<le> n \<and> n \<le> hi)"
| "satisfies F AnyInteger v \<longleftrightarrow> (\<exists>n. v = JsNumber (Whole n))"
| "satisfies F Boolean v \<longleftrightarrow> (\<exists>b. v = JsBool b)"
| "satisfies F (ListIn lo hi s) v \<longleftrightarrow>
     (\<exists>xs. v = JsArray xs \<and> lo \<le> length xs \<and> length xs \<le> hi \<and> list_all (satisfies F s) xs)"
| "satisfies F (ObjectOf strict fs) v \<longleftrightarrow> (\<exists>es. v = JsObject es \<and> fst ` set es \<subseteq> fst ` set fs) \<and>
     (\<forall>(k, need, s) \<in> set fs. (need = Optional \<and> field_in v k = JsUndefined) \<or> satisfies F s (field_in v k))"
| "satisfies F (Tagged key ss) v \<longleftrightarrow> (\<exists>(t, s) \<in> set ss. field_in v key = JsString t \<and> satisfies F s v)"
| "satisfies F (Nullable s) v \<longleftrightarrow> v = JsNull \<or> satisfies F s v"
| "satisfies F (Distinct s) v \<longleftrightarrow> satisfies F s v \<and> (\<exists>xs. v = JsArray xs \<and> distinct xs)"
| "satisfies F (Increasing a b s) v \<longleftrightarrow> satisfies F s v \<and> integer_in v a < integer_in v b"
| "satisfies F JsonObject v \<longleftrightarrow> (\<exists>es. v = JsObject es)"
| "satisfies F (Absent s) v \<longleftrightarrow> v = JsUndefined \<or> satisfies F s v"

text \<open>
  The validator answers with a value of the schema, or refuses; an object that is not strict is
  answered without the entries the schema does not name.
\<close>

type_synonym validator = "schema \<Rightarrow> js_value \<Rightarrow> js_value option"

definition validator_ok :: "formats \<Rightarrow> validator \<Rightarrow> bool" where
  "validator_ok F zod \<longleftrightarrow> (\<forall>s v w. zod s v = Some w \<longrightarrow> satisfies F s w)"

definition parser :: "validator \<Rightarrow> schema \<Rightarrow> js_value \<Rightarrow> trpc_error + js_value" where
  "parser zod s v = (case zod s v of None \<Rightarrow> Inl (refused_with BAD_REQUEST None) | Some w \<Rightarrow> Inr w)"

section \<open>Shared pieces\<close>

definition id32 :: schema where "id32 = StringOf [Pattern account_hex]"

definition uuid :: schema where "uuid = StringOf [UuidFormat]"

definition count_schema :: schema where "count_schema = IntegerIn 0 MAX_SAFE_INTEGER"

definition positive_schema :: schema where "positive_schema = IntegerIn 1 MAX_SAFE_INTEGER"

definition literal :: "string \<Rightarrow> schema" where "literal s = OneOf [s]"

definition strict :: "(string \<times> schema) list \<Rightarrow> schema" where
  "strict fs = ObjectOf True (map (\<lambda>(k, s). (k, Needed, s)) fs)"

definition designation_schema :: schema where
  "designation_schema = StringOf [MinLength 1, MaxLength 100, WellFormed]"

definition placement_schema :: schema where
  "placement_schema = Tagged ''kind''
     [(''Seated'', strict [(''kind'', literal ''Seated''), (''position'', designation_schema)]),
      (''Unseated'', strict [(''kind'', literal ''Unseated'')])]"

text \<open>A token of 43 characters of base64url_schema.\<close>

definition token43 :: schema where
  "token43 = StringOf [Pattern (\<lambda>s. length s = 43 \<and> list_all token_char s)]"

definition eventInput :: schema where "eventInput = strict [(''event'', id32)]"

section \<open>Events\<close>

definition saleAsset_schema :: schema where "saleAsset_schema = OneOf [''COPM/2'', ''DUSD/6'']"

definition policy_schema :: schema where
  "policy_schema = Tagged ''kind''
     [(''Single'', strict [(''kind'', literal ''Single'')]),
      (''Multiple'', strict [(''kind'', literal ''Multiple''), (''max'', count_schema), (''until'', Nullable count_schema)]),
      (''Unlimited'', strict [(''kind'', literal ''Unlimited''), (''until'', Nullable count_schema)])]"

definition zone_schema :: schema where
  "zone_schema = strict [(''id'', id32), (''kind'', OneOf [''Seated'', ''Unseated''])]"

definition zoneInput :: schema where "zoneInput = strict [(''event'', id32), (''zone'', id32)]"

definition addZoneInput :: schema where "addZoneInput = strict [(''event'', id32), (''zone'', zone_schema)]"

definition addSeatPositionsInput :: schema where
  "addSeatPositionsInput = strict [(''event'', id32), (''zone'', id32), (''positions'', ListIn 1 50000 designation_schema)]"

definition issueGrantedInput :: schema where
  "issueGrantedInput = strict [(''event'', id32), (''class'', id32), (''zone'', id32),
     (''placement'', placement_schema), (''holder'', id32)]"

definition createInvitationInput :: schema where
  "createInvitationInput = strict [(''event'', id32), (''class'', id32), (''zone'', id32),
     (''placement'', placement_schema), (''guest'', Nullable (StringOf [MinLength 1, MaxLength 200]))]"

definition listInvitationsInput :: schema where
  "listInvitationsInput = strict [(''event'', id32), (''class'', Nullable id32)]"

definition redeemInvitationInput :: schema where "redeemInvitationInput = strict [(''token'', token43)]"

definition createEventInput :: schema where
  "createEventInput = ObjectOf True [(''zones'', Needed, ListIn 0 1000 zone_schema),
     (''capacity'', Needed, Nullable count_schema), (''saleAsset'', Optional, Nullable saleAsset_schema)]"

definition defineClassInput :: schema where
  "defineClassInput = ObjectOf True
     [(''event'', Needed, id32), (''name'', Needed, StringOf [MinLength 1, MaxLength 200]),
      (''description'', Needed, Nullable (StringOf [MaxLength 5000])),
      (''provenance'', Needed, OneOf [''Purchased'', ''Granted'']), (''policy'', Needed, policy_schema),
      (''restrictions'', Needed, strict [(''cannotResale'', Boolean), (''cannotTransfer'', Boolean)]),
      (''quota'', Needed, Nullable count_schema), (''price'', Optional, Nullable positive_schema)]"

definition setSaleAssetInput :: schema where
  "setSaleAssetInput = strict [(''event'', id32), (''asset'', saleAsset_schema)]"

definition removeRestrictionInput :: schema where
  "removeRestrictionInput = strict [(''event'', id32), (''ticket'', id32),
     (''restriction'', OneOf [''cannotResale'', ''cannotTransfer''])]"

definition decreaseCapacityInput :: schema where
  "decreaseCapacityInput = strict [(''event'', id32), (''capacity'', count_schema)]"

definition scheduleFinishInput :: schema where
  "scheduleFinishInput = strict [(''event'', id32), (''at'', positive_schema)]"

definition setPassWindowInput :: schema where
  "setPassWindowInput = strict [(''event'', id32), (''windowMs'', IntegerIn 1 2147483647)]"

definition setClassPriceInput :: schema where
  "setClassPriceInput = strict [(''event'', id32), (''class'', id32), (''price'', positive_schema)]"

section \<open>Operators\<close>

definition timestamp_schema :: schema where "timestamp_schema = IntegerIn 0 8640000000000000"

definition name_schema :: "nat \<Rightarrow> schema" where
  "name_schema n = StringOf [Trimmed, MinLength 1, MaxLength n, WellFormed]"

definition grantInput :: schema where
  "grantInput = Increasing ''from'' ''until'' (strict [(''operator'', uuid), (''event'', id32),
     (''gates'', Distinct (ListIn 1 100 (name_schema 100))), (''from'', timestamp_schema), (''until'', timestamp_schema)])"

definition admissionSubmission :: schema where
  "admissionSubmission = Tagged ''outcome''
     [(''settled'', strict [(''outcome'', literal ''settled''), (''cursor'', StringOf [MaxLength 256])]),
      (''rejected'', strict [(''outcome'', literal ''rejected''), (''errorCode'', StringOf [MaxLength 64, Pattern isSpecErrorCode])]),
      (''failed'', strict [(''outcome'', literal ''failed'')])]"

definition gate_refusal_reason :: "string \<Rightarrow> bool" where
  "gate_refusal_reason s \<longleftrightarrow> isSpecErrorCode s \<or> (case s of [] \<Rightarrow> False
     | x # xs \<Rightarrow> letter x \<and> \<not> capital x \<and> list_all (\<lambda>c. (letter c \<and> \<not> capital c) \<or> c = CHR ''-'') xs)"

definition admissionReportInput :: schema where
  "admissionReportInput = ObjectOf True
     [(''reportId'', Needed, uuid), (''event'', Needed, id32), (''gate'', Needed, name_schema 100),
      (''ticket'', Needed, id32),
      (''passId'', Needed, StringOf [Pattern (\<lambda>s. length s = 32 \<and> list_all is_hex s)]),
      (''holder'', Optional, id32),
      (''verdict'', Needed, Tagged ''kind''
         [(''admitted'', strict [(''kind'', literal ''admitted''), (''submission'', admissionSubmission)]),
          (''refused'', strict [(''kind'', literal ''refused''), (''reason'', StringOf [Pattern gate_refusal_reason, MaxLength 64])])]),
      (''presentedAt'', Needed, timestamp_schema), (''deviceClock'', Needed, timestamp_schema)]"

definition createOperatorInput :: schema where "createOperatorInput = strict [(''name'', name_schema 200)]"

definition operatorInput :: schema where "operatorInput = strict [(''operator'', uuid)]"

definition checkInput :: schema where "checkInput = strict [(''event'', id32), (''gate'', name_schema 100)]"

definition grantIdInput :: schema where "grantIdInput = strict [(''grant'', uuid)]"

definition listGrantsInput :: schema where
  "listGrantsInput = strict [(''event'', Nullable id32), (''operator'', Nullable uuid)]"

section \<open>Capacity proofs, metadata and reads\<close>

definition proofRequestInput :: schema where
  "proofRequestInput = strict [(''event'', id32), (''capacity'', Nullable count_schema),
     (''artefact'', strict [(''mediaType'', StringOf [MaxLength 100]), (''data'', StringOf [MinLength 1, MaxLength 3000000])])]"

definition decisionInput :: schema where "decisionInput = strict [(''request'', uuid)]"

definition putEventDocumentInput :: schema where
  "putEventDocumentInput = strict [(''event'', id32), (''document'', JsonObject)]"

definition putClassDocumentInput :: schema where
  "putClassDocumentInput = strict [(''event'', id32), (''class'', id32), (''document'', JsonObject)]"

definition uploadImageInput :: schema where
  "uploadImageInput = strict [(''event'', id32), (''mediaType'', StringOf [MaxLength 100]),
     (''data'', StringOf [MinLength 1, MaxLength 3000000])]"

definition eventsOnSaleInput :: schema where
  "eventsOnSaleInput = Absent (ObjectOf True [(''limit'', Optional, IntegerIn 1 100),
     (''page'', Optional, Nullable (StringOf [MaxLength 200]))])"

definition waitForInput :: schema where
  "waitForInput = strict [(''cursor'', StringOf [MaxLength 1024]), (''timeout'', IntegerIn 0 10000)]"

section \<open>Sales\<close>

definition beginCheckoutInput :: schema where
  "beginCheckoutInput = strict [(''event'', id32), (''zone'', id32), (''class'', id32), (''placement'', placement_schema)]"

definition tokenInput :: schema where "tokenInput = strict [(''token'', token43)]"

definition getInput :: schema where
  "getInput = ObjectOf True [(''token'', Needed, token43), (''waitForTicketMs'', Optional, IntegerIn 0 10000)]"

definition handoffTokenInput :: schema where "handoffTokenInput = strict [(''handoffToken'', token43)]"

definition payInput :: schema where
  "payInput = strict [(''token'', token43), (''successUrl'', StringOf [HttpUrl, MaxLength 2048]),
     (''cancelUrl'', StringOf [HttpUrl, MaxLength 2048])]"

definition confirmLinkInput :: schema where
  "confirmLinkInput = strict [(''token'', token43),
     (''pairingCode'', StringOf [Pattern (\<lambda>s. length s = 6 \<and> list_all (\<lambda>c. c \<in> set ''0123456789'') s)])]"

section \<open>Authentication\<close>

definition base64url_schema :: schema where "base64url_schema = StringOf [Pattern (list_all token_char), MaxLength 16384]"

definition open_object :: "(string \<times> need \<times> schema) list \<Rightarrow> schema" where
  "open_object fs = ObjectOf False fs"

definition registrationResponse :: schema where
  "registrationResponse = open_object
     [(''id'', Needed, base64url_schema), (''rawId'', Needed, base64url_schema), (''type'', Needed, literal ''public-key''),
      (''response'', Needed, open_object
         [(''clientDataJSON'', Needed, base64url_schema), (''attestationObject'', Needed, base64url_schema),
          (''authenticatorData'', Optional, base64url_schema),
          (''transports'', Optional, ListIn 0 16 (StringOf [MaxLength 32])),
          (''publicKeyAlgorithm'', Optional, AnyInteger), (''publicKey'', Optional, base64url_schema)]),
      (''authenticatorAttachment'', Optional, OneOf [''cross-platform'', ''platform'']),
      (''clientExtensionResults'', Needed, JsonObject)]"

definition authenticationResponse :: schema where
  "authenticationResponse = open_object
     [(''id'', Needed, base64url_schema), (''rawId'', Needed, base64url_schema), (''type'', Needed, literal ''public-key''),
      (''response'', Needed, open_object
         [(''clientDataJSON'', Needed, base64url_schema), (''authenticatorData'', Needed, base64url_schema),
          (''signature'', Needed, base64url_schema), (''userHandle'', Optional, base64url_schema)]),
      (''authenticatorAttachment'', Optional, OneOf [''cross-platform'', ''platform'']),
      (''clientExtensionResults'', Needed, JsonObject)]"

definition email_schema :: schema where "email_schema = StringOf [MinLength 3, MaxLength 320]"

definition code_schema :: schema where "code_schema = StringOf [MinLength 1, MaxLength 256]"

definition emailInput :: schema where "emailInput = open_object [(''email'', Needed, email_schema)]"

definition completeInput :: "schema \<Rightarrow> schema" where
  "completeInput credential = open_object [(''ceremonyId'', Needed, uuid), (''credential'', Needed, credential)]"

definition codeInput :: schema where "codeInput = open_object [(''code'', Needed, code_schema)]"

definition beginHolderLinkInput :: schema where "beginHolderLinkInput = open_object [(''account'', Needed, id32)]"

definition completeHolderLinkInput :: schema where
  "completeHolderLinkInput = open_object [(''challengeId'', Needed, uuid),
     (''authorisation'', Needed, StringOf [Pattern authorisation_hex])]"

definition beginReviewerEnrolmentInput :: schema where
  "beginReviewerEnrolmentInput = strict [(''code'', code_schema), (''email'', email_schema)]"

definition reviewerEmailInput :: schema where "reviewerEmailInput = strict [(''email'', email_schema)]"

end
