(* ===== verification/Routers.thy ===== *)
theory Routers
  imports Schemas
begin

text \<open>
  The routers (\<open>src/*/router.ts\<close>, composed by \<open>src/trpc/router.ts\<close>): every procedure by its path,
  with the builder that says whom it admits, the schema of its input, the service it calls and
  how that service's errors are mapped.  The services are a parameter of \<open>serve\<close>.
\<close>

section \<open>Procedures\<close>

datatype call_kind = Query | Mutation

record procedure =
  pr_builder :: builder
  pr_kind :: call_kind
  pr_input :: "schema option"
  pr_service :: string
  pr_maps :: "thrown \<Rightarrow> trpc_error"

definition query :: "builder \<Rightarrow> schema option \<Rightarrow> string \<Rightarrow> (thrown \<Rightarrow> trpc_error) \<Rightarrow> procedure" where
  "query b i service m = \<lparr>pr_builder = b, pr_kind = Query, pr_input = i, pr_service = service, pr_maps = m\<rparr>"

definition mutation :: "builder \<Rightarrow> schema option \<Rightarrow> string \<Rightarrow> (thrown \<Rightarrow> trpc_error) \<Rightarrow> procedure" where
  "mutation b i service m = \<lparr>pr_builder = b, pr_kind = Mutation, pr_input = i, pr_service = service, pr_maps = m\<rparr>"

type_synonym routes = "(string \<times> procedure) list"

definition mount :: "string \<Rightarrow> routes \<Rightarrow> routes" where
  "mount name rs = map (\<lambda>(path, p). (name @ ''.'' @ path, p)) rs"

section \<open>Events\<close>

definition zonesRouter :: routes where
  "zonesRouter = [
    (''add'', mutation OrganiserProcedure (Some addZoneInput) ''events.addZone'' mapped),
    (''remove'', mutation OrganiserProcedure (Some zoneInput) ''events.removeZone'' mapped),
    (''addSeatPositions'', mutation OrganiserProcedure (Some addSeatPositionsInput) ''events.addSeatPositions'' mapped),
    (''seatPositions'', query OrganiserProcedure (Some zoneInput) ''events.seatPositions'' mapped)]"

definition classesRouter :: routes where
  "classesRouter = [
    (''define'', mutation OrganiserProcedure (Some defineClassInput) ''events.defineClass'' mapped),
    (''setPrice'', mutation OrganiserProcedure (Some setClassPriceInput) ''events.setClassPrice'' mapped),
    (''list'', query OrganiserProcedure (Some eventInput) ''events.listClasses'' mapped)]"

definition ticketsRouter :: routes where
  "ticketsRouter = [
    (''removeRestriction'', mutation OrganiserProcedure (Some removeRestrictionInput) ''events.removeRestriction'' mapped),
    (''issueGranted'', mutation OrganiserProcedure (Some issueGrantedInput) ''events.issueGranted'' mapped)]"

definition invitationsRouter :: routes where
  "invitationsRouter = [
    (''create'', mutation OrganiserProcedure (Some createInvitationInput) ''events.createInvitation'' mapped),
    (''list'', query OrganiserProcedure (Some listInvitationsInput) ''events.listInvitations'' mapped),
    (''redeem'', mutation HolderProcedure (Some redeemInvitationInput) ''events.redeemInvitation'' mapped)]"

definition organiserCapacityProofsRouter :: routes where
  "organiserCapacityProofsRouter = [
    (''request'', mutation OrganiserProcedure (Some proofRequestInput) ''capacityProofs.request'' mapped),
    (''list'', query OrganiserProcedure (Some eventInput) ''capacityProofs.list'' mapped)]"

definition eventsRouter :: routes where
  "eventsRouter = [
    (''create'', mutation OrganiserProcedure (Some createEventInput) ''events.createEvent'' mapped),
    (''setSaleAsset'', mutation OrganiserProcedure (Some setSaleAssetInput) ''events.setSaleAsset'' mapped),
    (''seal'', mutation OrganiserProcedure (Some eventInput) ''events.seal'' mapped),
    (''cancel'', mutation OrganiserProcedure (Some eventInput) ''events.cancel'' mapped),
    (''finish'', mutation OrganiserProcedure (Some eventInput) ''events.finish'' mapped),
    (''scheduleFinish'', mutation OrganiserProcedure (Some scheduleFinishInput) ''events.scheduleFinish'' mapped),
    (''cancelScheduledFinish'', mutation OrganiserProcedure (Some eventInput) ''events.cancelScheduledFinish'' mapped),
    (''finishSchedule'', query OrganiserProcedure (Some eventInput) ''events.finishSchedule'' mapped),
    (''decreaseCapacity'', mutation OrganiserProcedure (Some decreaseCapacityInput) ''events.decreaseCapacity'' mapped),
    (''passWindow'', query OrganiserProcedure (Some eventInput) ''events.passWindow'' mapped),
    (''setPassWindow'', mutation OrganiserProcedure (Some setPassWindowInput) ''events.setPassWindow'' mapped),
    (''saleAsset'', query OrganiserProcedure (Some eventInput) ''events.saleAsset'' mapped)] @
    mount ''capacityProofs'' organiserCapacityProofsRouter @ mount ''zones'' zonesRouter @
    mount ''classes'' classesRouter @ mount ''tickets'' ticketsRouter @ mount ''invitations'' invitationsRouter"

section \<open>Operators and reviewers\<close>

definition operatorsRouter :: routes where
  "operatorsRouter = [
    (''create'', mutation OrganiserProcedure (Some createOperatorInput) ''operators.create'' mapped),
    (''list'', query OrganiserProcedure None ''operators.list'' mapped),
    (''issueEnrolmentCode'', mutation OrganiserProcedure (Some operatorInput) ''operators.issueEnrolmentCode'' mapped),
    (''revokeSessions'', mutation OrganiserProcedure (Some operatorInput) ''operators.revokeSessions'' mapped),
    (''check'', query OperatorProcedure (Some checkInput) ''operators.check'' mapped),
    (''reportAdmission'', mutation ReportingOperatorProcedure (Some admissionReportInput) ''operators.reportAdmission'' mapped)] @
    mount ''grants'' [
      (''create'', mutation OrganiserProcedure (Some grantInput) ''operators.grant'' mapped),
      (''list'', query OrganiserProcedure (Some listGrantsInput) ''operators.listGrants'' mapped),
      (''revoke'', mutation OrganiserProcedure (Some grantIdInput) ''operators.revokeGrant'' mapped),
      (''mine'', query OperatorProcedure None ''operators.myGrants'' mapped)]"

definition reviewerCapacityProofsRouter :: routes where
  "reviewerCapacityProofsRouter = [
    (''queue'', query ReviewerProcedure None ''capacityProofs.queue'' mapped),
    (''artefact'', query ReviewerProcedure (Some decisionInput) ''capacityProofs.artefact'' mapped),
    (''approve'', mutation ReviewerProcedure (Some decisionInput) ''capacityProofs.approve'' mapped),
    (''reject'', mutation ReviewerProcedure (Some decisionInput) ''capacityProofs.reject'' mapped)]"

definition reviewersRouter :: routes where
  "reviewersRouter =
    mount ''enrolment'' [
      (''begin'', mutation PublicProcedure (Some beginReviewerEnrolmentInput) ''reviewers.beginEnrolment'' reviewer_mapped),
      (''complete'', mutation PublicProcedure (Some (completeInput registrationResponse)) ''reviewers.completeEnrolment'' reviewer_mapped)] @
    mount ''signIn'' [
      (''begin'', mutation PublicProcedure (Some reviewerEmailInput) ''reviewers.beginSignIn'' reviewer_mapped),
      (''complete'', mutation PublicProcedure (Some (completeInput authenticationResponse)) ''reviewers.completeSignIn'' reviewer_mapped)] @
    mount ''capacityProofs'' reviewerCapacityProofsRouter"

section \<open>Reads, metadata and sales\<close>

definition derivedRouter :: routes where
  "derivedRouter =
    mount ''events'' [
      (''get'', query PublicProcedure (Some eventInput) ''derived.event'' unmapped),
      (''onSale'', query PublicProcedure (Some eventsOnSaleInput) ''derived.eventsOnSale'' page_mapped),
      (''mine'', query OrganiserProcedure None ''derived.organiserEvents'' unmapped)] @
    mount ''admissionFlags'' [
      (''list'', query OrganiserProcedure (Some eventInput) ''derived.admissionFlags'' unmapped)] @
    mount ''credentials'' [
      (''mine'', query HolderProcedure None ''derived.holderCredentials'' unmapped)] @
    mount ''holdings'' [
      (''mine'', query HolderProcedure None ''derived.holdings'' unmapped)] @
    [(''waitFor'', query AuthenticatedProcedure (Some waitForInput) ''derived.waitFor'' unmapped)]"

definition metadataRouter :: routes where
  "metadataRouter =
    mount ''events'' [
      (''put'', mutation OrganiserProcedure (Some putEventDocumentInput) ''metadata.putEventDocument'' metadata_mapped)] @
    mount ''images'' [
      (''upload'', mutation OrganiserProcedure (Some uploadImageInput) ''metadata.uploadImage'' metadata_mapped)] @
    mount ''classes'' [
      (''put'', mutation OrganiserProcedure (Some putClassDocumentInput) ''metadata.putClassDocument'' metadata_mapped)]"

definition checkoutRouter :: routes where
  "checkoutRouter = [
    (''begin'', mutation PublicProcedure (Some beginCheckoutInput) ''sales.beginCheckout'' sales_mapped),
    (''get'', query PublicProcedure (Some getInput) ''sales.checkout'' sales_mapped),
    (''link'', mutation HolderProcedure (Some handoffTokenInput) ''sales.linkCheckout'' sales_mapped),
    (''confirmLink'', mutation PublicProcedure (Some confirmLinkInput) ''sales.confirmLink'' sales_mapped),
    (''discardLink'', mutation PublicProcedure (Some tokenInput) ''sales.discardLink'' sales_mapped),
    (''hold'', mutation PublicProcedure (Some tokenInput) ''sales.hold'' sales_mapped),
    (''pay'', mutation PublicProcedure (Some payInput) ''sales.pay'' sales_mapped),
    (''cancel'', mutation PublicProcedure (Some tokenInput) ''sales.cancel'' sales_mapped)]"

definition salesRouter :: routes where
  "salesRouter = mount ''checkout'' checkoutRouter @
    [(''inventory'', query PublicProcedure (Some eventInput) ''sales.inventory'' sales_mapped)]"

section \<open>Authentication\<close>

definition organiserRouter :: routes where
  "organiserRouter = [
    (''beginSignUp'', mutation PublicProcedure (Some emailInput) ''auth.beginOrganiserSignUp'' auth_mapped),
    (''completeSignUp'', mutation PublicProcedure (Some (completeInput registrationResponse)) ''auth.completeOrganiserSignUp'' auth_mapped),
    (''beginSignIn'', mutation PublicProcedure (Some emailInput) ''auth.beginOrganiserSignIn'' auth_mapped),
    (''completeSignIn'', mutation PublicProcedure (Some (completeInput authenticationResponse)) ''auth.completeOrganiserSignIn'' auth_mapped)]"

definition operatorRouter :: routes where
  "operatorRouter = [
    (''redeemEnrolmentCode'', mutation PublicProcedure (Some codeInput) ''auth.redeemOperatorEnrolmentCode'' auth_mapped)]"

definition holderRouter :: routes where
  "holderRouter = [
    (''beginLink'', mutation PublicProcedure (Some beginHolderLinkInput) ''auth.beginHolderLink'' auth_mapped),
    (''completeLink'', mutation PublicProcedure (Some completeHolderLinkInput) ''auth.completeHolderLink'' auth_mapped)]"

definition sessionRouter :: routes where
  "sessionRouter = [
    (''current'', query AuthenticatedProcedure None ''auth.current'' unmapped),
    (''signOut'', mutation AuthenticatedProcedure None ''auth.signOut'' unmapped)]"

definition authRouter :: routes where
  "authRouter = mount ''organiser'' organiserRouter @ mount ''operator'' operatorRouter @
     mount ''holder'' holderRouter @ mount ''session'' sessionRouter"

definition systemRouter :: routes where
  "systemRouter = [(''health'', query PublicProcedure None ''system.health'' unmapped)]"

definition appRouter :: routes where
  "appRouter = mount ''system'' systemRouter @ mount ''auth'' authRouter @ mount ''events'' eventsRouter @
     mount ''metadata'' metadataRouter @ mount ''derived'' derivedRouter @ mount ''sales'' salesRouter @
     mount ''operators'' operatorsRouter @ mount ''reviewers'' reviewersRouter"

section \<open>A call\<close>

text \<open>
  A service: given who calls, the request's identifier and the input, its answer or what it
  throws, and the state.
\<close>

type_synonym ('s, 'r) services =
  "string \<Rightarrow> acting \<Rightarrow> ident \<Rightarrow> js_value option \<Rightarrow> 's \<Rightarrow> (thrown + 'r) \<times> 's"

definition read_input :: "validator \<Rightarrow> schema option \<Rightarrow> js_value \<Rightarrow> trpc_error + js_value option" where
  "read_input zod i v = (case i of None \<Rightarrow> Inr None
     | Some sc \<Rightarrow> and_then (parser zod sc v) (\<lambda>w. Inr (Some w)))"

definition call_procedure ::
  "validator \<Rightarrow> ('s, 'r) services \<Rightarrow> call_context \<Rightarrow> procedure \<Rightarrow> js_value \<Rightarrow> 's \<Rightarrow> (trpc_error + 'r) \<times> 's" where
  "call_procedure zod S ctx p v s =
     (case admit (pr_builder p) ctx of Inl e \<Rightarrow> (Inl e, s)
      | Inr who \<Rightarrow> (case read_input zod (pr_input p) v of Inl e \<Rightarrow> (Inl e, s)
          | Inr w \<Rightarrow> (case S (pr_service p) who (ctx_request ctx) w s of
                (Inl e, s') \<Rightarrow> (Inl (pr_maps p e), s') | (Inr r, s') \<Rightarrow> (Inr r, s'))))"

definition serve ::
  "validator \<Rightarrow> ('s, 'r) services \<Rightarrow> call_context \<Rightarrow> string \<Rightarrow> js_value \<Rightarrow> 's \<Rightarrow> (client_error + 'r) \<times> 's" where
  "serve zod S ctx path v s =
     (case map_of appRouter path of None \<Rightarrow> (Inl (errorFormatter (refused_with NOT_FOUND None)), s)
      | Some p \<Rightarrow> (case call_procedure zod S ctx p v s of
            (Inl e, s') \<Rightarrow> (Inl (errorFormatter e), s') | (Inr r, s') \<Rightarrow> (Inr r, s')))"

end
