(* ===== verification/TransportProperties.thy ===== *)
theory TransportProperties
  imports Routers AccountFacts Walkthrough
begin

text \<open>Whom procedures run for, and what clients see of their errors.\<close>

section \<open>Builders\<close>


lemma guarded_Inr:
  "guarded acc ctx = Inr () \<longleftrightarrow> ctx_principal ctx \<noteq> Anonymous \<or> acc = PublicAccess \<or>
     (acc = OperatorReport \<and> ctx_revoked ctx \<noteq> None)"
  by (auto simp: guarded_def Let_def)

text \<open>What each builder asks of the caller it admits_caller.\<close>

definition admits_caller :: "builder \<Rightarrow> principal \<Rightarrow> bool" where
  "admits_caller b p \<longleftrightarrow> (case b of PublicProcedure \<Rightarrow> True | AuthenticatedProcedure \<Rightarrow> True
     | OrganiserProcedure \<Rightarrow> is_organiser p | OperatorProcedure \<Rightarrow> is_operator p
     | HolderProcedure \<Rightarrow> is_holder p | ReviewerProcedure \<Rightarrow> is_reviewer p
     | ReportingOperatorProcedure \<Rightarrow> True)"

lemma authenticatedProcedure_Inr:
  "authenticatedProcedure ctx = Inr who \<Longrightarrow> \<exists>x. ctx_session ctx = Some (fst who, x) \<and> snd who = None"
  by (auto simp: authenticatedProcedure_def and_then_Inr_iff split: option.splits)

lemma only_Inr:
  assumes "only kind ctx = Inr who"
  shows "kind (fst who) \<and> (\<exists>x. ctx_session ctx = Some (fst who, x)) \<and> snd who = None"
proof -
  from assms have "authenticatedProcedure ctx = Inr who" "kind (fst who)"
    by (auto simp: only_def and_then_Inr_iff split: if_splits)
  with authenticatedProcedure_Inr show ?thesis by blast
qed

lemma admit_Inr:
  assumes "admit b ctx = Inr who"
  shows "admits_caller b (fst who) \<and>
    (b = PublicProcedure \<and> fst who = ctx_principal ctx \<and> snd who = None \<or>
     (\<exists>x. ctx_session ctx = Some (fst who, x)) \<and> snd who = None \<or>
     b = ReportingOperatorProcedure \<and> ctx_session ctx = None \<and>
       (\<exists>t. ctx_revoked ctx = Some (fst who, t) \<and> snd who = Some t)) \<and>
    (b = ReportingOperatorProcedure \<longrightarrow> snd who = None \<longrightarrow> is_operator (fst who))"
proof (cases b)
  case PublicProcedure
  with assms show ?thesis by (auto simp: admit_def publicProcedure_def and_then_Inr_iff admits_caller_def)
next
  case AuthenticatedProcedure
  with assms show ?thesis using authenticatedProcedure_Inr by (fastforce simp: admit_def admits_caller_def)
next
  case ReportingOperatorProcedure
  with assms show ?thesis
    by (auto simp: admit_def reportingOperatorProcedure_def and_then_Inr_iff admits_caller_def
        split: option.splits if_splits)
next
  case OrganiserProcedure
  with assms have "only is_organiser ctx = Inr who" by (simp add: admit_def organiserProcedure_def)
  from only_Inr[OF this] OrganiserProcedure show ?thesis by (simp add: admits_caller_def)
next
  case OperatorProcedure
  with assms have "only is_operator ctx = Inr who" by (simp add: admit_def operatorProcedure_def)
  from only_Inr[OF this] OperatorProcedure show ?thesis by (simp add: admits_caller_def)
next
  case HolderProcedure
  with assms have "only is_holder ctx = Inr who" by (simp add: admit_def holderProcedure_def)
  from only_Inr[OF this] HolderProcedure show ?thesis by (simp add: admits_caller_def)
next
  case ReviewerProcedure
  with assms have "only is_reviewer ctx = Inr who" by (simp add: admit_def reviewerProcedure_def)
  from only_Inr[OF this] ReviewerProcedure show ?thesis by (simp add: admits_caller_def)
qed

section \<open>Contexts\<close>

text \<open>The callers a token may act for: a live session's principal, or a revoked operator.\<close>

lemma createContext_session:
  "ctx_session (createContext E header rid at a at' a') = Some (p, x) \<Longrightarrow>
     \<exists>t. bearerToken header = Some t \<and> authenticate E t at a = Some (p, x)"
  by (auto simp: createContext_def Let_def bind_eq_Some_conv)

lemma createContext_principal:
  "ctx_principal (createContext E header rid at a at' a') =
     (case ctx_session (createContext E header rid at a at' a') of None \<Rightarrow> Anonymous | Some (p, _) \<Rightarrow> p)"
  by (simp add: createContext_def Let_def)

lemma createContext_revoked:
  "ctx_revoked (createContext E header rid at a at' a') = Some (p, r) \<Longrightarrow>
     \<exists>t. bearerToken header = Some t \<and> authenticateRevokedOperator E t at' a' = Some (p, r)"
  by (auto simp: createContext_def Let_def split: if_split_asm)

lemma authenticateRevokedOperator_Some:
  assumes "authenticateRevokedOperator E token at a = Some (p, t)"
  shows "is_operator p \<and> t > at - REVOKED_OPERATOR_REPORTING_MS"
proof -
  from assms obtain r where r: "find (revoked_operator (hashSecret E token) (at - REVOKED_OPERATOR_REPORTING_MS)) (sessions a) = Some r"
    "session_revoked r = Some t" "p = principal_of_session r"
    by (auto simp: authenticateRevokedOperator_def bind_eq_Some_conv)
  from find_Some_in[OF r(1)] r(2,3) show ?thesis
    by (auto simp: revoked_operator_def principal_of_session_def is_operator_def split: session_principal.splits)
qed



section \<open>The routes\<close>

lemma mount_all: "list_all (\<lambda>(_, p). P p) (mount name rs) \<longleftrightarrow> list_all (\<lambda>(_, p). P p) rs"
  by (simp add: mount_def list_all_iff case_prod_beta)

definition not_reporting :: "procedure \<Rightarrow> bool" where
  "not_reporting p \<longleftrightarrow> pr_builder p \<noteq> ReportingOperatorProcedure"

named_theorems route_simps

lemma not_reporting_route [route_simps]:
  "not_reporting (query b i service m) \<longleftrightarrow> b \<noteq> ReportingOperatorProcedure"
  "not_reporting (mutation b i service m) \<longleftrightarrow> b \<noteq> ReportingOperatorProcedure"
  by (simp_all add: not_reporting_def query_def mutation_def)

lemma not_reporting_events: "list_all (\<lambda>(_, p). not_reporting p) eventsRouter"
  by (simp add: eventsRouter_def mount_all route_simps zonesRouter_def classesRouter_def ticketsRouter_def
      invitationsRouter_def organiserCapacityProofsRouter_def)

lemma not_reporting_auth: "list_all (\<lambda>(_, p). not_reporting p) authRouter"
  by (simp add: authRouter_def mount_all route_simps organiserRouter_def operatorRouter_def holderRouter_def
      sessionRouter_def)

lemma not_reporting_reviewers: "list_all (\<lambda>(_, p). not_reporting p) reviewersRouter"
  by (simp add: reviewersRouter_def mount_all route_simps reviewerCapacityProofsRouter_def)

lemma not_reporting_reads: "list_all (\<lambda>(_, p). not_reporting p) derivedRouter"
  by (simp add: derivedRouter_def mount_all route_simps)

lemma not_reporting_metadata: "list_all (\<lambda>(_, p). not_reporting p) metadataRouter"
  by (simp add: metadataRouter_def mount_all route_simps)

lemma not_reporting_sales: "list_all (\<lambda>(_, p). not_reporting p) salesRouter"
  by (simp add: salesRouter_def checkoutRouter_def mount_all route_simps)

lemma not_reporting_system: "list_all (\<lambda>(_, p). not_reporting p) systemRouter"
  by (simp add: systemRouter_def route_simps)

lemma reporting_operators:
  "list_all (\<lambda>(path, p). not_reporting p \<or> path = ''reportAdmission'') operatorsRouter"
  by (simp add: operatorsRouter_def mount_def route_simps)

lemma only_reports_admit_revoked:
  assumes "(path, p) \<in> set appRouter" "pr_builder p = ReportingOperatorProcedure"
  shows "path = ''operators.reportAdmission''"
proof -
  have none: "(path, p) \<notin> set (mount name rs)" if "list_all (\<lambda>(_, p). not_reporting p) rs" for name rs
  proof -
    from that have "list_all (\<lambda>(_, p). not_reporting p) (mount name rs)" by (simp only: mount_all)
    with assms(2) show ?thesis by (auto simp: list_all_iff not_reporting_def)
  qed
  from assms(1) have "(path, p) \<in> set (mount ''operators'' operatorsRouter)"
    using none[OF not_reporting_system] none[OF not_reporting_auth] none[OF not_reporting_events]
      none[OF not_reporting_metadata] none[OF not_reporting_reads] none[OF not_reporting_sales]
      none[OF not_reporting_reviewers]
    unfolding appRouter_def by simp
  then obtain k where k: "path = ''operators'' @ ''.'' @ k" "(k, p) \<in> set operatorsRouter"
    by (auto simp: mount_def)
  with reporting_operators assms(2) show ?thesis by (auto simp: list_all_iff not_reporting_def)
qed





definition gate_token :: string where "gate_token = ''abcdefghijklmnop''"

definition gate_header :: "string option" where "gate_header = Some (''Bearer '' @ gate_token)"

definition gate_accounts :: accounts where
  "gate_accounts = no_accounts\<lparr>sessions := [\<lparr>session_id = ''session'', session_token = hashSecret walk_env gate_token,
     session_for = ForOperator ''op'' ''org'', session_created = 0, session_expires = 100, session_revoked = None\<rparr>]\<rparr>"










section \<open>Errors\<close>



lemma formatted_refused:
  "errorFormatter (refused_with t r) = \<lparr>ce_code = TransportClass t, ce_errorCode = None, ce_reason = r, ce_own_message = True\<rparr>"
  by (simp add: errorFormatter_def refused_with_def split: option.split)

lemma formatted_internal:
  "errorFormatter internal_error = \<lparr>ce_code = InternalServerError, ce_errorCode = None, ce_reason = None, ce_own_message = False\<rparr>"
  by (simp add: errorFormatter_def internal_error_def)

text \<open>A client error with no code of the specification, that shows nothing of an internal one.\<close>

definition plain_error :: "client_error \<Rightarrow> bool" where
  "plain_error e \<longleftrightarrow> ce_errorCode e = None \<and>
     (ce_code e = InternalServerError \<longrightarrow> ce_reason e = None \<and> \<not> ce_own_message e)"

lemma plain_refused [simp]: "plain_error (errorFormatter (refused_with t r))"
  by (simp add: plain_error_def formatted_refused)

lemma plain_internal [simp]: "plain_error (errorFormatter internal_error)"
  by (simp add: plain_error_def formatted_internal)

text \<open>What a router's mapping may do with what a service threw.\<close>

definition maps_well :: "(thrown \<Rightarrow> trpc_error) \<Rightarrow> bool" where
  "maps_well m \<longleftrightarrow> (\<forall>e. plain_error (errorFormatter (m e)) \<or>
     (\<exists>c r. e = Failed (SpecCodeError c r) \<and> m e = toTRPCError c r))"

lemma maps_well_all [route_simps]:
  "maps_well mapped" "maps_well sales_mapped" "maps_well metadata_mapped" "maps_well page_mapped"
  "maps_well auth_mapped" "maps_well reviewer_mapped" "maps_well unmapped"
proof -
  have provider: "plain_error (errorFormatter \<lparr>te_code = ServiceUnavailable, te_cause = OtherCause\<rparr>)"
    by (simp add: plain_error_def errorFormatter_def)
  show "maps_well mapped" "maps_well metadata_mapped" "maps_well page_mapped" "maps_well auth_mapped"
    "maps_well reviewer_mapped" "maps_well unmapped"
    by (auto simp: maps_well_def mapped_def metadata_mapped_def page_mapped_def auth_mapped_def
        reviewer_mapped_def unmapped_def split: thrown.splits failure.splits)
  show "maps_well sales_mapped"
    using provider by (auto simp: maps_well_def sales_mapped_def split: thrown.splits failure.splits)
qed

lemma maps_well_route [route_simps]:
  "pr_maps (query b i service m) = m" "pr_maps (mutation b i service m) = m"
  by (simp_all add: query_def mutation_def)





section \<open>Revoked operators\<close>

lemma locked_out_authenticates_nobody:
  assumes "locked_out i since a" "since \<le> t"
  shows "authenticate E token t a \<noteq> Some (Operator i org sid, x)"
proof
  assume "authenticate E token t a = Some (Operator i org sid, x)"
  then obtain r where r: "find (session_live a (hashSecret E token) t) (sessions a) = Some r"
    "principal_of_session r = Operator i org sid"
    unfolding authenticate_def by auto
  then have "r \<in> set (sessions a)" "session_revoked r = None" "session_expires r > t"
    using find_Some_in [OF r(1)] by (auto simp: session_live_def)
  moreover have "operator_session i r"
    using r(2) by (auto simp: principal_of_session_def operator_session_def split: session_principal.splits)
  ultimately show False using assms by (auto simp: locked_out_def)
qed

text \<open>
  Once an organiser revokes an operator's sessions, and as long as it issues the operator no
  new code, no token reaches any procedure of the API as that operator, whatever ran
  meanwhile, except to report an admission, within 24 hours of a revocation.
\<close>

lemma revoked_operator_only_reports:
  assumes "revokeSessions org i at a = Inr (n, a1)" "account_steps E T a1 a2"
    and "codes_issued i a2 = codes_issued i a1" "at \<le> t" "(path, p) \<in> set appRouter"
    and "admit (pr_builder p) (createContext E header rid t a2 t' a') = Inr (Operator i org' sid, r)"
  shows "path = ''operators.reportAdmission'' \<and> (\<exists>revoked. r = Some revoked \<and> revoked > t' - REVOKED_OPERATOR_REPORTING_MS)"
proof -
  let ?ctx = "createContext E header rid t a2 t' a'"
  have "locked_out i at a2" by (rule steps_locked_out [OF assms(2) revoke_locks_out [OF assms(1)] assms(3)])
  note out = locked_out_authenticates_nobody[OF this assms(4)]
  have no_session: "ctx_session ?ctx \<noteq> Some (Operator i org' sid, x)" for x
    using createContext_session out by blast
  then have "ctx_principal ?ctx \<noteq> Operator i org' sid"
    by (auto simp: createContext_principal split: option.splits)
  with admit_Inr[OF assms(6)] no_session obtain revoked where b: "pr_builder p = ReportingOperatorProcedure"
    and r: "r = Some revoked" "ctx_revoked ?ctx = Some (Operator i org' sid, revoked)" by auto
  from createContext_revoked[OF r(2)] authenticateRevokedOperator_Some only_reports_admit_revoked[OF assms(5) b] r(1)
  show ?thesis by blast
qed

definition staffed_accounts :: accounts where
  "staffed_accounts = gate_accounts\<lparr>operators :=
     [\<lparr>operator_id = ''op'', operator_organiser = ''org'', operator_name = ''Gate'', operator_created = 0\<rparr>]\<rparr>"

definition revoked_accounts :: accounts where
  "revoked_accounts = snd (projr (revokeSessions ''org'' ''op'' 60 staffed_accounts))"

lemma report_route: "\<exists>p. (''operators.reportAdmission'', p) \<in> set appRouter \<and> pr_builder p = ReportingOperatorProcedure"
proof -
  have "(''reportAdmission'', mutation ReportingOperatorProcedure (Some admissionReportInput) ''operators.reportAdmission'' mapped)
      \<in> set operatorsRouter"
    by (simp add: operatorsRouter_def)
  then have "(''operators.reportAdmission'', mutation ReportingOperatorProcedure (Some admissionReportInput) ''operators.reportAdmission'' mapped)
      \<in> set (mount ''operators'' operatorsRouter)"
    unfolding mount_def by force
  then show ?thesis unfolding appRouter_def by (force simp: mutation_def)
qed

lemma revoked_operator_only_reports_witness:
  "\<exists>p. (''operators.reportAdmission'', p) \<in> set appRouter \<and>
     admit (pr_builder p) (createContext walk_env gate_header ''request'' 70 revoked_accounts 70 revoked_accounts) =
       Inr (Operator ''op'' ''org'' ''session'', Some 60) \<and> (60 :: time) > 70 - REVOKED_OPERATOR_REPORTING_MS"
proof -
  let ?ctx = "createContext walk_env gate_header ''request'' 70 revoked_accounts 70 revoked_accounts"
  from report_route obtain p where p: "(''operators.reportAdmission'', p) \<in> set appRouter"
    "pr_builder p = ReportingOperatorProcedure" by blast
  have ctx: "?ctx = \<lparr>ctx_request = ''request'', ctx_session = None, ctx_principal = Anonymous,
      ctx_revoked = Some (Operator ''op'' ''org'' ''session'', 60)\<rparr>"
    by code_simp
  have admitted: "admit (pr_builder p) ?ctx = Inr (Operator ''op'' ''org'' ''session'', Some 60)"
    unfolding ctx p(2) by (simp add: admit_def reportingOperatorProcedure_def guarded_def Let_def)
  have "\<not> isl (revokeSessions ''org'' ''op'' 60 staffed_accounts)" by code_simp
  then obtain n where "revokeSessions ''org'' ''op'' 60 staffed_accounts = Inr (n, revoked_accounts)"
    by (cases "revokeSessions ''org'' ''op'' 60 staffed_accounts") (auto simp: revoked_accounts_def)
  from revoked_operator_only_reports[OF this rtranclp.rtrancl_refl refl _ p(1) admitted] admitted p(1)
  show ?thesis by auto
qed

end
