(* ===== verification/EventAdministration.thy ===== *)
theory EventAdministration
  imports Authority LedgerBoundary Reads Issuance
begin

text \<open>
  What else an organiser does to events: creating them (\<open>src/events/create-event.ts\<close>), freeing a
  granted ticket (\<open>src/events/restrictions.ts\<close>) and listing invitations
  (\<open>src/events/invitations.ts\<close>).  The profile's derivation of an event's identifier and what the
  SDK makes of a command are parameters.
\<close>

section \<open>An organiser's signer\<close>

text \<open>
  The account an organiser's writes are signed for: provisioned first, with its key in the KMS.
\<close>

definition organiser_signer ::
  "libraries \<Rightarrow> registration_profile \<Rightarrow> ident \<Rightarrow> request \<Rightarrow> (string \<times> kms_key) option \<Rightarrow> written \<Rightarrow> time \<Rightarrow>
     authority_state \<times> store \<Rightarrow> (failure + ident) \<times> authority_state \<times> store" where
  "organiser_signer K R org req drawn registering at x =
     (case provision K R org req drawn registering at x of (Inl e, a, s) \<Rightarrow> (Inl e, a, s)
      | (Inr _, a, s) \<Rightarrow> (case read_account org a of None \<Rightarrow> (Inl OtherError, a, s)
          | Some row \<Rightarrow> (case keyOf (la_key_ref row) a of Inl e \<Rightarrow> (Inl e, a, s)
              | Inr k \<Rightarrow> (case l_account K (publicKey k) of None \<Rightarrow> (Inl OtherError, a, s)
                  | Some acc \<Rightarrow> (Inr acc, a, s)))))"

text \<open>What the SDK answers to a command, behind the allow list: a field not listed throws.\<close>

definition sdk_answer :: "(sdk_call \<Rightarrow> 'r) \<Rightarrow> string \<Rightarrow> js_value \<Rightarrow> failure + 'r" where
  "sdk_answer sdk kind input = (case fst (ticketto_write (\<lambda>c u. (sdk c, u)) kind input ()) of
     Inl _ \<Rightarrow> Inl OtherError | Inr r \<Rightarrow> Inr r)"

section \<open>Creating an event\<close>

text \<open>The salt, 32 random bytes, is drawn by the caller.\<close>

record event_input =
  ci_zones :: "zone list"
  ci_capacity :: "int option"
  ci_asset :: "asset option"

definition zone_value :: "zone \<Rightarrow> js_value" where
  "zone_value z = JsObject [(''id'', JsString (zone_id z)),
     (''kind'', JsString (case zone_kind z of SeatedZone \<Rightarrow> ''Seated'' | UnseatedZone \<Rightarrow> ''Unseated''))]"

definition create_command :: "string \<Rightarrow> event_input \<Rightarrow> string \<Rightarrow> js_value" where
  "create_command salt inp locator = JsObject [(''salt'', JsBytes salt),
     (''zones'', JsArray (map zone_value (ci_zones inp))),
     (''capacity'', case ci_capacity inp of None \<Rightarrow> JsNull | Some c \<Rightarrow> JsNumber (Whole c)),
     (''metadata'', JsString locator)]"

text \<open>The columns of \<open>organiser_events\<close> beyond the store's pair of event and organiser.\<close>

record created_event =
  oe_event :: ident
  oe_organiser :: ident
  oe_operation :: ident
  oe_request :: ident
  oe_cursor :: ident
  oe_created_at :: time
  oe_locator :: string

record creation_state =
  cs_authority :: authority_state
  cs_store :: store
  cs_created :: "created_event list"

text \<open>
  The profile's derivation, the parser of URLs, the public origin, and what the SDK makes of a
  creation: the identifier it derives, and the write.
\<close>

record creation_setting =
  derive_id :: "ident \<Rightarrow> string \<Rightarrow> ident"
  parse_origin :: "string \<Rightarrow> url option"
  meta_origin :: string
  sdk_create :: "ident \<Rightarrow> sdk_call \<Rightarrow> ident \<times> written"

text \<open>
  The write handed to the relay, for the signer's account.  It throws when the SDK derives
  another identifier, with the command on its way already.
\<close>

definition creation_write ::
  "creation_setting \<Rightarrow> string \<Rightarrow> event_input \<Rightarrow> ident \<Rightarrow> (failure + ident \<times> string) \<times> written" where
  "creation_write D salt inp acc = (let i = derive_id D acc salt in
     case eventLocator (parse_origin D) i (meta_origin D) of None \<Rightarrow> (Inl OtherError, NotWritten OtherError)
     | Some locator \<Rightarrow> (case sdk_answer (sdk_create D acc) ''createEvent'' (create_command salt inp locator) of
           Inl e \<Rightarrow> (Inl e, NotWritten e)
         | Inr (derived, w) \<Rightarrow>
             if derived \<noteq> i then (Inl OtherError, w) else (Inr (derived, locator), w)))"

text \<open>The row of a command signed whose outcome nobody waits for.\<close>

definition abandoned_write :: "request \<Rightarrow> string \<Rightarrow> written \<Rightarrow> time \<Rightarrow> store \<Rightarrow> store" where
  "abandoned_write req kind w at s = (case w of NotWritten _ \<Rightarrow> s
     | Written oper _ \<Rightarrow> (case audit_record req oper kind at s of Inl _ \<Rightarrow> s | Inr s' \<Rightarrow> s')
     | WrittenUncompleted oper _ \<Rightarrow> (case audit_record req oper kind at s of Inl _ \<Rightarrow> s | Inr s' \<Rightarrow> s'))"

text \<open>
  The row of an event created: the first that names the event stands.  The identifiers and the
  locator fit the schema's patterns, being those of a locator made.
\<close>

definition link_event :: "created_event \<Rightarrow> creation_state \<Rightarrow> failure + creation_state" where
  "link_event row y =
     (if exists_where (\<lambda>r. oe_event r = oe_event row) (cs_created y) then Inr y
      else if exists_where (\<lambda>r. oe_operation r = oe_operation row) (cs_created y) \<or>
              oe_organiser row \<notin> set (known_organisers (cs_authority y)) then Inl StoreError
      else Inr (y\<lparr>cs_created := cs_created y @ [row],
             cs_store := (cs_store y)\<lparr>organiser_events :=
               organiser_events (cs_store y) @ [(oe_event row, oe_organiser row)]\<rparr>\<rparr>))"

definition recordAtCreation ::
  "ident \<Rightarrow> ident \<Rightarrow> ident \<Rightarrow> asset option \<Rightarrow> time \<Rightarrow> creation_state \<Rightarrow> creation_state" where
  "recordAtCreation org rid e chosen_asset at y = (case chosen_asset of None \<Rightarrow> y
     | Some a \<Rightarrow> y\<lparr>cs_store := upsert_asset org rid e a at (cs_store y)\<rparr>)"

definition createEventWith ::
  "libraries \<Rightarrow> registration_profile \<Rightarrow> creation_setting \<Rightarrow> ident \<Rightarrow> request \<Rightarrow> event_input \<Rightarrow>
     (string \<times> kms_key) option \<Rightarrow> written \<Rightarrow> string \<Rightarrow> time \<Rightarrow> creation_state \<Rightarrow>
     (failure + ident \<times> ident) \<times> creation_state" where
  "createEventWith K R D org req inp drawn registering salt at y =
     (let (v, a, s) = organiser_signer K R org req drawn registering at (cs_authority y, cs_store y);
          y1 = y\<lparr>cs_authority := a, cs_store := s\<rparr> in
      case v of Inl e \<Rightarrow> (Inl e, y1)
      | Inr acc \<Rightarrow> (case creation_write D salt inp acc of
            (Inl e, w) \<Rightarrow> (Inl e, y1\<lparr>cs_store := abandoned_write req ''createEvent'' w at s\<rparr>)
          | (Inr (i, locator), w) \<Rightarrow>
              (let (u, s2) = relay_write req ''createEvent'' w at s; y2 = y1\<lparr>cs_store := s2\<rparr> in
               case u of Inl e \<Rightarrow> (Inl e, y2)
               | Inr (Inl c) \<Rightarrow> (Inl (SpecCodeError c None), y2)
               | Inr (Inr rc) \<Rightarrow>
                   (case link_event \<lparr>oe_event = i, oe_organiser = org, oe_operation = operationId rc,
                       oe_request = requestId req, oe_cursor = cursor rc, oe_created_at = at,
                       oe_locator = locator\<rparr> y2 of
                      Inl e \<Rightarrow> (Inl e, y2)
                    | Inr y3 \<Rightarrow> (Inr (i, cursor rc),
                        recordAtCreation org (requestId req) i (ci_asset inp) at y3)))))"

section \<open>Removing a restriction\<close>

datatype restriction_flag = RemoveCannotResale | RemoveCannotTransfer

record restriction_input =
  rr_event :: ident
  rr_ticket :: ident
  rr_restriction :: restriction_flag

definition restriction_command :: "restriction_input \<Rightarrow> js_value" where
  "restriction_command inp = JsObject [(''event'', JsString (rr_event inp)),
     (''ticket'', JsString (rr_ticket inp)),
     (''restriction'', JsString (case rr_restriction inp of RemoveCannotResale \<Rightarrow> ''cannotResale''
        | RemoveCannotTransfer \<Rightarrow> ''cannotTransfer''))]"

text \<open>
  \<open>sdk\<close> is what the SDK makes of the command for an account, and \<open>after\<close> the ticket's
  restrictions as the ledger has them once the write has settled.
\<close>

definition removeRestrictionWith ::
  "libraries \<Rightarrow> registration_profile \<Rightarrow> ledger \<Rightarrow> (ident \<Rightarrow> sdk_call \<Rightarrow> written) \<Rightarrow>
     (ident \<Rightarrow> code + bool \<times> bool) \<Rightarrow> ident \<Rightarrow> request \<Rightarrow> restriction_input \<Rightarrow>
     (string \<times> kms_key) option \<Rightarrow> written \<Rightarrow> time \<Rightarrow> authority_state \<times> store \<Rightarrow>
     (failure + (bool \<times> bool) \<times> ident) \<times> authority_state \<times> store" where
  "removeRestrictionWith K R L sdk after org req inp drawn registering at x =
     (case ownedEvent L (snd x) org (rr_event inp) of Inl e \<Rightarrow> (Inl e, x)
      | Inr _ \<Rightarrow> (case organiser_signer K R org req drawn registering at x of
          (Inl e, a, s) \<Rightarrow> (Inl e, a, s)
        | (Inr acc, a, s) \<Rightarrow>
            (case sdk_answer (sdk acc) ''removeRestriction'' (restriction_command inp) of
               Inl e \<Rightarrow> (Inl e, a, s)
             | Inr w \<Rightarrow> (let (u, s1) = relay_write req ''removeRestriction'' w at s in
                 (and_then (settledOrThrow u) (\<lambda>cur. case after (rr_ticket inp) of
                    Inl c \<Rightarrow> Inl (SpecCodeError c None) | Inr rs \<Rightarrow> Inr (rs, cur)), a, s1)))))"

section \<open>Listing invitations\<close>

text \<open>
  Invitations of an event, oldest first, of one class if one is given; what is shown of each
  leaves out its token's hash and who made it.
\<close>

record invitation_view =
  iv_id :: ident
  iv_event :: ident
  iv_class :: ident
  iv_zone :: ident
  iv_placement :: placement
  iv_guest :: "string option"
  iv_status :: invitation_status
  iv_holder :: "ident option"
  iv_ticket :: "ident option"
  iv_created_at :: time
  iv_redeemed_at :: "time option"

definition invitationOf :: "invitation_row \<Rightarrow> invitation_view" where
  "invitationOf r = \<lparr>iv_id = inv_id r, iv_event = inv_event r, iv_class = inv_class r, iv_zone = inv_zone r,
     iv_placement = inv_placement r, iv_guest = inv_guest r, iv_status = inv_status r,
     iv_holder = inv_holder r, iv_ticket = inv_ticket r, iv_created_at = inv_created_at r,
     iv_redeemed_at = inv_redeemed_at r\<rparr>"

definition list_invitations ::
  "ledger \<Rightarrow> ident \<Rightarrow> ident \<Rightarrow> ident option \<Rightarrow> store \<Rightarrow> failure + invitation_view list" where
  "list_invitations L org e k s = and_then (ownedEvent L s org e) (\<lambda>_.
     Inr (map invitationOf (sort_key (\<lambda>r. (inv_created_at r, inv_id r))
       (filter (\<lambda>r. inv_event r = e \<and> (k = None \<or> k = Some (inv_class r))) (invitations s)))))"

section \<open>What creating an event leaves\<close>

text \<open>The commands made here are of the shape the boundary lists, whatever they carry.\<close>

lemma sdk_answer_conforming:
  assumes "map_of COMMAND_INPUT_ALLOW_LIST kind = Some spec" "conforms input spec"
  shows "sdk_answer sdk kind input = Inr (sdk (SdkCommand kind input))"
  using assms assert_iff(1) [of input spec kind] by (simp add: sdk_answer_def ticketto_write_def)

lemma create_command_allowed: "sdk_answer sdk ''createEvent'' (create_command salt inp locator) =
    Inr (sdk (SdkCommand ''createEvent'' (create_command salt inp locator)))"
proof -
  have "conforms (create_command salt inp locator)
      (Fields [(''salt'', Leaf), (''zones'', ListOf zone_fields), (''capacity'', Leaf), (''metadata'', Leaf)])"
    by (auto simp: create_command_def zone_value_def zone_fields_def conforms_simps is_container_def
        split: option.splits)
  then show ?thesis by (rule sdk_answer_conforming [rotated]) (simp add: COMMAND_INPUT_ALLOW_LIST_def)
qed

lemma restriction_command_allowed: "sdk_answer sdk ''removeRestriction'' (restriction_command inp) =
    Inr (sdk (SdkCommand ''removeRestriction'' (restriction_command inp)))"
proof -
  have "conforms (restriction_command inp) (Fields [(''event'', Leaf), (''ticket'', Leaf), (''restriction'', Leaf)])"
    by (auto simp: restriction_command_def conforms_simps is_container_def)
  then show ?thesis by (rule sdk_answer_conforming [rotated]) (simp add: COMMAND_INPUT_ALLOW_LIST_def)
qed

text \<open>
  A write relayed that settles leaves one row, attributed to the request, settled too unless the
  database failed after the verdict.
\<close>

definition settled_write :: "written \<Rightarrow> ident \<Rightarrow> receipt \<Rightarrow> bool" where
  "settled_write w oper rc \<longleftrightarrow> w = Written oper (Settled rc) \<or> w = WrittenUncompleted oper (Settled rc)"

definition settled_row :: "request \<Rightarrow> string \<Rightarrow> written \<Rightarrow> receipt \<Rightarrow> time \<Rightarrow> ident \<Rightarrow> log_row" where
  "settled_row req kind w rc at oper = (if w = Written oper (Settled rc)
     then outcome_row (Settled rc) at (log_entry req oper kind at) else log_entry req oper kind at)"

lemma relay_write_settled:
  assumes "relay_write req kind w at s = (Inr (Inr rc), s')"
  obtains oper where "settled_write w oper rc"
    "s' = s\<lparr>audit_log := audit_log s @ [settled_row req kind w rc at oper]\<rparr>"
proof -
  have verdict: "fst (relay_write req kind w at s) = Inr (Inr rc)" using assms by simp
  obtain sub where sub: "sent_command w s = Some sub" "verdict_of sub = Inr (Inr rc)"
    using relay_write_verdict [OF verdict] .
  then have "sub = Settled rc" by (cases sub) (simp_all add: verdict_of_def)
  with relay_write_sent [OF sub(1), of req kind at] assms that show ?thesis
    unfolding settled_write_def settled_row_def by (elim exE disjE conjE) auto
qed

lemma relay_write_tables:
  "organiser_events (snd (relay_write req kind w at s)) = organiser_events s"
  by (auto simp: relay_write_def audit_record_def audit_complete_def Let_def split: written.splits sum.splits)

lemma provision_tables:
  "provision K R org req drawn w at (a, s) = (v, a', s') \<Longrightarrow> organiser_events s' = organiser_events s"
  using relay_write_tables [of req "''registerCredential''" w at s]
  by (auto simp: provision_def provision_sent_def Let_def split: prod.splits sum.splits option.splits if_splits)

lemma organiser_signer_tables:
  "organiser_signer K R org req drawn w at (a, s) = (v, a', s') \<Longrightarrow> organiser_events s' = organiser_events s"
  by (auto simp: organiser_signer_def dest: provision_tables split: prod.splits sum.splits option.splits)

text \<open>The two tables name the same events of the same organisers.\<close>

definition events_linked :: "creation_state \<Rightarrow> bool" where
  "events_linked y \<longleftrightarrow> organiser_events (cs_store y) = map (\<lambda>r. (oe_event r, oe_organiser r)) (cs_created y) \<and>
     distinct (map oe_event (cs_created y)) \<and> distinct (map oe_operation (cs_created y))"

lemma link_event_linked:
  assumes "link_event row y = Inr y'" "events_linked y"
  shows "events_linked y' \<and> (\<exists>r \<in> set (cs_created y'). oe_event r = oe_event row) \<and>
    (oe_event row \<notin> oe_event ` set (cs_created y) \<longrightarrow> row \<in> set (cs_created y'))"
proof (cases "exists_where (\<lambda>r. oe_event r = oe_event row) (cs_created y)")
  case True
  with assms(1) have "y' = y" by (simp add: link_event_def)
  moreover from True obtain r where r: "r \<in> set (cs_created y)" "oe_event r = oe_event row"
    by (auto simp: exists_where_iff)
  moreover from r have "oe_event row \<in> oe_event ` set (cs_created y)" by (metis image_eqI)
  ultimately show ?thesis using assms(2) by blast
next
  case False
  with assms(1) have "y' = y\<lparr>cs_created := cs_created y @ [row], cs_store := (cs_store y)\<lparr>organiser_events :=
      organiser_events (cs_store y) @ [(oe_event row, oe_organiser row)]\<rparr>\<rparr>"
    "\<forall>r \<in> set (cs_created y). oe_operation r \<noteq> oe_operation row"
    by (auto simp: link_event_def exists_where_iff split: if_splits)
  with False assms(2) show ?thesis by (auto simp: events_linked_def exists_where_iff)
qed

lemma abandoned_write_tables [simp]:
  "organiser_events (abandoned_write req kind w at s) = organiser_events s"
  by (auto simp: abandoned_write_def audit_record_def split: written.splits sum.splits)

lemma recordAtCreation_keeps [simp]:
  "cs_created (recordAtCreation org rid e chosen_asset at y) = cs_created y"
  "organiser_events (cs_store (recordAtCreation org rid e chosen_asset at y)) = organiser_events (cs_store y)"
  "audit_log (cs_store (recordAtCreation org rid e chosen_asset at y)) = audit_log (cs_store y)"
  by (simp_all add: recordAtCreation_def upsert_asset_def Let_def split: option.splits)

lemma events_linked_cong:
  "organiser_events (cs_store y') = organiser_events (cs_store y) \<Longrightarrow> cs_created y' = cs_created y \<Longrightarrow>
    events_linked y' = events_linked y"
  by (simp add: events_linked_def)

text \<open>
  An event created: its identifier is the one derived from the account and the salt, its locator
  names it, the ledger settled a command that carries that locator and the salt, its audit row is
  the request's, and an organiser is linked to it, this one unless another was.
\<close>

theorem created_event_is_linked:
  assumes run: "createEventWith K R D org req inp drawn registering salt at y = (Inr (i, cur), y')"
    and linked: "events_linked y"
  shows "events_linked y' \<and> (\<exists>acc locator oper rc w.
    i = derive_id D acc salt \<and> eventLocator (parse_origin D) i (meta_origin D) = Some locator \<and>
    sdk_create D acc (SdkCommand ''createEvent'' (create_command salt inp locator)) = (i, w) \<and> settled_write w oper rc \<and>
    cursor rc = cur \<and> last (audit_log (cs_store y')) = settled_row req ''createEvent'' w rc at oper \<and>
    (\<exists>r \<in> set (cs_created y'). oe_event r = i \<and>
       (i \<notin> oe_event ` set (cs_created y) \<longrightarrow> oe_organiser r = org \<and> oe_locator r = locator \<and> oe_cursor r = cur)))"
proof -
  obtain v a s where sig: "organiser_signer K R org req drawn registering at (cs_authority y, cs_store y) = (v, a, s)"
    by (metis prod_cases3)
  note sig' = organiser_signer_tables [OF sig]
  from run sig obtain acc where v: "v = Inr acc" by (cases v) (auto simp: createEventWith_def)
  obtain c w where call: "creation_write D salt inp acc = (c, w)" by fastforce
  from run sig v call obtain locator where c: "c = Inr (i, locator)"
    by (cases c) (auto simp: createEventWith_def Let_def split: prod.splits sum.splits)
  then have made: "i = derive_id D acc salt" "eventLocator (parse_origin D) i (meta_origin D) = Some locator"
    "sdk_create D acc (SdkCommand ''createEvent'' (create_command salt inp locator)) = (i, w)"
    using call by (auto simp: creation_write_def Let_def create_command_allowed split: option.splits sum.splits prod.splits if_splits)
  obtain u s2 where rel: "relay_write req ''createEvent'' w at s = (u, s2)" by fastforce
  from run sig v call c rel obtain rc where u: "u = Inr (Inr rc)"
    by (auto simp: createEventWith_def Let_def split: sum.splits)
  from relay_write_settled rel u obtain oper where w: "settled_write w oper rc"
    "s2 = s\<lparr>audit_log := audit_log s @ [settled_row req ''createEvent'' w rc at oper]\<rparr>" by metis
  let ?row = "\<lparr>oe_event = i, oe_organiser = org, oe_operation = operationId rc, oe_request = requestId req,
      oe_cursor = cursor rc, oe_created_at = at, oe_locator = locator\<rparr>"
  let ?y2 = "y\<lparr>cs_authority := a, cs_store := s2\<rparr>"
  from run sig v call c rel u obtain y3 where link: "link_event ?row ?y2 = Inr y3" and cur: "cursor rc = cur"
    and y': "y' = recordAtCreation org (requestId req) i (ci_asset inp) at y3"
    by (auto simp: createEventWith_def Let_def split: sum.splits)
  have "events_linked ?y2" using linked sig' w(2) by (simp add: events_linked_def)
  note new = link_event_linked [OF link this]
  moreover have "audit_log (cs_store y3) = audit_log s2" using link by (auto simp: link_event_def split: if_splits)
  ultimately have "events_linked y'" "last (audit_log (cs_store y')) = settled_row req ''createEvent'' w rc at oper"
    "\<exists>r \<in> set (cs_created y'). oe_event r = i \<and> (i \<notin> oe_event ` set (cs_created y) \<longrightarrow>
       oe_organiser r = org \<and> oe_locator r = locator \<and> oe_cursor r = cur)"
    using y' w(2) cur events_linked_cong [of y' y3]
    by (auto, metis (no_types, lifting) created_event.select_convs(2,5,7) created_event.select_convs(1))
  then show ?thesis using made w(1) cur by blast
qed

text \<open>A creation that fails links nothing.\<close>

lemma failed_creation_links_nothing:
  assumes "createEventWith K R D org req inp drawn registering salt at y = (Inl e, y')"
  shows "cs_created y' = cs_created y \<and> organiser_events (cs_store y') = organiser_events (cs_store y)"
proof -
  obtain v a s where sig: "organiser_signer K R org req drawn registering at (cs_authority y, cs_store y) = (v, a, s)"
    by (metis prod_cases3)
  show ?thesis using assms sig organiser_signer_tables [OF sig] relay_write_tables [of req "''createEvent''" _ at s]
    by (auto simp: createEventWith_def Let_def split: sum.splits prod.splits) (metis snd_conv)+
qed

lemma settledOrThrow_Inr: "settledOrThrow v = Inr cur \<longleftrightarrow> (\<exists>rc. v = Inr (Inr rc) \<and> cursor rc = cur)"
proof (cases v)
  case (Inr r)
  then show ?thesis by (cases r) (auto simp: settledOrThrow_def and_then_Inr_iff)
qed (simp add: settledOrThrow_def and_then_Inr_iff)

text \<open>Only an event's owner frees its tickets, and only once the ledger has.\<close>

lemma restriction_removed_by_owner:
  assumes "removeRestrictionWith K R L sdk after org req inp drawn registering at (a, s) = (Inr (rs, cur), a', s')"
  obtains ev acc rc oper where "getEvent L (rr_event inp) = Inr ev" "authority_account s org = Some (owner ev)"
    "settled_write (sdk acc (SdkCommand ''removeRestriction'' (restriction_command inp))) oper rc"
    "cursor rc = cur" "after (rr_ticket inp) = Inr rs"
    "last (audit_log s') = settled_row req ''removeRestriction'' (sdk acc (SdkCommand ''removeRestriction'' (restriction_command inp))) rc at oper"
proof -
  from assms obtain ev where own: "getEvent L (rr_event inp) = Inr ev" "authority_account s org = Some (owner ev)"
    by (auto simp: removeRestrictionWith_def ownedEvent_def split: sum.splits option.splits if_splits)
  then have owned: "ownedEvent L s org (rr_event inp) = Inr (ev, owner ev)" by (simp add: ownedEvent_def)
  obtain v a1 s1 where sig: "organiser_signer K R org req drawn registering at (a, s) = (v, a1, s1)"
    by (metis prod_cases3)
  from assms owned sig obtain acc where v: "v = Inr acc" by (cases v) (auto simp: removeRestrictionWith_def)
  obtain u s2 where rel: "relay_write req ''removeRestriction''
      (sdk acc (SdkCommand ''removeRestriction'' (restriction_command inp))) at s1 = (u, s2)" by fastforce
  from assms owned sig v rel obtain rc where u: "u = Inr (Inr rc)" "cursor rc = cur" "after (rr_ticket inp) = Inr rs" "s' = s2"
    by (cases "after (rr_ticket inp)")
      (auto simp: removeRestrictionWith_def restriction_command_allowed settledOrThrow_Inr and_then_Inr_iff split: sum.splits)
  from relay_write_settled rel u(1) obtain oper where
    "settled_write (sdk acc (SdkCommand ''removeRestriction'' (restriction_command inp))) oper rc"
    "s2 = s1\<lparr>audit_log := audit_log s1 @ [settled_row req ''removeRestriction'' (sdk acc (SdkCommand ''removeRestriction'' (restriction_command inp))) rc at oper]\<rparr>" by metis
  then show thesis using that own u by simp
qed

end
