(* ===== verification/SaleTrail.thy ===== *)
theory SaleTrail
  imports Operations
begin

text \<open>
  The trail of a primary sale (\<open>primarySaleTrail\<close>, \<open>src/sales/audit.ts\<close>): every step of its
  checkout in the order recorded, and the audit log's row of the issuance it relayed, the view
  \<open>primary_checkout_audit\<close> of \<open>migrations/0023\<close>.
\<close>

section \<open>The trail\<close>

record sale_trail =
  trail_checkout :: ident
  trail_sale :: ident
  trail_steps :: "audit_row list"
  trail_issuance :: "log_row option"

datatype trail_key = ByTicket ident | BySale ident

definition trail_matches :: "trail_key \<Rightarrow> sale_row \<Rightarrow> bool" where
  "trail_matches k x = (case k of ByTicket t \<Rightarrow> sale_ticket x = Some t | BySale i \<Rightarrow> sale_id x = i)"

text \<open>Sales joined with their holds.\<close>

definition sales_with_holds :: "store \<Rightarrow> (sale_row \<times> hold_row) list" where
  "sales_with_holds s = [(x, h). x \<leftarrow> primary_sales s, h \<leftarrow> holds s, hold_id h = sale_hold x]"

text \<open>The rows of the audit log that are issuances of primary sales, with the sale.\<close>

definition primary_checkout_audit :: "store \<Rightarrow> (log_row \<times> ident) list" where
  "primary_checkout_audit s = [(r, sale_id x). r \<leftarrow> audit_log s, (x, h) \<leftarrow> sales_with_holds s,
     operation_id x = Some (log_operation r)]"

definition primarySaleTrail :: "trail_key \<Rightarrow> store \<Rightarrow> sale_trail option" where
  "primarySaleTrail k s =
     map_option (\<lambda>(x, h). \<lparr>trail_checkout = hold_checkout h, trail_sale = sale_id x,
         trail_steps = filter (\<lambda>a. audit_checkout a = hold_checkout h) (checkout_audit s),
         trail_issuance = map_option fst (find (\<lambda>(r, i). i = sale_id x) (primary_checkout_audit s))\<rparr>)
       (find (\<lambda>(x, h). trail_matches k x) (sales_with_holds s))"

section \<open>What it shows\<close>

lemma in_sales_with_holds:
  "(x, h) \<in> set (sales_with_holds s) \<longleftrightarrow> x \<in> set (primary_sales s) \<and> h \<in> set (holds s) \<and> hold_id h = sale_hold x"
  by (auto simp: sales_with_holds_def)

lemma in_primary_checkout_audit:
  "(r, i) \<in> set (primary_checkout_audit s) \<longleftrightarrow> r \<in> set (audit_log s) \<and>
     (\<exists>x h. x \<in> set (primary_sales s) \<and> h \<in> set (holds s) \<and> hold_id h = sale_hold x \<and>
        sale_id x = i \<and> operation_id x = Some (log_operation r))"
  by (fastforce simp: primary_checkout_audit_def in_sales_with_holds)

text \<open>A step recorded goes to the end of its checkout's trail, and to no other.\<close>

lemma trail_of_recorded_step:
  "primarySaleTrail k (recordCheckoutStep c st cause at det s) =
     map_option (\<lambda>t. if trail_checkout t = c then t\<lparr>trail_steps := trail_steps t @
         [\<lparr>audit_checkout = c, audit_step = st, audit_request = cause_request cause,
           audit_actor = actor_kind (cause_actor cause), audit_session = actor_session (cause_actor cause),
           audit_holder = actor_holder (cause_actor cause), audit_detail = det, audit_recorded_at = at\<rparr>]\<rparr>
       else t) (primarySaleTrail k s)"
  by (cases "find (\<lambda>(x, h). trail_matches k x) (sales_with_holds s)")
    (auto simp: primarySaleTrail_def primary_checkout_audit_def sales_with_holds_def recordCheckoutStep_def)

text \<open>In a reachable store every sale has its trail: its checkout's steps and its own issuance.\<close>

lemma every_sale_has_its_trail:
  assumes "reachable E L s" "env_ok E" "x \<in> set (primary_sales s)"
  obtains t h where "primarySaleTrail (BySale (sale_id x)) s = Some t" "trail_sale t = sale_id x"
    "h \<in> set (holds s)" "hold_id h = sale_hold x" "trail_checkout t = hold_checkout h"
    "set (trail_steps t) = {a \<in> set (checkout_audit s). audit_checkout a = hold_checkout h}"
    "\<And>r. trail_issuance t = Some r \<Longrightarrow> r \<in> set (audit_log s) \<and> operation_id x = Some (log_operation r)"
proof -
  have inv: "distinct_keys (core_of s)" "sales_ok (core_of s)" "hosted_ok (core_of s)"
    using reachable_inv [OF assms(1,2)] by (simp_all add: sales_inv_def)
  obtain k where "k \<in> set (hosted_checkouts s)" "hosted_hold k = sale_hold x"
    using inv(2) assms(3) by (auto simp: sales_ok_def core_of_def)
  then obtain h where h: "h \<in> set (holds s)" "hold_id h = sale_hold x"
    using inv(3) by (fastforce simp: hosted_ok_def core_of_def)
  have unique: "y = x" if "y \<in> set (primary_sales s)" "sale_id y = sale_id x" for y
    using inv(1) that assms(3) by (auto simp: distinct_keys_def core_of_def dest: inj_onD simp: distinct_map)
  have "find (\<lambda>(y, k). trail_matches (BySale (sale_id x)) y) (sales_with_holds s) \<noteq> None"
    using assms(3) h by (auto simp: find_None_iff in_sales_with_holds trail_matches_def)
  then obtain y k where f: "find (\<lambda>(y, k). trail_matches (BySale (sale_id x)) y) (sales_with_holds s) = Some (y, k)"
    by auto
  then have "(y, k) \<in> set (sales_with_holds s)" "sale_id y = sale_id x"
    using find_Some_in by (fastforce simp: trail_matches_def)+
  then have y: "y = x" "k \<in> set (holds s)" "hold_id k = sale_hold x" using unique by (auto simp: in_sales_with_holds)
  let ?i = "find (\<lambda>(r, i). i = sale_id x) (primary_checkout_audit s)"
  have "r \<in> set (audit_log s) \<and> operation_id x = Some (log_operation r)" if "map_option fst ?i = Some r" for r
  proof -
    from that obtain i where "?i = Some (r, i)" by auto
    then have "(r, sale_id x) \<in> set (primary_checkout_audit s)" using find_Some_in by fastforce
    then show ?thesis using unique by (auto simp: in_primary_checkout_audit)
  qed
  then show thesis using that [OF _ _ y(2,3)] f y(1) by (simp add: primarySaleTrail_def)
qed

end
