(* ===== verification/Bloque.thy ===== *)
theory Bloque
  imports Provider PaymentsConfig
begin

text \<open>
  The payment provider over Bloque's hosted checkouts (\<open>src/sales/payments/bloque.ts\<close>).  The
  client of \<open>@bloque/payments\<close>, JSON and date parsing are parameters; \<open>bloque_contract\<close> is what
  its documentation says of checkouts, in its own statuses, and from it the adapter keeps what
  checkout relies on of any provider (\<open>payment_provider\<close>), since it makes single-use checkouts only.
\<close>

section \<open>The client\<close>

text \<open>A checkout as the client answers it, and the parameters it is created with.\<close>

record bloque_checkout =
  bl_id :: ident
  bl_urn :: string
  bl_url :: string
  bl_status :: string
  bl_amount :: money
  bl_asset :: asset
  bl_metadata :: "(string \<times> json) list option"
  bl_expires :: "string option"

record bloque_params =
  bp_name :: string
  bp_items :: "(string \<times> money \<times> int) list"
  bp_asset :: asset
  bp_payment_type :: string
  bp_methods :: "string list"
  bp_metadata :: "(string \<times> json) list"
  bp_expires :: string
  bp_success :: string
  bp_cancel :: string
  bp_webhook :: string
  bp_single_use :: bool

record 'p bloque_client =
  cl_create :: "bloque_params \<Rightarrow> 'p \<Rightarrow> bloque_checkout option \<times> 'p"
  cl_retrieve :: "ident \<Rightarrow> 'p \<Rightarrow> bloque_checkout option \<times> 'p"
  cl_cancel :: "string \<Rightarrow> 'p \<Rightarrow> bloque_checkout option \<times> 'p"
  cl_verify :: "string \<Rightarrow> string \<Rightarrow> string \<Rightarrow> bool"

record bloque_platform =
  parseDate :: "string \<Rightarrow> time"
  toISOString :: "time \<Rightarrow> string"
  parseJson :: "string \<Rightarrow> json option"

section \<open>The adapter\<close>

definition BLOQUE_ASSETS :: "asset list" where
  "BLOQUE_ASSETS = [''COPM/2'', ''DUSD/6'', ''COP/2'', ''USD/6'']"

definition PAYMENT_METHODS :: "string list" where
  "PAYMENT_METHODS = [''card'', ''pse'']"

text \<open>A status the adapter does not know is an error, never read as paid.\<close>

definition statusOf :: "string \<Rightarrow> failure + hosted_status" where
  "statusOf st = (if st = ''created'' \<or> st = ''pending'' then Inr Open
     else if st = ''paid'' \<or> st = ''deposited'' then Inr Paid
     else if st = ''expired'' then Inr Expired
     else if st = ''cancelled'' then Inr HostedCancelled
     else Inl ProviderError)"

definition hold_named :: "(string \<times> json) list option \<Rightarrow> ident option" where
  "hold_named m = (case m of None \<Rightarrow> None
     | Some fs \<Rightarrow> (case map_of fs HOLD_METADATA_KEY of Some (JStr i) \<Rightarrow> Some i | _ \<Rightarrow> None))"

definition hostedCheckoutOf :: "bloque_platform \<Rightarrow> bloque_checkout \<Rightarrow> failure + remote" where
  "hostedCheckoutOf F c = and_then (statusOf (bl_status c)) (\<lambda>st. Inr
     \<lparr>remote_id = bl_id c, remote_url = bl_url c, remote_status = st, remote_amount = bl_amount c,
      remote_asset = bl_asset c, remote_hold = hold_named (bl_metadata c),
      remote_expires = map_option (parseDate F) (bl_expires c)\<rparr>)"

text \<open>Every failure of the client is the provider's.\<close>

definition provider_call :: "'a option \<times> 'p \<Rightarrow> (failure + 'a) \<times> 'p" where
  "provider_call x = (case x of (None, p) \<Rightarrow> (Inl ProviderError, p) | (Some v, p) \<Rightarrow> (Inr v, p))"

definition bloque_params_of :: "bloque_platform \<Rightarrow> create_input \<Rightarrow> bloque_params" where
  "bloque_params_of F c = \<lparr>bp_name = create_description c, bp_items = [(create_description c, create_amount c, 1)],
     bp_asset = create_asset c, bp_payment_type = ''shopping_cart'', bp_methods = PAYMENT_METHODS,
     bp_metadata = [(HOLD_METADATA_KEY, JStr (create_hold c))], bp_expires = toISOString F (create_expires c),
     bp_success = successUrl c, bp_cancel = cancelUrl c, bp_webhook = webhookUrl c, bp_single_use = True\<rparr>"

definition bloque_create :: "'p bloque_client \<Rightarrow> bloque_platform \<Rightarrow> create_input \<Rightarrow> 'p \<Rightarrow> (failure + remote) \<times> 'p" where
  "bloque_create K F c p =
     (if create_amount c < 0 \<or> create_amount c > MAX_SAFE then (Inl ProviderError, p)
      else if create_asset c \<notin> set BLOQUE_ASSETS then (Inl ProviderError, p)
      else (case provider_call (cl_create K (bloque_params_of F c) p) of
          (Inl e, q) \<Rightarrow> (Inl e, q) | (Inr made, q) \<Rightarrow> (hostedCheckoutOf F made, q)))"

definition bloque_retrieve :: "'p bloque_client \<Rightarrow> bloque_platform \<Rightarrow> ident \<Rightarrow> 'p \<Rightarrow> (failure + remote) \<times> 'p" where
  "bloque_retrieve K F i p = (case provider_call (cl_retrieve K i p) of
     (Inl e, q) \<Rightarrow> (Inl e, q) | (Inr c, q) \<Rightarrow> (hostedCheckoutOf F c, q))"

definition bloque_cancel :: "'p bloque_client \<Rightarrow> bloque_platform \<Rightarrow> ident \<Rightarrow> 'p \<Rightarrow> (failure + remote) \<times> 'p" where
  "bloque_cancel K F i p = (case provider_call (cl_retrieve K i p) of
     (Inl e, q) \<Rightarrow> (Inl e, q)
   | (Inr current, q) \<Rightarrow> (case statusOf (bl_status current) of
         Inl e \<Rightarrow> (Inl e, q)
       | Inr st \<Rightarrow> if st \<noteq> Open then (hostedCheckoutOf F current, q)
           else (case provider_call (cl_cancel K (bl_urn current) q) of
               (Inl e, q1) \<Rightarrow> (Inl e, q1)
             | (Inr _, q1) \<Rightarrow> bloque_retrieve K F i q1)))"

definition bloque_verify :: "'p bloque_client \<Rightarrow> bloque_platform \<Rightarrow> string \<Rightarrow> string \<Rightarrow> string option \<Rightarrow>
    (ident list \<times> ident list) option" where
  "bloque_verify K F secret body signature = (case signature of None \<Rightarrow> None
     | Some given \<Rightarrow> if given = [] then None
         else if \<not> cl_verify K body given secret then None
         else map_option webhookReferences (parseJson F body))"

definition bloque_provider :: "'p bloque_client \<Rightarrow> bloque_platform \<Rightarrow> string \<Rightarrow> 'p provider" where
  "bloque_provider K F secret = \<lparr>createCheckout = bloque_create K F, retrieve = bloque_retrieve K F,
     cancelCheckout = bloque_cancel K F, verifyWebhook = bloque_verify K F secret\<rparr>"

definition createBloquePaymentProvider :: "'p bloque_client \<Rightarrow> bloque_platform \<Rightarrow> string \<Rightarrow> failure + 'p provider" where
  "createBloquePaymentProvider K F secret =
     (if secret = [] then Inl ProviderError else Inr (bloque_provider K F secret))"

section \<open>What the client's documentation says\<close>

text \<open>
  \<open>known\<close> is what the service has of a checkout beside the parameters it was created with, \<open>act\<close>
  what it or a buyer does on their own.  Statuses are the client's own strings.
\<close>

type_synonym 'p known = "'p \<Rightarrow> ident \<Rightarrow> (bloque_params \<times> bloque_checkout) option"

definition client_step :: "'p bloque_client \<Rightarrow> ('p \<Rightarrow> 'p \<Rightarrow> bool) \<Rightarrow> 'p \<Rightarrow> 'p \<Rightarrow> bool" where
  "client_step K act p q \<longleftrightarrow> (\<exists>ps. q = snd (cl_create K ps p)) \<or> (\<exists>i. q = snd (cl_retrieve K i p)) \<or>
     (\<exists>u. q = snd (cl_cancel K u p)) \<or> act p q"

definition over_status :: "string \<Rightarrow> bool" where
  "over_status st \<longleftrightarrow> st \<in> {''paid'', ''deposited'', ''expired'', ''cancelled''}"

text \<open>Of a checkout that is over, only the funds of a paid one still move on.\<close>

definition stays_over :: "bloque_checkout \<Rightarrow> bloque_checkout \<Rightarrow> bool" where
  "stays_over c c' \<longleftrightarrow> c' = c \<or> (bl_status c = ''paid'' \<and> c' = c\<lparr>bl_status := ''deposited''\<rparr>)"

text \<open>
  The documentation, law by law: whatever happens, the service stays in order; a checkout keeps the
  parameters it was created with, and only creating makes one; a single-use checkout that is over
  stays over; a checkout created is new, not yet paid, and carries the total of its items, its asset and its
  metadata; what is retrieved is what the service has; and one whose cancellation succeeds is over.
\<close>

definition bloque_contract ::
  "'p bloque_client \<Rightarrow> 'p known \<Rightarrow> ('p \<Rightarrow> 'p \<Rightarrow> bool) \<Rightarrow> ('p \<Rightarrow> bool) \<Rightarrow> bool" where
  "bloque_contract K known act ok \<longleftrightarrow>
     (\<forall>p q. ok p \<longrightarrow> client_step K act p q \<longrightarrow> ok q) \<and>
     (\<forall>p q i ps c. ok p \<longrightarrow> (\<exists>j. q = snd (cl_retrieve K j p)) \<or> (\<exists>u. q = snd (cl_cancel K u p)) \<or> act p q \<longrightarrow>
        known q i = Some (ps, c) \<longrightarrow> (\<exists>c0. known p i = Some (ps, c0))) \<and>
     (\<forall>p i ps c made. ok p \<longrightarrow> known (snd (cl_create K made p)) i = Some (ps, c) \<longrightarrow>
        ps = made \<or> (\<exists>c0. known p i = Some (ps, c0))) \<and>
     (\<forall>p q i ps c. ok p \<longrightarrow> client_step K act p q \<longrightarrow> known p i = Some (ps, c) \<longrightarrow> bp_single_use ps \<longrightarrow>
        over_status (bl_status c) \<longrightarrow> (\<exists>c'. known q i = Some (ps, c') \<and> stays_over c c')) \<and>
     (\<forall>ps p c q. ok p \<longrightarrow> cl_create K ps p = (Some c, q) \<longrightarrow> known p (bl_id c) = None \<and>
        bl_status c \<in> {''created'', ''pending''} \<and> bl_amount c = sum_list (map (\<lambda>(_, a, n). a * n) (bp_items ps)) \<and>
        bl_asset c = bp_asset ps \<and> bl_metadata c = Some (bp_metadata ps)) \<and>
     (\<forall>i p c q. ok p \<longrightarrow> cl_retrieve K i p = (Some c, q) \<longrightarrow> bl_id c = i \<and> (\<exists>ps. known q i = Some (ps, c))) \<and>
     (\<forall>p i ps c d q. ok p \<longrightarrow> known p i = Some (ps, c) \<longrightarrow> cl_cancel K (bl_urn c) p = (Some d, q) \<longrightarrow>
        (\<exists>c'. known q i = Some (ps, c') \<and> over_status (bl_status c')))"

text \<open>What the adapter would report: nothing while it cannot read the status.\<close>

definition hosted_view :: "bloque_platform \<Rightarrow> 'p known \<Rightarrow> 'p \<Rightarrow> ident \<Rightarrow> remote option" where
  "hosted_view F known p i = (case known p i of None \<Rightarrow> None
     | Some (_, c) \<Rightarrow> (case hostedCheckoutOf F c of Inl _ \<Rightarrow> None | Inr r \<Rightarrow> Some r))"

text \<open>Every checkout there is single-use: those Kippu makes are.\<close>

definition all_single_use :: "'p known \<Rightarrow> ('p \<Rightarrow> bool) \<Rightarrow> 'p \<Rightarrow> bool" where
  "all_single_use known ok p \<longleftrightarrow> ok p \<and> (\<forall>i ps c. known p i = Some (ps, c) \<longrightarrow> bp_single_use ps)"

section \<open>The adapter keeps the contract\<close>

lemma contract_laws:
  assumes "bloque_contract K known act ok"
  shows "ok p \<Longrightarrow> client_step K act p q \<Longrightarrow> ok q"
    and "ok p \<Longrightarrow> (\<exists>j. q = snd (cl_retrieve K j p)) \<or> (\<exists>u. q = snd (cl_cancel K u p)) \<or> act p q \<Longrightarrow>
        known q i = Some (ps, c) \<Longrightarrow> \<exists>c0. known p i = Some (ps, c0)"
    and "ok p \<Longrightarrow> known (snd (cl_create K made p)) i = Some (ps, c) \<Longrightarrow>
        ps = made \<or> (\<exists>c0. known p i = Some (ps, c0))"
    and "ok p \<Longrightarrow> client_step K act p q \<Longrightarrow> known p i = Some (ps, c) \<Longrightarrow> bp_single_use ps \<Longrightarrow>
        over_status (bl_status c) \<Longrightarrow> \<exists>c'. known q i = Some (ps, c') \<and> stays_over c c'"
    and "ok p \<Longrightarrow> cl_create K ps p = (Some c, q) \<Longrightarrow> known p (bl_id c) = None \<and>
        bl_status c \<in> {''created'', ''pending''} \<and> bl_amount c = sum_list (map (\<lambda>(_, a, n). a * n) (bp_items ps)) \<and>
        bl_asset c = bp_asset ps \<and> bl_metadata c = Some (bp_metadata ps)"
    and "ok p \<Longrightarrow> cl_retrieve K i p = (Some c, q) \<Longrightarrow> bl_id c = i \<and> (\<exists>ps. known q i = Some (ps, c))"
    and "ok p \<Longrightarrow> known p i = Some (ps, c) \<Longrightarrow> cl_cancel K (bl_urn c) p = (Some d, q) \<Longrightarrow>
        \<exists>c'. known q i = Some (ps, c') \<and> over_status (bl_status c')"
proof -
  note law = assms [unfolded bloque_contract_def]
  show "ok p \<Longrightarrow> client_step K act p q \<Longrightarrow> ok q" using law by (elim conjE) metis
  show "ok p \<Longrightarrow> (\<exists>j. q = snd (cl_retrieve K j p)) \<or> (\<exists>u. q = snd (cl_cancel K u p)) \<or> act p q \<Longrightarrow>
        known q i = Some (ps, c) \<Longrightarrow> \<exists>c0. known p i = Some (ps, c0)" using law by (elim conjE) blast
  show "ok p \<Longrightarrow> known (snd (cl_create K made p)) i = Some (ps, c) \<Longrightarrow>
        ps = made \<or> (\<exists>c0. known p i = Some (ps, c0))" using law by (elim conjE) metis
  show "ok p \<Longrightarrow> client_step K act p q \<Longrightarrow> known p i = Some (ps, c) \<Longrightarrow> bp_single_use ps \<Longrightarrow>
        over_status (bl_status c) \<Longrightarrow> \<exists>c'. known q i = Some (ps, c') \<and> stays_over c c'" using law by (elim conjE) metis
  show "ok p \<Longrightarrow> cl_create K ps p = (Some c, q) \<Longrightarrow> known p (bl_id c) = None \<and>
        bl_status c \<in> {''created'', ''pending''} \<and> bl_amount c = sum_list (map (\<lambda>(_, a, n). a * n) (bp_items ps)) \<and>
        bl_asset c = bp_asset ps \<and> bl_metadata c = Some (bp_metadata ps)"
    by (rule law [THEN conjunct2, THEN conjunct2, THEN conjunct2, THEN conjunct2, THEN conjunct1, rule_format])
  show "ok p \<Longrightarrow> cl_retrieve K i p = (Some c, q) \<Longrightarrow> bl_id c = i \<and> (\<exists>ps. known q i = Some (ps, c))"
    using law by (elim conjE) metis
  show "ok p \<Longrightarrow> known p i = Some (ps, c) \<Longrightarrow> cl_cancel K (bl_urn c) p = (Some d, q) \<Longrightarrow>
        \<exists>c'. known q i = Some (ps, c') \<and> over_status (bl_status c')" using law by (elim conjE) metis
qed

lemma statusOf_Inr:
  "statusOf st = Inr h \<Longrightarrow> (h \<noteq> Open \<longleftrightarrow> over_status st)"
  by (auto simp: statusOf_def over_status_def split: if_splits)

lemma hosted_Inr:
  "hostedCheckoutOf F c = Inr r \<Longrightarrow> statusOf (bl_status c) = Inr (remote_status r) \<and>
     (remote_status r \<noteq> Open \<longleftrightarrow> over_status (bl_status c))"
  using statusOf_Inr [of "bl_status c"] by (auto simp: hostedCheckoutOf_def and_then_Inr_iff)

lemma stays_over_hosted: "stays_over c c' \<Longrightarrow> hostedCheckoutOf F c' = hostedCheckoutOf F c"
  by (auto simp: stays_over_def hostedCheckoutOf_def statusOf_def)

text \<open>The client's steps as the adapter and the world take them: it creates single-use checkouts only.\<close>

definition adapter_step :: "'p bloque_client \<Rightarrow> ('p \<Rightarrow> 'p \<Rightarrow> bool) \<Rightarrow> 'p \<Rightarrow> 'p \<Rightarrow> bool" where
  "adapter_step K act p q \<longleftrightarrow> (\<exists>ps. bp_single_use ps \<and> q = snd (cl_create K ps p)) \<or>
     (\<exists>i. q = snd (cl_retrieve K i p)) \<or> (\<exists>u. q = snd (cl_cancel K u p)) \<or> act p q"

lemma adapter_client: "adapter_step K act p q \<Longrightarrow> client_step K act p q"
  unfolding adapter_step_def client_step_def by blast

lemma step_single_use:
  assumes K: "bloque_contract K known act ok" and p: "all_single_use known ok p" and step: "adapter_step K act p q"
  shows "all_single_use known ok q"
proof -
  have single: "bp_single_use ps" if "known p i = Some (ps, c)" for i ps c
    using p that by (auto simp: all_single_use_def)
  have ok: "ok p" using p by (simp add: all_single_use_def)
  have "bp_single_use ps" if q: "known q i = Some (ps, c)" for i ps c
    using step unfolding adapter_step_def
  proof (elim disjE)
    assume "\<exists>ps. bp_single_use ps \<and> q = snd (cl_create K ps p)"
    then show ?thesis using contract_laws(3) [OF K ok] q single by blast
  qed (use contract_laws(2) [OF K ok _ q] single in blast)+
  moreover have "ok q" using contract_laws(1) [OF K ok adapter_client [OF step]] .
  ultimately show ?thesis unfolding all_single_use_def by blast
qed

lemma step_over:
  assumes "bloque_contract K known act ok" "all_single_use known ok p" "client_step K act p q"
    and "hosted_view F known p i = Some r" "remote_status r \<noteq> Open"
  shows "hosted_view F known q i = Some r"
proof -
  obtain ps c where c: "known p i = Some (ps, c)" "hostedCheckoutOf F c = Inr r"
    using assms(4) by (auto simp: hosted_view_def split: option.splits sum.splits)
  then have over: "over_status (bl_status c)" using hosted_Inr assms(5) by blast
  have "ok p" "bp_single_use ps" using assms(2) c(1) by (auto simp: all_single_use_def)
  from contract_laws(4) [OF assms(1) this(1) assms(3) c(1) this(2) over]
  obtain c' where "known q i = Some (ps, c')" "stays_over c c'" by blast
  with stays_over_hosted c(2) show ?thesis by (fastforce simp: hosted_view_def)
qed

lemma steps_over:
  assumes "bloque_contract K known act ok" "(adapter_step K act)\<^sup>*\<^sup>* p q" "all_single_use known ok p"
  shows "all_single_use known ok q \<and>
    (\<forall>i r. hosted_view F known p i = Some r \<longrightarrow> remote_status r \<noteq> Open \<longrightarrow> hosted_view F known q i = Some r)"
  using assms(2,3)
proof (induction rule: rtranclp_induct)
  case (step q q')
  then show ?case using step_single_use [OF assms(1)] step_over [OF assms(1)] adapter_client by metis
qed simp

text \<open>Each operation is a few calls of the client.\<close>

lemma client_calls:
  "bp_single_use ps \<Longrightarrow> adapter_step K act p (snd (cl_create K ps p))" "adapter_step K act p (snd (cl_retrieve K i p))"
  "adapter_step K act p (snd (cl_cancel K u p))"
  by (auto simp: adapter_step_def)

lemma provider_call_snd: "provider_call x = (v, q) \<Longrightarrow> q = snd x"
  by (auto simp: provider_call_def split: prod.splits option.splits)

lemma provider_call_Inr: "provider_call x = (Inr v, q) \<longleftrightarrow> x = (Some v, q)"
  by (auto simp: provider_call_def split: prod.splits option.splits)

lemma bloque_create_steps: "(adapter_step K act)\<^sup>*\<^sup>* p (snd (bloque_create K F c p))"
  using client_calls(1) [of "bloque_params_of F c" K act p]
  by (auto simp: bloque_create_def split: prod.splits sum.splits dest!: provider_call_snd simp: bloque_params_of_def)

lemma bloque_retrieve_steps: "(adapter_step K act)\<^sup>*\<^sup>* p (snd (bloque_retrieve K F i p))"
  by (auto simp: bloque_retrieve_def split: prod.splits sum.splits dest!: provider_call_snd intro: client_calls)

lemma bloque_cancel_steps: "(adapter_step K act)\<^sup>*\<^sup>* p (snd (bloque_cancel K F i p))"
proof -
  let ?q = "snd (cl_retrieve K i p)"
  have first: "(adapter_step K act)\<^sup>*\<^sup>* p ?q" by (intro r_into_rtranclp client_calls)
  have second: "(adapter_step K act)\<^sup>*\<^sup>* p (snd (cl_cancel K u ?q))" for u
    using first client_calls(3) by (rule rtranclp.rtrancl_into_rtrancl)
  have third: "(adapter_step K act)\<^sup>*\<^sup>* p (snd (bloque_retrieve K F i (snd (cl_cancel K u ?q))))" for u
    using second bloque_retrieve_steps by (rule rtranclp_trans)
  show ?thesis using first second third
    by (auto simp: bloque_cancel_def split: prod.splits sum.splits dest!: provider_call_snd)
qed

lemma retrieve_views:
  assumes "bloque_contract K known act ok" "ok p" "bloque_retrieve K F i p = (Inr r, q)"
  shows "hosted_view F known q i = Some r"
proof -
  obtain c where "cl_retrieve K i p = (Some c, q)" "hostedCheckoutOf F c = Inr r"
    using assms(3) by (auto simp: bloque_retrieve_def provider_call_Inr split: prod.splits sum.splits)
  with contract_laws(6) [OF assms(1,2)] show ?thesis by (fastforce simp: hosted_view_def)
qed

text \<open>A cancellation answered ends the checkout: it was over, or it was cancelled and read again.\<close>

lemma cancel_views:
  assumes K: "bloque_contract K known act ok" and p: "all_single_use known ok p"
    and run: "bloque_cancel K F i p = (Inr r, q)"
  shows "hosted_view F known q i = Some r \<and> remote_status r \<noteq> Open"
proof -
  obtain c q0 where c: "cl_retrieve K i p = (Some c, q0)"
    using run by (auto simp: bloque_cancel_def provider_call_Inr split: prod.splits sum.splits)
  have ok: "ok p" using p by (simp add: all_single_use_def)
  obtain ps where known: "known q0 i = Some (ps, c)" using contract_laws(6) [OF K ok c] by blast
  have q0: "all_single_use known ok q0"
    using step_single_use [OF K p] client_calls(2) [of K act p i] c by fastforce
  then have ok0: "ok q0" by (simp add: all_single_use_def)
  obtain st where st: "statusOf (bl_status c) = Inr st"
    using run c by (auto simp: bloque_cancel_def provider_call_def split: sum.splits)
  show ?thesis
  proof (cases "st = Open")
    case False
    then have "hostedCheckoutOf F c = Inr r" "q = q0" using run c st by (auto simp: bloque_cancel_def provider_call_def)
    with known False st hosted_Inr show ?thesis by (fastforce simp: hosted_view_def)
  next
    case True
    then obtain d q1 where d: "cl_cancel K (bl_urn c) q0 = (Some d, q1)" and again: "bloque_retrieve K F i q1 = (Inr r, q)"
      using run c st by (auto simp: bloque_cancel_def provider_call_def split: prod.splits option.splits sum.splits)
    have q1: "all_single_use known ok q1"
      using step_single_use [OF K q0] client_calls(3) [of K act q0 "bl_urn c"] d by fastforce
    then have ok1: "ok q1" by (simp add: all_single_use_def)
    obtain c1 where c1: "known q1 i = Some (ps, c1)" "over_status (bl_status c1)"
      using contract_laws(7) [OF K ok0 known d] by blast
    obtain r1 where r1: "hostedCheckoutOf F c1 = Inr r1"
      using c1(2) by (auto simp: over_status_def hostedCheckoutOf_def statusOf_def and_then_def)
    then have "hosted_view F known q1 i = Some r1" "remote_status r1 \<noteq> Open"
      using c1 hosted_Inr by (auto simp: hosted_view_def)
    then have "hosted_view F known q i = Some r1"
      using steps_over [OF K bloque_retrieve_steps q1] again by (metis snd_conv)
    with retrieve_views [OF K ok1 again] \<open>remote_status r1 \<noteq> Open\<close> show ?thesis by simp
  qed
qed

end
