(* ===== verification/BloqueProperties.thy ===== *)
theory BloqueProperties
  imports Bloque SalesFacts
begin

text \<open>The Bloque adapter as checkout's payment provider, with a client of a single checkout.\<close>

lemma bloque_payments:
  assumes K: "bloque_contract K known act ok"
  shows "payment_provider (bloque_provider K F secret) (hosted_view F known) act (all_single_use known ok)"
proof
  fix p c r q
  assume "all_single_use known ok p" and run: "createCheckout (bloque_provider K F secret) c p = (Inr r, q)"
  then have ok: "ok p" by (simp add: all_single_use_def)
  obtain made where "cl_create K (bloque_params_of F c) p = (Some made, q)" "hostedCheckoutOf F made = Inr r"
    using run
    by (auto simp: bloque_provider_def bloque_create_def provider_call_Inr split: prod.splits sum.splits if_splits)
  with contract_laws(5) [OF K ok this(1)] show "hosted_view F known p (remote_id r) = None \<and> remote_status r = Open \<and>
      remote_amount r = create_amount c \<and> remote_asset r = create_asset c \<and> remote_hold r = Some (create_hold c)"
    by (auto simp: hostedCheckoutOf_def and_then_Inr_iff hosted_view_def statusOf_def bloque_params_of_def
        hold_named_def)
next
  fix p i r q
  assume "all_single_use known ok p" "retrieve (bloque_provider K F secret) i p = (Inr r, q)"
  then have "ok p" "bloque_retrieve K F i p = (Inr r, q)" by (simp_all add: bloque_provider_def all_single_use_def)
  then show "hosted_view F known q i = Some r" by (rule retrieve_views [OF K])
next
  fix p i r q
  assume "all_single_use known ok p" "cancelCheckout (bloque_provider K F secret) i p = (Inr r, q)"
  then show "hosted_view F known q i = Some r \<and> remote_status r \<noteq> Open"
    using cancel_views [OF K] by (simp add: bloque_provider_def)
next
  fix p q assume "all_single_use known ok p" "act p q"
  then show "all_single_use known ok q" using step_single_use [OF K] by (simp add: adapter_step_def)
next
  fix p q i r
  assume "all_single_use known ok p" "hosted_view F known p i = Some r" "remote_status r \<noteq> Open" "act p q"
  then show "hosted_view F known q i = Some r" using step_over [OF K] by (simp add: client_step_def)
qed (use steps_over [OF K bloque_create_steps] steps_over [OF K bloque_retrieve_steps] steps_over [OF K bloque_cancel_steps]
    in \<open>simp_all add: bloque_provider_def\<close>)

text \<open>
  C31. The Bloque adapter keeps what checkout relies on of a payment provider, given what the
  client's documentation says of single-use checkouts: a checkout created is new, open and for the hold
  and the amount asked for; one cancelled is over; and one that is over is reported the same for ever,
  whatever Kippu, the provider or the buyer does.  And what it reports of a checkout is what the
  client answers: paid exactly when the client says paid or deposited, cancelled, expired or
  open when it says so, with its identifier, amount and asset, and an error for any other status.
\<close>

theorem bloque_keeps_the_contract:
  assumes K: "bloque_contract K known act ok"
  shows "payment_provider (bloque_provider K F secret) (hosted_view F known) act (all_single_use known ok) \<and>
    (\<forall>i p c q. cl_retrieve K i p = (Some c, q) \<longrightarrow>
       (case retrieve (bloque_provider K F secret) i p of
          (Inl e, q') \<Rightarrow> e = ProviderError \<and> q' = q \<and> bl_status c \<notin> {''created'', ''pending'', ''paid'', ''deposited'',
            ''expired'', ''cancelled''}
        | (Inr r, q') \<Rightarrow> q' = q \<and> remote_id r = bl_id c \<and> remote_amount r = bl_amount c \<and> remote_asset r = bl_asset c \<and>
            (remote_status r = Open \<longleftrightarrow> bl_status c = ''created'' \<or> bl_status c = ''pending'') \<and>
            (remote_status r = Paid \<longleftrightarrow> bl_status c = ''paid'' \<or> bl_status c = ''deposited'') \<and>
            (remote_status r = Expired \<longleftrightarrow> bl_status c = ''expired'') \<and>
            (remote_status r = HostedCancelled \<longleftrightarrow> bl_status c = ''cancelled'')))"
proof
  show "payment_provider (bloque_provider K F secret) (hosted_view F known) act (all_single_use known ok)"
    by (rule bloque_payments [OF K])
  show "\<forall>i p c q. cl_retrieve K i p = (Some c, q) \<longrightarrow>
       (case retrieve (bloque_provider K F secret) i p of
          (Inl e, q') \<Rightarrow> e = ProviderError \<and> q' = q \<and> bl_status c \<notin> {''created'', ''pending'', ''paid'', ''deposited'',
            ''expired'', ''cancelled''}
        | (Inr r, q') \<Rightarrow> q' = q \<and> remote_id r = bl_id c \<and> remote_amount r = bl_amount c \<and> remote_asset r = bl_asset c \<and>
            (remote_status r = Open \<longleftrightarrow> bl_status c = ''created'' \<or> bl_status c = ''pending'') \<and>
            (remote_status r = Paid \<longleftrightarrow> bl_status c = ''paid'' \<or> bl_status c = ''deposited'') \<and>
            (remote_status r = Expired \<longleftrightarrow> bl_status c = ''expired'') \<and>
            (remote_status r = HostedCancelled \<longleftrightarrow> bl_status c = ''cancelled''))"
  proof (intro allI impI)
    fix i p c q assume c: "cl_retrieve K i p = (Some c, q)"
    then have read: "retrieve (bloque_provider K F secret) i p = (hostedCheckoutOf F c, q)"
      by (simp add: bloque_provider_def bloque_retrieve_def provider_call_def)
    show "case retrieve (bloque_provider K F secret) i p of
          (Inl e, q') \<Rightarrow> e = ProviderError \<and> q' = q \<and> bl_status c \<notin> {''created'', ''pending'', ''paid'', ''deposited'',
            ''expired'', ''cancelled''}
        | (Inr r, q') \<Rightarrow> q' = q \<and> remote_id r = bl_id c \<and> remote_amount r = bl_amount c \<and> remote_asset r = bl_asset c \<and>
            (remote_status r = Open \<longleftrightarrow> bl_status c = ''created'' \<or> bl_status c = ''pending'') \<and>
            (remote_status r = Paid \<longleftrightarrow> bl_status c = ''paid'' \<or> bl_status c = ''deposited'') \<and>
            (remote_status r = Expired \<longleftrightarrow> bl_status c = ''expired'') \<and>
            (remote_status r = HostedCancelled \<longleftrightarrow> bl_status c = ''cancelled'')"
      unfolding read by (auto simp: hostedCheckoutOf_def statusOf_def and_then_def)
  qed
qed

text \<open>So closing sales is safe with it: a hold released without a report of payment is never paid after.\<close>

lemma released_hold_never_paid_by_bloque:
  assumes "bloque_contract K known act ok" "all_single_use known ok p" "s_provider X = bloque_provider K F secret"
    and "hold_by_id s i = Some h" "openHosted s i = Some k"
    and "release_one X q i at (s, p) = (Inr (n, []), s', p')"
    and "payment_provider.run (bloque_provider K F secret) act p' p2"
    and "bloque_retrieve K F (provider_checkout_id k) p2 = (Inr r, p3)"
  shows "remote_status r \<noteq> Paid \<and> remote_status r \<noteq> Open"
proof -
  have "retrieve (bloque_provider K F secret) (provider_checkout_id k) p2 = (Inr r, p3)"
    using assms(8) by (simp add: bloque_provider_def)
  from payment_provider.release_one_unpaid [OF bloque_payments [OF assms(1)] assms(2-7) this] show ?thesis .
qed

section \<open>A client with one checkout\<close>

text \<open>The checkout, with its parameters; there is at most one, and a single-use one is paid once.\<close>

type_synonym shop = "(bloque_params \<times> bloque_checkout) option"

definition shop_create :: "bloque_params \<Rightarrow> shop \<Rightarrow> bloque_checkout option \<times> shop" where
  "shop_create ps p = (case p of Some _ \<Rightarrow> (None, p)
     | None \<Rightarrow> (let c = \<lparr>bl_id = ''b1'', bl_urn = ''urn:b1'', bl_url = ''https://pay'', bl_status = ''created'',
         bl_amount = sum_list (map (\<lambda>(_, a, n). a * n) (bp_items ps)), bl_asset = bp_asset ps,
         bl_metadata = Some (bp_metadata ps), bl_expires = Some (bp_expires ps)\<rparr> in (Some c, Some (ps, c))))"

definition shop_retrieve :: "ident \<Rightarrow> shop \<Rightarrow> bloque_checkout option \<times> shop" where
  "shop_retrieve i p = (if i = ''b1'' then map_option snd p else None, p)"

definition shop_cancel :: "string \<Rightarrow> shop \<Rightarrow> bloque_checkout option \<times> shop" where
  "shop_cancel u p = (let q = map_option (\<lambda>(ps, c). (ps, if over_status (bl_status c) then c else c\<lparr>bl_status := ''cancelled''\<rparr>)) p
     in (map_option snd q, q))"

definition shop :: "shop bloque_client" where
  "shop = \<lparr>cl_create = shop_create, cl_retrieve = shop_retrieve, cl_cancel = shop_cancel, cl_verify = (\<lambda>_ _ _. True)\<rparr>"

definition shop_known :: "shop known" where
  "shop_known p i = (case p of Some (ps, c) \<Rightarrow> if i = ''b1'' then p else None | None \<Rightarrow> None)"

text \<open>
  The buyer pays an open checkout, or one that is over but not single-use; the funds of one paid
  move on.
\<close>

definition shop_act :: "shop \<Rightarrow> shop \<Rightarrow> bool" where
  "shop_act p q \<longleftrightarrow> (\<exists>ps c. p = Some (ps, c) \<and> bl_id c = ''b1'' \<and>
     ((\<not> over_status (bl_status c) \<or> \<not> bp_single_use ps) \<and> q = Some (ps, c\<lparr>bl_status := ''paid''\<rparr>) \<or>
      bl_status c = ''paid'' \<and> q = Some (ps, c\<lparr>bl_status := ''deposited''\<rparr>)))"

definition shop_ok :: "shop \<Rightarrow> bool" where
  "shop_ok p \<longleftrightarrow> (case p of None \<Rightarrow> True | Some (ps, c) \<Rightarrow> bl_id c = ''b1'')"

lemmas shop_defs = shop_def shop_create_def shop_retrieve_def shop_cancel_def shop_act_def Let_def

lemma shop_step_over:
  assumes "client_step shop shop_act p q" "p = Some (ps, c)" "bp_single_use ps" "over_status (bl_status c)"
  shows "\<exists>c'. q = Some (ps, c') \<and> stays_over c c'"
  using assms by (auto simp: client_step_def shop_defs stays_over_def)

lemma shop_keeps: "bloque_contract shop shop_known shop_act shop_ok"
  unfolding bloque_contract_def
proof (intro conjI allI impI)
  fix p q assume "shop_ok p" "client_step shop shop_act p q"
  then show "shop_ok q"
    by (auto simp: client_step_def shop_defs shop_ok_def split: option.splits)
next
  fix p q i ps c
  assume "(\<exists>j. q = snd (cl_retrieve shop j p)) \<or> (\<exists>u. q = snd (cl_cancel shop u p)) \<or> shop_act p q"
    "shop_known q i = Some (ps, c)"
  then show "\<exists>c0. shop_known p i = Some (ps, c0)"
    by (cases p) (auto simp: shop_defs shop_known_def split: option.splits if_splits)
next
  fix p i ps c made assume "shop_known (snd (cl_create shop made p)) i = Some (ps, c)"
  then show "ps = made \<or> (\<exists>c0. shop_known p i = Some (ps, c0))"
    by (auto simp: shop_defs shop_known_def split: option.splits if_splits)
next
  fix p q i ps c
  assume "client_step shop shop_act p q" "shop_known p i = Some (ps, c)" "bp_single_use ps" "over_status (bl_status c)"
  then show "\<exists>c'. shop_known q i = Some (ps, c') \<and> stays_over c c'"
    using shop_step_over by (fastforce simp: shop_known_def split: option.splits if_splits)
qed (auto simp: shop_defs shop_known_def shop_ok_def over_status_def split: option.splits if_splits)

definition plain_bloque_platform :: bloque_platform where
  "plain_bloque_platform = \<lparr>parseDate = (\<lambda>_. 0), toISOString = (\<lambda>_. ''1970''), parseJson = (\<lambda>_. None)\<rparr>"

theorem bloque_keeps_the_contract_witness:
  "payment_provider (bloque_provider shop plain_bloque_platform ''whsec'') (hosted_view plain_bloque_platform shop_known)
     shop_act (all_single_use shop_known shop_ok) \<and> all_single_use shop_known shop_ok None"
  using bloque_keeps_the_contract [OF shop_keeps, of plain_bloque_platform "''whsec''"]
  by (simp add: all_single_use_def shop_known_def shop_ok_def)

end
