(* ===== verification/Migrations.thy ===== *)
theory Migrations
  imports Reads "HOL-Library.Sublist"
begin

text \<open>
  The migration runner (\<open>src/store/migrate.ts\<close>): the migrations a build ships, what a store has
  applied, and applying what is pending, each in its own transaction, under a lock held for the
  whole run.  The effect of a migration's SQL on the database and the hash are parameters.
\<close>

section \<open>The migrations shipped\<close>

record migration =
  mig_id :: string
  mig_sql :: string
  mig_checksum :: string

text \<open>\<open>NNNN_snake_case.sql\<close>.\<close>

definition snake_char :: "char \<Rightarrow> bool" where
  "snake_char c \<longleftrightarrow> c \<in> set ''abcdefghijklmnopqrstuvwxyz0123456789_''"

definition migration_file :: "string \<Rightarrow> bool" where
  "migration_file name \<longleftrightarrow> (let rest = drop 5 (take (length name - 4) name) in
     suffix ''.sql'' name \<and> list_all is_digit (take 4 name) \<and> 4 < length name \<and> name ! 4 = CHR ''_'' \<and>
     rest \<noteq> [] \<and> list_all snake_char rest)"

text \<open>The files in the order of their names; a name out of form or a number used twice throws.\<close>

fun read_files :: "(string \<Rightarrow> string) \<Rightarrow> string list \<Rightarrow> (string \<times> string) list \<Rightarrow> failure + migration list" where
  "read_files sha numbers [] = Inr []"
| "read_files sha numbers ((name, sql) # rest) =
     (if \<not> migration_file name \<or> take 4 name \<in> set numbers then Inl OtherError
      else and_then (read_files sha (take 4 name # numbers) rest) (\<lambda>ms.
        Inr (\<lparr>mig_id = take (length name - 4) name, mig_sql = sql, mig_checksum = sha sql\<rparr> # ms)))"

definition readMigrations :: "(string \<Rightarrow> string) \<Rightarrow> (string \<times> string) list \<Rightarrow> failure + migration list" where
  "readMigrations sha directory = read_files sha [] (sort_key fst (filter (\<lambda>(n, _). suffix ''.sql'' n) directory))"

section \<open>What is pending\<close>

text \<open>The table of applied migrations, if it is there, and the rest of the database.\<close>

record 'd migrating =
  kippu_migrations :: "(string \<times> string) list option"
  database :: 'd

definition applied :: "'d migrating \<Rightarrow> (string \<times> string) list" where
  "applied st = (case kippu_migrations st of None \<Rightarrow> [] | Some rows \<Rightarrow> rows)"

definition pending :: "migration list \<Rightarrow> (string \<times> string) list \<Rightarrow> failure + migration list" where
  "pending ms done =
     (if \<exists>(i, _) \<in> set done. i \<notin> set (map mig_id ms) then Inl OtherError
      else if \<exists>m \<in> set ms. map_of done (mig_id m) \<noteq> None \<and> map_of done (mig_id m) \<noteq> Some (mig_checksum m)
      then Inl OtherError
      else Inr (filter (\<lambda>m. map_of done (mig_id m) = None) ms))"

section \<open>Applying\<close>

definition migration_row :: "migration \<Rightarrow> string \<times> string" where
  "migration_row m = (mig_id m, mig_checksum m)"

text \<open>One transaction: the SQL and its row, or neither.\<close>

definition apply_one :: "(string \<Rightarrow> 'd \<Rightarrow> 'd option) \<Rightarrow> migration \<Rightarrow> 'd migrating \<Rightarrow> failure + 'd migrating" where
  "apply_one exec m st = (case exec (mig_sql m) (database st) of None \<Rightarrow> Inl OtherError
     | Some d \<Rightarrow> if mig_id m \<in> fst ` set (applied st) then Inl OtherError
         else Inr (st\<lparr>kippu_migrations := Some (applied st @ [migration_row m]), database := d\<rparr>))"

fun apply_all :: "(string \<Rightarrow> 'd \<Rightarrow> 'd option) \<Rightarrow> migration list \<Rightarrow> 'd migrating \<Rightarrow> (failure + unit) \<times> 'd migrating" where
  "apply_all exec [] st = (Inr (), st)"
| "apply_all exec (m # ms) st = (case apply_one exec m st of Inl e \<Rightarrow> (Inl e, st)
     | Inr st' \<Rightarrow> apply_all exec ms st')"

definition migrate ::
  "(string \<Rightarrow> 'd \<Rightarrow> 'd option) \<Rightarrow> migration list \<Rightarrow> 'd migrating \<Rightarrow> (failure + string list) \<times> 'd migrating" where
  "migrate exec ms st = (let st1 = st\<lparr>kippu_migrations := Some (applied st)\<rparr> in
     case pending ms (applied st1) of Inl e \<Rightarrow> (Inl e, st1)
     | Inr todo \<Rightarrow> (case apply_all exec todo st1 of (Inl e, st2) \<Rightarrow> (Inl e, st2)
         | (Inr _, st2) \<Rightarrow> (Inr (map mig_id todo), st2)))"

definition assertMigrated :: "migration list \<Rightarrow> 'd migrating \<Rightarrow> failure + unit" where
  "assertMigrated ms st = and_then (pending ms (applied st)) (\<lambda>todo. guard (todo = []) OtherError)"

section \<open>A store is always what its migrations, in order, made it\<close>

text \<open>The SQL of migrations run one after another.\<close>

fun run_sql :: "(string \<Rightarrow> 'd \<Rightarrow> 'd option) \<Rightarrow> migration list \<Rightarrow> 'd \<Rightarrow> 'd option" where
  "run_sql exec [] d = Some d"
| "run_sql exec (m # ms) d = (case exec (mig_sql m) d of None \<Rightarrow> None | Some d' \<Rightarrow> run_sql exec ms d')"

lemma run_sql_append: "run_sql exec (xs @ ys) d = (case run_sql exec xs d of None \<Rightarrow> None | Some d' \<Rightarrow> run_sql exec ys d')"
  by (induction xs arbitrary: d) (auto split: option.splits)

definition built_by :: "(string \<Rightarrow> 'd \<Rightarrow> 'd option) \<Rightarrow> 'd \<Rightarrow> migration list \<Rightarrow> 'd migrating \<Rightarrow> bool" where
  "built_by exec d0 ms st \<longleftrightarrow> applied st = map migration_row ms \<and> run_sql exec ms d0 = Some (database st)"

lemma applied_simps [simp]: "applied (st\<lparr>kippu_migrations := Some rows\<rparr>) = rows"
  "applied (st\<lparr>kippu_migrations := Some rows, database := d\<rparr>) = rows"
  by (simp_all add: applied_def)

lemma built_by_table [simp]: "built_by exec d0 ms (st\<lparr>kippu_migrations := Some (applied st)\<rparr>) = built_by exec d0 ms st"
  by (simp add: built_by_def)

lemma fst_migration_row [simp]: "fst \<circ> migration_row = mig_id"
  by (auto simp: migration_row_def)

lemma apply_one_built:
  assumes "built_by exec d0 ms st" "apply_one exec m st = Inr st'"
  shows "built_by exec d0 (ms @ [m]) st'"
  using assms by (auto simp: apply_one_def built_by_def run_sql_append split: option.splits if_splits)

lemma apply_all_built:
  assumes "built_by exec d0 ms st" "apply_all exec todo st = (v, st')"
  shows "\<exists>n. built_by exec d0 (ms @ take n todo) st' \<and> (v = Inr () \<longrightarrow> n = length todo)"
  using assms
proof (induction todo arbitrary: ms st)
  case Nil
  then show ?case by auto
next
  case (Cons m todo)
  show ?case
  proof (cases "apply_one exec m st")
    case (Inl e)
    then show ?thesis using Cons.prems by (intro exI [of _ 0]) auto
  next
    case (Inr st1)
    from Cons.IH [OF apply_one_built [OF Cons.prems(1) Inr]] Cons.prems(2) Inr obtain n where
      "built_by exec d0 ((ms @ [m]) @ take n todo) st'" "v = Inr () \<longrightarrow> n = length todo" by auto
    then show ?thesis by (intro exI [of _ "Suc n"]) simp
  qed
qed

lemma map_of_rows:
  "distinct (map mig_id ms) \<Longrightarrow> m \<in> set ms \<Longrightarrow> map_of (map migration_row ms) (mig_id m) = Some (mig_checksum m)"
  "map_of (map migration_row ms) i = None \<longleftrightarrow> i \<notin> set (map mig_id ms)"
proof -
  show "map_of (map migration_row ms) (mig_id m) = Some (mig_checksum m)" if "distinct (map mig_id ms)" "m \<in> set ms"
  proof (rule map_of_is_SomeI)
    show "distinct (map fst (map migration_row ms))" using that(1) by simp
    show "(mig_id m, mig_checksum m) \<in> set (map migration_row ms)" using that(2) by (auto simp: migration_row_def)
  qed
  show "map_of (map migration_row ms) i = None \<longleftrightarrow> i \<notin> set (map mig_id ms)"
    by (auto simp: map_of_eq_None_iff migration_row_def image_iff)
qed

text \<open>After a prefix of what a build ships, what is pending is the rest of it.\<close>

lemma pending_after_prefix:
  assumes "distinct (map mig_id (old @ added))"
  shows "pending (old @ added) (map migration_row old) = Inr added"
proof -
  have none: "m \<in> set added \<Longrightarrow> map_of (map migration_row old) (mig_id m) = None" for m
    using assms by (auto simp: map_of_rows(2))
  have some: "m \<in> set old \<Longrightarrow> map_of (map migration_row old) (mig_id m) = Some (mig_checksum m)" for m
    using assms map_of_rows(1) [of old m] by simp
  have rows: "fst ` set (map migration_row old) \<subseteq> set (map mig_id (old @ added))" by (auto simp: migration_row_def)
  have "filter (\<lambda>m. map_of (map migration_row old) (mig_id m) = None) (old @ added) = added"
    using none some by (simp add: filter_empty_conv)
  moreover have "\<not> (\<exists>(i, _) \<in> set (map migration_row old). i \<notin> set (map mig_id (old @ added)))"
    using rows by (auto simp: migration_row_def)
  moreover have "\<not> (\<exists>m \<in> set (old @ added). map_of (map migration_row old) (mig_id m) \<noteq> None \<and>
      map_of (map migration_row old) (mig_id m) \<noteq> Some (mig_checksum m))"
    using none some by auto
  ultimately show ?thesis unfolding pending_def by (simp only: if_False)
qed

lemma apply_all_table:
  "kippu_migrations st = Some (applied st) \<Longrightarrow>
    kippu_migrations (snd (apply_all exec ms st)) = Some (applied (snd (apply_all exec ms st)))"
proof (induction ms arbitrary: st)
  case (Cons m ms)
  then show ?case by (cases "apply_one exec m st") (auto simp: apply_one_def split: option.splits if_splits)
qed simp

text \<open>A store with all of a build's migrations is left as it is.\<close>

lemma migrated_store_stays:
  assumes "distinct (map mig_id ms)" "applied st = map migration_row ms" "kippu_migrations st = Some (applied st)"
  shows "assertMigrated ms st = Inr () \<and> migrate exec ms st = (Inr [], st)"
proof -
  have "pending ms (applied st) = Inr []" using pending_after_prefix [of ms "[]"] assms(1,2) by simp
  moreover have "st\<lparr>kippu_migrations := Some (applied st)\<rparr> = st" using assms(3) by (cases st) simp
  ultimately show ?thesis by (simp add: assertMigrated_def migrate_def Let_def)
qed

text \<open>A store that has applied what a build does not ship, or shipped otherwise, is refused unchanged.\<close>

lemma diverged_store_is_refused:
  assumes "(i, ck) \<in> set (applied st)" "distinct (map fst (applied st))"
    and "\<And>m. m \<in> set ms \<Longrightarrow> mig_id m = i \<Longrightarrow> mig_checksum m \<noteq> ck"
  shows "isl (assertMigrated ms st)" "isl (fst (migrate exec ms st)) \<and> database (snd (migrate exec ms st)) = database st"
proof -
  have "isl (pending ms (applied st))"
  proof (cases "i \<in> set (map mig_id ms)")
    case True
    then obtain m where m: "m \<in> set ms" "mig_id m = i" by auto
    have "map_of (applied st) i = Some ck" using assms(1,2) by simp
    with m assms(3) have "\<exists>m \<in> set ms. map_of (applied st) (mig_id m) \<noteq> None \<and>
        map_of (applied st) (mig_id m) \<noteq> Some (mig_checksum m)" by force
    then show ?thesis unfolding pending_def by simp
  next
    case False
    with assms(1) have "\<exists>(i, _) \<in> set (applied st). i \<notin> set (map mig_id ms)" by blast
    then show ?thesis unfolding pending_def by simp
  qed
  then obtain e where "pending ms (applied st) = Inl e" by (auto simp: isl_def)
  then show "isl (assertMigrated ms st)" "isl (fst (migrate exec ms st)) \<and> database (snd (migrate exec ms st)) = database st"
    by (simp_all add: assertMigrated_def and_then_def migrate_def Let_def)
qed

text \<open>What is read from the directory has distinct numbers, and so distinct identifiers, in order.\<close>

lemma read_files_numbers:
  assumes "read_files sha numbers files = Inr ms"
  shows "distinct (map (take 4 \<circ> mig_id) ms) \<and> set (map (take 4 \<circ> mig_id) ms) \<inter> set numbers = {}"
  using assms
proof (induction files arbitrary: numbers ms)
  case (Cons f files)
  obtain name sql where f: "f = (name, sql)" by fastforce
  with Cons.prems obtain rest where rest: "read_files sha (take 4 name # numbers) files = Inr rest"
    and ms: "ms = \<lparr>mig_id = take (length name - 4) name, mig_sql = sql, mig_checksum = sha sql\<rparr> # rest"
    and name: "migration_file name" "take 4 name \<notin> set numbers"
    by (auto simp: and_then_Inr_iff split: if_splits)
  have "drop 5 (take (length name - 4) name) \<noteq> []" using name(1) by (simp add: migration_file_def Let_def)
  then have "5 < length name - 4" by simp
  then have "take 4 (take (length name - 4) name) = take 4 name" by (simp add: min_def)
  with Cons.IH [OF rest] ms name(2) show ?case by (auto simp: comp_def)
qed simp

lemma readMigrations_distinct: "readMigrations sha directory = Inr ms \<Longrightarrow> distinct (map mig_id ms)"
  using read_files_numbers [of sha "[]"] unfolding readMigrations_def
  by (metis distinct_map list.map_comp)

section \<open>The property\<close>

text \<open>
  C35. With migrations only ever appended, a store migrated by any number of builds is what the
  migrations of the last, from the first on, make of an empty one; a run that fails leaves a
  shorter start of the same, which the next run goes on from; and a run that succeeds leaves
  nothing pending, so that running again changes nothing.
\<close>

theorem migrations_build_the_store:
  assumes "distinct (map mig_id (old @ added))" "built_by exec d0 old st" "migrate exec (old @ added) st = (v, st')"
  shows "\<exists>n. built_by exec d0 (old @ take n added) st' \<and>
    (\<forall>ids. v = Inr ids \<longrightarrow> n = length added \<and> ids = map mig_id added \<and> assertMigrated (old @ added) st' = Inr () \<and>
       migrate exec (old @ added) st' = (Inr [], st'))"
proof -
  let ?st1 = "st\<lparr>kippu_migrations := Some (applied st)\<rparr>"
  have todo: "pending (old @ added) (applied ?st1) = Inr added"
    using pending_after_prefix [OF assms(1)] assms(2) by (simp add: built_by_def)
  obtain u st2 where all: "apply_all exec added ?st1 = (u, st2)" by fastforce
  from apply_all_built [OF _ this, of d0 old] assms(2) obtain n where
    n: "built_by exec d0 (old @ take n added) st2" "u = Inr () \<longrightarrow> n = length added" by auto
  have st': "st' = st2" and v: "v = map_sum id (\<lambda>_. map mig_id added) u"
    using assms(3) todo all by (auto simp: migrate_def Let_def split: sum.splits)
  have "assertMigrated (old @ added) st' = Inr () \<and> migrate exec (old @ added) st' = (Inr [], st')"
    if "n = length added"
  proof (rule migrated_store_stays [OF assms(1)])
    show "applied st' = map migration_row (old @ added)" using n(1) st' that by (simp add: built_by_def)
    show "kippu_migrations st' = Some (applied st')" using apply_all_table [of ?st1 exec added] all st' by simp
  qed
  moreover have "n = length added \<and> ids = map mig_id added" if "v = Inr ids" for ids
    using that v n(2) by (cases u; simp)
  ultimately show ?thesis using n(1) st' by blast
qed

definition two_migrations :: "migration list" where
  "two_migrations = [\<lparr>mig_id = ''0001_events'', mig_sql = ''CREATE'', mig_checksum = ''c1''\<rparr>,
     \<lparr>mig_id = ''0002_sales'', mig_sql = ''ALTER'', mig_checksum = ''c2''\<rparr>]"

definition no_database :: "string list migrating" where
  "no_database = \<lparr>kippu_migrations = None, database = []\<rparr>"

theorem migrations_build_the_store_witness:
  "assertMigrated two_migrations (snd (migrate (\<lambda>sql d. Some (d @ [sql])) two_migrations no_database)) = Inr () \<and>
   database (snd (migrate (\<lambda>sql d. Some (d @ [sql])) two_migrations no_database)) = [''CREATE'', ''ALTER'']"
proof -
  let ?exec = "\<lambda>sql d :: string list. Some (d @ [sql])"
  obtain v st' where run: "migrate ?exec ([] @ two_migrations) no_database = (v, st')" by fastforce
  have "fst (migrate ?exec two_migrations no_database) = Inr [''0001_events'', ''0002_sales'']"
    by (simp add: migrate_def applied_def no_database_def two_migrations_def pending_def apply_one_def migration_row_def)
  with run have v: "v = Inr [''0001_events'', ''0002_sales'']" by simp
  have "distinct (map mig_id ([] @ two_migrations))" "built_by ?exec [] [] no_database"
    by (simp_all add: two_migrations_def built_by_def applied_def no_database_def)
  from migrations_build_the_store [OF this run] v obtain n where "built_by ?exec [] (take n two_migrations) st'"
    "n = length two_migrations" "assertMigrated two_migrations st' = Inr ()" by auto
  then show ?thesis using run by (simp add: built_by_def two_migrations_def)
qed

end
