(* ===== verification/Spec2Isabelle.thy ===== *)
theory Spec2Isabelle
  imports Examples Windows OfferFacts LinkFacts GrantFacts DerivedProperties SponsorCopy SponsorshipProperties PersonalDataFacts MetadataProperties ProofProperties AuthorityProperties ConfigurationProperties BoundaryProperties TransportProperties EventAdministration SaleTrail BloqueProperties Migrations
begin

text \<open>
  The API of Kippu: organisers put events on a ledger (Ticketto) and sell their tickets through
  it, buyers check out and pay, holders are issued tickets, operators report admissions at gates,
  and reviewers decide capacity increases.  The code is TypeScript over PostgreSQL; the ledger,
  the payment provider, key management, object storage and the validator of inputs are packages
  or services it calls.  This development models its own logic: the tables as lists of rows, every
  operation as a function of them, and what the outside answers as parameters or arguments.

  \<^bold>\<open>The parts and how they interact.\<close>  A request arrives at a router (\<open>src/*/router.ts\<close>), is given a
  context from its bearer token (\<open>src/trpc\<close>), and calls a service.  Services read the ledger, change
  Kippu's tables in transactions, and write to the ledger through the relay (\<open>src/audit\<close>), which
  records an audit row before anything is signed; organisers' writes are signed with a key of theirs in a
  KMS (\<open>src/authority\<close>).  Sales (\<open>src/sales\<close>) and events (\<open>src/events\<close>) share an event's capacity,
  class quotas and seats, under advisory locks.  The payment provider reports by webhook or is asked;
  a verified payment takes the place and the ticket is issued.  A background reader replays the
  ledger's log into the derived copy (\<open>src/derived\<close>), from which the read services, the flags
  of admissions and the sponsor relay (\<open>src/sponsor\<close>) answer.  The relay sponsors what accounts sign
  (\<open>packages/sponsorship\<close>).  Public documents are stored and served by \<open>src/metadata\<close>.

  \<^bold>\<open>Conventions.\<close>
  \<^item> A table is the list of its rows in insertion order, with the columns the code writes or
    reads; a statement that a constraint refuses is \<open>StoreError\<close>.  A row also stands for the view a
    query maps it to, where the fields have its columns' names.
  \<^item> A transaction is one atomic step that changes nothing when it throws; what makes it atomic is
    the isolation of the database or the advisory locks it takes, whose order is that of
    \<open>Allocation.lock\<close>.  Statements outside a transaction commit one by one, so an operation that fails
    between them returns the tables beside its error.
  \<^item> A thrown error is \<open>Inl\<close> of a \<open>failure\<close> (or of the component's own error type).  Messages are not
    modelled, only codes, reasons and whether a message is shown.
  \<^item> The clock, fresh identifiers, tokens and random bytes are arguments; one operation reads the
    clock once.  Time is in milliseconds.  Money and counts are unbounded integers, with the bounds the
    code checks written out (\<open>isPrice\<close>, \<open>MAX_SAFE_INTEGER\<close>).
  \<^item> Strings and byte arrays are lists of characters below 256, one per code unit or byte; a test of the
    code on other characters (well-formedness, NFC) is a parameter.
  \<^item> Parameters stand for code outside the repository: the SDK and the profile, the ledger's answers, the
    payment provider, KMS, S3, hashing and curves, WebAuthn, the validators, the parsers of URLs, JSON and
    numbers.  What is relied on is a hypothesis of the property (\<open>env_ok\<close>, \<open>test_ok\<close>,
    \<open>validator_ok\<close>, the laws of \<open>payment_provider\<close>, \<open>bloque_contract\<close>), and each such property has a witness with
    concrete functions.

  \<^bold>\<open>The theories.\<close>  In the order of the code's layers; each names its sources in its own text.
  \<^item> Shared: \<open>Prelude\<close> (SQL readings of lists, fallible steps, the lemma collections), \<open>Domain\<close> (rows,
    errors, the ledger's answers, the \<open>store\<close>), \<open>Numerals\<close>.
  \<^item> Allocation and sales: \<open>Allocation\<close> (\<open>sales/allocation.ts\<close>, \<open>on-sale.ts\<close>, \<open>audit.ts\<close>,
    \<open>events/seats.ts\<close>), \<open>Catalogue\<close> (\<open>classes\<close>, \<open>zones.ts\<close>, \<open>sale-assets.ts\<close>, \<open>pass-window.ts\<close>,
    \<open>ownership.ts\<close>), \<open>Holds\<close>, \<open>Checkouts\<close>, \<open>Payments\<close>, \<open>SaleActions\<close> (\<open>organiser-actions.ts\<close>,
    \<open>cancellation-refunds.ts\<close>, \<open>inventory.ts\<close>), \<open>SaleTrail\<close> (\<open>primarySaleTrail\<close>), \<open>Provider\<close> (the contract as
    a locale and the test provider as its instance), \<open>Bloque\<close> (the adapter of the real provider), \<open>PaymentsConfig\<close>.
  \<^item> Events: \<open>Issuance\<close> (granted issuance, invitations), \<open>Lifecycle\<close> (capacity, status, scheduled finishes),
    \<open>EventAdministration\<close> (creation, restrictions, the list of invitations), \<open>Proofs\<close> (capacity proofs).
  \<^item> Who acts: \<open>AuditLog\<close> (\<open>audit\<close>), \<open>Authority\<close> (\<open>authority\<close>), \<open>Accounts\<close> and \<open>Authentication\<close>
    (\<open>auth\<close>), \<open>Operators\<close>, \<open>Reviewers\<close>.
  \<^item> The derived copy: \<open>DerivedCopy\<close> (tables and projection), \<open>DerivedReader\<close>, \<open>DerivedQueries\<close>,
    \<open>AdmissionFlags\<close>, \<open>Reads\<close>.
  \<^item> Sponsorship: \<open>Sponsor\<close>, \<open>SponsorCopy\<close>, \<open>Sponsorship\<close>, \<open>RelayClient\<close>.
  \<^item> Metadata: \<open>Metadata\<close>, \<open>PersonalData\<close> (the lint of schemas).
  \<^item> The edges: \<open>LedgerBoundary\<close> (the allow list in front of the SDK), \<open>Transport\<close>, \<open>Schemas\<close>, \<open>Routers\<close>,
    \<open>Configuration\<close>, \<open>Migrations\<close> (the runner of \<open>store/migrate.ts\<close>).

  \<^bold>\<open>State and steps.\<close>  \<open>store\<close> holds the tables of sales and events, \<open>accounts\<close> those of logins,
  operators and reviewers, \<open>authority_state\<close> ledger accounts and KMS keys, \<open>copy\<close> the derived copy,
  and \<open>review\<close> the capacity proofs.  Two of them are also transition systems, one rule per transaction with any
  arguments, so that a run is any interleaving of requests, webhooks and background passes:
  \<open>SalesSystem.step\<close> over the ledger and the store, and \<open>AccountSteps.account_step\<close>.  \<open>ProofFacts.reviews\<close> and
  \<open>AuthorityFacts.authority_steps\<close> do the same for reviews and for provisioning.

  \<^bold>\<open>What the lemmas show.\<close>
  \<^item> \<open>SalesSpec\<close> is the abstract machine of sales: who holds a place and who is owed what, a guard per
    transition.  \<open>SalesInvariants\<close> and \<open>SalesBounds\<close> prove its invariants, the bounds through the locale
    \<open>Admission.admission\<close>, interpreted for events and for classes.  \<open>Refinement\<close> shows that each transaction of the
    code is a sequence of its transitions and \<open>SalesSystem\<close> that every reachable store therefore has the
    invariants; \<open>Operations\<close> that whole operations are sequences of steps, whatever the provider and
    the ledger answer.  \<open>SalesFacts\<close>, \<open>OfferFacts\<close>, \<open>GrantFacts\<close> and \<open>LinkFacts\<close> add the life of a hold, the
    transactions outcome by outcome, what the inventory offers, grants and pairing.
  \<^item> \<open>AccountFacts\<close>: codes and sessions are unique and used once, revocations and disablings last;
    \<open>AccountOperations\<close>: every operation is a run of account steps.
  \<^item> \<open>CopyFacts\<close>, \<open>CopyHistory\<close>: a run of the reader leaves the replay of a prefix of the log, catching up ends
    with all of it, and a replay says of events and tickets what the log's history says; \<open>FlagFacts\<close> and \<open>ReadFacts\<close>
    carry this to flags and to pages.
  \<^item> \<open>SponsorFacts\<close>, \<open>SponsorshipFacts\<close>: what is sponsored, the rate limit over every window, the encoding and its
    strict decoding, and that a client ends with a sponsorship that verifies.
  \<^item> \<open>MetadataFacts\<close>, \<open>PersonalDataFacts\<close>, \<open>AuthorityFacts\<close>, \<open>ProofFacts\<close>: relocatable documents, the lint against an
    inductive reading of schemas, one account per organiser, and reviewed increases.
  \<^item> \<open>Walkthrough\<close> and \<open>Examples\<close> hold the run of one sale and the stores the witnesses use.  The properties of
    sales are in this theory, the others in the \<open>...Properties\<close> theories.

  \<^bold>\<open>Loops and their ends.\<close>  The loops of the reader (\<open>catchUp\<close>) and of the reports of an event
  (\<open>reportsFrom\<close>) are partial functions; C16 and C21 show that they return, on a log that does not grow
  and on any reports.  The retries of a refund's recording are bounded by the code's own
  \<open>REFUND_RECORDING_ATTEMPTS\<close>, those of the relay's client by its number of attempts (\<open>attempts_from\<close>, a measure on
  the attempts left).  The walks over JSON (\<open>walk_schema\<close>, \<open>walk_references\<close>) and over command values
  (\<open>assertAllowed\<close>) end by the size of the value.  Everything else is structural or not recursive; no fuel is used.

  \<^bold>\<open>Not modelled.\<close>  Process start-up and wiring (\<open>server.ts\<close>, \<open>app.ts\<close>, most of \<open>wiring.ts\<close>, the service
  constructors, the command lines, the edge server); the database connection; timers,
  notification listeners, retries and waits of background passes; the JSON Schema validator, a package
  not in the repository; the development stand-ins
  (software KMS, development sponsor); test clients and re-exported types.  Of the tables, the columns no modelled
  code reads, and the CHECKs on \<open>checkout_sessions.created_principal_kind\<close> and \<open>checkout_audit.actor\<close>, which refuse
  a reviewer's checkout, are left out.
\<close>

section \<open>Allocation\<close>



text \<open>
  C2. A class with a quota is never sold beyond it: holds still standing and granted
  issuances not refused stay within the quota in every reachable store.
\<close>

theorem no_quota_oversell:
  assumes "reachable E L s" "env_ok E" "k \<in> set (ticket_classes s)" "quota k = Some q"
  shows "int (count_where (\<lambda>h. hold_class h = class_id k \<and> live h) (holds s) +
              count_where (\<lambda>g. granted_class g = class_id k \<and> counted g) (granted_issuances s)) \<le> max 0 q"
proof -
  have "quota_ok (core_of s)" using reachable_inv [OF assms(1,2)] by (simp add: sales_inv_def)
  then have "int (class_load (class_id k) (core_of s)) \<le> max 0 q"
    using assms(3,4) by (simp add: quota_ok_def core_of_def)
  then show ?thesis by (simp add: class_load_def load_def core_of_def)
qed

theorem no_quota_oversell_witness:
  "int (count_where (\<lambda>h. hold_class h = ''class'' \<and> live h) (holds walk7) +
     count_where (\<lambda>g. granted_class g = ''class'' \<and> counted g) (granted_issuances walk7)) \<le> 1"
  using no_quota_oversell [OF reach7 walk_env_ok, of "class_of_input walk_class ''class'' 0" 1]
  by (simp add: walk7_classes class_of_input_def walk_class_def)



section \<open>The life of a hold\<close>

text \<open>
  C4. Whatever runs between two stores, a hold stays in the table with everything it was
  placed with, price and asset included, and its status only moves along the states of a
  hold's life; a confirmed hold stays confirmed, and one that ended is never outstanding again.
\<close>

theorem hold_life:
  assumes "reachable E L s" "env_ok E" "steps E (L, s) (L', s')" "h \<in> set (holds s)"
  shows "\<exists>h' \<in> set (holds s'). same_terms h h' \<and> hold_next\<^sup>*\<^sup>* (hold_status h) (hold_status h') \<and>
           (hold_status h = Confirmed \<longrightarrow> hold_status h' = Confirmed) \<and>
           (hold_status h \<noteq> Outstanding \<longrightarrow> hold_status h' \<noteq> Outstanding)"
proof -
  have "sys_inv E (L, s)" using reachable_inv [OF assms(1,2)] by (simp add: sys_inv_def)
  then obtain h' where "h' \<in> set (holds s')" "hold_moves h h'"
    using steps_moves [OF assms(3) _ assms(2)] assms(4) by auto
  then show ?thesis
    using confirmed_for_ever never_outstanding_again unfolding hold_moves_def by (intro bexI [of _ h']) auto
qed

theorem hold_life_witness:
  "\<exists>h' \<in> set (holds walk6). same_terms walk_hold h' \<and> hold_next\<^sup>*\<^sup>* Outstanding (hold_status h')"
  using hold_life [OF reach5 walk_env_ok walk_issues, of walk_hold]
  by (auto simp: walk5_holds walk_hold_def new_hold_def)



text \<open>
  A hold's status says what sales stand for it: a confirmed hold has exactly one, issued;
  an issuing hold exactly one, not yet issued; any other hold none that was not refused.
\<close>

theorem hold_status_agrees:
  assumes "reachable E L s" "env_ok E" "h \<in> set (holds s)"
  shows "let standing = map sale_status (filter (\<lambda>x. sale_hold x = hold_id h \<and> sale_status x \<noteq> SaleRejected)
                          (primary_sales s))
         in case hold_status h of Confirmed \<Rightarrow> standing = [SaleIssued]
            | Issuing \<Rightarrow> standing = [SaleIssuing] \<or> standing = [SaleFailed]
            | _ \<Rightarrow> standing = []"
proof -
  have "holds_match (core_of s)" using reachable_inv [OF assms(1,2)] by (simp add: sales_inv_def)
  then have "sales_match (hold_status h) (active_sales (primary_sales s) (hold_id h))"
    using assms(3) by (simp add: holds_match_def core_of_def)
  then show ?thesis by (cases "hold_status h") (simp_all add: active_sales_def)
qed

theorem hold_status_agrees_witness:
  "map sale_status (filter (\<lambda>x. sale_hold x = ''hold'' \<and> sale_status x \<noteq> SaleRejected) (primary_sales walk6)) =
     [SaleIssuing]"
  using hold_status_agrees [OF reach6 walk_env_ok, of "take_row walk_hold"]
  by (simp add: walk6_holds walk6_sales Let_def walk_hold_def new_hold_def)

section \<open>Payments and sales\<close>

text \<open>
  C6. No ticket without payment: every sale belongs to a hosted checkout of its own hold, made
  for exactly the hold's price and asset, and the audit trail holds a verified payment of
  exactly that amount and asset for that checkout.
\<close>

theorem sale_was_paid:
  assumes "reachable E L s" "env_ok E" "x \<in> set (primary_sales s)"
  shows "\<exists>k \<in> set (hosted_checkouts s). \<exists>h \<in> set (holds s). \<exists>a \<in> set (checkout_audit s).
           hosted_id k = sale_hosted x \<and> hosted_hold k = sale_hold x \<and> hold_id h = sale_hold x \<and>
           hold_price h = Some (hosted_amount k) \<and> hold_asset h = Some (hosted_asset k) \<and>
           audit_step a = PaymentVerified \<and>
           audit_detail a = [(''providerCheckout'', DStr (provider_checkout_id k)),
             (''amount'', DNum (hosted_amount k)), (''asset'', DStr (hosted_asset k))]"
proof -
  have inv: "sales_ok (core_of s)" "hosted_ok (core_of s)"
    using reachable_inv [OF assms(1,2)] by (simp_all add: sales_inv_def)
  obtain k a where k: "k \<in> set (hosted_checkouts s)" "hosted_id k = sale_hosted x" "hosted_hold k = sale_hold x"
    and a: "a \<in> set (checkout_audit s)" "verifies k a"
    using inv(1) assms(3) by (auto simp: sales_ok_def core_of_def)
  moreover obtain h where "h \<in> set (holds s)" "hold_id h = hosted_hold k"
    "hold_price h = Some (hosted_amount k)" "hold_asset h = Some (hosted_asset k)"
    using inv(2) k(1) by (auto simp: hosted_ok_def core_of_def)
  ultimately show ?thesis unfolding verifies_def by (metis (no_types, lifting))
qed

theorem sale_was_paid_witness:
  "\<exists>k \<in> set (hosted_checkouts walk6). \<exists>a \<in> set (checkout_audit walk6).
     hosted_id k = sale_hosted walk_sale \<and> audit_step a = PaymentVerified"
  using sale_was_paid [OF reach6 walk_env_ok, of walk_sale] by (auto simp: walk6_sales)

text \<open>
  C7. A payment has one outcome: a hosted checkout has at most one sale and at most one refund
  entitlement, and both only where the ledger refused the sale, or the event was cancelled
  after the ticket may have been issued.
\<close>

theorem one_outcome_per_payment:
  assumes "reachable E L s" "env_ok E"
  shows "distinct (map sale_hosted (primary_sales s)) \<and>
         distinct (map refund_hosted (refund_entitlements s)) \<and>
         (\<forall>x \<in> set (primary_sales s). \<forall>r \<in> set (refund_entitlements s). refund_hosted r = sale_hosted x \<longrightarrow>
            (refund_reason r = IssuanceRejected \<and> sale_status x = SaleRejected) \<or>
            (refund_reason r = EventCancelled \<and> (sale_status x = SaleIssued \<or> sale_status x = SaleFailed) \<and>
             refund_ticket r = sale_ticket x))"
proof -
  have inv: "distinct_keys (core_of s)" "refunds_ok (core_of s)"
    using reachable_inv [OF assms] by (simp_all add: sales_inv_def)
  have keys: "distinct (map sale_hosted (primary_sales s))" "distinct (map refund_hosted (refund_entitlements s))"
    using inv(1) by (simp_all add: distinct_keys_def core_of_def)
  have "(refund_reason r = IssuanceRejected \<and> sale_status x = SaleRejected) \<or>
        (refund_reason r = EventCancelled \<and> (sale_status x = SaleIssued \<or> sale_status x = SaleFailed) \<and>
         refund_ticket r = sale_ticket x)"
    if x: "x \<in> set (primary_sales s)" and r: "r \<in> set (refund_entitlements s)" "refund_hosted r = sale_hosted x"
    for x r
  proof -
    have "refund_stands (primary_sales s) r" using inv(2) r(1) by (simp add: refunds_ok_def core_of_def)
    have one: "y = x" if "y \<in> set (primary_sales s)" "sale_hosted y = refund_hosted r" for y
      using distinct_key_eq [OF keys(1) that(1) x] that(2) r(2) by simp
    show ?thesis
    proof (cases "refund_reason r")
      case EventCancelled
      then obtain y where "y \<in> set (primary_sales s)" "sale_hosted y = refund_hosted r"
        "sale_status y = SaleIssued \<or> sale_status y = SaleFailed" "sale_ticket y = refund_ticket r"
        using \<open>refund_stands (primary_sales s) r\<close> by (auto simp: refund_stands_def)
      with EventCancelled one show ?thesis by auto
    next
      case IssuanceRejected
      then obtain y where "y \<in> set (primary_sales s)" "sale_hosted y = refund_hosted r"
        "sale_status y = SaleRejected"
        using \<open>refund_stands (primary_sales s) r\<close> by (auto simp: refund_stands_def)
      with IssuanceRejected one show ?thesis by blast
    qed (use \<open>refund_stands (primary_sales s) r\<close> x r(2) in \<open>auto simp: refund_stands_def\<close>)
  qed
  with keys show ?thesis by blast
qed

theorem one_outcome_per_payment_witness:
  "distinct (map sale_hosted (primary_sales walk7)) \<and> distinct (map refund_hosted (refund_entitlements walk7))"
  using one_outcome_per_payment [OF reach7 walk_env_ok] by simp

text \<open>
  A ticket's face value is the price its buyer paid: each face value belongs to an issued
  sale with that ticket and equals its hold's price and asset, and every issued sale has one.
\<close>

theorem face_value_is_price:
  assumes "reachable E L s" "env_ok E"
  shows "(\<forall>f \<in> set (face_values s). \<exists>x \<in> set (primary_sales s). \<exists>h \<in> set (holds s).
            sale_id x = face_sale f \<and> sale_status x = SaleIssued \<and> sale_ticket x = Some (face_ticket f) \<and>
            hold_id h = sale_hold x \<and> hold_price h = Some (face_amount f) \<and> hold_asset h = Some (face_asset f)) \<and>
         (\<forall>x \<in> set (primary_sales s). sale_status x = SaleIssued \<longrightarrow>
            (\<exists>f \<in> set (face_values s). face_sale f = sale_id x))"
proof -
  have "faces_ok (core_of s)" using reachable_inv [OF assms] by (simp add: sales_inv_def)
  then show ?thesis by (simp add: faces_ok_def core_of_def)
qed

theorem face_value_is_price_witness:
  "\<exists>x \<in> set (primary_sales walk7). sale_status x = SaleIssued \<and>
     (\<exists>f \<in> set (face_values walk7). face_sale f = sale_id x)"
proof -
  have "\<exists>x \<in> set (primary_sales walk7). sale_status x = SaleIssued" by (simp add: walk7_def)
  then show ?thesis using face_value_is_price [OF reach7 walk_env_ok] by blast
qed

text \<open>
  C8. While an event's sales are closed, no payment takes a place: taking a verified payment
  records no sale and answers that nothing is to be issued.
\<close>

theorem closed_sales_sell_nothing:
  assumes "takePlace E L q k r at D s = Inr (res, s')" "hold_by_id s (hosted_hold k) = Some h"
    and "salesClosed s (hold_event h)"
  shows "res = None \<and> primary_sales s' = primary_sales s"
  by (rule takePlace_closed [OF assms])

theorem closed_sales_sell_nothing_witness:
  "primary_sales walk6_closed = primary_sales walk5_closed \<and> map refund_reason (refund_entitlements walk6_closed) = [EventClosed]"
proof -
  have "map refund_reason (refund_entitlements walk6_closed) = [EventClosed]" by code_simp
  with closed_sales_sell_nothing [OF walk6_closed walk5_closed_hold walk5_closed_closed] show ?thesis by simp
qed

text \<open>
  A payment of another amount or asset than the hosted checkout's buys nothing, and one
  not yet handled is owed back exactly as the provider reported it.
\<close>

theorem mismatch_buys_nothing:
  assumes "takePlace E L q k r at D s = Inr (res, s')" "\<not> handled s (hosted_id k)"
    and "remote_amount r \<noteq> hosted_amount k \<or> remote_asset r \<noteq> hosted_asset k"
  shows "res = None \<and> primary_sales s' = primary_sales s \<and>
         (\<exists>f \<in> set (refund_entitlements s'). refund_hosted f = hosted_id k \<and>
            refund_amount f = remote_amount r \<and> refund_asset f = remote_asset r \<and> refund_reason f = AmountMismatch)"
  using takePlace_mismatch [OF assms(1,3)] takePlace_mismatch_refund [OF assms] by blast

theorem mismatch_buys_nothing_witness:
  "\<exists>f \<in> set (refund_entitlements walk6_mismatch). refund_amount f = 1 \<and> refund_reason f = AmountMismatch"
proof -
  have "\<not> handled walk5 (hosted_id walk_hosted)"
    by (simp add: handled_def walk_values empty_store_def exists_where_def)
  moreover have "remote_amount (walk_remote\<lparr>remote_amount := 1\<rparr>) \<noteq> hosted_amount walk_hosted"
    by (simp add: walk_hosted_simps)
  ultimately show ?thesis using mismatch_buys_nothing [OF walk6_mismatch] by auto
qed

text \<open>
  C9. A payment is handled once: taking it leaves it handled, and taking a handled payment
  again, on a later report, changes nothing but the recorded status.
\<close>

theorem payment_handled_once:
  assumes "takePlace E L q k r at D s = Inr (res, s1)"
    and "takePlace E L q' k r' at' D' s1 = Inr (res', s2)"
  shows "handled s1 (hosted_id k) \<and> res' = None \<and> s2 = recordStatus (hosted_id k) (remote_status r') at' s1"
  using takePlace_handles [OF assms(1)] takePlace_again [OF _ assms(2)] by blast

theorem payment_handled_once_witness:
  "handled walk6 (hosted_id walk_hosted) \<and> walk6_again = recordStatus (hosted_id walk_hosted) Paid 4500 walk6"
proof -
  have "remote_status walk_remote = Paid" by (simp add: walk_remote_def)
  with payment_handled_once [OF walk6 walk6_again] show ?thesis by simp
qed

text \<open>
  C10. A sale needs the provider's word: reconciling a hosted checkout, which is all a webhook
  leads to, records a new sale only when the provider itself, asked for that checkout, reports it
  paid, for its hold, at exactly its amount and asset.
\<close>

theorem sale_needs_providers_word:
  assumes "reconcile X rid pid who at D (s, p) = (res, s', p')"
    and "x \<in> set (primary_sales s')" "sale_id x \<notin> sale_id ` set (primary_sales s)"
  shows "\<exists>k r. k \<in> set (hosted_checkouts s) \<and> provider_checkout_id k = pid \<and>
           fst (retrieve (s_provider X) pid p) = Inr r \<and> remote_status r = Paid \<and>
           remote_hold r = Some (hosted_hold k) \<and> remote_amount r = hosted_amount k \<and>
           remote_asset r = hosted_asset k"
proof -
  let ?q = "\<lparr>cause_request = rid, cause_actor = who\<rparr>"
  have moved: "primary_sales s' \<noteq> primary_sales s" using assms(2,3) by auto
  obtain k where k: "find (\<lambda>k. provider_checkout_id k = pid) (hosted_checkouts s) = Some k"
    using assms(1) moved by (cases "find (\<lambda>k. provider_checkout_id k = pid) (hosted_checkouts s)")
      (auto simp: reconcile_def)
  obtain ans p1 where ans: "retrieve (s_provider X) pid p = (ans, p1)" by fastforce
  obtain r where r: "ans = Inr r"
    using assms(1) moved k ans by (cases ans) (auto simp: reconcile_def)
  have hold: "remote_hold r = Some (hosted_hold k)"
    using assms(1) moved k ans r by (auto simp: reconcile_def Let_def split: if_splits)
  have paid: "remote_status r = Paid"
    using assms(1) moved k ans r hold by (auto simp: reconcile_def Let_def split: if_splits)
  obtain out s1 where out: "takePlace (s_env X) (s_ledger X) ?q k r at D s = Inr (out, s1)"
    using assms(1) moved k ans r hold paid
    by (cases "takePlace (s_env X) (s_ledger X) ?q k r at D s") (auto simp: reconcile_def in_transaction_def Let_def)
  have "out \<noteq> None"
  proof
    assume none: "out = None"
    then have "s' = s1" using assms(1) k ans r hold paid out by (simp add: reconcile_def in_transaction_def Let_def)
    then have "map sale_id (primary_sales s') = map sale_id (primary_sales s)"
      using takePlace_none_sales out none by simp
    then have "sale_id ` set (primary_sales s') = sale_id ` set (primary_sales s)" by (metis list.set_map)
    then show False using assms(2,3) by blast
  qed
  then have "remote_amount r = hosted_amount k \<and> remote_asset r = hosted_asset k"
    using takePlace_mismatch [OF out] by blast
  then show ?thesis using find_Some_in [OF k] ans r hold paid by auto
qed

theorem sale_needs_providers_word_witness:
  "\<exists>k \<in> set (hosted_checkouts walk5). provider_checkout_id k = ''pay'' \<and> hosted_amount k = 500"
proof -
  obtain res s' p' where run: "reconcile paid_setting ''webhook'' ''pay'' PaymentProvider 4000 walk_draws (walk5, ()) = (res, s', p')"
    by (metis prod.collapse)
  then have "map sale_id (primary_sales s') = [''shosted'']" using paid_sale by simp
  then obtain x where "x \<in> set (primary_sales s')" "sale_id x = ''shosted''" by (cases "primary_sales s'") auto
  moreover have "primary_sales walk5 = []" by (simp add: walk_values)
  ultimately show ?thesis
    using sale_needs_providers_word [OF run, of x]
    by (auto simp: paid_setting_def walk_remote_def)
qed

text \<open>
  C11. Paying needs a live hold: a hosted checkout is handed out only for the token's own hold,
  linked and confirmed, still outstanding and in time, while the event's sales are open; and it is
  an open one of that hold, on record.
\<close>

theorem payment_needs_a_live_hold:
  assumes "pay X req inp at D (s, p) = (Inr k, s', p')"
  shows "\<exists>h c. holdByToken (s_env X) s (pay_token inp) = Inr (h, c) \<and> link_confirmed_at c \<noteq> None \<and>
           holder_account c \<noteq> None \<and> hold_status h = Outstanding \<and> at < expires_at h \<and>
           \<not> salesClosed s (hold_event h) \<and>
           (hosted_hold k = hold_id h \<and> hosted_status k = Open) \<and> k \<in> set (hosted_checkouts s')"
proof -
  obtain h amount ast where pb: "payable (s_env X) s (pay_token inp) at = Inr (h, amount, ast)"
    using assms by (cases "payable (s_env X) s (pay_token inp) at") (auto simp: pay_def)
  have "hosted_hold k = hold_id h \<and> hosted_status k = Open \<and> k \<in> set (hosted_checkouts s')"
  proof (cases "openHosted s (hold_id h)")
    case None
    then show ?thesis using assms pb started_payment by (simp add: pay_def)
  next
    case (Some k0)
    then have k0: "k0 \<in> set (hosted_checkouts s)" "hosted_hold k0 = hold_id h" "hosted_status k0 = Open"
      unfolding openHosted_def by (auto dest: find_Some_in)
    obtain r p1 where r: "retrieve (s_provider X) (provider_checkout_id k0) p = (Inr r, p1)"
      using assms pb Some by (auto simp: pay_def split: prod.splits sum.splits)
    show ?thesis
    proof (cases "remote_status r = Open")
      case True
      then show ?thesis using assms pb Some r k0 by (simp add: pay_def)
    next
      case False
      then show ?thesis
        using assms pb Some r started_payment by (cases "remote_status r = Paid") (simp_all add: pay_def Let_def)
    qed
  qed
  with payable_facts [OF pb] show ?thesis by blast
qed

theorem payment_needs_a_live_hold_witness:
  "\<exists>h c. holdByToken walk_env walk4 ''token'' = Inr (h, c) \<and> link_confirmed_at c \<noteq> None \<and> hold_status h = Outstanding"
proof -
  obtain k s' p' where "pay walk_setting walk_request paying_input 2500 walk_draws (walk4, walk_provider) = (Inr k, s', p')"
    using walk_pays by (metis isl_def prod.collapse sum.exhaust)
  from payment_needs_a_live_hold [OF this] show ?thesis by (auto simp: walk_setting_def paying_input_def)
qed

section \<open>Placing and offering\<close>

text \<open>
  Placing a hold never trips over the unique indexes of the holds table: its own checks,
  under the allocation locks, refuse the seat, the class or the event first, so the buyer
  always gets the refusal and never a store error.
\<close>

theorem place_within_indexes:
  assumes "reachable E L s" "env_ok E" "k \<in> set (checkout_sessions s)"
    and "\<forall>h \<in> set (holds s). hold_id h \<noteq> i"
  shows "place E L req (checkout_id k) (target_of k) at i s \<noteq> Inl StoreError"
proof (rule place_never_conflicts [OF reachable_inv [OF assms(1,2)] _ assms(4)])
  show "normal_position E (t_position (target_of k))"
    using reachable_inv [OF assms(1,2)] assms(3)
    by (simp add: sales_inv_def positions_ok_def core_of_def target_of_def)
qed

theorem place_within_indexes_witness:
  "place walk_env walk_ledger walk_request ''checkout'' (target_of walk_checkout) 2000 ''another'' walk4 \<noteq>
     Inl StoreError"
proof -
  have "checkout_sessions walk4 = [walk_checkout]" "hold_id walk_hold \<noteq> ''another''"
    "checkout_id walk_checkout = ''checkout''"
    by (simp_all add: walk_values walk_hold_simps walk_checkout_simps)
  with place_within_indexes [OF reach4 walk_env_ok, of walk_checkout "''another''"] show ?thesis
    by (simp add: walk4_holds)
qed

text \<open>
  Placing is idempotent: a second request of the same checkout, before its hold's time
  is up, answers the same and leaves the store as it is, but for the lapses its clock records.
\<close>

theorem place_is_idempotent:
  assumes "place E L req c t at i s = Inr (None, s')"
    and "\<forall>h \<in> set (holds s'). hold_checkout h = c \<longrightarrow> at' < expires_at h"
  shows "place E L req' c t at' j s' = Inr (None, lapse_event (t_event t) at' s')"
  by (rule place_again [OF assms])

theorem place_is_idempotent_witness:
  "place walk_env walk_ledger walk_request ''checkout'' (target_of walk_checkout) 3000 ''other'' walk4 =
     Inr (None, lapse_event (t_event (target_of walk_checkout)) 3000 walk4)"
  by (rule place_is_idempotent [OF walk4])
    (simp add: walk4_holds walk_hold_def new_hold_def HOLD_LIFETIME_MS_def)



section \<open>All operations\<close>

text \<open>
  C13. Every operation the API, the webhook route and the background passes call keeps the
  store reachable, whatever its arguments, the provider's answers and the ledger's: so the
  invariants above hold after each, errors and partial commits included.
\<close>

theorem operations_stay_reachable:
  assumes "operation X (s, p) (s', p')" "reachable (s_env X) (s_ledger X) s" "env_ok (s_env X)"
  shows "reachable (s_env X) (s_ledger X) s'"
  using reachable_steps [OF assms(2)] operation_steps [OF assms(1) _ assms(3)]
    reachable_inv [OF assms(2,3)] by simp

theorem operations_stay_reachable_witness:
  "reachable walk_env walk_ledger (fst (sweep walk_setting ''sweep'' 999999999 walk_draws (walk4, walk_provider)))"
proof -
  obtain s' p' where swept: "sweep walk_setting ''sweep'' 999999999 walk_draws (walk4, walk_provider) = (s', p')"
    by fastforce
  have op: "operation walk_setting (walk4, walk_provider) (s', p')" unfolding swept [symmetric] by (rule op_sweep)
  have setting: "s_env walk_setting = walk_env" "s_ledger walk_setting = walk_ledger"
    by (simp_all add: walk_setting_def)
  show ?thesis
    using operations_stay_reachable [OF op] reach4 walk_env_ok unfolding setting swept by auto
qed

text \<open>
  C14. Refinement: every transaction of sales, granted issuance, classes, prices and assets, and every
  capacity decrease, on a store with the invariants, is a sequence of transitions of the abstract
  machine on the tables that decide places and money, and leaves the invariants in place.
\<close>

theorem transactions_refine:
  assumes "step E (L, s) (L', s')" "sales_inv E L (core_of s)" "env_ok E"
  shows "spec_run E (L, core_of s) (L', core_of s') \<and> sales_inv E L' (core_of s')"
  using step_refines [OF assms] run_inv [OF step_refines [OF assms] assms(2)] by blast

theorem transactions_refine_witness:
  "spec_run walk_env (walk_ledger, core_of walk5) (walk_ledger, core_of walk6)"
  using transactions_refine [OF step_take [OF _ walk6] reachable_inv [OF reach5 walk_env_ok] walk_env_ok]
  by (simp add: walk5_hosted)

section \<open>The payment provider\<close>

text \<open>
  A hosted checkout the test provider cancelled unpaid is over: whatever is asked of the
  provider or scripted at it afterwards, retrieving it never reports it paid, nor open.
\<close>

theorem cancelled_checkout_never_paid:
  assumes "test_ok p" "test_cancel i p = (Inr r, q)" "remote_status r \<noteq> Paid"
    and "payment_provider.run (test_provider mac parse secret) test_act q q'"
    and "test_retrieve i q' = (Inr r', q'')"
  shows "remote_status r' \<noteq> Paid \<and> remote_status r' \<noteq> Open"
proof -
  have calls: "cancelCheckout (test_provider mac parse secret) i p = (Inr r, q)"
    "retrieve (test_provider mac parse secret) i q' = (Inr r', q'')"
    using assms(2,5) by (simp_all add: test_provider_def)
  have "test_view q i = Some r \<and> remote_status r \<noteq> Open" using tp.cancel_ends [OF assms(1) calls(1)] .
  moreover have "test_ok q" using tp.ok_cancel [OF assms(1), where i = i] calls(1) by (metis snd_conv)
  ultimately have "r' = r" using tp.reported_for_ever [OF _ _ _ assms(4) calls(2)] by blast
  then show ?thesis using assms(3) \<open>test_view q i = Some r \<and> remote_status r \<noteq> Open\<close> by simp
qed

theorem cancelled_checkout_never_paid_witness:
  "\<exists>q' q''. test_retrieve (test_id ''test'' 1) q' = (Inr cancel_remote, q'') \<and> remote_status cancel_remote \<noteq> Paid \<and>
     q' = snd (test_pay (test_id ''test'' 1) None (snd (test_cancel (test_id ''test'' 1) cancel_example)))"
proof -
  let ?i = "test_id ''test'' 1" and ?q = "cancel_example\<lparr>tp_stored := [test_id ''test'' 1 \<mapsto> cancel_remote]\<rparr>"
  let ?q' = "snd (test_pay ?i None ?q)"
  have ok: "test_ok cancel_example" by (auto simp: test_ok_def cancel_example_def intro!: exI [of _ 1])
  have run: "payment_provider.run (test_provider (\<lambda>k b. k @ b) (\<lambda>_. None) []) test_act ?q ?q'"
    by (rule tp.run_act [OF tp.run_refl act_pay])
  have "?q' = ?q"
    by (simp add: test_pay_def with_open_def find_stored_def expire_if_due_def Let_def
        cancel_example_def cancel_remote_def)
  moreover have ret: "test_retrieve ?i ?q = (Inr cancel_remote, ?q)"
    by (simp add: test_retrieve_def failIfScripted_def find_stored_def expire_if_due_def Let_def
        cancel_example_def cancel_remote_def)
  ultimately have "test_retrieve ?i ?q' = (Inr cancel_remote, ?q)" by simp
  moreover from this have "remote_status cancel_remote \<noteq> Paid"
    using cancelled_checkout_never_paid [OF ok cancel_example_cancels _ run] by (simp add: cancel_remote_def)
  ultimately show ?thesis using cancel_example_cancels by auto
qed

text \<open>
  C30. Closing an event's sales is safe against late payments, with any provider that keeps the
  contract checkout relies on: when visiting a hold names none of its hosted checkouts as paid, its open
  one can never be reported paid afterwards, whatever the provider, its buyer and Kippu do.
\<close>

theorem released_hold_never_paid:
  assumes "payment_provider P view act ok" "ok p" "s_provider X = P"
    and "hold_by_id s i = Some h" "openHosted s i = Some k"
    and "release_one X q i at (s, p) = (Inr (n, []), s', p')"
    and "payment_provider.run P act p' p2" "retrieve P (provider_checkout_id k) p2 = (Inr r, p3)"
  shows "remote_status r \<noteq> Paid \<and> remote_status r \<noteq> Open"
  by (rule payment_provider.release_one_unpaid [OF assms])

theorem released_hold_never_paid_witness:
  "\<exists>s' q. release_one release_setting walk_cause ''hold'' 4000 (release_example, cancel_example) = (Inr (1, []), s', q) \<and>
     map hold_status (holds s') = [Released] \<and> remote_status cancel_remote \<noteq> Paid"
proof -
  let ?k = "walk_hosted\<lparr>provider_checkout_id := test_id ''test'' 1\<rparr>"
  let ?q = "cancel_example\<lparr>tp_stored := [test_id ''test'' 1 \<mapsto> cancel_remote]\<rparr>"
  let ?s = "release_for_closing walk_hold walk_cause 4000 (recordCheckoutStep (hold_checkout walk_hold) CheckoutCancelled
     walk_cause 4000 [(''providerCheckout'', DStr (test_id ''test'' 1))]
     (recordStatus (hosted_id ?k) HostedCancelled 4000 release_example))"
  have ok: "test_ok cancel_example" by (auto simp: test_ok_def cancel_example_def intro!: exI [of _ 1])
  have prov: "s_provider release_setting = test_provider (\<lambda>k b. k @ b) (\<lambda>_. None) []"
    by (simp add: release_setting_def)
  have ids: "hold_id walk_hold = ''hold''" "hosted_hold walk_hosted = ''hold''" "hosted_status walk_hosted = Open"
    "hold_status walk_hold = Outstanding" "expires_at walk_hold = 602000"
    by (simp_all add: walk_hold_simps walk_hosted_simps)
  have h: "hold_by_id release_example ''hold'' = Some walk_hold"
    by (simp add: hold_by_id_def release_example_def ids)
  have k: "openHosted release_example ''hold'' = Some ?k"
    by (simp add: openHosted_def release_example_def ids)
  have rel: "release_one release_setting walk_cause ''hold'' 4000 (release_example, cancel_example) = (Inr (1, []), ?s, ?q)"
    using cancel_example_cancels
    by (simp add: release_one_def h k cancelHosted_def release_setting_def test_provider_def cancel_remote_def)
  have run: "payment_provider.run (test_provider (\<lambda>k b. k @ b) (\<lambda>_. None) []) test_act ?q ?q" by (rule tp.run_refl)
  have ret: "retrieve (test_provider (\<lambda>k b. k @ b) (\<lambda>_. None) []) (provider_checkout_id ?k) ?q = (Inr cancel_remote, ?q)"
    by (simp add: test_provider_def test_retrieve_def failIfScripted_def find_stored_def expire_if_due_def Let_def
        cancel_example_def cancel_remote_def)
  have "remote_status cancel_remote \<noteq> Paid"
    using released_hold_never_paid [OF tp.payment_provider_axioms ok prov h k rel run ret] by simp
  moreover have "map hold_status (holds ?s) = [Released]"
    by (simp add: release_for_closing_def force_release_def releasable_def release_example_def ids update_where_def
        count_where_def recordStatus_def Let_def)
  ultimately show ?thesis using rel by auto
qed

text \<open>
  A loaded payments configuration is safe: the test provider is never chosen in production
  nor beside Bloque credentials, and in staging only when named; Bloque only with all its
  settings, a key of the mode's own prefix and a public URL.
\<close>

theorem provider_choice_is_safe:
  assumes "loadPaymentsConfig parse le env = Inr cfg"
  shows "case chosen cfg of
           TestProvider \<Rightarrow> le \<noteq> Production \<and> set_keys env = [] \<and>
             (le = Staging \<longrightarrow> env PROVIDER_KEY = Some ''test'')
         | BloqueProvider b \<Rightarrow> set_keys env = KEYS \<and> prefix (KEY_PREFIX (bloque_mode b)) (secretKey b) \<and>
             env SECRET_KEY = Some (secretKey b) \<and> env WEBHOOK_KEY = Some (webhookSecret b) \<and>
             webhookSecret b \<noteq> [] \<and> mode_of (env MODE_KEY) = Some (bloque_mode b) \<and>
             env PUBLIC_URL_KEY = Some (publicUrl cfg)"
proof -
  obtain url name where url: "readPublicUrl parse (env PUBLIC_URL_KEY) = Inr url"
    and name: "provider_named le env = Inr name"
    and cfg: "(case name of NamedTest \<Rightarrow>
         and_then (guard (le \<noteq> Production) TestInProduction) (\<lambda>_.
         and_then (guard (set_keys env = []) TestWithBloque) (\<lambda>_.
         Inr \<lparr>chosen = TestProvider,
              publicUrl = (case url of None \<Rightarrow> DEFAULT_PUBLIC_URL | Some u \<Rightarrow> u)\<rparr>))
     | NamedBloque \<Rightarrow> load_bloque env url) = Inr cfg"
    using assms by (auto simp: loadPaymentsConfig_def and_then_Inr_iff)
  show ?thesis
  proof (cases name)
    case NamedTest
    then show ?thesis using cfg name
      by (auto simp: fallible_iffs provider_named_def set_variable_Some split: option.splits if_splits)
  next
    case NamedBloque
    then obtain m u where all: "length (set_keys env) = length KEYS" and m: "mode_of (env MODE_KEY) = Some m"
      and key: "prefix (KEY_PREFIX m) (case env SECRET_KEY of None \<Rightarrow> [] | Some k \<Rightarrow> k)" and u: "url = Some u"
      and c: "cfg = \<lparr>chosen = BloqueProvider \<lparr>bloque_mode = m, secretKey = (case env SECRET_KEY of None \<Rightarrow> [] | Some k \<Rightarrow> k),
        webhookSecret = (case env WEBHOOK_KEY of None \<Rightarrow> [] | Some k \<Rightarrow> k)\<rparr>, publicUrl = u\<rparr>"
      using cfg by (auto simp: load_bloque_def Let_def split: if_splits option.splits)
    obtain k w where k: "env SECRET_KEY = Some k" "k \<noteq> []" and w: "env WEBHOOK_KEY = Some w" "w \<noteq> []"
      using all_keys_set [OF all] mode_key_in by blast
    have "set_keys env = KEYS"
      using all by (metis set_keys_def length_filter_less less_irrefl filter_True)
    moreover have "env PUBLIC_URL_KEY = Some u"
      using url u by (auto simp: readPublicUrl_def split: option.splits if_splits)
    ultimately show ?thesis using c k w m key by simp
  qed
qed

theorem provider_choice_is_safe_witness:
  "set_keys example_environment = KEYS \<and> prefix (KEY_PREFIX Sandbox) ''sk_test_1''"
  using provider_choice_is_safe [OF example_loads] by (simp add: example_config_def)

section \<open>Checkout links\<close>

text \<open>
  A confirmed link is final: linking, confirming and discarding leave every confirmed
  checkout's row as it is, and never confirm a checkout nobody is linked to.
\<close>

theorem confirmed_link_is_final:
  assumes "\<forall>c \<in> set (checkout_sessions s). link_confirmed_at c \<noteq> None \<longrightarrow> holder_account c \<noteq> None"
    and "s' = snd (linkCheckout E req secret at s) \<or> s' = snd (confirmLink E req secret pairing at s) \<or>
         s' = snd (discardLink E req secret at s)"
  shows "(\<forall>c \<in> set (checkout_sessions s'). link_confirmed_at c \<noteq> None \<longrightarrow> holder_account c \<noteq> None) \<and>
         (\<forall>c \<in> set (checkout_sessions s). link_confirmed_at c \<noteq> None \<longrightarrow> c \<in> set (checkout_sessions s'))"
proof -
  have ok: "link_ok s" using assms(1) by (simp add: link_ok_def)
  have "s' = s \<or> (\<exists>found acc sess. s' = link_tx req found acc sess at s) \<or>
      (\<exists>row acc. holder_account row \<noteq> None \<and> s' = confirm_tx req row acc at s) \<or>
      (\<exists>row. s' = discard_tx E req row secret at s)"
    using assms(2)
  proof (elim disjE)
    assume "s' = snd (linkCheckout E req secret at s)"
    then have "s' = s \<or> (\<exists>found acc sess. s' = link_tx req found acc sess at s)"
      unfolding linkCheckout_def Let_def by (auto split: sum.split_asm principal.split_asm)
    then show ?thesis by blast
  next
    assume "s' = snd (confirmLink E req secret pairing at s)"
    then have "s' = s \<or> (\<exists>row acc. holder_account row \<noteq> None \<and> s' = confirm_tx req row acc at s)"
      unfolding confirmLink_def Let_def by (auto split: sum.split_asm option.split_asm if_split_asm)
    then show ?thesis by blast
  next
    assume "s' = snd (discardLink E req secret at s)"
    then have "s' = s \<or> (\<exists>row. s' = discard_tx E req row secret at s)"
      unfolding discardLink_def Let_def by (auto split: sum.split_asm if_split_asm)
    then show ?thesis by blast
  qed
  then show ?thesis
    using ok link_tx_keeps [OF ok] confirm_tx_keeps [OF ok] discard_tx_keeps [OF ok]
    unfolding link_ok_def by (elim disjE exE conjE) auto
qed

theorem confirmed_link_is_final_witness:
  "walk_checkout \<in> set (checkout_sessions (snd (discardLink walk_env walk_request ''token'' 1500 walk3)))"
proof -
  have "holder_account walk_checkout \<noteq> None" "link_confirmed_at walk_checkout \<noteq> None"
    by (simp_all add: walk_checkout_simps)
  then have "\<forall>c \<in> set (checkout_sessions walk3). link_confirmed_at c \<noteq> None \<longrightarrow> holder_account c \<noteq> None"
    by (simp add: walk3_checkouts)
  from confirmed_link_is_final [OF this, of "snd (discardLink walk_env walk_request ''token'' 1500 walk3)" walk_env walk_request
      "''token''" 1500] \<open>link_confirmed_at walk_checkout \<noteq> None\<close>
  show ?thesis by (simp add: walk3_checkouts)
qed

text \<open>
  A link that raced a discard binds nobody: the handoff it was asked with belongs to the
  generation discarded.
\<close>

theorem discarded_handoff_links_nothing:
  assumes "distinct (map checkout_id (checkout_sessions s))" "found \<in> set (checkout_sessions s)"
    and "link_confirmed_at found = None"
  shows "checkout_sessions (link_tx req found acc sess at (discard_tx E req' found token at' s)) =
         checkout_sessions (discard_tx E req' found token at' s)"
  unfolding link_tx_sessions
proof (rule update_where_none)
  fix c assume c: "c \<in> set (checkout_sessions (discard_tx E req' found token at' s))"
  then have "c \<in> (\<lambda>c. if discardable found c then c\<lparr>holder_account := None, linked_session_id := None,
      linked_request_id := None, linked_at := None, handoff_generation := handoff_generation found + 1,
      handoff_token_hash := hashSecret E (handoffTokenOf E token (handoff_generation found + 1))\<rparr> else c) `
        set (checkout_sessions s)"
    by (simp add: discard_tx_sessions set_update_where)
  then obtain c0 where c0: "c0 \<in> set (checkout_sessions s)" "c = (if discardable found c0 then c0\<lparr>holder_account := None,
      linked_session_id := None, linked_request_id := None, linked_at := None, handoff_generation := handoff_generation found + 1,
      handoff_token_hash := hashSecret E (handoffTokenOf E token (handoff_generation found + 1))\<rparr> else c0)"
    by (rule imageE)
  show "\<not> linkable found c"
  proof (cases "checkout_id c0 = checkout_id found")
    case True
    then have "c0 = found" using distinct_key_eq [OF assms(1) c0(1) assms(2)] by simp
    then have "discardable found c0" using assms(3) by (simp add: discardable_def)
    then show ?thesis using c0(2) by (simp add: linkable_def)
  next
    case False
    then show ?thesis using c0(2) by (auto simp: linkable_def)
  qed
qed

theorem discarded_handoff_links_nothing_witness:
  "map holder_account (checkout_sessions (link_tx walk_request open_checkout ''other'' ''session'' 1700
     (discard_tx walk_env walk_request open_checkout ''token'' 1600
        (empty_store\<lparr>checkout_sessions := [open_checkout]\<rparr>)))) = [None]"
proof -
  let ?s = "empty_store\<lparr>checkout_sessions := [open_checkout]\<rparr>"
  have "map holder_account (checkout_sessions (discard_tx walk_env walk_request open_checkout ''token'' 1600 ?s)) = [None]"
    by code_simp
  with discarded_handoff_links_nothing [of ?s open_checkout walk_request "''other''" "''session''" 1700 walk_env walk_request
      "''token''" 1600]
  show ?thesis by (simp add: open_checkout_def)
qed

text \<open>
  A pairing code is always six decimal digits, whatever the digest it is read from.
\<close>

theorem pairing_code_shape:
  "length (pairingCodeOf E c acc) = 6 \<and> set (pairingCodeOf E c acc) \<subseteq> set ''0123456789''"
proof -
  let ?n = "readUInt32BE (hmac E (token_hash c) (''kippu/checkout/pairing/'' @ to_hex (handoff_token_hash c) @ ''/'' @ acc))
     mod 10 ^ PAIRING_CODE_DIGITS"
  have "?n < 10 ^ Suc 5" by (simp add: PAIRING_CODE_DIGITS_def)
  then have "length (decimal ?n) \<le> 6" using decimal_length [of ?n 5] by simp
  then show ?thesis
    using decimal_digits [of ?n] by (auto simp: pairingCodeOf_def Let_def padStart_def PAIRING_CODE_DIGITS_def)
qed

section \<open>Granted issuance\<close>

text \<open>
  An issuance nothing was signed for leaves no trace among the granted issuances: its
  reservation is taken back, and only that one.
\<close>

theorem unsigned_grant_leaves_nothing:
  assumes "reachable E L s" "env_ok E" "issueGranted E L R org req inp disc at s = (Inl e, s')"
    and "\<forall>cmd. \<exists>f. R org req cmd = NothingSigned f"
  shows "granted_issuances s' = granted_issuances s"
proof -
  have below: "granted_id g < granted_seq s" if "g \<in> set (granted_issuances s)" for g
    using reachable_inv [OF assms(1,2)] that by (auto simp: sales_inv_def grants_ok_def core_of_def)
  show ?thesis
  proof (cases "prepare_grant E L org inp disc s")
    case (Inl err)
    then show ?thesis using assms(3) by (simp add: issueGranted_def)
  next
    case (Inr prep)
    obtain c seat pl where prep: "prep = (c, seat, pl)" by (cases prep)
    show ?thesis
    proof (cases "reserve E L org (requestId req) inp seat at s")
      case (Inl err)
      then show ?thesis using assms(3) Inr prep by (auto simp: issueGranted_def in_transaction_def)
    next
      case reserved: (Inr w)
      obtain i s1 where w: "w = (i, s1)" by (cases w)
      obtain f where "R org req (grant_command inp pl c) = NothingSigned f" using assms(4) by blast
      then have s': "s' = forget_grant i s1"
        using assms(3) Inr prep reserved w by (simp add: issueGranted_def in_transaction_def)
      obtain ticket where "granted_issuances s1 = granted_issuances s @ [new_grant org (requestId req) inp ticket i at]"
        and i: "i = granted_seq s"
        using reserve_grants [OF reserved [unfolded w]] by blast
      moreover have "filter (\<lambda>g. granted_id g \<noteq> i) (granted_issuances s) = granted_issuances s"
        using below i by (intro filter_True) fastforce
      ultimately show ?thesis by (simp add: s' forget_grant_def new_grant_def)
    qed
  qed
qed

theorem unsigned_grant_leaves_nothing_witness:
  "granted_issuances (snd (issueGranted walk_env walk_ledger (\<lambda>_ _ _. NothingSigned OtherError) ''org'' walk_request
     grant_example ''disc'' 20 walk_granting)) = granted_issuances walk_granting"
proof -
  have "reachable walk_env walk_ledger walk_granting" using reachable_step [OF reach2 step_class [OF walk_granting]] .
  moreover obtain e where "issueGranted walk_env walk_ledger (\<lambda>_ _ _. NothingSigned OtherError) ''org'' walk_request
      grant_example ''disc'' 20 walk_granting = (Inl e, snd (issueGranted walk_env walk_ledger
        (\<lambda>_ _ _. NothingSigned OtherError) ''org'' walk_request grant_example ''disc'' 20 walk_granting))"
    using grant_reserves by (metis isl_def prod.collapse)
  ultimately show ?thesis using unsigned_grant_leaves_nothing walk_env_ok by blast
qed

text \<open>
  An invitation is redeemed once: after a claim, every redemption with the same token is
  refused as already redeemed and changes nothing, until the claim's issuance is refused.
\<close>

theorem invitation_claimed_once:
  assumes "claim_invitation (hashSecret E token) holder s = (Some r, s1)"
  shows "redeem E L R holder' req token disc at s1 =
    (Inl (RefusedRequest CONFLICT (Some ''already-redeemed'')), s1)"
proof -
  let ?P = "\<lambda>x. inv_token_hash x = hashSecret E token \<and> inv_status x = InvOpen"
  have none: "find ?P (invitations s1) = None" using claimed_not_open [OF assms] .
  have "update_where ?P f (invitations s1) = invitations s1" for f
    using none by (intro update_where_none) (auto simp: find_None_iff)
  then have claim: "claim_invitation (hashSecret E token) holder' s1 = (None, s1)"
    using none by (simp add: claim_invitation_def)
  obtain x where x: "x \<in> set (invitations s)" "inv_token_hash x = hashSecret E token \<and> inv_status x = InvOpen"
  proof -
    obtain y where "find ?P (invitations s) = Some y" using assms by (auto simp: claim_invitation_def Let_def)
    from find_Some_in [OF this] that show thesis by blast
  qed
  have "exists_where (\<lambda>y. inv_token_hash y = hashSecret E token) (invitations s1)"
    unfolding exists_where_iff
  proof (rule bexI)
    show "x\<lparr>inv_status := Redeeming, inv_holder := Some holder\<rparr> \<in> set (invitations s1)"
      using assms x by (auto simp: claim_invitation_def Let_def set_update_where intro!: rev_image_eqI [of x])
  qed (use x in simp)
  with claim show ?thesis by (simp add: redeem_def)
qed

theorem invitation_claimed_once_witness:
  "redeem walk_env walk_ledger (\<lambda>_ _ _. NothingSigned OtherError) ''second'' walk_request ''secret'' ''disc'' 30
     (snd (claim_invitation (hashSecret walk_env ''secret'') ''first'' invitation_store)) =
   (Inl (RefusedRequest CONFLICT (Some ''already-redeemed'')),
    snd (claim_invitation (hashSecret walk_env ''secret'') ''first'' invitation_store))"
proof -
  obtain r where "claim_invitation (hashSecret walk_env ''secret'') ''first'' invitation_store =
      (Some r, snd (claim_invitation (hashSecret walk_env ''secret'') ''first'' invitation_store))"
    by (simp add: claim_invitation_def invitation_store_def)
  from invitation_claimed_once [OF this] show ?thesis .
qed

section \<open>Audit\<close>




end
